(* ===== verification/Usipy_Arith.thy ===== *)
theory Usipy_Arith
  imports Main
begin

text \<open>
  Natural-number facts on division the other theories need, proved below the word
  library so that the arithmetic procedures see plain goals only.
\<close>

lemma div_step8_parts:
  assumes "1 \<le> r" "r < 8"
  shows "(q * 8 + r + 7) div 8 = q + (1 :: nat)"
proof (rule div_nat_eqI)
  show "8 * (q + 1) \<le> q * 8 + r + 7" using assms by simp
  show "q * 8 + r + 7 < 8 * Suc (q + 1)" using assms by simp
qed

lemma div_step8:
  assumes "(n :: nat) mod 8 \<noteq> 0"
  shows "(n + 7) div 8 = n div 8 + 1"
proof -
  have "1 \<le> n mod 8" using assms by simp
  then have "(n div 8 * 8 + n mod 8 + 7) div 8 = n div 8 + 1"
    by (rule div_step8_parts) simp
  then show ?thesis by simp
qed

end
