(* ===== verification/Usipy_Prelude.thy ===== *)
theory Usipy_Prelude
  imports "HOL-Library.Word" "HOL-Library.Monad_Syntax" "HOL-Library.Sublist" Usipy_Arith
begin

text \<open>
  Shared vocabulary of the development: the C character and integer types, the result type of
  code that can abort, the hint collections, and lemmas on lists and options that
  several components use.

  \<^item> A \<open>char *\<close> with a length is a \<^typ>\<open>string\<close>.
  \<^item> \<open>size_t\<close> is a 64-bit word and \<open>unsigned int\<close> / \<open>uint32_t\<close> are 32-bit words (LP64).
  \<^item> \<open>'a abortable\<close> is \<open>'a option\<close>: \<open>None\<close> is an execution that fails a \<open>USIPY_DASSERT\<close> (it
    aborts the process) or whose behaviour C leaves undefined. A failure the code reports to its
    caller is a value inside it, never \<open>None\<close>.
\<close>

type_synonym size_t = "64 word"
type_synonym uint32 = "32 word"
type_synonym 'a abortable = "'a option"

named_theorems heap_simps \<open>how the heap operations move the fill mark\<close>
named_theorems str_simps \<open>facts on the string splitters\<close>
named_theorems lower_simps \<open>facts on ASCII case folding\<close>
named_theorems build_simps \<open>facts on the bounded output builders\<close>

definition dassert :: "bool \<Rightarrow> unit abortable" where
  "dassert b = (if b then Some () else None)"

lemma dassert_simps [simp]:
  "dassert True = Some ()"
  "dassert False = None"
  "dassert b = Some u \<longleftrightarrow> b"
  "dassert b = None \<longleftrightarrow> \<not> b"
  by (auto simp: dassert_def)

lemma dassert_bind [simp]:
  "Option.bind (dassert b) f = Some x \<longleftrightarrow> b \<and> f () = Some x"
  by (cases b) auto

lemma dassert_bind_True: "b \<Longrightarrow> Option.bind (dassert b) f = f ()"
  by simp

lemma option_not_None_iff: "(x \<noteq> None) \<longleftrightarrow> (\<exists>y. x = Some y)"
  by (cases x) auto

lemma word_of_unat: "of_nat (unat (w :: 'a::len word)) = w"
  by simp

lemma unat_eqD: "unat (w :: 'a::len word) = n \<Longrightarrow> w = of_nat n"
  by auto

subsection \<open>ASCII\<close>

abbreviation CR :: char where "CR \<equiv> CHR 0x0D"
abbreviation LF :: char where "LF \<equiv> CHR 0x0A"
abbreviation TAB :: char where "TAB \<equiv> CHR 0x09"
abbreviation SP :: char where "SP \<equiv> CHR 0x20"
abbreviation NUL :: char where "NUL \<equiv> CHR 0x00"
abbreviation DQUOTE :: char where "DQUOTE \<equiv> CHR 0x22"

abbreviation CRLF :: string where "CRLF \<equiv> [CR, LF]"

text \<open>The specification of ASCII case folding the optimised comparisons are compared with.\<close>

definition byte_lower :: "nat \<Rightarrow> nat" where
  "byte_lower b = (if 65 \<le> b \<and> b \<le> 90 then b + 32 else b)"

definition ascii_lower :: "char \<Rightarrow> char" where
  "ascii_lower c = char_of (byte_lower (of_char c))"

definition ieq :: "string \<Rightarrow> string \<Rightarrow> bool" where
  "ieq s t \<longleftrightarrow> map ascii_lower s = map ascii_lower t"

lemma of_char_less_256 [simp]: "(of_char c :: nat) < 256"
proof -
  have "(of_char c :: nat) = of_char c mod 256"
    by (metis char_of_eq_iff of_char_mod_256)
  then show ?thesis by (metis mod_less_divisor zero_less_numeral)
qed

lemma byte_lower_less: "b < 256 \<Longrightarrow> byte_lower b < 256"
  by (simp add: byte_lower_def)

lemma of_char_ascii_lower [lower_simps]:
  "(of_char (ascii_lower c) :: nat) = byte_lower (of_char c)"
  by (simp add: ascii_lower_def byte_lower_less)

lemma byte_lower_idem [simp]: "byte_lower (byte_lower b) = byte_lower b"
  by (simp add: byte_lower_def)

lemma ascii_lower_idem [simp]: "ascii_lower (ascii_lower c) = ascii_lower c"
  by (simp add: ascii_lower_def byte_lower_less)

lemma ascii_lower_eq_iff:
  "ascii_lower c = ascii_lower d \<longleftrightarrow> byte_lower (of_char c) = byte_lower (of_char d)"
  by (metis of_char_ascii_lower of_char_eq_iff)

lemma ieq_refl [simp]: "ieq s s"
  by (simp add: ieq_def)

lemma ieq_sym: "ieq s t \<Longrightarrow> ieq t s"
  by (simp add: ieq_def)

lemma ieq_trans: "ieq s t \<Longrightarrow> ieq t u \<Longrightarrow> ieq s u"
  by (simp add: ieq_def)

lemma ieq_length: "ieq s t \<Longrightarrow> length s = length t"
  unfolding ieq_def by (rule map_eq_imp_length_eq)

subsection \<open>Lists\<close>

lemma dropWhile_suffix_length: "length (dropWhile P xs) \<le> length xs"
  by (rule length_dropWhile_le)

lemma dropWhile_id: "(xs = [] \<or> \<not> P (hd xs)) \<Longrightarrow> dropWhile P xs = xs"
  by (cases xs) auto

lemma set_dropWhile_subset: "set (dropWhile P xs) \<subseteq> set xs"
  by (auto dest: set_dropWhileD)

lemma prefix_take_mono: "a \<le> b \<Longrightarrow> prefix (take a xs) (take b xs)"
  by (metis min.absorb1 take_is_prefix take_take)

text \<open>Overwriting a stretch of a byte store in place.\<close>

definition overwrite :: "nat \<Rightarrow> 'a list \<Rightarrow> 'a list \<Rightarrow> 'a list" where
  "overwrite off src dst = take off dst @ src @ drop (off + length src) dst"

lemma length_overwrite [simp]:
  "off + length src \<le> length dst \<Longrightarrow> length (overwrite off src dst) = length dst"
  by (simp add: overwrite_def)

lemma overwrite_read:
  "off \<le> length dst \<Longrightarrow> take (length src) (drop off (overwrite off src dst)) = src"
  by (simp add: overwrite_def)

lemma overwrite_below:
  "off \<le> length dst \<Longrightarrow> take off (overwrite off src dst) = take off dst"
  by (simp add: overwrite_def)

lemma overwrite_prefix_read:
  assumes "a + n \<le> off" "off \<le> length dst"
  shows "take n (drop a (overwrite off src dst)) = take n (drop a dst)"
  using assms by (simp add: overwrite_def drop_take)

end
