(* ===== verification/Usipy_Str.thy ===== *)
theory Usipy_Str
  imports Usipy_Prelude
begin

text \<open>
  Component \<open>usipy_str\<close> (\<open>src/public/usipy_str.h\<close>, \<open>src/usipy_str.c\<close>): length-counted strings and
  the splitters every parser is written with. A \<open>struct usipy_str\<close> is the \<^typ>\<open>string\<close> it
  delimits; the null string and the empty one are the same value, as every user of the type tests
  the length only. An operation that returns \<open>-1\<close> and leaves its outputs alone is \<open>None\<close>; output
  arguments are the components of the result.
\<close>

subsection \<open>Character classes and trimming\<close>

definition USIPY_ISWS :: "char \<Rightarrow> bool" where
  "USIPY_ISWS ch \<longleftrightarrow> ch = SP \<or> ch = TAB"

definition USIPY_ISLWS :: "char \<Rightarrow> bool" where
  "USIPY_ISLWS ch \<longleftrightarrow> USIPY_ISWS ch \<or> ch = CR \<or> ch = LF"

fun usipy_str_trm_b :: "string \<Rightarrow> string" where
  "usipy_str_trm_b [] = []"
| "usipy_str_trm_b (c # s) = (if USIPY_ISWS c then usipy_str_trm_b s else c # s)"

function usipy_str_trm_e :: "string \<Rightarrow> string" where
  "usipy_str_trm_e s =
     (if 0 < length s \<and> USIPY_ISWS (s ! (length s - 1))
      then usipy_str_trm_e (take (length s - 1) s) else s)"
  by auto
termination by (relation "measure length") auto

fun usipy_str_ltrm_b :: "string \<Rightarrow> string" where
  "usipy_str_ltrm_b [] = []"
| "usipy_str_ltrm_b (c # s) = (if USIPY_ISLWS c then usipy_str_ltrm_b s else c # s)"

function usipy_str_ltrm_e :: "string \<Rightarrow> string" where
  "usipy_str_ltrm_e s =
     (if 0 < length s \<and> USIPY_ISLWS (s ! (length s - 1))
      then usipy_str_ltrm_e (take (length s - 1) s) else s)"
  by auto
termination by (relation "measure length") auto

declare usipy_str_trm_e.simps [simp del] usipy_str_ltrm_e.simps [simp del]

lemma trm_b_dropWhile [str_simps]: "usipy_str_trm_b s = dropWhile USIPY_ISWS s"
  by (induction s) auto

lemma ltrm_b_dropWhile [str_simps]: "usipy_str_ltrm_b s = dropWhile USIPY_ISLWS s"
  by (induction s) auto

lemma trm_e_snoc [simp]:
  "usipy_str_trm_e [] = []"
  "usipy_str_trm_e (s @ [c]) = (if USIPY_ISWS c then usipy_str_trm_e s else s @ [c])"
  by (subst usipy_str_trm_e.simps; simp)+

lemma ltrm_e_snoc [simp]:
  "usipy_str_ltrm_e [] = []"
  "usipy_str_ltrm_e (s @ [c]) = (if USIPY_ISLWS c then usipy_str_ltrm_e s else s @ [c])"
  by (subst usipy_str_ltrm_e.simps; simp)+

lemma trm_e_dropWhile [str_simps]: "usipy_str_trm_e s = rev (dropWhile USIPY_ISWS (rev s))"
  by (induction s rule: rev_induct) auto

lemma ltrm_e_dropWhile [str_simps]: "usipy_str_ltrm_e s = rev (dropWhile USIPY_ISLWS (rev s))"
  by (induction s rule: rev_induct) auto

lemma ltrm_b_id: "s = [] \<or> \<not> USIPY_ISLWS (hd s) \<Longrightarrow> usipy_str_ltrm_b s = s"
  by (cases s) auto

lemma ltrm_e_id: "s = [] \<or> \<not> USIPY_ISLWS (last s) \<Longrightarrow> usipy_str_ltrm_e s = s"
  by (cases s rule: rev_cases) auto

lemma ltrm_length: "length (usipy_str_ltrm_b s) \<le> length s" "length (usipy_str_ltrm_e s) \<le> length s"
  by (simp_all add: str_simps length_dropWhile_le length_rev le_trans[OF length_dropWhile_le])

subsection \<open>Splitting\<close>

text \<open>\<open>memchr\<close>, as the offset of the first match.\<close>

fun memchr :: "char \<Rightarrow> string \<Rightarrow> nat option" where
  "memchr d [] = None"
| "memchr d (c # s) = (if c = d then Some 0 else map_option Suc (memchr d s))"

definition usipy_str_split :: "string \<Rightarrow> char \<Rightarrow> (string \<times> string) option" where
  "usipy_str_split x dlm =
     (case memchr dlm x of
        None \<Rightarrow> None
      | Some r \<Rightarrow> Some (take r x, drop (r + 1) x))"

text \<open>Both \<open>split_elem\<close> routines return the element and the rest of the iterator.\<close>

definition usipy_str_split_elem :: "string \<Rightarrow> char \<Rightarrow> (string \<times> string) option" where
  "usipy_str_split_elem iter dlm =
     (case memchr dlm iter of
        None \<Rightarrow> None
      | Some r \<Rightarrow> Some (usipy_str_ltrm_e (take r iter), usipy_str_ltrm_b (drop (r + 1) iter)))"

definition usipy_str_split_elem_nlws :: "string \<Rightarrow> char \<Rightarrow> (string \<times> string) option" where
  "usipy_str_split_elem_nlws iter dlm =
     (case memchr dlm iter of
        None \<Rightarrow> None
      | Some r \<Rightarrow> Some (take r iter, drop (r + 1) iter))"

definition usipy_str_split3 :: "string \<Rightarrow> char \<Rightarrow> (string \<times> string \<times> string) option" where
  "usipy_str_split3 x dlm =
     (case memchr dlm x of
        None \<Rightarrow> None
      | Some r0 \<Rightarrow>
          if length x - (r0 + 1) = 0 then None
          else (case memchr dlm (drop (r0 + 1) x) of
                  None \<Rightarrow> None
                | Some r1 \<Rightarrow>
                    Some (take r0 x, take r1 (drop (r0 + 1) x),
                      drop (r1 + 1) (drop (r0 + 1) x))))"

fun lws_index :: "string \<Rightarrow> nat option" where
  "lws_index [] = None"
| "lws_index (c # s) = (if USIPY_ISLWS c then Some 0 else map_option Suc (lws_index s))"

definition usipy_str_splitlws :: "string \<Rightarrow> (string \<times> string) option" where
  "usipy_str_splitlws iv =
     (case lws_index iv of
        None \<Rightarrow> None
      | Some cp \<Rightarrow> Some (take cp iv, usipy_str_ltrm_b (drop (cp + 1) iv)))"

definition usipy_str_eq :: "string \<Rightarrow> string \<Rightarrow> bool" where
  "usipy_str_eq a b \<longleftrightarrow>
     (if length a \<noteq> length b then False else if length a = 0 then True else a = b)"

lemma str_eq_iff [simp]: "usipy_str_eq a b \<longleftrightarrow> a = b"
  by (auto simp: usipy_str_eq_def)

subsection \<open>Numbers\<close>

text \<open>
  \<open>char\<close> may be signed; for a byte above 127 the guard \<open>*cp > '9' || *cp < '0'\<close> is true under
  either signedness, so the unsigned reading below is the code's. \<open>UINT_MAX - d\<close> and the
  division are computed on 32-bit words.
\<close>

fun atoui_loop :: "string \<Rightarrow> uint32 \<Rightarrow> uint32 option" where
  "atoui_loop [] r = Some r"
| "atoui_loop (c # cp) r =
     (if of_char c > (57 :: nat) \<or> of_char c < (48 :: nat) then None
      else let d = of_nat (of_char c - 48) in
           if r > (- 1 - d) div 10 then None else atoui_loop cp (r * 10 + d))"

definition usipy_str_atoui_range :: "string \<Rightarrow> uint32 \<Rightarrow> uint32 \<Rightarrow> uint32 option" where
  "usipy_str_atoui_range x rmin rmax =
     (case atoui_loop x 0 of
        None \<Rightarrow> None
      | Some r \<Rightarrow> if r < rmin \<or> (rmax \<ge> rmin \<and> r > rmax) then None else Some r)"

subsection \<open>What the splitters do\<close>

lemma memchr_Some_iff:
  "memchr d s = Some n \<longleftrightarrow> n < length s \<and> s ! n = d \<and> d \<notin> set (take n s)"
proof (induction s arbitrary: n)
  case (Cons c s)
  then show ?case by (cases n) auto
qed simp

lemma memchr_None_iff [str_simps]: "memchr d s = None \<longleftrightarrow> d \<notin> set s"
  by (induction s) auto

lemma memchr_append [str_simps]:
  "d \<notin> set a \<Longrightarrow> memchr d (a @ d # b) = Some (length a)"
  by (induction a) auto

lemma memchr_absent [str_simps]: "d \<notin> set s \<Longrightarrow> memchr d s = None"
  by (simp add: memchr_None_iff)

lemma split_append [simp]: "d \<notin> set y \<Longrightarrow> usipy_str_split (y @ d # z) d = Some (y, z)"
  by (simp add: usipy_str_split_def memchr_append)

lemma split_absent [simp]: "d \<notin> set y \<Longrightarrow> usipy_str_split y d = None"
  by (simp add: usipy_str_split_def memchr_absent)

lemma split_Some_iff:
  "usipy_str_split x d = Some (y, z) \<longleftrightarrow> x = y @ d # z \<and> d \<notin> set y"
proof (cases "d \<in> set x")
  case True
  then obtain a b where "x = a @ d # b" "d \<notin> set a"
    by (meson split_list_first)
  then show ?thesis
    by (metis option.inject prod.inject split_append)
qed auto

lemma split_None_iff: "usipy_str_split x d = None \<longleftrightarrow> d \<notin> set x"
proof (cases "d \<in> set x")
  case True
  then obtain a b where "x = a @ d # b" "d \<notin> set a"
    by (meson split_list_first)
  then show ?thesis by simp
qed simp

lemma split_nlws_eq [str_simps]: "usipy_str_split_elem_nlws = usipy_str_split"
  by (rule ext)+ (simp add: usipy_str_split_elem_nlws_def usipy_str_split_def)

lemma split_elem_eq [str_simps]:
  "usipy_str_split_elem x d =
     map_option (\<lambda>(y, z). (usipy_str_ltrm_e y, usipy_str_ltrm_b z)) (usipy_str_split x d)"
  by (simp add: usipy_str_split_elem_def usipy_str_split_def split: option.splits)

lemma split_length: "usipy_str_split x d = Some (y, z) \<Longrightarrow> length y + length z < length x"
  by (auto simp: split_Some_iff)

lemma split_elem_length:
  "usipy_str_split_elem x d = Some (y, z) \<Longrightarrow> length y + length z < length x"
  by (clarsimp simp: split_elem_eq)
     (meson add_mono le_less_trans ltrm_length split_length)

lemma split3_Some_iff:
  "usipy_str_split3 x d = Some (y, z, w) \<longleftrightarrow>
     x = y @ d # z @ d # w \<and> d \<notin> set y \<and> d \<notin> set z"
proof -
  have "usipy_str_split3 x d =
      Option.bind (usipy_str_split x d)
        (\<lambda>(y, r). map_option (\<lambda>(z, w). (y, z, w)) (usipy_str_split r d))"
    by (auto simp: usipy_str_split3_def usipy_str_split_def split: option.splits)
  then show ?thesis
    by (auto simp: bind_eq_Some_conv split_Some_iff)
qed

lemma splitlws_append:
  "\<forall>c\<in>set t. \<not> USIPY_ISLWS c \<Longrightarrow> USIPY_ISLWS w \<Longrightarrow>
     usipy_str_splitlws (t @ w # r) = Some (t, usipy_str_ltrm_b r)"
proof -
  assume "\<forall>c\<in>set t. \<not> USIPY_ISLWS c" "USIPY_ISLWS w"
  then have "lws_index (t @ w # r) = Some (length t)" by (induction t) auto
  then show ?thesis by (simp add: usipy_str_splitlws_def)
qed

lemma splitlws_length: "usipy_str_splitlws x = Some (y, z) \<Longrightarrow> length y \<le> length x \<and> length z \<le> length x"
proof -
  assume "usipy_str_splitlws x = Some (y, z)"
  then obtain n where "y = take n x" "z = usipy_str_ltrm_b (drop (n + 1) x)"
    by (auto simp: usipy_str_splitlws_def split: option.splits)
  then show ?thesis using ltrm_length(1)[of "drop (n + 1) x"] by simp
qed

subsection \<open>What the number parser does\<close>

definition is_digit :: "char \<Rightarrow> bool" where
  "is_digit c \<longleftrightarrow> (48 :: nat) \<le> of_char c \<and> of_char c \<le> (57 :: nat)"

definition digits_value :: "nat \<Rightarrow> string \<Rightarrow> nat" where
  "digits_value r s = foldl (\<lambda>r c. r * 10 + (of_char c - 48)) r s"

lemma digits_value_simps [simp]:
  "digits_value r [] = r"
  "digits_value r (c # s) = digits_value (r * 10 + (of_char c - 48)) s"
  by (simp_all add: digits_value_def)

lemma digits_value_ge: "r \<le> digits_value r s"
proof (induction s arbitrary: r)
  case (Cons c s)
  have "r \<le> r * 10 + (of_char c - 48)" by simp
  also have "\<dots> \<le> digits_value (r * 10 + (of_char c - 48)) s" by (rule Cons.IH)
  finally show ?case by simp
qed simp

lemma unat_max_uint [simp]: "unat (- 1 :: uint32) = 2 ^ 32 - 1"
  by (simp add: unsigned_minus_1_eq_mask mask_eq_exp_minus_1)

text \<open>The overflow guard of the loop is exact.\<close>

lemma atoui_guard:
  fixes r :: uint32
  assumes "d < 10"
  shows "r > (- 1 - of_nat d) div 10 \<longleftrightarrow> \<not> unat r * 10 + d < 2 ^ 32"
proof -
  have d: "unat (of_nat d :: uint32) = d" using assms by (simp add: unat_of_nat)
  have "unat (- 1 - of_nat d :: uint32) = unat (- 1 :: uint32) - d"
    using assms by (subst unat_sub) (simp_all add: d word_le_nat_alt)
  then have "unat ((- 1 - of_nat d :: uint32) div 10) = (2 ^ 32 - 1 - d) div 10"
    by (simp add: unat_div)
  then have "r > (- 1 - of_nat d) div 10 \<longleftrightarrow> unat r > (2 ^ 32 - 1 - d) div 10"
    by (simp add: word_less_nat_alt)
  also have "\<dots> \<longleftrightarrow> \<not> unat r * 10 \<le> 2 ^ 32 - 1 - d"
    by (simp only: not_le[symmetric] less_eq_div_iff_mult_less_eq zero_less_numeral)
  also have "\<dots> \<longleftrightarrow> \<not> unat r * 10 + d < 2 ^ 32"
    using assms by simp linarith
  finally show ?thesis .
qed

lemma atoui_step:
  fixes r :: uint32
  assumes "d < 10" "unat r * 10 + d < 2 ^ 32"
  shows "unat (r * 10 + of_nat d) = unat r * 10 + d"
proof -
  have "r * 10 + of_nat d = of_nat (unat r * 10 + d)" by simp
  then show ?thesis using assms(2) by (simp only: unat_of_nat) simp
qed

lemma atoui_loop_spec:
  "atoui_loop s r =
     (if (\<forall>c\<in>set s. is_digit c) \<and> (s = [] \<or> digits_value (unat r) s < 2 ^ 32)
      then Some (of_nat (digits_value (unat r) s)) else None)"
proof (induction s arbitrary: r)
  case (Cons c s)
  define d where "d = (of_char c :: nat) - 48"
  show ?case
  proof (cases "is_digit c \<and> unat r * 10 + d < 2 ^ 32")
    case True
    then have d10: "d < 10" by (auto simp: d_def is_digit_def)
    have "atoui_loop (c # s) r = atoui_loop s (r * 10 + of_nat d)"
      using True atoui_guard[OF d10, of r] by (auto simp: d_def is_digit_def Let_def)
    then show ?thesis
      using True atoui_step[OF d10, of r] unfolding Cons.IH by (simp add: d_def)
  next
    case False
    show ?thesis
    proof (cases "is_digit c")
      case True
      then have d10: "d < 10" by (auto simp: d_def is_digit_def)
      have "2 ^ 32 \<le> digits_value (unat r * 10 + d) s"
        using False True digits_value_ge[of "unat r * 10 + d" s] by linarith
      then show ?thesis
        using False True atoui_guard[OF d10, of r] by (auto simp: d_def is_digit_def Let_def)
    next
      case False
      then show ?thesis by (auto simp: is_digit_def)
    qed
  qed
qed simp

end
