(* ===== verification/Usipy_Heap.thy ===== *)
theory Usipy_Heap
  imports Usipy_Str
begin

unbundle bit_operations_syntax

text \<open>
  Component \<open>usipy_msg_heap\<close> (\<open>src/usipy_msg_heap.c\<close>, \<open>public/usipy_msg_heap.h\<close>,
  \<open>usipy_msg_heap_inl.h\<close>, \<open>usipy_msg_heap_rb.h\<close>): the bump allocator every message and every
  transaction slot carves its storage from. Sizes are 64-bit words and wrap as \<open>size_t\<close> does.
  An address inside the heap is its offset from \<open>first\<close>. The bytes of the heap are kept for the
  operations that store strings; what a builder leaves above the fill mark when it fails is not
  tracked. A failed assertion is \<open>None\<close>.
\<close>

record usipy_msg_heap =
  mh_tsize :: size_t
  mh_alen :: size_t
  mh_checkpoints :: "size_t list"
  mh_ncheckpoints :: size_t
  mh_checkpoint_top :: size_t
  mh_first :: "64 word"
  mh_cells :: string

record usipy_msg_heap_cnt =
  cnt_alen :: size_t
  cnt_lastalen :: size_t

subsection \<open>The operations\<close>

definition USIPY_REALIGN :: "size_t \<Rightarrow> size_t" where
  "USIPY_REALIGN val = val AND NOT (push_bit 3 1 - 1)"

definition USIPY_ALIGNED_SIZE :: "size_t \<Rightarrow> size_t" where
  "USIPY_ALIGNED_SIZE val =
     (val AND NOT (push_bit 3 1 - 1)) +
     (if val AND (push_bit 3 1 - 1) \<noteq> 0 then push_bit 3 1 else 0)"

definition usipy_msg_heap_remaining :: "usipy_msg_heap \<Rightarrow> size_t" where
  "usipy_msg_heap_remaining hp = mh_tsize hp - mh_alen hp"

definition usipy_msg_heap_reserve ::
  "usipy_msg_heap \<Rightarrow> size_t \<Rightarrow> bool \<Rightarrow> size_t option \<times> usipy_msg_heap" where
  "usipy_msg_heap_reserve hp len align_start =
     (let off = (if align_start then USIPY_ALIGNED_SIZE (mh_alen hp) else mh_alen hp);
          total = (off - mh_alen hp) + len in
      if usipy_msg_heap_remaining hp < total then (None, hp)
      else (Some off, hp\<lparr>mh_alen := off + len\<rparr>))"

definition usipy_msg_heap_alloc ::
  "usipy_msg_heap \<Rightarrow> size_t \<Rightarrow> size_t option \<times> usipy_msg_heap" where
  "usipy_msg_heap_alloc hp len = usipy_msg_heap_reserve hp (USIPY_ALIGNED_SIZE len) True"

text \<open>\<open>bp\<close> is the address of the caller's buffer and \<open>mem\<close> the bytes found there.\<close>

definition usipy_msg_heap_init ::
  "64 word \<Rightarrow> string \<Rightarrow> size_t \<Rightarrow> size_t list \<Rightarrow> size_t \<Rightarrow> usipy_msg_heap" where
  "usipy_msg_heap_init bp mem len checkpoints ncheckpoints =
     (let ralgn = USIPY_REALIGN bp;
          frst = (if ralgn \<noteq> bp then ralgn + push_bit 3 1 else bp);
          ts = USIPY_REALIGN (len - (frst - bp)) in
      \<lparr>mh_tsize = ts, mh_alen = 0, mh_checkpoints = checkpoints,
       mh_ncheckpoints = ncheckpoints, mh_checkpoint_top = 0, mh_first = frst,
       mh_cells = take (unat ts) (drop (unat (frst - bp)) mem)\<rparr>)"

definition usipy_msg_heap_checkpoint ::
  "usipy_msg_heap \<Rightarrow> (size_t \<times> usipy_msg_heap) abortable" where
  "usipy_msg_heap_checkpoint hp = do {
     dassert (mh_checkpoint_top hp < mh_ncheckpoints hp);
     let cpi = mh_checkpoint_top hp;
     Some (cpi, hp\<lparr>mh_checkpoints := (mh_checkpoints hp)[unat cpi := mh_alen hp],
                   mh_checkpoint_top := cpi + 1\<rparr>)
   }"

text \<open>\<open>memset((char *)hp->first + off, 0, n)\<close>\<close>

definition wipe :: "nat \<Rightarrow> nat \<Rightarrow> string \<Rightarrow> string" where
  "wipe off n mem = overwrite off (replicate n NUL) mem"

definition USIPY_MSG_HEAP_CHECKPOINT_NONE :: size_t where
  "USIPY_MSG_HEAP_CHECKPOINT_NONE = - 1"

definition usipy_msg_heap_rollback ::
  "usipy_msg_heap \<Rightarrow> size_t \<Rightarrow> usipy_msg_heap abortable" where
  "usipy_msg_heap_rollback hp checkpoint_index = do {
     dassert (mh_checkpoint_top hp > 0);
     dassert (checkpoint_index \<noteq> USIPY_MSG_HEAP_CHECKPOINT_NONE);
     dassert (checkpoint_index = mh_checkpoint_top hp - 1);
     let alen = mh_checkpoints hp ! unat checkpoint_index;
     dassert (alen \<le> mh_alen hp);
     Some (hp\<lparr>mh_cells := wipe (unat alen) (unat (mh_alen hp - alen)) (mh_cells hp),
             mh_alen := alen\<rparr>)
   }"

text \<open>
  A string stored in the heap is the offset and length of its bytes; the null string is (0, 0).
\<close>

type_synonym slice = "size_t \<times> size_t"

definition slice_read :: "usipy_msg_heap \<Rightarrow> slice \<Rightarrow> string" where
  "slice_read hp sl = take (unat (snd sl)) (drop (unat (fst sl)) (mh_cells hp))"

definition usipy_msg_heap_append ::
  "usipy_msg_heap \<Rightarrow> string \<Rightarrow> slice option \<times> usipy_msg_heap" where
  "usipy_msg_heap_append hp src =
     (if length src = 0 then (Some (0, 0), hp)
      else case usipy_msg_heap_reserve hp (of_nat (length src)) False of
        (None, hp) \<Rightarrow> (None, hp)
      | (Some off, hp) \<Rightarrow>
          (Some (off, of_nat (length src)),
           hp\<lparr>mh_cells := overwrite (unat off) src (mh_cells hp)\<rparr>))"

text \<open>
  The callback gets the free space and answers the text it wrote there, or \<open>None\<close> for a negative
  result.
\<close>

definition usipy_msg_heap_build ::
  "usipy_msg_heap \<Rightarrow> (nat \<Rightarrow> string option) \<Rightarrow> slice option \<times> usipy_msg_heap" where
  "usipy_msg_heap_build hp cb =
     (let off = USIPY_ALIGNED_SIZE (mh_alen hp); currfree = mh_tsize hp - off in
      if currfree = 0 then (None, hp)
      else case cb (unat currfree) of
        None \<Rightarrow> (None, hp)
      | Some out \<Rightarrow>
          let hp = hp\<lparr>mh_cells := overwrite (unat off) out (mh_cells hp)\<rparr> in
          (case usipy_msg_heap_reserve hp (USIPY_ALIGNED_SIZE (of_nat (length out))) True of
            (None, hp) \<Rightarrow> (None, hp)
          | (Some bp, hp) \<Rightarrow> (Some (bp, of_nat (length out)), hp)))"

text \<open>\<open>text\<close> is what the format and its arguments expand to.\<close>

definition usipy_msg_heap_sprintf ::
  "usipy_msg_heap \<Rightarrow> string \<Rightarrow> slice option \<times> usipy_msg_heap" where
  "usipy_msg_heap_sprintf hp text =
     (let currfree = usipy_msg_heap_remaining hp in
      if currfree = 0 then (None, hp)
      else
        let hp = hp\<lparr>mh_cells := overwrite (unat (mh_alen hp))
                     (take (unat currfree - 1) text @ [NUL]) (mh_cells hp)\<rparr> in
        if unat currfree \<le> length text then (None, hp)
        else case usipy_msg_heap_reserve hp (of_nat (length text) + 1) False of
          (None, hp) \<Rightarrow> (None, hp)
        | (Some bp, hp) \<Rightarrow> (Some (bp, of_nat (length text)), hp))"

subsection \<open>Counted allocations\<close>

definition usipy_msg_heap_cnt_rollback ::
  "usipy_msg_heap \<Rightarrow> usipy_msg_heap_cnt \<Rightarrow> usipy_msg_heap abortable" where
  "usipy_msg_heap_cnt_rollback hp cntp = do {
     dassert (cnt_lastalen cntp = mh_alen hp);
     dassert (cnt_alen cntp \<le> mh_alen hp);
     let alen = mh_alen hp - cnt_alen cntp;
     Some (hp\<lparr>mh_alen := alen, mh_cells := wipe (unat alen) (unat (cnt_alen cntp)) (mh_cells hp)\<rparr>)
   }"

definition usipy_msg_heap_alloc_cnt ::
  "usipy_msg_heap \<Rightarrow> size_t \<Rightarrow> (size_t \<times> usipy_msg_heap_cnt) option \<times> usipy_msg_heap" where
  "usipy_msg_heap_alloc_cnt hp len =
     (case usipy_msg_heap_alloc hp len of
        (None, hp) \<Rightarrow> (None, hp)
      | (Some rp, hp) \<Rightarrow>
          (Some (rp, \<lparr>cnt_alen = USIPY_ALIGNED_SIZE len, cnt_lastalen = mh_alen hp\<rparr>), hp))"

text \<open>The result is true for \<open>0\<close> and false for \<open>-1\<close>.\<close>

definition usipy_msg_heap_aextend ::
  "usipy_msg_heap \<Rightarrow> size_t \<Rightarrow> usipy_msg_heap_cnt \<Rightarrow>
     (bool \<times> usipy_msg_heap \<times> usipy_msg_heap_cnt) abortable" where
  "usipy_msg_heap_aextend hp nlen cntp = do {
     dassert (cnt_lastalen cntp = mh_alen hp);
     let alen = USIPY_ALIGNED_SIZE nlen;
     dassert (alen \<ge> cnt_alen cntp);
     let elen = alen - cnt_alen cntp;
     if elen = 0 then Some (True, hp, cntp)
     else if usipy_msg_heap_remaining hp < elen then Some (False, hp, cntp)
     else
       let hp = hp\<lparr>mh_alen := mh_alen hp + elen\<rparr> in
       Some (True, hp, \<lparr>cnt_alen = alen, cnt_lastalen = mh_alen hp\<rparr>)
   }"

definition usipy_msg_heap_cnt_reclaim ::
  "usipy_msg_heap \<Rightarrow> usipy_msg_heap_cnt \<Rightarrow> size_t \<Rightarrow>
     (usipy_msg_heap \<times> usipy_msg_heap_cnt) abortable" where
  "usipy_msg_heap_cnt_reclaim hp cntp nlen = do {
     dassert (cnt_lastalen cntp = mh_alen hp);
     let alen = USIPY_ALIGNED_SIZE nlen;
     dassert (alen \<le> cnt_alen cntp);
     if alen = cnt_alen cntp then Some (hp, cntp)
     else
       let rlen = cnt_alen cntp - alen;
           top = mh_alen hp - rlen;
           hp = hp\<lparr>mh_alen := top, mh_cells := wipe (unat top) (unat rlen) (mh_cells hp)\<rparr> in
       Some (hp, \<lparr>cnt_alen = alen, cnt_lastalen = top\<rparr>)
   }"

subsection \<open>Alignment\<close>

definition up8 :: "nat \<Rightarrow> nat" where
  "up8 n = (n + 7) div 8 * 8"

lemma up8_bounds: "n \<le> up8 n" "up8 n \<le> n + 7" "8 dvd up8 n"
  by (auto simp: up8_def)

lemma up8_dvd: "8 dvd n \<Longrightarrow> up8 n = n"
  by (auto simp: up8_def)

lemma up8_le: "8 dvd m \<Longrightarrow> n \<le> m \<Longrightarrow> up8 n \<le> m"
  using div_le_mono[of "n + 7" "m + 7" 8] unfolding up8_def by (elim dvdE) simp

lemma up8_mono: "m \<le> n \<Longrightarrow> up8 m \<le> up8 n"
  by (simp add: up8_def div_le_mono)

lemma up8_idem [simp]: "up8 (up8 n) = up8 n"
  by (rule up8_dvd) (rule up8_bounds)

lemma up8_zero [simp]: "up8 0 = 0"
  by (simp add: up8_def)

lemma low3: "(v :: size_t) AND (push_bit 3 1 - 1) = take_bit 3 v"
  by (simp add: take_bit_eq_mask mask_eq_exp_minus_1 push_bit_eq_mult)

lemma unat_low3: "unat (take_bit 3 (v :: size_t)) = unat v mod 8"
  unfolding unsigned_take_bit_eq by (simp add: take_bit_eq_mod)

lemma high_low3: "(v :: size_t) AND NOT (push_bit 3 1 - 1) = v - take_bit 3 v"
proof -
  have "(v AND NOT (push_bit 3 1 - 1)) + (v AND (push_bit 3 1 - 1)) = v"
    by (subst disjunctive_add_eq_or) (auto simp: bit_eq_iff bit_simps)
  then show ?thesis by (simp only: low3 eq_diff_eq)
qed

lemma unat_high3: "unat ((v :: size_t) AND NOT (push_bit 3 1 - 1)) = unat v div 8 * 8"
proof -
  have "take_bit 3 v \<le> v" by (simp add: word_le_nat_alt unat_low3)
  then show ?thesis
    by (simp only: high_low3 unat_sub unat_low3) (simp add: minus_mod_eq_div_mult)
qed

lemma unat_REALIGN [heap_simps]: "unat (USIPY_REALIGN v) = unat v div 8 * 8"
  by (simp only: USIPY_REALIGN_def unat_high3)

lemma aligned_size_zero_iff: "(v :: size_t) AND (push_bit 3 1 - 1) \<noteq> 0 \<longleftrightarrow> unat v mod 8 \<noteq> 0"
  by (simp only: low3 unat_low3[symmetric] unat_eq_0)

lemma unat_ALIGNED_SIZE [heap_simps]:
  assumes "unat v + 7 < 2 ^ 64"
  shows "unat (USIPY_ALIGNED_SIZE v) = up8 (unat v)"
proof (cases "unat v mod 8 = 0")
  case True
  then have "up8 (unat v) = unat v div 8 * 8" by (auto simp: up8_dvd)
  moreover have c: "\<not> v AND (push_bit 3 1 - 1) \<noteq> 0"
    by (simp only: aligned_size_zero_iff True)
  ultimately show ?thesis
    unfolding USIPY_ALIGNED_SIZE_def if_not_P[OF c] add_0_right unat_high3 by simp
next
  case False
  let ?h = "v AND NOT (push_bit 3 1 - 1)"
  have up: "up8 (unat v) = unat v div 8 * 8 + 8"
    using False by (simp add: up8_def div_step8)
  have eight: "push_bit 3 1 = (8 :: size_t)" by (simp add: push_bit_eq_mult)
  have "unat ?h + unat (8 :: size_t) < 2 ^ LENGTH(64)"
    using assms up up8_bounds(2)[of "unat v"] by (simp only: unat_high3) simp
  then have "unat (?h + 8) = unat ?h + 8"
    by (subst unat_add_lem[THEN iffD1]) auto
  moreover have c: "v AND (push_bit 3 1 - 1) \<noteq> 0"
    using False by (simp only: aligned_size_zero_iff) simp
  then have "USIPY_ALIGNED_SIZE v = ?h + push_bit 3 1"
    by (simp only: USIPY_ALIGNED_SIZE_def if_P not_False_eq_True if_True)
  then have "USIPY_ALIGNED_SIZE v = ?h + 8"
    using eight by metis
  ultimately show ?thesis
    using up unat_high3[of v] by metis
qed

subsection \<open>The heap invariant\<close>

text \<open>
  \<open>mark\<close> and \<open>size\<close> are the fill mark and the capacity as numbers. A well-formed heap has an
  aligned capacity its bytes fill, a mark within it, and checkpoints that are sorted and lie
  below the mark.
\<close>

abbreviation mark :: "usipy_msg_heap \<Rightarrow> nat" where "mark hp \<equiv> unat (mh_alen hp)"
abbreviation hsize :: "usipy_msg_heap \<Rightarrow> nat" where "hsize hp \<equiv> unat (mh_tsize hp)"

definition live_checkpoints :: "usipy_msg_heap \<Rightarrow> size_t list" where
  "live_checkpoints hp = take (unat (mh_checkpoint_top hp)) (mh_checkpoints hp)"

definition heap_ok :: "usipy_msg_heap \<Rightarrow> bool" where
  "heap_ok hp \<longleftrightarrow> mark hp \<le> hsize hp \<and> 8 dvd hsize hp \<and> length (mh_cells hp) = hsize hp \<and>
     mh_checkpoint_top hp \<le> mh_ncheckpoints hp \<and>
     unat (mh_ncheckpoints hp) \<le> length (mh_checkpoints hp) \<and>
     sorted (live_checkpoints hp) \<and> (\<forall>cp\<in>set (live_checkpoints hp). cp \<le> mh_alen hp)"

text \<open>What the rest of the stack relies on: everything but the mark and the bytes is fixed.\<close>

definition same_frame :: "usipy_msg_heap \<Rightarrow> usipy_msg_heap \<Rightarrow> bool" where
  "same_frame hp hp' \<longleftrightarrow> hp' = hp\<lparr>mh_alen := mh_alen hp', mh_cells := mh_cells hp'\<rparr>"

lemma same_frame_refl [simp]: "same_frame hp hp"
  by (simp add: same_frame_def)

lemma same_frame_trans: "same_frame a b \<Longrightarrow> same_frame b c \<Longrightarrow> same_frame a c"
  by (cases a; cases b; cases c) (simp add: same_frame_def)

lemma same_frame_upd [simp]:
  "same_frame hp (hp\<lparr>mh_alen := a\<rparr>)"
  "same_frame hp (hp\<lparr>mh_alen := a, mh_cells := c\<rparr>)"
  "same_frame hp (hp\<lparr>mh_cells := c\<rparr>)"
  by (simp_all add: same_frame_def)

lemma same_frame_sel:
  assumes "same_frame hp hp'"
  shows "mh_tsize hp' = mh_tsize hp" "live_checkpoints hp' = live_checkpoints hp"
    "mh_checkpoints hp' = mh_checkpoints hp" "mh_ncheckpoints hp' = mh_ncheckpoints hp"
    "mh_checkpoint_top hp' = mh_checkpoint_top hp" "mh_first hp' = mh_first hp"
  using assms unfolding same_frame_def live_checkpoints_def
  by (metis usipy_msg_heap.simps usipy_msg_heap.surjective)+

lemma heap_ok_dvd: "heap_ok hp \<Longrightarrow> 8 dvd hsize hp"
  by (simp add: heap_ok_def)

lemma heap_ok_mark: "heap_ok hp \<Longrightarrow> mark hp \<le> hsize hp"
  by (simp add: heap_ok_def)

lemma hsize_bound: "heap_ok hp \<Longrightarrow> hsize hp + 8 \<le> 2 ^ 64"
proof -
  assume "heap_ok hp"
  moreover have "hsize hp < 2 ^ 64" using unsigned_less[of "mh_tsize hp"] by simp
  ultimately show ?thesis by (auto dest!: heap_ok_dvd elim!: dvdE)
qed

lemma up8_mark: "heap_ok hp \<Longrightarrow> mark hp \<le> up8 (mark hp) \<and> up8 (mark hp) \<le> hsize hp"
  by (simp add: up8_bounds up8_le heap_ok_dvd heap_ok_mark)

lemma unat_remaining [heap_simps]:
  "heap_ok hp \<Longrightarrow> unat (usipy_msg_heap_remaining hp) = hsize hp - mark hp"
  by (simp add: usipy_msg_heap_remaining_def unat_sub word_le_nat_alt heap_ok_mark)

text \<open>Moving the mark up keeps the invariant.\<close>

lemma heap_ok_grow:
  assumes "heap_ok hp" "mark hp \<le> unat a" "unat a \<le> hsize hp" "length c = hsize hp"
  shows "heap_ok (hp\<lparr>mh_alen := a, mh_cells := c\<rparr>)" "heap_ok (hp\<lparr>mh_alen := a\<rparr>)"
    "heap_ok (hp\<lparr>mh_cells := c\<rparr>)"
  using assms by (auto simp: heap_ok_def live_checkpoints_def word_le_nat_alt)

subsection \<open>Reservation\<close>

lemma reserve_cases:
  fixes hp :: usipy_msg_heap and al :: bool
  assumes ok: "heap_ok hp" and len: "unat len + 7 < 2 ^ 64"
  defines "off \<equiv> if al then up8 (mark hp) else mark hp"
  shows "usipy_msg_heap_reserve hp len al =
    (if off + unat len \<le> hsize hp
     then (Some (of_nat off), hp\<lparr>mh_alen := of_nat (off + unat len)\<rparr>) else (None, hp))"
proof -
  let ?off = "if al then USIPY_ALIGNED_SIZE (mh_alen hp) else mh_alen hp"
  have off: "unat ?off = off"
    using hsize_bound[OF ok] heap_ok_mark[OF ok] by (auto simp: off_def unat_ALIGNED_SIZE)
  then have offw: "?off = of_nat off" by (rule unat_eqD)
  have ge: "mark hp \<le> off" "off \<le> mark hp + 7" "off \<le> hsize hp"
    using up8_mark[OF ok] up8_bounds[of "mark hp"] heap_ok_mark[OF ok] by (auto simp: off_def)
  have sub: "unat (?off - mh_alen hp) = off - mark hp"
    using ge(1) by (simp add: unat_sub word_le_nat_alt off del: if_split) 
  have "unat (?off - mh_alen hp) + unat len < 2 ^ LENGTH(64)"
    using sub ge len by simp
  then have tot: "unat ((?off - mh_alen hp) + len) = (off - mark hp) + unat len"
    by (subst unat_add_lem[THEN iffD1]) (simp_all only: sub)
  have "usipy_msg_heap_remaining hp < (?off - mh_alen hp) + len \<longleftrightarrow>
      \<not> off + unat len \<le> hsize hp"
    using ge heap_ok_mark[OF ok] by (auto simp: word_less_nat_alt tot unat_remaining[OF ok])
  then show ?thesis
    unfolding usipy_msg_heap_reserve_def Let_def by (simp add: offw)
qed

lemma alloc_cases:
  assumes ok: "heap_ok hp" and len: "unat len + 14 < 2 ^ 64"
  shows "usipy_msg_heap_alloc hp len =
    (if up8 (mark hp) + up8 (unat len) \<le> hsize hp
     then (Some (of_nat (up8 (mark hp))),
           hp\<lparr>mh_alen := of_nat (up8 (mark hp) + up8 (unat len))\<rparr>)
     else (None, hp))"
proof -
  have al: "unat (USIPY_ALIGNED_SIZE len) = up8 (unat len)"
    using len by (intro unat_ALIGNED_SIZE) simp
  then have "unat (USIPY_ALIGNED_SIZE len) + 7 < 2 ^ 64"
    using len up8_bounds(2)[of "unat len"] by linarith
  from reserve_cases[OF ok this, of True] show ?thesis
    by (simp add: usipy_msg_heap_alloc_def al)
qed

lemma unat_mark:
  assumes "heap_ok hp" "n \<le> hsize hp"
  shows "unat (of_nat n :: size_t) = n"
  using assms hsize_bound[OF assms(1)] by (simp add: unat_of_nat)

lemma alloc_Some:
  assumes "heap_ok hp" "unat len + 14 < 2 ^ 64" "usipy_msg_heap_alloc hp len = (Some r, hp')"
  shows "heap_ok hp'" "same_frame hp hp'" "unat r = up8 (mark hp)"
    "mark hp' = up8 (mark hp) + up8 (unat len)" "mh_cells hp' = mh_cells hp"
proof -
  from assms have le: "up8 (mark hp) + up8 (unat len) \<le> hsize hp"
    and r: "r = of_nat (up8 (mark hp))"
    and hp': "hp' = hp\<lparr>mh_alen := of_nat (up8 (mark hp) + up8 (unat len))\<rparr>"
    by (auto simp: alloc_cases split: if_splits)
  show m: "mark hp' = up8 (mark hp) + up8 (unat len)"
    using unat_mark[OF assms(1) le] by (simp add: hp')
  show "unat r = up8 (mark hp)" using unat_mark[OF assms(1)] le by (simp add: r)
  show "mh_cells hp' = mh_cells hp" "same_frame hp hp'" by (simp_all add: hp')
  have "mark hp \<le> mark hp'" using m up8_bounds(1)[of "mark hp"] by linarith
  then show "heap_ok hp'"
    using heap_ok_grow(2)[OF assms(1), of "of_nat (up8 (mark hp) + up8 (unat len))" "mh_cells hp"]
      m le assms(1) by (simp add: hp' heap_ok_def)
qed

lemma alloc_None:
  assumes "heap_ok hp" "unat len + 14 < 2 ^ 64"
  shows "usipy_msg_heap_alloc hp len = (None, hp') \<longleftrightarrow>
    hp' = hp \<and> hsize hp < up8 (mark hp) + up8 (unat len)"
  using assms by (auto simp: alloc_cases)

subsection \<open>Stored strings\<close>

text \<open>The abstraction of a heap: the bytes below its mark.\<close>

definition heap_log :: "usipy_msg_heap \<Rightarrow> string" where
  "heap_log hp = take (mark hp) (mh_cells hp)"

lemma append_spec:
  assumes ok: "heap_ok hp" and len: "length src + 7 < 2 ^ 64"
  shows "usipy_msg_heap_append hp src =
    (if src = [] then (Some (0, 0), hp)
     else if mark hp + length src \<le> hsize hp
     then (Some (mh_alen hp, of_nat (length src)),
           hp\<lparr>mh_alen := of_nat (mark hp + length src),
              mh_cells := overwrite (mark hp) src (mh_cells hp)\<rparr>)
     else (None, hp))"
proof -
  have u: "unat (of_nat (length src) :: size_t) = length src"
    using len by (simp add: unat_of_nat)
  show ?thesis
    using reserve_cases[OF ok, of "of_nat (length src)" False] len
    by (simp add: usipy_msg_heap_append_def u)
qed

lemma append_Some:
  assumes ok: "heap_ok hp" and len: "length src + 7 < 2 ^ 64"
    and ap: "usipy_msg_heap_append hp src = (Some sl, hp')"
  shows "heap_ok hp'" "same_frame hp hp'" "slice_read hp' sl = src"
    "heap_log hp' = heap_log hp @ src" "mark hp' = mark hp + length src"
proof -
  have cells: "length (mh_cells hp) = hsize hp" using ok by (simp add: heap_ok_def)
  have *: "heap_ok hp' \<and> same_frame hp hp' \<and> slice_read hp' sl = src \<and>
      heap_log hp' = heap_log hp @ src \<and> mark hp' = mark hp + length src"
  proof (cases "src = []")
    case True
    with ap show ?thesis
      using ok by (auto simp: usipy_msg_heap_append_def slice_read_def heap_log_def)
  next
    case False
    with ap have le: "mark hp + length src \<le> hsize hp"
      and sl: "sl = (mh_alen hp, of_nat (length src))"
      and hp': "hp' = hp\<lparr>mh_alen := of_nat (mark hp + length src),
              mh_cells := overwrite (mark hp) src (mh_cells hp)\<rparr>"
      by (auto simp: append_spec[OF ok len] split: if_splits)
    have m: "unat (of_nat (mark hp + length src) :: size_t) = mark hp + length src"
      by (rule unat_mark[OF ok le])
    have u: "unat (of_nat (length src) :: size_t) = length src"
      using len by (simp add: unat_of_nat)
    have "heap_ok hp'"
      unfolding hp' using m le cells by (intro heap_ok_grow(1)[OF ok]) simp_all
    moreover have "heap_log hp' = heap_log hp @ src"
      using cells heap_ok_mark[OF ok]
      using m by (simp add: heap_log_def hp' overwrite_def)
    moreover have "slice_read hp' sl = src"
      using cells heap_ok_mark[OF ok] by (simp add: slice_read_def hp' sl u overwrite_read)
    moreover have "mark hp' = mark hp + length src"
      using m by (simp add: hp')
    ultimately show ?thesis by (simp add: hp')
  qed
  then show "heap_ok hp'" "same_frame hp hp'" "slice_read hp' sl = src"
    "heap_log hp' = heap_log hp @ src" "mark hp' = mark hp + length src" by blast+
qed

text \<open>A stored string survives every later write at or above its end.\<close>

definition below :: "usipy_msg_heap \<Rightarrow> slice \<Rightarrow> bool" where
  "below hp sl \<longleftrightarrow> unat (fst sl) + unat (snd sl) \<le> mark hp"

lemma slice_read_log: "below hp sl \<Longrightarrow>
    slice_read hp sl = take (unat (snd sl)) (drop (unat (fst sl)) (heap_log hp))"
  by (simp add: slice_read_def heap_log_def below_def drop_take min_def)

lemma slice_stable:
  assumes "below hp sl" "prefix (heap_log hp) (heap_log hp')" "mark hp \<le> mark hp'"
    "length (heap_log hp) = mark hp"
  shows "slice_read hp' sl = slice_read hp sl"
proof -
  obtain r where r: "heap_log hp' = heap_log hp @ r" using assms(2) by (elim prefixE)
  have b: "below hp' sl" using assms(1,3) by (simp add: below_def)
  have "unat (fst sl) + unat (snd sl) \<le> length (heap_log hp)"
    using assms(1,4) by (simp add: below_def)
  then show ?thesis
    by (simp add: slice_read_log[OF b] slice_read_log[OF assms(1)] r)
qed

lemma length_heap_log: "heap_ok hp \<Longrightarrow> length (heap_log hp) = mark hp"
  by (simp add: heap_ok_def heap_log_def)

lemma unat_size_Suc:
  assumes "n + 8 < 2 ^ 64"
  shows "unat (of_nat n + 1 :: size_t) = n + 1"
proof -
  have "unat (of_nat (n + 1) :: size_t) = (n + 1) mod 2 ^ LENGTH(64)" by (rule unat_of_nat)
  also have "\<dots> = n + 1" using assms by (intro mod_less) simp
  finally show ?thesis by (simp only: of_nat_add of_nat_1)
qed

lemma sprintf_Some:
  assumes ok: "heap_ok hp" and len: "length text + 8 < 2 ^ 64"
    and sp: "usipy_msg_heap_sprintf hp text = (Some sl, hp')"
  shows "heap_ok hp'" "same_frame hp hp'" "slice_read hp' sl = text"
    "heap_log hp' = heap_log hp @ text @ [NUL]" "mark hp' = mark hp + length text + 1"
proof -
  have cells: "length (mh_cells hp) = hsize hp" using ok by (simp add: heap_ok_def)
  define w where "w = take (unat (usipy_msg_heap_remaining hp) - 1) text @ [NUL]"
  define h1 where "h1 = hp\<lparr>mh_cells := overwrite (mark hp) w (mh_cells hp)\<rparr>"
  have rem: "unat (usipy_msg_heap_remaining hp) = hsize hp - mark hp"
    by (rule unat_remaining[OF ok])
  have fits: "length text < hsize hp - mark hp"
    using sp by (auto simp: usipy_msg_heap_sprintf_def Let_def rem split: if_splits)
  have "usipy_msg_heap_sprintf hp text = (case usipy_msg_heap_reserve h1 (of_nat (length text) + 1) False of
      (None, hp) \<Rightarrow> (None, hp) | (Some bp, hp) \<Rightarrow> (Some (bp, of_nat (length text)), hp))"
    using fits rem by (auto simp: usipy_msg_heap_sprintf_def Let_def h1_def w_def)
  with sp have res: "usipy_msg_heap_reserve h1 (of_nat (length text) + 1) False = (Some (fst sl), hp')"
    and sl: "snd sl = of_nat (length text)"
    by (auto split: option.splits prod.splits)
  have w: "w = text @ [NUL]" using fits by (simp add: w_def rem)
  have ok1: "heap_ok h1"
    unfolding h1_def w using fits cells by (intro heap_ok_grow(3)[OF ok, of "mh_alen hp"])
      (simp_all add: heap_ok_mark[OF ok])
  have m1: "mark h1 = mark hp" "hsize h1 = hsize hp" by (simp_all add: h1_def)
  have u: "unat (of_nat (length text) + 1 :: size_t) = length text + 1"
    by (rule unat_size_Suc[OF len])
  have ulen: "unat (of_nat (length text) + 1 :: size_t) + 7 < 2 ^ 64" unfolding u using len by simp
  have r: "fst sl = mh_alen hp" "hp' = h1\<lparr>mh_alen := of_nat (mark hp + (length text + 1))\<rparr>"
    using res fits len unfolding reserve_cases[OF ok1 ulen]
    by (auto simp: u m1 h1_def split: if_splits)
  have m: "unat (of_nat (mark hp + (length text + 1)) :: size_t) = mark hp + (length text + 1)"
    using fits by (intro unat_mark[OF ok]) simp
  show mk: "mark hp' = mark hp + length text + 1" using m by (simp add: r)
  show "heap_ok hp'"
    unfolding r using m fits m1 ok1 by (intro heap_ok_grow(2)[OF ok1, of _ "mh_cells h1"])
      (simp_all add: heap_ok_def)
  show "same_frame hp hp'" by (simp add: r h1_def same_frame_def)
  have c: "mh_cells hp' = overwrite (mark hp) (text @ [NUL]) (mh_cells hp)"
    by (simp add: r h1_def w)
  show "heap_log hp' = heap_log hp @ text @ [NUL]"
    using cells heap_ok_mark[OF ok] unfolding heap_log_def mk c by (simp add: overwrite_def)
  have "unat (snd sl) = length text" using len by (simp add: sl unat_of_nat)
  then show "slice_read hp' sl = text"
    using cells heap_ok_mark[OF ok] c by (simp add: slice_read_def r overwrite_def)
qed

lemma sprintf_None:
  assumes ok: "heap_ok hp" and len: "length text + 8 < 2 ^ 64"
  shows "fst (usipy_msg_heap_sprintf hp text) = None \<longleftrightarrow> hsize hp \<le> mark hp + length text"
proof -
  have cells: "length (mh_cells hp) = hsize hp" using ok by (simp add: heap_ok_def)
  have rem: "unat (usipy_msg_heap_remaining hp) = hsize hp - mark hp"
    by (rule unat_remaining[OF ok])
  have z: "usipy_msg_heap_remaining hp = 0 \<longleftrightarrow> hsize hp = mark hp"
    using rem heap_ok_mark[OF ok] by (metis diff_is_0_eq le_antisym unat_eq_0 unsigned_0)
  show ?thesis
  proof (cases "length text < hsize hp - mark hp")
    case True
    let ?h = "hp\<lparr>mh_cells := overwrite (mark hp)
      (take (unat (usipy_msg_heap_remaining hp) - 1) text @ [NUL]) (mh_cells hp)\<rparr>"
    have ok1: "heap_ok ?h"
      using True cells rem by (intro heap_ok_grow(3)[OF ok, of "mh_alen hp"])
        (simp_all add: heap_ok_mark[OF ok])
    have u: "unat (of_nat (length text) + 1 :: size_t) = length text + 1"
      by (rule unat_size_Suc[OF len])
    have ulen: "unat (of_nat (length text) + 1 :: size_t) + 7 < 2 ^ 64" unfolding u using len by simp
    have "usipy_msg_heap_reserve ?h (of_nat (length text) + 1) False = (Some (mh_alen hp),
        ?h\<lparr>mh_alen := of_nat (mark hp + (length text + 1))\<rparr>)"
        unfolding reserve_cases[OF ok1 ulen] u using True by simp
    moreover have "usipy_msg_heap_remaining hp \<noteq> 0" "\<not> unat (usipy_msg_heap_remaining hp) \<le> length text"
      using True z rem by auto
    ultimately show ?thesis
      using True unfolding usipy_msg_heap_sprintf_def Let_def by simp
  next
    case False
    then show ?thesis
      using heap_ok_mark[OF ok] by (auto simp: usipy_msg_heap_sprintf_def Let_def rem)
  qed
qed

lemma build_Some:
  assumes ok: "heap_ok hp" and cb: "\<And>cap out. cb cap = Some out \<Longrightarrow> length out \<le> cap"
    and b: "usipy_msg_heap_build hp cb = (Some sl, hp')"
  obtains out where "cb (hsize hp - up8 (mark hp)) = Some out" "slice_read hp' sl = out"
    "heap_ok hp'" "same_frame hp hp'" "unat (fst sl) = up8 (mark hp)"
    "mark hp' = up8 (mark hp) + up8 (length out)" "prefix (heap_log hp) (heap_log hp')"
proof -
  have cells: "length (mh_cells hp) = hsize hp" using ok by (simp add: heap_ok_def)
  let ?off = "USIPY_ALIGNED_SIZE (mh_alen hp)"
  have off: "unat ?off = up8 (mark hp)"
    using hsize_bound[OF ok] heap_ok_mark[OF ok] by (intro unat_ALIGNED_SIZE) simp
  have free: "unat (mh_tsize hp - ?off) = hsize hp - up8 (mark hp)"
    using up8_mark[OF ok] by (simp add: unat_sub word_le_nat_alt off)
  from b obtain out where out: "cb (hsize hp - up8 (mark hp)) = Some out"
    by (auto simp: usipy_msg_heap_build_def Let_def free split: if_splits option.splits)
  then have fit: "up8 (mark hp) + length out \<le> hsize hp"
    using cb[OF out] up8_mark[OF ok] by linarith
  define h1 where "h1 = hp\<lparr>mh_cells := overwrite (up8 (mark hp)) out (mh_cells hp)\<rparr>"
  have ok1: "heap_ok h1"
    unfolding h1_def using fit cells
    by (intro heap_ok_grow(3)[OF ok, of "mh_alen hp"]) (simp_all add: heap_ok_mark[OF ok])
  have lb: "length out + 7 < 2 ^ 64" using fit hsize_bound[OF ok] by simp
  have lw: "unat (of_nat (length out) :: size_t) = length out"
    using lb by (simp add: unat_of_nat)
  have u8: "unat (USIPY_ALIGNED_SIZE (of_nat (length out))) = up8 (length out)"
    using lb by (subst unat_ALIGNED_SIZE) (simp_all add: lw)
  have sum: "up8 (mark hp) + up8 (length out) \<le> hsize hp"
    using up8_le[OF dvd_diff_nat[OF heap_ok_dvd[OF ok] up8_bounds(3)[of "mark hp"]], of "length out"]
      fit by linarith
  then have u8b: "unat (USIPY_ALIGNED_SIZE (of_nat (length out))) + 7 < 2 ^ 64"
    using u8 hsize_bound[OF ok] by simp
  have "(case usipy_msg_heap_reserve h1 (USIPY_ALIGNED_SIZE (of_nat (length out))) True of
            (None, hp) \<Rightarrow> (None, hp) | (Some bp, hp) \<Rightarrow> (Some (bp, of_nat (length out)), hp)) = (Some sl, hp')"
    using b out by (auto simp: usipy_msg_heap_build_def Let_def free off h1_def split: if_splits)
  then have sl: "sl = (of_nat (up8 (mark hp)), of_nat (length out))"
    and hp': "hp' = h1\<lparr>mh_alen := of_nat (up8 (mark hp) + up8 (length out))\<rparr>"
    unfolding reserve_cases[OF ok1 u8b] u8 by (auto simp: h1_def split: if_splits)
  have m: "unat (of_nat (up8 (mark hp) + up8 (length out)) :: size_t) = up8 (mark hp) + up8 (length out)"
    by (rule unat_mark[OF ok sum])
  have o: "unat (of_nat (up8 (mark hp)) :: size_t) = up8 (mark hp)"
    using up8_mark[OF ok] by (intro unat_mark[OF ok]) simp
  have mk: "mark hp' = up8 (mark hp) + up8 (length out)" using m by (simp add: hp')
  have ge: "mark hp \<le> up8 (mark hp)" by (rule up8_bounds)
  have okp: "heap_ok hp'"
    unfolding hp' using m sum ge ok1
    by (intro heap_ok_grow(2)[OF ok1, of _ "mh_cells h1"]) (simp_all add: heap_ok_def h1_def)
  have c: "mh_cells hp' = overwrite (up8 (mark hp)) out (mh_cells hp)"
    by (simp add: hp' h1_def)
  have rd: "slice_read hp' sl = out"
    using cells up8_mark[OF ok] by (simp add: slice_read_def c sl o lw overwrite_read)
  have "take (mark hp) (mh_cells hp') = heap_log hp"
    using cells ge up8_mark[OF ok] by (simp add: c heap_log_def overwrite_def)
  then have "prefix (heap_log hp) (heap_log hp')"
    using prefix_take_mono[of "mark hp" "mark hp'" "mh_cells hp'"] mk ge by (simp add: heap_log_def)
  moreover have "same_frame hp hp'" by (simp add: hp' h1_def same_frame_def)
  ultimately show ?thesis
    using that out rd okp mk o sl by simp
qed

lemma build_None: "usipy_msg_heap_build hp cb = (None, hp') \<Longrightarrow> cb (unat (mh_tsize hp - USIPY_ALIGNED_SIZE (mh_alen hp))) = None \<Longrightarrow> hp' = hp"
  by (auto simp: usipy_msg_heap_build_def Let_def split: if_splits)

subsection \<open>Checkpoints\<close>

text \<open>
  \<open>extends hp hp'\<close>: \<open>hp'\<close> is a well-formed heap with the frame of \<open>hp\<close> and the log of \<open>hp\<close> as a
  prefix of its own. Every allocation, append, print and build extends the heap.
\<close>

definition extends :: "usipy_msg_heap \<Rightarrow> usipy_msg_heap \<Rightarrow> bool" where
  "extends hp hp' \<longleftrightarrow> heap_ok hp' \<and> same_frame hp hp' \<and> mark hp \<le> mark hp' \<and>
     prefix (heap_log hp) (heap_log hp')"

lemma extends_refl: "heap_ok hp \<Longrightarrow> extends hp hp"
  by (simp add: extends_def)

lemma extends_trans: "extends a b \<Longrightarrow> extends b c \<Longrightarrow> extends a c"
  unfolding extends_def by (meson le_trans prefix_order.trans same_frame_trans)

lemma extends_okD: "extends a b \<Longrightarrow> heap_ok b"
  by (simp add: extends_def)

lemma extends_cells: "heap_ok hp' \<Longrightarrow> same_frame hp hp' \<Longrightarrow> mark hp \<le> mark hp' \<Longrightarrow>
    mh_cells hp' = mh_cells hp \<Longrightarrow> extends hp hp'"
  unfolding extends_def heap_log_def by (metis min.absorb1 take_is_prefix take_take)

lemma extends_slice: "heap_ok hp \<Longrightarrow> extends hp hp' \<Longrightarrow> below hp sl \<Longrightarrow> slice_read hp' sl = slice_read hp sl"
  unfolding extends_def by (intro slice_stable) (auto simp: length_heap_log)

lemma alloc_extends:
  assumes "heap_ok hp" "unat len + 14 < 2 ^ 64"
  shows "extends hp (snd (usipy_msg_heap_alloc hp len))"
proof (cases "usipy_msg_heap_alloc hp len")
  case (Pair r hp')
  show ?thesis
  proof (cases r)
    case None
    then have "hp' = hp" using Pair alloc_None[OF assms] by simp
    then show ?thesis using extends_refl[OF assms(1)] by (simp add: Pair)
  next
    case (Some x)
    note a = alloc_Some[OF assms Pair[unfolded Some]]
    have "mark hp \<le> mark hp'" using a(4) up8_bounds(1)[of "mark hp"] by linarith
    then show ?thesis using a Pair by (simp add: extends_cells)
  qed
qed

lemma append_extends:
  assumes "heap_ok hp" "length src + 7 < 2 ^ 64"
  shows "extends hp (snd (usipy_msg_heap_append hp src))"
proof (cases "usipy_msg_heap_append hp src")
  case (Pair r hp')
  show ?thesis
  proof (cases r)
    case None
    then have "hp' = hp" using Pair append_spec[OF assms] by (auto split: if_splits)
    then show ?thesis using extends_refl[OF assms(1)] by (simp add: Pair)
  next
    case (Some sl)
    from append_Some[OF assms Pair[unfolded Some]] show ?thesis
      by (simp add: Pair extends_def)
  qed
qed

lemma checkpoint_spec:
  assumes ok: "heap_ok hp"
  shows "usipy_msg_heap_checkpoint hp \<noteq> None \<longleftrightarrow> mh_checkpoint_top hp < mh_ncheckpoints hp"
  by (auto simp: usipy_msg_heap_checkpoint_def dassert_def Let_def)

lemma checkpoint_Some:
  assumes ok: "heap_ok hp" and cp: "usipy_msg_heap_checkpoint hp = Some (cpi, hp')"
  shows "heap_ok hp'" "mh_alen hp' = mh_alen hp" "mh_cells hp' = mh_cells hp"
    "mh_tsize hp' = mh_tsize hp" "cpi = mh_checkpoint_top hp'  - 1" "mh_checkpoint_top hp' > 0"
    "live_checkpoints hp' = live_checkpoints hp @ [mh_alen hp]"
    "mh_checkpoints hp' ! unat cpi = mh_alen hp" "cpi \<noteq> USIPY_MSG_HEAP_CHECKPOINT_NONE"
proof -
  from cp have lt: "mh_checkpoint_top hp < mh_ncheckpoints hp" and cpi: "cpi = mh_checkpoint_top hp"
    and hp': "hp' = hp\<lparr>mh_checkpoints := (mh_checkpoints hp)[unat cpi := mh_alen hp],
                   mh_checkpoint_top := cpi + 1\<rparr>"
    by (auto simp: usipy_msg_heap_checkpoint_def Let_def)
  have room: "unat cpi < length (mh_checkpoints hp)"
    using ok lt by (simp add: cpi heap_ok_def word_less_nat_alt)
  have "unat (mh_ncheckpoints hp) < 2 ^ LENGTH(64)" by (rule unsigned_less)
  then have "unat cpi < 2 ^ 64 - 1"
    using lt by (simp add: cpi word_less_nat_alt)
  then have suc: "unat (cpi + 1) = Suc (unat cpi)"
    by (subst unat_add_lem[THEN iffD1]) simp_all
  then have inc: "cpi < cpi + 1"
    by (simp add: word_less_nat_alt)
  show live: "live_checkpoints hp' = live_checkpoints hp @ [mh_alen hp]"
    using room by (simp add: live_checkpoints_def hp' suc take_Suc_conv_app_nth) (simp add: cpi)
  show "mh_checkpoints hp' ! unat cpi = mh_alen hp" using room by (simp add: hp')
  show "cpi = mh_checkpoint_top hp' - 1" "mh_checkpoint_top hp' > 0"
    using inc by (auto simp: hp' word_gt_0)
  show "mh_alen hp' = mh_alen hp" "mh_cells hp' = mh_cells hp" "mh_tsize hp' = mh_tsize hp"
    by (simp_all add: hp')
  show "cpi \<noteq> USIPY_MSG_HEAP_CHECKPOINT_NONE"
    using inc by (auto simp: USIPY_MSG_HEAP_CHECKPOINT_NONE_def)
  have "mh_checkpoint_top hp' \<le> mh_ncheckpoints hp'"
    using lt suc by (simp add: hp' cpi word_le_nat_alt word_less_nat_alt)
  then show "heap_ok hp'"
    using ok unfolding heap_ok_def live by (auto simp: hp' sorted_append)
qed

lemma rollback_Some:
  assumes ok: "heap_ok h" and top: "mh_checkpoint_top h > 0" "c = mh_checkpoint_top h - 1"
    and none: "c \<noteq> USIPY_MSG_HEAP_CHECKPOINT_NONE"
    and le: "mh_checkpoints h ! unat c \<le> mh_alen h" "\<forall>cp\<in>set (live_checkpoints h). cp \<le> mh_checkpoints h ! unat c"
  obtains h' where "usipy_msg_heap_rollback h c = Some h'" "heap_ok h'" "same_frame h h'"
    "mh_alen h' = mh_checkpoints h ! unat c"
    "heap_log h' = take (unat (mh_checkpoints h ! unat c)) (heap_log h)"
    "\<forall>i. mark h' \<le> i \<and> i < mark h \<longrightarrow> mh_cells h' ! i = NUL"
proof -
  let ?a = "mh_checkpoints h ! unat c"
  have cells: "length (mh_cells h) = hsize h" using ok by (simp add: heap_ok_def)
  have am: "unat ?a \<le> mark h" using le(1) by (simp add: word_le_nat_alt)
  then have sub: "unat (mh_alen h - ?a) = mark h - unat ?a"
    using le(1) by (simp add: unat_sub)
  define h' where "h' = h\<lparr>mh_cells := wipe (unat ?a) (unat (mh_alen h - ?a)) (mh_cells h), mh_alen := ?a\<rparr>"
  have len: "length (mh_cells h') = hsize h"
    using am heap_ok_mark[OF ok] cells by (simp add: h'_def wipe_def sub)
  have "usipy_msg_heap_rollback h c = Some h'"
    using top none le by (simp add: usipy_msg_heap_rollback_def h'_def Let_def dassert_def)
  moreover have "heap_ok h'"
    using ok len am le(2) unfolding heap_ok_def h'_def live_checkpoints_def by auto
  moreover have "same_frame h h'" by (simp add: h'_def same_frame_def)
  moreover have "heap_log h' = take (unat ?a) (heap_log h)"
    using am cells heap_ok_mark[OF ok] by (simp add: heap_log_def h'_def wipe_def overwrite_def min_def)
  moreover have "\<forall>i. mark h' \<le> i \<and> i < mark h \<longrightarrow> mh_cells h' ! i = NUL"
    using am cells heap_ok_mark[OF ok] by (auto simp: h'_def wipe_def overwrite_def sub nth_append)
  moreover have "mh_alen h' = ?a" by (simp add: h'_def)
  ultimately show ?thesis using that by blast
qed

text \<open>
  Rolling back to the newest checkpoint never aborts and gives back exactly the bytes that were
  live when it was taken, whatever was stored since; what was stored since is zeroed.
\<close>

lemma rollback_restores:
  assumes ok: "heap_ok hp" and cp: "usipy_msg_heap_checkpoint hp = Some (c, h1)" and ext: "extends h1 h2"
  obtains h3 where "usipy_msg_heap_rollback h2 c = Some h3" "heap_ok h3" "same_frame h1 h3"
    "mh_alen h3 = mh_alen hp" "heap_log h3 = heap_log hp"
    "\<forall>i. mark h3 \<le> i \<and> i < mark h2 \<longrightarrow> mh_cells h3 ! i = NUL"
proof -
  note c = checkpoint_Some[OF ok cp]
  note f = same_frame_sel[of h1 h2]
  have e: "heap_ok h2" "same_frame h1 h2" "mark h1 \<le> mark h2" "prefix (heap_log h1) (heap_log h2)"
    using ext by (simp_all add: extends_def)
  have cps: "mh_checkpoints h2 ! unat c = mh_alen hp" using c(8) f(3)[OF e(2)] by simp
  have below: "\<forall>x\<in>set (live_checkpoints h2). x \<le> mh_checkpoints h2 ! unat c"
    using ok c(7) f(2)[OF e(2)] by (auto simp: cps heap_ok_def)
  obtain h3 where h3: "usipy_msg_heap_rollback h2 c = Some h3" "heap_ok h3" "same_frame h2 h3"
    "mh_alen h3 = mh_alen hp" "heap_log h3 = take (mark hp) (heap_log h2)"
    "\<forall>i. mark h3 \<le> i \<and> i < mark h2 \<longrightarrow> mh_cells h3 ! i = NUL"
    using rollback_Some[OF e(1) _ _ c(9), of thesis] c(5,6) f(5)[OF e(2)] below e(3) c(2)
    by (metis cps word_le_nat_alt)
  have "heap_log h1 = heap_log hp" using c(2,3) by (simp add: heap_log_def)
  moreover have "length (heap_log hp) = mark hp" using ok by (rule length_heap_log)
  ultimately have "heap_log h3 = heap_log hp"
    using h3(5) e(4) by (auto elim!: prefixE)
  with h3 e(2) same_frame_trans that show ?thesis by blast
qed

subsection \<open>Counted allocations\<close>

text \<open>
  \<open>cnt_ok base hp cnt\<close>: the allocation \<open>cnt\<close> counts is the newest one, it starts at the aligned mark of
  \<open>base\<close> and ends at the mark of \<open>hp\<close>. This is what the parsers keep true while a structure grows.
\<close>

definition cnt_ok :: "usipy_msg_heap \<Rightarrow> usipy_msg_heap \<Rightarrow> usipy_msg_heap_cnt \<Rightarrow> bool" where
  "cnt_ok base hp cnt \<longleftrightarrow> heap_ok base \<and> extends base hp \<and> cnt_lastalen cnt = mh_alen hp \<and>
     mark hp = up8 (mark base) + unat (cnt_alen cnt) \<and> 8 dvd unat (cnt_alen cnt) \<and>
     mh_cells hp = mh_cells base"

lemma alloc_cnt_Some:
  assumes "heap_ok hp" "unat len + 14 < 2 ^ 64"
    "usipy_msg_heap_alloc_cnt hp len = (Some (r, cnt), hp')"
  shows "cnt_ok hp hp' cnt" "unat (cnt_alen cnt) = up8 (unat len)" "unat r = up8 (mark hp)"
proof -
  from assms(3) have al: "usipy_msg_heap_alloc hp len = (Some r, hp')"
    and cnt: "cnt = \<lparr>cnt_alen = USIPY_ALIGNED_SIZE len, cnt_lastalen = mh_alen hp'\<rparr>"
    by (auto simp: usipy_msg_heap_alloc_cnt_def split: option.splits prod.splits)
  note a = alloc_Some[OF assms(1,2) al]
  have u: "unat (USIPY_ALIGNED_SIZE len) = up8 (unat len)"
    using assms(2) by (intro unat_ALIGNED_SIZE) simp
  have "extends hp hp'" using alloc_extends[OF assms(1,2)] al by simp
  then show "cnt_ok hp hp' cnt"
    using assms(1) a u by (simp add: cnt_ok_def cnt up8_bounds)
  show "unat (cnt_alen cnt) = up8 (unat len)" "unat r = up8 (mark hp)" using a u by (simp_all add: cnt)
qed

lemma alloc_cnt_None:
  assumes "heap_ok hp" "unat len + 14 < 2 ^ 64"
  shows "usipy_msg_heap_alloc_cnt hp len = (None, hp') \<longleftrightarrow>
    hp' = hp \<and> hsize hp < up8 (mark hp) + up8 (unat len)"
  using alloc_None[OF assms, of hp']
  by (auto simp: usipy_msg_heap_alloc_cnt_def split: option.splits prod.splits)

lemma aextend_spec:
  assumes c: "cnt_ok base hp cnt" and n: "unat nlen + 7 < 2 ^ 64" "unat (cnt_alen cnt) \<le> up8 (unat nlen)"
  obtains ok hp' cnt' where "usipy_msg_heap_aextend hp nlen cnt = Some (ok, hp', cnt')"
    "cnt_ok base hp' cnt'"
    "ok \<longleftrightarrow> up8 (mark base) + up8 (unat nlen) \<le> hsize base"
    "ok \<Longrightarrow> unat (cnt_alen cnt') = up8 (unat nlen)"
    "\<not> ok \<Longrightarrow> hp' = hp \<and> cnt' = cnt"
proof -
  let ?al = "USIPY_ALIGNED_SIZE nlen"
  have okb: "heap_ok base" and ext: "extends base hp" and last: "cnt_lastalen cnt = mh_alen hp"
    and mk: "mark hp = up8 (mark base) + unat (cnt_alen cnt)" and cl: "mh_cells hp = mh_cells base"
    and dv: "8 dvd unat (cnt_alen cnt)"
    using c by (simp_all add: cnt_ok_def)
  have ok: "heap_ok hp" and sf: "same_frame base hp" using ext by (simp_all add: extends_def)
  have u: "unat ?al = up8 (unat nlen)" using n by (intro unat_ALIGNED_SIZE) simp
  then have ge: "cnt_alen cnt \<le> ?al" using n(2) by (simp add: word_le_nat_alt)
  have sub: "unat (?al - cnt_alen cnt) = up8 (unat nlen) - unat (cnt_alen cnt)"
    using ge by (simp add: unat_sub u)
  have hs: "hsize hp = hsize base" using same_frame_sel(1)[OF sf] by simp
  have rem: "usipy_msg_heap_remaining hp < ?al - cnt_alen cnt \<longleftrightarrow>
      \<not> up8 (mark base) + up8 (unat nlen) \<le> hsize base"
    using n(2) mk heap_ok_mark[OF ok] by (auto simp: word_less_nat_alt sub unat_remaining[OF ok] hs)
  let ?zero = "?al - cnt_alen cnt = 0"
  have z: "?zero \<longleftrightarrow> up8 (unat nlen) = unat (cnt_alen cnt)"
    using u by (metis right_minus_eq word_unat_eq_iff)
  consider "?zero" | "\<not> ?zero" "up8 (mark base) + up8 (unat nlen) \<le> hsize base"
    | "\<not> ?zero" "\<not> up8 (mark base) + up8 (unat nlen) \<le> hsize base" by blast
  then show ?thesis
  proof cases
    case 1
    then have "usipy_msg_heap_aextend hp nlen cnt = Some (True, hp, cnt)"
      using last ge by (simp add: usipy_msg_heap_aextend_def Let_def dassert_def)
    moreover have "up8 (mark base) + up8 (unat nlen) \<le> hsize base"
      using 1 z mk heap_ok_mark[OF ok] by (simp add: hs)
    ultimately show ?thesis using that[of True hp cnt] 1 z c by simp
  next
    case 2
    define h' where "h' = hp\<lparr>mh_alen := mh_alen hp + (?al - cnt_alen cnt)\<rparr>"
    have m: "mark h' = up8 (mark base) + up8 (unat nlen)"
    proof -
      have "unat (mh_alen hp) + unat (?al - cnt_alen cnt) = up8 (mark base) + up8 (unat nlen)"
        using n(2) by (simp add: mk sub)
      moreover have "up8 (mark base) + up8 (unat nlen) < 2 ^ LENGTH(64)"
        using 2(2) hsize_bound[OF okb] by simp
      ultimately show ?thesis
        unfolding h'_def by (simp add: unat_add_lem[THEN iffD1])
    qed
    have okh: "heap_ok h'"
      unfolding h'_def using m mk n(2) 2(2) ok
      by (intro heap_ok_grow(2)[OF ok, of _ "mh_cells hp"]) (simp_all add: h'_def heap_ok_def hs)
    have "extends hp h'"
      using okh m mk n(2) by (intro extends_cells) (simp_all add: h'_def)
    then have "cnt_ok base h' \<lparr>cnt_alen = ?al, cnt_lastalen = mh_alen h'\<rparr>"
      using okb extends_trans[OF ext] m u cl by (simp add: cnt_ok_def up8_bounds) (simp add: h'_def)
    moreover have "usipy_msg_heap_aextend hp nlen cnt =
        Some (True, h', \<lparr>cnt_alen = ?al, cnt_lastalen = mh_alen h'\<rparr>)"
      using 2 rem last ge by (simp add: usipy_msg_heap_aextend_def Let_def dassert_def h'_def)
    ultimately show ?thesis using that[of True] 2 u by simp
  next
    case 3
    then have "usipy_msg_heap_aextend hp nlen cnt = Some (False, hp, cnt)"
      using rem last ge by (simp add: usipy_msg_heap_aextend_def Let_def dassert_def)
    then show ?thesis using that[of False hp cnt] 3 c by simp
  qed
qed

text \<open>Rolling back a counted allocation leaves the mark where the allocation began.\<close>

lemma cnt_rollback_spec:
  assumes c: "cnt_ok base hp cnt"
  obtains hp' where "usipy_msg_heap_cnt_rollback hp cnt = Some hp'" "extends base hp'"
    "mark hp' = up8 (mark base)"
proof -
  have okb: "heap_ok base" and ext: "extends base hp" and last: "cnt_lastalen cnt = mh_alen hp"
    and mk: "mark hp = up8 (mark base) + unat (cnt_alen cnt)" and cl: "mh_cells hp = mh_cells base"
    using c by (simp_all add: cnt_ok_def)
  have ok: "heap_ok hp" and sf: "same_frame base hp" using ext by (simp_all add: extends_def)
  have le: "cnt_alen cnt \<le> mh_alen hp" using mk by (simp add: word_le_nat_alt)
  then have sub: "unat (mh_alen hp - cnt_alen cnt) = up8 (mark base)"
    by (simp add: unat_sub mk)
  define h' where "h' = hp\<lparr>mh_alen := mh_alen hp - cnt_alen cnt,
     mh_cells := wipe (unat (mh_alen hp - cnt_alen cnt)) (unat (cnt_alen cnt)) (mh_cells hp)\<rparr>"
  have cells: "length (mh_cells hp) = hsize hp" using ok by (simp add: heap_ok_def)
  have len: "length (mh_cells h') = hsize hp"
    using mk heap_ok_mark[OF ok] cells by (simp add: h'_def wipe_def sub)
  have ge: "mark base \<le> up8 (mark base)" by (rule up8_bounds)
  have "live_checkpoints hp = live_checkpoints base" by (rule same_frame_sel(2)[OF sf])
  then have lcp: "\<forall>cp\<in>set (live_checkpoints hp). cp \<le> mh_alen hp - cnt_alen cnt"
    using okb ge sub by (fastforce simp: heap_ok_def word_le_nat_alt)
  have lch: "live_checkpoints h' = live_checkpoints hp"
    by (simp add: live_checkpoints_def h'_def)
  have okh: "heap_ok h'"
    using ok len lcp mk sub unfolding heap_ok_def lch by (simp add: h'_def)
  have sfh: "same_frame base h'"
    using sf by (rule same_frame_trans) (simp add: h'_def same_frame_def)
  have "take (mark base) (mh_cells h') = take (mark base) (mh_cells base)"
    using ge cells heap_ok_mark[OF ok] mk cl
    by (simp add: h'_def wipe_def overwrite_def sub min_def)
  then have pre: "heap_log base = take (mark base) (mh_cells h')"
    by (simp add: heap_log_def)
  have mk': "mark h' = up8 (mark base)" by (simp add: h'_def sub)
  then have "prefix (heap_log base) (heap_log h')"
    unfolding pre unfolding heap_log_def using ge by (metis min.absorb1 take_is_prefix take_take)
  then have "extends base h'" using okh sfh mk' ge by (simp add: extends_def)
  moreover have "usipy_msg_heap_cnt_rollback hp cnt = Some h'"
    using last le by (simp add: usipy_msg_heap_cnt_rollback_def h'_def Let_def dassert_def)
  ultimately show ?thesis using that mk' by blast
qed

end
