(* ===== verification/Usipy_Append.thy ===== *)
theory Usipy_Append
  imports Usipy_Str
begin

text \<open>
  Bounded output (\<open>usipy_misc.h\<close>, \<open>usipy_append_priv.h\<close>). The text written so far stands for the
  buffer and its offset (\<open>off\<close> is its length); \<open>len\<close> is the capacity; running out of space is
  \<open>None\<close>, the \<open>-1\<close> of the code. \<open>off + sp->l\<close> is an offset in memory and does not wrap.
\<close>

definition usipy_strbuf_append :: "string \<Rightarrow> nat \<Rightarrow> string \<Rightarrow> string option" where
  "usipy_strbuf_append sp len buf =
     (if length buf + length sp > len then None else Some (buf @ sp))"

definition usipy_strbuf_append_pair :: "string \<Rightarrow> string \<Rightarrow> nat \<Rightarrow> string \<Rightarrow> string option" where
  "usipy_strbuf_append_pair sp1 sp2 len buf = do {
     buf \<leftarrow> usipy_strbuf_append sp1 len buf;
     usipy_strbuf_append sp2 len buf
   }"

text \<open>\<open>USIPY_APPEND_MEM_OR_*\<close> and \<open>USIPY_APPEND_CH_OR_*\<close>.\<close>

definition USIPY_APPEND_STR :: "nat \<Rightarrow> string \<Rightarrow> string \<Rightarrow> string option" where
  "USIPY_APPEND_STR cap sp dst =
     (if length dst + length sp > cap then None else Some (dst @ sp))"

definition USIPY_APPEND_CH :: "nat \<Rightarrow> char \<Rightarrow> string \<Rightarrow> string option" where
  "USIPY_APPEND_CH cap ch dst = (if length dst + 1 > cap then None else Some (dst @ [ch]))"

text \<open>\<open>snprintf(buf + off, len - off, ...)\<close> with the check for truncation its callers make.\<close>

definition snprintf_at :: "string \<Rightarrow> nat \<Rightarrow> string \<Rightarrow> string option" where
  "snprintf_at text len buf =
     (if length text \<ge> len - length buf then None else Some (buf @ text))"

text \<open>The digits \<open>%u\<close> prints.\<close>

fun dec :: "nat \<Rightarrow> string" where
  "dec n = (if n < 10 then [char_of (48 + n)] else dec (n div 10) @ [char_of (48 + n mod 10)])"

declare dec.simps [simp del]

subsection \<open>What is written\<close>

lemma strbuf_append_Some [build_simps]:
  "usipy_strbuf_append sp len buf = Some b \<longleftrightarrow> b = buf @ sp \<and> length b \<le> len"
  by (auto simp: usipy_strbuf_append_def)

lemma append_str_Some [build_simps]:
  "USIPY_APPEND_STR cap sp dst = Some b \<longleftrightarrow> b = dst @ sp \<and> length b \<le> cap"
  by (auto simp: USIPY_APPEND_STR_def)

lemma append_ch_Some [build_simps]:
  "USIPY_APPEND_CH cap ch dst = Some b \<longleftrightarrow> b = dst @ [ch] \<and> length b \<le> cap"
  by (auto simp: USIPY_APPEND_CH_def)

lemma snprintf_at_Some [build_simps]:
  "snprintf_at text len buf = Some b \<longleftrightarrow> b = buf @ text \<and> length b < len"
  by (auto simp: snprintf_at_def)

lemma strbuf_append_pair_Some [build_simps]:
  "usipy_strbuf_append_pair s1 s2 len buf = Some b \<longleftrightarrow> b = buf @ s1 @ s2 \<and> length b \<le> len"
  by (auto simp: usipy_strbuf_append_pair_def bind_eq_Some_conv strbuf_append_Some)

lemma strbuf_append_pair_eq:
  "usipy_strbuf_append_pair s1 s2 len buf =
     (if length buf + length s1 + length s2 \<le> len then Some (buf @ s1 @ s2) else None)"
  by (auto simp: usipy_strbuf_append_pair_def usipy_strbuf_append_def)

text \<open>
  What every routine that adds to a bounded buffer promises the builders that chain them: it keeps
  what is written and stays inside the capacity. A writer of a fixed text moreover adds exactly
  that text, fails only for lack of space, and one byte more than the text is always enough.
\<close>

locale bounded_step =
  fixes wr :: "nat \<Rightarrow> string \<Rightarrow> string option"
  assumes keeps: "wr cap buf = Some b \<Longrightarrow> prefix buf b"
    and within: "wr cap buf = Some b \<Longrightarrow> length buf \<le> cap \<Longrightarrow> length b \<le> cap"
begin

lemma optional:
  "(if c then wr cap buf else Some buf) = Some b \<Longrightarrow> length buf \<le> cap \<Longrightarrow> prefix buf b \<and> length b \<le> cap"
  using keeps within by (auto split: if_splits)

lemma grows: "wr cap buf = Some b \<Longrightarrow> length buf \<le> length b"
  using keeps prefix_length_le by blast

end

locale bounded_writer =
  fixes wr :: "nat \<Rightarrow> string \<Rightarrow> string option" and out :: string
  assumes sound: "wr cap buf = Some b \<Longrightarrow> b = buf @ out \<and> length b \<le> cap"
    and complete: "length buf + length out < cap \<Longrightarrow> wr cap buf = Some (buf @ out)"
begin

lemma from_start: "wr cap [] = Some b \<Longrightarrow> b = out \<and> length b \<le> cap"
  using sound[of cap "[]" b] by auto

lemma fits: "length out < cap \<Longrightarrow> wr cap [] = Some out"
  using complete[of "[]" cap] by simp

lemma monotone: "wr cap buf = Some b \<Longrightarrow> cap < cap' \<Longrightarrow> wr cap' buf = Some b"
  using sound complete by (metis le_less_trans length_append)

end

sublocale bounded_writer \<subseteq> bounded_step wr
  by unfold_locales (auto dest: sound)

text \<open>The routines of the library.\<close>

interpretation strbuf: bounded_writer "usipy_strbuf_append sp" sp for sp
  by unfold_locales (auto simp: usipy_strbuf_append_def split: if_splits)

interpretation strbuf_pair: bounded_writer "usipy_strbuf_append_pair s1 s2" "s1 @ s2" for s1 s2
  by unfold_locales (auto simp: strbuf_append_pair_eq split: if_splits)

interpretation append_str: bounded_writer "\<lambda>cap. USIPY_APPEND_STR cap sp" sp for sp
  by unfold_locales (auto simp: USIPY_APPEND_STR_def split: if_splits)

interpretation append_ch: bounded_writer "\<lambda>cap. USIPY_APPEND_CH cap ch" "[ch]" for ch
  by unfold_locales (auto simp: USIPY_APPEND_CH_def split: if_splits)

interpretation snprintf: bounded_writer "snprintf_at t" t for t
  by unfold_locales (auto simp: snprintf_at_def split: if_splits)

text \<open>Steps compose; the builders are chains of them.\<close>

lemma step_bind:
  assumes "bounded_step w1" "bounded_step w2"
  shows "bounded_step (\<lambda>cap buf. Option.bind (w1 cap buf) (w2 cap))"
  using bounded_step.keeps[OF assms(1)] bounded_step.within[OF assms(1)]
    bounded_step.keeps[OF assms(2)] bounded_step.within[OF assms(2)]
  by unfold_locales (unfold bind_eq_Some_conv, blast intro: prefix_order.trans, blast)

lemma step_if: "bounded_step w1 \<Longrightarrow> bounded_step w2 \<Longrightarrow> bounded_step (\<lambda>cap buf. if c buf then w1 cap buf else w2 cap buf)"
  by (auto simp: bounded_step_def)

lemma step_skip: "bounded_step (\<lambda>cap. Some)"
  by unfold_locales auto

text \<open>A builder that writes a head and lets a step fill the rest of the buffer stays inside it.\<close>

lemma step_tail:
  assumes "bounded_step st" and "\<And>b. pre = Some b \<Longrightarrow> length b \<le> len"
    and "Option.bind pre (\<lambda>buf. Option.bind (st (len - length buf) []) (\<lambda>pbuf. Some (buf @ pbuf))) = Some b"
  shows "length b \<le> len"
proof -
  obtain buf pbuf where b: "pre = Some buf" "st (len - length buf) [] = Some pbuf" "b = buf @ pbuf"
    using assms(3) by (auto simp: bind_eq_Some_conv)
  then show ?thesis
    using assms(2)[of buf] bounded_step.within[OF assms(1) b(2)] by simp
qed

lemmas step_intros = step_bind step_if step_skip strbuf.bounded_step_axioms strbuf_pair.bounded_step_axioms
  append_str.bounded_step_axioms append_ch.bounded_step_axioms snprintf.bounded_step_axioms

subsection \<open>Decimal numbers\<close>

lemma is_digit_char: "d < (10 :: nat) \<Longrightarrow> is_digit (char_of (48 + d))"
  by (simp add: is_digit_def)

lemma dec_digits: "\<forall>c\<in>set (dec n). is_digit c"
  by (induction n rule: dec.induct) (subst dec.simps, auto simp: is_digit_char)

lemma dec_nonempty [simp]: "dec n \<noteq> []"
  by (subst dec.simps) simp

lemma digits_value_append: "digits_value r (s @ t) = digits_value (digits_value r s) t"
  by (simp add: digits_value_def)

lemma digits_value_dec: "digits_value 0 (dec n) = n"
proof (induction n rule: dec.induct)
  case (1 n)
  show ?case
  proof (cases "n < 10")
    case True
    then show ?thesis by (subst dec.simps) simp
  next
    case False
    then show ?thesis
      using 1 by (subst dec.simps) (simp add: digits_value_append)
  qed
qed

lemma atoui_dec:
  assumes "n < 2 ^ 32"
  shows "atoui_loop (dec n) 0 = Some (of_nat n)"
  using dec_digits[of n] assms by (simp add: atoui_loop_spec digits_value_dec)

text \<open>A number printed and read back is the number, if it is in the range asked for.\<close>

lemma atoui_range_dec:
  assumes "lo \<le> v" "v \<le> hi"
  shows "usipy_str_atoui_range (dec (unat v)) lo hi = Some v"
proof -
  have "unat v < 2 ^ LENGTH(32)" by (rule unsigned_less)
  then show ?thesis
    using assms by (auto simp: usipy_str_atoui_range_def atoui_dec)
qed

lemma digit_not: "is_digit c \<Longrightarrow> \<not> is_digit d \<Longrightarrow> c \<noteq> d"
  by auto

lemma dec_free: "\<not> is_digit d \<Longrightarrow> d \<notin> set (dec n)"
  using dec_digits by auto

end
