(* ===== verification/Usipy_Tvp.thy ===== *)
theory Usipy_Tvp
  imports Usipy_Heap Usipy_Append
begin

text \<open>
  Token/value pairs (\<open>usipy_tvpair.h\<close>) and the loop that several header parsers repeat: cut the
  parameter text at a delimiter, grow the counted allocation by one pair, store the pair. The
  locale proves once what such a loop does, for the parsers to interpret. The loop the Via and
  name-addr parsers have in common, which trims white space, is modelled here.
\<close>

record usipy_tvpair =
  tv_token :: string
  tv_value :: string

text \<open>The size of a structure of \<open>c\<close> bytes with \<open>n\<close> pairs after it.\<close>

lemma unat_struct_size:
  assumes "c = of_nat k" "k < 2 ^ 20" "n < 2 ^ 58"
  shows "unat (c + 32 * of_nat n :: size_t) = k + 32 * n"
proof -
  have "unat (of_nat (k + 32 * n) :: size_t) = (k + 32 * n) mod 2 ^ LENGTH(64)"
    by (rule unat_of_nat)
  also have "\<dots> = k + 32 * n" using assms by (intro mod_less) simp
  finally show ?thesis by (simp add: assms(1))
qed

subsection \<open>The growing loop\<close>

text \<open>
  \<open>sz\<close> is the size of the structure the pairs follow, \<open>nprev\<close> the pairs stored before the loop,
  \<open>szf\<close> the \<open>SIZEOF\<close> macro, \<open>nxt\<close> the next element and the rest, \<open>tv\<close> the pair an element makes,
  and \<open>elems\<close> all the pairs of a text. The result is \<open>None\<close> when the loop goes to \<open>rollback\<close>.
\<close>

locale counted_loop =
  fixes sz nprev :: nat and szf :: "nat \<Rightarrow> size_t"
    and nxt :: "string \<Rightarrow> string \<times> string" and tv :: "string \<Rightarrow> usipy_tvpair"
    and elems :: "string \<Rightarrow> usipy_tvpair list"
    and loop :: "string \<Rightarrow> usipy_tvpair list \<Rightarrow> usipy_msg_heap \<Rightarrow> usipy_msg_heap_cnt \<Rightarrow>
      (usipy_tvpair list option \<times> usipy_msg_heap \<times> usipy_msg_heap_cnt) abortable"
  assumes shorter: "space \<noteq> [] \<Longrightarrow> length (snd (nxt space)) < length space"
    and szf: "n < 2 ^ 58 \<Longrightarrow> unat (szf n) = sz + 32 * n"
    and sz: "8 dvd sz" "sz < 2 ^ 20"
    and elems_unfold: "elems space =
      (if space = [] then [] else tv (fst (nxt space)) # elems (snd (nxt space)))"
    and loop_unfold: "loop space tvs mhp cnt =
      (if space = [] then Some (Some tvs, mhp, cnt)
       else Option.bind (usipy_msg_heap_aextend mhp (szf (length tvs + nprev + 1)) cnt)
         (\<lambda>(ok, mhp, cnt).
            if \<not> ok then Some (None, mhp, cnt)
            else loop (snd (nxt space)) (tvs @ [tv (fst (nxt space))]) mhp cnt))"
begin

lemma up8_sz: "up8 (sz + 32 * n) = sz + 32 * n"
  using sz(1) by (intro up8_dvd) simp

lemma elems_Nil [simp]: "elems [] = []"
  by (subst elems_unfold) simp

lemma length_elems: "length (elems space) \<le> length space"
proof (induction space rule: length_induct)
  case (1 space)
  show ?case
  proof (cases "space = []")
    case False
    then have "length (elems (snd (nxt space))) \<le> length (snd (nxt space))"
      using 1 shorter by blast
    then show ?thesis
      using shorter[OF False] False by (subst elems_unfold) simp
  qed simp
qed

text \<open>The loop never aborts and fails exactly when the heap has no room for all the pairs.\<close>

lemma loop_spec:
  assumes "cnt_ok base mhp cnt" "unat (cnt_alen cnt) = sz + 32 * (length tvs + nprev)"
    "length tvs + nprev + length space < 2 ^ 58"
  shows "\<exists>mhp' cnt'. cnt_ok base mhp' cnt' \<and>
    (let n = length tvs + nprev + length (elems space);
         fits = up8 (mark base) + (sz + 32 * n) \<le> hsize base in
     loop space tvs mhp cnt =
       Some (if fits then Some (tvs @ elems space) else None, mhp', cnt') \<and>
     (fits \<longrightarrow> unat (cnt_alen cnt') = sz + 32 * n))"
  using assms
proof (induction space arbitrary: tvs mhp cnt rule: length_induct)
  case (1 space tvs mhp cnt)
  note IH = 1(1)[rule_format]
  show ?case
  proof (cases "space = []")
    case True
    have "up8 (mark base) + unat (cnt_alen cnt) \<le> hsize base"
      using 1(2) heap_ok_mark[of mhp] same_frame_sel(1)[of base mhp]
      by (simp add: cnt_ok_def extends_def)
    then show ?thesis
      using 1(2,3) True loop_unfold[of "[]" tvs mhp cnt] by (auto simp: Let_def)
  next
    case False
    let ?n = "length tvs + nprev + 1" and ?rest = "snd (nxt space)"
    have short: "length ?rest < length space" by (rule shorter[OF False])
    have small: "?n < 2 ^ 58" using 1(4) False by (cases space) auto
    have u: "unat (szf ?n) = sz + 32 * ?n" by (rule szf[OF small])
    have len: "length tvs + nprev + length (elems space) = ?n + length (elems ?rest)"
      using False by (subst elems_unfold) simp
    have b: "unat (szf ?n) + 7 < 2 ^ 64" "unat (cnt_alen cnt) \<le> up8 (unat (szf ?n))"
      using small sz(2) 1(3) unfolding u up8_sz by simp_all
    obtain ok hp' cnt' where e: "usipy_msg_heap_aextend mhp (szf ?n) cnt = Some (ok, hp', cnt')"
      "cnt_ok base hp' cnt'" "ok \<longleftrightarrow> up8 (mark base) + up8 (unat (szf ?n)) \<le> hsize base"
      "ok \<Longrightarrow> unat (cnt_alen cnt') = up8 (unat (szf ?n))"
      by (rule aextend_spec[OF 1(2) b]) (rule that; assumption)
    show ?thesis
    proof (cases ok)
      case False
      then have "\<not> up8 (mark base) + (sz + 32 * (?n + length (elems ?rest))) \<le> hsize base"
        using e(3) unfolding u up8_sz by simp
      then show ?thesis
        using e(1,2) False \<open>space \<noteq> []\<close> unfolding len Let_def
        by (subst loop_unfold) auto
    next
      case True
      have "loop space tvs mhp cnt = loop ?rest (tvs @ [tv (fst (nxt space))]) hp' cnt'"
        using e(1) True False by (subst loop_unfold) simp
      moreover have "elems space = tv (fst (nxt space)) # elems ?rest"
        using False by (subst elems_unfold) simp
      moreover have "unat (cnt_alen cnt') = sz + 32 * ?n"
        using e(4)[OF True] unfolding u up8_sz .
      ultimately show ?thesis
        using IH[OF short e(2), of "tvs @ [tv (fst (nxt space))]"] 1(4) short
        unfolding Let_def by (auto split: if_splits)
    qed
  qed
qed

end

subsection \<open>Pairs and their text\<close>

definition tv_text :: "usipy_tvpair \<Rightarrow> string" where
  "tv_text p = tv_token p @ (if tv_value p \<noteq> [] then CHR ''='' # tv_value p else [])"

fun tvs_body :: "char \<Rightarrow> usipy_tvpair list \<Rightarrow> string" where
  "tvs_body d [] = []"
| "tvs_body d [p] = tv_text p"
| "tvs_body d (p # q # ps) = tv_text p @ d # tvs_body d (q # ps)"

text \<open>\<open>thisparam\<close> cut at its equal sign, with and without the trimming.\<close>

definition split_tv :: "string \<Rightarrow> usipy_tvpair" where
  "split_tv this =
     (case usipy_str_split this CHR ''='' of
        None \<Rightarrow> \<lparr>tv_token = this, tv_value = []\<rparr>
      | Some (tok, val) \<Rightarrow> \<lparr>tv_token = tok, tv_value = val\<rparr>)"

definition split_tv_lws :: "string \<Rightarrow> usipy_tvpair" where
  "split_tv_lws this =
     (case usipy_str_split this CHR ''='' of
        Some (tok, val) \<Rightarrow> \<lparr>tv_token = usipy_str_ltrm_e tok, tv_value = usipy_str_ltrm_b val\<rparr>
      | None \<Rightarrow> \<lparr>tv_token = this, tv_value = []\<rparr>)"

definition tv_ok :: "char \<Rightarrow> usipy_tvpair \<Rightarrow> bool" where
  "tv_ok d p \<longleftrightarrow> CHR ''='' \<notin> set (tv_token p) \<and> d \<notin> set (tv_token p) \<and> d \<notin> set (tv_value p)"

definition tvs_ok :: "char \<Rightarrow> usipy_tvpair list \<Rightarrow> bool" where
  "tvs_ok d ps \<longleftrightarrow> (\<forall>p\<in>set ps. tv_ok d p) \<and> (ps = [] \<or> tv_text (last ps) \<noteq> [])"

text \<open>The next element and the rest: the element is the whole text when the delimiter is missing.\<close>

definition next_elem :: "string \<Rightarrow> char \<Rightarrow> string \<times> string" where
  "next_elem space dlm =
     (case usipy_str_split_elem_nlws space dlm of
        None \<Rightarrow> (space, [])
      | Some (this, rest) \<Rightarrow> (this, rest))"

lemma next_elem_shorter: "space \<noteq> [] \<Longrightarrow> length (snd (next_elem space dlm)) < length space"
  by (auto simp: next_elem_def split_nlws_eq dest: split_length split: option.splits)

text \<open>All the pairs of a text.\<close>

function tvps :: "char \<Rightarrow> string \<Rightarrow> usipy_tvpair list" where
  "tvps dlm space =
     (if space = [] then []
      else split_tv (fst (next_elem space dlm)) # tvps dlm (snd (next_elem space dlm)))"
  by auto
termination
  by (relation "measure (\<lambda>(_, space). length space)") (auto simp: next_elem_shorter)

declare tvps.simps [simp del]

lemma tvps_Nil [simp]: "tvps dlm [] = []"
  by (simp add: tvps.simps)

lemma split_tv_text: "tv_ok d p \<Longrightarrow> split_tv (tv_text p) = p"
  by (cases p) (auto simp: split_tv_def tv_text_def tv_ok_def)

lemma tv_text_free: "tv_ok d p \<Longrightarrow> d \<noteq> CHR ''='' \<Longrightarrow> d \<notin> set (tv_text p)"
  by (auto simp: tv_text_def tv_ok_def)

lemma tvs_body_Nil: "tvs_ok d ps \<Longrightarrow> tvs_body d ps = [] \<longleftrightarrow> ps = []"
  by (induction d ps rule: tvs_body.induct) (auto simp: tvs_ok_def)

lemma tvps_body:
  assumes "tvs_ok d ps" "d \<noteq> CHR ''=''"
  shows "tvps d (tvs_body d ps) = ps"
  using assms
proof (induction d ps rule: tvs_body.induct)
  case (2 d p)
  then have "tv_text p \<noteq> []" "d \<notin> set (tv_text p)" "split_tv (tv_text p) = p"
    by (auto simp: tvs_ok_def split_tv_text tv_text_free)
  then show ?case
    by (simp add: tvps.simps[of d "tv_text p"] next_elem_def split_nlws_eq)
next
  case (3 d p q ps)
  then have "d \<notin> set (tv_text p)" "split_tv (tv_text p) = p" "tvs_ok d (q # ps)"
    by (auto simp: tvs_ok_def split_tv_text tv_text_free)
  then show ?case
    using 3 by (simp add: tvps.simps[of d "tv_text p @ d # tvs_body d (q # ps)"] next_elem_def
        split_nlws_eq)
qed simp

subsection \<open>The loop that trims white space\<close>

definition next_elem_lws :: "string \<Rightarrow> string \<times> string" where
  "next_elem_lws space =
     (case usipy_str_split_elem space CHR '';'' of
        None \<Rightarrow> (space, [])
      | Some (this, rest) \<Rightarrow> (this, rest))"

lemma next_elem_lws_shorter: "space \<noteq> [] \<Longrightarrow> length (snd (next_elem_lws space)) < length space"
  by (auto simp: next_elem_lws_def dest: split_elem_length split: option.splits)

text \<open>\<open>szf\<close> is \<open>VH_SIZEOF\<close> or \<open>NA_SIZEOF\<close>.\<close>

function lws_tvp_loop ::
  "(nat \<Rightarrow> size_t) \<Rightarrow> string \<Rightarrow> usipy_tvpair list \<Rightarrow> usipy_msg_heap \<Rightarrow> usipy_msg_heap_cnt \<Rightarrow>
     (usipy_tvpair list option \<times> usipy_msg_heap \<times> usipy_msg_heap_cnt) abortable" where
  "lws_tvp_loop szf space tvs mhp cnt =
     (if space = [] then Some (Some tvs, mhp, cnt)
      else
        let this = fst (next_elem_lws space) in
        Option.bind (usipy_msg_heap_aextend mhp (szf (length tvs + 1)) cnt)
          (\<lambda>(ok, mhp, cnt).
             if \<not> ok then Some (None, mhp, cnt)
             else lws_tvp_loop szf (snd (next_elem_lws space)) (tvs @ [split_tv_lws this]) mhp cnt))"
  by auto
termination
  by (relation "measure (\<lambda>(_, space, _). length space)") (auto simp: next_elem_lws_shorter)

declare lws_tvp_loop.simps [simp del]

function lws_tvps :: "string \<Rightarrow> usipy_tvpair list" where
  "lws_tvps space =
     (if space = [] then []
      else split_tv_lws (fst (next_elem_lws space)) # lws_tvps (snd (next_elem_lws space)))"
  by auto
termination
  by (relation "measure length") (auto simp: next_elem_lws_shorter)

declare lws_tvps.simps [simp del]

lemma lws_tvps_Nil [simp]: "lws_tvps [] = []"
  by (simp add: lws_tvps.simps)

text \<open>Text with no white space at its ends is not changed by the trimming.\<close>

definition trimmed :: "string \<Rightarrow> bool" where
  "trimmed s \<longleftrightarrow> s = [] \<or> \<not> USIPY_ISLWS (hd s) \<and> \<not> USIPY_ISLWS (last s)"

definition tv_trimmed :: "usipy_tvpair \<Rightarrow> bool" where
  "tv_trimmed p \<longleftrightarrow> trimmed (tv_token p) \<and> trimmed (tv_value p)"

lemma ltrm_trimmed [simp]:
  "trimmed s \<Longrightarrow> usipy_str_ltrm_b s = s" "trimmed s \<Longrightarrow> usipy_str_ltrm_e s = s"
  by (auto simp: trimmed_def ltrm_b_id ltrm_e_id)

lemma not_lws [simp]:
  "\<not> USIPY_ISLWS CHR ''=''" "\<not> USIPY_ISLWS CHR '';''" "\<not> USIPY_ISLWS CHR '':''" "\<not> USIPY_ISLWS CHR ''/''"
  "\<not> USIPY_ISLWS CHR ''<''" "\<not> USIPY_ISLWS CHR ''>''"
  by (simp_all add: USIPY_ISLWS_def USIPY_ISWS_def)

lemma trimmed_tv_text: "tv_trimmed p \<Longrightarrow> trimmed (tv_text p)"
  by (auto simp: tv_trimmed_def trimmed_def tv_text_def hd_append)

lemma split_tv_lws_text: "tv_ok d p \<Longrightarrow> tv_trimmed p \<Longrightarrow> split_tv_lws (tv_text p) = p"
  by (cases p) (auto simp: split_tv_lws_def tv_text_def tv_ok_def tv_trimmed_def)

lemma ltrm_b_body:
  "\<forall>p\<in>set ps. tv_trimmed p \<Longrightarrow> usipy_str_ltrm_b (tvs_body CHR '';'' ps) = tvs_body CHR '';'' ps"
proof (induction "CHR '';''" ps rule: tvs_body.induct)
  case (3 p q ps)
  then have "trimmed (tv_text p)" by (simp add: trimmed_tv_text)
  then show ?case by (cases "tv_text p") (auto simp: trimmed_def)
qed (simp_all add: trimmed_tv_text)

lemma lws_tvps_body:
  assumes "tvs_ok CHR '';'' ps" "\<forall>p\<in>set ps. tv_trimmed p"
  shows "lws_tvps (tvs_body CHR '';'' ps) = ps"
  using assms
proof (induction "CHR '';''" ps rule: tvs_body.induct)
  case (2 p)
  then have "tv_text p \<noteq> []" "CHR '';'' \<notin> set (tv_text p)" "split_tv_lws (tv_text p) = p"
    by (auto simp: tvs_ok_def split_tv_lws_text tv_text_free)
  then show ?case
    by (simp add: lws_tvps.simps[of "tv_text p"] next_elem_lws_def split_elem_eq)
next
  case (3 p q ps)
  then have p: "CHR '';'' \<notin> set (tv_text p)" "split_tv_lws (tv_text p) = p" "tvs_ok CHR '';'' (q # ps)"
    by (auto simp: tvs_ok_def split_tv_lws_text tv_text_free)
  have t: "usipy_str_ltrm_e (tv_text p) = tv_text p" using 3 by (simp add: trimmed_tv_text)
  have b: "usipy_str_ltrm_b (tvs_body CHR '';'' (q # ps)) = tvs_body CHR '';'' (q # ps)"
    using 3(3) by (intro ltrm_b_body) simp
  show ?case
    using 3 p by (simp add: lws_tvps.simps[of "tv_text p @ CHR '';'' # tvs_body CHR '';'' (q # ps)"]
        next_elem_lws_def split_elem_eq t b)
qed simp

fun params_text :: "usipy_tvpair list \<Rightarrow> string" where
  "params_text [] = []"
| "params_text (p # ps) =
     CHR '';'' # tv_token p @ (if tv_value p \<noteq> [] then CHR ''='' # tv_value p else []) @ params_text ps"

lemma params_text_body: "params_text ps = (if ps = [] then [] else CHR '';'' # tvs_body CHR '';'' ps)"
  by (induction "CHR '';''" ps rule: tvs_body.induct) (simp_all add: tv_text_def)

lemma params_text_free:
  "d \<notin> set (params_text ps) \<longleftrightarrow> (ps = [] \<or> d \<noteq> CHR '';'') \<and> (\<forall>p\<in>set ps. d \<notin> set (tv_text p))"
  by (induction ps) (auto simp: tv_text_def)

text \<open>The loop of a structure of \<open>sz\<close> bytes is a counted loop.\<close>

lemma lws_loop_counted:
  assumes "\<And>n. n < 2 ^ 58 \<Longrightarrow> unat (szf n) = sz + 32 * n" "8 dvd sz" "sz < 2 ^ 20"
  shows "counted_loop sz 0 szf next_elem_lws split_tv_lws lws_tvps (lws_tvp_loop szf)"
  using assms
  by unfold_locales
     (simp_all add: next_elem_lws_shorter lws_tvps.simps lws_tvp_loop.simps Let_def)

text \<open>The end of a header parser: run the loop, roll back when it fails, else build the result.\<close>

definition hdr_rollback ::
  "usipy_msg_heap \<Rightarrow> usipy_msg_heap_cnt \<Rightarrow> ('a option \<times> usipy_msg_heap) abortable" where
  "hdr_rollback mhp cnt = do {
     mhp \<leftarrow> usipy_msg_heap_cnt_rollback mhp cnt;
     Some (None, mhp)
   }"

lemma hdr_rollback_spec:
  assumes "cnt_ok base mhp cnt"
  shows "\<exists>mhp'. hdr_rollback mhp cnt = Some (None, mhp') \<and> extends base mhp'"
  using cnt_rollback_spec[OF assms] by (metis bind.simps(2) hdr_rollback_def)

definition finish_loop ::
  "(nat \<Rightarrow> size_t) \<Rightarrow> string \<Rightarrow> (usipy_tvpair list \<Rightarrow> 'a) \<Rightarrow> usipy_msg_heap \<Rightarrow> usipy_msg_heap_cnt \<Rightarrow>
     ('a option \<times> usipy_msg_heap) abortable" where
  "finish_loop szf ps mk mhp cnt = do {
     (params, mhp, cnt) \<leftarrow> lws_tvp_loop szf ps [] mhp cnt;
     case params of
       None \<Rightarrow> hdr_rollback mhp cnt
     | Some params \<Rightarrow> Some (Some (mk params), mhp)
   }"

lemma finish_loop_spec:
  assumes lp: "counted_loop sz 0 szf next_elem_lws split_tv_lws lws_tvps (lws_tvp_loop szf)"
    and c: "cnt_ok base mhp cnt" "unat (cnt_alen cnt) = sz" and len: "length ps < 2 ^ 57"
  shows "\<exists>mhp'. finish_loop szf ps mk mhp cnt =
      Some (if up8 (mark base) + (sz + 32 * length (lws_tvps ps)) \<le> hsize base
            then Some (mk (lws_tvps ps)) else None, mhp') \<and> extends base mhp'"
proof -
  let ?fits = "up8 (mark base) + (sz + 32 * length (lws_tvps ps)) \<le> hsize base"
  obtain m1 c1 where l: "cnt_ok base m1 c1"
    "lws_tvp_loop szf ps [] mhp cnt = Some (if ?fits then Some (lws_tvps ps) else None, m1, c1)"
    using counted_loop.loop_spec[OF lp c(1), of "[]" ps] c(2) len by (auto simp: Let_def)
  obtain r1 where r: "hdr_rollback m1 c1 = Some (None :: 'a option, r1)" "extends base r1"
    using hdr_rollback_spec[OF l(1)] by blast
  have "extends base m1" using l(1) by (simp add: cnt_ok_def)
  then show ?thesis using l(2) r by (auto simp: finish_loop_def)
qed

text \<open>The beginning of a header parser: the counted allocation of the structure itself.\<close>

lemma hdr_alloc_cases:
  assumes ok: "heap_ok mhp" and sz: "unat len = sz" "8 dvd sz" "sz < 2 ^ 20"
  shows "usipy_msg_heap_alloc_cnt mhp len = (None, mhp) \<and> hsize mhp < up8 (mark mhp) + sz \<or>
    (\<exists>r cnt mhp'. usipy_msg_heap_alloc_cnt mhp len = (Some (r, cnt), mhp') \<and>
       cnt_ok mhp mhp' cnt \<and> unat (cnt_alen cnt) = sz)"
proof -
  have b: "unat len + 14 < 2 ^ 64" using sz by simp
  obtain a mhp' where al: "usipy_msg_heap_alloc_cnt mhp len = (a, mhp')"
    by (cases "usipy_msg_heap_alloc_cnt mhp len")
  show ?thesis
  proof (cases a)
    case None
    then show ?thesis using al alloc_cnt_None[OF ok b] sz by (simp add: up8_dvd)
  next
    case (Some rc)
    obtain r cnt where "rc = (r, cnt)" by (cases rc)
    then show ?thesis
      using Some al alloc_cnt_Some[OF ok b] sz by (simp add: up8_dvd)
  qed
qed

end
