(* ===== verification/Usipy_Uri.thy ===== *)
theory Usipy_Uri
  imports Usipy_Tvp
begin

text \<open>
  Component \<open>usipy_sip_uri\<close> (\<open>src/usipy_sip_uri.c\<close>, \<open>usipy_sip_uri.h\<close>, \<open>usipy_tvpair.h\<close>): SIP URIs.
  The parser allocates the structure in the message heap, extends the allocation by one pair per
  parameter and header, and rolls it back when the text is malformed or the heap is full. The
  strings of the result are slices of the input, here their contents; the structure itself is
  returned by value, and what it costs in the heap is accounted for. \<open>None\<close> as the first
  component of the result is the null pointer.
\<close>

record usipy_sip_uri =
  uri_proto :: string
  uri_user :: string
  uri_password :: string
  uri_host :: string
  uri_port :: uint32
  uri_parameters :: "usipy_tvpair list"
  uri_headers :: "usipy_tvpair list"

subsection \<open>Parsing\<close>

text \<open>\<open>sizeof\<close> on LP64: the structure takes 96 bytes and a pair 32.\<close>

definition URI_SIZEOF :: "nat \<Rightarrow> size_t" where
  "URI_SIZEOF nparams = 96 + 32 * of_nat nparams"

text \<open>
  The loops over \<open>pspace\<close> and \<open>hspace\<close>: \<open>nprev\<close> pairs are stored already (none for the parameters,
  the parameters for the headers). The last component is \<open>None\<close> when the code goes to \<open>rollback\<close>.
\<close>

function uri_tvp_loop ::
  "char \<Rightarrow> nat \<Rightarrow> string \<Rightarrow> usipy_tvpair list \<Rightarrow> usipy_msg_heap \<Rightarrow> usipy_msg_heap_cnt \<Rightarrow>
     (usipy_tvpair list option \<times> usipy_msg_heap \<times> usipy_msg_heap_cnt) abortable" where
  "uri_tvp_loop dlm nprev space tvs mhp cnt =
     (if space = [] then Some (Some tvs, mhp, cnt)
      else
        let this = fst (next_elem space dlm) in
        Option.bind (usipy_msg_heap_aextend mhp (URI_SIZEOF (length tvs + nprev + 1)) cnt)
          (\<lambda>(ok, mhp, cnt).
             if \<not> ok then Some (None, mhp, cnt)
             else uri_tvp_loop dlm nprev (snd (next_elem space dlm)) (tvs @ [split_tv this]) mhp cnt))"
  by auto
termination
  by (relation "measure (\<lambda>(_, _, space, _). length space)") (auto simp: next_elem_shorter)

declare uri_tvp_loop.simps [simp del]

definition uri_rollback ::
  "usipy_msg_heap \<Rightarrow> usipy_msg_heap_cnt \<Rightarrow> ('a option \<times> usipy_msg_heap) abortable" where
  "uri_rollback mhp cnt = do {
     mhp \<leftarrow> usipy_msg_heap_cnt_rollback mhp cnt;
     Some (None, mhp)
   }"

definition uri_userinfo :: "string \<Rightarrow> string \<times> string \<times> string" where
  "uri_userinfo iup =
     (case usipy_str_split_elem_nlws iup CHR ''@'' of
        None \<Rightarrow> ([], [], iup)
      | Some (userpass, iup) \<Rightarrow>
          (case usipy_str_split userpass CHR '':'' of
             None \<Rightarrow> (userpass, [], iup)
           | Some (user, password) \<Rightarrow> (user, password, iup)))"

text \<open>The text after the user part, cut into \<open>pnum\<close>, \<open>pspace\<close> and \<open>hspace\<close>.\<close>

definition uri_spaces :: "string \<Rightarrow> string \<times> string \<times> string" where
  "uri_spaces iup =
     (case usipy_str_split_elem_nlws iup CHR '';'' of
        None \<Rightarrow>
          (case usipy_str_split_elem_nlws iup CHR ''?'' of
             None \<Rightarrow> (iup, [], [])
           | Some (pnum, iup) \<Rightarrow> (pnum, [], iup))
      | Some (pnum, iup) \<Rightarrow>
          (case usipy_str_split_elem_nlws iup CHR ''?'' of
             None \<Rightarrow> (pnum, iup, [])
           | Some (pspace, iup) \<Rightarrow> (pnum, pspace, iup)))"

text \<open>Host and port; \<open>None\<close> is the \<open>goto rollback\<close> of a bad port.\<close>

definition uri_hostport :: "string \<Rightarrow> (string \<times> uint32) option" where
  "uri_hostport pnum =
     (case usipy_str_split_elem_nlws pnum CHR '':'' of
        Some (host, pnum) \<Rightarrow>
          (case usipy_str_atoui_range pnum 1 65535 of
             None \<Rightarrow> None
           | Some port \<Rightarrow> Some (host, port))
      | None \<Rightarrow> Some (pnum, 0))"

definition usipy_sip_uri_parse ::
  "usipy_msg_heap \<Rightarrow> string \<Rightarrow> (usipy_sip_uri option \<times> usipy_msg_heap) abortable" where
  "usipy_sip_uri_parse mhp surip =
     (case usipy_msg_heap_alloc_cnt mhp (URI_SIZEOF 0) of
        (None, mhp) \<Rightarrow> Some (None, mhp)
      | (Some (up, cnt), mhp) \<Rightarrow>
          (case usipy_str_split_elem_nlws surip CHR '':'' of
             None \<Rightarrow> uri_rollback mhp cnt
           | Some (proto, iup) \<Rightarrow>
               let (user, password, iup) = uri_userinfo iup;
                   (pnum, pspace, hspace) = uri_spaces iup in
               if pnum = [] then uri_rollback mhp cnt
               else (case uri_hostport pnum of
                  None \<Rightarrow> uri_rollback mhp cnt
                | Some (host, port) \<Rightarrow> do {
                    (params, mhp, cnt) \<leftarrow> uri_tvp_loop CHR '';'' 0 pspace [] mhp cnt;
                    case params of
                      None \<Rightarrow> uri_rollback mhp cnt
                    | Some params \<Rightarrow> do {
                        (hdrs, mhp, cnt) \<leftarrow> uri_tvp_loop CHR ''&'' (length params) hspace [] mhp cnt;
                        case hdrs of
                          None \<Rightarrow> uri_rollback mhp cnt
                        | Some hdrs \<Rightarrow>
                            Some (Some \<lparr>uri_proto = proto, uri_user = user, uri_password = password,
                              uri_host = host, uri_port = port, uri_parameters = params,
                              uri_headers = hdrs\<rparr>, mhp)
                      }
                  })))"

subsection \<open>Building\<close>

fun uri_build_params :: "usipy_tvpair list \<Rightarrow> nat \<Rightarrow> string \<Rightarrow> string option" where
  "uri_build_params [] len buf = Some buf"
| "uri_build_params (p # ps) len buf = do {
     buf \<leftarrow> usipy_strbuf_append_pair '';'' (tv_token p) len buf;
     buf \<leftarrow> (if tv_value p \<noteq> [] then usipy_strbuf_append_pair ''='' (tv_value p) len buf else Some buf);
     uri_build_params ps len buf
   }"

text \<open>\<open>first\<close> is \<open>i == 0\<close>.\<close>

fun uri_build_hdrs :: "bool \<Rightarrow> usipy_tvpair list \<Rightarrow> nat \<Rightarrow> string \<Rightarrow> string option" where
  "uri_build_hdrs first [] len buf = Some buf"
| "uri_build_hdrs first (p # ps) len buf = do {
     buf \<leftarrow> usipy_strbuf_append_pair (if first then ''?'' else ''&'') (tv_token p) len buf;
     buf \<leftarrow> (if tv_value p \<noteq> [] then usipy_strbuf_append_pair ''='' (tv_value p) len buf else Some buf);
     uri_build_hdrs False ps len buf
   }"

definition usipy_sip_uri_build :: "usipy_sip_uri \<Rightarrow> nat \<Rightarrow> string option" where
  "usipy_sip_uri_build up len = do {
     buf \<leftarrow> usipy_strbuf_append_pair (uri_proto up) '':'' len [];
     buf \<leftarrow> (if uri_user up \<noteq> [] then do {
               buf \<leftarrow> usipy_strbuf_append (uri_user up) len buf;
               buf \<leftarrow> (if uri_password up \<noteq> []
                       then usipy_strbuf_append_pair '':'' (uri_password up) len buf else Some buf);
               if len - length buf < 1 then None else Some (buf @ ''@'')
             } else Some buf);
     buf \<leftarrow> usipy_strbuf_append (uri_host up) len buf;
     buf \<leftarrow> (if uri_port up \<noteq> 0 then snprintf_at ('':'' @ dec (unat (uri_port up))) len buf
             else Some buf);
     buf \<leftarrow> uri_build_params (uri_parameters up) len buf;
     uri_build_hdrs True (uri_headers up) len buf
   }"

subsection \<open>The parser and its specification\<close>

definition uri_of_string :: "string \<Rightarrow> usipy_sip_uri option" where
  "uri_of_string s =
     (case usipy_str_split s CHR '':'' of
        None \<Rightarrow> None
      | Some (proto, iup) \<Rightarrow>
          let (user, password, iup) = uri_userinfo iup;
              (pnum, pspace, hspace) = uri_spaces iup in
          if pnum = [] then None
          else map_option (\<lambda>(host, port).
            \<lparr>uri_proto = proto, uri_user = user, uri_password = password, uri_host = host,
             uri_port = port, uri_parameters = tvps CHR '';'' pspace,
             uri_headers = tvps CHR ''&'' hspace\<rparr>) (uri_hostport pnum))"

definition uri_size :: "usipy_sip_uri \<Rightarrow> nat" where
  "uri_size u = 96 + 32 * (length (uri_parameters u) + length (uri_headers u))"

lemma unat_URI_SIZEOF:
  assumes "n < 2 ^ 58"
  shows "unat (URI_SIZEOF n) = 96 + 32 * n"
proof -
  have "unat (of_nat (96 + 32 * n) :: size_t) = (96 + 32 * n) mod 2 ^ LENGTH(64)"
    by (rule unat_of_nat)
  also have "\<dots> = 96 + 32 * n" using assms by (intro mod_less) simp
  finally show ?thesis by (simp add: URI_SIZEOF_def)
qed

text \<open>Both loops are counted loops: the headers follow the parameters.\<close>

lemma uri_loop_counted:
  "counted_loop 96 nprev (\<lambda>n. URI_SIZEOF n) (\<lambda>space. next_elem space d) split_tv (tvps d)
     (uri_tvp_loop d nprev)"
  by unfold_locales
     (simp_all add: unat_URI_SIZEOF next_elem_shorter tvps.simps[of d] uri_tvp_loop.simps[of d] Let_def)

interpretation uri_loop: counted_loop 96 nprev URI_SIZEOF "\<lambda>space. next_elem space d" split_tv "tvps d"
  "uri_tvp_loop d nprev" for nprev d
  by (rule uri_loop_counted)

lemmas length_tvps = uri_loop.length_elems
lemmas up8_URI = uri_loop.up8_sz

lemma length_split_parts:
  "usipy_str_split x d = Some (y, z) \<Longrightarrow> length y \<le> length x \<and> length z \<le> length x"
  by (auto simp: split_Some_iff)

lemma uri_userinfo_length:
  "uri_userinfo iup = (u, p, rest) \<Longrightarrow> length rest \<le> length iup"
  by (auto simp: uri_userinfo_def split_nlws_eq split: option.splits prod.splits dest: length_split_parts)

lemma uri_spaces_length:
  "uri_spaces iup = (pnum, ps, hs) \<Longrightarrow> length ps + length hs \<le> length iup"
  by (auto simp: uri_spaces_def split_nlws_eq split: option.splits prod.splits
      dest!: length_split_parts split_length)

lemma uri_rollback_spec:
  assumes "cnt_ok base mhp cnt"
  obtains mhp' where "uri_rollback mhp cnt = Some (None, mhp')" "extends base mhp'"
    "mark mhp' = up8 (mark base)"
  using cnt_rollback_spec[OF assms] that by (metis bind.simps(2) uri_rollback_def)

text \<open>Both loops of the parser in a row, with their rollbacks.\<close>

lemma uri_loops_spec:
  fixes ps hs :: string and mk :: "usipy_tvpair list \<Rightarrow> usipy_tvpair list \<Rightarrow> usipy_sip_uri"
  assumes c: "cnt_ok base mhp cnt" "unat (cnt_alen cnt) = 96" and len: "length ps + length hs < 2 ^ 57"
  defines "n \<equiv> length (tvps CHR '';'' ps) + length (tvps CHR ''&'' hs)"
  shows "\<exists>mhp'. do {
      (params, mhp, cnt) \<leftarrow> uri_tvp_loop CHR '';'' 0 ps [] mhp cnt;
      case params of
        None \<Rightarrow> uri_rollback mhp cnt
      | Some params \<Rightarrow> do {
          (hdrs, mhp, cnt) \<leftarrow> uri_tvp_loop CHR ''&'' (length params) hs [] mhp cnt;
          case hdrs of None \<Rightarrow> uri_rollback mhp cnt | Some hdrs \<Rightarrow> Some (Some (mk params hdrs), mhp)
        }
    } = Some (if up8 (mark base) + (96 + 32 * n) \<le> hsize base
              then Some (mk (tvps CHR '';'' ps) (tvps CHR ''&'' hs)) else None, mhp') \<and>
    extends base mhp' \<and>
    (up8 (mark base) + (96 + 32 * n) \<le> hsize base \<longrightarrow> mark mhp' = up8 (mark base) + (96 + 32 * n))"
proof -
  let ?p = "tvps CHR '';'' ps" and ?h = "tvps CHR ''&'' hs"
  have lp: "length ?p \<le> length ps" "length ?h \<le> length hs" by (rule length_tvps)+
  obtain m1 c1 where l1: "cnt_ok base m1 c1"
    "uri_tvp_loop CHR '';'' 0 ps [] mhp cnt =
       Some (if up8 (mark base) + (96 + 32 * length ?p) \<le> hsize base then Some ?p else None, m1, c1)"
    "up8 (mark base) + (96 + 32 * length ?p) \<le> hsize base \<Longrightarrow> unat (cnt_alen c1) = 96 + 32 * length ?p"
    using uri_loop.loop_spec[OF c(1), of "[]" 0 ps "CHR '';''"] c(2) len by (auto simp: Let_def)
  obtain r1 where r1: "uri_rollback m1 c1 = Some (None :: usipy_sip_uri option, r1)" "extends base r1"
    using uri_rollback_spec[OF l1(1)] by metis
  show ?thesis
  proof (cases "up8 (mark base) + (96 + 32 * length ?p) \<le> hsize base")
    case False
    then show ?thesis using l1(2) r1 by (auto simp: n_def)
  next
    case True
    obtain m2 c2 where l2: "cnt_ok base m2 c2"
      "uri_tvp_loop CHR ''&'' (length ?p) hs [] m1 c1 =
         Some (if up8 (mark base) + (96 + 32 * n) \<le> hsize base then Some ?h else None, m2, c2)"
      "up8 (mark base) + (96 + 32 * n) \<le> hsize base \<Longrightarrow> unat (cnt_alen c2) = 96 + 32 * n"
      using uri_loop.loop_spec[OF l1(1), of "[]" "length ?p" hs "CHR ''&''"] l1(3)[OF True] len lp
      by (auto simp: Let_def n_def)
    obtain r2 where r2: "uri_rollback m2 c2 = Some (None :: usipy_sip_uri option, r2)" "extends base r2"
      using uri_rollback_spec[OF l2(1)] by metis
    have "extends base m2" "mark m2 = up8 (mark base) + unat (cnt_alen c2)"
      using l2(1) by (simp_all add: cnt_ok_def)
    then show ?thesis using True l1(2) l2(2,3) r2 by auto
  qed
qed

text \<open>
  The parser never aborts, keeps the heap well formed, and returns the URI of the
  specification exactly when the heap has room for it.
\<close>

lemma uri_parse_refines:
  assumes ok: "heap_ok mhp" and len: "length s < 2 ^ 56"
  shows "\<exists>mhp'. usipy_sip_uri_parse mhp s =
      Some (Option.bind (uri_of_string s)
        (\<lambda>u. if up8 (mark mhp) + uri_size u \<le> hsize mhp then Some u else None), mhp') \<and>
    extends mhp mhp' \<and>
    (\<forall>u. uri_of_string s = Some u \<and> up8 (mark mhp) + uri_size u \<le> hsize mhp \<longrightarrow>
      mark mhp' = up8 (mark mhp) + uri_size u)"
proof (cases "usipy_msg_heap_alloc_cnt mhp (URI_SIZEOF 0)")
  case (Pair a mhp1)
  have u0: "unat (URI_SIZEOF 0) = 96" using unat_URI_SIZEOF[of 0] by simp
  have b: "unat (URI_SIZEOF 0) + 14 < 2 ^ 64" unfolding u0 by simp
  show ?thesis
  proof (cases a)
    case None
    with Pair have "mhp1 = mhp" "hsize mhp < up8 (mark mhp) + 96"
      using alloc_cnt_None[OF ok b] up8_URI[of 0] by (simp_all add: u0)
    then show ?thesis
      using Pair None extends_refl[OF ok]
      by (auto simp: usipy_sip_uri_parse_def uri_size_def bind_eq_None_conv split: option.splits)
  next
    case (Some rc)
    obtain r cnt where rc: "rc = (r, cnt)" by (cases rc)
    note c = alloc_cnt_Some[OF ok b Pair[unfolded Some rc]]
    have c2: "unat (cnt_alen cnt) = 96 + 32 * (length ([] :: usipy_tvpair list) + 0)"
      using c(2) up8_URI[of 0] by (simp add: u0)
    obtain rb where rb: "uri_rollback mhp1 cnt = Some (None :: usipy_sip_uri option, rb)" "extends mhp rb"
      using uri_rollback_spec[OF c(1)] by metis
    show ?thesis
    proof (cases "usipy_str_split s CHR '':''")
      case None
      then show ?thesis
        using Pair Some rc rb by (simp add: usipy_sip_uri_parse_def uri_of_string_def split_nlws_eq)
    next
      case (Some pi)
      obtain proto iup where pi: "pi = (proto, iup)" by (cases pi)
      obtain user password rest where ui: "uri_userinfo iup = (user, password, rest)"
        by (metis prod_cases3)
      obtain pnum ps hs where sp: "uri_spaces rest = (pnum, ps, hs)" by (metis prod_cases3)
      have "length ps + length hs \<le> length s"
        using uri_spaces_length[OF sp] uri_userinfo_length[OF ui] length_split_parts[OF Some[unfolded pi]]
        by linarith
      then have small: "length ps + length hs < 2 ^ 57" using len by simp
      note parse = usipy_sip_uri_parse_def Pair \<open>a = Some rc\<close> rc split_nlws_eq Some pi ui sp
      show ?thesis
      proof (cases "pnum = []")
        case True
        then show ?thesis using parse rb by (simp add: uri_of_string_def)
      next
        case ne: False
        show ?thesis
        proof (cases "uri_hostport pnum")
          case None
          then show ?thesis using ne parse rb by (simp add: uri_of_string_def)
        next
          case hp: (Some hp)
          obtain host port where hpe: "hp = (host, port)" by (cases hp)
          note loops = uri_loops_spec[OF c(1) _ small,
            of "\<lambda>params hdrs. \<lparr>uri_proto = proto, uri_user = user, uri_password = password,
              uri_host = host, uri_port = port, uri_parameters = params, uri_headers = hdrs\<rparr>"]
          show ?thesis
            using loops c2 ne hp hpe by (simp add: uri_of_string_def parse uri_size_def)
        qed
      qed
    qed
  qed
qed

subsection \<open>The builder\<close>

fun hdrs_text :: "bool \<Rightarrow> usipy_tvpair list \<Rightarrow> string" where
  "hdrs_text first [] = []"
| "hdrs_text first (p # ps) =
     (if first then CHR ''?'' else CHR ''&'') # tv_token p @
     (if tv_value p \<noteq> [] then CHR ''='' # tv_value p else []) @ hdrs_text False ps"

definition uri_text :: "usipy_sip_uri \<Rightarrow> string" where
  "uri_text u =
     uri_proto u @ '':'' @
     (if uri_user u \<noteq> [] then uri_user u @
        (if uri_password u \<noteq> [] then '':'' @ uri_password u else []) @ ''@'' else []) @
     uri_host u @ (if uri_port u \<noteq> 0 then '':'' @ dec (unat (uri_port u)) else []) @
     params_text (uri_parameters u) @ hdrs_text True (uri_headers u)"

lemma build_params_eq:
  "uri_build_params ps len buf =
     (if ps = [] \<or> length buf + length (params_text ps) \<le> len
      then Some (buf @ params_text ps) else None)"
  by (induction ps arbitrary: buf) (simp_all add: strbuf_append_pair_eq)

lemma build_hdrs_eq:
  "uri_build_hdrs first ps len buf =
     (if ps = [] \<or> length buf + length (hdrs_text first ps) \<le> len
      then Some (buf @ hdrs_text first ps) else None)"
  by (induction ps arbitrary: buf first) (simp_all add: strbuf_append_pair_eq)

lemma build_params_Some:
  "uri_build_params ps len buf = Some b \<longleftrightarrow>
     b = buf @ params_text ps \<and> (ps = [] \<or> length b \<le> len)"
  by (auto simp: build_params_eq)

lemma build_hdrs_Some:
  "uri_build_hdrs first ps len buf = Some b \<longleftrightarrow>
     b = buf @ hdrs_text first ps \<and> (ps = [] \<or> length b \<le> len)"
  by (auto simp: build_hdrs_eq)

lemma at_sign_Some:
  "(if len - length buf < 1 then None else Some (buf @ ''@'')) = Some b \<longleftrightarrow>
     b = buf @ ''@'' \<and> length b \<le> len"
  by auto

lemma uri_build_sound: "usipy_sip_uri_build u len = Some b \<Longrightarrow> b = uri_text u \<and> length b \<le> len"
  by (auto simp: usipy_sip_uri_build_def uri_text_def bind_eq_Some_conv build_params_Some
      build_hdrs_Some build_simps at_sign_Some simp del: One_nat_def split: if_splits)

lemma uri_build_complete: "length (uri_text u) < len \<Longrightarrow> usipy_sip_uri_build u len = Some (uri_text u)"
  unfolding usipy_sip_uri_build_def uri_text_def
  by (cases "uri_user u = []"; cases "uri_password u = []"; cases "uri_port u = 0")
     (simp_all add: bind_eq_Some_conv build_params_Some build_hdrs_Some build_simps)

subsection \<open>Round trip\<close>

lemma hdrs_text_body:
  "hdrs_text first ps =
     (if ps = [] then [] else (if first then CHR ''?'' else CHR ''&'') # tvs_body CHR ''&'' ps)"
  by (induction "CHR ''&''" ps arbitrary: first rule: tvs_body.induct) (simp_all add: tv_text_def)

text \<open>The URIs the builder writes without loss.\<close>

definition uri_tail :: "usipy_sip_uri \<Rightarrow> string" where
  "uri_tail u = uri_host u @ (if uri_port u \<noteq> 0 then '':'' @ dec (unat (uri_port u)) else []) @
     params_text (uri_parameters u) @ hdrs_text True (uri_headers u)"

definition uri_wf :: "usipy_sip_uri \<Rightarrow> bool" where
  "uri_wf u \<longleftrightarrow>
     CHR '':'' \<notin> set (uri_proto u) \<and>
     CHR ''@'' \<notin> set (uri_user u) \<and> CHR '':'' \<notin> set (uri_user u) \<and>
     CHR ''@'' \<notin> set (uri_password u) \<and>
     (uri_user u = [] \<longrightarrow> uri_password u = [] \<and> CHR ''@'' \<notin> set (uri_tail u)) \<and>
     (uri_host u \<noteq> [] \<or> uri_port u \<noteq> 0) \<and>
     set (uri_host u) \<inter> set '':;?'' = {} \<and>
     uri_port u \<le> 65535 \<and>
     tvs_ok CHR '';'' (uri_parameters u) \<and> CHR ''?'' \<notin> set (params_text (uri_parameters u)) \<and>
     tvs_ok CHR ''&'' (uri_headers u) \<and>
     (uri_parameters u = [] \<longrightarrow> CHR '';'' \<notin> set (hdrs_text True (uri_headers u)))"

lemma uri_userinfo_text:
  assumes "uri_wf u"
  shows "uri_userinfo ((if uri_user u \<noteq> [] then uri_user u @
        (if uri_password u \<noteq> [] then '':'' @ uri_password u else []) @ ''@'' else []) @ uri_tail u) =
    (uri_user u, uri_password u, uri_tail u)"
proof (cases "uri_user u = []")
  case True
  then show ?thesis using assms by (simp add: uri_userinfo_def uri_wf_def split_nlws_eq)
next
  case False
  let ?up = "uri_user u @ (if uri_password u \<noteq> [] then '':'' @ uri_password u else [])"
  have "CHR ''@'' \<notin> set ?up" using assms by (auto simp: uri_wf_def)
  then have "usipy_str_split (?up @ CHR ''@'' # uri_tail u) CHR ''@'' = Some (?up, uri_tail u)"
    by (rule split_append)
  moreover have "usipy_str_split ?up CHR '':'' =
      (if uri_password u \<noteq> [] then Some (uri_user u, uri_password u) else None)"
    using assms by (auto simp: uri_wf_def)
  ultimately show ?thesis using False by (simp add: uri_userinfo_def split_nlws_eq)
qed

lemma uri_spaces_text:
  assumes "uri_wf u"
  defines "hp \<equiv> uri_host u @ (if uri_port u \<noteq> 0 then '':'' @ dec (unat (uri_port u)) else [])"
  shows "uri_spaces (uri_tail u) =
    (hp, tvs_body CHR '';'' (uri_parameters u), tvs_body CHR ''&'' (uri_headers u))"
proof -
  have hp: "CHR '';'' \<notin> set hp" "CHR ''?'' \<notin> set hp"
    using assms(1) dec_free[of "CHR '';''"] dec_free[of "CHR ''?''"]
    by (auto simp: uri_wf_def hp_def is_digit_def)
  have tail: "uri_tail u = hp @ params_text (uri_parameters u) @ hdrs_text True (uri_headers u)"
    by (simp add: uri_tail_def hp_def)
  show ?thesis
  proof (cases "uri_parameters u = []")
    case True
    then have "CHR '';'' \<notin> set (uri_tail u)"
      using hp assms(1) by (simp add: tail uri_wf_def)
    then show ?thesis
      using True hp by (simp add: uri_spaces_def split_nlws_eq) (simp add: tail hdrs_text_body)
  next
    case False
    let ?pb = "tvs_body CHR '';'' (uri_parameters u)" and ?ht = "hdrs_text True (uri_headers u)"
    have "CHR ''?'' \<notin> set ?pb"
      using assms(1) False by (simp add: uri_wf_def params_text_body)
    then have "usipy_str_split (?pb @ ?ht) CHR ''?'' =
        (if uri_headers u = [] then None else Some (?pb, tvs_body CHR ''&'' (uri_headers u)))"
      by (simp add: hdrs_text_body)
    moreover have "usipy_str_split (uri_tail u) CHR '';'' = Some (hp, ?pb @ ?ht)"
      using hp False by (simp add: tail params_text_body)
    ultimately show ?thesis
      by (simp add: uri_spaces_def split_nlws_eq hdrs_text_body)
  qed
qed

lemma uri_hostport_text:
  assumes "uri_wf u"
  shows "uri_hostport (uri_host u @ (if uri_port u \<noteq> 0 then '':'' @ dec (unat (uri_port u)) else [])) =
    Some (uri_host u, uri_port u)"
proof -
  have h: "CHR '':'' \<notin> set (uri_host u)" using assms by (auto simp: uri_wf_def)
  show ?thesis
  proof (cases "uri_port u = 0")
    case False
    then have "1 \<le> uri_port u" by (simp add: word_gt_0 word_le_nat_alt unat_gt_0 Suc_le_eq)
    then have "usipy_str_atoui_range (dec (unat (uri_port u))) 1 65535 = Some (uri_port u)"
      using assms by (intro atoui_range_dec) (simp_all add: uri_wf_def)
    then show ?thesis using False h by (simp add: uri_hostport_def split_nlws_eq)
  qed (simp add: uri_hostport_def split_nlws_eq h)
qed

lemma uri_of_text:
  assumes "uri_wf u"
  shows "uri_of_string (uri_text u) = Some u"
proof -
  let ?ui = "if uri_user u \<noteq> [] then uri_user u @
        (if uri_password u \<noteq> [] then '':'' @ uri_password u else []) @ ''@'' else []"
  have tx: "uri_text u = uri_proto u @ CHR '':'' # (?ui @ uri_tail u)"
    by (simp add: uri_text_def uri_tail_def)
  have sp: "usipy_str_split (uri_text u) CHR '':'' = Some (uri_proto u, ?ui @ uri_tail u)"
    unfolding tx using assms by (intro split_append) (simp add: uri_wf_def)
  have ne: "uri_host u @ (if uri_port u \<noteq> 0 then '':'' @ dec (unat (uri_port u)) else []) \<noteq> []"
    using assms by (auto simp: uri_wf_def)
  have tv: "tvs_ok CHR '';'' (uri_parameters u)" "tvs_ok CHR ''&'' (uri_headers u)"
    using assms by (simp_all add: uri_wf_def)
  show ?thesis
    unfolding uri_of_string_def sp option.case prod.case Let_def
      uri_userinfo_text[OF assms] uri_spaces_text[OF assms] if_not_P[OF ne] uri_hostport_text[OF assms]
    using tv by (simp add: tvps_body)
qed

end
