(* ===== verification/Usipy_Via.thy ===== *)
theory Usipy_Via
  imports Usipy_Tvp
begin

text \<open>
  Component \<open>usipy_sip_hdr_via\<close> (\<open>src/usipy_sip_hdr_via.c\<close>, \<open>usipy_sip_hdr_via.h\<close>): the Via header.
  The local \<open>paramspace\<close> of the parser is not initialised when the value has no semicolon, and the
  loop reads it all the same; what the stack happens to hold there is the parameter \<open>stk\<close>.
\<close>

record usipy_sip_hdr_via =
  via_proto_name :: string
  via_proto_version :: string
  via_transport :: string
  via_host :: string
  via_port :: uint32
  via_params :: "usipy_tvpair list"

definition VH_SIZEOF :: "nat \<Rightarrow> size_t" where
  "VH_SIZEOF nparams = 80 + 32 * of_nat nparams"

text \<open>The sent-by part: host and port, \<open>None\<close> for a bad port.\<close>

definition via_sent_by :: "string \<Rightarrow> (string \<times> uint32) option" where
  "via_sent_by sent_by =
     (case usipy_str_split sent_by CHR '':'' of
        Some (host, sent_by_port) \<Rightarrow>
          (case usipy_str_atoui_range (usipy_str_ltrm_b sent_by_port) 1 65535 of
             None \<Rightarrow> None
           | Some port \<Rightarrow> Some (usipy_str_ltrm_e host, port))
      | None \<Rightarrow> Some (sent_by, 0))"

definition usipy_sip_hdr_via_parse ::
  "string \<Rightarrow> usipy_msg_heap \<Rightarrow> string \<Rightarrow> (usipy_sip_hdr_via option \<times> usipy_msg_heap) abortable" where
  "usipy_sip_hdr_via_parse stk mhp hvp =
     (case usipy_msg_heap_alloc_cnt mhp (VH_SIZEOF 0) of
        (None, mhp) \<Rightarrow> Some (None, mhp)
      | (Some (via, cnt), mhp) \<Rightarrow>
     (case usipy_str_split3 hvp CHR ''/'' of
        None \<Rightarrow> hdr_rollback mhp cnt
      | Some (name, version, s4) \<Rightarrow>
     (case usipy_str_splitlws (usipy_str_ltrm_b s4) of
        None \<Rightarrow> hdr_rollback mhp cnt
      | Some (transport, s4) \<Rightarrow>
          let name = usipy_str_ltrm_e name;
              version = usipy_str_ltrm_e (usipy_str_ltrm_b version);
              s4 = usipy_str_ltrm_b s4;
              (sent_by, paramspace) =
                (case usipy_str_split s4 CHR '';'' of
                   None \<Rightarrow> (s4, stk)
                 | Some (sent_by, paramspace) \<Rightarrow>
                     (usipy_str_ltrm_e sent_by, usipy_str_ltrm_b paramspace)) in
          if sent_by = [] then hdr_rollback mhp cnt
          else (case via_sent_by sent_by of
             None \<Rightarrow> hdr_rollback mhp cnt
           | Some (host, port) \<Rightarrow> do {
               (params, mhp, cnt) \<leftarrow> lws_tvp_loop VH_SIZEOF paramspace [] mhp cnt;
               case params of
                 None \<Rightarrow> hdr_rollback mhp cnt
               | Some params \<Rightarrow>
                   Some (Some \<lparr>via_proto_name = name, via_proto_version = version,
                     via_transport = transport, via_host = host, via_port = port,
                     via_params = params\<rparr>, mhp)
             }))))"

fun via_build_params :: "usipy_tvpair list \<Rightarrow> nat \<Rightarrow> string \<Rightarrow> string option" where
  "via_build_params [] len buf = Some buf"
| "via_build_params (p # ps) len buf = do {
     buf \<leftarrow> USIPY_APPEND_CH len CHR '';'' buf;
     buf \<leftarrow> USIPY_APPEND_STR len (tv_token p) buf;
     buf \<leftarrow> (if tv_value p = [] then Some buf
             else do {
               buf \<leftarrow> USIPY_APPEND_CH len CHR ''='' buf;
               USIPY_APPEND_STR len (tv_value p) buf
             });
     via_build_params ps len buf
   }"

definition usipy_sip_hdr_via_build :: "usipy_sip_hdr_via \<Rightarrow> nat \<Rightarrow> string option" where
  "usipy_sip_hdr_via_build vp len = do {
     buf \<leftarrow> USIPY_APPEND_STR len (via_proto_name vp) [];
     buf \<leftarrow> USIPY_APPEND_CH len CHR ''/'' buf;
     buf \<leftarrow> USIPY_APPEND_STR len (via_proto_version vp) buf;
     buf \<leftarrow> USIPY_APPEND_CH len CHR ''/'' buf;
     buf \<leftarrow> USIPY_APPEND_STR len (via_transport vp) buf;
     buf \<leftarrow> USIPY_APPEND_CH len SP buf;
     buf \<leftarrow> USIPY_APPEND_STR len (via_host vp) buf;
     buf \<leftarrow> (if via_port vp \<noteq> 0 then do {
               buf \<leftarrow> USIPY_APPEND_CH len CHR '':'' buf;
               snprintf_at (dec (unat (via_port vp))) len buf
             } else Some buf);
     via_build_params (via_params vp) len buf
   }"

subsection \<open>The parser and its specification\<close>

definition via_of_string :: "string \<Rightarrow> string \<Rightarrow> usipy_sip_hdr_via option" where
  "via_of_string stk hvp = do {
     (name, version, s4) \<leftarrow> usipy_str_split3 hvp CHR ''/'';
     (transport, s4) \<leftarrow> usipy_str_splitlws (usipy_str_ltrm_b s4);
     (let s4 = usipy_str_ltrm_b s4;
          (sent_by, ps) =
            (case usipy_str_split s4 CHR '';'' of
               None \<Rightarrow> (s4, stk)
             | Some (b, ps) \<Rightarrow> (usipy_str_ltrm_e b, usipy_str_ltrm_b ps)) in
      if sent_by = [] then None
      else map_option (\<lambda>(host, port).
        \<lparr>via_proto_name = usipy_str_ltrm_e name,
         via_proto_version = usipy_str_ltrm_e (usipy_str_ltrm_b version),
         via_transport = transport, via_host = host, via_port = port,
         via_params = lws_tvps ps\<rparr>) (via_sent_by sent_by))
   }"

definition via_size :: "usipy_sip_hdr_via \<Rightarrow> nat" where
  "via_size v = 80 + 32 * length (via_params v)"

lemma unat_VH_SIZEOF: "n < 2 ^ 58 \<Longrightarrow> unat (VH_SIZEOF n) = 80 + 32 * n"
  unfolding VH_SIZEOF_def by (rule unat_struct_size) simp_all

interpretation via_loop: counted_loop 80 0 VH_SIZEOF next_elem_lws split_tv_lws lws_tvps
  "lws_tvp_loop VH_SIZEOF"
  by (rule lws_loop_counted) (simp_all add: unat_VH_SIZEOF)

text \<open>
  The parser never aborts, keeps the heap well formed, and returns the header of the
  specification exactly when the heap has room for it.
\<close>

lemma via_parse_refines:
  assumes ok: "heap_ok mhp" and len: "length hvp < 2 ^ 56" "length stk < 2 ^ 56"
  shows "\<exists>mhp'. usipy_sip_hdr_via_parse stk mhp hvp =
      Some (Option.bind (via_of_string stk hvp)
        (\<lambda>v. if up8 (mark mhp) + via_size v \<le> hsize mhp then Some v else None), mhp') \<and>
    extends mhp mhp'"
  using hdr_alloc_cases[OF ok unat_VH_SIZEOF[of 0, simplified], simplified]
proof (elim disjE exE conjE)
  assume "usipy_msg_heap_alloc_cnt mhp (VH_SIZEOF 0) = (None, mhp)" "hsize mhp < up8 (mark mhp) + 80"
  then show ?thesis
    using extends_refl[OF ok]
    by (auto simp: usipy_sip_hdr_via_parse_def via_size_def bind_eq_None_conv split: option.splits)
next
  fix r cnt mhp1
  assume al: "usipy_msg_heap_alloc_cnt mhp (VH_SIZEOF 0) = (Some (r, cnt), mhp1)"
    and c: "cnt_ok mhp mhp1 cnt" "unat (cnt_alen cnt) = 80"
  obtain rb where rb: "hdr_rollback mhp1 cnt = Some (None :: usipy_sip_hdr_via option, rb)"
    "extends mhp rb"
    using hdr_rollback_spec[OF c(1)] by blast
  show ?thesis
  proof (cases "usipy_str_split3 hvp CHR ''/''")
    case None
    then show ?thesis using al rb by (simp add: usipy_sip_hdr_via_parse_def via_of_string_def)
  next
    case s3: (Some nvs)
    obtain name version s4 where nvs: "nvs = (name, version, s4)" by (metis prod_cases3)
    show ?thesis
    proof (cases "usipy_str_splitlws (usipy_str_ltrm_b s4)")
      case None
      then show ?thesis
        using al rb s3 nvs by (simp add: usipy_sip_hdr_via_parse_def via_of_string_def)
    next
      case lw: (Some ts)
      obtain transport s5 where ts: "ts = (transport, s5)" by (cases ts)
      define sb where "sb = (case usipy_str_split (usipy_str_ltrm_b s5) CHR '';'' of
          None \<Rightarrow> (usipy_str_ltrm_b s5, stk)
        | Some (b, ps) \<Rightarrow> (usipy_str_ltrm_e b, usipy_str_ltrm_b ps))"
      obtain sent_by ps where sbe: "sb = (sent_by, ps)" by (cases sb)
      have "length s5 \<le> length hvp"
        using splitlws_length[OF lw[unfolded ts]] ltrm_length(1)[of s4] s3 nvs
        by (auto simp: split3_Some_iff)
      then have small: "length ps < 2 ^ 57"
        using sbe len ltrm_length(1)[of s5]
        by (auto simp: sb_def split: option.splits prod.splits
            dest!: split_length intro!: le_less_trans[OF ltrm_length(1)])
      note parse = usipy_sip_hdr_via_parse_def via_of_string_def al s3 nvs lw ts
        sb_def[symmetric] sbe
      show ?thesis
      proof (cases "sent_by = [] \<or> via_sent_by sent_by = None")
        case True
        then show ?thesis using rb by (auto simp: parse Let_def)
      next
        case False
        then obtain host port where hp: "sent_by \<noteq> []" "via_sent_by sent_by = Some (host, port)"
          by auto
        note loop = finish_loop_spec[OF via_loop.counted_loop_axioms c small,
          of "\<lambda>params. \<lparr>via_proto_name = usipy_str_ltrm_e name,
             via_proto_version = usipy_str_ltrm_e (usipy_str_ltrm_b version),
             via_transport = transport, via_host = host, via_port = port, via_params = params\<rparr>",
          unfolded finish_loop_def]
        show ?thesis
          using loop hp by (simp add: parse Let_def via_size_def)
      qed
    qed
  qed
qed

subsection \<open>Round trip\<close>

definition via_text :: "usipy_sip_hdr_via \<Rightarrow> string" where
  "via_text v = via_proto_name v @ ''/'' @ via_proto_version v @ ''/'' @ via_transport v @ [SP] @
     via_host v @ (if via_port v \<noteq> 0 then '':'' @ dec (unat (via_port v)) else []) @
     params_text (via_params v)"

lemma via_build_params_eq:
  "via_build_params ps len buf =
     (if ps = [] \<or> length buf + length (params_text ps) \<le> len
      then Some (buf @ params_text ps) else None)"
  by (induction ps arbitrary: buf) (simp_all add: USIPY_APPEND_CH_def USIPY_APPEND_STR_def)

lemma via_build_sound: "usipy_sip_hdr_via_build v len = Some b \<Longrightarrow> b = via_text v \<and> length b \<le> len"
  unfolding usipy_sip_hdr_via_build_def via_text_def
  by (auto simp: bind_eq_Some_conv via_build_params_eq build_simps split: if_splits)

lemma via_build_complete:
  "length (via_text v) < len \<Longrightarrow> usipy_sip_hdr_via_build v len = Some (via_text v)"
  unfolding usipy_sip_hdr_via_build_def via_text_def
  by (cases "via_port v = 0")
     (simp_all add: bind_eq_Some_conv via_build_params_eq build_simps)

text \<open>The headers the builder writes without loss.\<close>

definition via_wf :: "usipy_sip_hdr_via \<Rightarrow> bool" where
  "via_wf v \<longleftrightarrow>
     CHR ''/'' \<notin> set (via_proto_name v) \<and> trimmed (via_proto_name v) \<and>
     CHR ''/'' \<notin> set (via_proto_version v) \<and> trimmed (via_proto_version v) \<and>
     via_transport v \<noteq> [] \<and> (\<forall>c\<in>set (via_transport v). \<not> USIPY_ISLWS c) \<and>
     (via_host v \<noteq> [] \<or> via_port v \<noteq> 0) \<and> trimmed (via_host v) \<and>
     CHR '':'' \<notin> set (via_host v) \<and> CHR '';'' \<notin> set (via_host v) \<and> via_port v \<le> 65535 \<and>
     tvs_ok CHR '';'' (via_params v) \<and> (\<forall>p\<in>set (via_params v). tv_trimmed p)"

lemma digit_not_lws: "is_digit c \<Longrightarrow> \<not> USIPY_ISLWS c"
  by (auto simp: is_digit_def USIPY_ISLWS_def USIPY_ISWS_def)

lemma trimmed_dec: "trimmed (dec n)"
  using dec_digits[of n] dec_nonempty[of n]
  by (simp add: trimmed_def digit_not_lws)

definition hostport_text :: "string \<Rightarrow> uint32 \<Rightarrow> string" where
  "hostport_text h p = h @ (if p \<noteq> 0 then '':'' @ dec (unat p) else [])"

lemma trimmed_hostport: "trimmed h \<Longrightarrow> trimmed (hostport_text h p)"
  using trimmed_dec[of "unat p"] dec_nonempty[of "unat p"]
  by (auto simp: trimmed_def hostport_text_def hd_append)

lemma via_sent_by_text:
  assumes "CHR '':'' \<notin> set h" "trimmed h" "p \<le> 65535"
  shows "via_sent_by (hostport_text h p) = Some (h, p)"
proof (cases "p = 0")
  case False
  then have "1 \<le> p" by (simp add: word_gt_0 word_le_nat_alt unat_gt_0 Suc_le_eq)
  then have "usipy_str_atoui_range (dec (unat p)) 1 65535 = Some p"
    using assms by (intro atoui_range_dec)
  then show ?thesis
    using False assms by (simp add: via_sent_by_def hostport_text_def trimmed_dec)
qed (simp add: via_sent_by_def hostport_text_def assms)

lemma via_of_text:
  assumes wf: "via_wf v" and stk: "via_params v \<noteq> [] \<or> stk = []"
  shows "via_of_string stk (via_text v) = Some v"
proof -
  let ?hp = "hostport_text (via_host v) (via_port v)"
  let ?r = "?hp @ params_text (via_params v)"
  let ?t = "via_transport v @ SP # ?r"
  have tx: "via_text v = via_proto_name v @ CHR ''/'' # via_proto_version v @ CHR ''/'' # ?t"
    by (simp add: via_text_def hostport_text_def)
  have s3: "usipy_str_split3 (via_text v) CHR ''/'' = Some (via_proto_name v, via_proto_version v, ?t)"
    using wf by (simp add: tx split3_Some_iff via_wf_def)
  have tr: "trimmed (via_host v)" "trimmed ?hp" using wf by (simp_all add: via_wf_def trimmed_hostport)
  have "usipy_str_ltrm_b ?t = ?t"
    using wf by (intro ltrm_b_id) (auto simp: via_wf_def hd_append neq_Nil_conv)
  moreover have ne: "?hp \<noteq> []" using wf by (auto simp: via_wf_def hostport_text_def)
  then have r: "usipy_str_ltrm_b ?r = ?r"
    using tr(2) by (intro ltrm_b_id) (auto simp: trimmed_def hd_append)
  ultimately have lw: "usipy_str_splitlws (usipy_str_ltrm_b ?t) = Some (via_transport v, ?r)"
    using wf by (simp add: splitlws_append via_wf_def USIPY_ISLWS_def USIPY_ISWS_def)
  have hp: "CHR '';'' \<notin> set ?hp"
    using wf dec_free[of "CHR '';''"] by (auto simp: via_wf_def hostport_text_def is_digit_def)
  define sb where "sb = (case usipy_str_split ?r CHR '';'' of
      None \<Rightarrow> (?r, stk) | Some (b, ps) \<Rightarrow> (usipy_str_ltrm_e b, usipy_str_ltrm_b ps))"
  have b: "usipy_str_ltrm_b (tvs_body CHR '';'' (via_params v)) = tvs_body CHR '';'' (via_params v)"
    using wf by (intro ltrm_b_body) (simp add: via_wf_def)
  have sb: "sb = (?hp, tvs_body CHR '';'' (via_params v))"
    using hp tr(2) stk by (cases "via_params v = []") (simp_all add: sb_def params_text_body b)
  have ps: "lws_tvps (tvs_body CHR '';'' (via_params v)) = via_params v"
    using wf by (intro lws_tvps_body) (simp_all add: via_wf_def)
  have sby: "via_sent_by ?hp = Some (via_host v, via_port v)"
    using wf by (intro via_sent_by_text) (simp_all add: via_wf_def)
  have "via_of_string stk (via_text v) =
      (let (sent_by, ps) = sb in
       if sent_by = [] then None
       else map_option (\<lambda>(host, port).
        \<lparr>via_proto_name = usipy_str_ltrm_e (via_proto_name v),
         via_proto_version = usipy_str_ltrm_e (usipy_str_ltrm_b (via_proto_version v)),
         via_transport = via_transport v, via_host = host, via_port = port,
         via_params = lws_tvps ps\<rparr>) (via_sent_by sent_by))"
    unfolding via_of_string_def s3 lw bind.simps prod.case Let_def r sb_def ..
  also have "\<dots> = Some v"
    using wf ne by (simp add: sb sby ps via_wf_def)
  finally show ?thesis .
qed

end
