(* ===== verification/Usipy_Nameaddr.thy ===== *)
theory Usipy_Nameaddr
  imports Usipy_Tvp
begin

text \<open>
  Component \<open>usipy_sip_hdr_nameaddr\<close> (\<open>src/usipy_sip_hdr_nameaddr.c\<close>, \<open>usipy_sip_hdr_nameaddr.h\<close>):
  the From, To, Contact, Route and Record-Route headers. The parser takes the bare form (no
  brackets, everything after a semicolon is a parameter) and the bracketed one; the builder always
  writes the bracketed one.
\<close>

record usipy_sip_hdr_nameaddr =
  na_display_name :: string
  na_addr_spec :: string
  na_params :: "usipy_tvpair list"

definition NA_SIZEOF :: "nat \<Rightarrow> size_t" where
  "NA_SIZEOF nparams = 40 + 32 * of_nat nparams"

text \<open>
  Display name, address and parameter text of a value; \<open>None\<close> for a missing closing bracket and
  for junk after it.
\<close>

definition na_cut :: "string \<Rightarrow> (string \<times> string \<times> string) option" where
  "na_cut iup =
     (case usipy_str_split_elem iup CHR ''<'' of
        None \<Rightarrow>
          (case usipy_str_split_elem iup CHR '';'' of
             Some (addr_spec, iup) \<Rightarrow> Some ([], addr_spec, iup)
           | None \<Rightarrow> Some ([], iup, []))
      | Some (display_name, iup) \<Rightarrow>
          (case usipy_str_split_elem iup CHR ''>'' of
             None \<Rightarrow> None
           | Some (addr_spec, iup) \<Rightarrow>
               if length iup > 0 then
                 if length iup = 1 \<or> iup ! 0 \<noteq> CHR '';'' then None
                 else Some (display_name, addr_spec, drop 1 iup)
               else Some (display_name, addr_spec, [])))"

definition usipy_sip_hdr_nameaddr_parse ::
  "usipy_msg_heap \<Rightarrow> string \<Rightarrow> (usipy_sip_hdr_nameaddr option \<times> usipy_msg_heap) abortable" where
  "usipy_sip_hdr_nameaddr_parse mhp hvp =
     (case usipy_msg_heap_alloc_cnt mhp (NA_SIZEOF 0) of
        (None, mhp) \<Rightarrow> Some (None, mhp)
      | (Some (nap, cnt), mhp) \<Rightarrow>
          (case na_cut hvp of
             None \<Rightarrow> hdr_rollback mhp cnt
           | Some (display_name, addr_spec, paramspace) \<Rightarrow> do {
               (params, mhp, cnt) \<leftarrow> lws_tvp_loop NA_SIZEOF paramspace [] mhp cnt;
               case params of
                 None \<Rightarrow> hdr_rollback mhp cnt
               | Some params \<Rightarrow>
                   Some (Some \<lparr>na_display_name = display_name, na_addr_spec = addr_spec,
                     na_params = params\<rparr>, mhp)
             }))"

fun na_build_params :: "usipy_tvpair list \<Rightarrow> nat \<Rightarrow> string \<Rightarrow> string option" where
  "na_build_params [] len buf = Some buf"
| "na_build_params (p # ps) len buf = do {
     buf \<leftarrow> usipy_strbuf_append_pair '';'' (tv_token p) len buf;
     buf \<leftarrow> (if tv_value p = [] then Some buf
             else usipy_strbuf_append_pair ''='' (tv_value p) len buf);
     na_build_params ps len buf
   }"

definition usipy_sip_hdr_nameaddr_build :: "usipy_sip_hdr_nameaddr \<Rightarrow> nat \<Rightarrow> string option" where
  "usipy_sip_hdr_nameaddr_build nap len = do {
     buf \<leftarrow> (if na_display_name nap \<noteq> []
             then usipy_strbuf_append_pair (na_display_name nap) '' '' len [] else Some []);
     buf \<leftarrow> usipy_strbuf_append_pair ''<'' (na_addr_spec nap) len buf;
     buf \<leftarrow> (if length buf + 1 > len then None else Some (buf @ ''>''));
     na_build_params (na_params nap) len buf
   }"

fun na_get_param :: "usipy_tvpair list \<Rightarrow> string \<Rightarrow> string option" where
  "na_get_param [] name = None"
| "na_get_param (pp # ps) name =
     (if length (tv_token pp) \<noteq> length name \<or> tv_token pp \<noteq> name then na_get_param ps name
      else Some (tv_value pp))"

definition usipy_sip_hdr_nameaddr_get_param :: "usipy_sip_hdr_nameaddr \<Rightarrow> string \<Rightarrow> string option" where
  "usipy_sip_hdr_nameaddr_get_param nap name = na_get_param (na_params nap) name"

subsection \<open>The parser and its specification\<close>

definition nameaddr_of_string :: "string \<Rightarrow> usipy_sip_hdr_nameaddr option" where
  "nameaddr_of_string hvp =
     map_option (\<lambda>(display_name, addr_spec, ps).
       \<lparr>na_display_name = display_name, na_addr_spec = addr_spec, na_params = lws_tvps ps\<rparr>)
       (na_cut hvp)"

definition na_size :: "usipy_sip_hdr_nameaddr \<Rightarrow> nat" where
  "na_size n = 40 + 32 * length (na_params n)"

lemma unat_NA_SIZEOF: "n < 2 ^ 58 \<Longrightarrow> unat (NA_SIZEOF n) = 40 + 32 * n"
  unfolding NA_SIZEOF_def by (rule unat_struct_size) simp_all

interpretation na_loop: counted_loop 40 0 NA_SIZEOF next_elem_lws split_tv_lws lws_tvps
  "lws_tvp_loop NA_SIZEOF"
  by (rule lws_loop_counted) (simp_all add: unat_NA_SIZEOF)

lemma split_elem_lengths:
  "usipy_str_split_elem x d = Some (y, z) \<Longrightarrow> length y \<le> length x \<and> length z \<le> length x"
  using split_elem_length[of x d y z] by linarith

lemma na_cut_length: "na_cut hvp = Some (dn, sp, ps) \<Longrightarrow> length ps \<le> length hvp"
  by (auto simp: na_cut_def split: option.splits prod.splits if_splits
      dest!: split_elem_lengths)

text \<open>
  The parser never aborts, keeps the heap well formed, and returns the header of the
  specification exactly when the heap has room for it.
\<close>

lemma nameaddr_parse_refines:
  assumes ok: "heap_ok mhp" and len: "length hvp < 2 ^ 56"
  shows "\<exists>mhp'. usipy_sip_hdr_nameaddr_parse mhp hvp =
      Some (Option.bind (nameaddr_of_string hvp)
        (\<lambda>n. if up8 (mark mhp) + na_size n \<le> hsize mhp then Some n else None), mhp') \<and>
    extends mhp mhp'"
  using hdr_alloc_cases[OF ok unat_NA_SIZEOF[of 0, simplified], simplified]
proof (elim disjE exE conjE)
  assume "usipy_msg_heap_alloc_cnt mhp (NA_SIZEOF 0) = (None, mhp)" "hsize mhp < up8 (mark mhp) + 40"
  then show ?thesis
    using extends_refl[OF ok]
    by (auto simp: usipy_sip_hdr_nameaddr_parse_def na_size_def bind_eq_None_conv split: option.splits)
next
  fix r cnt mhp1
  assume al: "usipy_msg_heap_alloc_cnt mhp (NA_SIZEOF 0) = (Some (r, cnt), mhp1)"
    and c: "cnt_ok mhp mhp1 cnt" "unat (cnt_alen cnt) = 40"
  obtain rb where rb: "hdr_rollback mhp1 cnt = Some (None :: usipy_sip_hdr_nameaddr option, rb)"
    "extends mhp rb"
    using hdr_rollback_spec[OF c(1)] by blast
  show ?thesis
  proof (cases "na_cut hvp")
    case None
    then show ?thesis using al rb by (simp add: usipy_sip_hdr_nameaddr_parse_def nameaddr_of_string_def)
  next
    case (Some t)
    obtain dn sp ps where t: "t = (dn, sp, ps)" by (metis prod_cases3)
    have small: "length ps < 2 ^ 57" using na_cut_length[OF Some[unfolded t]] len by simp
    note loop = finish_loop_spec[OF na_loop.counted_loop_axioms c small,
      of "\<lambda>params. \<lparr>na_display_name = dn, na_addr_spec = sp, na_params = params\<rparr>",
      unfolded finish_loop_def]
    show ?thesis
      using loop al Some t
      by (simp add: usipy_sip_hdr_nameaddr_parse_def nameaddr_of_string_def na_size_def)
  qed
qed

subsection \<open>Round trip\<close>

definition nameaddr_text :: "usipy_sip_hdr_nameaddr \<Rightarrow> string" where
  "nameaddr_text n =
     (if na_display_name n \<noteq> [] then na_display_name n @ '' '' else []) @
     ''<'' @ na_addr_spec n @ ''>'' @ params_text (na_params n)"

lemma na_build_params_eq:
  "na_build_params ps len buf =
     (if ps = [] \<or> length buf + length (params_text ps) \<le> len
      then Some (buf @ params_text ps) else None)"
  by (induction ps arbitrary: buf) (simp_all add: strbuf_append_pair_eq)

lemma nameaddr_build_eq:
  "usipy_sip_hdr_nameaddr_build n len =
     (if length (nameaddr_text n) \<le> len then Some (nameaddr_text n) else None)"
  by (cases "na_display_name n = []"; cases "na_params n = []")
     (auto simp: usipy_sip_hdr_nameaddr_build_def nameaddr_text_def na_build_params_eq
       strbuf_append_pair_eq)

definition nameaddr_wf :: "usipy_sip_hdr_nameaddr \<Rightarrow> bool" where
  "nameaddr_wf n \<longleftrightarrow>
     CHR ''<'' \<notin> set (na_display_name n) \<and>
     (na_display_name n = [] \<or> \<not> USIPY_ISLWS (last (na_display_name n))) \<and>
     CHR ''>'' \<notin> set (na_addr_spec n) \<and> trimmed (na_addr_spec n) \<and>
     tvs_ok CHR '';'' (na_params n) \<and> (\<forall>p\<in>set (na_params n). tv_trimmed p)"

lemma nameaddr_of_text:
  assumes wf: "nameaddr_wf n"
  shows "nameaddr_of_string (nameaddr_text n) = Some n"
proof -
  let ?b = "tvs_body CHR '';'' (na_params n)"
  let ?dn = "if na_display_name n \<noteq> [] then na_display_name n @ '' '' else []"
  let ?tail = "na_addr_spec n @ CHR ''>'' # params_text (na_params n)"
  have tx: "nameaddr_text n = ?dn @ CHR ''<'' # ?tail" by (simp add: nameaddr_text_def)
  have dn: "usipy_str_ltrm_e ?dn = na_display_name n"
    using wf ltrm_e_id[of "na_display_name n"]
    by (auto simp: nameaddr_wf_def USIPY_ISLWS_def USIPY_ISWS_def)
  have tl: "usipy_str_ltrm_b ?tail = ?tail"
    using wf by (intro ltrm_b_id) (auto simp: nameaddr_wf_def trimmed_def hd_append)
  have s1: "usipy_str_split_elem (nameaddr_text n) CHR ''<'' = Some (na_display_name n, ?tail)"
    using wf by (simp add: tx split_elem_eq dn tl nameaddr_wf_def)
  have pt: "usipy_str_ltrm_b (params_text (na_params n)) = params_text (na_params n)"
    by (simp add: params_text_body)
  have s2: "usipy_str_split_elem ?tail CHR ''>'' = Some (na_addr_spec n, params_text (na_params n))"
    using wf by (simp add: split_elem_eq nameaddr_wf_def pt)
  have nb: "na_params n \<noteq> [] \<Longrightarrow> ?b \<noteq> []"
    using wf by (simp add: nameaddr_wf_def tvs_body_Nil)
  have "na_cut (nameaddr_text n) = Some (na_display_name n, na_addr_spec n, ?b)"
    unfolding na_cut_def s1 option.case prod.case s2
    using nb by (cases "na_params n = []") (simp_all add: params_text_body Suc_le_eq)
  moreover have "lws_tvps ?b = na_params n"
    using wf by (intro lws_tvps_body) (simp_all add: nameaddr_wf_def)
  ultimately show ?thesis by (simp add: nameaddr_of_string_def)
qed

lemma get_param_find:
  "usipy_sip_hdr_nameaddr_get_param n name =
     map_option tv_value (find (\<lambda>p. tv_token p = name) (na_params n))"
proof -
  have "na_get_param ps name = map_option tv_value (find (\<lambda>p. tv_token p = name) ps)" for ps
    by (induction ps) auto
  then show ?thesis by (simp add: usipy_sip_hdr_nameaddr_get_param_def)
qed

end
