(* ===== verification/Usipy_Turbo.thy ===== *)
theory Usipy_Turbo
  imports Usipy_Str
begin

unbundle bit_operations_syntax

text \<open>
  Component \<open>bits/turbocompare.h\<close>: case-insensitive comparison of byte strings a machine word at a
  time, and \<open>usipy_misc.c\<close>, which checks the SIP version token. The word operations are those of
  the macros, at any word length; the proofs cut a word into its bytes and show that no
  carry or borrow crosses a byte, so the trick folds case exactly.
\<close>

subsection \<open>Bytes of a word\<close>

fun le_val :: "nat list \<Rightarrow> nat" where
  "le_val [] = 0"
| "le_val (b # bs) = b + 256 * le_val bs"

text \<open>\<open>memcpy(&wrd, wp, sizeof(wrd))\<close> on a little-endian machine.\<close>

definition load_le :: "nat \<Rightarrow> string \<Rightarrow> 'a::len word" where
  "load_le k s = of_nat (le_val (map of_char (take k s)))"

subsection \<open>The macros\<close>

definition markbetween :: "'a::len word \<Rightarrow> 'a word \<Rightarrow> 'a word \<Rightarrow> 'a word" where
  "markbetween x m n =
     (let cFF = NOT 0; c01 = cFF div 255 in
      (((c01 * (127 + n) - (x AND c01 * 127)) AND NOT x AND ((x AND c01 * 127) + c01 * (127 - m)))
        AND c01 * 128))"

definition TURBO_LCMASK :: "'a::len word \<Rightarrow> 'a word" where
  "TURBO_LCMASK x = drop_bit 2 (markbetween x (65 - 1) (90 + 1))"

definition turbo_tolower :: "'a::len word \<Rightarrow> 'a word" where
  "turbo_tolower wrd = wrd OR TURBO_LCMASK wrd"

definition turbo_tolower_long :: "string \<Rightarrow> 64 word" where
  "turbo_tolower_long wp = turbo_tolower (load_le 8 wp)"

definition turbo_tolower_int :: "string \<Rightarrow> 32 word" where
  "turbo_tolower_int wp = turbo_tolower (load_le 4 wp)"

definition turbo_tolower_short :: "string \<Rightarrow> 16 word" where
  "turbo_tolower_short wp = turbo_tolower (load_le 2 wp)"

definition turbo_tolower_char :: "string \<Rightarrow> 8 word" where
  "turbo_tolower_char wp = turbo_tolower (load_le 1 wp)"

text \<open>
  \<open>FASTCASEBCMP_LOOP\<close> for a type of \<open>sz\<close> bytes: \<open>Inl r\<close> is \<open>return r\<close> (true for a mismatch),
  \<open>Inr (p, len)\<close> falls through with the pointers advanced to offset \<open>p\<close>. Both pointers always
  stand at the same offset. \<open>sz\<close> is a \<open>sizeof\<close>, so it is positive.
\<close>

function fastcasebcmp_loop ::
  "nat \<Rightarrow> (string \<Rightarrow> 'w) \<Rightarrow> string \<Rightarrow> string \<Rightarrow> nat \<Rightarrow> nat \<Rightarrow> bool + nat \<times> nat" where
  "fastcasebcmp_loop sz tolower s1 s2 p len =
     (if 0 < sz \<and> sz \<le> len then
        if tolower (drop p s1) \<noteq> tolower (drop p s2) then Inl True
        else if len - sz = 0 then Inl False
        else if len - sz < sz
          then fastcasebcmp_loop sz tolower s1 s2 (p + sz - (sz - (len - sz))) sz
          else fastcasebcmp_loop sz tolower s1 s2 (p + sz) (len - sz)
      else Inr (p, len))"
  by auto
termination by (relation "measure (\<lambda>(sz, _, _, _, _, len). len)") auto

declare fastcasebcmp_loop.simps [simp del]

text \<open>True is the non-zero result: a mismatch.\<close>

definition turbo_casebcmp :: "string \<Rightarrow> string \<Rightarrow> nat \<Rightarrow> bool" where
  "turbo_casebcmp s1 s2 len =
     (case fastcasebcmp_loop 8 turbo_tolower_long s1 s2 0 len of
        Inl r \<Rightarrow> r
      | Inr (p, len) \<Rightarrow>
     (case fastcasebcmp_loop 4 turbo_tolower_int s1 s2 p len of
        Inl r \<Rightarrow> r
      | Inr (p, len) \<Rightarrow>
     (case fastcasebcmp_loop 2 turbo_tolower_short s1 s2 p len of
        Inl r \<Rightarrow> r
      | Inr (p, len) \<Rightarrow>
     (case fastcasebcmp_loop 1 turbo_tolower_char s1 s2 p len of
        Inl r \<Rightarrow> r
      | Inr (p, len) \<Rightarrow> False))))"

text \<open>\<open>TURBO_STREQ\<close>, with the macro's \<open>>=\<close>: a prefix test that ignores case.\<close>

definition TURBO_STREQ :: "string \<Rightarrow> string \<Rightarrow> bool" where
  "TURBO_STREQ sarg S \<longleftrightarrow> length sarg \<ge> length S \<and> \<not> turbo_casebcmp sarg S (length S)"

text \<open>\<open>usipy_verify_sip_version\<close>. \<open>CHLOWER\<close> is applied to the reference character.\<close>

definition usipy_sip_version :: string where
  "usipy_sip_version = ''SIP/2.0''"

definition CHLOWER :: "char \<Rightarrow> char" where
  "CHLOWER ch = char_of ((of_char ch :: nat) OR 32)"

definition CHCASECMP :: "char \<Rightarrow> char \<Rightarrow> bool" where
  "CHCASECMP ch1 ch2 \<longleftrightarrow> ch1 = ch2 \<or> ch1 = CHLOWER ch2"

definition usipy_verify_sip_version :: "string \<Rightarrow> bool" where
  "usipy_verify_sip_version vp \<longleftrightarrow>
     length vp = 7 \<and>
     CHCASECMP (vp ! 0) (usipy_sip_version ! 0) \<and>
     CHCASECMP (vp ! 1) (usipy_sip_version ! 1) \<and>
     CHCASECMP (vp ! 2) (usipy_sip_version ! 2) \<and>
     vp ! 3 = usipy_sip_version ! 3 \<and> vp ! 4 = usipy_sip_version ! 4 \<and>
     vp ! 5 = usipy_sip_version ! 5 \<and> vp ! 6 = usipy_sip_version ! 6"

subsection \<open>Bytewise arithmetic\<close>

abbreviation bytes_ok :: "nat list \<Rightarrow> bool" where
  "bytes_ok bs \<equiv> \<forall>b\<in>set bs. b < 256"

lemma le_val_less: "bytes_ok bs \<Longrightarrow> le_val bs < 256 ^ length bs"
proof (induction bs)
  case (Cons b bs)
  then have "le_val bs + 1 \<le> 256 ^ length bs" "b < 256" by auto
  then show ?case by (simp add: algebra_simps)
qed simp

lemma bit_byte_cons:
  fixes b x :: nat
  assumes "b < 256"
  shows "bit (b + 256 * x) n \<longleftrightarrow> (if n < 8 then bit b n else bit x (n - 8))"
proof (cases "n < 8")
  case True
  then have "(256 :: nat) = 2 ^ n * (2 * 2 ^ (7 - n))"
    by (simp flip: power_add power_Suc)
  then have "b + 256 * x = b + (2 * (2 ^ (7 - n) * x)) * 2 ^ n"
    by (simp only: mult_ac)
  then have "(b + 256 * x) div 2 ^ n = 2 * (2 ^ (7 - n) * x) + b div 2 ^ n"
    by (simp only: div_mult_self1[OF power_not_zero[OF zero_neq_numeral[symmetric]]])
  then show ?thesis using True by (simp add: bit_iff_odd)
next
  case False
  then have "(2 :: nat) ^ n = 256 * 2 ^ (n - 8)"
    using power_add[of "2 :: nat" 8 "n - 8"] by simp
  then have "(b + 256 * x) div 2 ^ n = (b + 256 * x) div 256 div 2 ^ (n - 8)"
    by (simp add: div_mult2_eq)
  also have "(b + 256 * x) div 256 = x" using assms by simp
  finally show ?thesis using False by (simp add: bit_iff_odd)
qed

lemma byte_bound_iff: "b < (256 :: nat) \<longleftrightarrow> take_bit 8 b = b"
  by (simp add: take_bit_nat_eq_self_iff)

lemma and_byte: "b < (256 :: nat) \<Longrightarrow> b AND c < 256"
  unfolding byte_bound_iff take_bit_eq_mask by (metis and.assoc and.commute)

lemma or_byte: "b < (256 :: nat) \<Longrightarrow> c < 256 \<Longrightarrow> b OR c < 256"
  by (simp add: byte_bound_iff)

lemma and_byte_cons:
  fixes b c x y :: nat
  assumes "b < 256" "c < 256"
  shows "(b + 256 * x) AND (c + 256 * y) = (b AND c) + 256 * (x AND y)"
  using assms by (intro bit_eqI) (simp add: bit_byte_cons and_byte bit_and_iff)

lemma or_byte_cons:
  fixes b c x y :: nat
  assumes "b < 256" "c < 256"
  shows "(b + 256 * x) OR (c + 256 * y) = (b OR c) + 256 * (x OR y)"
  using assms by (intro bit_eqI) (simp add: bit_byte_cons or_byte bit_or_iff)

text \<open>Lists of bytes under the word operations, place by place.\<close>

lemma le_val_and:
  "length as = length bs \<Longrightarrow> bytes_ok as \<Longrightarrow> bytes_ok bs \<Longrightarrow>
     le_val as AND le_val bs = le_val (map2 (AND) as bs)"
  by (induction as bs rule: list_induct2) (simp_all add: and_byte_cons)

lemma le_val_or:
  "length as = length bs \<Longrightarrow> bytes_ok as \<Longrightarrow> bytes_ok bs \<Longrightarrow>
     le_val as OR le_val bs = le_val (map2 (OR) as bs)"
  by (induction as bs rule: list_induct2) (simp_all add: or_byte_cons)

lemma le_val_map_and:
  "(\<forall>x\<in>set xs. f x < 256 \<and> g x < 256) \<Longrightarrow>
     le_val (map f xs) AND le_val (map g xs) = le_val (map (\<lambda>x. f x AND g x) xs)"
  by (induction xs) (simp_all add: and_byte_cons)

lemma le_val_map_or:
  "(\<forall>x\<in>set xs. f x < 256 \<and> g x < 256) \<Longrightarrow>
     le_val (map f xs) OR le_val (map g xs) = le_val (map (\<lambda>x. f x OR g x) xs)"
  by (induction xs) (simp_all add: or_byte_cons)

lemma le_val_map_add:
  "le_val (map f xs) + le_val (map g xs) = le_val (map (\<lambda>x. f x + g x) xs)"
  by (induction xs) simp_all

lemma le_val_map_sub:
  "\<forall>x\<in>set xs. g x \<le> f x \<Longrightarrow>
     le_val (map g xs) \<le> le_val (map f xs) \<and>
     le_val (map f xs) - le_val (map g xs) = le_val (map (\<lambda>x. f x - g x) xs)"
  by (induction xs) (auto simp: diff_mult_distrib2 add_mono)

lemma le_val_map_mult: "c * le_val (map f xs) = le_val (map (\<lambda>x. c * f x) xs)"
  by (induction xs) (simp_all add: algebra_simps)

lemma le_val_map_quarter:
  "\<forall>x\<in>set xs. 4 dvd f x \<Longrightarrow> le_val (map f xs) = 4 * le_val (map (\<lambda>x. f x div 4) xs)"
  by (induction xs) auto

lemma le_val_ones: "255 * le_val (map (\<lambda>_. 1) xs) + 1 = 256 ^ length xs"
  by (induction xs) simp_all

lemma le_val_inj:
  "length as = length bs \<Longrightarrow> bytes_ok as \<Longrightarrow> bytes_ok bs \<Longrightarrow> le_val as = le_val bs \<Longrightarrow> as = bs"
proof (induction as bs rule: list_induct2)
  case (Cons a as b bs)
  from Cons.prems have "a < 256" "b < 256" "a + 256 * le_val as = b + 256 * le_val bs" by auto
  then have "a = b \<and> le_val as = le_val bs"
    by (metis add_left_cancel mod_less mod_mult_self2 mult_cancel1 zero_neq_numeral)
  with Cons show ?case by auto
qed simp

subsection \<open>The mask folds case exactly\<close>

definition lcmask_byte :: "nat \<Rightarrow> nat" where
  "lcmask_byte b = (((218 - (b AND 127)) AND (255 - b) AND ((b AND 127) + 63)) AND 128)"

lemma and_128: "(x :: nat) AND 128 = (if bit x 7 then 128 else 0)"
  by (rule bit_eqI) (auto simp: bit_and_iff bit_exp_iff[of 7, simplified])

lemma bit_7_iff:
  assumes "x < 256"
  shows "bit (x :: nat) 7 \<longleftrightarrow> 128 \<le> x"
proof (cases "128 \<le> x")
  case True
  with assms have "x div 128 = 1" by (intro div_nat_eqI) simp_all
  then show ?thesis using True by (simp add: bit_iff_odd)
qed (simp add: bit_iff_odd)

lemma and_127: "(x :: nat) AND 127 = x mod 128"
  using take_bit_eq_mask[of 7 x] by (simp add: take_bit_eq_mod mask_eq_exp_minus_1)

lemma lcmask_byte:
  assumes "b < 256"
  shows "lcmask_byte b = (if 65 \<le> b \<and> b \<le> 90 then 128 else 0)"
proof -
  have m: "b mod 128 < 128" by simp
  have "bit ((218 - b mod 128) AND (255 - b) AND (b mod 128 + 63)) 7 \<longleftrightarrow>
      128 \<le> 218 - b mod 128 \<and> 128 \<le> 255 - b \<and> 128 \<le> b mod 128 + 63"
    using m by (simp add: bit_and_iff bit_7_iff)
  also have "\<dots> \<longleftrightarrow> 65 \<le> b \<and> b \<le> 90"
    using assms by (cases "b < 128") auto
  finally show ?thesis
    by (simp add: lcmask_byte_def and_127 and_128)
qed

lemma or_32_upper:
  assumes "65 \<le> b" "b \<le> 90"
  shows "(b :: nat) OR 32 = b + 32"
proof -
  have "b div 32 = 2" using assms by (intro div_nat_eqI) simp_all
  then have "\<not> bit b 5" by (simp add: bit_iff_odd)
  then have "b AND 32 = 0"
    by (intro bit_eqI) (auto simp: bit_and_iff bit_exp_iff[of 5, simplified])
  then show ?thesis by (simp add: disjunctive_add_eq_or)
qed

lemma or_lcmask_byte: "b < 256 \<Longrightarrow> b OR (lcmask_byte b div 4) = byte_lower b"
  by (simp add: lcmask_byte byte_lower_def or_32_upper)

subsection \<open>From bytes to words\<close>

text \<open>The word whose bytes are \<open>f\<close> of the bytes of \<open>bs\<close>.\<close>

definition bw :: "(nat \<Rightarrow> nat) \<Rightarrow> nat list \<Rightarrow> 'a::len word" where
  "bw f bs = of_nat (le_val (map f bs))"

lemma bw_and:
  "\<forall>b\<in>set bs. f b < 256 \<and> g b < 256 \<Longrightarrow> bw f bs AND bw g bs = bw (\<lambda>b. f b AND g b) bs"
  by (simp add: bw_def of_nat_and_eq flip: le_val_map_and)

lemma bw_or:
  "\<forall>b\<in>set bs. f b < 256 \<and> g b < 256 \<Longrightarrow> bw f bs OR bw g bs = bw (\<lambda>b. f b OR g b) bs"
  by (simp add: bw_def of_nat_or_eq flip: le_val_map_or)

lemma bw_add: "bw f bs + bw g bs = bw (\<lambda>b. f b + g b) bs"
  by (simp add: bw_def flip: le_val_map_add)

lemma bw_sub: "\<forall>b\<in>set bs. g b \<le> f b \<Longrightarrow> bw f bs - bw g bs = bw (\<lambda>b. f b - g b) bs"
  using le_val_map_sub[of bs g f] by (simp add: bw_def flip: of_nat_diff)

lemma bw_mult: "bw (\<lambda>_. 1) bs * of_nat c = bw (\<lambda>_. c) bs"
  using le_val_map_mult[of c "\<lambda>_. 1" bs]
  by (simp add: bw_def mult.commute flip: of_nat_mult)

lemma bw_cong: "\<forall>b\<in>set bs. f b = g b \<Longrightarrow> bw f bs = bw g bs"
  by (simp add: bw_def cong: map_cong)

lemma unat_bw:
  assumes "LENGTH('a) = 8 * length bs" "\<forall>b\<in>set bs. f b < 256"
  shows "unat (bw f bs :: 'a::len word) = le_val (map f bs)"
proof -
  have "le_val (map f bs) < 256 ^ length (map f bs)"
    using assms(2) by (intro le_val_less) auto
  also have "\<dots> = 2 ^ LENGTH('a)"
    by (simp add: assms(1) power_mult)
  finally show ?thesis by (simp add: bw_def unat_of_nat)
qed

lemma unat_minus_1_bytes:
  assumes "LENGTH('a) = 8 * length bs"
  shows "unat (- 1 :: 'a::len word) = 255 * le_val (map (\<lambda>_. 1) bs)"
proof -
  have "unat (- 1 :: 'a word) + 1 = 2 ^ LENGTH('a)"
    by (simp add: unsigned_minus_1_eq_mask mask_eq_exp_minus_1)
  also have "\<dots> = 256 ^ length bs" by (simp add: assms power_mult)
  finally show ?thesis using le_val_ones[of bs] by simp
qed

lemma c01_bytes:
  assumes "LENGTH('a) = 8 * length bs"
  shows "(- 1 :: 'a::len word) div 255 = bw (\<lambda>_. 1) bs"
proof (rule word_unat_eq_iff[THEN iffD2])
  have "8 \<le> LENGTH('a)" using assms len_gt_0[where 'a='a] by (cases bs) auto
  then have "(2 :: nat) ^ 8 \<le> 2 ^ LENGTH('a)" by (rule power_increasing) simp
  then have "unat (255 :: 'a word) = 255"
    by (simp add: unat_of_nat[of 255, simplified])
  then show "unat ((- 1 :: 'a word) div 255) = unat (bw (\<lambda>_. 1) bs :: 'a word)"
    using unat_bw[where 'a='a, OF assms, of "\<lambda>_. 1"]
    by (simp only: unat_div unat_minus_1_bytes[OF assms] nonzero_mult_div_cancel_left) simp
qed

lemma not_bytes:
  assumes "LENGTH('a) = 8 * length bs" "bytes_ok bs"
  shows "NOT (bw (\<lambda>b. b) bs :: 'a::len word) = bw (\<lambda>b. 255 - b) bs"
proof -
  have "(- 1 :: 'a word) = of_nat (unat (- 1 :: 'a word))" by simp
  also have "\<dots> = of_nat 255 * of_nat (le_val (map (\<lambda>_. 1) bs))"
    by (simp only: unat_minus_1_bytes[OF assms(1)] of_nat_mult)
  also have "\<dots> = bw (\<lambda>_. 255) bs"
    using bw_mult[where 'a='a, of bs 255] by (simp add: bw_def mult.commute)
  finally have "NOT (bw (\<lambda>b. b) bs :: 'a word) = bw (\<lambda>_. 255) bs - bw (\<lambda>b. b) bs"
    by (simp add: not_eq_complement)
  moreover have "\<forall>b\<in>set bs. b \<le> 255" using assms(2) by auto
  ultimately show ?thesis by (simp only: bw_sub)
qed

lemma quarter_bytes:
  assumes "LENGTH('a) = 8 * length bs" "\<forall>b\<in>set bs. f b < 256 \<and> 4 dvd f b"
  shows "drop_bit 2 (bw f bs :: 'a::len word) = bw (\<lambda>b. f b div 4) bs"
proof (rule word_unat_eq_iff[THEN iffD2])
  have lt: "\<forall>b\<in>set bs. f b div 4 < 256"
    using assms(2) by (meson div_le_dividend le_less_trans)
  have "unat (bw f bs :: 'a word) = le_val (map f bs)"
    using assms by (intro unat_bw) auto
  then have "unat (drop_bit 2 (bw f bs :: 'a word)) = le_val (map f bs) div 4"
    unfolding unat_drop_bit_eq by (simp add: drop_bit_eq_div)
  also have "\<dots> = le_val (map (\<lambda>b. f b div 4) bs)"
    using assms(2) by (simp add: le_val_map_quarter)
  finally show "unat (drop_bit 2 (bw f bs :: 'a word)) = unat (bw (\<lambda>b. f b div 4) bs :: 'a word)"
    using unat_bw[OF assms(1) lt] by simp
qed

lemma markbetween_bytes:
  assumes "LENGTH('a) = 8 * length bs" "bytes_ok bs"
  shows "markbetween (bw (\<lambda>b. b) bs :: 'a::len word) (65 - 1) (90 + 1) = bw lcmask_byte bs"
proof -
  let ?x = "bw (\<lambda>b. b) bs :: 'a word" and ?c = "bw (\<lambda>_. 1) bs :: 'a word"
  have m: "b AND 127 < 128" for b :: nat by (simp add: and_127)
  then have m': "b AND 127 \<le> 218" "218 - (b AND 127) < 256" "b AND 127 < 256"
    "(b AND 127) + 63 < 256" for b :: nat
    using m[of b] by linarith+
  have low: "?x AND ?c * 127 = bw (\<lambda>b. b AND 127) bs"
    using bw_mult[where 'a='a, of bs 127] bw_and[where 'a='a, of bs "\<lambda>b. b" "\<lambda>_. 127"] assms(2)
    by simp
  have up: "?c * (127 + (90 + 1)) - (?x AND ?c * 127) = bw (\<lambda>b. 218 - (b AND 127)) bs"
    using bw_mult[where 'a='a, of bs 218] m'
      bw_sub[where 'a='a, of bs "\<lambda>b. b AND 127" "\<lambda>_. 218"] unfolding low by simp
  have dn: "(?x AND ?c * 127) + ?c * (127 - (65 - 1)) = bw (\<lambda>b. (b AND 127) + 63) bs"
    using bw_mult[where 'a='a, of bs 63] unfolding low by (simp add: bw_add)
  have "markbetween ?x (65 - 1) (90 + 1) =
      (bw (\<lambda>b. 218 - (b AND 127)) bs AND bw (\<lambda>b. 255 - b) bs AND
        bw (\<lambda>b. (b AND 127) + 63) bs) AND bw (\<lambda>_. 128) bs"
    unfolding markbetween_def Let_def bit.compl_zero c01_bytes[OF assms(1)] up dn
      not_bytes[OF assms]
    using bw_mult[where 'a='a, of bs 128] by simp
  also have "\<dots> = bw lcmask_byte bs"
    using m' by (simp add: bw_and and_byte lcmask_byte_def[abs_def] less_imp_diff_less)
  finally show ?thesis .
qed

text \<open>The whole trick: \<open>turbo_tolower\<close> maps every byte of the word to lower case.\<close>

lemma turbo_tolower_bytes:
  assumes "LENGTH('a) = 8 * length bs" "bytes_ok bs"
  shows "turbo_tolower (of_nat (le_val bs) :: 'a::len word) = of_nat (le_val (map byte_lower bs))"
proof -
  have lc: "\<forall>b\<in>set bs. lcmask_byte b < 256 \<and> 4 dvd lcmask_byte b"
    "\<forall>b\<in>set bs. b < 256 \<and> lcmask_byte b div 4 < 256"
    using assms(2) by (simp_all add: lcmask_byte)
  have "turbo_tolower (bw (\<lambda>b. b) bs :: 'a word) =
      bw (\<lambda>b. b) bs OR bw (\<lambda>b. lcmask_byte b div 4) bs"
    unfolding turbo_tolower_def TURBO_LCMASK_def markbetween_bytes[OF assms]
      quarter_bytes[OF assms(1) lc(1)] ..
  also have "\<dots> = bw byte_lower bs"
    using assms(2) lc(2) by (simp add: bw_or or_lcmask_byte cong: bw_cong)
      (auto intro!: bw_cong simp: or_lcmask_byte)
  finally show ?thesis by (simp add: bw_def)
qed

subsection \<open>The comparison loops\<close>

text \<open>
  A loader is a case-folding view of the first \<open>sz\<close> bytes at a pointer: two loads agree exactly when
  those bytes agree up to case. The four \<open>turbo_tolower_*\<close> functions are such views, and the
  loop is correct for every one.
\<close>

locale folding_view =
  fixes sz :: nat and tolower :: "string \<Rightarrow> 'w"
  assumes sz_pos: "0 < sz"
    and view_eq: "sz \<le> length s \<Longrightarrow> sz \<le> length t \<Longrightarrow>
      tolower s = tolower t \<longleftrightarrow> ieq (take sz s) (take sz t)"
begin

definition agree :: "string \<Rightarrow> string \<Rightarrow> nat \<Rightarrow> nat \<Rightarrow> bool" where
  "agree s1 s2 p q \<longleftrightarrow> (\<forall>i. p \<le> i \<and> i < q \<longrightarrow> ascii_lower (s1 ! i) = ascii_lower (s2 ! i))"

lemma view_agree:
  assumes "p + sz \<le> length s1" "p + sz \<le> length s2"
  shows "tolower (drop p s1) = tolower (drop p s2) \<longleftrightarrow> agree s1 s2 p (p + sz)"
proof -
  have "tolower (drop p s1) = tolower (drop p s2) \<longleftrightarrow>
      (\<forall>i < sz. ascii_lower (s1 ! (p + i)) = ascii_lower (s2 ! (p + i)))"
    using assms by (subst view_eq) (auto simp: ieq_def list_eq_iff_nth_eq)
  then show ?thesis
    unfolding agree_def by (metis add_less_cancel_left le_add1 le_iff_add)
qed

lemma agree_join:
  "p \<le> r \<Longrightarrow> r \<le> q \<Longrightarrow> q \<le> t \<Longrightarrow> agree s1 s2 p q \<Longrightarrow> agree s1 s2 p t \<longleftrightarrow> agree s1 s2 r t"
  by (auto simp: agree_def) (meson le_trans not_le)

lemma loop_decides:
  assumes "sz \<le> len" "p + len \<le> length s1" "p + len \<le> length s2"
  shows "fastcasebcmp_loop sz tolower s1 s2 p len = Inl (\<not> agree s1 s2 p (p + len))"
  using assms
proof (induction len arbitrary: p rule: less_induct)
  case (less len)
  let ?hit = "tolower (drop p s1) = tolower (drop p s2)"
  have hit: "?hit \<longleftrightarrow> agree s1 s2 p (p + sz)"
    using less.prems by (intro view_agree) auto
  have miss: "\<not> ?hit \<Longrightarrow> \<not> agree s1 s2 p (p + len)"
    using hit less.prems(1) unfolding agree_def by (meson add_le_cancel_left less_le_trans)
  consider "\<not> ?hit" | "?hit" "len = sz" | "?hit" "0 < len - sz" "len - sz < sz"
    | "?hit" "sz \<le> len - sz"
    using less.prems(1) by linarith
  then show ?case
  proof cases
    case 1
    then show ?thesis using sz_pos less.prems miss by (simp add: fastcasebcmp_loop.simps)
  next
    case 2
    then show ?thesis using sz_pos hit by (simp add: fastcasebcmp_loop.simps)
  next
    case 3
    let ?p = "p + sz - (sz - (len - sz))"
    have p: "?p = p + (len - sz)" "?p + sz = p + len" using 3 by auto
    have "fastcasebcmp_loop sz tolower s1 s2 ?p sz = Inl (\<not> agree s1 s2 ?p (?p + sz))"
      using 3 less.prems p by (intro less.IH) auto
    moreover have "agree s1 s2 p (p + len) \<longleftrightarrow> agree s1 s2 ?p (?p + sz)"
      unfolding p(2) using 3 hit p(1) by (intro agree_join[of p ?p "p + sz"]) auto
    ultimately show ?thesis
      using 3 sz_pos less.prems(1) by (simp add: fastcasebcmp_loop.simps[of _ _ _ _ p])
  next
    case 4
    have "fastcasebcmp_loop sz tolower s1 s2 (p + sz) (len - sz) =
        Inl (\<not> agree s1 s2 (p + sz) (p + sz + (len - sz)))"
      using 4 less.prems sz_pos by (intro less.IH) auto
    moreover have "agree s1 s2 p (p + len) \<longleftrightarrow> agree s1 s2 (p + sz) (p + len)"
      using 4 hit less.prems(1) by (intro agree_join[of p "p + sz" "p + sz"]) auto
    moreover have "len \<noteq> sz" using 4 sz_pos by auto
    ultimately show ?thesis
      using 4 sz_pos less.prems(1) by (simp add: fastcasebcmp_loop.simps[of _ _ _ _ p])
  qed
qed

lemma loop_skips: "len < sz \<Longrightarrow> fastcasebcmp_loop sz tolower s1 s2 p len = Inr (p, len)"
  by (simp add: fastcasebcmp_loop.simps)

lemma agree_all:
  "len \<le> length s1 \<Longrightarrow> len \<le> length s2 \<Longrightarrow> agree s1 s2 0 len \<longleftrightarrow> ieq (take len s1) (take len s2)"
  by (auto simp: agree_def ieq_def list_eq_iff_nth_eq)

text \<open>What one stage of \<open>turbo_casebcmp\<close> computes from the start of the strings.\<close>

lemma loop_stage:
  assumes "len \<le> length s1" "len \<le> length s2"
  shows "fastcasebcmp_loop sz tolower s1 s2 0 len =
    (if sz \<le> len then Inl (\<not> ieq (take len s1) (take len s2)) else Inr (0, len))"
  using assms loop_decides[of len 0 s1 s2] agree_all[OF assms] by (simp add: loop_skips)

end

lemma tolower_load_eq_iff:
  assumes "LENGTH('a) = 8 * k" "k \<le> length s" "k \<le> length t"
  shows "turbo_tolower (load_le k s :: 'a::len word) = turbo_tolower (load_le k t) \<longleftrightarrow>
    ieq (take k s) (take k t)"
proof -
  let ?b = "\<lambda>s. map (of_char :: char \<Rightarrow> nat) (take k s)"
  have low: "unat (turbo_tolower (load_le k u) :: 'a word) = le_val (map byte_lower (?b u))"
    if "k \<le> length u" for u
  proof -
    have "turbo_tolower (load_le k u :: 'a word) = bw byte_lower (?b u)"
      unfolding load_le_def bw_def using that assms(1) by (intro turbo_tolower_bytes) auto
    then show ?thesis
      using that assms(1) by (simp only:) (subst unat_bw; auto simp: byte_lower_less)
  qed
  have "turbo_tolower (load_le k s :: 'a word) = turbo_tolower (load_le k t) \<longleftrightarrow>
      le_val (map byte_lower (?b s)) = le_val (map byte_lower (?b t))"
    using low assms(2,3) by (simp add: word_unat_eq_iff)
  also have "\<dots> \<longleftrightarrow> map byte_lower (?b s) = map byte_lower (?b t)"
    using assms(2,3) by (auto intro!: le_val_inj simp: byte_lower_less)
  also have "\<dots> \<longleftrightarrow> ieq (take k s) (take k t)"
    by (auto simp: ieq_def list_eq_iff_nth_eq ascii_lower_eq_iff)
  finally show ?thesis .
qed

interpretation view_long: folding_view 8 turbo_tolower_long
  by unfold_locales (simp_all add: turbo_tolower_long_def tolower_load_eq_iff)

interpretation view_int: folding_view 4 turbo_tolower_int
  by unfold_locales (simp_all add: turbo_tolower_int_def tolower_load_eq_iff)

interpretation view_short: folding_view 2 turbo_tolower_short
  by unfold_locales (simp_all add: turbo_tolower_short_def tolower_load_eq_iff)

interpretation view_char: folding_view 1 turbo_tolower_char
  by unfold_locales (simp_all add: turbo_tolower_char_def tolower_load_eq_iff)

lemma casebcmp_correct:
  assumes "len \<le> length s1" "len \<le> length s2"
  shows "turbo_casebcmp s1 s2 len \<longleftrightarrow> \<not> ieq (take len s1) (take len s2)"
  using assms
  by (auto simp: turbo_casebcmp_def view_long.loop_stage view_int.loop_stage
      view_short.loop_stage view_char.loop_stage[simplified] Suc_le_eq)

lemma casebcmp_whole: "length s = length t \<Longrightarrow> turbo_casebcmp s t (length t) \<longleftrightarrow> \<not> ieq s t"
  by (simp add: casebcmp_correct)

lemma TURBO_STREQ_iff: "TURBO_STREQ s t \<longleftrightarrow> (\<exists>u v. s = u @ v \<and> ieq u t)"
proof
  assume "TURBO_STREQ s t"
  then have "ieq (take (length t) s) t"
    using casebcmp_correct[of "length t" s t] by (auto simp: TURBO_STREQ_def)
  then show "\<exists>u v. s = u @ v \<and> ieq u t"
    by (metis append_take_drop_id)
next
  assume "\<exists>u v. s = u @ v \<and> ieq u t"
  then obtain u v where s: "s = u @ v" "ieq u t" by auto
  then have "length u = length t" by (simp add: ieq_length)
  with s show "TURBO_STREQ s t"
    by (simp add: TURBO_STREQ_def casebcmp_correct)
qed

end
