(* ===== verification/Usipy_Db.thy ===== *)
theory Usipy_Db
  imports Usipy_Turbo
begin

unbundle bit_operations_syntax

text \<open>
  Components \<open>usipy_sip_method_db\<close>, \<open>usipy_fast_parser\<close> and \<open>usipy_sip_hdr_db\<close>: the tables of SIP
  method and header names and the perfect hashes that look names up in them. An entry is its
  index in the table; the code returns its address. The function pointers of a header entry are
  constructors naming the codec they point to, which \<open>Usipy_Hdr\<close> dispatches on.
\<close>

subsection \<open>Methods\<close>

abbreviation (input) USIPY_SIP_METHOD_generic :: nat where "USIPY_SIP_METHOD_generic \<equiv> 0"
abbreviation (input) USIPY_SIP_METHOD_ACK :: nat where "USIPY_SIP_METHOD_ACK \<equiv> 1"
abbreviation (input) USIPY_SIP_METHOD_BYE :: nat where "USIPY_SIP_METHOD_BYE \<equiv> 2"
abbreviation (input) USIPY_SIP_METHOD_CANCEL :: nat where "USIPY_SIP_METHOD_CANCEL \<equiv> 3"
abbreviation (input) USIPY_SIP_METHOD_INFO :: nat where "USIPY_SIP_METHOD_INFO \<equiv> 4"
abbreviation (input) USIPY_SIP_METHOD_INVITE :: nat where "USIPY_SIP_METHOD_INVITE \<equiv> 5"
abbreviation (input) USIPY_SIP_METHOD_OPTIONS :: nat where "USIPY_SIP_METHOD_OPTIONS \<equiv> 6"
abbreviation (input) USIPY_SIP_METHOD_PRACK :: nat where "USIPY_SIP_METHOD_PRACK \<equiv> 7"
abbreviation (input) USIPY_SIP_METHOD_REFER :: nat where "USIPY_SIP_METHOD_REFER \<equiv> 8"
abbreviation (input) USIPY_SIP_METHOD_REGISTER :: nat where "USIPY_SIP_METHOD_REGISTER \<equiv> 9"
abbreviation (input) USIPY_SIP_METHOD_SUBSCRIBE :: nat where "USIPY_SIP_METHOD_SUBSCRIBE \<equiv> 10"
abbreviation (input) USIPY_SIP_METHOD_NOTIFY :: nat where "USIPY_SIP_METHOD_NOTIFY \<equiv> 11"
abbreviation (input) USIPY_SIP_METHOD_max :: nat where "USIPY_SIP_METHOD_max \<equiv> 11"

text \<open>\<open>usipy_method_db\<close>: the names, by \<open>cantype\<close>, which is the index of every entry.\<close>

definition usipy_method_db :: "string list" where
  "usipy_method_db =
     [[], ''ACK'', ''BYE'', ''CANCEL'', ''INFO'', ''INVITE'', 
      ''OPTIONS'', ''PRACK'', ''REFER'', ''REGISTER'', ''SUBSCRIBE'', ''NOTIFY'']"

definition method_asso_values :: "nat list" where
  "method_asso_values =
     [14, 14, 14, 14, 14, 14, 14, 14, 14, 14, 14, 14, 14, 14, 14, 14,
      14, 14, 14, 14, 14, 14, 14, 14, 14, 14, 14, 14, 14, 14, 14, 14,
      14, 14, 14, 14, 14, 14, 14, 14, 14, 14, 14, 14, 14, 14, 14, 14,
      14, 14, 14, 14, 14, 14, 14, 14, 14, 14, 14, 14, 14, 14, 14, 14,
      14, 10, 0, 5, 14, 14, 14, 14, 14, 0, 14, 14, 14, 14, 14, 0,
      5, 14, 0, 0, 14, 14, 14, 14, 14, 14, 14, 14, 14, 14, 14, 14,
      14, 10, 0, 5, 14, 14, 14, 14, 14, 0, 14, 14, 14, 14, 14, 0,
      5, 14, 0, 0, 14, 14, 14, 14, 14, 14, 14, 14, 14, 14, 14, 14,
      14, 14, 14, 14, 14, 14, 14, 14, 14, 14, 14, 14, 14, 14, 14, 14,
      14, 14, 14, 14, 14, 14, 14, 14, 14, 14, 14, 14, 14, 14, 14, 14,
      14, 14, 14, 14, 14, 14, 14, 14, 14, 14, 14, 14, 14, 14, 14, 14,
      14, 14, 14, 14, 14, 14, 14, 14, 14, 14, 14, 14, 14, 14, 14, 14,
      14, 14, 14, 14, 14, 14, 14, 14, 14, 14, 14, 14, 14, 14, 14, 14,
      14, 14, 14, 14, 14, 14, 14, 14, 14, 14, 14, 14, 14, 14, 14, 14,
      14, 14, 14, 14, 14, 14, 14, 14, 14, 14, 14, 14, 14, 14, 14, 14,
      14, 14, 14, 14, 14, 14, 14, 14, 14, 14, 14, 14, 14, 14, 14, 14]"

definition method_hash :: "string \<Rightarrow> nat" where
  "method_hash sp = length sp + method_asso_values ! of_char (sp ! 0)"

definition method_wordlist :: "nat list" where
  "method_wordlist =
     [USIPY_SIP_METHOD_generic, USIPY_SIP_METHOD_generic, USIPY_SIP_METHOD_generic,
      USIPY_SIP_METHOD_BYE, USIPY_SIP_METHOD_INFO, USIPY_SIP_METHOD_REFER,
      USIPY_SIP_METHOD_INVITE, USIPY_SIP_METHOD_OPTIONS, USIPY_SIP_METHOD_REGISTER,
      USIPY_SIP_METHOD_SUBSCRIBE, USIPY_SIP_METHOD_PRACK, USIPY_SIP_METHOD_CANCEL,
      USIPY_SIP_METHOD_generic, USIPY_SIP_METHOD_ACK]"

definition usipy_method_db_lookup :: "string \<Rightarrow> nat" where
  "usipy_method_db_lookup tp =
     (if length tp = length ''NOTIFY'' \<and> \<not> turbo_casebcmp tp ''NOTIFY'' (length ''NOTIFY'')
      then USIPY_SIP_METHOD_NOTIFY
      else if length tp \<le> 9 \<and> length tp \<ge> 3 \<and> method_hash tp \<le> 13 then
        let wp = method_wordlist ! method_hash tp; nm = usipy_method_db ! wp in
        if length nm = length tp \<and> \<not> turbo_casebcmp tp nm (length nm) then wp
        else USIPY_SIP_METHOD_generic
      else USIPY_SIP_METHOD_generic)"

subsection \<open>The fast parser\<close>

record usipy_fast_parser =
  fp_magic :: uint32
  fp_toid :: "nat list"

text \<open>The words of the name, four bytes at a time, the last one padded with zeros.\<close>

function fp_sum :: "uint32 \<Rightarrow> string \<Rightarrow> uint32 \<Rightarrow> uint32" where
  "fp_sum magic s res =
     (if s = [] then res
      else
        let cval = load_le 4 s;
            cval = cval OR 0x20202020;
            cval = cval XOR magic
        in fp_sum magic (drop 4 s) (res + cval))"
  by auto
termination by (relation "measure (\<lambda>(_, s, _). length s)") auto

declare fp_sum.simps [simp del]

text \<open>
  \<open>res >>= (sp->l - 1)\<close> shifts a 32-bit value: for a name of 33 bytes or more the shift count
  reaches the width and C leaves the result undefined, which is \<open>None\<close> here.
\<close>

definition usipy_fp_classify :: "usipy_fast_parser \<Rightarrow> string \<Rightarrow> nat abortable" where
  "usipy_fp_classify fp sp =
     (let res = fp_sum (fp_magic fp) sp (of_nat (length sp)) in
      if length sp > 1 \<and> length sp - 1 \<ge> 32 then None
      else
        let res = (if length sp > 1 then drop_bit (length sp - 1) res else res) in
        Some (fp_toid fp ! unat (res AND 0xff)))"

subsection \<open>Headers\<close>

abbreviation (input) USIPY_HF_generic :: nat where "USIPY_HF_generic \<equiv> 0"
abbreviation (input) USIPY_HF_ACCEPT :: nat where "USIPY_HF_ACCEPT \<equiv> 1"
abbreviation (input) USIPY_HF_ALLOW :: nat where "USIPY_HF_ALLOW \<equiv> 2"
abbreviation (input) USIPY_HF_ALSO :: nat where "USIPY_HF_ALSO \<equiv> 3"
abbreviation (input) USIPY_HF_AUTHORIZATION :: nat where "USIPY_HF_AUTHORIZATION \<equiv> 4"
abbreviation (input) USIPY_HF_CCDIVERSION :: nat where "USIPY_HF_CCDIVERSION \<equiv> 5"
abbreviation (input) USIPY_HF_CSEQ :: nat where "USIPY_HF_CSEQ \<equiv> 6"
abbreviation (input) USIPY_HF_CALLID :: nat where "USIPY_HF_CALLID \<equiv> 7"
abbreviation (input) USIPY_HF_CONTACT :: nat where "USIPY_HF_CONTACT \<equiv> 8"
abbreviation (input) USIPY_HF_CONTENTLENGTH :: nat where "USIPY_HF_CONTENTLENGTH \<equiv> 9"
abbreviation (input) USIPY_HF_CONTENTTYPE :: nat where "USIPY_HF_CONTENTTYPE \<equiv> 10"
abbreviation (input) USIPY_HF_DIVERSION :: nat where "USIPY_HF_DIVERSION \<equiv> 11"
abbreviation (input) USIPY_HF_EXPIRES :: nat where "USIPY_HF_EXPIRES \<equiv> 12"
abbreviation (input) USIPY_HF_FROM :: nat where "USIPY_HF_FROM \<equiv> 13"
abbreviation (input) USIPY_HF_MAXFORWARDS :: nat where "USIPY_HF_MAXFORWARDS \<equiv> 14"
abbreviation (input) USIPY_HF_PASSERTEDIDENTITY :: nat where "USIPY_HF_PASSERTEDIDENTITY \<equiv> 15"
abbreviation (input) USIPY_HF_PROXYAUTHENTICATE :: nat where "USIPY_HF_PROXYAUTHENTICATE \<equiv> 16"
abbreviation (input) USIPY_HF_PROXYAUTHORIZATION :: nat where "USIPY_HF_PROXYAUTHORIZATION \<equiv> 17"
abbreviation (input) USIPY_HF_RACK :: nat where "USIPY_HF_RACK \<equiv> 18"
abbreviation (input) USIPY_HF_RSEQ :: nat where "USIPY_HF_RSEQ \<equiv> 19"
abbreviation (input) USIPY_HF_REASON :: nat where "USIPY_HF_REASON \<equiv> 20"
abbreviation (input) USIPY_HF_RECORDROUTE :: nat where "USIPY_HF_RECORDROUTE \<equiv> 21"
abbreviation (input) USIPY_HF_REFERTO :: nat where "USIPY_HF_REFERTO \<equiv> 22"
abbreviation (input) USIPY_HF_REFERREDBY :: nat where "USIPY_HF_REFERREDBY \<equiv> 23"
abbreviation (input) USIPY_HF_REPLACES :: nat where "USIPY_HF_REPLACES \<equiv> 24"
abbreviation (input) USIPY_HF_ROUTE :: nat where "USIPY_HF_ROUTE \<equiv> 25"
abbreviation (input) USIPY_HF_SERVER :: nat where "USIPY_HF_SERVER \<equiv> 26"
abbreviation (input) USIPY_HF_SUPPORTED :: nat where "USIPY_HF_SUPPORTED \<equiv> 27"
abbreviation (input) USIPY_HF_TO :: nat where "USIPY_HF_TO \<equiv> 28"
abbreviation (input) USIPY_HF_USERAGENT :: nat where "USIPY_HF_USERAGENT \<equiv> 29"
abbreviation (input) USIPY_HF_VIA :: nat where "USIPY_HF_VIA \<equiv> 30"
abbreviation (input) USIPY_HF_WWWAUTHENTICATE :: nat where "USIPY_HF_WWWAUTHENTICATE \<equiv> 31"
abbreviation (input) USIPY_HF_WARNING :: nat where "USIPY_HF_WARNING \<equiv> 32"
abbreviation (input) USIPY_HF_CALLID_c :: nat where "USIPY_HF_CALLID_c \<equiv> 33"
abbreviation (input) USIPY_HF_CONTACT_c :: nat where "USIPY_HF_CONTACT_c \<equiv> 34"
abbreviation (input) USIPY_HF_CONTENTLENGTH_c :: nat where "USIPY_HF_CONTENTLENGTH_c \<equiv> 35"
abbreviation (input) USIPY_HF_CONTENTTYPE_c :: nat where "USIPY_HF_CONTENTTYPE_c \<equiv> 36"
abbreviation (input) USIPY_HF_FROM_c :: nat where "USIPY_HF_FROM_c \<equiv> 37"
abbreviation (input) USIPY_HF_REFERTO_c :: nat where "USIPY_HF_REFERTO_c \<equiv> 38"
abbreviation (input) USIPY_HF_SUPPORTED_c :: nat where "USIPY_HF_SUPPORTED_c \<equiv> 39"
abbreviation (input) USIPY_HF_TO_c :: nat where "USIPY_HF_TO_c \<equiv> 40"
abbreviation (input) USIPY_HF_VIA_c :: nat where "USIPY_HF_VIA_c \<equiv> 41"
abbreviation (input) USIPY_HF_max :: nat where "USIPY_HF_max \<equiv> 41"

datatype usipy_sip_hdr_parse_f =
  No_parse | Parse_1token | Parse_nameaddr | Parse_auth | Parse_via | Parse_cseq

datatype usipy_sip_hdr_build_f =
  No_build | Build_1token | Build_nameaddr | Build_auth | Build_authz | Build_via | Build_cseq

record usipy_hdr_db_entr =
  he_name :: string
  he_cantype :: nat
  he_csl_allowed :: bool
  he_parse :: usipy_sip_hdr_parse_f
  he_build :: usipy_sip_hdr_build_f

definition hdr_entr ::
  "string \<Rightarrow> nat \<Rightarrow> bool \<Rightarrow> usipy_sip_hdr_parse_f \<Rightarrow> usipy_sip_hdr_build_f \<Rightarrow> usipy_hdr_db_entr" where
  "hdr_entr n ct csl p b =
     \<lparr>he_name = n, he_cantype = ct, he_csl_allowed = csl, he_parse = p, he_build = b\<rparr>"

text \<open>The entries of the one-letter forms, which end the table.\<close>

definition usipy_hdr_db_compact :: "usipy_hdr_db_entr list" where
  "usipy_hdr_db_compact =
     [hdr_entr ''i'' USIPY_HF_CALLID False Parse_1token Build_1token,
      hdr_entr ''m'' USIPY_HF_CONTACT True Parse_nameaddr Build_nameaddr,
      hdr_entr ''l'' USIPY_HF_CONTENTLENGTH False No_parse Build_1token,
      hdr_entr ''c'' USIPY_HF_CONTENTTYPE False Parse_1token Build_1token,
      hdr_entr ''f'' USIPY_HF_FROM False Parse_nameaddr Build_nameaddr,
      hdr_entr ''r'' USIPY_HF_REFERTO False No_parse No_build,
      hdr_entr ''k'' USIPY_HF_SUPPORTED True No_parse No_build,
      hdr_entr ''t'' USIPY_HF_TO False Parse_nameaddr Build_nameaddr,
      hdr_entr ''v'' USIPY_HF_VIA True Parse_via Build_via]"

definition usipy_hdr_db :: "usipy_hdr_db_entr list" where
  "usipy_hdr_db =
     [hdr_entr [] USIPY_HF_generic False No_parse No_build,
      hdr_entr ''Accept'' USIPY_HF_ACCEPT True No_parse No_build,
      hdr_entr ''Allow'' USIPY_HF_ALLOW True No_parse No_build,
      hdr_entr ''Also'' USIPY_HF_ALSO False No_parse No_build,
      hdr_entr ''Authorization'' USIPY_HF_AUTHORIZATION False No_parse Build_authz,
      hdr_entr ''CC-Diversion'' USIPY_HF_CCDIVERSION False No_parse No_build,
      hdr_entr ''CSeq'' USIPY_HF_CSEQ False Parse_cseq Build_cseq,
      hdr_entr ''Call-ID'' USIPY_HF_CALLID False Parse_1token Build_1token,
      hdr_entr ''Contact'' USIPY_HF_CONTACT True Parse_nameaddr Build_nameaddr,
      hdr_entr ''Content-Length'' USIPY_HF_CONTENTLENGTH False No_parse Build_1token,
      hdr_entr ''Content-Type'' USIPY_HF_CONTENTTYPE False Parse_1token Build_1token,
      hdr_entr ''Diversion'' USIPY_HF_DIVERSION False No_parse No_build,
      hdr_entr ''Expires'' USIPY_HF_EXPIRES False Parse_1token Build_1token,
      hdr_entr ''From'' USIPY_HF_FROM False Parse_nameaddr Build_nameaddr,
      hdr_entr ''Max-Forwards'' USIPY_HF_MAXFORWARDS False No_parse No_build,
      hdr_entr ''P-Asserted-Identity'' USIPY_HF_PASSERTEDIDENTITY False No_parse No_build,
      hdr_entr ''Proxy-Authenticate'' USIPY_HF_PROXYAUTHENTICATE False Parse_auth Build_auth,
      hdr_entr ''Proxy-Authorization'' USIPY_HF_PROXYAUTHORIZATION False No_parse Build_authz,
      hdr_entr ''RAck'' USIPY_HF_RACK False No_parse No_build,
      hdr_entr ''RSeq'' USIPY_HF_RSEQ False No_parse No_build,
      hdr_entr ''Reason'' USIPY_HF_REASON False No_parse No_build,
      hdr_entr ''Record-Route'' USIPY_HF_RECORDROUTE True Parse_nameaddr No_build,
      hdr_entr ''Refer-To'' USIPY_HF_REFERTO False No_parse No_build,
      hdr_entr ''Referred-By'' USIPY_HF_REFERREDBY False No_parse No_build,
      hdr_entr ''Replaces'' USIPY_HF_REPLACES False No_parse No_build,
      hdr_entr ''Route'' USIPY_HF_ROUTE True Parse_nameaddr No_build,
      hdr_entr ''Server'' USIPY_HF_SERVER False No_parse No_build,
      hdr_entr ''Supported'' USIPY_HF_SUPPORTED True No_parse No_build,
      hdr_entr ''To'' USIPY_HF_TO False Parse_nameaddr Build_nameaddr,
      hdr_entr ''User-Agent'' USIPY_HF_USERAGENT False No_parse No_build,
      hdr_entr ''Via'' USIPY_HF_VIA True Parse_via Build_via,
      hdr_entr ''WWW-Authenticate'' USIPY_HF_WWWAUTHENTICATE False Parse_auth Build_auth,
      hdr_entr ''Warning'' USIPY_HF_WARNING True No_parse No_build] @ usipy_hdr_db_compact"

definition hdr_pdata :: usipy_fast_parser where
  "hdr_pdata = \<lparr>fp_magic = 0x46, fp_toid =
     [
      USIPY_HF_generic, USIPY_HF_generic, USIPY_HF_generic, USIPY_HF_generic, USIPY_HF_generic,
      USIPY_HF_generic, USIPY_HF_generic, USIPY_HF_SUPPORTED, USIPY_HF_generic, USIPY_HF_generic,
      USIPY_HF_generic, USIPY_HF_generic, USIPY_HF_generic, USIPY_HF_generic, USIPY_HF_generic,
      USIPY_HF_generic, USIPY_HF_generic, USIPY_HF_generic, USIPY_HF_generic, USIPY_HF_generic,
      USIPY_HF_generic, USIPY_HF_generic, USIPY_HF_generic, USIPY_HF_generic, USIPY_HF_generic,
      USIPY_HF_generic, USIPY_HF_generic, USIPY_HF_generic, USIPY_HF_generic, USIPY_HF_generic,
      USIPY_HF_generic, USIPY_HF_generic, USIPY_HF_generic, USIPY_HF_FROM_c, USIPY_HF_generic,
      USIPY_HF_generic, USIPY_HF_REFERTO, USIPY_HF_generic, USIPY_HF_CONTENTTYPE_c, USIPY_HF_RACK,
      USIPY_HF_generic, USIPY_HF_generic, USIPY_HF_CALLID, USIPY_HF_CONTENTLENGTH_c,
      USIPY_HF_CONTACT_c, USIPY_HF_generic, USIPY_HF_SUPPORTED_c, USIPY_HF_generic,
      USIPY_HF_CALLID_c, USIPY_HF_VIA_c, USIPY_HF_generic, USIPY_HF_TO_c, USIPY_HF_generic,
      USIPY_HF_REFERTO_c, USIPY_HF_generic, USIPY_HF_generic, USIPY_HF_generic, USIPY_HF_generic,
      USIPY_HF_generic, USIPY_HF_generic, USIPY_HF_generic, USIPY_HF_WARNING, USIPY_HF_generic,
      USIPY_HF_generic, USIPY_HF_generic, USIPY_HF_generic, USIPY_HF_generic,
      USIPY_HF_PROXYAUTHORIZATION, USIPY_HF_FROM, USIPY_HF_generic, USIPY_HF_generic,
      USIPY_HF_generic, USIPY_HF_CCDIVERSION, USIPY_HF_CONTACT, USIPY_HF_generic,
      USIPY_HF_generic, USIPY_HF_VIA, USIPY_HF_generic, USIPY_HF_REFERREDBY, USIPY_HF_generic,
      USIPY_HF_generic, USIPY_HF_generic, USIPY_HF_generic, USIPY_HF_generic, USIPY_HF_generic,
      USIPY_HF_generic, USIPY_HF_generic, USIPY_HF_generic, USIPY_HF_generic, USIPY_HF_generic,
      USIPY_HF_generic, USIPY_HF_generic, USIPY_HF_generic, USIPY_HF_generic, USIPY_HF_generic,
      USIPY_HF_generic, USIPY_HF_generic, USIPY_HF_generic, USIPY_HF_generic, USIPY_HF_generic,
      USIPY_HF_generic, USIPY_HF_CSEQ, USIPY_HF_generic, USIPY_HF_RSEQ, USIPY_HF_generic,
      USIPY_HF_generic, USIPY_HF_CONTENTTYPE, USIPY_HF_generic, USIPY_HF_generic,
      USIPY_HF_generic, USIPY_HF_generic, USIPY_HF_generic, USIPY_HF_generic, USIPY_HF_generic,
      USIPY_HF_generic, USIPY_HF_generic, USIPY_HF_generic, USIPY_HF_EXPIRES, USIPY_HF_generic,
      USIPY_HF_AUTHORIZATION, USIPY_HF_generic, USIPY_HF_generic, USIPY_HF_PASSERTEDIDENTITY,
      USIPY_HF_generic, USIPY_HF_generic, USIPY_HF_generic, USIPY_HF_generic, USIPY_HF_generic,
      USIPY_HF_generic, USIPY_HF_generic, USIPY_HF_generic, USIPY_HF_generic, USIPY_HF_generic,
      USIPY_HF_ALSO, USIPY_HF_generic, USIPY_HF_generic, USIPY_HF_generic, USIPY_HF_generic,
      USIPY_HF_generic, USIPY_HF_generic, USIPY_HF_generic, USIPY_HF_CONTENTLENGTH,
      USIPY_HF_generic, USIPY_HF_generic, USIPY_HF_REPLACES, USIPY_HF_generic, USIPY_HF_generic,
      USIPY_HF_generic, USIPY_HF_generic, USIPY_HF_generic, USIPY_HF_generic, USIPY_HF_generic,
      USIPY_HF_generic, USIPY_HF_generic, USIPY_HF_TO, USIPY_HF_REASON, USIPY_HF_generic,
      USIPY_HF_generic, USIPY_HF_generic, USIPY_HF_generic, USIPY_HF_generic, USIPY_HF_generic,
      USIPY_HF_generic, USIPY_HF_generic, USIPY_HF_USERAGENT, USIPY_HF_generic, USIPY_HF_generic,
      USIPY_HF_RECORDROUTE, USIPY_HF_generic, USIPY_HF_WWWAUTHENTICATE, USIPY_HF_generic,
      USIPY_HF_generic, USIPY_HF_generic, USIPY_HF_generic, USIPY_HF_generic, USIPY_HF_generic,
      USIPY_HF_generic, USIPY_HF_generic, USIPY_HF_generic, USIPY_HF_generic, USIPY_HF_generic,
      USIPY_HF_generic, USIPY_HF_generic, USIPY_HF_generic, USIPY_HF_generic, USIPY_HF_generic,
      USIPY_HF_SERVER, USIPY_HF_ACCEPT, USIPY_HF_generic, USIPY_HF_generic, USIPY_HF_generic,
      USIPY_HF_generic, USIPY_HF_generic, USIPY_HF_generic, USIPY_HF_generic, USIPY_HF_generic,
      USIPY_HF_generic, USIPY_HF_ALLOW, USIPY_HF_generic, USIPY_HF_generic, USIPY_HF_generic,
      USIPY_HF_generic, USIPY_HF_generic, USIPY_HF_generic, USIPY_HF_generic, USIPY_HF_generic,
      USIPY_HF_generic, USIPY_HF_generic, USIPY_HF_generic, USIPY_HF_generic, USIPY_HF_generic,
      USIPY_HF_generic, USIPY_HF_generic, USIPY_HF_generic, USIPY_HF_generic, USIPY_HF_generic,
      USIPY_HF_generic, USIPY_HF_generic, USIPY_HF_generic, USIPY_HF_generic,
      USIPY_HF_PROXYAUTHENTICATE, USIPY_HF_generic, USIPY_HF_generic, USIPY_HF_generic,
      USIPY_HF_generic, USIPY_HF_generic, USIPY_HF_generic, USIPY_HF_generic, USIPY_HF_generic,
      USIPY_HF_generic, USIPY_HF_generic, USIPY_HF_generic, USIPY_HF_MAXFORWARDS,
      USIPY_HF_generic, USIPY_HF_generic, USIPY_HF_generic, USIPY_HF_generic, USIPY_HF_generic,
      USIPY_HF_generic, USIPY_HF_generic, USIPY_HF_generic, USIPY_HF_generic, USIPY_HF_generic,
      USIPY_HF_generic, USIPY_HF_generic, USIPY_HF_ROUTE, USIPY_HF_generic, USIPY_HF_generic,
      USIPY_HF_generic, USIPY_HF_generic, USIPY_HF_generic, USIPY_HF_generic, USIPY_HF_DIVERSION,
      USIPY_HF_generic, USIPY_HF_generic, USIPY_HF_generic]\<rparr>"

definition usipy_hdr_db_byid :: "nat \<Rightarrow> usipy_hdr_db_entr" where
  "usipy_hdr_db_byid hid = usipy_hdr_db ! hid"

text \<open>
  \<open>r\<close> is taken before the name is verified and is what is returned; the verification only
  overwrites \<open>hid\<close>. The table never holds \<open>-1\<close>, so the null return of the code is not reachable.
\<close>

definition usipy_hdr_db_lookup :: "string \<Rightarrow> nat abortable" where
  "usipy_hdr_db_lookup hname = do {
     hid \<leftarrow> usipy_fp_classify hdr_pdata hname;
     let r = hid;
     let hid = (if hid \<noteq> USIPY_HF_generic \<and>
                   (length (he_name (usipy_hdr_db_byid r)) \<noteq> length hname \<or>
                    turbo_casebcmp (he_name (usipy_hdr_db_byid r)) hname (length hname))
                then USIPY_HF_generic else hid);
     Some r
   }"

definition usipy_hdr_iscmpct :: "nat \<Rightarrow> bool" where
  "usipy_hdr_iscmpct hid \<longleftrightarrow> length (he_name (usipy_hdr_db_byid hid)) = 1"

subsection \<open>Methods: the hash finds every name and nothing else\<close>

text \<open>The specification: the entry whose name the token spells, up to case.\<close>

definition method_of_name :: "string \<Rightarrow> nat" where
  "method_of_name tp =
     (case filter (\<lambda>i. ieq tp (usipy_method_db ! i)) [1..<12] of [] \<Rightarrow> 0 | i # _ \<Rightarrow> i)"

lemma upt_methods: "[1..<12] = [1, 2, 3, 4, 5, 6, 7, 8, 9, 10, 11 :: nat]"
  by (simp add: upt_conv_Cons)

lemma ascii_lower_cases:
  "ascii_lower c = d \<Longrightarrow> c = d \<or> c = char_of (of_char d - 32 :: nat)"
  by (auto simp: ascii_lower_def byte_lower_def byte_lower_less split: if_splits)

lemma ieq_Cons_iff:
  "ieq s (d # t) \<longleftrightarrow> (\<exists>c s'. s = c # s' \<and> ascii_lower c = ascii_lower d \<and> ieq s' t)"
  by (cases s) (auto simp: ieq_def)

lemma ieq_Nil_iff: "ieq s [] \<longleftrightarrow> s = []"
  by (simp add: ieq_def)

text \<open>The version of a start line.\<close>

lemma char_eq_num: "c = d \<longleftrightarrow> (of_char c :: nat) = of_char d"
  by simp

lemma version_letters:
  "ascii_lower c = ascii_lower CHR ''S'' \<longleftrightarrow> CHCASECMP c CHR ''S''"
  "ascii_lower c = ascii_lower CHR ''I'' \<longleftrightarrow> CHCASECMP c CHR ''I''"
  "ascii_lower c = ascii_lower CHR ''P'' \<longleftrightarrow> CHCASECMP c CHR ''P''"
  "ascii_lower c = ascii_lower CHR ''/'' \<longleftrightarrow> c = CHR ''/''"
  "ascii_lower c = ascii_lower CHR ''2'' \<longleftrightarrow> c = CHR ''2''"
  "ascii_lower c = ascii_lower CHR ''.'' \<longleftrightarrow> c = CHR ''.''"
  "ascii_lower c = ascii_lower CHR ''0'' \<longleftrightarrow> c = CHR ''0''"
  by (auto simp: char_eq_num CHCASECMP_def CHLOWER_def of_char_ascii_lower byte_lower_def
      simp del: of_char_eq_iff split: if_splits)

lemma version_is_sip20: "usipy_verify_sip_version vp \<longleftrightarrow> ieq vp ''SIP/2.0''"
proof -
  have "length vp = 7 \<longleftrightarrow> (\<exists>a b c d e f g. vp = [a, b, c, d, e, f, g])"
    by (auto simp: length_Suc_conv numeral_eq_Suc)
  then show ?thesis
    by (auto simp: usipy_verify_sip_version_def usipy_sip_version_def ieq_Cons_iff ieq_Nil_iff
        version_letters)
qed

lemma lookup_ieq:
  assumes "usipy_method_db_lookup tp = i" "i \<noteq> 0"
  shows "ieq tp (usipy_method_db ! i)"
  using assms
  by (auto simp: usipy_method_db_lookup_def Let_def casebcmp_correct usipy_method_db_def
      split: if_splits)

text \<open>Every spelling of a name hashes to the slot of its entry.\<close>

definition first_chars :: "char \<Rightarrow> char list" where
  "first_chars d = [ascii_lower d, char_of (of_char (ascii_lower d) - 32 :: nat)]"

lemma method_slot_table:
  "list_all (\<lambda>i. i = USIPY_SIP_METHOD_NOTIFY \<or>
     (let n = usipy_method_db ! i in
      n \<noteq> [] \<and> length n \<le> 9 \<and> 3 \<le> length n \<and>
      list_all (\<lambda>c. length n + method_asso_values ! of_char c \<le> 13 \<and>
        method_wordlist ! (length n + method_asso_values ! of_char c) = i) (first_chars (hd n))))
     [1..<12]"
  by code_simp

lemma method_slot:
  assumes "i \<in> set [1..<12]" "i \<noteq> USIPY_SIP_METHOD_NOTIFY" "ieq tp (usipy_method_db ! i)"
  shows "length tp \<le> 9 \<and> 3 \<le> length tp \<and> method_hash tp \<le> 13 \<and>
    method_wordlist ! method_hash tp = i"
proof -
  let ?n = "usipy_method_db ! i"
  have len: "length tp = length ?n" using assms(3) by (rule ieq_length)
  have tab: "?n \<noteq> [] \<and> length ?n \<le> 9 \<and> 3 \<le> length ?n \<and>
      (\<forall>c\<in>set (first_chars (hd ?n)). length ?n + method_asso_values ! of_char c \<le> 13 \<and>
        method_wordlist ! (length ?n + method_asso_values ! of_char c) = i)"
    using method_slot_table assms(1,2) unfolding list_all_iff Let_def by blast
  then obtain d t where d: "?n = d # t" by (cases ?n) auto
  with assms(3) obtain c s where c: "tp = c # s" "ascii_lower c = ascii_lower d"
    by (auto simp: ieq_Cons_iff)
  have "c \<in> set (first_chars d)"
    using ascii_lower_cases[OF c(2)] by (auto simp: first_chars_def)
  then have "length ?n + method_asso_values ! of_char c \<le> 13 \<and>
      method_wordlist ! (length ?n + method_asso_values ! of_char c) = i"
    using tab by (simp add: d)
  then show ?thesis using tab len by (simp add: method_hash_def c)
qed

lemma method_names_distinct:
  "distinct (map (map (\<lambda>c. byte_lower (of_char c))) usipy_method_db)"
  by (simp add: usipy_method_db_def byte_lower_def)

lemma method_name_unique:
  assumes "ieq tp (usipy_method_db ! i)" "ieq tp (usipy_method_db ! j)"
    "i \<in> set [1..<12]" "j \<in> set [1..<12]"
  shows "i = j"
proof -
  let ?f = "map (\<lambda>c. byte_lower (of_char c))"
  have f: "?f u = map of_char (map ascii_lower u)" for u
    by (simp add: of_char_ascii_lower)
  have "length usipy_method_db = 12" by (simp add: usipy_method_db_def)
  moreover have "?f (usipy_method_db ! i) = ?f (usipy_method_db ! j)"
    unfolding f using assms(1,2) by (simp only: ieq_def)
  ultimately show ?thesis
    using method_names_distinct assms(3,4) by (simp add: distinct_conv_nth) metis
qed

lemma lookup_of_ieq:
  assumes "i \<in> set [1..<12]" "ieq tp (usipy_method_db ! i)"
  shows "usipy_method_db_lookup tp = i"
proof (cases "i = USIPY_SIP_METHOD_NOTIFY")
  case True
  then have "ieq tp ''NOTIFY''" using assms(2) by (simp add: usipy_method_db_def)
  moreover have "length tp = length ''NOTIFY''" using calculation by (rule ieq_length)
  ultimately show ?thesis
    using casebcmp_whole[of tp "''NOTIFY''"] by (simp add: usipy_method_db_lookup_def True)
next
  case False
  note slot = method_slot[OF assms(1) False assms(2)]
  have len: "length tp = length (usipy_method_db ! i)" using assms(2) by (rule ieq_length)
  have notify: "\<not> (length tp = length ''NOTIFY'' \<and> \<not> turbo_casebcmp tp ''NOTIFY'' (length ''NOTIFY''))"
  proof
    assume *: "length tp = length ''NOTIFY'' \<and> \<not> turbo_casebcmp tp ''NOTIFY'' (length ''NOTIFY'')"
    then have "ieq tp (usipy_method_db ! 11)"
      using casebcmp_whole[of tp "''NOTIFY''"] by (simp add: usipy_method_db_def)
    then show False using method_name_unique[OF assms(2)] assms(1) False by fastforce
  qed
  have "\<not> turbo_casebcmp tp (usipy_method_db ! i) (length (usipy_method_db ! i))"
    using casebcmp_whole[OF len] assms(2) by simp
  then show ?thesis
    using slot len unfolding usipy_method_db_lookup_def Let_def if_not_P[OF notify] by simp
qed

lemma method_lookup_correct: "usipy_method_db_lookup tp = method_of_name tp"
proof (cases "filter (\<lambda>i. ieq tp (usipy_method_db ! i)) [1..<12]")
  case Nil
  have "usipy_method_db_lookup tp = 0"
  proof (rule ccontr)
    let ?i = "usipy_method_db_lookup tp"
    assume nz: "?i \<noteq> 0"
    have i: "ieq tp (usipy_method_db ! ?i)" by (rule lookup_ieq[OF refl nz])
    have "method_wordlist ! k < 12" if "k \<le> 13" for k
    proof -
      have "list_all (\<lambda>k. method_wordlist ! k < 12) [0..<14]" by code_simp
      then show ?thesis using that by (simp add: list_all_iff)
    qed
    then have "?i < 12" unfolding usipy_method_db_lookup_def Let_def by auto
    then show False using Nil nz i by (simp add: filter_empty_conv)
  qed
  then show ?thesis by (simp only: method_of_name_def Nil list.case)
next
  case (Cons i ks)
  then have "i \<in> set (filter (\<lambda>i. ieq tp (usipy_method_db ! i)) [1..<12])" by simp
  then have "i \<in> set [1..<12]" "ieq tp (usipy_method_db ! i)" by auto
  then have "usipy_method_db_lookup tp = i" by (rule lookup_of_ieq)
  then show ?thesis by (simp only: method_of_name_def Cons list.case)
qed

subsection \<open>Headers: what the lookup decides\<close>

text \<open>The verification of the name has no effect on the result.\<close>

lemma hdr_lookup_is_classify: "usipy_hdr_db_lookup hname = usipy_fp_classify hdr_pdata hname"
  by (cases "usipy_fp_classify hdr_pdata hname") (simp_all add: usipy_hdr_db_lookup_def Let_def)

lemma fp_sum_simps [simp]:
  "fp_sum m [] r = r"
  "fp_sum m (a # s) r = fp_sum m (drop 4 (a # s)) (r + ((load_le 4 (a # s) OR 0x20202020) XOR m))"
  by (simp_all add: fp_sum.simps[of m "[]"] fp_sum.simps[of m "a # s"] Let_def)

text \<open>The hash folds case: \<open>OR 0x20\<close> erases the bit that tells the two cases apart.\<close>

definition fold20 :: "nat \<Rightarrow> nat" where
  "fold20 b = b OR 32"

lemma fold20_lower: "b < 256 \<Longrightarrow> fold20 (byte_lower b) = fold20 b"
proof (cases "65 \<le> b \<and> b \<le> 90")
  case True
  then have "b OR 32 = byte_lower b" by (simp add: or_32_upper byte_lower_def)
  moreover have "(b OR 32) OR 32 = b OR (32 :: nat)" by (simp add: or.assoc)
  ultimately show ?thesis by (simp add: fold20_def)
qed (auto simp: fold20_def byte_lower_def)

lemma load_fold20:
  "(load_le 4 s :: uint32) OR 0x20202020 =
     of_nat (le_val (map (\<lambda>b. b OR 32) (map of_char (take 4 s) @ replicate (4 - length s) 0)))"
proof -
  let ?bs = "map of_char (take 4 s) @ replicate (4 - length s) (0 :: nat)"
  have pad: "le_val (bs @ replicate n 0) = le_val bs" for bs n
    by (induction bs) (simp_all, induction n, simp_all)
  have len: "length ?bs = 4" by simp
  have four: "4 = Suc (Suc (Suc (Suc 0)))" by simp
  have ok: "\<forall>b\<in>set ?bs. b < 256 \<and> (32 :: nat) < 256" by auto
  have "le_val (map (\<lambda>_. 32) ?bs) = le_val (replicate 4 32)"
    by (simp only: map_replicate_const len)
  also have "replicate 4 32 = [32, 32, 32, 32 :: nat]"
    by (simp only: four replicate_Suc replicate_0)
  also have "le_val \<dots> = 0x20202020" by simp
  finally have c: "le_val (map (\<lambda>_. 32) ?bs) = 0x20202020" .
  have "le_val (map (\<lambda>b. b OR 32) ?bs) = le_val ?bs OR 0x20202020"
    using le_val_map_or[of ?bs "\<lambda>b. b" "\<lambda>_. 32"] ok c by simp
  then show ?thesis
    by (simp add: load_le_def pad of_nat_or_eq)
qed

lemma fp_sum_ieq: "ieq s t \<Longrightarrow> fp_sum m s r = fp_sum m t r"
proof (induction m s r arbitrary: t rule: fp_sum.induct)
  case (1 m s r)
  have len: "length s = length t" using 1(2) by (rule ieq_length)
  have low: "map ascii_lower s = map ascii_lower t" using 1(2) by (simp add: ieq_def)
  have f: "map (\<lambda>b. b OR 32) (map of_char (take 4 u)) =
      map (\<lambda>c. fold20 (of_char c)) (take 4 (map ascii_lower u))" for u
    by (simp add: take_map of_char_ascii_lower fold20_lower) (simp add: fold20_def)
  have "map (\<lambda>b. b OR 32) (map of_char (take 4 s)) = map (\<lambda>b. b OR (32 :: nat)) (map of_char (take 4 t))"
    unfolding f low ..
  then have w: "(load_le 4 s :: uint32) OR 0x20202020 = load_le 4 t OR 0x20202020"
    unfolding load_fold20 by (simp add: len)
  have d: "ieq (drop 4 s) (drop 4 t)"
    using low by (simp add: ieq_def flip: drop_map)
  show ?case
  proof (cases "s = []")
    case False
    then have "t \<noteq> []" using len by auto
    then show ?thesis
      using 1(1)[OF False refl refl refl d] False w
      by (simp add: fp_sum.simps[of m s] fp_sum.simps[of m t] Let_def)
  qed (use len in simp)
qed

lemma classify_ieq: "ieq s t \<Longrightarrow> usipy_fp_classify fp s = usipy_fp_classify fp t"
  using fp_sum_ieq[of s t] ieq_length[of s t] unfolding usipy_fp_classify_def Let_def by simp

lemma upt_headers: "[1..<42] =
    [1, 2, 3, 4, 5, 6, 7, 8, 9, 10, 11, 12, 13, 14, 15, 16, 17, 18, 19, 20, 21, 22, 23, 24, 25, 26,
     27, 28, 29, 30, 31, 32, 33, 34, 35, 36, 37, 38, 39, 40, 41 :: nat]"
  by (simp add: upt_conv_Cons)

lemmas classify_eval = usipy_fp_classify_def hdr_pdata_def load_le_def drop_bit_eq_div Let_def

lemma classify_table:
  "list_all (\<lambda>i. usipy_fp_classify hdr_pdata (he_name (usipy_hdr_db_byid i)) = Some i) [1..<42]"
  unfolding upt_headers
  by (simp add: classify_eval usipy_hdr_db_byid_def usipy_hdr_db_def usipy_hdr_db_compact_def hdr_entr_def)

lemma hdr_lookup_known:
  assumes "1 \<le> i" "i \<le> USIPY_HF_max" "ieq hname (he_name (usipy_hdr_db_byid i))"
  shows "usipy_hdr_db_lookup hname = Some i"
  using classify_table classify_ieq[OF assms(3)] assms(1,2)
  by (simp add: hdr_lookup_is_classify list_all_iff)

lemma hdr_lookup_defined: "usipy_hdr_db_lookup hname \<noteq> None \<longleftrightarrow> length hname \<le> 32"
  by (auto simp: hdr_lookup_is_classify usipy_fp_classify_def Let_def)

end
