(* ===== verification/Usipy_Cseq.thy ===== *)
theory Usipy_Cseq
  imports Usipy_Heap Usipy_Append Usipy_Db
begin

text \<open>
  Components \<open>usipy_sip_hdr_cseq\<close> and \<open>usipy_sip_hdr_onetoken\<close>. A method is its index in the method
  table. \<open>%.*s\<close> stops at a null byte, which \<open>pct_s\<close> makes explicit.
\<close>

definition pct_s :: "string \<Rightarrow> string" where
  "pct_s s = takeWhile (\<lambda>c. c \<noteq> NUL) s"

record usipy_sip_hdr_cseq =
  cseq_onwire_method :: string
  cseq_val :: uint32
  cseq_method :: nat

definition usipy_sip_hdr_cseq_parse ::
  "usipy_msg_heap \<Rightarrow> string \<Rightarrow> usipy_sip_hdr_cseq option \<times> usipy_msg_heap" where
  "usipy_sip_hdr_cseq_parse mhp hvp =
     (case usipy_str_splitlws hvp of
        None \<Rightarrow> (None, mhp)
      | Some (s1, s2) \<Rightarrow>
     (case usipy_str_atoui_range s1 0 0xffffffff of
        None \<Rightarrow> (None, mhp)
      | Some r \<Rightarrow>
     (case usipy_msg_heap_alloc mhp 32 of
        (None, mhp) \<Rightarrow> (None, mhp)
      | (Some cseq, mhp) \<Rightarrow>
          (Some \<lparr>cseq_onwire_method = s2, cseq_val = r,
                 cseq_method = usipy_method_db_lookup s2\<rparr>, mhp))))"

definition usipy_sip_hdr_cseq_build :: "usipy_sip_hdr_cseq \<Rightarrow> nat \<Rightarrow> string option abortable" where
  "usipy_sip_hdr_cseq_build c len = do {
     dassert (cseq_method c \<noteq> USIPY_SIP_METHOD_generic);
     dassert (length (usipy_method_db ! cseq_method c) \<noteq> 0);
     Some (snprintf_at (dec (unat (cseq_val c)) @ '' '' @ pct_s (usipy_method_db ! cseq_method c)) len [])
   }"

definition usipy_sip_hdr_1token_parse :: "usipy_msg_heap \<Rightarrow> string \<Rightarrow> string" where
  "usipy_sip_hdr_1token_parse hp hvp = hvp"

definition usipy_sip_hdr_1token_build :: "string \<Rightarrow> nat \<Rightarrow> string option" where
  "usipy_sip_hdr_1token_build gen len = (if length gen > len then None else Some gen)"

subsection \<open>Correctness\<close>

definition cseq_of_string :: "string \<Rightarrow> usipy_sip_hdr_cseq option" where
  "cseq_of_string hvp = do {
     (s1, s2) \<leftarrow> usipy_str_splitlws hvp;
     r \<leftarrow> usipy_str_atoui_range s1 0 0xffffffff;
     Some \<lparr>cseq_onwire_method = s2, cseq_val = r, cseq_method = method_of_name s2\<rparr>
   }"

lemma cseq_parse_refines:
  assumes ok: "heap_ok mhp"
  shows "\<exists>mhp'. usipy_sip_hdr_cseq_parse mhp hvp =
      (Option.bind (cseq_of_string hvp)
        (\<lambda>c. if up8 (mark mhp) + 32 \<le> hsize mhp then Some c else None), mhp') \<and>
    extends mhp mhp'"
proof -
  have b: "unat (32 :: size_t) + 14 < 2 ^ 64" by simp
  have e: "extends mhp (snd (usipy_msg_heap_alloc mhp 32))" by (rule alloc_extends[OF ok b])
  have u: "up8 32 = 32" by (rule up8_dvd) simp
  show ?thesis
    using e extends_refl[OF ok] alloc_cases[OF ok b]
    by (auto simp: usipy_sip_hdr_cseq_parse_def cseq_of_string_def method_lookup_correct u
        split: option.splits prod.splits)
qed

definition method_known :: "nat \<Rightarrow> bool" where
  "method_known m \<longleftrightarrow> 1 \<le> m \<and> m \<le> USIPY_SIP_METHOD_max"

lemma method_of_name_self:
  assumes "method_known m"
  shows "method_of_name (usipy_method_db ! m) = m"
  using lookup_of_ieq[of m "usipy_method_db ! m"] assms
  by (simp add: method_known_def flip: method_lookup_correct)

lemma method_names_plain:
  "list_all (\<lambda>n. n \<noteq> [] \<and> list_all (\<lambda>c. c \<noteq> NUL \<and> \<not> USIPY_ISLWS c) n) (tl usipy_method_db)"
  by (simp add: usipy_method_db_def USIPY_ISLWS_def USIPY_ISWS_def)

lemma method_name_in: "method_known m \<Longrightarrow> usipy_method_db ! m \<in> set (tl usipy_method_db)"
proof -
  have "length usipy_method_db = 12" by (simp add: usipy_method_db_def)
  then show "method_known m \<Longrightarrow> usipy_method_db ! m \<in> set (tl usipy_method_db)"
    by (cases m) (auto simp: method_known_def nth_tl in_set_conv_nth intro!: exI[of _ "m - 1"])
qed

lemma method_name_plain:
  assumes "method_known m"
  shows "usipy_method_db ! m \<noteq> []" "pct_s (usipy_method_db ! m) = usipy_method_db ! m"
    "usipy_str_ltrm_b (usipy_method_db ! m) = usipy_method_db ! m"
proof -
  have p: "usipy_method_db ! m \<noteq> []"
    "\<forall>c\<in>set (usipy_method_db ! m). c \<noteq> NUL \<and> \<not> USIPY_ISLWS c"
    using method_names_plain method_name_in[OF assms] by (auto simp: list_all_iff)
  then show "usipy_method_db ! m \<noteq> []" by blast
  show "pct_s (usipy_method_db ! m) = usipy_method_db ! m"
    using p by (simp add: pct_s_def takeWhile_eq_all_conv)
  show "usipy_str_ltrm_b (usipy_method_db ! m) = usipy_method_db ! m"
    using p by (intro ltrm_b_id) simp
qed

text \<open>A CSeq that was built is read back, and building one for a known method never aborts.\<close>

lemma cseq_roundtrip:
  assumes "method_known m" "length (dec (unat v)) + 1 + length (usipy_method_db ! m) < len"
  shows "\<exists>s. usipy_sip_hdr_cseq_build \<lparr>cseq_onwire_method = x, cseq_val = v, cseq_method = m\<rparr> len =
      Some (Some s) \<and>
    cseq_of_string s = Some \<lparr>cseq_onwire_method = usipy_method_db ! m, cseq_val = v, cseq_method = m\<rparr>"
proof -
  note n = method_name_plain[OF assms(1)]
  let ?s = "dec (unat v) @ '' '' @ usipy_method_db ! m"
  have "\<forall>c\<in>set (dec (unat v)). \<not> USIPY_ISLWS c"
    using dec_digits[of "unat v"] by (auto simp: is_digit_def USIPY_ISLWS_def USIPY_ISWS_def)
  then have "usipy_str_splitlws ?s = Some (dec (unat v), usipy_method_db ! m)"
    using n(3) by (simp add: splitlws_append USIPY_ISLWS_def USIPY_ISWS_def)
  moreover have "unat v < 2 ^ LENGTH(32)" by (rule unsigned_less)
  then have "usipy_str_atoui_range (dec (unat v)) 0 0xffffffff = Some v"
    by (intro atoui_range_dec) (simp_all add: word_le_nat_alt)
  ultimately have "cseq_of_string ?s =
      Some \<lparr>cseq_onwire_method = usipy_method_db ! m, cseq_val = v, cseq_method = m\<rparr>"
    using method_of_name_self[OF assms(1)] by (simp add: cseq_of_string_def)
  moreover have "usipy_sip_hdr_cseq_build \<lparr>cseq_onwire_method = x, cseq_val = v, cseq_method = m\<rparr> len =
      Some (Some ?s)"
    using assms n by (auto simp: usipy_sip_hdr_cseq_build_def dassert_def snprintf_at_def method_known_def)
  ultimately show ?thesis by blast
qed

end
