(* ===== verification/Usipy_Auth.thy ===== *)
theory Usipy_Auth
  imports Usipy_Tvp Usipy_Cseq
begin

text \<open>
  Component \<open>usipy_sip_hdr_auth\<close> (\<open>src/usipy_sip_hdr_auth.c\<close>, \<open>usipy_sip_hdr_auth.h\<close>): the
  WWW-Authenticate and Proxy-Authenticate challenges.
\<close>

record usipy_sip_hdr_auth =
  au_scheme :: string
  au_realm :: string
  au_nonce :: string
  au_qop :: string
  au_algorithm :: string
  au_opaque :: string
  au_params :: "usipy_tvpair list"

definition AH_SIZEOF :: "nat \<Rightarrow> size_t" where
  "AH_SIZEOF nparams = 104 + 32 * of_nat nparams"

definition usipy_sip_hdr_auth_assign_known ::
  "usipy_sip_hdr_auth \<Rightarrow> string \<Rightarrow> string \<Rightarrow> usipy_sip_hdr_auth" where
  "usipy_sip_hdr_auth_assign_known ap name val =
     (if name = ''realm'' then ap\<lparr>au_realm := val\<rparr>
      else if name = ''nonce'' then ap\<lparr>au_nonce := val\<rparr>
      else if name = ''qop'' then ap\<lparr>au_qop := val\<rparr>
      else if name = ''algorithm'' then ap\<lparr>au_algorithm := val\<rparr>
      else if name = ''opaque'' then ap\<lparr>au_opaque := val\<rparr>
      else ap\<lparr>au_params := au_params ap @ [\<lparr>tv_token = name, tv_value = val\<rparr>]\<rparr>)"

function usipy_sip_hdr_auth_skip_delims :: "string \<Rightarrow> string" where
  "usipy_sip_hdr_auth_skip_delims sp =
     (if sp \<noteq> [] \<and> hd sp = CHR '','' then usipy_sip_hdr_auth_skip_delims (tl sp)
      else if sp \<noteq> [] \<and> USIPY_ISWS (hd sp)
        then usipy_sip_hdr_auth_skip_delims (usipy_str_trm_b sp)
      else sp)"
  by auto
termination
proof (relation "measure length", goal_cases)
  case (3 sp)
  then obtain c s where "sp = c # s" "USIPY_ISWS c" by (cases sp) auto
  then show ?case using length_dropWhile_le[of USIPY_ISWS s] by (simp add: trm_b_dropWhile)
qed simp_all

declare usipy_sip_hdr_auth_skip_delims.simps [simp del]

text \<open>The value and the parameter text after it.\<close>

definition usipy_sip_hdr_auth_parse_value :: "string \<Rightarrow> (string \<times> string) option" where
  "usipy_sip_hdr_auth_parse_value paramspace =
     (let paramspace = usipy_str_trm_b paramspace in
      if paramspace = [] then None
      else if hd paramspace = DQUOTE then
        (case usipy_str_split_elem_nlws (tl paramspace) DQUOTE of
           None \<Rightarrow> None
         | Some (val, paramspace) \<Rightarrow> Some (val, usipy_sip_hdr_auth_skip_delims paramspace))
      else
        let (val, paramspace) =
          (case usipy_str_split_elem paramspace CHR '','' of
             None \<Rightarrow> (paramspace, [])
           | Some (val, rest) \<Rightarrow> (val, rest)) in
        Some (usipy_str_trm_e val, usipy_sip_hdr_auth_skip_delims paramspace))"

lemma skip_delims_length: "length (usipy_sip_hdr_auth_skip_delims sp) \<le> length sp"
proof (induction sp rule: usipy_sip_hdr_auth_skip_delims.induct)
  case (1 sp)
  consider "sp \<noteq> []" "hd sp = CHR '',''" | "sp \<noteq> []" "hd sp \<noteq> CHR '',''" "USIPY_ISWS (hd sp)"
    | "usipy_sip_hdr_auth_skip_delims sp = sp"
    by (metis usipy_sip_hdr_auth_skip_delims.simps)
  then show ?case
  proof cases
    case 1
    then show ?thesis
      using \<open>sp \<noteq> [] \<and> hd sp = CHR '','' \<Longrightarrow> _\<close>
      by (subst usipy_sip_hdr_auth_skip_delims.simps) (cases sp; simp)
  next
    case 2
    have "length (usipy_str_trm_b sp) \<le> length sp"
      by (simp add: trm_b_dropWhile length_dropWhile_le)
    then show ?thesis
      using 2 1(2) by (subst usipy_sip_hdr_auth_skip_delims.simps) simp
  qed simp
qed

lemma auth_value_shorter:
  "usipy_sip_hdr_auth_parse_value ps = Some (val, rest) \<Longrightarrow> length rest \<le> length ps"
proof -
  assume v: "usipy_sip_hdr_auth_parse_value ps = Some (val, rest)"
  let ?p = "usipy_str_trm_b ps"
  have p: "length ?p \<le> length ps" by (simp add: trm_b_dropWhile length_dropWhile_le)
  obtain r where "rest = usipy_sip_hdr_auth_skip_delims r" "length r \<le> length ?p"
    using v
    by (auto simp: usipy_sip_hdr_auth_parse_value_def Let_def split_nlws_eq
        split: if_splits option.splits prod.splits dest!: split_length split_elem_length
        intro: le_trans)
  then show ?thesis using skip_delims_length[of r] p by simp
qed

text \<open>The loop of the parser. The result is \<open>None\<close> for \<open>goto rollback\<close>.\<close>

function auth_loop ::
  "string \<Rightarrow> usipy_sip_hdr_auth \<Rightarrow> usipy_msg_heap \<Rightarrow> usipy_msg_heap_cnt \<Rightarrow>
     (usipy_sip_hdr_auth option \<times> usipy_msg_heap \<times> usipy_msg_heap_cnt) abortable" where
  "auth_loop paramspace ap mhp cnt =
     (if paramspace = [] then Some (Some ap, mhp, cnt)
      else if usipy_sip_hdr_auth_skip_delims paramspace = [] then Some (Some ap, mhp, cnt)
      else
        (case usipy_str_split (usipy_sip_hdr_auth_skip_delims paramspace) CHR ''='' of
           None \<Rightarrow> Some (None, mhp, cnt)
         | Some (pname, pspace) \<Rightarrow>
             if usipy_str_trm_e pname = [] then Some (None, mhp, cnt)
             else
               (case usipy_sip_hdr_auth_parse_value pspace of
                  None \<Rightarrow> Some (None, mhp, cnt)
                | Some (pvalue, rest) \<Rightarrow>
                    Option.bind (usipy_msg_heap_aextend mhp (AH_SIZEOF (length (au_params ap) + 1)) cnt)
                      (\<lambda>(ok, mhp, cnt).
                         if \<not> ok then Some (None, mhp, cnt)
                         else auth_loop rest
                           (usipy_sip_hdr_auth_assign_known ap (usipy_str_trm_e pname) pvalue)
                           mhp cnt))))"
  by pat_completeness auto
termination
proof (relation "measure (\<lambda>(p, _). length p)", goal_cases)
  case (2 paramspace ap mhp cnt pair pname pspace pair2 pvalue rest)
  then show ?case
    using skip_delims_length[of paramspace] auth_value_shorter[of pspace pvalue rest]
      split_length[of "usipy_sip_hdr_auth_skip_delims paramspace" "CHR ''=''" pname pspace]
    by simp
qed simp

declare auth_loop.simps [simp del]

definition usipy_sip_hdr_auth_parse ::
  "usipy_msg_heap \<Rightarrow> string \<Rightarrow> (usipy_sip_hdr_auth option \<times> usipy_msg_heap) abortable" where
  "usipy_sip_hdr_auth_parse mhp hvp =
     (case usipy_msg_heap_alloc_cnt mhp (AH_SIZEOF 0) of
        (None, mhp) \<Rightarrow> Some (None, mhp)
      | (Some (auth, cnt), mhp) \<Rightarrow>
          (case usipy_str_splitlws hvp of
             None \<Rightarrow> hdr_rollback mhp cnt
           | Some (scheme, paramspace) \<Rightarrow>
               if usipy_str_trm_e scheme = [] then hdr_rollback mhp cnt
               else do {
                 (ap, mhp, cnt) \<leftarrow> auth_loop (usipy_str_trm_b paramspace)
                   \<lparr>au_scheme = usipy_str_trm_e scheme, au_realm = [], au_nonce = [], au_qop = [],
                    au_algorithm = [], au_opaque = [], au_params = []\<rparr> mhp cnt;
                 case ap of
                   None \<Rightarrow> hdr_rollback mhp cnt
                 | Some ap \<Rightarrow> Some (Some ap, mhp)
               }))"

subsection \<open>Building\<close>

text \<open>\<open>buf + off\<close> with its own offset \<open>poff\<close> is the parameter text \<open>pbuf\<close> of capacity \<open>len\<close>.\<close>

definition usipy_sip_hdr_auth_append_value ::
  "nat \<Rightarrow> string \<Rightarrow> string \<Rightarrow> bool \<Rightarrow> string \<Rightarrow> string option" where
  "usipy_sip_hdr_auth_append_value len name val quote pbuf = do {
     pbuf \<leftarrow> (if length pbuf \<noteq> 0 then snprintf_at '','' len pbuf else Some pbuf);
     (if quote then snprintf_at (pct_s name @ ''='' @ [DQUOTE] @ pct_s val @ [DQUOTE]) len pbuf
      else if length val \<noteq> 0 then snprintf_at (pct_s name @ ''='' @ pct_s val) len pbuf
      else snprintf_at (pct_s name) len pbuf)
   }"

fun auth_build_params :: "nat \<Rightarrow> usipy_tvpair list \<Rightarrow> string \<Rightarrow> string option" where
  "auth_build_params len [] pbuf = Some pbuf"
| "auth_build_params len (pp # ps) pbuf = do {
     let quote = (tv_value pp \<noteq> [] \<and>
       (memchr CHR '','' (tv_value pp) \<noteq> None \<or> memchr SP (tv_value pp) \<noteq> None));
     pbuf \<leftarrow> usipy_sip_hdr_auth_append_value len (tv_token pp) (tv_value pp) quote pbuf;
     auth_build_params len ps pbuf
   }"

definition usipy_sip_hdr_auth_build :: "usipy_sip_hdr_auth \<Rightarrow> nat \<Rightarrow> string option" where
  "usipy_sip_hdr_auth_build ap len = do {
     buf \<leftarrow> snprintf_at (pct_s (au_scheme ap)) len [];
     buf \<leftarrow> (if au_realm ap \<noteq> [] \<or> au_nonce ap \<noteq> [] \<or> au_qop ap \<noteq> [] \<or> au_algorithm ap \<noteq> [] \<or>
                au_opaque ap \<noteq> [] \<or> au_params ap \<noteq> []
             then (if length buf + 1 > len then None else Some (buf @ '' '')) else Some buf);
     let plen = len - length buf;
     pbuf \<leftarrow> (if au_realm ap \<noteq> []
              then usipy_sip_hdr_auth_append_value plen ''realm'' (au_realm ap) True [] else Some []);
     pbuf \<leftarrow> (if au_nonce ap \<noteq> []
              then usipy_sip_hdr_auth_append_value plen ''nonce'' (au_nonce ap) True pbuf else Some pbuf);
     pbuf \<leftarrow> (if au_qop ap \<noteq> []
              then usipy_sip_hdr_auth_append_value plen ''qop'' (au_qop ap)
                     (memchr CHR '','' (au_qop ap) \<noteq> None) pbuf else Some pbuf);
     pbuf \<leftarrow> (if au_algorithm ap \<noteq> []
              then usipy_sip_hdr_auth_append_value plen ''algorithm'' (au_algorithm ap) False pbuf
              else Some pbuf);
     pbuf \<leftarrow> (if au_opaque ap \<noteq> []
              then usipy_sip_hdr_auth_append_value plen ''opaque'' (au_opaque ap) True pbuf
              else Some pbuf);
     pbuf \<leftarrow> auth_build_params plen (au_params ap) pbuf;
     Some (buf @ pbuf)
   }"

text \<open>The builder stays inside its buffer.\<close>

interpretation auth_value: bounded_step "\<lambda>len. usipy_sip_hdr_auth_append_value len name val quote" for name val quote
  unfolding usipy_sip_hdr_auth_append_value_def by (intro step_intros)

lemma auth_params_step: "bounded_step (\<lambda>len. auth_build_params len ps)"
  by (induction ps) (auto intro: step_intros auth_value.bounded_step_axioms)

lemma auth_build_bounded:
  assumes "usipy_sip_hdr_auth_build ap len = Some b"
  shows "length b \<le> len"
proof -
  let ?step = "\<lambda>plen pbuf. do {
     pbuf \<leftarrow> (if au_realm ap \<noteq> []
              then usipy_sip_hdr_auth_append_value plen ''realm'' (au_realm ap) True pbuf else Some pbuf);
     pbuf \<leftarrow> (if au_nonce ap \<noteq> []
              then usipy_sip_hdr_auth_append_value plen ''nonce'' (au_nonce ap) True pbuf else Some pbuf);
     pbuf \<leftarrow> (if au_qop ap \<noteq> []
              then usipy_sip_hdr_auth_append_value plen ''qop'' (au_qop ap)
                     (memchr CHR '','' (au_qop ap) \<noteq> None) pbuf else Some pbuf);
     pbuf \<leftarrow> (if au_algorithm ap \<noteq> []
              then usipy_sip_hdr_auth_append_value plen ''algorithm'' (au_algorithm ap) False pbuf
              else Some pbuf);
     pbuf \<leftarrow> (if au_opaque ap \<noteq> []
              then usipy_sip_hdr_auth_append_value plen ''opaque'' (au_opaque ap) True pbuf
              else Some pbuf);
     auth_build_params plen (au_params ap) pbuf
   }"
  let ?pre = "do {
     buf \<leftarrow> snprintf_at (pct_s (au_scheme ap)) len [];
     (if au_realm ap \<noteq> [] \<or> au_nonce ap \<noteq> [] \<or> au_qop ap \<noteq> [] \<or> au_algorithm ap \<noteq> [] \<or>
         au_opaque ap \<noteq> [] \<or> au_params ap \<noteq> []
      then (if length buf + 1 > len then None else Some (buf @ '' '')) else Some buf)
   }"
  have st: "bounded_step ?step"
    by (intro step_intros auth_value.bounded_step_axioms auth_params_step)
  show ?thesis
  proof (rule step_tail[OF st])
    show "Option.bind ?pre (\<lambda>buf. Option.bind (?step (len - length buf) []) (\<lambda>pbuf. Some (buf @ pbuf))) = Some b"
      using assms unfolding usipy_sip_hdr_auth_build_def Let_def Option.bind_assoc .
  qed (auto simp: bind_eq_Some_conv build_simps split: if_splits)
qed

subsection \<open>The parser and its specification\<close>

function auth_fields :: "string \<Rightarrow> usipy_sip_hdr_auth \<Rightarrow> usipy_sip_hdr_auth option" where
  "auth_fields paramspace ap =
     (if usipy_sip_hdr_auth_skip_delims paramspace = [] then Some ap
      else
        (case usipy_str_split (usipy_sip_hdr_auth_skip_delims paramspace) CHR ''='' of
           None \<Rightarrow> None
         | Some (pname, pspace) \<Rightarrow>
             if usipy_str_trm_e pname = [] then None
             else
               (case usipy_sip_hdr_auth_parse_value pspace of
                  None \<Rightarrow> None
                | Some (pvalue, rest) \<Rightarrow>
                    auth_fields rest
                      (usipy_sip_hdr_auth_assign_known ap (usipy_str_trm_e pname) pvalue))))"
  by pat_completeness auto
termination
proof (relation "measure (\<lambda>(p, _). length p)", goal_cases)
  case (2 paramspace ap pair pname pspace pair2 pvalue rest)
  then show ?case
    using skip_delims_length[of paramspace] auth_value_shorter[of pspace pvalue rest]
      split_length[of "usipy_sip_hdr_auth_skip_delims paramspace" "CHR ''=''" pname pspace]
    by simp
qed simp

declare auth_fields.simps [simp del]

definition auth_of_string :: "string \<Rightarrow> usipy_sip_hdr_auth option" where
  "auth_of_string hvp = do {
     (scheme, ps) \<leftarrow> usipy_str_splitlws hvp;
     if usipy_str_trm_e scheme = [] then None
     else auth_fields (usipy_str_trm_b ps)
       \<lparr>au_scheme = usipy_str_trm_e scheme, au_realm = [], au_nonce = [], au_qop = [],
        au_algorithm = [], au_opaque = [], au_params = []\<rparr>
   }"

lemma unat_AH_SIZEOF: "n < 2 ^ 58 \<Longrightarrow> unat (AH_SIZEOF n) = 104 + 32 * n"
  unfolding AH_SIZEOF_def by (rule unat_struct_size) simp_all

lemma up8_AH: "up8 (104 + 32 * n) = 104 + 32 * n"
  by (rule up8_dvd) simp

lemma assign_known_params:
  "length (au_params (usipy_sip_hdr_auth_assign_known ap n v)) \<le> length (au_params ap) + 1"
  "length (au_params ap) \<le> length (au_params (usipy_sip_hdr_auth_assign_known ap n v))"
  by (simp_all add: usipy_sip_hdr_auth_assign_known_def)

text \<open>
  The loop never aborts: the assertion of the counted allocation holds at every extension, even
  though a known parameter extends the allocation and then stores nothing in it.
\<close>

lemma auth_loop_spec:
  assumes "cnt_ok base mhp cnt"
    "unat (cnt_alen cnt) \<le> 104 + 32 * (length (au_params ap) + 1)"
    "length (au_params ap) + length paramspace < 2 ^ 58"
  shows "\<exists>r mhp' cnt'. auth_loop paramspace ap mhp cnt = Some (r, mhp', cnt') \<and>
    cnt_ok base mhp' cnt' \<and> (r = None \<or> r = auth_fields paramspace ap) \<and>
    (r = None \<longrightarrow> auth_fields paramspace ap = None \<or>
       hsize base < up8 (mark base) + (104 + 32 * (length (au_params ap) + length paramspace)))"
  using assms
proof (induction paramspace ap mhp cnt rule: auth_loop.induct)
  case (1 paramspace ap mhp cnt)
  let ?sp = "usipy_sip_hdr_auth_skip_delims paramspace"
  show ?case
  proof (cases "?sp = []")
    case True
    then show ?thesis
      using 1(2) by (subst auth_loop.simps) (auto simp: auth_fields.simps[of paramspace])
  next
    case ne: False
    then have pne: "paramspace \<noteq> []" using skip_delims_length[of paramspace] by auto
    show ?thesis
    proof (cases "usipy_str_split ?sp CHR ''=''")
      case None
      then show ?thesis
        using 1(2) ne pne
        by (subst auth_loop.simps) (auto simp: auth_fields.simps[of paramspace])
    next
      case sp: (Some npair)
      obtain pname pspace where np: "npair = (pname, pspace)" by (cases npair)
      note sp = sp[unfolded np]
      show ?thesis
      proof (cases "usipy_str_trm_e pname = [] \<or> usipy_sip_hdr_auth_parse_value pspace = None")
        case True
        then show ?thesis
          using 1(2) ne pne sp
          by (subst auth_loop.simps) (auto simp: auth_fields.simps[of paramspace])
      next
        case False
        then obtain pvalue rest where v: "usipy_str_trm_e pname \<noteq> []"
          "usipy_sip_hdr_auth_parse_value pspace = Some (pvalue, rest)" by auto
        let ?n = "length (au_params ap) + 1"
        let ?ap = "usipy_sip_hdr_auth_assign_known ap (usipy_str_trm_e pname) pvalue"
        have short: "length rest < length paramspace"
          using skip_delims_length[of paramspace] auth_value_shorter[OF v(2)] split_length[OF sp]
          by simp
        have small: "?n < 2 ^ 58" using 1(4) pne by (cases paramspace) auto
        have u: "unat (AH_SIZEOF ?n) = 104 + 32 * ?n" by (rule unat_AH_SIZEOF[OF small])
        have b: "unat (AH_SIZEOF ?n) + 7 < 2 ^ 64" "unat (cnt_alen cnt) \<le> up8 (unat (AH_SIZEOF ?n))"
          using small 1(3) unfolding u up8_AH by simp_all
        obtain ok hp' cnt' where e: "usipy_msg_heap_aextend mhp (AH_SIZEOF ?n) cnt = Some (ok, hp', cnt')"
          "cnt_ok base hp' cnt'" "ok \<longleftrightarrow> up8 (mark base) + up8 (unat (AH_SIZEOF ?n)) \<le> hsize base"
          "ok \<Longrightarrow> unat (cnt_alen cnt') = up8 (unat (AH_SIZEOF ?n))"
          by (rule aextend_spec[OF 1(2) b]) (rule that; assumption)
        have fields: "auth_fields paramspace ap = auth_fields rest ?ap"
          using ne sp v by (subst auth_fields.simps) simp
        show ?thesis
        proof (cases ok)
          case False
          have "auth_loop paramspace ap mhp cnt = Some (None, hp', cnt')"
            using ne pne sp v e(1) False by (subst auth_loop.simps) simp
          moreover have "hsize base < up8 (mark base) + (104 + 32 * (length (au_params ap) + length paramspace))"
            using e(3) False pne unfolding u up8_AH by (cases paramspace) auto
          ultimately show ?thesis using e(2) by auto
        next
          case True
          have l: "auth_loop paramspace ap mhp cnt = auth_loop rest ?ap hp' cnt'"
            using ne pne sp v e(1) True by (subst auth_loop.simps) simp
          have a: "unat (cnt_alen cnt') = 104 + 32 * ?n"
            using e(4)[OF True] unfolding u up8_AH .
          note k = assign_known_params[of ap "usipy_str_trm_e pname" pvalue]
          have s: "length (au_params ?ap) + length rest \<le> length (au_params ap) + length paramspace"
            using k(1) short by linarith
          have p: "unat (cnt_alen cnt') \<le> 104 + 32 * (length (au_params ?ap) + 1)"
            "length (au_params ?ap) + length rest < 2 ^ 58"
            using a k(2) s 1(4) by simp_all
          obtain r m c where ih: "auth_loop rest ?ap hp' cnt' = Some (r, m, c)" "cnt_ok base m c"
            "r = None \<or> r = auth_fields rest ?ap"
            "r = None \<longrightarrow> auth_fields rest ?ap = None \<or>
              hsize base < up8 (mark base) + (104 + 32 * (length (au_params ?ap) + length rest))"
            using 1(1)[OF pne ne sp refl v(1) v(2) refl e(1) refl refl _ e(2) p] True by blast
          then show ?thesis
            using s unfolding l fields by (intro exI[of _ r] exI[of _ m] exI[of _ c]) auto
        qed
      qed
    qed
  qed
qed

lemma trm_b_length: "length (usipy_str_trm_b s) \<le> length s"
  by (simp add: trm_b_dropWhile length_dropWhile_le)

text \<open>
  The parser never aborts, keeps the heap well formed, and what it returns is the header of the
  specification; with room for the text of the value it returns it.
\<close>

lemma auth_parse_refines:
  assumes ok: "heap_ok mhp" and len: "length hvp < 2 ^ 56"
  shows "\<exists>r mhp'. usipy_sip_hdr_auth_parse mhp hvp = Some (r, mhp') \<and> extends mhp mhp' \<and>
    (r = None \<or> r = auth_of_string hvp) \<and>
    (up8 (mark mhp) + (104 + 32 * length hvp) \<le> hsize mhp \<longrightarrow> r = auth_of_string hvp)"
  using hdr_alloc_cases[OF ok unat_AH_SIZEOF[of 0, simplified], simplified]
proof (elim disjE exE conjE)
  assume "usipy_msg_heap_alloc_cnt mhp (AH_SIZEOF 0) = (None, mhp)" "hsize mhp < up8 (mark mhp) + 104"
  then show ?thesis
    using extends_refl[OF ok] by (auto simp: usipy_sip_hdr_auth_parse_def)
next
  fix r cnt mhp1
  assume al: "usipy_msg_heap_alloc_cnt mhp (AH_SIZEOF 0) = (Some (r, cnt), mhp1)"
    and c: "cnt_ok mhp mhp1 cnt" "unat (cnt_alen cnt) = 104"
  obtain rb where rb: "hdr_rollback mhp1 cnt = Some (None :: usipy_sip_hdr_auth option, rb)"
    "extends mhp rb"
    using hdr_rollback_spec[OF c(1)] by blast
  show ?thesis
  proof (cases "usipy_str_splitlws hvp")
    case None
    then show ?thesis using al rb by (simp add: usipy_sip_hdr_auth_parse_def auth_of_string_def)
  next
    case sl: (Some sp)
    obtain scheme ps where sp: "sp = (scheme, ps)" by (cases sp)
    let ?ap = "\<lparr>au_scheme = usipy_str_trm_e scheme, au_realm = [], au_nonce = [], au_qop = [],
        au_algorithm = [], au_opaque = [], au_params = []\<rparr>"
    have lp: "length (usipy_str_trm_b ps) \<le> length hvp"
      using splitlws_length[OF sl[unfolded sp]] trm_b_length[of ps] by linarith
    show ?thesis
    proof (cases "usipy_str_trm_e scheme = []")
      case True
      then show ?thesis
        using al rb sl sp by (simp add: usipy_sip_hdr_auth_parse_def auth_of_string_def)
    next
      case False
      have spec: "auth_of_string hvp = auth_fields (usipy_str_trm_b ps) ?ap"
        using sl sp False by (simp add: auth_of_string_def)
      obtain q m1 c1 where l: "auth_loop (usipy_str_trm_b ps) ?ap mhp1 cnt = Some (q, m1, c1)"
        "cnt_ok mhp m1 c1" "q = None \<or> q = auth_of_string hvp"
        "q = None \<longrightarrow> auth_of_string hvp = None \<or>
          hsize mhp < up8 (mark mhp) + (104 + 32 * length (usipy_str_trm_b ps))"
        using auth_loop_spec[OF c(1), of ?ap "usipy_str_trm_b ps"] c(2) lp len
        unfolding spec by auto
      obtain r1 where r1: "hdr_rollback m1 c1 = Some (None :: usipy_sip_hdr_auth option, r1)"
        "extends mhp r1"
        using hdr_rollback_spec[OF l(2)] by blast
      have "extends mhp m1" using l(2) by (simp add: cnt_ok_def)
      moreover have parse: "usipy_sip_hdr_auth_parse mhp hvp =
          (case q of None \<Rightarrow> hdr_rollback m1 c1 | Some ap \<Rightarrow> Some (Some ap, m1))"
        using l(1) al sl sp False by (simp add: usipy_sip_hdr_auth_parse_def)
      moreover have "q = None \<Longrightarrow> up8 (mark mhp) + (104 + 32 * length hvp) \<le> hsize mhp \<Longrightarrow>
          auth_of_string hvp = None"
        using l(4) lp by auto
      moreover have "auth_of_string hvp = Some a" if "q = Some a" for a
        using l(3) that by auto
      ultimately show ?thesis
        using r1 by (cases q) auto
    qed
  qed
qed

end
