(* ===== verification/Usipy_Authz.thy ===== *)
theory Usipy_Authz
  imports Usipy_Auth
begin

text \<open>
  Component \<open>usipy_sip_hdr_authz\<close> (\<open>src/usipy_sip_hdr_authz.c\<close>, \<open>usipy_sip_hdr_authz.h\<close>): digest
  credentials in answer to a challenge, and the Authorization header. MD5 is a vendored library:
  \<open>md5\<close> stands for the 32 hex digits of the digest of a message. The clock is \<open>usec_now\<close>, the
  low 32 bits of the microsecond count, \<open>None\<close> when \<open>gettimeofday\<close> fails. A null \<open>bodyp\<close> or \<open>qopp\<close>
  is \<open>None\<close>.
\<close>

record usipy_sip_hdr_authz =
  az_scheme :: string
  az_username :: string
  az_realm :: string
  az_nonce :: string
  az_uri :: string
  az_response :: string
  az_qop :: string
  az_nc :: string
  az_cnonce :: string
  az_algorithm :: string
  az_opaque :: string

text \<open>\<open>strncasecmp\<close> over \<open>n\<close> bytes, zero for equal: it stops at a null byte.\<close>

definition strncasecmp_eq :: "string \<Rightarrow> string \<Rightarrow> nat \<Rightarrow> bool" where
  "strncasecmp_eq s t n \<longleftrightarrow> ieq (pct_s (take n s)) (pct_s (take n t))"

definition usipy_sip_hdr_authz_ci_equal :: "string \<Rightarrow> string \<Rightarrow> bool" where
  "usipy_sip_hdr_authz_ci_equal sp cp \<longleftrightarrow> length sp = length cp \<and> strncasecmp_eq sp cp (length sp)"

text \<open>The message hashed: the parts joined by colons.\<close>

fun md5_message :: "string list \<Rightarrow> string" where
  "md5_message [] = []"
| "md5_message [p] = p"
| "md5_message (p # q # ps) = p @ '':'' @ md5_message (q # ps)"

definition usipy_sip_hdr_authz_md5_hex :: "(string \<Rightarrow> string) \<Rightarrow> string list \<Rightarrow> string" where
  "usipy_sip_hdr_authz_md5_hex md5 parts = md5 (md5_message parts)"

function usipy_sip_hdr_authz_supported_qop :: "string \<Rightarrow> string \<Rightarrow> bool" where
  "usipy_sip_hdr_authz_supported_qop work qop =
     (if work = [] then False
      else
        let pair = (case usipy_str_split_elem work CHR '','' of
                      None \<Rightarrow> (work, []) | Some (token, rest) \<Rightarrow> (token, rest));
            token = usipy_str_trm_e (usipy_str_trm_b (fst pair)) in
        if length token = length qop \<and> strncasecmp_eq token qop (length token) then True
        else usipy_sip_hdr_authz_supported_qop (snd pair) qop)"
  by auto
termination
  by (relation "measure (\<lambda>(work, _). length work)")
     (auto dest: split_elem_length split: option.splits)

declare usipy_sip_hdr_authz_supported_qop.simps [simp del]

definition hex_digit :: "nat \<Rightarrow> char" where
  "hex_digit n = char_of (if n < 10 then 48 + n else 87 + n)"

definition hex8 :: "uint32 \<Rightarrow> string" where
  "hex8 w = map (\<lambda>i. hex_digit ((unat w div 16 ^ (7 - i)) mod 16)) [0, 1, 2, 3, 4, 5, 6, 7]"

definition usipy_sip_hdr_authz_gen_cnonce :: "uint32 option \<Rightarrow> string option" where
  "usipy_sip_hdr_authz_gen_cnonce usec_now = map_option hex8 usec_now"

definition usipy_sip_hdr_authz_append_value ::
  "nat \<Rightarrow> string \<Rightarrow> string \<Rightarrow> bool \<Rightarrow> string \<Rightarrow> string option" where
  "usipy_sip_hdr_authz_append_value len name val quote pbuf = do {
     pbuf \<leftarrow> (if length pbuf \<noteq> 0 then snprintf_at '','' len pbuf else Some pbuf);
     (if quote then snprintf_at (pct_s name @ ''='' @ [DQUOTE] @ pct_s val @ [DQUOTE]) len pbuf
      else snprintf_at (pct_s name @ ''='' @ pct_s val) len pbuf)
   }"

text \<open>\<open>sizeof(struct usipy_sip_hdr_authz)\<close> is 176; the copied strings follow it.\<close>

definition gen_auth_hf ::
  "(string \<Rightarrow> string) \<Rightarrow> uint32 option \<Rightarrow> usipy_msg_heap \<Rightarrow> usipy_sip_hdr_auth \<Rightarrow> string \<Rightarrow> string \<Rightarrow>
     string \<Rightarrow> string \<Rightarrow> string option \<Rightarrow> string option \<Rightarrow>
     usipy_sip_hdr_authz option \<times> usipy_msg_heap" where
  "gen_auth_hf md5 usec_now mhp ch username password meth uri bodyp qopp =
     (let hex = usipy_sip_hdr_authz_md5_hex md5;
          ci = usipy_sip_hdr_authz_ci_equal;
          sess = (au_algorithm ch \<noteq> [] \<and> ci (au_algorithm ch) ''MD5-sess'');
          qopin = (case qopp of None \<Rightarrow> [] | Some q \<Rightarrow> q) in
      if \<not> ci (au_scheme ch) ''Digest'' then (None, mhp)
      else if au_realm ch = [] \<or> au_nonce ch = [] then (None, mhp)
      else if au_algorithm ch \<noteq> [] \<and> \<not> ci (au_algorithm ch) ''MD5'' \<and>
              \<not> ci (au_algorithm ch) ''MD5-sess'' then (None, mhp)
      else if au_qop ch \<noteq> [] \<and>
              (qopin = [] \<or> \<not> usipy_sip_hdr_authz_supported_qop (au_qop ch) qopin) then (None, mhp)
      else if au_qop ch = [] \<and> qopin \<noteq> [] then (None, mhp)
      else
        let qop = (if au_qop ch \<noteq> [] then qopin else []);
            body = (case bodyp of None \<Rightarrow> [] | Some b \<Rightarrow> b);
            ha1 = hex [username, au_realm ch, password];
            cnonce = (if qop \<noteq> [] \<or> sess then usipy_sip_hdr_authz_gen_cnonce usec_now else Some []) in
        (case cnonce of
           None \<Rightarrow> (None, mhp)
         | Some cnonce \<Rightarrow>
             let ha1 = (if sess then hex [ha1, au_nonce ch, cnonce] else ha1);
                 ha2 = (if qop \<noteq> [] \<and> ci qop ''auth-int'' then hex [meth, uri, hex [body]]
                        else hex [meth, uri]);
                 response = (if qop \<noteq> []
                   then hex [ha1, au_nonce ch, ''00000001'', cnonce, qop, ha2]
                   else hex [ha1, au_nonce ch, ha2]);
                 slen = length username + length (au_realm ch) + length (au_nonce ch) + length uri + 32 +
                   length (au_algorithm ch) + length (au_opaque ch) +
                   (if qop \<noteq> [] then length qop + 8 + length cnonce else 0) in
             (case usipy_msg_heap_alloc mhp (of_nat (176 + slen)) of
                (None, mhp) \<Rightarrow> (None, mhp)
              | (Some azp, mhp) \<Rightarrow>
                  (Some \<lparr>az_scheme = ''Digest'', az_username = username, az_realm = au_realm ch,
                    az_nonce = au_nonce ch, az_uri = uri, az_response = response,
                    az_qop = qop,
                    az_nc = (if qop \<noteq> [] then ''00000001'' else []),
                    az_cnonce = (if qop \<noteq> [] then cnonce else []),
                    az_algorithm = au_algorithm ch, az_opaque = au_opaque ch\<rparr>, mhp))))"

definition usipy_sip_hdr_authz_build :: "usipy_sip_hdr_authz \<Rightarrow> nat \<Rightarrow> string option" where
  "usipy_sip_hdr_authz_build az len = do {
     buf \<leftarrow> usipy_strbuf_append_pair (az_scheme az) '' '' len [];
     let plen = len - length buf;
     pbuf \<leftarrow> usipy_sip_hdr_authz_append_value plen ''username'' (az_username az) True [];
     pbuf \<leftarrow> usipy_sip_hdr_authz_append_value plen ''realm'' (az_realm az) True pbuf;
     pbuf \<leftarrow> usipy_sip_hdr_authz_append_value plen ''nonce'' (az_nonce az) True pbuf;
     pbuf \<leftarrow> usipy_sip_hdr_authz_append_value plen ''uri'' (az_uri az) True pbuf;
     pbuf \<leftarrow> usipy_sip_hdr_authz_append_value plen ''response'' (az_response az) True pbuf;
     pbuf \<leftarrow> (if az_algorithm az \<noteq> []
              then usipy_sip_hdr_authz_append_value plen ''algorithm'' (az_algorithm az) False pbuf
              else Some pbuf);
     pbuf \<leftarrow> (if az_qop az \<noteq> []
              then do {
                pbuf \<leftarrow> usipy_sip_hdr_authz_append_value plen ''qop'' (az_qop az) False pbuf;
                pbuf \<leftarrow> usipy_sip_hdr_authz_append_value plen ''nc'' (az_nc az) False pbuf;
                usipy_sip_hdr_authz_append_value plen ''cnonce'' (az_cnonce az) True pbuf
              } else Some pbuf);
     pbuf \<leftarrow> (if az_opaque az \<noteq> []
              then usipy_sip_hdr_authz_append_value plen ''opaque'' (az_opaque az) True pbuf
              else Some pbuf);
     Some (buf @ pbuf)
   }"

text \<open>The builder stays inside its buffer.\<close>

interpretation authz_value: bounded_step "\<lambda>len. usipy_sip_hdr_authz_append_value len name val quote" for name val quote
  unfolding usipy_sip_hdr_authz_append_value_def by (intro step_intros)

lemma authz_build_bounded:
  assumes "usipy_sip_hdr_authz_build az len = Some b"
  shows "length b \<le> len"
proof -
  let ?step = "\<lambda>plen pbuf. do {
     pbuf \<leftarrow> usipy_sip_hdr_authz_append_value plen ''username'' (az_username az) True pbuf;
     pbuf \<leftarrow> usipy_sip_hdr_authz_append_value plen ''realm'' (az_realm az) True pbuf;
     pbuf \<leftarrow> usipy_sip_hdr_authz_append_value plen ''nonce'' (az_nonce az) True pbuf;
     pbuf \<leftarrow> usipy_sip_hdr_authz_append_value plen ''uri'' (az_uri az) True pbuf;
     pbuf \<leftarrow> usipy_sip_hdr_authz_append_value plen ''response'' (az_response az) True pbuf;
     pbuf \<leftarrow> (if az_algorithm az \<noteq> []
              then usipy_sip_hdr_authz_append_value plen ''algorithm'' (az_algorithm az) False pbuf
              else Some pbuf);
     pbuf \<leftarrow> (if az_qop az \<noteq> []
              then do {
                pbuf \<leftarrow> usipy_sip_hdr_authz_append_value plen ''qop'' (az_qop az) False pbuf;
                pbuf \<leftarrow> usipy_sip_hdr_authz_append_value plen ''nc'' (az_nc az) False pbuf;
                usipy_sip_hdr_authz_append_value plen ''cnonce'' (az_cnonce az) True pbuf
              } else Some pbuf);
     (if az_opaque az \<noteq> []
              then usipy_sip_hdr_authz_append_value plen ''opaque'' (az_opaque az) True pbuf
              else Some pbuf)
   }"
  let ?pre = "usipy_strbuf_append_pair (az_scheme az) '' '' len []"
  have st: "bounded_step ?step"
    by (intro step_intros authz_value.bounded_step_axioms)
  show ?thesis
  proof (rule step_tail[OF st])
    show "Option.bind ?pre (\<lambda>buf. Option.bind (?step (len - length buf) []) (\<lambda>pbuf. Some (buf @ pbuf))) = Some b"
      using assms unfolding usipy_sip_hdr_authz_build_def Let_def Option.bind_assoc .
  qed (auto simp: bind_eq_Some_conv build_simps)
qed

subsection \<open>The digest of RFC 2617\<close>

text \<open>
  Section 3.2.2 of the RFC, written after its own equations: the hash \<open>H\<close>, the keyed digest \<open>KD\<close>,
  \<open>A1\<close> per algorithm and \<open>A2\<close> per quality of protection.
\<close>

definition rfc_KD :: "(string \<Rightarrow> string) \<Rightarrow> string \<Rightarrow> string \<Rightarrow> string" where
  "rfc_KD H secret dat = H (secret @ '':'' @ dat)"

definition rfc_A1 :: "(string \<Rightarrow> string) \<Rightarrow> bool \<Rightarrow> string \<Rightarrow> string \<Rightarrow> string \<Rightarrow> string \<Rightarrow> string \<Rightarrow> string" where
  "rfc_A1 H sess user realm passwd nonce cnonce =
     (let base = user @ '':'' @ realm @ '':'' @ passwd in
      if sess then H base @ '':'' @ nonce @ '':'' @ cnonce else base)"

definition rfc_A2 :: "(string \<Rightarrow> string) \<Rightarrow> bool \<Rightarrow> string \<Rightarrow> string \<Rightarrow> string \<Rightarrow> string" where
  "rfc_A2 H authint meth uri body =
     meth @ '':'' @ uri @ (if authint then '':'' @ H body else [])"

definition rfc_response ::
  "(string \<Rightarrow> string) \<Rightarrow> string option \<Rightarrow> string \<Rightarrow> string \<Rightarrow> string \<Rightarrow> string \<Rightarrow> string \<Rightarrow> string" where
  "rfc_response H qop A1 nonce nc cnonce A2 =
     (case qop of
        None \<Rightarrow> rfc_KD H (H A1) (nonce @ '':'' @ H A2)
      | Some q \<Rightarrow> rfc_KD H (H A1) (nonce @ '':'' @ nc @ '':'' @ cnonce @ '':'' @ q @ '':'' @ H A2))"

lemma gen_auth_response:
  assumes "gen_auth_hf md5 usec mhp ch user passwd meth uri bodyp qopp = (Some az, mhp')"
  shows "az_response az =
      rfc_response md5 (if az_qop az = [] then None else Some (az_qop az))
        (rfc_A1 md5 (usipy_sip_hdr_authz_ci_equal (au_algorithm ch) ''MD5-sess'') user (au_realm ch)
          passwd (au_nonce ch) (case usec of None \<Rightarrow> [] | Some u \<Rightarrow> hex8 u))
        (au_nonce ch) ''00000001'' (az_cnonce az)
        (rfc_A2 md5 (usipy_sip_hdr_authz_ci_equal (az_qop az) ''auth-int'') meth uri
          (case bodyp of None \<Rightarrow> [] | Some b \<Rightarrow> b))"
proof -
  have e: "\<not> usipy_sip_hdr_authz_ci_equal [] ''auth-int''"
    "\<not> usipy_sip_hdr_authz_ci_equal [] ''MD5-sess''"
    by (simp_all add: usipy_sip_hdr_authz_ci_equal_def)
  show ?thesis
    using assms
    unfolding gen_auth_hf_def Let_def usipy_sip_hdr_authz_md5_hex_def
      rfc_response_def rfc_KD_def rfc_A1_def rfc_A2_def usipy_sip_hdr_authz_gen_cnonce_def
    by (cases "au_qop ch = []"; cases usec; cases "usipy_sip_hdr_authz_ci_equal (au_algorithm ch) ''MD5-sess''")
       (auto simp: e split: if_splits option.splits prod.splits)
qed

end
