(* ===== verification/Usipy_Hdr.thy ===== *)
theory Usipy_Hdr
  imports Usipy_Via Usipy_Nameaddr Usipy_Authz
begin

text \<open>
  Component \<open>usipy_sip_hdr\<close> (\<open>src/usipy_sip_hdr.c\<close>, \<open>usipy_sip_hdr.h\<close>): a header of a message, its
  first-pass parsing into name and values, and the dispatch over the codecs of the header table.
\<close>

text \<open>
  The union of the parsed forms; the null pointer is \<open>P_null\<close>. \<open>P_raw\<close> is the generic member under a
  copy of the header's table entry that has no builder, as the request builder makes for a raw value.
\<close>

datatype usipy_sip_hdr_parsed =
    P_null
  | P_via usipy_sip_hdr_via
  | P_cseq usipy_sip_hdr_cseq
  | P_auth usipy_sip_hdr_auth
  | P_authz usipy_sip_hdr_authz
  | P_nameaddr usipy_sip_hdr_nameaddr
  | P_generic string
  | P_raw string

record usipy_sip_hdr =
  h_full :: string
  h_name :: string
  h_value :: string
  h_onwire_hf :: nat
  h_hf_type :: nat
  h_parsed :: usipy_sip_hdr_parsed

definition hdr_zero :: usipy_sip_hdr where
  "hdr_zero = \<lparr>h_full = [], h_name = [], h_value = [], h_onwire_hf = 0, h_hf_type = 0,
     h_parsed = P_null\<rparr>"

text \<open>
  The comma loop of \<open>usipy_sip_hdr_preparse\<close>. \<open>hdr\<close> is the header under the pointer, \<open>csp\<close> the rest
  of the list and \<open>room\<close> the number of whole headers from it to the end of the message block.
  The result lists the headers written, the last one not yet trimmed; \<open>None\<close> is \<open>return (-1)\<close>.
\<close>

function preparse_csl :: "usipy_sip_hdr \<Rightarrow> string \<Rightarrow> nat \<Rightarrow> usipy_sip_hdr list option" where
  "preparse_csl hdr csp room =
     (if csp = [] then Some [hdr]
      else
        (case usipy_str_split csp CHR '','' of
           None \<Rightarrow> Some [hdr]
         | Some (val, rest) \<Rightarrow>
             if 2 > room then None
             else
               map_option (\<lambda>hs. hdr\<lparr>h_value := usipy_str_ltrm_e (usipy_str_ltrm_b val)\<rparr> # hs)
                 (preparse_csl (hdr_zero\<lparr>h_hf_type := h_hf_type hdr, h_value := rest,
                    h_onwire_hf := h_onwire_hf hdr, h_name := h_name hdr\<rparr>) rest (room - 1))))"
  by pat_completeness auto
termination
  by (relation "measure (\<lambda>(_, csp, _). length csp)") (auto dest: split_length)

declare preparse_csl.simps [simp del]

definition trim_last :: "usipy_sip_hdr list \<Rightarrow> usipy_sip_hdr list" where
  "trim_last hs = butlast hs @
     [(last hs)\<lparr>h_value := usipy_str_ltrm_e (usipy_str_ltrm_b (h_value (last hs)))\<rparr>]"

text \<open>
  The outer option is the undefined shift in the hash of a long name, the inner one the \<open>-1\<close> of the
  code; the number of extra headers is one less than the length of the list.
\<close>

definition usipy_sip_hdr_preparse ::
  "usipy_sip_hdr \<Rightarrow> nat \<Rightarrow> usipy_sip_hdr list option abortable" where
  "usipy_sip_hdr_preparse shp room =
     (case usipy_str_split (h_full shp) CHR '':'' of
        None \<Rightarrow> Some None
      | Some (name, val) \<Rightarrow> do {
          let name = usipy_str_trm_e name;
          hde \<leftarrow> usipy_hdr_db_lookup name;
          let hf = (if \<not> usipy_hdr_iscmpct hde then hde else he_cantype (usipy_hdr_db_byid hde));
          let shp = shp\<lparr>h_name := name, h_value := val, h_onwire_hf := hde, h_hf_type := hf\<rparr>;
          Some (map_option trim_last
            (if he_csl_allowed (usipy_hdr_db_byid hde) then preparse_csl shp val room
             else Some [shp]))
        })"

text \<open>
  \<open>shp->hf_type->parse(&mp->heap, &shp->onwire.value)\<close>. \<open>stk\<close> is the uninitialised variable of the
  Via parser. The caller has checked that there is a parse function.
\<close>

definition hdr_parse ::
  "string \<Rightarrow> usipy_sip_hdr_parse_f \<Rightarrow> usipy_msg_heap \<Rightarrow> string \<Rightarrow>
     (usipy_sip_hdr_parsed \<times> usipy_msg_heap) abortable" where
  "hdr_parse stk f mhp val =
     (case f of
        No_parse \<Rightarrow> None
      | Parse_1token \<Rightarrow> Some (P_generic (usipy_sip_hdr_1token_parse mhp val), mhp)
      | Parse_nameaddr \<Rightarrow> do {
          (r, mhp) \<leftarrow> usipy_sip_hdr_nameaddr_parse mhp val;
          Some (case r of None \<Rightarrow> P_null | Some n \<Rightarrow> P_nameaddr n, mhp)
        }
      | Parse_auth \<Rightarrow> do {
          (r, mhp) \<leftarrow> usipy_sip_hdr_auth_parse mhp val;
          Some (case r of None \<Rightarrow> P_null | Some a \<Rightarrow> P_auth a, mhp)
        }
      | Parse_via \<Rightarrow> do {
          (r, mhp) \<leftarrow> usipy_sip_hdr_via_parse stk mhp val;
          Some (case r of None \<Rightarrow> P_null | Some v \<Rightarrow> P_via v, mhp)
        }
      | Parse_cseq \<Rightarrow>
          (case usipy_sip_hdr_cseq_parse mhp val of
             (r, mhp) \<Rightarrow> Some (case r of None \<Rightarrow> P_null | Some c \<Rightarrow> P_cseq c, mhp)))"

text \<open>
  \<open>shp->hf_type->build\<close>, or the one-token builder when the entry has none. Reading the wrong
  member of the union, or a null one, is \<open>None\<close>.
\<close>

definition hdr_build_value ::
  "usipy_sip_hdr_build_f \<Rightarrow> usipy_sip_hdr_parsed \<Rightarrow> nat \<Rightarrow> string option abortable" where
  "hdr_build_value f p len =
     (case (f, p) of
        (Build_1token, P_generic g) \<Rightarrow> Some (usipy_sip_hdr_1token_build g len)
      | (Build_nameaddr, P_nameaddr n) \<Rightarrow> Some (usipy_sip_hdr_nameaddr_build n len)
      | (Build_auth, P_auth a) \<Rightarrow> Some (usipy_sip_hdr_auth_build a len)
      | (Build_authz, P_authz a) \<Rightarrow> Some (usipy_sip_hdr_authz_build a len)
      | (Build_via, P_via v) \<Rightarrow> Some (usipy_sip_hdr_via_build v len)
      | (Build_cseq, P_cseq c) \<Rightarrow> usipy_sip_hdr_cseq_build c len
      | (No_build, P_generic g) \<Rightarrow> Some (usipy_sip_hdr_1token_build g len)
      | (_, P_raw g) \<Rightarrow> Some (usipy_sip_hdr_1token_build g len)
      | _ \<Rightarrow> None)"

subsection \<open>The values of a header\<close>

text \<open>The pieces of a text between its commas, the empty ones included.\<close>

fun split_on :: "char \<Rightarrow> string \<Rightarrow> string list" where
  "split_on d [] = [[]]"
| "split_on d (c # s) =
     (if c = d then [] # split_on d s
      else (case split_on d s of x # xs \<Rightarrow> (c # x) # xs | [] \<Rightarrow> [[c]]))"

definition trim_value :: "string \<Rightarrow> string" where
  "trim_value v = usipy_str_ltrm_e (usipy_str_ltrm_b v)"

text \<open>The headers of a list of values: the first is the header itself, the others are new.\<close>

definition value_headers :: "usipy_sip_hdr \<Rightarrow> string list \<Rightarrow> usipy_sip_hdr list" where
  "value_headers hdr vs =
     hdr\<lparr>h_value := trim_value (hd vs)\<rparr> #
     map (\<lambda>v. hdr_zero\<lparr>h_hf_type := h_hf_type hdr, h_value := trim_value v,
            h_onwire_hf := h_onwire_hf hdr, h_name := h_name hdr\<rparr>) (tl vs)"

lemma split_on_not_Nil [simp]: "split_on d s \<noteq> []"
  by (induction s) (auto split: list.splits)

lemma split_on_absent: "d \<notin> set s \<Longrightarrow> split_on d s = [s]"
  by (induction s) auto

lemma split_on_first: "d \<notin> set v \<Longrightarrow> split_on d (v @ d # rest) = v # split_on d rest"
  by (induction v) auto

lemma preparse_csl_not_Nil: "preparse_csl hdr csp room = Some hs \<Longrightarrow> hs \<noteq> []"
  by (subst (asm) preparse_csl.simps) (auto split: if_splits option.splits)

lemma trim_last_Cons: "hs \<noteq> [] \<Longrightarrow> trim_last (h # hs) = h # trim_last hs"
  by (simp add: trim_last_def)

lemma preparse_csl_spec:
  assumes "h_value hdr = csp"
  shows "map_option trim_last (preparse_csl hdr csp room) =
    (let vs = split_on CHR '','' csp in
     if 1 < length vs \<and> room < length vs then None else Some (value_headers hdr vs))"
  using assms
proof (induction hdr csp room rule: preparse_csl.induct)
  case (1 hdr csp room)
  show ?case
  proof (cases "usipy_str_split csp CHR '',''")
    case None
    then have "preparse_csl hdr csp room = Some [hdr]" by (subst preparse_csl.simps) simp
    then show ?thesis
      using None 1(2) by (simp add: split_None_iff split_on_absent trim_last_def value_headers_def trim_value_def)
  next
    case (Some vr)
    obtain v rest where vr: "vr = (v, rest)" by fastforce
    then have csp: "csp = v @ CHR '','' # rest" "CHR '','' \<notin> set v"
      using Some by (simp_all add: split_Some_iff)
    have vs: "split_on CHR '','' csp = v # split_on CHR '','' rest" by (simp add: csp split_on_first)
    let ?h = "hdr_zero\<lparr>h_hf_type := h_hf_type hdr, h_value := rest, h_onwire_hf := h_onwire_hf hdr,
      h_name := h_name hdr\<rparr>"
    have pre: "preparse_csl hdr csp room = (if 2 > room then None else
        map_option (\<lambda>hs. hdr\<lparr>h_value := usipy_str_ltrm_e (usipy_str_ltrm_b v)\<rparr> # hs)
          (preparse_csl ?h rest (room - 1)))"
      using Some vr csp by (subst preparse_csl.simps) simp
    obtain x xs where xs: "split_on CHR '','' rest = x # xs" by (metis neq_Nil_conv split_on_not_Nil)
    show ?thesis
    proof (cases "2 > room")
      case True
      then show ?thesis by (simp add: pre vs xs)
    next
      case False
      have ne: "csp \<noteq> []" by (simp add: csp)
      have IH: "map_option trim_last (preparse_csl ?h rest (room - 1)) =
          (if 1 < length (x # xs) \<and> room - 1 < length (x # xs) then None
           else Some (value_headers ?h (x # xs)))"
        using 1(1)[OF ne Some vr[symmetric] False] xs by (simp add: Let_def)
      show ?thesis
      proof (cases "preparse_csl ?h rest (room - 1)")
        case None
        then show ?thesis using IH False by (auto simp: pre vs xs split: if_splits)
      next
        case (Some hs)
        then have "trim_last hs = value_headers ?h (x # xs)" "\<not> (1 < length (x # xs) \<and> room - 1 < length (x # xs))"
          using IH by (auto split: if_splits)
        then show ?thesis
          using Some False preparse_csl_not_Nil[OF Some]
          by (auto simp: pre vs xs trim_last_Cons value_headers_def trim_value_def hdr_zero_def)
      qed
    qed
  qed
qed

text \<open>The first pass over a header, as one equation.\<close>

lemma preparse_spec:
  assumes "h_full shp = name @ CHR '':'' # val" "CHR '':'' \<notin> set name"
    and "usipy_hdr_db_lookup (usipy_str_trm_e name) = Some hde"
  shows "usipy_sip_hdr_preparse shp room = Some
    (let vs = (if he_csl_allowed (usipy_hdr_db_byid hde) then split_on CHR '','' val else [val]) in
     if 1 < length vs \<and> room < length vs then None
     else Some (value_headers (shp\<lparr>h_name := usipy_str_trm_e name, h_onwire_hf := hde,
        h_hf_type := (if usipy_hdr_iscmpct hde then he_cantype (usipy_hdr_db_byid hde) else hde)\<rparr>) vs))"
proof -
  let ?h = "shp\<lparr>h_name := usipy_str_trm_e name, h_value := val, h_onwire_hf := hde,
     h_hf_type := (if \<not> usipy_hdr_iscmpct hde then hde else he_cantype (usipy_hdr_db_byid hde))\<rparr>"
  have sp: "usipy_str_split (h_full shp) CHR '':'' = Some (name, val)"
    using assms(1,2) by (simp add: split_append)
  have "usipy_sip_hdr_preparse shp room = Some (map_option trim_last
      (if he_csl_allowed (usipy_hdr_db_byid hde) then preparse_csl ?h val room else Some [?h]))"
    by (simp add: usipy_sip_hdr_preparse_def sp assms(3) Let_def)
  then show ?thesis
    using preparse_csl_spec[of ?h val room]
    by (auto simp: value_headers_def trim_last_def trim_value_def Let_def)
qed

end
