(* ===== verification/Usipy_Crlf.thy ===== *)
theory Usipy_Crlf
  imports Usipy_Turbo
begin

unbundle bit_operations_syntax

text \<open>
  The line scanner of \<open>src/usipy_sip_msg.c\<close> (\<open>crlfcompr\<close>, \<open>usipy_sip_msg_break_down\<close>): it finds the
  CR LF pairs of a message a 64-bit word at a time, with the word of the line feeds of up to
  eight words kept as a bit set. Words are read little-endian. The scanner also copies the words
  into the message; the bytes it copies are the ones \<open>init_fromwire\<close> has put there already, so
  the copy is not modelled.
\<close>

definition BFILL :: "64 word \<Rightarrow> 64 word" where
  "BFILL c = ((NOT 0) div 255) * c"

text \<open>\<open>ffsl\<close>: one plus the index of the lowest set bit, zero for none.\<close>

fun ffs_from :: "nat \<Rightarrow> nat \<Rightarrow> 64 word \<Rightarrow> nat" where
  "ffs_from 0 i w = 0"
| "ffs_from (Suc n) i w = (if bit w i then i + 1 else ffs_from n (i + 1) w)"

definition ffsl :: "64 word \<Rightarrow> nat" where
  "ffsl w = ffs_from 64 0 w"

record crlfres =
  cr_v :: "8 word"
  cr_carry :: bool

text \<open>The extraction loop of \<open>crlfcompr\<close>: at most \<open>n\<close> rounds.\<close>

fun crlf_extract :: "nat \<Rightarrow> 64 word \<Rightarrow> 8 word \<Rightarrow> 8 word" where
  "crlf_extract 0 mvalA v = v"
| "crlf_extract (Suc n) mvalA v =
     (let nbit = ffsl mvalA in
      if nbit = 0 then v
      else crlf_extract n (mvalA XOR push_bit (nbit - 1) 1) (v OR push_bit (nbit div 8 - 1) 1))"

definition crlfcompr :: "64 word \<Rightarrow> bool \<Rightarrow> crlfres" where
  "crlfcompr cval carry =
     (let mskA = BFILL 13;
          mskB = BFILL 10;
          mvalA = cval XOR mskA;
          mvalB = cval XOR mskB;
          rcarry = (drop_bit 56 mvalA = 0);
          mvalA = ((push_bit 8 mvalA OR (if carry then 0 else 1)) OR mvalB);
          mvalA = ((mvalA - BFILL 1) AND NOT mvalA AND BFILL 0x80)
      in \<lparr>cr_v = crlf_extract 4 mvalA 0, cr_carry = rcarry\<rparr>)"

record usipy_sip_msg_iterator =
  mi_onwire :: string
  mi_i :: nat
  mi_carry :: bool
  mi_oword :: "64 word"
  mi_cshift :: nat

text \<open>\<open>gotresult\<close>\<close>

definition break_result :: "usipy_sip_msg_iterator \<Rightarrow> int \<times> usipy_sip_msg_iterator" where
  "break_result mip =
     (let boff = ffsl (mi_oword mip) - 1 in
      (int (mi_i mip) - 64 + int boff - 1,
       mip\<lparr>mi_oword := mi_oword mip XOR push_bit boff 1\<rparr>))"

text \<open>
  The loop; the flag carried in \<open>ms\<close> is an argument. Its result is the state at \<open>gotresult\<close> or
  at the end of the message.
\<close>

function break_loop ::
  "usipy_sip_msg_iterator \<Rightarrow> bool \<Rightarrow> bool \<times> usipy_sip_msg_iterator" where
  "break_loop mip carry =
     (if \<not> mi_i mip < length (mi_onwire mip) then (False, mip)
      else
        let val = load_le 8 (drop (mi_i mip) (mi_onwire mip));
            ms = crlfcompr val carry;
            ow = (if cr_v ms \<noteq> 0
                  then mi_oword mip OR push_bit (mi_cshift mip) (ucast (cr_v ms)) else mi_oword mip) in
        if mi_cshift mip = 56 then
          if ow \<noteq> 0 then
            (True, mip\<lparr>mi_cshift := 0, mi_oword := ow, mi_i := mi_i mip + 8, mi_carry := cr_carry ms\<rparr>)
          else break_loop (mip\<lparr>mi_cshift := 0, mi_oword := ow, mi_i := mi_i mip + 8\<rparr>) (cr_carry ms)
        else break_loop (mip\<lparr>mi_cshift := mi_cshift mip + 8, mi_oword := ow, mi_i := mi_i mip + 8\<rparr>)
               (cr_carry ms))"
  by pat_completeness auto
termination
  by (relation "measure (\<lambda>(mip, _). length (mi_onwire mip) - mi_i mip)") auto

declare break_loop.simps [simp del]

text \<open>The result is the offset of the next CR LF, or \<open>-1\<close>.\<close>

definition usipy_sip_msg_break_down ::
  "usipy_sip_msg_iterator \<Rightarrow> int \<times> usipy_sip_msg_iterator" where
  "usipy_sip_msg_break_down mip =
     (if mi_cshift mip = 0 \<and> mi_oword mip \<noteq> 0 then break_result mip
      else
        (case break_loop mip (mi_carry mip) of
           (True, mip) \<Rightarrow> break_result mip
         | (False, mip) \<Rightarrow>
             if mi_cshift mip \<noteq> 0 \<and> mi_oword mip \<noteq> 0
             then break_result (mip\<lparr>mi_i := mi_i mip + (64 - mi_cshift mip), mi_cshift := 0\<rparr>)
             else (- 1, mip)))"

definition break_init :: "string \<Rightarrow> usipy_sip_msg_iterator" where
  "break_init buf =
     \<lparr>mi_onwire = buf, mi_i = 0, mi_carry = False, mi_oword = 0, mi_cshift = 0\<rparr>"

subsection \<open>The word trick finds the line ends\<close>

text \<open>The line feeds of a text that follow a carriage return; \<open>cy\<close> is one before the text.\<close>

definition lf_at :: "bool \<Rightarrow> string \<Rightarrow> nat \<Rightarrow> bool" where
  "lf_at cy s q \<longleftrightarrow> q < length s \<and> s ! q = LF \<and> (if q = 0 then cy else s ! (q - 1) = CR)"

text \<open>Subtracting one from every byte, with the borrow running upwards.\<close>

fun sub_ones :: "nat \<Rightarrow> nat list \<Rightarrow> nat list" where
  "sub_ones b [] = []"
| "sub_ones b (x # xs) =
     (if x < 1 + b then (x + 256 - (1 + b)) # sub_ones 1 xs else (x - (1 + b)) # sub_ones 0 xs)"

lemma length_sub_ones [simp]: "length (sub_ones b xs) = length xs"
  by (induction xs arbitrary: b) auto

lemma sub_ones_ok: "bytes_ok xs \<Longrightarrow> b \<le> 1 \<Longrightarrow> bytes_ok (sub_ones b xs)"
  by (induction xs arbitrary: b) auto

lemma sub_ones_val:
  assumes "bytes_ok xs" "b \<le> 1"
  shows "\<exists>c\<le>1. le_val (sub_ones b xs) + le_val (map (\<lambda>_. 1) xs) + b = le_val xs + c * 256 ^ length xs"
  using assms
proof (induction xs arbitrary: b)
  case (Cons x xs)
  let ?b' = "if x < 1 + b then 1 else 0 :: nat"
  obtain c where c: "c \<le> 1"
    "le_val (sub_ones ?b' xs) + le_val (map (\<lambda>_. 1) xs) + ?b' = le_val xs + c * 256 ^ length xs"
    using Cons.IH[of ?b'] Cons.prems by (fastforce split: if_splits)
  have x: "x < 256" "b \<le> 1" using Cons.prems by auto
  have "le_val (sub_ones b (x # xs)) + le_val (map (\<lambda>_. 1) (x # xs)) + b =
      x + 256 * (le_val (sub_ones ?b' xs) + le_val (map (\<lambda>_. 1) xs) + ?b')"
    using x by (auto simp: algebra_simps)
  also have "\<dots> = x + 256 * (le_val xs + c * 256 ^ length xs)" by (simp only: c(2))
  also have "\<dots> = le_val (x # xs) + c * 256 ^ length (x # xs)" by simp
  finally show ?case using c(1) by blast
qed auto

lemma sub_ones_marks:
  assumes "bytes_ok xs" "b \<le> 1"
    and "\<forall>i. i + 1 < length xs \<longrightarrow> xs ! i = 0 \<longrightarrow> 2 \<le> xs ! (i + 1)"
    and "b = 1 \<longrightarrow> xs \<noteq> [] \<longrightarrow> 2 \<le> hd xs"
  shows "map2 (\<lambda>s x. s AND (255 - x) AND 128) (sub_ones b xs) xs = map (\<lambda>x. if x = 0 then 128 else 0) xs"
  using assms
proof (induction xs arbitrary: b)
  case (Cons x xs)
  have safe: "\<forall>i. i + 1 < length xs \<longrightarrow> xs ! i = 0 \<longrightarrow> 2 \<le> xs ! (i + 1)"
    using Cons.prems(3) by (metis Suc_eq_plus1 Suc_less_eq length_Cons nth_Cons_Suc)
  have nxt: "x = 0 \<Longrightarrow> xs \<noteq> [] \<Longrightarrow> 2 \<le> hd xs"
    using Cons.prems(3)[rule_format, of 0] by (cases xs) auto
  have x: "x < 256" "bytes_ok xs" using Cons.prems(1) by auto
  show ?case
  proof (cases "x = 0")
    case True
    then have b: "b = 0" using Cons.prems by auto
    then show ?thesis using True Cons.IH[of 1] x safe nxt by simp
  next
    case False
    have nb: "\<not> x < 1 + b" using False Cons.prems by auto
    have m: "(x - (1 + b)) AND (255 - x) AND 128 = 0"
    proof (cases "128 \<le> x")
      case True
      then show ?thesis using x by (simp add: and_128 bit_7_iff)
    next
      case False
      then have "\<not> bit (x - (1 + b)) 7" using x by (subst bit_7_iff) auto
      then show ?thesis by (simp add: and_128 bit_and_iff)
    qed
    show ?thesis using False nb m Cons.IH[of 0] x safe by simp
  qed
qed simp

text \<open>The words the scanner handles, as lists of their bytes.\<close>

definition wd :: "nat list \<Rightarrow> 64 word" where
  "wd bs = of_nat (le_val bs)"

lemma unat_wd: "length bs = 8 \<Longrightarrow> bytes_ok bs \<Longrightarrow> unat (wd bs) = le_val bs"
  using le_val_less[of bs] by (simp add: wd_def unat_of_nat)

lemma xor_byte: "b < (256 :: nat) \<Longrightarrow> c < 256 \<Longrightarrow> b XOR c < 256"
  by (simp add: byte_bound_iff)

lemma xor_byte_cons:
  fixes b c x y :: nat
  assumes "b < 256" "c < 256"
  shows "(b + 256 * x) XOR (c + 256 * y) = (b XOR c) + 256 * (x XOR y)"
  using assms by (intro bit_eqI) (simp add: bit_byte_cons xor_byte bit_xor_iff)

lemma le_val_xor:
  "length as = length bs \<Longrightarrow> bytes_ok as \<Longrightarrow> bytes_ok bs \<Longrightarrow>
     le_val as XOR le_val bs = le_val (map2 (XOR) as bs)"
  by (induction as bs rule: list_induct2) (simp_all add: xor_byte_cons)

lemma wd_xor:
  "length as = length bs \<Longrightarrow> bytes_ok as \<Longrightarrow> bytes_ok bs \<Longrightarrow> wd as XOR wd bs = wd (map2 (XOR) as bs)"
  by (simp add: wd_def of_nat_xor_eq flip: le_val_xor)

lemma wd_and:
  "length as = length bs \<Longrightarrow> bytes_ok as \<Longrightarrow> bytes_ok bs \<Longrightarrow> wd as AND wd bs = wd (map2 (AND) as bs)"
  by (simp add: wd_def of_nat_and_eq flip: le_val_and)

lemma wd_or:
  "length as = length bs \<Longrightarrow> bytes_ok as \<Longrightarrow> bytes_ok bs \<Longrightarrow> wd as OR wd bs = wd (map2 (OR) as bs)"
  by (simp add: wd_def of_nat_or_eq flip: le_val_or)

lemma wd_not:
  "length bs = 8 \<Longrightarrow> bytes_ok bs \<Longrightarrow> NOT (wd bs) = wd (map (\<lambda>b. 255 - b) bs)"
  using not_bytes[of bs, where 'a=64] by (simp add: bw_def wd_def)

lemma word64_wraps: "(18446744073709551616 :: 64 word) = 0"
  by transfer simp

lemma BFILL_wd: "length (bs :: nat list) = 8 \<Longrightarrow> BFILL (of_nat c) = wd (map (\<lambda>_. c) bs)"
  using c01_bytes[of bs, where 'a=64] bw_mult[of bs c, where 'a=64]
  by (simp add: BFILL_def wd_def bw_def)

lemma wd_sub_ones:
  assumes "length bs = 8" "bytes_ok bs"
  shows "wd bs - BFILL 1 = wd (sub_ones 0 bs)"
proof -
  obtain c where c: "c \<le> 1"
    "le_val (sub_ones 0 bs) + le_val (map (\<lambda>_. 1) bs) + 0 = le_val bs + c * 256 ^ length bs"
    using sub_ones_val[OF assms(2), of 0] by auto
  then have "(of_nat (le_val (sub_ones 0 bs) + le_val (map (\<lambda>_. 1) bs)) :: 64 word) =
      of_nat (le_val bs + c * 256 ^ length bs)" by simp
  then have "wd (sub_ones 0 bs) + wd (map (\<lambda>_. 1) bs) = wd bs"
    using assms(1) by (simp add: wd_def word64_wraps)
  then show ?thesis using BFILL_wd[OF assms(1), of 1] by (simp add: algebra_simps)
qed

lemma wd_push:
  assumes "length bs = 8" "b < 256" "bytes_ok bs"
  shows "push_bit 8 (wd bs) OR wd [b] = wd (b # butlast bs)"
proof -
  have bl: "bs = butlast bs @ [last bs]" using assms by (cases bs rule: rev_cases) auto
  have app: "le_val (xs @ [x]) = le_val xs + x * 256 ^ length xs" for xs x
    by (induction xs) (simp_all add: algebra_simps)
  have "push_bit 8 (wd bs) = (of_nat (256 * le_val bs) :: 64 word)"
    by (simp add: push_bit_eq_mult wd_def mult.commute)
  also have "\<dots> = of_nat (256 * le_val (butlast bs))"
    using assms(1) by (subst bl, simp only: app) (simp add: algebra_simps word64_wraps)
  finally have "push_bit 8 (wd bs) = of_nat (256 * le_val (butlast bs))" .
  moreover have "(256 * le_val (butlast bs)) OR b = b + 256 * le_val (butlast bs)"
    using or_byte_cons[of 0 b "le_val (butlast bs)" 0] assms by simp
  ultimately show ?thesis
    by (simp add: wd_def of_nat_or_eq[symmetric] del: of_nat_mult of_nat_add)
qed

text \<open>The word whose zero bytes are the line feeds that follow a carriage return.\<close>

definition comb :: "bool \<Rightarrow> nat list \<Rightarrow> nat list" where
  "comb cy bs = map2 (OR) ((if cy then 0 else 1) # butlast (map2 (XOR) bs (map (\<lambda>_. 13) bs)))
     (map2 (XOR) bs (map (\<lambda>_. 10) bs))"

lemma nat_xor_eq_0_iff: "(a :: nat) XOR b = 0 \<longleftrightarrow> a = b"
  by (metis xor.assoc xor_self_eq xor.left_neutral xor.right_neutral)

lemma length_comb [simp]: "bs \<noteq> [] \<Longrightarrow> length (comb cy bs) = length bs"
  by (cases bs) (simp_all add: comb_def)

lemma comb_nth:
  assumes "k < length bs"
  shows "comb cy bs ! k =
    (if k = 0 then (if cy then 0 else 1) else bs ! (k - 1) XOR 13) OR (bs ! k XOR 10)"
  using assms by (cases k) (simp_all add: comb_def nth_butlast)

lemma comb_zero_iff:
  assumes "k < length bs"
  shows "comb cy bs ! k = 0 \<longleftrightarrow> bs ! k = 10 \<and> (if k = 0 then cy else bs ! (k - 1) = 13)"
  by (auto simp: comb_nth[OF assms] nat_xor_eq_0_iff or_eq_0_iff)

lemma comb_safe:
  assumes "k + 1 < length bs" "comb cy bs ! k = 0"
  shows "2 \<le> comb cy bs ! (k + 1)"
proof -
  have "bs ! k = 10" using assms comb_zero_iff[of k bs cy] by simp
  then have "bit (comb cy bs ! (k + 1)) 1"
    using assms by (simp add: comb_nth bit_or_iff)
  then show ?thesis
    by (metis One_nat_def bit_Suc bit_0 div_less even_zero less_2_cases not_le numeral_2_eq_2 bit_0_eq bot_apply bot_bool_def odd_one)
qed

lemma bit_le_val:
  "bytes_ok bs \<Longrightarrow> bit (le_val bs) n \<longleftrightarrow> n div 8 < length bs \<and> bit (bs ! (n div 8)) (n mod 8)"
proof (induction bs arbitrary: n)
  case (Cons b bs)
  show ?case
  proof (cases "n < 8")
    case False
    then have "n div 8 = Suc ((n - 8) div 8)" "(n - 8) mod 8 = n mod 8"
      by (simp_all add: le_div_geq le_mod_geq)
    then show ?thesis using False Cons by (simp add: bit_byte_cons)
  qed (use Cons in \<open>simp add: bit_byte_cons\<close>)
qed simp

lemma ffs_from_cases:
  "(ffs_from n i w = 0 \<and> (\<forall>j. i \<le> j \<and> j < i + n \<longrightarrow> \<not> bit w j)) \<or>
   (\<exists>b. ffs_from n i w = Suc b \<and> i \<le> b \<and> b < i + n \<and> bit w b \<and> (\<forall>j. i \<le> j \<and> j < b \<longrightarrow> \<not> bit w j))"
proof (induction n arbitrary: i)
  case (Suc n)
  show ?case
  proof (cases "bit w i")
    case False
    have step: "(\<forall>j. i \<le> j \<and> j < u \<longrightarrow> \<not> bit w j) \<longleftrightarrow> (\<forall>j. i + 1 \<le> j \<and> j < u \<longrightarrow> \<not> bit w j)" for u
      using False by (metis Suc_eq_plus1 Suc_leD le_antisym not_less_eq_eq)
    have bnd: "i + 1 + n = i + Suc n" "i + 1 \<le> b \<Longrightarrow> i \<le> b" for b by simp_all
    have "ffs_from (Suc n) i w = ffs_from n (i + 1) w" using False by simp
    then show ?thesis using Suc.IH[of "i + 1"] bnd unfolding step by metis
  qed auto
qed auto

lemma ffsl_cases:
  obtains (none) "w = 0" "ffsl w = 0"
  | (some) b where "w \<noteq> 0" "ffsl w = Suc b" "b < 64" "bit w b" "\<forall>j<b. \<not> bit w j"
proof -
  have "w = 0 \<longleftrightarrow> (\<forall>j<64. \<not> bit w j)"
    by (auto intro!: bit_word_eqI)
  then show ?thesis
    using ffs_from_cases[of 64 0 w] none some unfolding ffsl_def by auto
qed

lemma crlf_extract_bits:
  assumes "K \<subseteq> {..<8}" "card K \<le> n" "\<forall>i. bit m i \<longleftrightarrow> (\<exists>k\<in>K. i = 8 * k + 7)"
  shows "j < 8 \<Longrightarrow> bit (crlf_extract n m v) j \<longleftrightarrow> bit v j \<or> j \<in> K"
  using assms
proof (induction n arbitrary: K m v)
  case 0
  then have "finite K" using finite_subset by blast
  then show ?case using 0 by simp
next
  case (Suc n)
  have fin: "finite K" using Suc.prems finite_subset by blast
  show ?case
  proof (cases m rule: ffsl_cases)
    case none
    then have "K = {}" using Suc.prems(4) by (metis bit_0_eq bot_apply bot_bool_def ex_in_conv)
    then show ?thesis using none by (simp add: Let_def)
  next
    case (some b)
    obtain k where k: "k \<in> K" "b = 8 * k + 7" using Suc.prems(4) some(4) by blast
    then have k8: "k < 8" using Suc.prems(2) by auto
    have upd: "\<forall>i. bit (m XOR push_bit b 1) i \<longleftrightarrow> (\<exists>k'\<in>K - {k}. i = 8 * k' + 7)"
    proof
      fix i
      show "bit (m XOR push_bit b 1) i \<longleftrightarrow> (\<exists>k'\<in>K - {k}. i = 8 * k' + 7)"
      proof (cases "i = b")
        case True
        then show ?thesis using k some(3,4) by (auto simp: bit_xor_iff bit_push_bit_iff bit_exp_iff possible_bit_word)
      next
        case False
        then have "bit (m XOR push_bit b 1) i \<longleftrightarrow> bit m i"
          by (auto simp: bit_xor_iff bit_push_bit_iff bit_exp_iff)
        then show ?thesis using Suc.prems(4)[rule_format, of i] k False by auto
      qed
    qed
    have card: "card (K - {k}) \<le> n" using Suc.prems(3) k(1) fin by simp
    have sub: "K - {k} \<subseteq> {..<8}" using Suc.prems(2) by auto
    have "crlf_extract (Suc n) m v = crlf_extract n (m XOR push_bit b 1) (v OR push_bit k 1)"
      using some(2) k(2) by (simp add: Let_def add.commute)
    then show ?thesis
      using Suc.IH[OF Suc.prems(1) sub card upd, of "v OR push_bit k 1"] k k8 Suc.prems(1)
      by (auto simp: bit_or_iff bit_push_bit_iff bit_exp_iff simp del: crlf_extract.simps)
  qed
qed

lemma no_neighbours_card:
  assumes "K \<subseteq> {..<2 * n}" "\<forall>k\<in>K. k + 1 \<notin> (K :: nat set)"
  shows "card K \<le> n"
proof -
  have "inj_on (\<lambda>k. k div 2) K"
  proof (rule inj_onI)
    fix x y assume xy: "x \<in> K" "y \<in> K" "x div 2 = y div 2"
    then have "x = y \<or> x = y + 1 \<or> y = x + 1" by presburger
    then show "x = y" using xy assms(2) by auto
  qed
  moreover have "(\<lambda>k. k div 2) ` K \<subseteq> {..<n}" using assms(1) by auto
  ultimately show ?thesis using card_inj_on_le[of "\<lambda>k. k div 2" K "{..<n}"] by simp
qed

lemma comb_bytes_ok:
  assumes "bytes_ok bs" "bs \<noteq> []"
  shows "bytes_ok (comb cy bs)"
proof
  fix x assume "x \<in> set (comb cy bs)"
  then obtain k where k: "k < length bs" "x = comb cy bs ! k"
    using assms(2) by (metis in_set_conv_nth length_comb)
  have "bs ! k < 256" "bs ! (k - 1) < 256" using k assms(1) by auto
  then show "x < 256" using k comb_nth[OF k(1), of cy] by (simp add: or_byte xor_byte)
qed

lemma le_val_snoc: "le_val (xs @ [x]) = le_val xs + x * 256 ^ length xs"
  by (induction xs) (simp_all add: algebra_simps)

lemma drop_top_byte:
  assumes "length bs = 8" "bytes_ok bs"
  shows "drop_bit 56 (wd bs) = 0 \<longleftrightarrow> last bs = 0"
proof -
  have bl: "bs = butlast bs @ [last bs]" using assms by (cases bs rule: rev_cases) auto
  have "le_val bs = le_val (butlast bs) + last bs * 256 ^ 7"
    using assms(1) by (subst bl, subst le_val_snoc) simp
  moreover have "le_val (butlast bs) < 256 ^ 7"
    using le_val_less[of "butlast bs"] assms by (auto dest: in_set_butlastD)
  ultimately have "le_val bs div 2 ^ 56 = last bs" by simp
  then show ?thesis
    using assms unat_drop_bit_eq[of 56 "wd bs"]
    by (simp add: word_unat_eq_iff[of "drop_bit 56 (wd bs)" 0] unat_wd)
       (simp add: drop_bit_eq_div)
qed

lemma byte_pos: "i div 8 = k \<and> i mod 8 = 7 \<longleftrightarrow> i = 8 * k + (7 :: nat)"
proof
  assume "i div 8 = k \<and> i mod 8 = 7"
  moreover have "i = 8 * (i div 8) + i mod 8" by simp
  ultimately show "i = 8 * k + 7" by metis
qed simp

lemma bit_marks:
  assumes "length c = 8"
  shows "bit (wd (map (\<lambda>x. if x = 0 then 128 else 0 :: nat) c)) i \<longleftrightarrow>
    (\<exists>k. k < 8 \<and> c ! k = 0 \<and> i = 8 * k + 7)"
proof -
  have b128: "bit (128 :: nat) n \<longleftrightarrow> n = 7" for n
    using bit_exp_iff[of 7 n, where 'a=nat] by simp
  let ?m = "map (\<lambda>x. if x = 0 then 128 else 0 :: nat) c"
  have ok: "length ?m = 8" "bytes_ok ?m" using assms by auto
  have "bit (wd ?m) i \<longleftrightarrow> bit (unat (wd ?m)) i" by (simp add: bit_unsigned_iff)
  also have "\<dots> \<longleftrightarrow> i div 8 < 8 \<and> bit (?m ! (i div 8)) (i mod 8)"
    unfolding unat_wd[OF ok] using bit_le_val[OF ok(2)] ok(1) by simp
  also have "\<dots> \<longleftrightarrow> i div 8 < 8 \<and> c ! (i div 8) = 0 \<and> i mod 8 = 7"
    using assms b128[of "i mod 8"] by (cases "i div 8 < 8") (simp_all add: nth_map)
  also have "\<dots> \<longleftrightarrow> (\<exists>k. k < 8 \<and> c ! k = 0 \<and> i = 8 * k + 7)"
  proof
    assume "i div 8 < 8 \<and> c ! (i div 8) = 0 \<and> i mod 8 = 7"
    then show "\<exists>k. k < 8 \<and> c ! k = 0 \<and> i = 8 * k + 7"
      using byte_pos[of i "i div 8"] by blast
  next
    assume "\<exists>k. k < 8 \<and> c ! k = 0 \<and> i = 8 * k + 7"
    then obtain k where k: "k < 8" "c ! k = 0" "i = 8 * k + 7" by blast
    then have "i div 8 = k \<and> i mod 8 = 7" using byte_pos[of i k] by blast
    then show "i div 8 < 8 \<and> c ! (i div 8) = 0 \<and> i mod 8 = 7" using k by blast
  qed
  finally show ?thesis .
qed

text \<open>One word: the marks are the line feeds that follow a carriage return.\<close>

lemma crlfcompr_bytes:
  assumes len: "length bs = 8" and ok: "bytes_ok bs"
  shows "cr_carry (crlfcompr (wd bs) cy) \<longleftrightarrow> bs ! 7 = 13"
    and "\<forall>j<8. bit (cr_v (crlfcompr (wd bs) cy)) j \<longleftrightarrow>
          bs ! j = 10 \<and> (if j = 0 then cy else bs ! (j - 1) = 13)"
proof -
  let ?A = "map2 (XOR) bs (map (\<lambda>_. 13) bs)" and ?B = "map2 (XOR) bs (map (\<lambda>_. 10) bs)"
  let ?c = "comb cy bs"
  let ?m = "map (\<lambda>x. if x = 0 then 128 else 0 :: nat) ?c"
  have ne: "bs \<noteq> []" using len by auto
  have okc: "\<And>c. c < 256 \<Longrightarrow> bytes_ok (map2 (XOR) bs (map (\<lambda>_. c) bs))"
    using ok by (auto simp: set_zip xor_byte)
  have A: "wd bs XOR BFILL 13 = wd ?A"
    using BFILL_wd[OF len, of 13] ok by (simp add: wd_xor)
  have B: "wd bs XOR BFILL 10 = wd ?B"
    using BFILL_wd[OF len, of 10] ok by (simp add: wd_xor)
  let ?b = "if cy then 0 else 1 :: nat"
  have b: "(if cy then 0 else 1 :: 64 word) = wd [?b]" by (simp add: wd_def)
  have "bytes_ok (butlast ?A)" using okc[of 13] by (meson in_set_butlastD numeral_less_iff semiring_norm)
  then have okb: "bytes_ok (?b # butlast ?A)" by simp
  have lb: "length (?b # butlast ?A) = length ?B" "length ?A = 8" using len by simp_all
  have okA: "bytes_ok ?A" "bytes_ok ?B" using okc[of 13] okc[of 10] by simp_all
  have C: "(push_bit 8 (wd ?A) OR (if cy then 0 else 1)) OR wd ?B = wd ?c"
    unfolding b using wd_push[OF lb(2), of ?b] okA wd_or[OF lb(1) okb okA(2)]
    by (simp only: comb_def) simp
  have lc: "length ?c = 8" "bytes_ok ?c" using len ne comb_bytes_ok[OF ok ne] by simp_all
  have M: "(wd ?c - BFILL 1) AND NOT (wd ?c) AND BFILL 0x80 = wd ?m"
  proof -
    have safe: "\<forall>i. i + 1 < length ?c \<longrightarrow> ?c ! i = 0 \<longrightarrow> 2 \<le> ?c ! (i + 1)"
      using comb_safe ne by simp
    let ?s = "sub_ones 0 ?c" and ?n = "map (\<lambda>b. 255 - b) ?c" and ?h = "map (\<lambda>_. 128 :: nat) ?c"
    have l: "length ?s = 8" "length ?n = 8" "length ?h = 8" using lc(1) by simp_all
    have o: "bytes_ok ?s" "bytes_ok ?n" "bytes_ok ?h" "bytes_ok (map2 (AND) ?n ?h)"
      using lc(2) sub_ones_ok[of ?c 0] by (auto simp: set_zip and_byte)
    have "(wd ?c - BFILL 1) AND NOT (wd ?c) AND BFILL 0x80 = wd ?s AND wd ?n AND wd ?h"
      using lc BFILL_wd[of ?c 128] by (simp add: wd_sub_ones wd_not)
    also have "\<dots> = wd (map2 (AND) ?s (map2 (AND) ?n ?h))"
      using l o by (simp add: wd_and)
    also have "map2 (AND) ?s (map2 (AND) ?n ?h) = map2 (\<lambda>s x. s AND (255 - x) AND 128) ?s ?c"
      using l by (intro nth_equalityI) simp_all
    also have "\<dots> = ?m" using sub_ones_marks[OF lc(2) _ safe] by simp
    finally show ?thesis .
  qed
  have carry: "drop_bit 56 (wd ?A) = 0 \<longleftrightarrow> bs ! 7 = 13"
    using drop_top_byte[OF lb(2) okA(1)] len ne last_conv_nth[of ?A] lb(2) by (auto simp: nat_xor_eq_0_iff)
  let ?K = "{k. k < 8 \<and> ?c ! k = 0}"
  have K: "j \<in> ?K \<longleftrightarrow> j < 8 \<and> bs ! j = 10 \<and> (if j = 0 then cy else bs ! (j - 1) = 13)" for j
    using comb_zero_iff[of j bs cy] len by auto
  have "\<forall>k\<in>?K. k + 1 \<notin> ?K" using K by auto
  then have card: "card ?K \<le> 4" by (intro no_neighbours_card) auto
  have bits: "\<forall>i. bit (wd ?m) i \<longleftrightarrow> (\<exists>k\<in>?K. i = 8 * k + 7)"
    using bit_marks[OF lc(1)] by simp
  show "cr_carry (crlfcompr (wd bs) cy) \<longleftrightarrow> bs ! 7 = 13"
    unfolding crlfcompr_def Let_def A B C M using carry by simp
  show "\<forall>j<8. bit (cr_v (crlfcompr (wd bs) cy)) j \<longleftrightarrow>
          bs ! j = 10 \<and> (if j = 0 then cy else bs ! (j - 1) = 13)"
  proof (intro allI impI)
    fix j :: nat assume j: "j < 8"
    have "?K \<subseteq> {..<8}" by blast
    then have "bit (crlf_extract 4 (wd ?m) 0) j \<longleftrightarrow> bit (0 :: 8 word) j \<or> j \<in> ?K"
      using card bits j by (rule crlf_extract_bits)
    then show "bit (cr_v (crlfcompr (wd bs) cy)) j \<longleftrightarrow>
        bs ! j = 10 \<and> (if j = 0 then cy else bs ! (j - 1) = 13)"
      unfolding crlfcompr_def Let_def A B C M K using j by (simp only: crlfres.simps bit_0_eq bot_apply) simp
  qed
qed

end
