(* ===== verification/Usipy_Lines.thy ===== *)
theory Usipy_Lines
  imports Usipy_Crlf
begin

unbundle bit_operations_syntax

text \<open>
  What the line scanner of Usipy_Crlf promises its caller: the calls of
  \<open>usipy_sip_msg_break_down\<close> report the line ends of a message one by one, in order, none left out
  and none made up, and then \<open>-1\<close>.
\<close>

subsection \<open>One word of a message\<close>

lemma le_val_zeros: "le_val (xs @ replicate n 0) = le_val xs"
proof -
  have "le_val (replicate n 0) = 0" by (induction n) simp_all
  then show ?thesis by (induction xs) simp_all
qed

definition word_bytes :: "string \<Rightarrow> nat list" where
  "word_bytes t = map of_char (take 8 t) @ replicate (8 - length t) 0"

lemma load_word_bytes: "load_le 8 t = wd (word_bytes t)"
  by (simp add: load_le_def wd_def word_bytes_def le_val_zeros)

lemma word_bytes_props:
  "length (word_bytes t) = 8" "bytes_ok (word_bytes t)"
  "j < 8 \<Longrightarrow> word_bytes t ! j = (if j < length t then of_char (t ! j) else 0)"
  by (auto simp: word_bytes_def nth_append)

lemma of_char_CR_LF: "(of_char c :: nat) = 13 \<longleftrightarrow> c = CR" "(of_char c :: nat) = 10 \<longleftrightarrow> c = LF"
proof -
  have "(of_char CR :: nat) = 13" "(of_char LF :: nat) = 10" by simp_all
  then show "(of_char c :: nat) = 13 \<longleftrightarrow> c = CR" "(of_char c :: nat) = 10 \<longleftrightarrow> c = LF"
    by (metis of_char_eq_iff)+
qed

text \<open>The carry the scanner takes into position \<open>i\<close>.\<close>

definition carry_at :: "string \<Rightarrow> nat \<Rightarrow> bool" where
  "carry_at s i \<longleftrightarrow> 0 < i \<and> s ! (i - 1) = CR"

lemma word_marks:
  assumes "i < length s"
  shows "j < 8 \<Longrightarrow> bit (cr_v (crlfcompr (load_le 8 (drop i s)) (carry_at s i))) j \<longleftrightarrow> lf_at False s (i + j)"
    and "i + 8 \<le> length s \<Longrightarrow>
      cr_carry (crlfcompr (load_le 8 (drop i s)) (carry_at s i)) = carry_at s (i + 8)"
proof -
  note p = word_bytes_props[where t = "drop i s"]
  note c = crlfcompr_bytes[OF p(1,2), of "carry_at s i", folded load_word_bytes]
  show "bit (cr_v (crlfcompr (load_le 8 (drop i s)) (carry_at s i))) j \<longleftrightarrow> lf_at False s (i + j)"
    if j: "j < 8" for j
  proof (cases "i + j < length s")
    case True
    then have l: "j < length (drop i s)" "j - 1 < length (drop i s)" by auto
    have "word_bytes (drop i s) ! j = of_char (s ! (i + j))" using p(3)[OF j] l(1) by simp
    moreover have "0 < j \<Longrightarrow> word_bytes (drop i s) ! (j - 1) = of_char (s ! (i + j - 1))"
      using p(3)[where j = "j - 1"] l(2) j by simp
    ultimately show ?thesis
      using c(2)[rule_format, OF j] True
      by (cases "j = 0") (simp_all add: of_char_CR_LF lf_at_def carry_at_def)
  next
    case False
    then show ?thesis using c(2)[rule_format, OF j] p(3)[OF j] by (auto simp: lf_at_def)
  qed
  show "cr_carry (crlfcompr (load_le 8 (drop i s)) (carry_at s i)) = carry_at s (i + 8)"
    if "i + 8 \<le> length s"
    using c(1) p(3)[where j = 7] that by (auto simp: of_char_CR_LF carry_at_def add.commute)
qed

subsection \<open>The state of the scanner\<close>

text \<open>
  Inside the loop: the bits of the accumulator below \<open>cshift\<close> mark the line ends of the current
  window of 64 bytes.
\<close>

definition scanning :: "string \<Rightarrow> usipy_sip_msg_iterator \<Rightarrow> bool \<Rightarrow> bool" where
  "scanning s mip cy \<longleftrightarrow>
     mi_onwire mip = s \<and> 8 dvd mi_i mip \<and> mi_cshift mip = mi_i mip mod 64 \<and>
     (mi_i mip < length s \<longrightarrow> cy = carry_at s (mi_i mip)) \<and>
     (\<forall>b. bit (mi_oword mip) b \<longleftrightarrow> b < mi_i mip mod 64 \<and> lf_at False s (mi_i mip div 64 * 64 + b))"

definition ends_from :: "string \<Rightarrow> nat \<Rightarrow> nat set" where
  "ends_from s k = {q. k \<le> q \<and> lf_at False s q}"

text \<open>
  Between calls: the window before the position is full, or the message is exhausted. The line
  ends still to be reported are the marks and the ones from the position on.
\<close>

definition resting :: "string \<Rightarrow> usipy_sip_msg_iterator \<Rightarrow> bool" where
  "resting s mip \<longleftrightarrow>
     mi_onwire mip = s \<and>
     (if mi_cshift mip = 0
      then 64 dvd mi_i mip \<and> (mi_oword mip \<noteq> 0 \<longrightarrow> 64 \<le> mi_i mip) \<and>
        (mi_i mip < length s \<longrightarrow> mi_carry mip = carry_at s (mi_i mip))
      else mi_oword mip = 0 \<and> length s \<le> mi_i mip)"

definition pending :: "string \<Rightarrow> usipy_sip_msg_iterator \<Rightarrow> nat set" where
  "pending s mip = {q. q < mi_i mip \<and> mi_i mip \<le> q + 64 \<and> bit (mi_oword mip) (q + 64 - mi_i mip)} \<union>
     ends_from s (mi_i mip)"

lemma lf_at_bound: "lf_at cy s q \<Longrightarrow> q < length s"
  by (simp add: lf_at_def)

lemma ends_from_beyond: "length s \<le> k \<Longrightarrow> ends_from s k = {}"
  by (auto simp: ends_from_def dest: lf_at_bound)

lemma finite_ends_from: "finite (ends_from s k)"
  by (rule finite_subset[of _ "{..<length s}"]) (auto simp: ends_from_def dest: lf_at_bound)

text \<open>One round of the loop.\<close>

lemma shifted_bits:
  assumes "k + 8 \<le> 64" "\<forall>b. bit ow b \<longrightarrow> b < k"
  shows "bit (ow OR push_bit k (ucast (v :: 8 word)) :: 64 word) b \<longleftrightarrow>
    (if b < k then bit ow b else b < k + 8 \<and> bit v (b - k))"
proof (cases "b < k")
  case False
  then have "\<not> bit ow b" using assms(2) by blast
  moreover have "bit v (b - k) \<Longrightarrow> b - k < 8" by (simp add: bit_imp_le_length[of v, simplified])
  ultimately show ?thesis
    using False assms(1) by (auto simp: bit_or_iff bit_push_bit_iff bit_ucast_iff)
qed (simp add: bit_or_iff bit_push_bit_iff)

lemma scan_round:
  assumes sc: "scanning s mip cy" and i: "mi_i mip < length s"
  defines "ms \<equiv> crlfcompr (load_le 8 (drop (mi_i mip) s)) cy"
  defines "ow \<equiv> (if cr_v ms \<noteq> 0 then mi_oword mip OR push_bit (mi_cshift mip) (ucast (cr_v ms))
                 else mi_oword mip)"
  shows "bit ow b \<longleftrightarrow> b < mi_i mip mod 64 + 8 \<and> lf_at False s (mi_i mip div 64 * 64 + b)"
    and "mi_i mip + 8 < length s \<Longrightarrow> cr_carry ms = carry_at s (mi_i mip + 8)"
proof -
  let ?k = "mi_i mip mod 64" and ?w = "mi_i mip div 64 * 64"
  have cy: "cy = carry_at s (mi_i mip)" and cs: "mi_cshift mip = ?k" and d8: "8 dvd mi_i mip"
    and old: "\<And>b. bit (mi_oword mip) b \<longleftrightarrow> b < ?k \<and> lf_at False s (?w + b)"
    using sc i by (auto simp: scanning_def)
  have k: "?k + 8 \<le> 64"
  proof -
    obtain m where "mi_i mip = 8 * m" using d8 by blast
    then have "?k = 8 * (m mod 8)" using mod_mult_mult1[of 8 m 8] by simp
    then show ?thesis using mod_less_divisor[of 8 m] by linarith
  qed
  have w: "?w + ?k = mi_i mip" by simp
  have new: "bit (cr_v ms) j \<longleftrightarrow> lf_at False s (mi_i mip + j)" if "j < 8" for j
    using word_marks(1)[OF i that] by (simp add: ms_def cy)
  have "ow = mi_oword mip OR push_bit ?k (ucast (cr_v ms))" by (simp add: ow_def cs)
  then have "bit ow b \<longleftrightarrow> (if b < ?k then bit (mi_oword mip) b else b < ?k + 8 \<and> bit (cr_v ms) (b - ?k))"
    using shifted_bits[OF k, of "mi_oword mip" "cr_v ms" b] old by auto
  also have "\<dots> \<longleftrightarrow> b < ?k + 8 \<and> lf_at False s (?w + b)"
  proof (cases "b < ?k")
    case False
    then have "mi_i mip + (b - ?k) = ?w + b" using w by linarith
    then show ?thesis using False new[of "b - ?k"] by auto
  qed (simp add: old)
  finally show "bit ow b \<longleftrightarrow> b < ?k + 8 \<and> lf_at False s (?w + b)" .
  show "mi_i mip + 8 < length s \<Longrightarrow> cr_carry ms = carry_at s (mi_i mip + 8)"
    using word_marks(2)[OF i] by (simp add: ms_def cy)
qed

text \<open>The loop runs to the next window that holds a line end, or to the end of the message.\<close>

lemma word64_eq_0_iff: "(w :: 64 word) = 0 \<longleftrightarrow> (\<forall>b<64. \<not> bit w b)"
  by (auto intro!: bit_word_eqI)

lemma window_step:
  assumes "i mod 64 \<noteq> 56" "8 dvd (i :: nat)"
  shows "(i + 8) mod 64 = i mod 64 + 8" "(i + 8) div 64 = i div 64"
proof -
  obtain k where k: "i = 8 * k" using assms(2) by blast
  have m: "(8 * n) mod 64 = 8 * (n mod 8)" "(8 * n) div 64 = n div 8" for n :: nat
    using mult_mod_right[of 8 n 8] div_mult_mult1[of 8 n 8] by simp_all
  have e: "i + 8 = 8 * Suc k" by (simp add: k)
  have "k mod 8 \<noteq> 7" using assms(1) m(1)[of k] by (auto simp: k)
  then show "(i + 8) mod 64 = i mod 64 + 8" "(i + 8) div 64 = i div 64"
    unfolding e m by (simp_all add: k m mod_Suc div_Suc)
qed

lemma window_end:
  assumes "i mod 64 = (56 :: nat)"
  shows "(i + 8) mod 64 = 0" "64 dvd i + 8" "i div 64 * 64 + 64 = i + 8" "(i + 8) div 64 * 64 = i + 8"
proof -
  have "i = i div 64 * 64 + 56" using div_mult_mod_eq[of i 64] assms by simp
  then have e: "i + 8 = (i div 64 + 1) * 64" by simp
  then show d: "64 dvd i + 8" by (metis dvd_triv_right)
  then show "(i + 8) mod 64 = 0" "(i + 8) div 64 * 64 = i + 8" by simp_all
  show "i div 64 * 64 + 64 = i + 8" using e by simp
qed

lemma ends_from_window:
  assumes "\<forall>b<64. \<not> lf_at False s (k + b)"
  shows "ends_from s (k + 64) = ends_from s k"
proof -
  have "k + 64 \<le> q" if "k \<le> q" "lf_at False s q" for q
  proof (rule ccontr)
    assume "\<not> k + 64 \<le> q"
    then have "q - k < 64" "k + (q - k) = q" using that(1) by linarith+
    then show False using assms that(2) by metis
  qed
  then show ?thesis by (auto simp: ends_from_def)
qed

lemma full_window_pending:
  assumes "64 \<le> mi_i mip" "\<forall>b. bit (mi_oword mip) b \<longleftrightarrow> b < 64 \<and> lf_at False s (mi_i mip - 64 + b)"
  shows "pending s mip = ends_from s (mi_i mip - 64)"
proof (rule set_eqI)
  fix q
  let ?i = "mi_i mip"
  show "q \<in> pending s mip \<longleftrightarrow> q \<in> ends_from s (?i - 64)"
  proof (cases "?i \<le> q + 64 \<and> q < ?i")
    case True
    then have "?i - 64 + (q + 64 - ?i) = q" "q + 64 - ?i < 64" "?i - 64 \<le> q"
      using assms(1) by linarith+
    moreover from this have "bit (mi_oword mip) (q + 64 - ?i) \<longleftrightarrow> lf_at False s q"
      using assms(2) by metis
    ultimately show ?thesis using True by (simp add: pending_def ends_from_def)
  next
    case False
    then show ?thesis using assms(1) by (auto simp: pending_def ends_from_def)
  qed
qed

fun loop_post :: "string \<Rightarrow> nat \<Rightarrow> bool \<times> usipy_sip_msg_iterator \<Rightarrow> bool" where
  "loop_post s k (found, mip) \<longleftrightarrow>
     (if found then resting s mip \<and> mi_oword mip \<noteq> 0 \<and> mi_cshift mip = 0 \<and>
        pending s mip = ends_from s k
      else length s \<le> mi_i mip \<and> (\<exists>cy. scanning s mip cy) \<and>
        ends_from s (mi_i mip div 64 * 64) = ends_from s k)"

lemma loop_post_cong: "ends_from s k = ends_from s k' \<Longrightarrow> loop_post s k x = loop_post s k' x"
  by (cases x) simp

lemma break_loop_unfold:
  fixes cy :: bool
  assumes "mi_onwire mip = s" "mi_i mip < length s"
  defines "ms \<equiv> crlfcompr (load_le 8 (drop (mi_i mip) s)) cy"
  defines "ow \<equiv> (if cr_v ms \<noteq> 0 then mi_oword mip OR push_bit (mi_cshift mip) (ucast (cr_v ms))
                 else mi_oword mip)"
  shows "break_loop mip cy =
    (if mi_cshift mip = 56 then
       if ow \<noteq> 0 then
         (True, mip\<lparr>mi_cshift := 0, mi_oword := ow, mi_i := mi_i mip + 8, mi_carry := cr_carry ms\<rparr>)
       else break_loop (mip\<lparr>mi_cshift := 0, mi_oword := ow, mi_i := mi_i mip + 8\<rparr>) (cr_carry ms)
     else break_loop (mip\<lparr>mi_cshift := mi_cshift mip + 8, mi_oword := ow, mi_i := mi_i mip + 8\<rparr>)
            (cr_carry ms))"
  using assms(1,2) unfolding ow_def ms_def by (subst break_loop.simps) (simp only: Let_def simp_thms if_True if_False)

lemma break_loop_spec:
  assumes "scanning s mip cy"
  shows "loop_post s (mi_i mip div 64 * 64) (break_loop mip cy)"
  using assms
proof (induction "length s - mi_i mip" arbitrary: mip cy rule: less_induct)
  case less
  have st: "mi_onwire mip = s" "8 dvd mi_i mip" "mi_cshift mip = mi_i mip mod 64"
    using less.prems by (simp_all add: scanning_def)
  show ?case
  proof (cases "mi_i mip < length s")
    case False
    then have "break_loop mip cy = (False, mip)" using st by (subst break_loop.simps) simp
    then show ?thesis using False less.prems by auto
  next
    case True
    define ms where "ms = crlfcompr (load_le 8 (drop (mi_i mip) s)) cy"
    define ow where "ow = (if cr_v ms \<noteq> 0
      then mi_oword mip OR push_bit (mi_cshift mip) (ucast (cr_v ms)) else mi_oword mip)"
    note r = scan_round[OF less.prems True, folded ms_def, folded ow_def]
    note u = break_loop_unfold[OF st(1) True, of cy, folded ms_def, folded ow_def]
    have dec: "length s - (mi_i mip + 8) < length s - mi_i mip" using True by linarith
    show ?thesis
    proof (cases "mi_i mip mod 64 = 56")
      case False
      let ?m = "mip\<lparr>mi_cshift := mi_cshift mip + 8, mi_oword := ow, mi_i := mi_i mip + 8\<rparr>"
      note w = window_step[OF False st(2)]
      have eq: "break_loop mip cy = break_loop ?m (cr_carry ms)"
        using False st(3) by (simp add: u)
      have "scanning s ?m (cr_carry ms)"
        using st r w by (simp add: scanning_def)
      from less.hyps[OF _ this] dec w show ?thesis by (simp add: eq)
    next
      case full: True
      note w = window_end[OF full]
      have k: "mi_i mip + 8 - 64 = mi_i mip div 64 * 64" using w(3) by linarith
      have bits: "bit ow b \<longleftrightarrow> b < 64 \<and> lf_at False s (mi_i mip + 8 - 64 + b)" for b
        unfolding k r(1) full by simp
      show ?thesis
      proof (cases "ow = 0")
        case True
        let ?m = "mip\<lparr>mi_cshift := 0, mi_oword := ow, mi_i := mi_i mip + 8\<rparr>"
        have eq: "break_loop mip cy = break_loop ?m (cr_carry ms)"
          using full st(3) True by (simp add: u)
        have "scanning s ?m (cr_carry ms)"
          using st r w True by (simp add: scanning_def)
        moreover have "ends_from s (mi_i mip + 8) = ends_from s (mi_i mip div 64 * 64)"
          using ends_from_window[of s "mi_i mip div 64 * 64"] r(1) full True w(3) by simp
        moreover have "loop_post s (mi_i mip + 8) (break_loop ?m (cr_carry ms))"
          using less.hyps[of ?m "cr_carry ms"] dec w calculation(1) by simp
        ultimately show ?thesis unfolding eq using loop_post_cong by blast
      next
        case False
        let ?m = "mip\<lparr>mi_cshift := 0, mi_oword := ow, mi_i := mi_i mip + 8, mi_carry := cr_carry ms\<rparr>"
        have "break_loop mip cy = (True, ?m)"
          using full st(3) False by (simp add: u)
        moreover have "resting s ?m" using st r(2) w by (simp add: resting_def)
        moreover have "pending s ?m = ends_from s (mi_i mip div 64 * 64)"
          using full_window_pending[of ?m s] bits w(3) unfolding k[symmetric] by simp
        ultimately show ?thesis using False by simp
      qed
    qed
  qed
qed

subsection \<open>One call\<close>

fun call_post :: "string \<Rightarrow> nat set \<Rightarrow> int \<times> usipy_sip_msg_iterator \<Rightarrow> bool" where
  "call_post s P (r, mip) \<longleftrightarrow> resting s mip \<and>
     (if P = {} then r = - 1 \<and> pending s mip = {}
      else r = int (Min P) - 1 \<and> pending s mip = P - {Min P})"

lemma lowest_pending:
  assumes "resting s mip" "mi_cshift mip = 0" "mi_oword mip \<noteq> 0"
  shows "call_post s (pending s mip) (break_result mip)"
proof -
  obtain b where b: "ffsl (mi_oword mip) = Suc b" "b < 64" "bit (mi_oword mip) b"
    "\<forall>j<b. \<not> bit (mi_oword mip) j"
    using assms(3) by (cases "mi_oword mip" rule: ffsl_cases) auto
  have i: "64 \<le> mi_i mip" using assms by (simp add: resting_def)
  let ?q = "mi_i mip - 64 + b"
  have q: "?q + 64 - mi_i mip = b" "?q < mi_i mip" "mi_i mip \<le> ?q + 64" using i b(2) by linarith+
  have inP: "?q \<in> pending s mip" using q b(3) by (simp add: pending_def)
  have fin: "finite (pending s mip)" by (simp add: pending_def finite_ends_from)
  have low: "?q \<le> r" if "r \<in> pending s mip" for r
  proof (cases "r < mi_i mip")
    case True
    then have r: "mi_i mip \<le> r + 64" "bit (mi_oword mip) (r + 64 - mi_i mip)"
      using that by (auto simp: pending_def ends_from_def)
    then have "\<not> r + 64 - mi_i mip < b" using b(4) by blast
    then show ?thesis using i r(1) by linarith
  qed (use q in linarith)
  have m: "Min (pending s mip) = ?q" using fin low inP by (intro Min_eqI)
  let ?m = "mip\<lparr>mi_oword := mi_oword mip XOR push_bit b 1\<rparr>"
  have res: "break_result mip = (int ?q - 1, ?m)"
    using i by (simp add: break_result_def b(1) of_nat_diff)
  have bit': "bit (mi_oword ?m) j \<longleftrightarrow> bit (mi_oword mip) j \<and> j \<noteq> b" for j
    using b(2,3) by (cases "j = b") (auto simp: bit_xor_iff bit_push_bit_iff bit_exp_iff)
  have "pending s ?m = pending s mip - {?q}"
  proof (rule set_eqI)
    fix r
    have eq: "r < mi_i mip \<Longrightarrow> mi_i mip \<le> r + 64 \<Longrightarrow> r + 64 - mi_i mip = b \<longleftrightarrow> r = ?q"
      using i by linarith
    have "r \<in> pending s ?m \<longleftrightarrow> r < mi_i mip \<and> mi_i mip \<le> r + 64 \<and>
        bit (mi_oword ?m) (r + 64 - mi_i mip) \<or> r \<in> ends_from s (mi_i mip)"
      by (simp add: pending_def)
    also have "\<dots> \<longleftrightarrow> r \<in> pending s mip - {?q}"
      unfolding bit' using eq q(2) by (auto simp: pending_def ends_from_def)
    finally show "r \<in> pending s ?m \<longleftrightarrow> r \<in> pending s mip - {?q}" .
  qed
  moreover have "resting s ?m" using assms i by (auto simp: resting_def)
  moreover have "pending s mip \<noteq> {}" using inP by blast
  ultimately show ?thesis unfolding res call_post.simps m by simp
qed

text \<open>
  A call from a resting state reports the least pending line end and leaves the others, or reports
  \<open>-1\<close> when there is none; either way the state is resting again.
\<close>

lemma resting_scanning:
  assumes "resting s mip" "mi_cshift mip = 0" "mi_oword mip = 0"
  shows "scanning s mip (mi_carry mip)" "pending s mip = ends_from s (mi_i mip div 64 * 64)"
  using assms by (auto simp: resting_def scanning_def pending_def)

lemma scan_exhausted:
  assumes sc: "scanning s m cy" and i: "length s \<le> mi_i m"
  defines "m2 \<equiv> m\<lparr>mi_i := mi_i m + (64 - mi_cshift m), mi_cshift := 0\<rparr>"
  shows "mi_oword m = 0 \<Longrightarrow> resting s m \<and> pending s m = {} \<and> ends_from s (mi_i m div 64 * 64) = {}"
    and "resting s m2 \<and> pending s m2 = ends_from s (mi_i m div 64 * 64)"
    and "mi_cshift m = 0 \<Longrightarrow> mi_oword m = 0"
proof -
  let ?w = "mi_i m div 64 * 64"
  have st: "mi_onwire m = s" "mi_cshift m = mi_i m mod 64"
    and raw: "\<And>b. bit (mi_oword m) b \<longleftrightarrow> b < mi_i m mod 64 \<and> lf_at False s (?w + b)"
    using sc by (auto simp: scanning_def)
  have w: "?w + mi_i m mod 64 = mi_i m" by simp
  have bits: "bit (mi_oword m) b \<longleftrightarrow> lf_at False s (?w + b)" for b
  proof -
    have "lf_at False s (?w + b) \<Longrightarrow> b < mi_i m mod 64"
      using lf_at_bound[of False s "?w + b"] i w by linarith
    then show ?thesis using raw[of b] by blast
  qed
  have in_w: "ends_from s ?w = {}" if "mi_oword m = 0"
  proof -
    have "\<not> lf_at False s q" if "?w \<le> q" for q
      using bits[of "q - ?w"] that \<open>mi_oword m = 0\<close> by simp
    then show ?thesis by (auto simp: ends_from_def)
  qed
  show "mi_cshift m = 0 \<Longrightarrow> mi_oword m = 0"
    using raw st(2) by (intro bit_word_eqI) simp
  show "resting s m \<and> pending s m = {} \<and> ends_from s ?w = {}" if "mi_oword m = 0"
    using that st i in_w[OF that] ends_from_beyond[OF i] by (auto simp: resting_def pending_def)
  have i2: "mi_i m2 = ?w + 64"
  proof -
    have "mi_i m2 = mi_i m + (64 - mi_i m mod 64)" by (simp add: m2_def st(2))
    then show ?thesis using w mod_less_divisor[of 64 "mi_i m"] by linarith
  qed
  have "64 dvd ?w + 64" by (metis dvd_add dvd_refl dvd_triv_right)
  moreover have "length s \<le> ?w + 64" using i w mod_less_divisor[of 64 "mi_i m"] by linarith
  moreover have "mi_onwire m2 = s" "mi_cshift m2 = 0" by (simp_all add: m2_def st(1))
  ultimately have "resting s m2" unfolding resting_def i2 by simp
  moreover have "pending s m2 = ends_from s ?w"
  proof -
    have ow: "mi_oword m2 = mi_oword m" "mi_i m2 - 64 = ?w" by (simp add: m2_def) (simp add: i2)
    have "bit (mi_oword m2) b \<longleftrightarrow> b < 64 \<and> lf_at False s (mi_i m2 - 64 + b)" for b
    proof -
      have "lf_at False s (?w + b) \<Longrightarrow> b < mi_i m mod 64" using bits[of b] raw[of b] by blast
      then have "lf_at False s (?w + b) \<Longrightarrow> b < 64"
        using mod_less_divisor[of 64 "mi_i m"] by linarith
      then show ?thesis unfolding ow bits by blast
    qed
    then show ?thesis using full_window_pending[of m2 s] unfolding ow(2) by (simp add: i2)
  qed
  ultimately show "resting s m2 \<and> pending s m2 = ends_from s ?w" by blast
qed

lemma break_down_step:
  assumes rest: "resting s mip"
  shows "call_post s (pending s mip) (usipy_sip_msg_break_down mip)"
proof (cases "mi_cshift mip = 0")
  case False
  then have b: "mi_oword mip = 0" "length s \<le> mi_i mip" "mi_onwire mip = s"
    using rest by (simp_all add: resting_def)
  then have "pending s mip = {}" by (simp add: pending_def ends_from_beyond)
  moreover have "break_loop mip (mi_carry mip) = (False, mip)"
    using b by (subst break_loop.simps) simp
  ultimately show ?thesis using False b(1) rest by (simp add: usipy_sip_msg_break_down_def)
next
  case cs: True
  show ?thesis
  proof (cases "mi_oword mip = 0")
    case False
    then have "usipy_sip_msg_break_down mip = break_result mip"
      using cs by (simp add: usipy_sip_msg_break_down_def)
    then show ?thesis using lowest_pending[OF rest cs False] by simp
  next
    case True
    note sc = resting_scanning[OF rest cs True]
    obtain f m where bl: "break_loop mip (mi_carry mip) = (f, m)" by fastforce
    have post: "loop_post s (mi_i mip div 64 * 64) (f, m)" using break_loop_spec[OF sc(1)] bl by simp
    show ?thesis
    proof (cases f)
      case True
      then have p: "resting s m" "mi_oword m \<noteq> 0" "mi_cshift m = 0" "pending s m = pending s mip"
        using post sc(2) by auto
      have "usipy_sip_msg_break_down mip = break_result m"
        using \<open>mi_oword mip = 0\<close> bl True by (simp add: usipy_sip_msg_break_down_def)
      then show ?thesis using lowest_pending[OF p(1,3,2)] p(4) by simp
    next
      case False
      then obtain cy where m: "length s \<le> mi_i m" "scanning s m cy"
        "ends_from s (mi_i m div 64 * 64) = pending s mip"
        using post sc(2) by auto
      note e = scan_exhausted[OF m(2,1)]
      show ?thesis
      proof (cases "mi_oword m = 0")
        case True
        then have "usipy_sip_msg_break_down mip = (- 1, m)"
          using \<open>mi_oword mip = 0\<close> bl False by (simp add: usipy_sip_msg_break_down_def)
        then show ?thesis using e(1)[OF True] m(3) by simp
      next
        case ow: False
        let ?m = "m\<lparr>mi_i := mi_i m + (64 - mi_cshift m), mi_cshift := 0\<rparr>"
        have "mi_cshift m \<noteq> 0" using e(3) ow by blast
        then have "usipy_sip_msg_break_down mip = break_result ?m"
          using \<open>mi_oword mip = 0\<close> bl False ow by (simp add: usipy_sip_msg_break_down_def)
        then show ?thesis using lowest_pending[of s ?m] e(2) ow m(3) by simp
      qed
    qed
  qed
qed

subsection \<open>All the calls\<close>

lemma resting_init: "resting s (break_init s)" "pending s (break_init s) = ends_from s 0"
  by (auto simp: resting_def break_init_def carry_at_def pending_def)

lemma finite_pending: "finite (pending s mip)"
  by (simp add: pending_def finite_ends_from)

text \<open>The results of \<open>n\<close> calls.\<close>

fun break_calls :: "nat \<Rightarrow> usipy_sip_msg_iterator \<Rightarrow> int list" where
  "break_calls 0 mip = []"
| "break_calls (Suc n) mip =
     (case usipy_sip_msg_break_down mip of (r, mip) \<Rightarrow> r # break_calls n mip)"

lemma break_calls_pending:
  "resting s mip \<Longrightarrow>
     break_calls (card (pending s mip) + n) mip =
       map (\<lambda>q. int q - 1) (sorted_list_of_set (pending s mip)) @ replicate n (- 1)"
proof (induction "card (pending s mip)" arbitrary: mip)
  case 0
  then have e: "pending s mip = {}" using finite_pending[of s mip] by simp
  have "break_calls n mip = replicate n (- 1)" if "resting s mip" "pending s mip = {}" for n mip
    using that
  proof (induction n arbitrary: mip)
    case (Suc n)
    obtain r m where b: "usipy_sip_msg_break_down mip = (r, m)" by fastforce
    then have "r = - 1" "resting s m" "pending s m = {}"
      using break_down_step[OF Suc.prems(1)] Suc.prems(2) by auto
    then show ?case using Suc.IH b by simp
  qed simp
  then show ?case using 0(2) e by simp
next
  case (Suc k)
  obtain r m where b: "usipy_sip_msg_break_down mip = (r, m)" by fastforce
  have ne: "pending s mip \<noteq> {}" using Suc(2) by auto
  then have p: "r = int (Min (pending s mip)) - 1" "resting s m"
    "pending s m = pending s mip - {Min (pending s mip)}"
    using break_down_step[OF Suc.prems] b by auto
  have "Min (pending s mip) \<in> pending s mip" using ne finite_pending by simp
  then have k: "k = card (pending s m)" using Suc(2) p(3) finite_pending[of s mip] by simp
  have "sorted_list_of_set (pending s mip) = Min (pending s mip) # sorted_list_of_set (pending s m)"
    unfolding p(3) by (rule sorted_list_of_set_nonempty[OF finite_pending ne])
  then show ?case using Suc(1)[OF k p(2)] Suc(2)[symmetric] b p(1) k by simp
qed

text \<open>The offsets of the CR LF pairs of a message, in order.\<close>

fun crlf_offsets :: "nat \<Rightarrow> string \<Rightarrow> nat list" where
  "crlf_offsets off (c # d # s) =
     (if c = CR \<and> d = LF then [off] else []) @ crlf_offsets (off + 1) (d # s)"
| "crlf_offsets off s = []"

lemma crlf_offsets_set: "set (crlf_offsets off s) = {off + p | p. p + 1 < length s \<and> s ! p = CR \<and> s ! (p + 1) = LF}"
proof (induction off s rule: crlf_offsets.induct)
  case (1 off c d s)
  have e: "{off + p |p. p + 1 < length (c # d # s) \<and> (c # d # s) ! p = CR \<and> (c # d # s) ! (p + 1) = LF} =
      (if c = CR \<and> d = LF then {off} else {}) \<union>
      {off + 1 + p |p. p + 1 < length (d # s) \<and> (d # s) ! p = CR \<and> (d # s) ! (p + 1) = LF}"
    (is "?A = ?B \<union> ?C")
  proof (intro equalityI subsetI)
    fix x assume "x \<in> ?A"
    then obtain p where p: "x = off + p" "p + 1 < length (c # d # s)" "(c # d # s) ! p = CR"
      "(c # d # s) ! (p + 1) = LF" by blast
    then show "x \<in> ?B \<union> ?C" by (cases p) auto
  next
    fix x assume "x \<in> ?B \<union> ?C"
    then show "x \<in> ?A"
    proof
      assume "x \<in> ?C"
      then obtain p where "x = off + Suc p" "p + 1 < length (d # s)" "(d # s) ! p = CR"
        "(d # s) ! (p + 1) = LF" by auto
      then show "x \<in> ?A" by (intro CollectI exI[of _ "Suc p"]) simp
    qed (auto split: if_splits intro!: exI[of _ 0])
  qed
  show ?case unfolding e crlf_offsets.simps set_append 1 by auto
qed auto

lemma crlf_offsets_sorted: "sorted_wrt (<) (crlf_offsets off s)"
proof (induction off s rule: crlf_offsets.induct)
  case (1 off c d s)
  have "off < x" if "x \<in> set (crlf_offsets (off + 1) (d # s))" for x
    using that crlf_offsets_set[of "off + 1" "d # s"] by auto
  then show ?case using 1 by (auto simp: sorted_wrt_append)
qed auto

lemma crlf_offsets_ends: "map Suc (crlf_offsets 0 s) = sorted_list_of_set (ends_from s 0)"
proof -
  have "set (map Suc (crlf_offsets 0 s)) = ends_from s 0"
  proof -
    have "q \<in> ends_from s 0 \<longleftrightarrow> (\<exists>p. q = Suc p \<and> p + 1 < length s \<and> s ! p = CR \<and> s ! (p + 1) = LF)" for q
      by (cases q) (auto simp: ends_from_def lf_at_def)
    then show ?thesis by (auto simp: crlf_offsets_set)
  qed
  moreover have "sorted_wrt (<) (map Suc (crlf_offsets 0 s))"
    using crlf_offsets_sorted[of 0 s] by (simp add: sorted_wrt_map)
  ultimately show ?thesis
    by (metis sorted_list_of_set.idem_if_sorted_distinct strict_sorted_iff)
qed

lemma break_calls_init:
  "break_calls (length (crlf_offsets 0 s) + n) (break_init s) =
     map int (crlf_offsets 0 s) @ replicate n (- 1)"
proof -
  have "card (ends_from s 0) = length (crlf_offsets 0 s)"
    using finite_ends_from[of s 0] crlf_offsets_ends[of s]
    by (metis length_map sorted_list_of_set.length_sorted_key_list_of_set)
  moreover have "map (\<lambda>q. int q - 1) (map Suc (crlf_offsets 0 s)) = map int (crlf_offsets 0 s)"
    by simp
  ultimately show ?thesis
    using break_calls_pending[OF resting_init(1), of s n] crlf_offsets_ends[of s]
    by (simp add: resting_init(2))
qed

end
