(* ===== verification/Usipy_Tid.thy ===== *)
theory Usipy_Tid
  imports Usipy_Cseq Usipy_Turbo
begin

unbundle bit_operations_syntax

text \<open>
  Component \<open>usipy_sip_tid\<close> (\<open>src/usipy_sip_tid.c\<close>, \<open>usipy_sip_tid.h\<close>): transaction identifiers and
  the MurmurHash3 chain that hashes them and dialog identifiers. Blocks are read little-endian.
\<close>

definition ROTL32 :: "uint32 \<Rightarrow> nat \<Rightarrow> uint32" where
  "ROTL32 x r = push_bit r x OR drop_bit (32 - r) x"

definition fmix32 :: "uint32 \<Rightarrow> uint32" where
  "fmix32 h =
     (let h = h XOR drop_bit 16 h;
          h = h * 0x85ebca6b;
          h = h XOR drop_bit 13 h;
          h = h * 0xc2b2ae35
      in h XOR drop_bit 16 h)"

definition murmur_k :: "uint32 \<Rightarrow> uint32" where
  "murmur_k k1 = ROTL32 (k1 * 0xcc9e2d51) 15 * 0x1b873593"

text \<open>The body over the first \<open>n\<close> blocks; the loop index runs upwards to the end of the blocks.\<close>

fun murmur_body :: "nat \<Rightarrow> string \<Rightarrow> uint32 \<Rightarrow> uint32" where
  "murmur_body 0 blocks h1 = h1"
| "murmur_body (Suc n) blocks h1 =
     (let k1 = murmur_k (load_le 4 blocks);
          h1 = h1 XOR k1;
          h1 = ROTL32 h1 13
      in murmur_body n (drop 4 blocks) (h1 * 5 + 0xe6546b64))"

text \<open>The tail of \<open>len & 3\<close> bytes, with the fall-through of the switch.\<close>

definition murmur_tail :: "string \<Rightarrow> uint32 \<Rightarrow> uint32" where
  "murmur_tail tail h1 =
     (let byte = (\<lambda>i. of_nat (of_char (tail ! i)) :: uint32);
          k1 = 0;
          k1 = (if length tail = 3 then k1 XOR push_bit 16 (byte 2) else k1);
          k1 = (if length tail \<ge> 2 then k1 XOR push_bit 8 (byte 1) else k1) in
      if length tail \<ge> 1 then h1 XOR murmur_k (k1 XOR byte 0) else h1)"

definition MurmurHash3_32 :: "string \<Rightarrow> uint32 \<Rightarrow> uint32" where
  "MurmurHash3_32 key seed =
     (let nblocks = length key div 4;
          h1 = murmur_body nblocks key seed;
          h1 = murmur_tail (drop (nblocks * 4) key) h1;
          h1 = h1 XOR of_nat (length key)
      in fmix32 h1)"

record usipy_sip_tid =
  tid_hash :: uint32
  tid_call_id :: string
  tid_from_tag :: string
  tid_cseq :: usipy_sip_hdr_cseq
  tid_vbranch :: string

text \<open>The bytes of an 8-bit and of a 32-bit integer in memory.\<close>

definition byte1 :: "nat \<Rightarrow> string" where
  "byte1 n = [char_of n]"

definition byte4 :: "uint32 \<Rightarrow> string" where
  "byte4 w = map (\<lambda>i. char_of (unat w div 256 ^ i)) [0, 1, 2, 3]"

definition usipy_sip_tid_hash :: "usipy_sip_tid \<Rightarrow> uint32" where
  "usipy_sip_tid_hash tp =
     (let rval = MurmurHash3_32 (tid_call_id tp) 0;
          rval = MurmurHash3_32 (tid_from_tag tp) rval;
          rval = MurmurHash3_32 (tid_vbranch tp) rval;
          rval = (if cseq_method (tid_cseq tp) = USIPY_SIP_METHOD_generic
                  then MurmurHash3_32 (cseq_onwire_method (tid_cseq tp)) rval
                  else MurmurHash3_32 (byte1 (cseq_method (tid_cseq tp))) rval)
      in MurmurHash3_32 (byte4 (cseq_val (tid_cseq tp))) rval)"

definition usipy_sip_dialog_hash :: "string \<Rightarrow> string \<Rightarrow> string \<Rightarrow> uint32" where
  "usipy_sip_dialog_hash call_id from_tag to_tag =
     (let rval = MurmurHash3_32 call_id 0;
          rval = MurmurHash3_32 from_tag rval
      in MurmurHash3_32 to_tag rval)"

definition usipy_sip_dialog_tid_hash ::
  "string \<Rightarrow> string \<Rightarrow> string \<Rightarrow> uint32 \<Rightarrow> nat \<Rightarrow> uint32" where
  "usipy_sip_dialog_tid_hash call_id from_tag to_tag cseq method_type =
     (let rval = usipy_sip_dialog_hash call_id from_tag to_tag;
          rval = MurmurHash3_32 (byte1 method_type) rval
      in MurmurHash3_32 (byte4 cseq) rval)"

end
