(* ===== verification/Usipy_Msg.thy ===== *)
theory Usipy_Msg
  imports Usipy_Hdr Usipy_Lines Usipy_Uri Usipy_Tid
begin

unbundle bit_operations_syntax

text \<open>
  Component \<open>usipy_sip_msg\<close> (\<open>src/usipy_sip_msg.c\<close>, \<open>usipy_sip_sline.c\<close>, \<open>usipy_sip_req.c\<close>,
  \<open>public/usipy_sip_msg.h\<close>, \<open>usipy_sip_msg_priv.h\<close>): the start line, a message read from the wire,
  the parsing of its headers on demand, its transaction id, and a message written to the wire.

  A string of the message is its text. What the code computes with addresses (the room left for
  the header table) is computed here from the address \<open>base\<close> of the message block. Structures a
  message keeps in its heap are values of the record; the heap keeps the account of their bytes.
\<close>

subsection \<open>The start line\<close>

datatype usipy_sip_msg_kind = USIPY_SIP_MSG_UNKN | USIPY_SIP_MSG_REQ | USIPY_SIP_MSG_RES

record usipy_sip_status =
  st_code :: uint32
  st_reason_phrase :: string

record usipy_sip_status_line =
  sl_version :: string
  sl_status :: usipy_sip_status

record usipy_sip_request_line =
  rl_version :: string
  rl_onwire_method :: string
  rl_onwire_ruri :: string
  rl_onwire_version :: string
  rl_ruri :: "usipy_sip_uri option"
  rl_method :: nat

datatype usipy_sip_sline_parsed =
    SL_none
  | SL_status usipy_sip_status_line
  | SL_request usipy_sip_request_line

record usipy_sip_sline =
  sln_onwire :: string
  sln_parsed :: usipy_sip_sline_parsed

abbreviation (input) USIPY_SIP_SCODE_MIN :: uint32 where "USIPY_SIP_SCODE_MIN \<equiv> 100"
abbreviation (input) USIPY_SIP_SCODE_MAX :: uint32 where "USIPY_SIP_SCODE_MAX \<equiv> 999"

text \<open>What a failed parse leaves in the union is not kept: the callers discard the message.\<close>

definition usipy_sip_sline_parse ::
  "usipy_msg_heap \<Rightarrow> usipy_sip_sline \<Rightarrow>
     (usipy_sip_msg_kind \<times> usipy_sip_sline \<times> usipy_msg_heap) abortable" where
  "usipy_sip_sline_parse mhp slp =
     (case usipy_str_split (sln_onwire slp) SP of
        None \<Rightarrow> Some (USIPY_SIP_MSG_UNKN, slp, mhp)
      | Some (s1, s2) \<Rightarrow>
      if s1 = [] \<or> s2 = [] then Some (USIPY_SIP_MSG_UNKN, slp, mhp)
      else (case usipy_str_split s2 SP of
        None \<Rightarrow> Some (USIPY_SIP_MSG_UNKN, slp, mhp)
      | Some (s3, s4) \<Rightarrow>
      if s3 = [] then Some (USIPY_SIP_MSG_UNKN, slp, mhp)
      else if usipy_verify_sip_version s1 then
        (case usipy_str_atoui_range s3 USIPY_SIP_SCODE_MIN USIPY_SIP_SCODE_MAX of
           None \<Rightarrow> Some (USIPY_SIP_MSG_UNKN, slp, mhp)
         | Some code \<Rightarrow>
             Some (USIPY_SIP_MSG_RES,
               slp\<lparr>sln_parsed := SL_status \<lparr>sl_version = s1,
                 sl_status = \<lparr>st_code = code, st_reason_phrase = s4\<rparr>\<rparr>\<rparr>,
               mhp))
      else if s4 \<noteq> [] \<and> usipy_verify_sip_version s4 then do {
        (ruri, mhp) \<leftarrow> usipy_sip_uri_parse mhp s3;
        case ruri of
          None \<Rightarrow> Some (USIPY_SIP_MSG_UNKN, slp, mhp)
        | Some u \<Rightarrow>
            Some (USIPY_SIP_MSG_REQ,
              slp\<lparr>sln_parsed := SL_request \<lparr>rl_version = s4, rl_onwire_method = s1,
                rl_onwire_ruri = s3, rl_onwire_version = s4, rl_ruri = Some u,
                rl_method = usipy_method_db_lookup s1\<rparr>\<rparr>,
              mhp)
      }
      else Some (USIPY_SIP_MSG_UNKN, slp, mhp)))"

subsection \<open>The message\<close>

record usipy_msg =
  m_onwire :: string
  m_body :: string
  m_kind :: usipy_sip_msg_kind
  m_sline :: usipy_sip_sline
  m_hdrs :: "usipy_sip_hdr list"
  m_heap :: usipy_msg_heap
  m_present :: "64 word"
  m_parsed :: "64 word"

text \<open>\<open>usipy_sip_req_parse_ruri\<close>: true for \<open>0\<close>.\<close>

definition usipy_sip_req_parse_ruri :: "usipy_msg \<Rightarrow> (bool \<times> usipy_msg) abortable" where
  "usipy_sip_req_parse_ruri mp = do {
     dassert (m_kind mp = USIPY_SIP_MSG_REQ);
     case sln_parsed (m_sline mp) of
       SL_request rl \<Rightarrow>
         if rl_ruri rl \<noteq> None then Some (True, mp)
         else do {
           (ruri, mhp) \<leftarrow> usipy_sip_uri_parse (m_heap mp) (rl_onwire_ruri rl);
           Some (ruri \<noteq> None,
             mp\<lparr>m_heap := mhp,
                m_sline := (m_sline mp)\<lparr>sln_parsed := SL_request (rl\<lparr>rl_ruri := ruri\<rparr>)\<rparr>\<rparr>)
         }
     | _ \<Rightarrow> None
   }"

text \<open>Sizes on LP64: the message structure takes 216 bytes, a header 72.\<close>

abbreviation (input) sizeof_usipy_msg :: nat where "sizeof_usipy_msg \<equiv> 216"
abbreviation (input) sizeof_usipy_sip_hdr :: nat where "sizeof_usipy_sip_hdr \<equiv> 72"
abbreviation (input) USIPY_SIP_MSG_NHDRS_HINT :: nat where "USIPY_SIP_MSG_NHDRS_HINT \<equiv> 30"

definition HT_SIZEOF :: "nat \<Rightarrow> size_t" where
  "HT_SIZEOF nhdrs = of_nat sizeof_usipy_sip_hdr * (of_nat nhdrs + 1)"

definition usipy_sip_msg_extra_heap_size :: "size_t \<Rightarrow> size_t" where
  "usipy_sip_msg_extra_heap_size raw_len =
     (let min_extra = of_nat (sizeof_usipy_sip_hdr * USIPY_SIP_MSG_NHDRS_HINT) in
      USIPY_ALIGNED_SIZE (if raw_len < min_extra then min_extra else raw_len))"

definition usipy_sip_msg_alloc_len :: "size_t \<Rightarrow> size_t" where
  "usipy_sip_msg_alloc_len len =
     of_nat sizeof_usipy_msg + USIPY_ALIGNED_SIZE len + usipy_sip_msg_extra_heap_size len"

definition USIPY_HFT_MASK :: "nat \<Rightarrow> 64 word" where
  "USIPY_HFT_MASK hft = push_bit hft 1"

definition USIPY_HF_ISMSET :: "64 word \<Rightarrow> nat \<Rightarrow> bool" where
  "USIPY_HF_ISMSET msk h \<longleftrightarrow> msk AND USIPY_HFT_MASK h \<noteq> 0"

abbreviation hdr_cantype :: "usipy_sip_hdr \<Rightarrow> nat" where
  "hdr_cantype shp \<equiv> he_cantype (usipy_hdr_db_byid (h_hf_type shp))"

definition USIPY_HF_MASK :: "usipy_sip_hdr \<Rightarrow> 64 word" where
  "USIPY_HF_MASK shp = USIPY_HFT_MASK (hdr_cantype shp)"

subsection \<open>Reading a message\<close>

text \<open>
  The state of the loop of \<open>usipy_sip_msg_init_fromwire\<close>. The line being read starts at offset
  \<open>wi_cp\<close> of the message; \<open>wi_shp\<close> is the offset where the header being collected starts and its
  length so far (\<open>None\<close> for a null \<open>shp\<close>), \<open>wi_table\<close> the offset of the header table in the heap.
\<close>

record wire_init =
  wi_msg :: usipy_msg
  wi_mit :: usipy_sip_msg_iterator
  wi_cp :: nat
  wi_cnt :: usipy_msg_heap_cnt
  wi_shp :: "(nat \<times> nat) option"
  wi_table :: size_t

text \<open>How a round of the loop ends: on to the next line, \<open>break\<close>, or \<open>goto e1\<close>.\<close>

datatype wire_round = Next_line wire_init | Loop_end wire_init | Parse_error

text \<open>Whole headers from \<open>&rp->hdrs[rp->nhdrs]\<close> to \<open>ehp\<close>, the end of the block.\<close>

definition hdr_room :: "nat \<Rightarrow> wire_init \<Rightarrow> nat" where
  "hdr_room ehp st =
     (ehp - (unat (mh_first (m_heap (wi_msg st))) + unat (wi_table st) +
        sizeof_usipy_sip_hdr * length (m_hdrs (wi_msg st)))) div sizeof_usipy_sip_hdr"

text \<open>\<open>next_line\<close>, and \<open>multi_line\<close> before it.\<close>

definition next_line :: "nat \<Rightarrow> wire_init \<Rightarrow> wire_round" where
  "next_line chp st = Next_line (st\<lparr>wi_cp := chp + 2\<rparr>)"

definition multi_line :: "nat \<Rightarrow> wire_init \<Rightarrow> wire_round" where
  "multi_line chp st =
     next_line chp (st\<lparr>wi_shp := map_option (\<lambda>(fs, _). (fs, chp - fs)) (wi_shp st)\<rparr>)"

text \<open>From the test for the empty line on; the header table grows by the header that starts.\<close>

definition start_header :: "nat \<Rightarrow> wire_init \<Rightarrow> wire_round abortable" where
  "start_header chp st =
     (let rp = wi_msg st; sz = HT_SIZEOF (length (m_hdrs rp)) in
      if chp = wi_cp st then Some (Loop_end (st\<lparr>wi_cp := wi_cp st + 2\<rparr>))
      else if wi_shp st = None then
        (case usipy_msg_heap_alloc_cnt (m_heap rp) sz of
           (None, _) \<Rightarrow> Some Parse_error
         | (Some (table, cnt), mhp) \<Rightarrow>
             Some (multi_line chp
               (st\<lparr>wi_msg := rp\<lparr>m_heap := mhp\<rparr>, wi_cnt := cnt, wi_table := table,
                   wi_shp := Some (wi_cp st, 0)\<rparr>)))
      else do {
        (ok, mhp, cnt) \<leftarrow> usipy_msg_heap_aextend (m_heap rp) sz (wi_cnt st);
        if \<not> ok then Some Parse_error
        else Some (multi_line chp
          (st\<lparr>wi_msg := rp\<lparr>m_heap := mhp\<rparr>, wi_cnt := cnt, wi_shp := Some (wi_cp st, 0)\<rparr>))
      })"

text \<open>The header collected so far is complete: it is split into name and values.\<close>

definition finish_header :: "nat \<Rightarrow> nat \<times> nat \<Rightarrow> wire_init \<Rightarrow> wire_init option abortable" where
  "finish_header ehp full st =
     (let rp = wi_msg st in do {
        hs \<leftarrow> usipy_sip_hdr_preparse
          (hdr_zero\<lparr>h_full := take (snd full) (drop (fst full) (m_onwire rp))\<rparr>) (hdr_room ehp st);
        case hs of
          None \<Rightarrow> Some None
        | Some hs \<Rightarrow>
            let rp = rp\<lparr>m_present := m_present rp OR USIPY_HF_MASK (hd hs), m_hdrs := m_hdrs rp @ hs\<rparr> in
            if length hs > 1 then do {
              (ok, mhp, cnt) \<leftarrow>
                usipy_msg_heap_aextend (m_heap rp) (HT_SIZEOF (length (m_hdrs rp))) (wi_cnt st);
              Some (if ok then Some (st\<lparr>wi_msg := rp\<lparr>m_heap := mhp\<rparr>, wi_cnt := cnt\<rparr>) else None)
            }
            else Some (Some (st\<lparr>wi_msg := rp\<rparr>))
      })"

definition wire_step :: "nat \<Rightarrow> wire_init \<Rightarrow> wire_round abortable" where
  "wire_step ehp st =
     (case usipy_sip_msg_break_down (wi_mit st) of
        (crlf_off, mit) \<Rightarrow>
      (let st = st\<lparr>wi_mit := mit\<rparr>; rp = wi_msg st; chp = nat crlf_off in
       if crlf_off < 0 then Some (Loop_end st)
       else
         (case wi_shp st of
            None \<Rightarrow>
              if sln_onwire (m_sline rp) = [] then do {
                (kind, sline, mhp) \<leftarrow> usipy_sip_sline_parse (m_heap rp)
                  ((m_sline rp)\<lparr>sln_onwire := take chp (drop (wi_cp st) (m_onwire rp))\<rparr>);
                if kind = USIPY_SIP_MSG_UNKN then Some Parse_error
                else Some (next_line chp
                  (st\<lparr>wi_msg := rp\<lparr>m_kind := kind, m_sline := sline, m_heap := mhp\<rparr>\<rparr>))
              }
              else start_header chp st
          | Some full \<Rightarrow>
              if USIPY_ISWS (m_onwire rp ! wi_cp st) then Some (multi_line chp st)
              else do {
                r \<leftarrow> finish_header ehp full st;
                case r of None \<Rightarrow> Some Parse_error | Some st \<Rightarrow> start_header chp st
              })))"

text \<open>
  The loop, with fuel; running out of it counts as an abort. A round takes at least two bytes of
  the message, so the length of the message is enough.
\<close>

fun wire_loop :: "nat \<Rightarrow> nat \<Rightarrow> wire_init \<Rightarrow> wire_init option abortable" where
  "wire_loop fuel ehp st =
     (if \<not> wi_cp st < length (m_onwire (wi_msg st)) then Some (Some st)
      else (case fuel of
        0 \<Rightarrow> None
      | Suc fuel \<Rightarrow> do {
          r \<leftarrow> wire_step ehp st;
          case r of
            Parse_error \<Rightarrow> Some None
          | Loop_end st \<Rightarrow> Some (Some st)
          | Next_line st \<Rightarrow> wire_loop fuel ehp st
        }))"

declare wire_loop.simps [simp del]

definition usipy_sip_msg_init_fromwire ::
  "64 word \<Rightarrow> size_t \<Rightarrow> string \<Rightarrow> usipy_msg option abortable" where
  "usipy_sip_msg_init_fromwire base alloc_len buf =
     (let len = of_nat (length buf) :: size_t;
          heapsize = alloc_len - of_nat sizeof_usipy_msg - len;
          mhp = usipy_msg_heap_init (base + of_nat sizeof_usipy_msg + len)
                  (replicate (unat heapsize) NUL) heapsize [] 0;
          rp = \<lparr>m_onwire = buf, m_body = [], m_kind = USIPY_SIP_MSG_REQ,
                m_sline = \<lparr>sln_onwire = [], sln_parsed = SL_none\<rparr>, m_hdrs = [], m_heap = mhp,
                m_present = 0, m_parsed = 0\<rparr>;
          ehp = unat (base + alloc_len) in do {
        r \<leftarrow> wire_loop (length buf + 1) ehp
          \<lparr>wi_msg = rp, wi_mit = break_init buf, wi_cp = 0,
           wi_cnt = \<lparr>cnt_alen = 0, cnt_lastalen = 0\<rparr>, wi_shp = None, wi_table = 0\<rparr>;
        case r of
          None \<Rightarrow> Some None
        | Some st \<Rightarrow>
            let rp = wi_msg st in
            if m_hdrs rp = [] then Some None
            else Some (Some (rp\<lparr>m_body := drop (wi_cp st) buf\<rparr>))
      })"

text \<open>\<open>mem\<close> is what \<open>malloc\<close> answers.\<close>

definition usipy_sip_msg_ctor_fromwire ::
  "(size_t \<Rightarrow> 64 word option) \<Rightarrow> string \<Rightarrow> usipy_msg option abortable" where
  "usipy_sip_msg_ctor_fromwire mem buf =
     (let alloc_len = usipy_sip_msg_alloc_len (of_nat (length buf)) in
      (case mem alloc_len of
         None \<Rightarrow> Some None
       | Some rp \<Rightarrow> usipy_sip_msg_init_fromwire rp alloc_len buf))"

definition usipy_sip_msg_build_fromwire ::
  "usipy_msg_heap \<Rightarrow> string \<Rightarrow> (usipy_msg option \<times> usipy_msg_heap) abortable" where
  "usipy_sip_msg_build_fromwire hp buf =
     (let alloc_len = usipy_sip_msg_alloc_len (of_nat (length buf)) in
      (case usipy_msg_heap_alloc_cnt hp alloc_len of
         (None, hp) \<Rightarrow> Some (None, hp)
       | (Some (off, cnt), hp) \<Rightarrow> do {
           r \<leftarrow> usipy_sip_msg_init_fromwire (mh_first hp + off) alloc_len buf;
           case r of
             None \<Rightarrow> do { hp \<leftarrow> usipy_msg_heap_cnt_rollback hp cnt; Some (None, hp) }
           | Some rp \<Rightarrow> Some (Some rp, hp)
         }))"

end
