(* ===== verification/Usipy_Msgops.thy ===== *)
theory Usipy_Msgops
  imports Usipy_Msg
begin

unbundle bit_operations_syntax

text \<open>
  The operations on a message that has been read (\<open>src/usipy_sip_msg.c\<close>): parsing its headers on
  demand, its transaction id, and writing it to the wire. \<open>stk\<close> is the uninitialised variable of
  the Via parser.
\<close>

subsection \<open>Parsing headers on demand\<close>

text \<open>
  The locals of \<open>usipy_sip_msg_parse_hdrs_impl\<close>. The matches are the indices of the headers, in
  the order found.
\<close>

record hdrs_scan =
  hs_msg :: usipy_msg
  hs_parsemask :: "64 word"
  hs_seenmask :: "64 word"
  hs_topparsed :: "64 word"
  hs_matches :: "nat list"

text \<open>
  One round for header \<open>i\<close>; \<open>hdrslen\<close> is the room of the match array, \<open>None\<close> for a null \<open>matchp\<close>.
  The flag is false for \<open>return (-1)\<close>.
\<close>

definition hdrs_match :: "64 word \<Rightarrow> bool \<Rightarrow> nat option \<Rightarrow> nat \<Rightarrow> hdrs_scan \<Rightarrow> hdrs_scan option" where
  "hdrs_match matchmask toponly hdrslen i st =
     (let ct = hdr_cantype (m_hdrs (hs_msg st) ! i) in
      (case hdrslen of
         None \<Rightarrow> Some st
       | Some room \<Rightarrow>
           if USIPY_HF_ISMSET matchmask ct \<and> (\<not> toponly \<or> \<not> USIPY_HF_ISMSET (hs_seenmask st) ct) then
             if length (hs_matches st) \<ge> room then None
             else Some (st\<lparr>hs_matches := hs_matches st @ [i],
                          hs_seenmask := hs_seenmask st OR USIPY_HFT_MASK ct\<rparr>)
           else Some st))"

definition hdrs_round ::
  "string \<Rightarrow> 64 word \<Rightarrow> bool \<Rightarrow> nat option \<Rightarrow> nat \<Rightarrow> hdrs_scan \<Rightarrow> (bool \<times> hdrs_scan) abortable" where
  "hdrs_round stk matchmask toponly hdrslen i st =
     (case hdrs_match matchmask toponly hdrslen i st of
        None \<Rightarrow> Some (False, st)
      | Some st \<Rightarrow>
          let mp = hs_msg st; shp = m_hdrs mp ! i; ct = hdr_cantype shp; hmask = USIPY_HFT_MASK ct in
          if \<not> USIPY_HF_ISMSET (hs_parsemask st) ct then
            Some (True, if toponly \<and> USIPY_HF_ISMSET (hs_topparsed st) ct
                        then st\<lparr>hs_topparsed := hs_topparsed st AND NOT hmask\<rparr> else st)
          else if he_parse (usipy_hdr_db_byid (h_hf_type shp)) = No_parse then Some (False, st)
          else do {
            (p, mhp) \<leftarrow> hdr_parse stk (he_parse (usipy_hdr_db_byid (h_hf_type shp))) (m_heap mp) (h_value shp);
            let st = st\<lparr>hs_msg := mp\<lparr>m_heap := mhp, m_hdrs := (m_hdrs mp)[i := shp\<lparr>h_parsed := p\<rparr>]\<rparr>\<rparr>;
            if p = P_null then Some (False, st)
            else if toponly then
              Some (True, st\<lparr>hs_parsemask := hs_parsemask st AND NOT hmask,
                            hs_topparsed := hs_topparsed st OR hmask\<rparr>)
            else Some (True, st)
          })"

fun hdrs_loop ::
  "string \<Rightarrow> 64 word \<Rightarrow> bool \<Rightarrow> nat option \<Rightarrow> nat list \<Rightarrow> hdrs_scan \<Rightarrow> (bool \<times> hdrs_scan) abortable" where
  "hdrs_loop stk matchmask toponly hdrslen [] st = Some (True, st)"
| "hdrs_loop stk matchmask toponly hdrslen (i # is) st = do {
     (ok, st) \<leftarrow> hdrs_round stk matchmask toponly hdrslen i st;
     if ok then hdrs_loop stk matchmask toponly hdrslen is st else Some (False, st)
   }"

text \<open>The matches are \<open>None\<close> when the call fails (\<open>matchp->nhdrs\<close> stays 0).\<close>

definition usipy_sip_msg_parse_hdrs_impl ::
  "string \<Rightarrow> usipy_msg \<Rightarrow> 64 word \<Rightarrow> bool \<Rightarrow> nat option \<Rightarrow> (nat list option \<times> usipy_msg) abortable" where
  "usipy_sip_msg_parse_hdrs_impl stk mp parsemask toponly hdrslen =
     (if m_present mp AND parsemask \<noteq> parsemask then Some (None, mp)
      else do {
        (ok, st) \<leftarrow> hdrs_loop stk parsemask toponly hdrslen [0..<length (m_hdrs mp)]
          \<lparr>hs_msg = mp, hs_parsemask = parsemask AND NOT (m_parsed mp), hs_seenmask = 0,
           hs_topparsed = 0, hs_matches = []\<rparr>;
        let mp = hs_msg st;
        if \<not> ok then Some (None, mp)
        else Some (Some (hs_matches st),
          mp\<lparr>m_parsed := m_parsed mp OR (if toponly then hs_topparsed st else hs_parsemask st)\<rparr>)
      })"

definition usipy_sip_msg_parse_hdrs ::
  "string \<Rightarrow> usipy_msg \<Rightarrow> 64 word \<Rightarrow> bool \<Rightarrow> (bool \<times> usipy_msg) abortable" where
  "usipy_sip_msg_parse_hdrs stk mp parsemask toponly =
     map_option (\<lambda>(r, mp). (r \<noteq> None, mp)) (usipy_sip_msg_parse_hdrs_impl stk mp parsemask toponly None)"

definition usipy_sip_msg_parse_hdrs_get ::
  "string \<Rightarrow> usipy_msg \<Rightarrow> 64 word \<Rightarrow> bool \<Rightarrow> nat \<Rightarrow> (nat list option \<times> usipy_msg) abortable" where
  "usipy_sip_msg_parse_hdrs_get stk mp parsemask toponly hdrslen =
     usipy_sip_msg_parse_hdrs_impl stk mp parsemask toponly (Some hdrslen)"

subsection \<open>The transaction id\<close>

definition USIPY_HF_TID_MASK :: "64 word" where
  "USIPY_HF_TID_MASK = USIPY_HFT_MASK USIPY_HF_CSEQ OR USIPY_HFT_MASK USIPY_HF_CALLID OR
     USIPY_HFT_MASK USIPY_HF_VIA OR USIPY_HFT_MASK USIPY_HF_FROM"

text \<open>The value of the first parameter called \<open>name\<close>; an empty one fails.\<close>

fun tid_param :: "string \<Rightarrow> usipy_tvpair list \<Rightarrow> string option" where
  "tid_param name [] = None"
| "tid_param name (p # ps) =
     (if tv_token p \<noteq> name then tid_param name ps
      else if tv_value p = [] then None else Some (tv_value p))"

text \<open>One header of the loop; the inner \<open>None\<close> is \<open>return (-1)\<close>.\<close>

definition tid_hdr :: "usipy_sip_hdr \<Rightarrow> usipy_sip_tid \<Rightarrow> usipy_sip_tid option abortable" where
  "tid_hdr shp tp =
     (case h_parsed shp of
        P_cseq c \<Rightarrow>
          if hdr_cantype shp = USIPY_HF_CSEQ then Some (Some (tp\<lparr>tid_cseq := c\<rparr>)) else None
      | P_generic g \<Rightarrow>
          if hdr_cantype shp = USIPY_HF_CALLID then Some (Some (tp\<lparr>tid_call_id := g\<rparr>)) else None
      | P_via v \<Rightarrow>
          if hdr_cantype shp = USIPY_HF_VIA
          then Some (map_option (\<lambda>b. tp\<lparr>tid_vbranch := b\<rparr>) (tid_param ''branch'' (via_params v)))
          else None
      | P_nameaddr n \<Rightarrow>
          if hdr_cantype shp = USIPY_HF_FROM
          then Some (map_option (\<lambda>t. tp\<lparr>tid_from_tag := t\<rparr>) (tid_param ''tag'' (na_params n)))
          else None
      | _ \<Rightarrow> None)"

fun tid_loop :: "usipy_sip_hdr list \<Rightarrow> 64 word \<Rightarrow> usipy_sip_tid \<Rightarrow> (64 word \<times> usipy_sip_tid) option abortable" where
  "tid_loop [] seenmask tp = Some (Some (seenmask, tp))"
| "tid_loop (shp # hs) seenmask tp =
     (if USIPY_HF_ISMSET seenmask (hdr_cantype shp) then tid_loop hs seenmask tp
      else do {
        r \<leftarrow> tid_hdr shp tp;
        case r of
          None \<Rightarrow> Some None
        | Some tp \<Rightarrow> tid_loop hs (seenmask OR USIPY_HFT_MASK (hdr_cantype shp)) tp
      })"

definition usipy_sip_msg_get_tid ::
  "string \<Rightarrow> usipy_msg \<Rightarrow> usipy_sip_tid \<Rightarrow> (usipy_sip_tid option \<times> usipy_msg) abortable" where
  "usipy_sip_msg_get_tid stk mp tp = do {
     (ok, mp) \<leftarrow> usipy_sip_msg_parse_hdrs stk mp USIPY_HF_TID_MASK True;
     if \<not> ok then Some (None, mp)
     else do {
       r \<leftarrow> tid_loop (m_hdrs mp) (NOT USIPY_HF_TID_MASK) tp;
       case r of
         None \<Rightarrow> Some (None, mp)
       | Some (seenmask, tp) \<Rightarrow>
           if NOT seenmask \<noteq> 0 then Some (None, mp)
           else Some (Some (tp\<lparr>tid_hash := usipy_sip_tid_hash tp\<rparr>), mp)
     }
   }"

subsection \<open>Writing a message\<close>

text \<open>The builders get the room left and answer the text they wrote.\<close>

definition usipy_sip_msg_build_sline_cb :: "usipy_msg \<Rightarrow> nat \<Rightarrow> string option abortable" where
  "usipy_sip_msg_build_sline_cb mp len =
     (case (m_kind mp, sln_parsed (m_sline mp)) of
        (USIPY_SIP_MSG_REQ, SL_request rl) \<Rightarrow> do {
          dassert (rl_method rl \<noteq> USIPY_SIP_METHOD_generic);
          Some (do {
            buf \<leftarrow> snprintf_at (pct_s (usipy_method_db ! rl_method rl) @ '' '') len [];
            buf \<leftarrow> (case rl_ruri rl of
                Some u \<Rightarrow>
                  (case usipy_sip_uri_build u (len - length buf) of
                     None \<Rightarrow> None
                   | Some t \<Rightarrow> if length t \<ge> len - length buf then None else Some (buf @ t))
              | None \<Rightarrow> snprintf_at (pct_s (rl_onwire_ruri rl)) len buf);
            snprintf_at ('' '' @ pct_s (if rl_version rl \<noteq> [] then rl_version rl
                else if rl_onwire_version rl \<noteq> [] then rl_onwire_version rl else ''SIP/2.0'') @ CRLF)
              len buf
          })
        }
      | (USIPY_SIP_MSG_RES, SL_status sl) \<Rightarrow>
          Some (snprintf_at (pct_s (sl_version sl) @ '' '' @ dec (unat (st_code (sl_status sl))) @ '' '' @
            pct_s (st_reason_phrase (sl_status sl)) @ CRLF) len [])
      | (USIPY_SIP_MSG_UNKN, _) \<Rightarrow> Some None
      | _ \<Rightarrow> None)"

definition usipy_sip_msg_build_hdr_cb :: "usipy_sip_hdr \<Rightarrow> nat \<Rightarrow> string option abortable" where
  "usipy_sip_msg_build_hdr_cb shp len =
     (let hf = usipy_hdr_db_byid (h_hf_type shp) in
      if length (he_name hf) + 2 + 2 > len then Some None
      else (case do { buf \<leftarrow> usipy_strbuf_append (he_name hf) len []; usipy_strbuf_append '': '' len buf } of
              None \<Rightarrow> Some None
            | Some buf \<Rightarrow> do {
                r \<leftarrow> hdr_build_value (he_build hf) (h_parsed shp) (len - length buf - 2);
                Some (map_option (\<lambda>t. buf @ t @ CRLF) r)
              }))"

text \<open>The loop over the headers: the last Content-Length header is kept for the end.\<close>

fun build_hdrs_loop ::
  "nat \<Rightarrow> usipy_sip_hdr list \<Rightarrow> usipy_sip_hdr option \<Rightarrow> string \<Rightarrow>
     (usipy_sip_hdr option \<times> string) option abortable" where
  "build_hdrs_loop len [] cl buf = Some (Some (cl, buf))"
| "build_hdrs_loop len (h # hs) cl buf =
     (if hdr_cantype h = USIPY_HF_CONTENTLENGTH then build_hdrs_loop len hs (Some h) buf
      else do {
        r \<leftarrow> usipy_sip_msg_build_hdr_cb h (len - length buf);
        case r of None \<Rightarrow> Some None | Some t \<Rightarrow> build_hdrs_loop len hs cl (buf @ t)
      })"

definition usipy_sip_msg_build_cb :: "usipy_msg \<Rightarrow> nat \<Rightarrow> string option abortable" where
  "usipy_sip_msg_build_cb mp len = do {
     r \<leftarrow> usipy_sip_msg_build_sline_cb mp len;
     case r of
       None \<Rightarrow> Some None
     | Some buf \<Rightarrow> do {
         r \<leftarrow> build_hdrs_loop len (m_hdrs mp) None buf;
         case r of
           None \<Rightarrow> Some None
         | Some (cl, buf) \<Rightarrow> do {
             r \<leftarrow> (case cl of
                 None \<Rightarrow> Some (Some buf)
               | Some h \<Rightarrow> do {
                   r \<leftarrow> usipy_sip_msg_build_hdr_cb h (len - length buf);
                   Some (map_option (\<lambda>t. buf @ t) r)
                 });
             case r of
               None \<Rightarrow> Some None
             | Some buf \<Rightarrow>
                 if len - length buf < 2 then Some None
                 else
                   let buf = buf @ CRLF in
                   if length (m_body mp) > len - length buf then Some None
                   else Some (Some (buf @ m_body mp))
           }
       }
   }"

text \<open>The callback is run on the room \<open>usipy_msg_heap_build\<close> finds above the aligned mark.\<close>

definition usipy_sip_msg_build ::
  "usipy_msg_heap \<Rightarrow> usipy_msg \<Rightarrow> (slice option \<times> usipy_msg_heap \<times> usipy_msg) abortable" where
  "usipy_sip_msg_build hp mp =
     (let currfree = mh_tsize hp - USIPY_ALIGNED_SIZE (mh_alen hp) in do {
        out \<leftarrow> (if currfree = 0 then Some None else usipy_sip_msg_build_cb mp (unat currfree));
        (case usipy_msg_heap_build hp (\<lambda>_. out) of
           (None, hp) \<Rightarrow> Some (None, hp, mp)
         | (Some sl, hp) \<Rightarrow> Some (Some sl, hp, mp\<lparr>m_onwire := slice_read hp sl\<rparr>))
      })"

end
