(* ===== verification/Usipy_Res.thy ===== *)
theory Usipy_Res
  imports Usipy_Msgops
begin

unbundle bit_operations_syntax

text \<open>
  Component \<open>usipy_sip_res\<close> (\<open>src/usipy_sip_res.c\<close>) and the stateless part of
  \<open>src/usipy_sip_response_utils.c\<close>: a response to a request, with the headers RFC 3261 8.2.6.2 asks
  for copied from the request as they came. \<open>server\<close> is the string the platform answers for
  \<open>get_server\<close>. A null \<open>tagp\<close> is \<open>None\<close>.
\<close>

definition usipy_sip_res_trying :: usipy_sip_status where
  "usipy_sip_res_trying = \<lparr>st_code = 100, st_reason_phrase = ''Trying''\<rparr>"

definition usipy_sip_res_ringing :: usipy_sip_status where
  "usipy_sip_res_ringing = \<lparr>st_code = 180, st_reason_phrase = ''Ringing''\<rparr>"

definition usipy_sip_res_ok :: usipy_sip_status where
  "usipy_sip_res_ok = \<lparr>st_code = 200, st_reason_phrase = ''OK''\<rparr>"

definition usipy_sip_res_not_impl :: usipy_sip_status where
  "usipy_sip_res_not_impl = \<lparr>st_code = 501, st_reason_phrase = ''Not Implemented''\<rparr>"

definition usipy_sip_res_unauth :: usipy_sip_status where
  "usipy_sip_res_unauth = \<lparr>st_code = 401, st_reason_phrase = ''Unauthorized''\<rparr>"

definition usipy_sip_res_busy_here :: usipy_sip_status where
  "usipy_sip_res_busy_here = \<lparr>st_code = 486, st_reason_phrase = ''Busy Here''\<rparr>"

definition usipy_sip_res_req_term :: usipy_sip_status where
  "usipy_sip_res_req_term = \<lparr>st_code = 487, st_reason_phrase = ''Request Terminated''\<rparr>"

text \<open>The four bytes: a character wraps at 256, as the assignment to \<open>char\<close> does.\<close>

definition scode2str :: "uint32 \<Rightarrow> string" where
  "scode2str scode =
     [char_of (48 + unat scode div 100), char_of (48 + (unat scode mod 100) div 10),
      char_of (48 + unat scode mod 10), SP]"

definition res_copyfirst :: "64 word" where
  "res_copyfirst = USIPY_HFT_MASK USIPY_HF_FROM OR USIPY_HFT_MASK USIPY_HF_CALLID OR
     USIPY_HFT_MASK USIPY_HF_TO OR USIPY_HFT_MASK USIPY_HF_CSEQ"

definition res_copyall :: "64 word" where
  "res_copyall = USIPY_HFT_MASK USIPY_HF_VIA OR USIPY_HFT_MASK USIPY_HF_RECORDROUTE"

abbreviation (input) USIPY_SIP_RES_NAPPEND_HDRS_MAX :: nat where "USIPY_SIP_RES_NAPPEND_HDRS_MAX \<equiv> 2"

definition usipy_sip_res_init_append_hdrs :: "string \<Rightarrow> (nat \<times> string) list" where
  "usipy_sip_res_init_append_hdrs server =
     (if length server \<noteq> 0 then [(USIPY_HF_SERVER, server)] else []) @ [(USIPY_HF_CONTENTLENGTH, ''0'')]"

definition usipy_sip_res_to_tag_extra :: "string option \<Rightarrow> nat" where
  "usipy_sip_res_to_tag_extra tagp =
     (case tagp of None \<Rightarrow> 0 | Some t \<Rightarrow> if length t \<noteq> 0 then 5 + length t else 0)"

definition usipy_sip_res_append_raw_size :: "string \<Rightarrow> nat" where
  "usipy_sip_res_append_raw_size server =
     2 + sum_list (map (\<lambda>(ty, val). length (he_name (usipy_hdr_db_byid ty)) + 2 + length val + 2)
           (usipy_sip_res_init_append_hdrs server))"

definition usipy_sip_res_hdr_count :: "usipy_msg \<Rightarrow> nat" where
  "usipy_sip_res_hdr_count reqp =
     (let nhdrs = length (m_hdrs reqp) + USIPY_SIP_RES_NAPPEND_HDRS_MAX in
      if nhdrs > USIPY_SIP_MSG_NHDRS_HINT then USIPY_SIP_MSG_NHDRS_HINT else nhdrs)"

definition usipy_sip_res_alloc_size_build :: "string \<Rightarrow> usipy_msg \<Rightarrow> string option \<Rightarrow> size_t" where
  "usipy_sip_res_alloc_size_build server reqp tagp =
     (let raw_len = of_nat (length (m_onwire reqp) + usipy_sip_res_append_raw_size server +
            usipy_sip_res_to_tag_extra tagp);
          heap_extra = usipy_sip_msg_extra_heap_size raw_len;
          hdr_space = of_nat (sizeof_usipy_sip_hdr * usipy_sip_res_hdr_count reqp) in
      of_nat sizeof_usipy_msg + USIPY_ALIGNED_SIZE raw_len + USIPY_ALIGNED_SIZE hdr_space + heap_extra)"

text \<open>\<open>USIPY_APPEND_MEM\<close> and \<open>_STR\<close>: the text goes to the end of what is written.\<close>

abbreviation append_mem :: "nat \<Rightarrow> string \<Rightarrow> string \<Rightarrow> string option" where
  "append_mem \<equiv> USIPY_APPEND_STR"

text \<open>
  \<open>usipy_sip_res_append_hdr\<close>: the text with the header added, and the header. Its name is the
  canonical or compact name of the table entry \<open>hf\<close>.
\<close>

definition usipy_sip_res_append_hdr ::
  "nat \<Rightarrow> nat \<Rightarrow> string \<Rightarrow> string \<Rightarrow> string option \<Rightarrow> string \<Rightarrow> (string \<times> usipy_sip_hdr) option" where
  "usipy_sip_res_append_hdr len hf val extra_prefix extrap buf =
     (let extra = (case extrap of None \<Rightarrow> [] | Some e \<Rightarrow> e); nm = he_name (usipy_hdr_db_byid hf) in do {
        b \<leftarrow> append_mem len nm buf;
        b \<leftarrow> append_mem len '': '' b;
        b \<leftarrow> append_mem len val b;
        b \<leftarrow> (if length extra_prefix \<noteq> 0 then append_mem len extra_prefix b else Some b);
        b \<leftarrow> (if length extra \<noteq> 0 then append_mem len extra b else Some b);
        let full = drop (length buf) b;
        b \<leftarrow> append_mem len CRLF b;
        Some (b, hdr_zero\<lparr>h_full := full, h_name := nm, h_value := val @ extra_prefix @ extra,
               h_onwire_hf := hf, h_hf_type := hf\<rparr>)
      })"

text \<open>\<open>usipy_sip_res_get_next_ohp\<close>: there is room for another header.\<close>

definition usipy_sip_res_get_next_ohp :: "usipy_sip_hdr list \<Rightarrow> nat \<Rightarrow> bool" where
  "usipy_sip_res_get_next_ohp hdrs hdr_cap \<longleftrightarrow> \<not> length hdrs \<ge> hdr_cap"

definition usipy_sip_res_append_next_hdr ::
  "nat \<Rightarrow> nat \<Rightarrow> nat \<Rightarrow> string \<Rightarrow> string \<Rightarrow> string option \<Rightarrow> string \<times> usipy_sip_hdr list \<Rightarrow>
     (string \<times> usipy_sip_hdr list) option" where
  "usipy_sip_res_append_next_hdr hdr_cap len hf val extra_prefix extrap st =
     (case st of (buf, hdrs) \<Rightarrow>
        if \<not> usipy_sip_res_get_next_ohp hdrs hdr_cap then None
        else map_option (\<lambda>(buf, h). (buf, hdrs @ [h]))
               (usipy_sip_res_append_hdr len hf val extra_prefix extrap buf))"

text \<open>The loop over the headers of the request; the mask is what is left of \<open>copyfirst\<close>.\<close>

fun res_copy_hdrs ::
  "nat \<Rightarrow> nat \<Rightarrow> string option \<Rightarrow> usipy_sip_hdr list \<Rightarrow> 64 word \<Rightarrow> string \<times> usipy_sip_hdr list \<Rightarrow>
     (64 word \<times> string \<times> usipy_sip_hdr list) option" where
  "res_copy_hdrs hdr_cap len tagp [] copyfirst st = Some (copyfirst, st)"
| "res_copy_hdrs hdr_cap len tagp (shp # hs) copyfirst st =
     (let ct = hdr_cantype shp;
          tagged = (ct = USIPY_HF_TO \<and> (case tagp of None \<Rightarrow> False | Some t \<Rightarrow> length t \<noteq> 0)) in
      if USIPY_HF_ISMSET copyfirst ct then do {
        st \<leftarrow> usipy_sip_res_append_next_hdr hdr_cap len (h_hf_type shp) (h_value shp)
               (if tagged then '';tag='' else []) (if ct = USIPY_HF_TO then tagp else None) st;
        res_copy_hdrs hdr_cap len tagp hs (copyfirst AND NOT (USIPY_HFT_MASK ct)) st
      }
      else if USIPY_HF_ISMSET res_copyall ct then do {
        st \<leftarrow> usipy_sip_res_append_next_hdr hdr_cap len (h_hf_type shp) (h_value shp) [] None st;
        res_copy_hdrs hdr_cap len tagp hs copyfirst st
      }
      else res_copy_hdrs hdr_cap len tagp hs copyfirst st)"

fun res_append_hdrs ::
  "nat \<Rightarrow> nat \<Rightarrow> (nat \<times> string) list \<Rightarrow> string \<times> usipy_sip_hdr list \<Rightarrow>
     (string \<times> usipy_sip_hdr list) option" where
  "res_append_hdrs hdr_cap len [] st = Some st"
| "res_append_hdrs hdr_cap len ((ty, val) # as) st = do {
     st \<leftarrow> usipy_sip_res_append_next_hdr hdr_cap len ty val [] None st;
     res_append_hdrs hdr_cap len as st
   }"

text \<open>
  The callback that writes the response: the text, the status line and the headers. The status
  code is written without a look at the room: if it does not fit, the outer result is \<open>None\<close>.
\<close>

definition usipy_sip_res_build_fromreq_tagged_sz ::
  "string \<Rightarrow> usipy_msg \<Rightarrow> usipy_sip_status \<Rightarrow> string option \<Rightarrow> nat \<Rightarrow> nat \<Rightarrow>
     (string \<times> usipy_sip_status_line \<times> usipy_sip_hdr list) option abortable" where
  "usipy_sip_res_build_fromreq_tagged_sz server reqp slp tagp hdr_cap len =
     (case sln_parsed (m_sline reqp) of
        SL_request rlin \<Rightarrow>
          let vp = (if rl_version rlin = [] then rl_onwire_version rlin else rl_version rlin) in
          (case do { buf \<leftarrow> append_mem len vp []; append_mem len '' '' buf } of
             None \<Rightarrow> Some None
           | Some buf \<Rightarrow> do {
               dassert (length buf + 4 \<le> len);
               let buf = buf @ scode2str (st_code slp);
               Some (do {
                 buf \<leftarrow> append_mem len (st_reason_phrase slp) buf;
                 buf \<leftarrow> append_mem len CRLF buf;
                 (copyfirst, st) \<leftarrow> res_copy_hdrs hdr_cap len tagp (m_hdrs reqp) res_copyfirst (buf, []);
                 (if copyfirst \<noteq> 0 then None
                  else do {
                    (buf, hdrs) \<leftarrow> res_append_hdrs hdr_cap len (usipy_sip_res_init_append_hdrs server) st;
                    buf \<leftarrow> append_mem len CRLF buf;
                    Some (buf, \<lparr>sl_version = vp,
                            sl_status = slp\<rparr>, hdrs)
                  })
               })
             })
      | _ \<Rightarrow> None)"

definition usipy_sip_res_init_fromreq ::
  "string \<Rightarrow> 64 word \<Rightarrow> size_t \<Rightarrow> usipy_msg \<Rightarrow> usipy_sip_status \<Rightarrow> string option \<Rightarrow> usipy_msg option abortable" where
  "usipy_sip_res_init_fromreq server base alloc_len reqp slp tagp =
     (let heap_size = alloc_len - of_nat sizeof_usipy_msg;
          hdr_cap = usipy_sip_res_hdr_count reqp;
          hp = usipy_msg_heap_init (base + of_nat sizeof_usipy_msg) (replicate (unat heap_size) NUL)
                 heap_size [] 0;
          currfree = mh_tsize hp - USIPY_ALIGNED_SIZE (mh_alen hp) in do {
        out \<leftarrow> (if currfree = 0 then Some None
               else usipy_sip_res_build_fromreq_tagged_sz server reqp slp tagp hdr_cap (unat currfree));
        (case (out, usipy_msg_heap_build hp (\<lambda>_. map_option fst out)) of
           (Some (txt, sl, hdrs), (Some slc, hp)) \<Rightarrow>
             (case usipy_msg_heap_alloc hp (of_nat (sizeof_usipy_sip_hdr * length hdrs)) of
                (None, _) \<Rightarrow> Some None
              | (Some _, hp) \<Rightarrow>
                  let onwire = slice_read hp slc in
                  Some (Some \<lparr>m_onwire = onwire, m_body = [], m_kind = USIPY_SIP_MSG_RES,
                    m_sline = \<lparr>sln_onwire = take (length (sl_version sl) + 1 + 4 +
                        length (st_reason_phrase (sl_status sl))) onwire, sln_parsed = SL_status sl\<rparr>,
                    m_hdrs = hdrs, m_heap = hp, m_present = 0, m_parsed = 0\<rparr>))
         | _ \<Rightarrow> Some None)
      })"

definition usipy_sip_res_ctor_fromreq_tagged ::
  "(size_t \<Rightarrow> 64 word option) \<Rightarrow> string \<Rightarrow> usipy_msg \<Rightarrow> usipy_sip_status \<Rightarrow> string option \<Rightarrow>
     usipy_msg option abortable" where
  "usipy_sip_res_ctor_fromreq_tagged mem server reqp slp tagp =
     (let tlen = usipy_sip_res_alloc_size_build server reqp tagp in
      (case mem tlen of
         None \<Rightarrow> Some None
       | Some rp \<Rightarrow> usipy_sip_res_init_fromreq server rp tlen reqp slp tagp))"

definition usipy_sip_res_ctor_fromreq ::
  "(size_t \<Rightarrow> 64 word option) \<Rightarrow> string \<Rightarrow> usipy_msg \<Rightarrow> usipy_sip_status \<Rightarrow> usipy_msg option abortable" where
  "usipy_sip_res_ctor_fromreq mem server reqp slp =
     usipy_sip_res_ctor_fromreq_tagged mem server reqp slp None"

definition usipy_sip_res_build_fromreq_tagged ::
  "string \<Rightarrow> usipy_msg_heap \<Rightarrow> usipy_msg \<Rightarrow> usipy_sip_status \<Rightarrow> string option \<Rightarrow>
     (usipy_msg option \<times> usipy_msg_heap) abortable" where
  "usipy_sip_res_build_fromreq_tagged server hp reqp slp tagp =
     (let tlen = usipy_sip_res_alloc_size_build server reqp tagp in
      (case usipy_msg_heap_alloc_cnt hp tlen of
         (None, hp) \<Rightarrow> Some (None, hp)
       | (Some (off, cnt), hp) \<Rightarrow> do {
           r \<leftarrow> usipy_sip_res_init_fromreq server (mh_first hp + off) tlen reqp slp tagp;
           case r of
             None \<Rightarrow> do { hp \<leftarrow> usipy_msg_heap_cnt_rollback hp cnt; Some (None, hp) }
           | Some rp \<Rightarrow> Some (Some rp, hp)
         }))"

subsection \<open>Stateless responses\<close>

text \<open>\<open>None\<close> for no tag; the request comes back with what parsing it has cached.\<close>

definition usipy_sip_stateless_to_tag ::
  "string \<Rightarrow> usipy_sip_tid \<Rightarrow> usipy_msg \<Rightarrow> (string option \<times> usipy_msg) abortable" where
  "usipy_sip_stateless_to_tag stk tid0 msg = do {
     (m, msg) \<leftarrow> usipy_sip_msg_parse_hdrs_get stk msg (USIPY_HFT_MASK USIPY_HF_TO) True 1;
     (case m of
        Some (i # _) \<Rightarrow>
          (case h_parsed (m_hdrs msg ! i) of
             P_null \<Rightarrow> Some (None, msg)
           | P_nameaddr to_hdr \<Rightarrow>
               (case usipy_sip_hdr_nameaddr_get_param to_hdr ''tag'' of
                  Some (c # t) \<Rightarrow> Some (None, msg)
                | _ \<Rightarrow> do {
                    (tid, msg) \<leftarrow> usipy_sip_msg_get_tid stk msg tid0;
                    case tid of
                      None \<Rightarrow> Some (None, msg)
                    | Some tid \<Rightarrow> Some (Some (CHR ''s'' # hex8 (tid_hash tid)), msg)
                  })
           | _ \<Rightarrow> None)
      | _ \<Rightarrow> Some (None, msg))
   }"

datatype usipy_sip_tm_error =
    USIPY_SIP_TM_OK
  | USIPY_SIP_TM_ERR_PARSE
  | USIPY_SIP_TM_ERR_BADMSG
  | USIPY_SIP_TM_ERR_NOT_FOUND
  | USIPY_SIP_TM_ERR_UNSUPPORTED
  | USIPY_SIP_TM_ERR_INVAL
  | USIPY_SIP_TM_ERR_NOMEM
  | USIPY_SIP_TM_ERR_NOSPC

text \<open>The result carries what was handed to \<open>send_cb\<close>, whose success is \<open>sent\<close>.\<close>

definition usipy_sip_send_stateless_response ::
  "string \<Rightarrow> usipy_sip_tid \<Rightarrow> (size_t \<Rightarrow> 64 word option) \<Rightarrow> string \<Rightarrow> (string \<Rightarrow> bool) \<Rightarrow> usipy_msg \<Rightarrow>
     usipy_sip_status \<Rightarrow> (usipy_sip_tm_error \<times> string option \<times> usipy_msg) abortable" where
  "usipy_sip_send_stateless_response stk tid0 mem server sent msg statusp = do {
     (tag, msg) \<leftarrow> usipy_sip_stateless_to_tag stk tid0 msg;
     resp \<leftarrow> usipy_sip_res_ctor_fromreq_tagged mem server msg statusp tag;
     case resp of
       None \<Rightarrow> Some (USIPY_SIP_TM_ERR_NOMEM, None, msg)
     | Some resp \<Rightarrow>
         Some (if sent (m_onwire resp) then USIPY_SIP_TM_OK else USIPY_SIP_TM_ERR_INVAL,
           Some (m_onwire resp), msg)
   }"

end
