(* ===== verification/Usipy_Wire.thy ===== *)
theory Usipy_Wire
  imports Usipy_Msg
begin

unbundle bit_operations_syntax

text \<open>
  What \<open>usipy_sip_msg_init_fromwire\<close> computes, in terms of lines: the specification of a message
  text, and the proof that the loop over the line scanner, the heap and the header table implements
  it.
\<close>

subsection \<open>A message text\<close>

text \<open>The line before the first CR LF and what follows it.\<close>

fun cut_line :: "string \<Rightarrow> (string \<times> string) option" where
  "cut_line (c # d # s) =
     (if c = CR \<and> d = LF then Some ([], s) else map_option (\<lambda>(l, r). (c # l, r)) (cut_line (d # s)))"
| "cut_line s = None"

lemma cut_line_Some: "cut_line s = Some (l, r) \<Longrightarrow> s = l @ CRLF @ r \<and>
   (\<forall>p<length l. \<not> (s ! p = CR \<and> s ! (p + 1) = LF))"
proof (induction s arbitrary: l rule: cut_line.induct)
  case (1 c d s)
  show ?case
  proof (cases "c = CR \<and> d = LF")
    case False
    then obtain l' where l': "l = c # l'" "cut_line (d # s) = Some (l', r)" using 1(2) by auto
    have IH: "d # s = l' @ CRLF @ r" "\<forall>q<length l'. \<not> ((d # s) ! q = CR \<and> (d # s) ! (q + 1) = LF)"
      using 1(1)[OF False l'(2)] by blast+
    have "\<not> ((c # d # s) ! p = CR \<and> (c # d # s) ! (p + 1) = LF)" if "p < length l" for p
    proof (cases p)
      case (Suc q)
      then have "q < length l'" using that l'(1) by simp
      then have "\<not> ((d # s) ! q = CR \<and> (d # s) ! (q + 1) = LF)" using IH(2) by blast
      then show ?thesis by (simp add: Suc)
    qed (use False in auto)
    moreover have "c # d # s = l @ CRLF @ r" by (simp only: IH(1) l'(1) append_Cons)
    ultimately show ?thesis by blast
  qed (use 1(2) in auto)
qed auto

lemma cut_line_length: "cut_line s = Some (l, r) \<Longrightarrow> length r < length s"
  by (drule cut_line_Some) simp

lemma cut_line_None: "cut_line s = None \<Longrightarrow> p + 1 < length s \<Longrightarrow> \<not> (s ! p = CR \<and> s ! (p + 1) = LF)"
proof (induction s arbitrary: p rule: cut_line.induct)
  case (1 c d s)
  then show ?case by (cases p) (auto split: if_splits)
qed auto

lemma cut_line_free: "(\<forall>p. p + 1 < length (l @ [CR]) \<longrightarrow> \<not> (l @ [CR]) ! p = CR \<or> (l @ [CR]) ! (p + 1) \<noteq> LF) \<Longrightarrow>
   cut_line (l @ CRLF @ r) = Some (l, r)"
proof (induction l)
  case (Cons c l)
  have fr: "\<forall>p. p + 1 < length (l @ [CR]) \<longrightarrow> \<not> (l @ [CR]) ! p = CR \<or> (l @ [CR]) ! (p + 1) \<noteq> LF"
  proof (intro allI impI)
    fix p assume "p + 1 < length (l @ [CR])"
    then show "\<not> (l @ [CR]) ! p = CR \<or> (l @ [CR]) ! (p + 1) \<noteq> LF"
      using Cons(2)[rule_format, of "Suc p"] by simp
  qed
  obtain d t where dt: "l @ CRLF @ r = d # t" "l @ [CR] = d # tl (l @ [CR])" by (cases l) auto
  have "\<not> (c = CR \<and> d = LF)"
    using Cons(2)[rule_format, of 0] dt(2) by (metis append_Cons add_0 length_Cons nth_Cons_0
      nth_Cons_Suc One_nat_def length_append_singleton less_Suc_eq_0_disj not_less_eq zero_less_Suc)
  then show ?case using Cons(1)[OF fr] dt(1) by simp
qed simp

text \<open>
  \<open>read_headers h s\<close> continues the header \<open>h\<close> with the lines of \<open>s\<close>: a line that begins with white
  space belongs to it. A header counts when a line follows it that is not its continuation; the
  first empty line ends the headers, and what is left is the body. A header still open when the
  lines run out is not in the list.
\<close>

function read_headers :: "string \<Rightarrow> string \<Rightarrow> string list \<times> string" where
  "read_headers h s =
     (case cut_line s of
        None \<Rightarrow> ([], s)
      | Some (l, r) \<Rightarrow>
          if USIPY_ISWS (hd s) then read_headers (h @ CRLF @ l) r
          else if l = [] then ([h], r)
          else (case read_headers l r of (hs, b) \<Rightarrow> (h # hs, b)))"
  by pat_completeness auto
termination
  by (relation "measure (length \<circ> snd)") (auto dest: cut_line_length)

declare read_headers.simps [simp del]

text \<open>Start line, headers and body.\<close>

definition split_message :: "string \<Rightarrow> (string \<times> string list \<times> string) option" where
  "split_message s = do {
     (sl, r) \<leftarrow> cut_line s;
     (l, r) \<leftarrow> cut_line r;
     (let (hs, b) = read_headers l r in if l = [] \<or> hs = [] then None else Some (sl, hs, b))
   }"

text \<open>One header: the values of a header whose name is known to take a list are separate headers.\<close>

definition header_of_text :: "string \<Rightarrow> usipy_sip_hdr list option" where
  "header_of_text full = do {
     (name, val) \<leftarrow> usipy_str_split full CHR '':'';
     hde \<leftarrow> usipy_hdr_db_lookup (usipy_str_trm_e name);
     Some (value_headers (hdr_zero\<lparr>h_full := full, h_name := usipy_str_trm_e name,
        h_onwire_hf := hde,
        h_hf_type := (if usipy_hdr_iscmpct hde then he_cantype (usipy_hdr_db_byid hde) else hde)\<rparr>)
       (if he_csl_allowed (usipy_hdr_db_byid hde) then split_on CHR '','' val else [val]))
   }"

fun headers_of_text :: "string list \<Rightarrow> usipy_sip_hdr list option" where
  "headers_of_text [] = Some []"
| "headers_of_text (h # hs) = do {
     vs \<leftarrow> header_of_text h;
     ws \<leftarrow> headers_of_text hs;
     Some (vs @ ws)
   }"

definition short_name :: "string \<Rightarrow> bool" where
  "short_name full \<longleftrightarrow>
     (case usipy_str_split full CHR '':'' of
        None \<Rightarrow> True | Some (name, _) \<Rightarrow> length (usipy_str_trm_e name) \<le> 32)"

text \<open>The set of the types of the headers, as a mask.\<close>

fun present_mask :: "usipy_sip_hdr list \<Rightarrow> 64 word" where
  "present_mask [] = 0"
| "present_mask (h # hs) = USIPY_HF_MASK h OR present_mask hs"

lemma present_mask_append: "present_mask (xs @ ys) = present_mask xs OR present_mask ys"
  by (induction xs) (auto simp: or.assoc)

lemma present_mask_values: "present_mask (value_headers hdr vs) = USIPY_HF_MASK hdr"
proof -
  have "present_mask (map (\<lambda>v. hdr_zero\<lparr>h_hf_type := h_hf_type hdr, h_value := trim_value v,
      h_onwire_hf := h_onwire_hf hdr, h_name := h_name hdr\<rparr>) ws) OR USIPY_HF_MASK hdr = USIPY_HF_MASK hdr" for ws
    by (induction ws) (auto simp: USIPY_HF_MASK_def or.assoc)
  then show ?thesis by (simp add: value_headers_def USIPY_HF_MASK_def or.commute)
qed

lemma value_headers_not_Nil [simp]: "value_headers hdr vs \<noteq> []"
  by (simp add: value_headers_def)

lemma preparse_header:
  assumes "short_name full"
  shows "usipy_sip_hdr_preparse (hdr_zero\<lparr>h_full := full\<rparr>) room = Some
    (case header_of_text full of None \<Rightarrow> None
     | Some vs \<Rightarrow> if 1 < length vs \<and> room < length vs then None else Some vs)"
proof (cases "usipy_str_split full CHR '':''")
  case None
  then show ?thesis by (simp add: usipy_sip_hdr_preparse_def header_of_text_def)
next
  case (Some nv)
  obtain name val where nv: "nv = (name, val)" by fastforce
  then obtain hde where hde: "usipy_hdr_db_lookup (usipy_str_trm_e name) = Some hde"
    using assms Some hdr_lookup_defined by (fastforce simp: short_name_def)
  have full: "full = name @ CHR '':'' # val" "CHR '':'' \<notin> set name"
    using Some nv by (simp_all add: split_Some_iff)
  have len: "length (value_headers h vs) = length vs" if "vs \<noteq> []" for h vs
    using that by (simp add: value_headers_def)
  show ?thesis
    using preparse_spec[of "hdr_zero\<lparr>h_full := full\<rparr>" name val hde room] full hde Some nv
    by (simp add: header_of_text_def Let_def len)
qed

lemma hd_value_headers: "USIPY_HF_MASK (hd (value_headers hdr vs)) = USIPY_HF_MASK hdr"
  by (simp add: value_headers_def USIPY_HF_MASK_def)

lemma header_of_text_values: "header_of_text full = Some vs \<Longrightarrow> \<exists>hdr xs. vs = value_headers hdr xs"
  by (fastforce simp: header_of_text_def bind_eq_Some_conv)

lemma header_of_text_not_Nil: "header_of_text full = Some vs \<Longrightarrow> vs \<noteq> []"
  by (auto simp: header_of_text_def bind_eq_Some_conv)

subsection \<open>Lines and the scanner\<close>

definition ends_after :: "string \<Rightarrow> nat \<Rightarrow> nat set" where
  "ends_after buf cp = {q. cp < q \<and> lf_at False buf q}"

lemma ends_after_0: "ends_after buf 0 = ends_from buf 0"
  by (auto simp: ends_after_def ends_from_def lf_at_def)

lemma ends_after_iff: "q \<in> ends_after buf cp \<longleftrightarrow>
   (\<exists>p. q = cp + p + 1 \<and> p + 1 < length (drop cp buf) \<and> drop cp buf ! p = CR \<and> drop cp buf ! (p + 1) = LF)"
  (is "?L \<longleftrightarrow> ?R")
proof
  assume q: ?L
  then have "q = cp + (q - cp - 1) + 1" "cp < q" "q < length buf" "buf ! q = LF" "buf ! (q - 1) = CR"
    by (auto simp: ends_after_def lf_at_def)
  then show ?R by (intro exI[of _ "q - cp - 1"]) auto
next
  assume ?R
  then obtain p where "q = cp + p + 1" "p + 1 < length (drop cp buf)" "drop cp buf ! p = CR"
    "drop cp buf ! (p + 1) = LF" by blast
  then show ?L by (auto simp: ends_after_def lf_at_def)
qed

lemma ends_after_None: "cut_line (drop cp buf) = None \<Longrightarrow> ends_after buf cp = {}"
proof (rule equals0I)
  fix q assume "cut_line (drop cp buf) = None" "q \<in> ends_after buf cp"
  then show False using cut_line_None[of "drop cp buf"] by (auto simp: ends_after_iff)
qed

lemma cut_line_parts:
  assumes "cut_line (drop cp buf) = Some (l, r)"
  shows "r = drop (cp + length l + 2) buf" "l = take (length l) (drop cp buf)"
    "cp + length l + 2 \<le> length buf" "take 2 (drop (cp + length l) buf) = CRLF"
proof -
  have d: "drop cp buf = l @ CRLF @ r" using cut_line_Some[OF assms] by simp
  have e: "drop (cp + n) buf = drop n (l @ CRLF @ r)" for n
    using d by (metis drop_drop add.commute)
  show "r = drop (cp + length l + 2) buf" using e[of "length l + 2"] by simp
  show "l = take (length l) (drop cp buf)" by (simp add: d)
  show "take 2 (drop (cp + length l) buf) = CRLF" using e[of "length l"] by simp
  have "length (drop cp buf) = length l + 2 + length r" by (simp add: d)
  then show "cp + length l + 2 \<le> length buf" by simp
qed

lemma ends_after_Some:
  assumes "cut_line (drop cp buf) = Some (l, r)"
  shows "ends_after buf cp \<noteq> {}" "Min (ends_after buf cp) = cp + length l + 1"
    "ends_after buf cp - {Min (ends_after buf cp)} = ends_after buf (cp + length l + 2)"
proof -
  let ?q = "cp + length l + 1"
  have d: "drop cp buf = l @ CRLF @ r" and fr: "\<forall>p<length l. \<not> (drop cp buf ! p = CR \<and> drop cp buf ! (p + 1) = LF)"
    using cut_line_Some[OF assms] by auto
  have q: "?q \<in> ends_after buf cp"
    unfolding ends_after_iff by (rule exI[of _ "length l"]) (simp add: d nth_append)
  then show "ends_after buf cp \<noteq> {}" by blast
  have le: "?q \<le> x" if "x \<in> ends_after buf cp" for x
    using that fr unfolding ends_after_iff by (metis add_le_mono1 add_left_mono leI)
  have fin: "finite (ends_after buf cp)"
    using finite_ends_from[of buf 0] by (rule rev_finite_subset) (auto simp: ends_after_def ends_from_def)
  show m: "Min (ends_after buf cp) = ?q" using q le fin by (intro Min_eqI) auto
  have "lf_at False buf x \<and> ?q < x \<longrightarrow> ?q + 1 < x" for x
  proof (intro impI)
    assume x: "lf_at False buf x \<and> ?q < x"
    have "buf ! ?q = LF" using q by (simp add: ends_after_def lf_at_def)
    then have "x \<noteq> ?q + 1" using x by (auto simp: lf_at_def)
    then show "?q + 1 < x" using x by linarith
  qed
  then show "ends_after buf cp - {Min (ends_after buf cp)} = ends_after buf (cp + length l + 2)"
    unfolding m using le by (fastforce simp: ends_after_def)
qed

text \<open>The scanner stands at the line that starts at \<open>cp\<close>.\<close>

definition at_line :: "string \<Rightarrow> usipy_sip_msg_iterator \<Rightarrow> nat \<Rightarrow> bool" where
  "at_line buf mit cp \<longleftrightarrow> resting buf mit \<and> pending buf mit = ends_after buf cp"

lemma at_line_init: "at_line buf (break_init buf) 0"
  by (simp add: at_line_def resting_init ends_after_0)

lemma break_at_line:
  assumes "at_line buf mit cp"
  shows "case cut_line (drop cp buf) of
      None \<Rightarrow> fst (usipy_sip_msg_break_down mit) = - 1
    | Some (l, r) \<Rightarrow> fst (usipy_sip_msg_break_down mit) = int (cp + length l) \<and>
        at_line buf (snd (usipy_sip_msg_break_down mit)) (cp + length l + 2)"
proof -
  obtain i m where b: "usipy_sip_msg_break_down mit = (i, m)" by fastforce
  have cp: "call_post buf (ends_after buf cp) (i, m)"
    using break_down_step[of buf mit] assms b by (simp add: at_line_def)
  show ?thesis
  proof (cases "cut_line (drop cp buf)")
    case None
    then show ?thesis using cp b ends_after_None by simp
  next
    case (Some lr)
    obtain l r where "lr = (l, r)" by fastforce
    then show ?thesis using cp b Some ends_after_Some[of cp buf l r] by (simp add: at_line_def)
  qed
qed

subsection \<open>The headers\<close>

abbreviation hdr_count :: "wire_init \<Rightarrow> nat" where "hdr_count st \<equiv> length (m_hdrs (wi_msg st))"

text \<open>
  \<open>hp0\<close> is the heap after the start line. The header table is the newest allocation; it has room for
  the headers stored, and for one more while a header is open. \<open>ehp\<close> is at or past the end of the
  heap.
\<close>

definition block_ok :: "usipy_msg_heap \<Rightarrow> nat \<Rightarrow> bool" where
  "block_ok hp0 ehp \<longleftrightarrow> heap_ok hp0 \<and> unat (mh_first hp0) + hsize hp0 \<le> ehp \<and>
     ehp \<le> unat (mh_first hp0) + 2 ^ 61"

definition table_ok :: "usipy_msg_heap \<Rightarrow> wire_init \<Rightarrow> bool" where
  "table_ok hp0 st \<longleftrightarrow>
     cnt_ok hp0 (m_heap (wi_msg st)) (wi_cnt st) \<and> unat (wi_table st) = up8 (mark hp0) \<and>
     72 * hdr_count st \<le> unat (cnt_alen (wi_cnt st)) \<and>
     unat (cnt_alen (wi_cnt st)) \<le> 72 * (hdr_count st + 1)"

text \<open>The header that is open has the text \<open>h\<close>, and the line being read follows it.\<close>

definition open_header :: "string \<Rightarrow> wire_init \<Rightarrow> string \<Rightarrow> bool" where
  "open_header buf st h \<longleftrightarrow>
     (\<exists>fs. wi_shp st = Some (fs, length h) \<and> h = take (length h) (drop fs buf) \<and>
        wi_cp st = fs + length h + 2 \<and> take 2 (drop (fs + length h) buf) = CRLF)"

lemma up8_72: "up8 (72 * n) = 72 * n"
  by (rule up8_dvd) simp

lemma unat_HT_SIZEOF:
  assumes "72 * n < 2 ^ 62"
  shows "unat (HT_SIZEOF n) = 72 * (n + 1)"
proof -
  have "HT_SIZEOF n = of_nat (72 * (n + 1))"
    by (simp add: HT_SIZEOF_def algebra_simps)
  moreover have "72 * (n + 1) < 2 ^ LENGTH(64)" using assms by simp
  ultimately show ?thesis by (simp only: unat_of_nat mod_less)
qed

lemma table_bounds:
  assumes "block_ok hp0 ehp" "table_ok hp0 st"
  shows "up8 (mark hp0) + 72 * hdr_count st \<le> hsize hp0" "hsize hp0 \<le> 2 ^ 61"
proof -
  have c: "extends hp0 (m_heap (wi_msg st))"
    "mark (m_heap (wi_msg st)) = up8 (mark hp0) + unat (cnt_alen (wi_cnt st))"
    using assms(2) by (simp_all add: table_ok_def cnt_ok_def)
  have "mh_tsize (m_heap (wi_msg st)) = mh_tsize hp0"
    using c(1) by (intro same_frame_sel(1)) (simp add: extends_def)
  then have "mark (m_heap (wi_msg st)) \<le> hsize hp0"
    using heap_ok_mark[OF extends_okD[OF c(1)]] by simp
  then show "up8 (mark hp0) + 72 * hdr_count st \<le> hsize hp0"
    using assms(2) c(2) by (simp add: table_ok_def)
  show "hsize hp0 \<le> 2 ^ 61" using assms(1) by (simp add: block_ok_def)
qed

lemma hdr_room_eq:
  assumes "block_ok hp0 ehp" "table_ok hp0 st"
  shows "hsize hp0 \<le> up8 (mark hp0) + 72 * hdr_count st + 72 * hdr_room ehp st + 71"
    "up8 (mark hp0) + 72 * hdr_count st + 72 * hdr_room ehp st \<le> 2 ^ 61"
proof -
  have f: "mh_first (m_heap (wi_msg st)) = mh_first hp0"
    using assms(2) same_frame_sel(6) by (fastforce simp: table_ok_def cnt_ok_def extends_def)
  have t: "unat (wi_table st) = up8 (mark hp0)" using assms(2) by (simp add: table_ok_def)
  have b: "unat (mh_first hp0) + hsize hp0 \<le> ehp" "ehp \<le> unat (mh_first hp0) + 2 ^ 61"
    using assms(1) by (simp_all add: block_ok_def)
  define R where "R = ehp - (unat (mh_first hp0) + up8 (mark hp0) + 72 * hdr_count st)"
  have r: "hdr_room ehp st = R div 72" by (simp add: hdr_room_def f t R_def)
  have "72 * (R div 72) \<le> R" "R \<le> 72 * (R div 72) + 71" by linarith+
  then show "hsize hp0 \<le> up8 (mark hp0) + 72 * hdr_count st + 72 * hdr_room ehp st + 71"
    "up8 (mark hp0) + 72 * hdr_count st + 72 * hdr_room ehp st \<le> 2 ^ 61"
    using b table_bounds[OF assms] unfolding r R_def by linarith+
qed

text \<open>A grown table.\<close>

lemma grow_table:
  assumes blk: "block_ok hp0 ehp" and c: "cnt_ok hp0 h cnt" "unat (cnt_alen cnt) \<le> 72 * (n + 1)"
    and n: "72 * n < 2 ^ 62"
  obtains ok h' cnt' where "usipy_msg_heap_aextend h (HT_SIZEOF n) cnt = Some (ok, h', cnt')"
    "cnt_ok hp0 h' cnt'" "ok \<longleftrightarrow> up8 (mark hp0) + 72 * (n + 1) \<le> hsize hp0"
    "ok \<Longrightarrow> unat (cnt_alen cnt') = 72 * (n + 1)"
proof -
  have u: "unat (HT_SIZEOF n) = 72 * (n + 1)" using n by (rule unat_HT_SIZEOF)
  have u8: "up8 (unat (HT_SIZEOF n)) = 72 * (n + 1)" by (simp only: u up8_72)
  have p: "unat (HT_SIZEOF n) + 7 < 2 ^ 64" "unat (cnt_alen cnt) \<le> up8 (unat (HT_SIZEOF n))"
    using n c(2) unfolding u8 by (simp_all add: u)
  obtain ok h' cnt' where "usipy_msg_heap_aextend h (HT_SIZEOF n) cnt = Some (ok, h', cnt')"
    "cnt_ok hp0 h' cnt'" "ok \<longleftrightarrow> up8 (mark hp0) + up8 (unat (HT_SIZEOF n)) \<le> hsize hp0"
    "ok \<Longrightarrow> unat (cnt_alen cnt') = up8 (unat (HT_SIZEOF n))"
    by (rule aextend_spec[OF c(1) p]) blast
  then show thesis unfolding u8 by (rule that)
qed

text \<open>The header \<open>h\<close> is complete.\<close>

lemma finish_header_spec:
  assumes blk: "block_ok hp0 ehp" and tab: "table_ok hp0 st" and on: "m_onwire (wi_msg st) = buf"
    and op: "open_header buf st h" and sn: "short_name h"
    and alen: "unat (cnt_alen (wi_cnt st)) = 72 * (hdr_count st + 1)"
  obtains r where "finish_header ehp (the (wi_shp st)) st = Some r"
    "r = None \<Longrightarrow> header_of_text h = None \<or>
       (\<exists>vs. header_of_text h = Some vs \<and>
          hsize hp0 < up8 (mark hp0) + 72 * (hdr_count st + length vs + 1))"
    "\<And>st'. r = Some st' \<Longrightarrow> \<exists>vs heap cnt. header_of_text h = Some vs \<and>
       st' = st\<lparr>wi_msg := (wi_msg st)\<lparr>m_present := m_present (wi_msg st) OR present_mask vs,
                 m_hdrs := m_hdrs (wi_msg st) @ vs, m_heap := heap\<rparr>, wi_cnt := cnt\<rparr> \<and>
       table_ok hp0 st'"
proof -
  obtain fs where fs: "wi_shp st = Some (fs, length h)" "h = take (length h) (drop fs buf)"
    using op by (auto simp: open_header_def)
  have pre: "usipy_sip_hdr_preparse
      (hdr_zero\<lparr>h_full := take (snd (the (wi_shp st))) (drop (fst (the (wi_shp st))) (m_onwire (wi_msg st)))\<rparr>)
      (hdr_room ehp st) = Some (case header_of_text h of None \<Rightarrow> None
       | Some vs \<Rightarrow> if 1 < length vs \<and> hdr_room ehp st < length vs then None else Some vs)"
    using preparse_header[OF sn, of "hdr_room ehp st"] fs on by simp
  note room = hdr_room_eq[OF blk tab]
  note bnd = table_bounds[OF blk tab]
  have c: "cnt_ok hp0 (m_heap (wi_msg st)) (wi_cnt st)" using tab by (simp add: table_ok_def)
  show thesis
  proof (cases "header_of_text h")
    case None
    then show thesis by (intro that[of None]) (simp_all add: finish_header_def pre)
  next
    case (Some vs)
    have ne: "vs \<noteq> []" using header_of_text_not_Nil[OF Some] .
    have pm: "USIPY_HF_MASK (hd vs) = present_mask vs"
      using header_of_text_values[OF Some] hd_value_headers by (metis present_mask_values)
    show thesis
    proof (cases "1 < length vs")
      case False
      then have l1: "length vs = 1" using ne by (cases vs) auto
      let ?st = "st\<lparr>wi_msg := (wi_msg st)\<lparr>m_present := m_present (wi_msg st) OR present_mask vs,
          m_hdrs := m_hdrs (wi_msg st) @ vs, m_heap := m_heap (wi_msg st)\<rparr>, wi_cnt := wi_cnt st\<rparr>"
      have "finish_header ehp (the (wi_shp st)) st = Some (Some ?st)"
        using pre Some False pm by (simp add: finish_header_def Let_def)
      moreover have "table_ok hp0 ?st" using tab alen l1 by (simp add: table_ok_def)
      ultimately show thesis using Some by (intro that[of "Some ?st"]) (simp, simp, blast)
    next
      case True
      show thesis
      proof (cases "hdr_room ehp st < length vs")
        case big: True
        have "hsize hp0 < up8 (mark hp0) + 72 * (hdr_count st + length vs + 1)"
          using room(1) bnd(1) big by simp
        then show thesis using pre Some True big
          by (intro that[of None]) (simp_all add: finish_header_def)
      next
        case fit: False
        let ?n = "hdr_count st + length vs"
        have "72 * ?n \<le> 2 ^ 61" using room(2) fit by simp
        then have sm: "72 * ?n < 2 ^ 62" by (rule le_less_trans) simp
        have al: "unat (cnt_alen (wi_cnt st)) \<le> 72 * (?n + 1)" using alen by simp
        obtain ok heap cnt where g: "usipy_msg_heap_aextend (m_heap (wi_msg st)) (HT_SIZEOF ?n) (wi_cnt st) =
            Some (ok, heap, cnt)" "cnt_ok hp0 heap cnt" "ok \<longleftrightarrow> up8 (mark hp0) + 72 * (?n + 1) \<le> hsize hp0"
          "ok \<Longrightarrow> unat (cnt_alen cnt) = 72 * (?n + 1)"
          by (rule grow_table[OF blk c al sm]) blast
        let ?st = "st\<lparr>wi_msg := (wi_msg st)\<lparr>m_present := m_present (wi_msg st) OR present_mask vs,
          m_hdrs := m_hdrs (wi_msg st) @ vs, m_heap := heap\<rparr>, wi_cnt := cnt\<rparr>"
        have "ok \<Longrightarrow> table_ok hp0 ?st" using tab g by (simp add: table_ok_def)
        moreover have "finish_header ehp (the (wi_shp st)) st = Some (if ok then Some ?st else None)"
          using pre Some True fit pm g(1) by (simp add: finish_header_def Let_def)
        moreover have "\<not> ok \<Longrightarrow> hsize hp0 < up8 (mark hp0) + 72 * (hdr_count st + length vs + 1)"
          using g(3) by linarith
        ultimately show thesis using Some
          by (intro that[of "if ok then Some ?st else None"]) (simp, simp split: if_splits, auto split: if_splits)
      qed
    qed
  qed
qed

lemma table_okI:
  assumes "cnt_ok hp0 (m_heap (wi_msg st)) (wi_cnt st)" "unat (wi_table st) = up8 (mark hp0)"
    "unat (cnt_alen (wi_cnt st)) = 72 * (hdr_count st + 1)"
  shows "table_ok hp0 st"
  using assms by (simp add: table_ok_def)

text \<open>Another header starts at the line \<open>l\<close>, or the empty line ends the headers.\<close>

lemma start_header_next:
  assumes blk: "block_ok hp0 ehp" and tab: "table_ok hp0 st" and sh: "wi_shp st \<noteq> None"
    and chp: "wi_cp st < chp"
  obtains r where "start_header chp st = Some r"
    "r = Parse_error \<Longrightarrow> hsize hp0 < up8 (mark hp0) + 72 * (hdr_count st + 1)"
    "r \<noteq> Parse_error \<Longrightarrow> \<exists>heap cnt.
       r = Next_line (st\<lparr>wi_msg := (wi_msg st)\<lparr>m_heap := heap\<rparr>, wi_cnt := cnt,
             wi_shp := Some (wi_cp st, chp - wi_cp st), wi_cp := chp + 2\<rparr>) \<and>
       cnt_ok hp0 heap cnt \<and> unat (cnt_alen cnt) = 72 * (hdr_count st + 1)"
proof -
  have b: "up8 (mark hp0) + 72 * hdr_count st \<le> 2 ^ 61" using table_bounds[OF blk tab] by simp
  then have n: "72 * hdr_count st < 2 ^ 62" by simp
  have c: "cnt_ok hp0 (m_heap (wi_msg st)) (wi_cnt st)" "unat (cnt_alen (wi_cnt st)) \<le> 72 * (hdr_count st + 1)"
    using tab by (simp_all add: table_ok_def)
  obtain ok h' cnt' where g: "usipy_msg_heap_aextend (m_heap (wi_msg st)) (HT_SIZEOF (hdr_count st)) (wi_cnt st) =
      Some (ok, h', cnt')" "cnt_ok hp0 h' cnt'" "ok \<longleftrightarrow> up8 (mark hp0) + 72 * (hdr_count st + 1) \<le> hsize hp0"
    "ok \<Longrightarrow> unat (cnt_alen cnt') = 72 * (hdr_count st + 1)"
    by (rule grow_table[OF blk c n]) blast
  let ?r = "if ok then Next_line (st\<lparr>wi_msg := (wi_msg st)\<lparr>m_heap := h'\<rparr>, wi_cnt := cnt',
             wi_shp := Some (wi_cp st, chp - wi_cp st), wi_cp := chp + 2\<rparr>) else Parse_error"
  have "start_header chp st = Some ?r"
    using chp sh g(1) by (cases "wi_shp st") (auto simp: start_header_def Let_def multi_line_def next_line_def)
  moreover have "?r = Parse_error \<Longrightarrow> hsize hp0 < up8 (mark hp0) + 72 * (hdr_count st + 1)"
    using g(3) by (simp split: if_splits)
  ultimately show thesis using g(2,4) by (intro that[of ?r]) (assumption, simp split: if_splits, auto split: if_splits)
qed

text \<open>The first header.\<close>

lemma start_header_first:
  assumes blk: "block_ok hp0 ehp" and hp: "m_heap (wi_msg st) = hp0" and sh: "wi_shp st = None"
    and hs: "m_hdrs (wi_msg st) = []" and chp: "wi_cp st < chp"
  obtains r where "start_header chp st = Some r"
    "r = Parse_error \<Longrightarrow> hsize hp0 < up8 (mark hp0) + 72"
    "r \<noteq> Parse_error \<Longrightarrow> \<exists>heap cnt table.
       r = Next_line (st\<lparr>wi_msg := (wi_msg st)\<lparr>m_heap := heap\<rparr>, wi_cnt := cnt, wi_table := table,
             wi_shp := Some (wi_cp st, chp - wi_cp st), wi_cp := chp + 2\<rparr>) \<and>
       cnt_ok hp0 heap cnt \<and> unat table = up8 (mark hp0) \<and> unat (cnt_alen cnt) = 72"
proof -
  have ok: "heap_ok hp0" using blk by (simp add: block_ok_def)
  have u: "unat (HT_SIZEOF 0) = 72" using unat_HT_SIZEOF[of 0] by simp
  have b: "unat (HT_SIZEOF 0) + 14 < 2 ^ 64" by (simp add: u)
  have u8: "up8 72 = 72" using up8_72[of 1] by simp
  show thesis
  proof (cases "usipy_msg_heap_alloc_cnt hp0 (HT_SIZEOF 0)")
    case (Pair a heap)
    show thesis
    proof (cases a)
      case None
      then have "hsize hp0 < up8 (mark hp0) + 72"
        using alloc_cnt_None[OF ok b, of heap] Pair by (simp add: u u8)
      then show thesis using Pair None chp sh hs hp
        by (intro that[of Parse_error]) (simp_all add: start_header_def Let_def)
    next
      case (Some tc)
      obtain table cnt where tc: "tc = (table, cnt)" by fastforce
      note c = alloc_cnt_Some[OF ok b Pair[unfolded Some tc]]
      let ?r = "Next_line (st\<lparr>wi_msg := (wi_msg st)\<lparr>m_heap := heap\<rparr>, wi_cnt := cnt, wi_table := table,
             wi_shp := Some (wi_cp st, chp - wi_cp st), wi_cp := chp + 2\<rparr>)"
      have "start_header chp st = Some ?r"
        using Pair Some tc chp sh hs hp
        by (simp add: start_header_def Let_def multi_line_def next_line_def)
      then show thesis using c u u8 by (intro that[of ?r]) (assumption, simp, auto)
    qed
  qed
qed

definition in_headers :: "string \<Rightarrow> usipy_msg_heap \<Rightarrow> wire_init \<Rightarrow> string \<Rightarrow> bool" where
  "in_headers buf hp0 st h \<longleftrightarrow>
     at_line buf (wi_mit st) (wi_cp st) \<and> m_onwire (wi_msg st) = buf \<and> open_header buf st h \<and>
     table_ok hp0 st \<and> unat (cnt_alen (wi_cnt st)) = 72 * (hdr_count st + 1)"

lemma open_header_mit: "open_header buf (st\<lparr>wi_mit := m\<rparr>) h \<longleftrightarrow> open_header buf st h"
  by (simp add: open_header_def)

text \<open>A header that starts at the line \<open>l\<close>, and a continuation line.\<close>

lemma open_header_start:
  assumes "cut_line (drop cp buf) = Some (l, r)"
  shows "open_header buf (st\<lparr>wi_shp := Some (cp, cp + length l - cp), wi_cp := cp + length l + 2\<rparr>) l"
  unfolding open_header_def by (rule exI[of _ cp]) (use cut_line_parts[OF assms] in simp)

lemma open_header_continue:
  assumes op: "open_header buf st h" and cut: "cut_line (drop (wi_cp st) buf) = Some (l, r)"
    and shp: "wi_shp st = Some (fs, n)"
  shows "open_header buf (st\<lparr>wi_shp := Some (fs, wi_cp st + length l - fs),
     wi_cp := wi_cp st + length l + 2\<rparr>) (h @ CRLF @ l)"
proof -
  let ?cp = "wi_cp st" and ?h = "h @ CRLF @ l"
  have h: "n = length h" "h = take (length h) (drop fs buf)" "?cp = fs + length h + 2"
    "take 2 (drop (fs + length h) buf) = CRLF"
    using op shp by (auto simp: open_header_def)
  note p = cut_line_parts[OF cut]
  have "take (length h + (2 + length l)) (drop fs buf) =
      take (length h) (drop fs buf) @ take 2 (drop (fs + length h) buf) @
      take (length l) (drop (fs + length h + 2) buf)"
    by (simp only: take_add) (simp add: add.commute)
  then have "take (length ?h) (drop fs buf) = ?h"
    using h p(2) by (simp add: h(3)[symmetric])
  moreover have "take 2 (drop (fs + length ?h) buf) = CRLF"
    using p(4) h(3) by (simp add: add.assoc)
  ultimately show ?thesis
    unfolding open_header_def using h(3) by (intro exI[of _ fs]) (simp add: algebra_simps)
qed

lemma wire_step_open:
  assumes "wi_shp st = Some full" "at_line buf (wi_mit st) (wi_cp st)" "m_onwire (wi_msg st) = buf"
    "cut_line (drop (wi_cp st) buf) = Some (l, r)"
  defines "st1 \<equiv> st\<lparr>wi_mit := snd (usipy_sip_msg_break_down (wi_mit st))\<rparr>"
    and "chp \<equiv> wi_cp st + length l"
  shows "wire_step ehp st =
    (if USIPY_ISWS (hd (drop (wi_cp st) buf)) then Some (multi_line chp st1)
     else do {
       r \<leftarrow> finish_header ehp full st1;
       case r of None \<Rightarrow> Some Parse_error | Some st \<Rightarrow> start_header chp st
     })"
proof -
  have "wi_cp st < length buf" using cut_line_parts(3)[OF assms(4)] by simp
  then have "hd (drop (wi_cp st) buf) = buf ! wi_cp st" by (rule hd_drop_conv_nth)
  then show ?thesis
    using break_at_line[OF assms(2)] assms(1,3,4)
    by (cases "usipy_sip_msg_break_down (wi_mit st)")
       (simp add: wire_step_def Let_def st1_def chp_def nat_int_add)
qed

lemma wire_step_out:
  assumes "at_line buf (wi_mit st) (wi_cp st)" "cut_line (drop (wi_cp st) buf) = None"
  shows "wire_step ehp st =
    Some (Loop_end (st\<lparr>wi_mit := snd (usipy_sip_msg_break_down (wi_mit st))\<rparr>))"
  using break_at_line[OF assms(1)] assms(2)
  by (cases "usipy_sip_msg_break_down (wi_mit st)") (simp add: wire_step_def Let_def)

text \<open>What the loop returns when it starts inside the headers.\<close>

definition headers_done ::
  "string \<Rightarrow> usipy_msg_heap \<Rightarrow> usipy_msg \<Rightarrow> string list \<Rightarrow> string \<Rightarrow> wire_init \<Rightarrow> bool" where
  "headers_done buf hp0 m hs b st' \<longleftrightarrow>
     (\<exists>vs heap. headers_of_text hs = Some vs \<and> extends hp0 heap \<and> drop (wi_cp st') buf = b \<and>
        wi_msg st' = m\<lparr>m_present := m_present m OR present_mask vs, m_hdrs := m_hdrs m @ vs,
                       m_heap := heap\<rparr>)"

definition headers_failed :: "usipy_msg_heap \<Rightarrow> nat \<Rightarrow> string list \<Rightarrow> bool" where
  "headers_failed hp0 n hs \<longleftrightarrow>
     (\<forall>vs. headers_of_text hs = Some vs \<longrightarrow> hsize hp0 < up8 (mark hp0) + 72 * (n + length vs + 1))"

lemma headers_failed_mono: "headers_failed hp0 n hs \<Longrightarrow> n \<le> k \<Longrightarrow> headers_failed hp0 k hs"
  unfolding headers_failed_def by (meson add_le_mono1 le_trans less_le_trans mult_le_mono2 nat_add_left_cancel_le)

lemma headers_failed_Cons:
  assumes "header_of_text h = Some vs" "headers_failed hp0 (n + length vs) hs"
  shows "headers_failed hp0 n (h # hs)"
  using assms by (auto simp: headers_failed_def bind_eq_Some_conv add.assoc)

lemma headers_done_Cons:
  assumes "header_of_text h = Some vs"
    "headers_done buf hp0 (m\<lparr>m_present := m_present m OR present_mask vs, m_hdrs := m_hdrs m @ vs,
        m_heap := heap\<rparr>) hs b st'"
  shows "headers_done buf hp0 m (h # hs) b st'"
proof -
  obtain ws hp where "headers_of_text hs = Some ws" "extends hp0 hp" "drop (wi_cp st') buf = b"
    "wi_msg st' = m\<lparr>m_present := (m_present m OR present_mask vs) OR present_mask ws,
       m_hdrs := m_hdrs m @ vs @ ws, m_heap := hp\<rparr>"
    using assms(2) by (auto simp: headers_done_def)
  then show ?thesis
    unfolding headers_done_def using assms(1)
    by (intro exI[of _ "vs @ ws"] exI[of _ hp]) (simp add: present_mask_append or.assoc)
qed

fun headers_post ::
  "string \<Rightarrow> usipy_msg_heap \<Rightarrow> usipy_msg \<Rightarrow> string list \<Rightarrow> string \<Rightarrow> wire_init option \<Rightarrow> bool" where
  "headers_post buf hp0 m hs b None \<longleftrightarrow> headers_failed hp0 (length (m_hdrs m)) hs"
| "headers_post buf hp0 m hs b (Some st') \<longleftrightarrow> headers_done buf hp0 m hs b st'"

lemma headers_post_Cons:
  assumes "header_of_text h = Some vs"
    "headers_post buf hp0 (m\<lparr>m_present := m_present m OR present_mask vs, m_hdrs := m_hdrs m @ vs,
        m_heap := heap\<rparr>) hs b r"
  shows "headers_post buf hp0 m (h # hs) b r"
proof (cases r)
  case None
  then show ?thesis using assms headers_failed_Cons[OF assms(1)] by simp
next
  case (Some st')
  then show ?thesis using assms headers_done_Cons[OF assms(1)] by simp
qed

lemma headers_loop:
  assumes blk: "block_ok hp0 ehp"
  shows "in_headers buf hp0 st h \<Longrightarrow> read_headers h (drop (wi_cp st) buf) = (hs, b) \<Longrightarrow>
    list_all short_name hs \<Longrightarrow> length buf \<le> wi_cp st + fuel \<Longrightarrow>
    \<exists>r. wire_loop fuel ehp st = Some r \<and> headers_post buf hp0 (wi_msg st) hs b r"
proof (induction fuel arbitrary: st h hs b)
  case (0 st h hs b)
  have past: "length buf \<le> wi_cp st" using 0(4) by simp
  then have "hs = [] \<and> b = drop (wi_cp st) buf" using 0(2) by (simp add: read_headers.simps)
  moreover have "wire_loop 0 ehp st = Some (Some st)"
    using past 0(1) by (subst wire_loop.simps) (simp add: in_headers_def)
  moreover have "extends hp0 (m_heap (wi_msg st))"
    using 0(1) by (simp add: in_headers_def table_ok_def cnt_ok_def)
  ultimately show ?case
    by (intro exI[of _ "Some st"]) (auto simp: headers_done_def intro!: exI[of _ "m_heap (wi_msg st)"])
next
  case (Suc fuel st h hs b)
  note inv = Suc(2)
  have atl: "at_line buf (wi_mit st) (wi_cp st)" and on: "m_onwire (wi_msg st) = buf"
    and op: "open_header buf st h" and tab: "table_ok hp0 st"
    and alen: "unat (cnt_alen (wi_cnt st)) = 72 * (hdr_count st + 1)"
    using inv by (simp_all add: in_headers_def)
  have ext: "extends hp0 (m_heap (wi_msg st))" using tab by (simp add: table_ok_def cnt_ok_def)
  obtain fs n where shp: "wi_shp st = Some (fs, n)" using op by (auto simp: open_header_def)
  let ?st1 = "st\<lparr>wi_mit := snd (usipy_sip_msg_break_down (wi_mit st))\<rparr>"
  show ?case
  proof (cases "cut_line (drop (wi_cp st) buf)")
    case None
    have "hs = [] \<and> b = drop (wi_cp st) buf" using Suc(3) None by (subst (asm) read_headers.simps) simp
    moreover have "wire_loop (Suc fuel) ehp st = Some (Some st) \<or> wire_loop (Suc fuel) ehp st = Some (Some ?st1)"
      using wire_step_out[OF atl None, of ehp] by (subst (1 2) wire_loop.simps) simp
    ultimately show ?thesis using ext
      by (auto simp: headers_done_def intro!: exI[of _ "m_heap (wi_msg st)"])
  next
    case (Some lr)
    obtain l r where lr: "lr = (l, r)" by fastforce
    note cut = Some[unfolded lr]
    note parts = cut_line_parts[OF cut]
    let ?chp = "wi_cp st + length l"
    have nxt: "at_line buf (snd (usipy_sip_msg_break_down (wi_mit st))) (?chp + 2)"
      using break_at_line[OF atl] cut by simp
    have fuel: "length buf \<le> ?chp + 2 + fuel" using Suc(5) by simp
    have loop: "wire_loop (Suc fuel) ehp st = do {
          r \<leftarrow> wire_step ehp st;
          case r of Parse_error \<Rightarrow> Some None | Loop_end st \<Rightarrow> Some (Some st)
          | Next_line st \<Rightarrow> wire_loop fuel ehp st }"
      using parts(3) on by (subst wire_loop.simps) simp
    show ?thesis
    proof (cases "USIPY_ISWS (hd (drop (wi_cp st) buf))")
      case True
      let ?st' = "?st1\<lparr>wi_shp := Some (fs, ?chp - fs), wi_cp := ?chp + 2\<rparr>"
      have "wire_step ehp st = Some (Next_line ?st')"
        using wire_step_open[OF shp atl on cut, of ehp] True shp by (simp add: multi_line_def next_line_def)
      then have l1: "wire_loop (Suc fuel) ehp st = wire_loop fuel ehp ?st'" by (simp add: loop)
      have "?st' = st\<lparr>wi_shp := Some (fs, ?chp - fs), wi_cp := ?chp + 2\<rparr>\<lparr>wi_mit := wi_mit ?st1\<rparr>" by simp
      then have "open_header buf ?st' (h @ CRLF @ l)"
        by (simp only: open_header_mit open_header_continue[OF op cut shp])
      then have inv': "in_headers buf hp0 ?st' (h @ CRLF @ l)"
        using nxt on tab alen by (simp add: in_headers_def table_ok_def)
      have rh: "read_headers (h @ CRLF @ l) (drop (wi_cp ?st') buf) = (hs, b)"
        using Suc(3) cut True parts(1) by (subst (asm) read_headers.simps) simp
      show ?thesis using Suc(1)[OF inv' rh Suc(4)] fuel by (simp add: l1)
    next
      case ws: False
      obtain hs' b' where rh: "read_headers l r = (hs', b')" by fastforce
      have hs: "hs = h # (if l = [] then [] else hs')" "b = (if l = [] then r else b')"
        using Suc(3) cut ws rh by (subst (asm) (1 2) read_headers.simps; auto split: if_splits)+
      have sn: "short_name h" using Suc(4) hs(1) by simp
      have t1: "table_ok hp0 ?st1" "open_header buf ?st1 h" using tab op by (simp_all add: table_ok_def open_header_def)
      have on1: "m_onwire (wi_msg ?st1) = buf" and al1: "unat (cnt_alen (wi_cnt ?st1)) = 72 * (hdr_count ?st1 + 1)"
        using on alen by simp_all
      obtain fr where fr: "finish_header ehp (the (wi_shp ?st1)) ?st1 = Some fr"
        "fr = None \<Longrightarrow> header_of_text h = None \<or>
          (\<exists>vs. header_of_text h = Some vs \<and>
             hsize hp0 < up8 (mark hp0) + 72 * (hdr_count ?st1 + length vs + 1))"
        "\<And>st'. fr = Some st' \<Longrightarrow> \<exists>vs heap cnt. header_of_text h = Some vs \<and>
          st' = ?st1\<lparr>wi_msg := (wi_msg ?st1)\<lparr>m_present := m_present (wi_msg ?st1) OR present_mask vs,
                 m_hdrs := m_hdrs (wi_msg ?st1) @ vs, m_heap := heap\<rparr>, wi_cnt := cnt\<rparr> \<and>
          table_ok hp0 st'"
        by (rule finish_header_spec[OF blk t1(1) on1 t1(2) sn al1]) blast
      have step: "wire_step ehp st = (case fr of None \<Rightarrow> Some Parse_error | Some st \<Rightarrow> start_header ?chp st)"
        using wire_step_open[OF shp atl on cut, of ehp] ws fr(1) shp by simp
      show ?thesis
      proof (cases fr)
        case None
        then have "headers_failed hp0 (hdr_count st) hs"
          using fr(2) hs(1) by (auto simp: headers_failed_def bind_eq_Some_conv)
        then show ?thesis using step loop None by simp
      next
        case (Some st2)
        obtain vs heap cnt where vs: "header_of_text h = Some vs" "table_ok hp0 st2" and
          st2: "st2 = ?st1\<lparr>wi_msg := (wi_msg st)\<lparr>m_present := m_present (wi_msg st) OR present_mask vs,
                 m_hdrs := m_hdrs (wi_msg st) @ vs, m_heap := heap\<rparr>, wi_cnt := cnt\<rparr>"
          using fr(3)[OF Some] by auto
        have ext2: "extends hp0 (m_heap (wi_msg st2))" using vs(2) by (simp add: table_ok_def cnt_ok_def)
        show ?thesis
        proof (cases "l = []")
          case True
          then have "start_header ?chp st2 = Some (Loop_end (st2\<lparr>wi_cp := wi_cp st + 2\<rparr>))"
            by (simp add: start_header_def st2)
          then have "wire_loop (Suc fuel) ehp st = Some (Some (st2\<lparr>wi_cp := wi_cp st + 2\<rparr>))"
            using step loop Some by simp
          moreover have "headers_done buf hp0 (wi_msg st) hs b (st2\<lparr>wi_cp := wi_cp st + 2\<rparr>)"
            unfolding headers_done_def using True hs vs(1) ext2 parts(1)
            by (intro exI[of _ vs] exI[of _ heap]) (simp add: st2)
          ultimately show ?thesis by simp
        next
          case ne: False
          have pos: "wi_cp st2 < ?chp" "wi_shp st2 \<noteq> None" using ne shp by (simp_all add: st2)
          obtain sr where sr: "start_header ?chp st2 = Some sr"
            "sr = Parse_error \<Longrightarrow> hsize hp0 < up8 (mark hp0) + 72 * (hdr_count st2 + 1)"
            "sr \<noteq> Parse_error \<Longrightarrow> \<exists>heap cnt.
               sr = Next_line (st2\<lparr>wi_msg := (wi_msg st2)\<lparr>m_heap := heap\<rparr>, wi_cnt := cnt,
                     wi_shp := Some (wi_cp st2, ?chp - wi_cp st2), wi_cp := ?chp + 2\<rparr>) \<and>
               cnt_ok hp0 heap cnt \<and> unat (cnt_alen cnt) = 72 * (hdr_count st2 + 1)"
            by (rule start_header_next[OF blk vs(2) pos(2) pos(1)]) blast
          have n2: "hdr_count st2 = hdr_count st + length vs" by (simp add: st2)
          show ?thesis
          proof (cases "sr = Parse_error")
            case True
            have "headers_failed hp0 (hdr_count st) hs"
              using sr(2)[OF True] vs(1) hs(1) by (auto simp: headers_failed_def bind_eq_Some_conv n2)
            then show ?thesis using step loop Some sr(1) True by simp
          next
            case False
            obtain heap' cnt' where st3: "sr = Next_line (st2\<lparr>wi_msg := (wi_msg st2)\<lparr>m_heap := heap'\<rparr>,
                wi_cnt := cnt', wi_shp := Some (wi_cp st2, ?chp - wi_cp st2), wi_cp := ?chp + 2\<rparr>)"
              and c3: "cnt_ok hp0 heap' cnt'" "unat (cnt_alen cnt') = 72 * (hdr_count st2 + 1)"
              using sr(3)[OF False] by blast
            let ?st3 = "st2\<lparr>wi_msg := (wi_msg st2)\<lparr>m_heap := heap'\<rparr>, wi_cnt := cnt',
              wi_shp := Some (wi_cp st2, ?chp - wi_cp st2), wi_cp := ?chp + 2\<rparr>"
            have op3: "open_header buf ?st3 l"
              using open_header_start[OF cut] by (simp add: open_header_def st2)
            have "table_ok hp0 ?st3"
              using c3 vs(2) by (intro table_okI) (simp_all add: table_ok_def)
            then have inv3: "in_headers buf hp0 ?st3 l"
              using op3 nxt on c3 by (simp add: in_headers_def st2)
            have rh3: "read_headers l (drop (wi_cp ?st3) buf) = (hs', b')" using rh parts(1) by simp
            have sn3: "list_all short_name hs'" using Suc(4) hs(1) ne by simp
            have fu3: "length buf \<le> wi_cp ?st3 + fuel" using fuel by simp
            have l3: "wire_loop (Suc fuel) ehp st = wire_loop fuel ehp ?st3"
              using step loop Some sr(1) st3 by simp
            have hsb: "hs = h # hs'" "b = b'" using hs ne by simp_all
            have m3: "wi_msg ?st3 = (wi_msg st)\<lparr>m_present := m_present (wi_msg st) OR present_mask vs,
                 m_hdrs := m_hdrs (wi_msg st) @ vs, m_heap := heap'\<rparr>" by (simp add: st2)
            obtain r' where r': "wire_loop fuel ehp ?st3 = Some r'"
              "headers_post buf hp0 (wi_msg ?st3) hs' b' r'"
              using Suc(1)[OF inv3 rh3 sn3 fu3] by blast
            have "headers_post buf hp0 (wi_msg st) hs b r'"
              using headers_post_Cons[OF vs(1)] r'(2) by (simp only: hsb m3)
            moreover have "wire_loop (Suc fuel) ehp st = Some r'" by (simp only: l3 r'(1))
            ultimately show ?thesis by (intro exI[of _ r'] conjI)
          qed
        qed
      qed
    qed
  qed
qed

subsection \<open>The start line\<close>

text \<open>A status line or a request line; anything else is no start line.\<close>

definition sline_of_text :: "string \<Rightarrow> (usipy_sip_msg_kind \<times> usipy_sip_sline_parsed) option" where
  "sline_of_text s = do {
     (s1, s2) \<leftarrow> usipy_str_split s SP;
     (s3, s4) \<leftarrow> usipy_str_split s2 SP;
     (if s1 = [] \<or> s3 = [] then None
      else if ieq s1 ''SIP/2.0'' then do {
        code \<leftarrow> usipy_str_atoui_range s3 100 999;
        Some (USIPY_SIP_MSG_RES,
          SL_status \<lparr>sl_version = s1, sl_status = \<lparr>st_code = code, st_reason_phrase = s4\<rparr>\<rparr>)
      }
      else if ieq s4 ''SIP/2.0'' then do {
        u \<leftarrow> uri_of_string s3;
        Some (USIPY_SIP_MSG_REQ,
          SL_request \<lparr>rl_version = s4, rl_onwire_method = s1, rl_onwire_ruri = s3,
            rl_onwire_version = s4, rl_ruri = Some u, rl_method = usipy_method_db_lookup s1\<rparr>)
      }
      else None)
   }"

text \<open>What the parsed start line takes of the heap.\<close>

fun sline_size :: "usipy_sip_sline_parsed \<Rightarrow> nat" where
  "sline_size (SL_request rl) = (case rl_ruri rl of None \<Rightarrow> 0 | Some u \<Rightarrow> uri_size u)"
| "sline_size _ = 0"

fun sline_post :: "usipy_msg_heap \<Rightarrow> usipy_sip_sline \<Rightarrow>
    usipy_sip_msg_kind \<times> usipy_sip_sline \<times> usipy_msg_heap \<Rightarrow> bool" where
  "sline_post mhp slp (k, sl, mhp') \<longleftrightarrow> extends mhp mhp' \<and>
     (if k = USIPY_SIP_MSG_UNKN
      then \<forall>k p. sline_of_text (sln_onwire slp) = Some (k, p) \<longrightarrow> hsize mhp < up8 (mark mhp) + sline_size p
      else sline_of_text (sln_onwire slp) = Some (k, sln_parsed sl) \<and> sln_onwire sl = sln_onwire slp \<and>
        mark mhp' \<le> up8 (mark mhp) + sline_size (sln_parsed sl))"

lemma sline_parse_refines:
  assumes ok: "heap_ok mhp" and len: "length (sln_onwire slp) < 2 ^ 56"
  shows "\<exists>r. usipy_sip_sline_parse mhp slp = Some r \<and> sline_post mhp slp r"
proof (cases "usipy_str_split (sln_onwire slp) SP")
  case None
  then show ?thesis using ok
    by (simp add: usipy_sip_sline_parse_def sline_of_text_def extends_refl)
next
  case (Some p)
  obtain s1 s2 where p: "p = (s1, s2)" by fastforce
  have e: "extends mhp mhp" using ok by (rule extends_refl)
  have l1: "length s2 \<le> length (sln_onwire slp)" using length_split_parts[OF Some[unfolded p]] by simp
  have m: "mark mhp \<le> up8 (mark mhp)" by (rule up8_bounds)
  show ?thesis
  proof (cases "usipy_str_split s2 SP")
    case None
    then show ?thesis using Some p e
      by (auto simp: usipy_sip_sline_parse_def sline_of_text_def)
  next
    case s2: (Some q)
    obtain s3 s4 where q: "q = (s3, s4)" by fastforce
    have ne: "s2 \<noteq> []" using s2 by (cases s2) (auto simp: split_None_iff)
    have l3: "length s3 < 2 ^ 56" using length_split_parts[OF s2[unfolded q]] l1 len by simp
    note d = usipy_sip_sline_parse_def sline_of_text_def Some p s2 q ne version_is_sip20
    show ?thesis
    proof (cases "s1 = [] \<or> s3 = []")
      case True
      then show ?thesis using e by (auto simp: d)
    next
      case False
      show ?thesis
      proof (cases "ieq s1 ''SIP/2.0''")
        case True
        then show ?thesis using False e m by (cases "usipy_str_atoui_range s3 100 999") (auto simp: d)
      next
        case nres: False
        show ?thesis
        proof (cases "ieq s4 ''SIP/2.0''")
          case True
          then have "s4 \<noteq> []" by (auto simp: ieq_def)
          obtain mhp' where u: "usipy_sip_uri_parse mhp s3 = Some (Option.bind (uri_of_string s3)
              (\<lambda>u. if up8 (mark mhp) + uri_size u \<le> hsize mhp then Some u else None), mhp')"
            "extends mhp mhp'"
            "\<And>u. uri_of_string s3 = Some u \<Longrightarrow> up8 (mark mhp) + uri_size u \<le> hsize mhp \<Longrightarrow>
               mark mhp' = up8 (mark mhp) + uri_size u"
            using uri_parse_refines[OF ok l3] by blast
          show ?thesis using False nres True \<open>s4 \<noteq> []\<close> u(1,2) u(3)
            by (cases "uri_of_string s3") (auto simp: d)
        next
          case False
          then show ?thesis using \<open>\<not> (s1 = [] \<or> s3 = [])\<close> nres e by (auto simp: d)
        qed
      qed
    qed
  qed
qed

subsection \<open>The whole message\<close>

lemma up8_round:
  assumes "n mod 8 \<noteq> 0"
  shows "up8 n = n div 8 * 8 + 8"
proof -
  define q r where "q = n div 8" and "r = n mod 8"
  then have n: "n = 8 * q + r" "r < 8" "0 < r" using assms by simp_all
  then have "(n + 7) div 8 = q + 1" by (intro div_nat_eqI) simp_all
  then show ?thesis by (simp add: up8_def q_def)
qed

lemma heap_init_spec:
  assumes fit: "unat bp + unat len < 2 ^ 64" "8 \<le> unat len" "length mem = unat len"
  defines "hp \<equiv> usipy_msg_heap_init bp mem len [] 0"
  shows "heap_ok hp" "mark hp = 0" "unat len \<le> hsize hp + 14" "unat bp \<le> unat (mh_first hp)"
    "unat (mh_first hp) + hsize hp \<le> unat bp + unat len"
proof -
  have p: "(push_bit 3 1 :: size_t) = 8" by (simp add: push_bit_eq_mult)
  have dm: "unat bp div 8 * 8 + unat bp mod 8 = unat bp" by simp
  have f: "unat (mh_first hp) = up8 (unat bp)"
  proof (cases "USIPY_REALIGN bp = bp")
    case True
    then have "unat bp div 8 * 8 = unat bp" by (metis unat_REALIGN)
    then have "up8 (unat bp) = unat bp" by (intro up8_dvd) (metis dvd_triv_right)
    then show ?thesis using True by (simp add: hp_def usipy_msg_heap_init_def Let_def)
  next
    case False
    have r: "unat (USIPY_REALIGN bp) = unat bp div 8 * 8" by (rule unat_REALIGN)
    then have "unat bp mod 8 \<noteq> 0" using False dm by (metis add.right_neutral word_unat_eq_iff)
    then have u: "up8 (unat bp) = unat bp div 8 * 8 + 8" by (rule up8_round)
    have b: "unat (USIPY_REALIGN bp) + unat (8 :: size_t) < 2 ^ LENGTH(64)"
      using r fit(1,2) dm by simp
    have "mh_first hp = USIPY_REALIGN bp + 8" using False p
      by (simp add: hp_def usipy_msg_heap_init_def Let_def)
    then show ?thesis using b r u by (simp only: unat_add_lem[THEN iffD1, OF b]) simp
  qed
  define k where "k = up8 (unat bp) - unat bp"
  have k: "k \<le> 7" "unat bp + k = up8 (unat bp)" using up8_bounds[of "unat bp"] by (simp_all add: k_def)
  have le: "bp \<le> mh_first hp" using f up8_bounds[of "unat bp"] by (simp add: word_le_nat_alt)
  have d: "unat (mh_first hp - bp) = k" using le f by (simp add: unat_sub word_le_nat_alt k_def)
  have le2: "mh_first hp - bp \<le> len" using d k fit(2) by (simp add: word_le_nat_alt)
  have d2: "unat (len - (mh_first hp - bp)) = unat len - k" using unat_sub[OF le2] d by simp
  have "mh_tsize hp = USIPY_REALIGN (len - (mh_first hp - bp))"
    by (simp add: hp_def usipy_msg_heap_init_def Let_def)
  then have t: "hsize hp = (unat len - k) div 8 * 8" by (simp only: unat_REALIGN d2)
  have cells: "mh_cells hp = take (hsize hp) (drop k mem)"
    using d by (simp add: hp_def usipy_msg_heap_init_def Let_def)
  have t2: "hsize hp \<le> unat len - k" "unat len - k \<le> hsize hp + 7" 
    unfolding t using div_mult_mod_eq[of "unat len - k" 8] mod_less_divisor[of 8 "unat len - k"]
    by linarith+
  show "mark hp = 0" by (simp add: hp_def usipy_msg_heap_init_def Let_def)
  moreover have "8 dvd hsize hp" by (simp add: t)
  moreover have "length (mh_cells hp) = hsize hp" using t2(1) fit(3) by (simp add: cells)
  moreover have "mh_checkpoint_top hp = 0" "mh_ncheckpoints hp = 0"
    by (simp_all add: hp_def usipy_msg_heap_init_def Let_def)
  ultimately show "heap_ok hp" by (simp add: heap_ok_def live_checkpoints_def)
  show "unat len \<le> hsize hp + 14" using t2 k by simp
  show "unat bp \<le> unat (mh_first hp)" using f k by simp
  show "unat (mh_first hp) + hsize hp \<le> unat bp + unat len" using f k t2(1) fit(2) by simp
qed

text \<open>Start line, kind, headers and body of a message text.\<close>

definition wire_message ::
  "string \<Rightarrow> (string \<times> usipy_sip_msg_kind \<times> usipy_sip_sline_parsed \<times> usipy_sip_hdr list \<times> string) option" where
  "wire_message s = do {
     (sl, hs, b) \<leftarrow> split_message s;
     (k, p) \<leftarrow> sline_of_text sl;
     vs \<leftarrow> headers_of_text hs;
     Some (sl, k, p, vs, b)
   }"

definition names_short :: "string \<Rightarrow> bool" where
  "names_short s \<longleftrightarrow> (case split_message s of None \<Rightarrow> True | Some (_, hs, _) \<Rightarrow> list_all short_name hs)"

definition message_of :: "string \<Rightarrow> usipy_msg \<Rightarrow> bool" where
  "message_of s m \<longleftrightarrow>
     wire_message s = Some (sln_onwire (m_sline m), m_kind m, sln_parsed (m_sline m), m_hdrs m, m_body m) \<and>
     m_onwire m = s \<and> m_present m = present_mask (m_hdrs m) \<and> m_parsed m = 0 \<and> heap_ok (m_heap m)"

text \<open>The message is malformed, or its parsed form does not fit in \<open>room\<close> bytes.\<close>

definition message_rejected :: "nat \<Rightarrow> string \<Rightarrow> bool" where
  "message_rejected room s \<longleftrightarrow>
     (\<forall>sl k p vs b. wire_message s = Some (sl, k, p, vs, b) \<longrightarrow>
        room < sline_size p + 72 * (length vs + 1) + 8)"

lemma wire_step_sline:
  assumes "wi_shp st = None" "sln_onwire (m_sline (wi_msg st)) = []" "wi_cp st = 0"
    "at_line buf (wi_mit st) 0" "m_onwire (wi_msg st) = buf" "cut_line buf = Some (l, r)"
  shows "wire_step ehp st = do {
      (kind, sline, mhp) \<leftarrow> usipy_sip_sline_parse (m_heap (wi_msg st)) ((m_sline (wi_msg st))\<lparr>sln_onwire := l\<rparr>);
      Some (if kind = USIPY_SIP_MSG_UNKN then Parse_error
        else Next_line (st\<lparr>wi_mit := snd (usipy_sip_msg_break_down (wi_mit st)),
               wi_msg := (wi_msg st)\<lparr>m_kind := kind, m_sline := sline, m_heap := mhp\<rparr>,
               wi_cp := length l + 2\<rparr>))
    }"
  using break_at_line[OF assms(4)] assms cut_line_parts[of 0 buf l r]
  by (cases "usipy_sip_msg_break_down (wi_mit st)")
     (auto simp: wire_step_def Let_def next_line_def split: bind_split)

lemma wire_step_first:
  assumes "wi_shp st = None" "sln_onwire (m_sline (wi_msg st)) \<noteq> []"
    "at_line buf (wi_mit st) (wi_cp st)" "cut_line (drop (wi_cp st) buf) = Some (l, r)"
  shows "wire_step ehp st =
    start_header (wi_cp st + length l) (st\<lparr>wi_mit := snd (usipy_sip_msg_break_down (wi_mit st))\<rparr>)"
  using break_at_line[OF assms(3)] assms
  by (cases "usipy_sip_msg_break_down (wi_mit st)")
     (simp add: wire_step_def Let_def nat_int_add)

text \<open>What the loop returns: the message but for its body, or one without headers.\<close>

fun start_post :: "string \<Rightarrow> usipy_msg_heap \<Rightarrow> wire_init option \<Rightarrow> bool" where
  "start_post buf hp0 None \<longleftrightarrow> message_rejected (hsize hp0) buf"
| "start_post buf hp0 (Some st) \<longleftrightarrow>
     (if m_hdrs (wi_msg st) = [] then wire_message buf = None
      else message_of buf ((wi_msg st)\<lparr>m_body := drop (wi_cp st) buf\<rparr>))"

lemma headers_of_text_Nil: "headers_of_text hs = Some [] \<longleftrightarrow> hs = []"
  by (cases hs) (auto simp: bind_eq_Some_conv dest: header_of_text_not_Nil)

lemma block_ok_extends: "block_ok hp0 ehp \<Longrightarrow> extends hp0 hp1 \<Longrightarrow> block_ok hp1 ehp"
  using same_frame_sel(1,6)[of hp0 hp1] by (auto simp: block_ok_def extends_def)

text \<open>After the start line \<open>sl\<close>.\<close>

lemma loop_after_sline:
  assumes blk: "block_ok hp1 ehp" and atl: "at_line buf (wi_mit st) (wi_cp st)"
    and cp: "cut_line buf = Some (sl, drop (wi_cp st) buf)"
    and m: "wi_msg st = \<lparr>m_onwire = buf, m_body = [], m_kind = k, m_sline = slp, m_hdrs = [],
      m_heap = hp1, m_present = 0, m_parsed = 0\<rparr>" "wi_shp st = None"
    and sl: "sln_onwire slp = sl" "sl \<noteq> []" "sline_of_text sl = Some (k, sln_parsed slp)"
    and room: "up8 (mark hp1) \<le> sline_size (sln_parsed slp) + 7" "hsize hp0 = hsize hp1"
    and sn: "names_short buf" and fuel: "length buf \<le> wi_cp st + fuel"
  shows "\<exists>r. wire_loop fuel ehp st = Some r \<and> start_post buf hp0 r"
proof (cases "cut_line (drop (wi_cp st) buf)")
  case None
  then have "wire_message buf = None" by (simp add: wire_message_def split_message_def cp)
  moreover have "\<exists>st'. wire_loop fuel ehp st = Some (Some st') \<and> m_hdrs (wi_msg st') = []"
  proof (cases "wi_cp st < length buf")
    case True
    then show ?thesis using fuel wire_step_out[OF atl None, of ehp] m
      by (cases fuel; subst wire_loop.simps) simp_all
  qed (subst wire_loop.simps, use m in simp)
  ultimately show ?thesis by auto
next
  case (Some lr)
  obtain l r where lr: "lr = (l, r)" by fastforce
  note cut = Some[unfolded lr]
  note parts = cut_line_parts[OF cut]
  obtain f where f: "fuel = Suc f" using parts(3) fuel by (cases fuel) auto
  let ?st1 = "st\<lparr>wi_mit := snd (usipy_sip_msg_break_down (wi_mit st))\<rparr>"
  have loop: "wire_loop fuel ehp st = do {
        r \<leftarrow> start_header (wi_cp st + length l) ?st1;
        case r of Parse_error \<Rightarrow> Some None | Loop_end st \<Rightarrow> Some (Some st)
        | Next_line st \<Rightarrow> wire_loop f ehp st }"
    using wire_step_first[OF m(2) _ atl cut, of ehp] parts(3) sl m
    by (subst wire_loop.simps) (simp add: f)
  obtain hs b where rh: "read_headers l r = (hs, b)" by fastforce
  have wm: "wire_message buf = (if l = [] \<or> hs = [] then None
      else map_option (\<lambda>vs. (sl, k, sln_parsed slp, vs, b)) (headers_of_text hs))"
    by (cases "headers_of_text hs") (simp_all add: wire_message_def split_message_def cp cut rh sl(3))
  have names: "l \<noteq> [] \<Longrightarrow> list_all short_name hs"
    using sn by (cases "hs = []") (simp_all add: names_short_def split_message_def cp cut rh)
  show ?thesis
  proof (cases "l = []")
    case True
    then have "wire_loop fuel ehp st = Some (Some (?st1\<lparr>wi_cp := wi_cp st + 2\<rparr>))"
      by (simp add: loop start_header_def)
    then show ?thesis using wm True m by simp
  next
    case ne: False
    have pos: "wi_shp ?st1 = None" "m_hdrs (wi_msg ?st1) = []" "wi_cp ?st1 < wi_cp st + length l"
      "m_heap (wi_msg ?st1) = hp1" using ne m by simp_all
    have rejected: "message_rejected (hsize hp0) buf" if "headers_failed hp1 0 hs"
      using that room wm unfolding message_rejected_def headers_failed_def by (auto split: if_splits)
    obtain sr where sr: "start_header (wi_cp st + length l) ?st1 = Some sr"
      "sr = Parse_error \<Longrightarrow> hsize hp1 < up8 (mark hp1) + 72"
      "sr \<noteq> Parse_error \<Longrightarrow> \<exists>heap cnt table.
         sr = Next_line (?st1\<lparr>wi_msg := (wi_msg ?st1)\<lparr>m_heap := heap\<rparr>, wi_cnt := cnt, wi_table := table,
             wi_shp := Some (wi_cp ?st1, wi_cp st + length l - wi_cp ?st1), wi_cp := wi_cp st + length l + 2\<rparr>) \<and>
         cnt_ok hp1 heap cnt \<and> unat table = up8 (mark hp1) \<and> unat (cnt_alen cnt) = 72"
      by (rule start_header_first[OF blk pos(4) pos(1) pos(2) pos(3)]) blast
    show ?thesis
    proof (cases "sr = Parse_error")
      case True
      then have "headers_failed hp1 0 hs" using sr(2) by (auto simp: headers_failed_def)
      then show ?thesis using loop sr(1) True rejected by simp
    next
      case False
      obtain heap cnt table where st2: "sr = Next_line (?st1\<lparr>wi_msg := (wi_msg ?st1)\<lparr>m_heap := heap\<rparr>,
            wi_cnt := cnt, wi_table := table,
            wi_shp := Some (wi_cp ?st1, wi_cp st + length l - wi_cp ?st1), wi_cp := wi_cp st + length l + 2\<rparr>)"
        and c: "cnt_ok hp1 heap cnt" "unat table = up8 (mark hp1)" "unat (cnt_alen cnt) = 72"
        using sr(3)[OF False] by blast
      let ?st2 = "?st1\<lparr>wi_msg := (wi_msg ?st1)\<lparr>m_heap := heap\<rparr>, wi_cnt := cnt, wi_table := table,
            wi_shp := Some (wi_cp ?st1, wi_cp st + length l - wi_cp ?st1), wi_cp := wi_cp st + length l + 2\<rparr>"
      have "at_line buf (wi_mit ?st2) (wi_cp ?st2)" using break_at_line[OF atl] cut by simp
      moreover have "open_header buf ?st2 l"
        using open_header_start[OF cut] by (simp add: open_header_def)
      moreover have "table_ok hp1 ?st2" using c m by (intro table_okI) simp_all
      ultimately have inv: "in_headers buf hp1 ?st2 l" using c(3) m by (simp add: in_headers_def)
      have rh2: "read_headers l (drop (wi_cp ?st2) buf) = (hs, b)" using rh parts(1) by simp
      have fu: "length buf \<le> wi_cp ?st2 + f" using fuel f by simp
      obtain r' where r': "wire_loop f ehp ?st2 = Some r'" "headers_post buf hp1 (wi_msg ?st2) hs b r'"
        using headers_loop[OF blk inv rh2 names[OF ne] fu] by blast
      have "wire_loop fuel ehp st = Some r'" using loop sr(1) st2 r'(1) by simp
      moreover have "start_post buf hp0 r'"
      proof (cases r')
        case None
        then show ?thesis using r'(2) rejected m by simp
      next
        case (Some st')
        then obtain vs hp where v: "headers_of_text hs = Some vs" "extends hp1 hp"
          "drop (wi_cp st') buf = b" "wi_msg st' = (wi_msg st)\<lparr>m_present := present_mask vs,
             m_hdrs := vs, m_heap := hp\<rparr>"
          using r'(2) m by (auto simp: headers_done_def)
        show ?thesis using v Some wm ne m sl(1) extends_okD[OF v(2)] headers_of_text_Nil[of hs]
          by (auto simp: message_of_def)
      qed
      ultimately show ?thesis by blast
    qed
  qed
qed

lemma message_rejected_mono: "message_rejected n s \<Longrightarrow> m \<le> n \<Longrightarrow> message_rejected m s"
  unfolding message_rejected_def by (meson le_less_trans)

fun init_post :: "string \<Rightarrow> nat \<Rightarrow> usipy_msg option \<Rightarrow> bool" where
  "init_post buf room None \<longleftrightarrow> message_rejected room buf"
| "init_post buf room (Some m) \<longleftrightarrow> message_of buf m"

lemma split_message_sline:
  "cut_line s = Some (sl, r) \<Longrightarrow> split_message s = Some (sl', hs, b) \<Longrightarrow> sl' = sl"
  by (auto simp: split_message_def bind_eq_Some_conv case_prod_beta split: if_splits)

text \<open>The loop on a fresh message.\<close>

lemma loop_from_start:
  assumes blk: "block_ok hp0 ehp" and hp: "mark hp0 = 0" and sn: "names_short buf"
    and len: "length buf < 2 ^ 56" and fuel: "length buf \<le> fuel"
    and st: "wi_msg st = \<lparr>m_onwire = buf, m_body = [], m_kind = USIPY_SIP_MSG_REQ,
        m_sline = \<lparr>sln_onwire = [], sln_parsed = SL_none\<rparr>, m_hdrs = [], m_heap = hp0,
        m_present = 0, m_parsed = 0\<rparr>"
      "wi_mit st = break_init buf" "wi_cp st = 0" "wi_shp st = None"
  shows "\<exists>r. wire_loop fuel ehp st = Some r \<and> start_post buf hp0 r"
proof (cases "cut_line buf")
  case None
  then have "wire_message buf = None" by (simp add: wire_message_def split_message_def)
  moreover have "\<exists>st'. wire_loop fuel ehp st = Some (Some st') \<and> m_hdrs (wi_msg st') = []"
  proof (cases "buf = []")
    case False
    then obtain f where "fuel = Suc f" using fuel by (cases fuel) auto
    then show ?thesis using False wire_step_out[of buf st ehp] None st at_line_init[of buf]
      by (subst wire_loop.simps) simp
  qed (subst wire_loop.simps, use st in simp)
  ultimately show ?thesis by auto
next
  case (Some lr)
  obtain sl r where lr: "lr = (sl, r)" by fastforce
  note cut = Some[unfolded lr]
  note parts = cut_line_parts[of 0 buf sl r]
  obtain f where f: "fuel = Suc f" using parts(3) cut fuel by (cases fuel) auto
  have ne: "buf \<noteq> []" using parts(3) cut by auto
  have ok: "heap_ok hp0" using blk by (simp add: block_ok_def)
  have ls: "length sl < 2 ^ 56" using parts(3) cut len by simp
  let ?sl0 = "\<lparr>sln_onwire = sl, sln_parsed = SL_none\<rparr>"
  obtain k slp hp1 where sp: "usipy_sip_sline_parse hp0 ?sl0 = Some (k, slp, hp1)"
    "sline_post hp0 ?sl0 (k, slp, hp1)"
    using sline_parse_refines[OF ok, of ?sl0] ls by auto
  let ?st1 = "st\<lparr>wi_mit := snd (usipy_sip_msg_break_down (wi_mit st)),
     wi_msg := (wi_msg st)\<lparr>m_kind := k, m_sline := slp, m_heap := hp1\<rparr>, wi_cp := length sl + 2\<rparr>"
  have step: "wire_step ehp st = Some (if k = USIPY_SIP_MSG_UNKN then Parse_error else Next_line ?st1)"
    using wire_step_sline[of st buf sl r ehp] st cut sp(1) at_line_init[of buf] by simp
  have loop: "wire_loop fuel ehp st = (if k = USIPY_SIP_MSG_UNKN then Some None else wire_loop f ehp ?st1)"
    using ne st step by (subst wire_loop.simps) (simp add: f)
  show ?thesis
  proof (cases "k = USIPY_SIP_MSG_UNKN")
    case True
    have "message_rejected (hsize hp0) buf"
      unfolding message_rejected_def
    proof (intro allI impI)
      fix sl' k' p vs b assume "wire_message buf = Some (sl', k', p, vs, b)"
      then have "sline_of_text sl = Some (k', p)"
        using split_message_sline[OF cut] by (auto simp: wire_message_def bind_eq_Some_conv)
      then show "hsize hp0 < sline_size p + 72 * (length vs + 1) + 8"
        using sp(2) True hp by (auto intro: trans_less_add1)
    qed
    then show ?thesis using loop True by simp
  next
    case False
    have p: "extends hp0 hp1" "sline_of_text sl = Some (k, sln_parsed slp)" "sln_onwire slp = sl"
      "mark hp1 \<le> sline_size (sln_parsed slp)" using sp(2) False hp by simp_all
    have "\<exists>r. wire_loop f ehp ?st1 = Some r \<and> start_post buf hp0 r"
    proof (rule loop_after_sline[OF block_ok_extends[OF blk p(1)] _ _ _ _ p(3) _ p(2) _ _ sn])
      show "at_line buf (wi_mit ?st1) (wi_cp ?st1)"
        using break_at_line[OF at_line_init[of buf]] cut st by simp
      show "cut_line buf = Some (sl, drop (wi_cp ?st1) buf)" using cut parts(1) by simp
      show "wi_msg ?st1 = \<lparr>m_onwire = buf, m_body = [], m_kind = k, m_sline = slp, m_hdrs = [],
        m_heap = hp1, m_present = 0, m_parsed = 0\<rparr>" "wi_shp ?st1 = None" using st by simp_all
      show "sl \<noteq> []" using p(2) by (auto simp: sline_of_text_def split_None_iff bind_eq_Some_conv)
      show "up8 (mark hp1) \<le> sline_size (sln_parsed slp) + 7"
        using p(4) up8_bounds(2)[of "mark hp1"] by simp
      show "hsize hp0 = hsize hp1" using p(1) same_frame_sel(1) by (metis extends_def)
      show "length buf \<le> wi_cp ?st1 + f" using fuel f by simp
    qed
    then show ?thesis using loop False by simp
  qed
qed

lemma init_fromwire_refines:
  assumes fit: "unat base + unat alloc_len < 2 ^ 64" "length buf + 300 \<le> unat alloc_len"
      "unat alloc_len \<le> 2 ^ 61"
    and len: "length buf < 2 ^ 56" and sn: "names_short buf"
  shows "\<exists>r. usipy_sip_msg_init_fromwire base alloc_len buf = Some r \<and>
    init_post buf (unat alloc_len - length buf - 230) r"
proof -
  let ?len = "of_nat (length buf) :: size_t"
  let ?hs = "alloc_len - of_nat sizeof_usipy_msg - ?len"
  let ?bp = "base + of_nat sizeof_usipy_msg + ?len"
  let ?hp0 = "usipy_msg_heap_init ?bp (replicate (unat ?hs) NUL) ?hs [] 0"
  have ul: "unat ?len = length buf" using len by (simp add: unat_of_nat)
  have u216: "unat (of_nat sizeof_usipy_msg :: size_t) = 216" by simp
  have a1: "unat (alloc_len - of_nat sizeof_usipy_msg) = unat alloc_len - 216"
    using fit(2) by (subst unat_sub) (simp_all add: word_le_nat_alt)
  have uh: "unat ?hs = unat alloc_len - 216 - length buf"
  proof -
    have "?len \<le> alloc_len - of_nat sizeof_usipy_msg"
      unfolding word_le_nat_alt a1 ul using fit(2) by linarith
    then show ?thesis by (simp only: unat_sub a1 ul)
  qed
  have b1: "unat (base + of_nat sizeof_usipy_msg) = unat base + 216"
    using fit by (subst unat_add_lem[THEN iffD1]) simp_all
  have ub: "unat ?bp = unat base + 216 + length buf"
  proof -
    have "unat (base + of_nat sizeof_usipy_msg) + unat ?len < 2 ^ LENGTH(64)"
      unfolding b1 ul using fit by simp
    then show ?thesis by (simp only: unat_add_lem[THEN iffD1] b1 ul)
  qed
  have ue: "unat (base + alloc_len) = unat base + unat alloc_len"
    using fit(1) by (subst unat_add_lem[THEN iffD1]) simp_all
  have sum: "unat ?bp + unat ?hs = unat base + unat alloc_len" unfolding ub uh using fit(2) by linarith
  have c: "unat ?bp + unat ?hs < 2 ^ 64" "8 \<le> unat ?hs" "length (replicate (unat ?hs) NUL) = unat ?hs"
    using fit unfolding sum by (simp_all only: uh length_replicate)
  note h = heap_init_spec[OF c]
  have blk: "block_ok ?hp0 (unat (base + alloc_len))"
    unfolding block_ok_def ue using h(1,4,5) fit sum ub by (intro conjI) linarith+
  have room: "unat alloc_len - length buf - 230 \<le> hsize ?hp0" using h(3) unfolding uh by linarith
  let ?st = "\<lparr>wi_msg = \<lparr>m_onwire = buf, m_body = [], m_kind = USIPY_SIP_MSG_REQ,
        m_sline = \<lparr>sln_onwire = [], sln_parsed = SL_none\<rparr>, m_hdrs = [], m_heap = ?hp0,
        m_present = 0, m_parsed = 0\<rparr>, wi_mit = break_init buf, wi_cp = 0,
      wi_cnt = \<lparr>cnt_alen = 0, cnt_lastalen = 0\<rparr>, wi_shp = None, wi_table = 0\<rparr>"
  obtain r where r: "wire_loop (length buf + 1) (unat (base + alloc_len)) ?st = Some r"
    "start_post buf ?hp0 r"
    using loop_from_start[OF blk h(2) sn len, of "length buf + 1" ?st] by auto
  show ?thesis
  proof (cases r)
    case None
    then show ?thesis using r message_rejected_mono[OF _ room]
      by (simp add: usipy_sip_msg_init_fromwire_def Let_def)
  next
    case (Some st)
    then show ?thesis using r
      by (cases "m_hdrs (wi_msg st) = []")
         (auto simp: usipy_sip_msg_init_fromwire_def Let_def message_rejected_def)
  qed
qed

text \<open>Fuel beyond what the loop needs changes nothing.\<close>

lemma wire_loop_fuel: "wire_loop fuel ehp st = Some r \<Longrightarrow> fuel \<le> fuel' \<Longrightarrow> wire_loop fuel' ehp st = Some r"
proof (induction fuel arbitrary: fuel' st)
  case 0
  then show ?case by (auto simp: wire_loop.simps[of 0] wire_loop.simps[of fuel'] split: if_splits)
next
  case (Suc fuel)
  obtain f where f: "fuel' = Suc f" "fuel \<le> f" using Suc.prems(2) by (cases fuel') auto
  show ?case
    using Suc.prems(1) Suc.IH[OF _ f(2)]
    by (auto simp: wire_loop.simps[of "Suc _"] f(1) bind_eq_Some_conv split: if_splits wire_round.splits)
qed

end
