(* ===== verification/Usipy_Wiretext.thy ===== *)
theory Usipy_Wiretext
  imports Usipy_Wire
begin

text \<open>
  Message texts as they are written: a start line, headers that may be folded over several lines, a
  body. Such a text is split into exactly these parts, a header written with a name of the header
  table is read as that header, and every header that is read can be written again.
\<close>

subsection \<open>The header table\<close>

lemma upt_all_headers: "[0..<42] =
    [0, 1, 2, 3, 4, 5, 6, 7, 8, 9, 10, 11, 12, 13, 14, 15, 16, 17, 18, 19, 20, 21, 22, 23, 24, 25, 26,
     27, 28, 29, 30, 31, 32, 33, 34, 35, 36, 37, 38, 39, 40, 41 :: nat]"
  by (simp add: upt_conv_Cons)

lemmas hdr_table_eval =
  usipy_hdr_db_byid_def usipy_hdr_db_def usipy_hdr_db_compact_def hdr_entr_def usipy_hdr_iscmpct_def

lemma hdr_table_types:
  "list_all (\<lambda>i. (if i \<le> 32 then he_cantype (usipy_hdr_db_byid i) = i \<and> \<not> usipy_hdr_iscmpct i
       else usipy_hdr_iscmpct i \<and> he_cantype (usipy_hdr_db_byid i) \<in> set [1..<33]) \<and>
     he_csl_allowed (usipy_hdr_db_byid i) =
       he_csl_allowed (usipy_hdr_db_byid (he_cantype (usipy_hdr_db_byid i)))) [0..<42]"
  unfolding upt_all_headers by (simp add: hdr_table_eval)

lemma hdr_table_names:
  "list_all (\<lambda>i. list_all (\<lambda>c. c \<noteq> CHR '':'' \<and> \<not> USIPY_ISLWS c) (he_name (usipy_hdr_db_byid i))
     \<and> he_name (usipy_hdr_db_byid i) \<noteq> []) [1..<42]"
  unfolding upt_headers by (simp add: hdr_table_eval USIPY_ISLWS_def USIPY_ISWS_def)

lemma toid_bound: "list_all (\<lambda>i. i < 42) (fp_toid hdr_pdata) \<and> length (fp_toid hdr_pdata) = 256"
  by (simp add: hdr_pdata_def)

lemma lookup_bound:
  assumes "usipy_hdr_db_lookup nm = Some hde"
  shows "hde < 42"
proof -
  have b: "unat (w AND 255) < 256" for w :: uint32
  proof -
    have "w AND 255 \<le> 255" by (rule word_and_le1)
    then have "unat (w AND 255) \<le> unat (255 :: uint32)" by (simp only: word_le_nat_alt)
    then show ?thesis by simp
  qed
  have "hde \<in> set (fp_toid hdr_pdata)"
    using assms toid_bound b by (auto simp: hdr_lookup_is_classify usipy_fp_classify_def Let_def
        split: if_splits intro!: nth_mem)
  then show ?thesis using toid_bound by (auto simp: list_all_iff)
qed

text \<open>The type a name stands for is one of the full names, with the list rule of the name found.\<close>

lemma header_type:
  assumes "hde < 42"
  defines "hf \<equiv> (if usipy_hdr_iscmpct hde then he_cantype (usipy_hdr_db_byid hde) else hde)"
  shows "hf \<le> 32" "he_cantype (usipy_hdr_db_byid hf) = hf"
    "he_csl_allowed (usipy_hdr_db_byid hde) = he_csl_allowed (usipy_hdr_db_byid hf)"
proof -
  have t: "(if i \<le> 32 then he_cantype (usipy_hdr_db_byid i) = i \<and> \<not> usipy_hdr_iscmpct i
       else usipy_hdr_iscmpct i \<and> he_cantype (usipy_hdr_db_byid i) \<in> set [1..<33]) \<and>
      he_csl_allowed (usipy_hdr_db_byid i) =
        he_csl_allowed (usipy_hdr_db_byid (he_cantype (usipy_hdr_db_byid i)))" if "i < 42" for i
    by (rule bspec[OF hdr_table_types[unfolded list_all_iff]]) (use that in simp)
  have h: "hf \<le> 32" "hf = he_cantype (usipy_hdr_db_byid hde)"
    using t[OF assms(1)] by (auto simp: hf_def split: if_splits)
  then show "hf \<le> 32" "he_cantype (usipy_hdr_db_byid hf) = hf" using t[of hf] by simp_all
  show "he_csl_allowed (usipy_hdr_db_byid hde) = he_csl_allowed (usipy_hdr_db_byid hf)"
    using t[OF assms(1)] h(2) by simp
qed

lemma header_name:
  assumes "1 \<le> ty" "ty \<le> 32"
  shows "CHR '':'' \<notin> set (he_name (usipy_hdr_db_byid ty))"
    "\<forall>c\<in>set (he_name (usipy_hdr_db_byid ty)). \<not> USIPY_ISLWS c"
    "he_name (usipy_hdr_db_byid ty) \<noteq> []"
    "usipy_hdr_db_lookup (he_name (usipy_hdr_db_byid ty)) = Some ty"
    "\<not> usipy_hdr_iscmpct ty" "he_cantype (usipy_hdr_db_byid ty) = ty"
proof -
  have m: "ty \<in> set [1..<42]" "ty \<in> set [0..<42]" using assms by simp_all
  note n = bspec[OF hdr_table_names[unfolded list_all_iff] m(1), unfolded list_all_iff]
  show "CHR '':'' \<notin> set (he_name (usipy_hdr_db_byid ty))"
    "\<forall>c\<in>set (he_name (usipy_hdr_db_byid ty)). \<not> USIPY_ISLWS c"
    "he_name (usipy_hdr_db_byid ty) \<noteq> []"
    using n by blast+
  show "usipy_hdr_db_lookup (he_name (usipy_hdr_db_byid ty)) = Some ty"
    using assms by (intro hdr_lookup_known) (simp_all add: ieq_def)
  show "\<not> usipy_hdr_iscmpct ty" "he_cantype (usipy_hdr_db_byid ty) = ty"
    using bspec[OF hdr_table_types[unfolded list_all_iff] m(2)] assms(2) by simp_all
qed

subsection \<open>Folded text\<close>

text \<open>Every CR LF inside the text is followed by white space.\<close>

definition folded :: "string \<Rightarrow> bool" where
  "folded s \<longleftrightarrow> (\<forall>x y. s = x @ CRLF @ y \<longrightarrow> y \<noteq> [] \<and> USIPY_ISWS (hd y))"

lemma cut_line_append: "cut_line g = Some (l, r) \<Longrightarrow> cut_line (g @ x) = Some (l, r @ x)"
  by (induction g arbitrary: l rule: cut_line.induct) (auto split: if_splits)

lemma cut_line_whole: "cut_line g = None \<Longrightarrow> cut_line (g @ CRLF @ r) = Some (g, r)"
proof (induction g rule: cut_line.induct)
  case "2_2"
  then show ?case by (cases r) auto
qed (auto split: if_splits)

lemma cut_line_free_line: "cut_line s = Some (l, r) \<Longrightarrow> cut_line l = None"
proof (induction s arbitrary: l rule: cut_line.induct)
  case (1 c d s)
  show ?case
  proof (cases "c = CR \<and> d = LF")
    case False
    then obtain l' where l': "l = c # l'" "cut_line (d # s) = Some (l', r)" using 1(2) by auto
    have "l' = [] \<or> hd l' = d" using cut_line_Some[OF l'(2)] by (cases l') auto
    then show ?thesis using 1(1)[OF False l'(2)] l'(1) False by (cases l') auto
  qed (use 1(2) in auto)
qed auto

lemma cut_line_None_iff: "cut_line s = None \<longleftrightarrow> (\<nexists>x y. s = x @ CRLF @ y)"
proof
  assume n: "cut_line s = None"
  show "\<nexists>x y. s = x @ CRLF @ y"
  proof (intro notI, elim exE)
    fix x y assume "s = x @ CRLF @ y"
    then show False using cut_line_None[OF n, of "length x"] by (simp add: nth_append)
  qed
next
  assume n: "\<nexists>x y. s = x @ CRLF @ y"
  show "cut_line s = None"
  proof (rule ccontr)
    assume "cut_line s \<noteq> None"
    then obtain l r where "cut_line s = Some (l, r)" by fastforce
    then show False using n cut_line_Some by blast
  qed
qed

lemma folded_rest:
  assumes "folded s" "cut_line s = Some (l, r)"
  shows "folded r" "r \<noteq> []" "USIPY_ISWS (hd r)"
proof -
  have s: "s = l @ CRLF @ r" using cut_line_Some[OF assms(2)] by simp
  then show "r \<noteq> []" "USIPY_ISWS (hd r)" using assms(1) by (auto simp: folded_def)
  show "folded r"
    unfolding folded_def using assms(1) s unfolding folded_def
    by (metis append.assoc)
qed

text \<open>The lines of folded white space continue the header.\<close>

lemma read_folded:
  "folded g \<Longrightarrow> g \<noteq> [] \<Longrightarrow> USIPY_ISWS (hd g) \<Longrightarrow>
     read_headers h (g @ CRLF @ rest) = read_headers (h @ CRLF @ g) rest"
proof (induction "length g" arbitrary: g h rule: less_induct)
  case less
  have hd: "hd (g @ CRLF @ rest) = hd g" using less(3) by simp
  show ?case
  proof (cases "cut_line g")
    case None
    then show ?thesis
      using cut_line_whole[OF None, of rest] less(4) hd by (subst read_headers.simps) simp
  next
    case (Some lr)
    obtain l r where lr: "lr = (l, r)" by fastforce
    note cut = Some[unfolded lr]
    note f = folded_rest[OF less(2) cut]
    have "read_headers h (g @ CRLF @ rest) = read_headers (h @ CRLF @ l) (r @ CRLF @ rest)"
      using cut_line_append[OF cut, of "CRLF @ rest"] less(4) hd by (subst read_headers.simps) simp
    also have "\<dots> = read_headers ((h @ CRLF @ l) @ CRLF @ r) rest"
      by (rule less(1)[OF cut_line_length[OF cut] f])
    finally show ?thesis using cut_line_Some[OF cut] by simp
  qed
qed

text \<open>A folded header that begins at the start of a line.\<close>

lemma cut_header:
  assumes "folded f"
  obtains l r where "cut_line (f @ CRLF @ rest) = Some (l, r)" "f \<noteq> [] \<Longrightarrow> \<not> USIPY_ISWS (hd f) \<Longrightarrow> hd f \<noteq> CR \<Longrightarrow> l \<noteq> []"
    "read_headers l r = read_headers f rest"
proof (cases "cut_line f")
  case None
  then show thesis using that[of f rest] cut_line_whole[OF None, of rest] by auto
next
  case (Some lr)
  obtain l r where lr: "lr = (l, r)" by fastforce
  note cut = Some[unfolded lr]
  have f: "f = l @ CRLF @ r" using cut_line_Some[OF cut] by simp
  have "read_headers l (r @ CRLF @ rest) = read_headers (l @ CRLF @ r) rest"
    using read_folded[OF folded_rest[OF assms cut]] .
  then show thesis
    using that[of l "r @ CRLF @ rest"] cut_line_append[OF cut, of "CRLF @ rest"] f by (cases l) auto
qed

text \<open>A header line: folded, and neither white space nor CR at its start.\<close>

definition header_line :: "string \<Rightarrow> bool" where
  "header_line f \<longleftrightarrow> folded f \<and> f \<noteq> [] \<and> \<not> USIPY_ISLWS (hd f)"

definition lines_text :: "string list \<Rightarrow> string" where
  "lines_text fs = concat (map (\<lambda>f. f @ CRLF) fs)"

lemma lines_text_append: "lines_text (xs @ ys) = lines_text xs @ lines_text ys"
  by (simp add: lines_text_def)

lemma read_lines:
  "\<forall>f\<in>set fs. header_line f \<Longrightarrow> read_headers h (lines_text fs @ CRLF @ body) = (h # fs, body)"
proof (induction fs arbitrary: h)
  case Nil
  have "cut_line (CRLF @ body) = Some ([], body)" by simp
  moreover have "\<not> USIPY_ISWS (hd (CRLF @ body))" by (simp add: USIPY_ISWS_def)
  ultimately show ?case by (subst read_headers.simps) (simp add: lines_text_def)
next
  case (Cons f fs)
  let ?rest = "lines_text fs @ CRLF @ body"
  have f: "folded f" "f \<noteq> []" "\<not> USIPY_ISWS (hd f)" "hd f \<noteq> CR"
    using Cons(2) by (auto simp: header_line_def USIPY_ISLWS_def)
  have fs: "\<forall>f\<in>set fs. header_line f" using Cons(2) by simp
  obtain l r where lr: "cut_line (f @ CRLF @ ?rest) = Some (l, r)" "l \<noteq> []"
    "read_headers l r = read_headers f ?rest"
    using cut_header[OF f(1)] f by metis
  have t: "lines_text (f # fs) @ CRLF @ body = f @ CRLF @ ?rest" by (simp add: lines_text_def)
  have "\<not> USIPY_ISWS (hd (f @ CRLF @ ?rest))" using f by simp
  then show ?case
    unfolding t using lr Cons(1)[OF fs, of f] by (subst read_headers.simps) simp
qed

text \<open>A message text is split into its parts.\<close>

lemma split_message_text:
  assumes "cut_line sl = None" "fs \<noteq> []" "\<forall>f\<in>set fs. header_line f"
  shows "split_message (sl @ CRLF @ lines_text fs @ CRLF @ body) = Some (sl, fs, body)"
proof -
  obtain f fs' where fs: "fs = f # fs'" using assms(2) by (cases fs) auto
  let ?rest = "lines_text fs' @ CRLF @ body"
  have f: "folded f" "f \<noteq> []" "\<not> USIPY_ISWS (hd f)" "hd f \<noteq> CR"
    using assms(3) by (auto simp: fs header_line_def USIPY_ISLWS_def)
  obtain l r where lr: "cut_line (f @ CRLF @ ?rest) = Some (l, r)" "l \<noteq> []"
    "read_headers l r = read_headers f ?rest"
    using cut_header[OF f(1)] f by metis
  have t: "lines_text fs @ CRLF @ body = f @ CRLF @ ?rest" by (simp add: lines_text_def fs)
  show ?thesis
    using cut_line_whole[OF assms(1), of "f @ CRLF @ ?rest"] lr read_lines[of fs' f body] assms(3)
    unfolding t by (simp add: split_message_def fs)
qed

subsection \<open>Headers that are written\<close>

lemma folded_Cons: "c \<noteq> CR \<Longrightarrow> folded s \<Longrightarrow> folded (c # s)"
  unfolding folded_def by (auto simp: Cons_eq_append_conv)

lemma folded_append: "CR \<notin> set p \<Longrightarrow> folded s \<Longrightarrow> folded (p @ s)"
  by (induction p) (auto intro: folded_Cons)

lemma folded_sublist:
  assumes "folded s" "sublist v s" "trimmed v"
  shows "folded v"
  unfolding folded_def
proof (intro allI impI)
  fix x y assume v: "v = x @ CRLF @ y"
  obtain a b where "s = a @ v @ b" using assms(2) by (auto simp: sublist_def)
  then have "s = (a @ x) @ CRLF @ (y @ b)" using v by simp
  then have w: "y @ b \<noteq> [] \<and> USIPY_ISWS (hd (y @ b))" using assms(1) unfolding folded_def by blast
  have "y \<noteq> []" using assms(3) v by (auto simp: trimmed_def USIPY_ISLWS_def)
  then show "y \<noteq> [] \<and> USIPY_ISWS (hd y)" using w by simp
qed

lemma CRLF_append_cases:
  assumes "h @ CRLF @ l = x @ CRLF @ y"
  shows "(x = h \<and> y = l) \<or> (\<exists>u. h = x @ CRLF @ u \<and> y = u @ CRLF @ l) \<or> (\<exists>u. l = u @ CRLF @ y)"
proof -
  consider u where "h = x @ u" "u @ CRLF @ l = CRLF @ y" | u where "x = h @ u" "CRLF @ l = u @ CRLF @ y"
    using assms by (auto simp: append_eq_append_conv2)
  then show ?thesis
  proof cases
    case 1
    then show ?thesis by (cases u; cases "tl u") auto
  next
    case 2
    then show ?thesis by (cases u; cases "tl u") auto
  qed
qed

lemma folded_continue:
  assumes "folded h" "cut_line l = None" "l \<noteq> []" "USIPY_ISWS (hd l)"
  shows "folded (h @ CRLF @ l)"
  unfolding folded_def
proof (intro allI impI)
  fix x y assume "h @ CRLF @ l = x @ CRLF @ y"
  then consider "y = l" | u where "h = x @ CRLF @ u" "y = u @ CRLF @ l" | u where "l = u @ CRLF @ y"
    using CRLF_append_cases by blast
  then show "y \<noteq> [] \<and> USIPY_ISWS (hd y)"
  proof cases
    case 2
    then have "u \<noteq> [] \<and> USIPY_ISWS (hd u)" using assms(1) unfolding folded_def by blast
    then show ?thesis using 2(2) by simp
  next
    case 3
    then show ?thesis using assms(2) by (auto simp: cut_line_None_iff)
  qed (use assms in simp)
qed

lemma folded_line: "cut_line l = None \<Longrightarrow> folded l"
  by (auto simp: folded_def cut_line_None_iff)

text \<open>Every header that is read from a message is folded text.\<close>

lemma read_headers_folded:
  "folded h \<Longrightarrow> \<forall>f\<in>set (fst (read_headers h s)). folded f"
proof (induction h s rule: read_headers.induct)
  case (1 h s)
  show ?case
  proof (cases "cut_line s")
    case None
    then show ?thesis by (subst read_headers.simps) simp
  next
    case (Some lr)
    obtain l r where lr: "lr = (l, r)" by fastforce
    note cut = Some[unfolded lr]
    have l: "cut_line l = None" by (rule cut_line_free_line[OF cut])
    show ?thesis
    proof (cases "USIPY_ISWS (hd s)")
      case True
      have "s = l @ CRLF @ r" using cut_line_Some[OF cut] by simp
      then have "l \<noteq> []" "hd s = hd l" using True by (cases l; simp add: USIPY_ISWS_def)+
      then have "folded (h @ CRLF @ l)" using folded_continue[OF 1(3) l] True by simp
      then show ?thesis using 1(1)[OF cut refl True] cut True by (subst read_headers.simps) simp
    next
      case False
      obtain hs b where rh: "read_headers l r = (hs, b)" by fastforce
      show ?thesis
        using 1(2)[OF cut refl False _ folded_line[OF l]] cut False 1(3) rh
        by (subst read_headers.simps) auto
    qed
  qed
qed

lemma split_message_folded:
  assumes "split_message s = Some (sl, hs, b)"
  shows "\<forall>f\<in>set hs. folded f" "cut_line sl = None"
proof -
  obtain r l r' where c: "cut_line s = Some (sl, r)" "cut_line r = Some (l, r')" "hs = fst (read_headers l r')"
    using assms by (auto simp: split_message_def bind_eq_Some_conv case_prod_beta split: if_splits)
  show "cut_line sl = None" by (rule cut_line_free_line[OF c(1)])
  show "\<forall>f\<in>set hs. folded f"
    unfolding c(3) by (rule read_headers_folded) (rule folded_line[OF cut_line_free_line[OF c(2)]])
qed

text \<open>A value that can be written: it comes back as the one value of its header.\<close>

definition plain_value :: "nat \<Rightarrow> string \<Rightarrow> bool" where
  "plain_value ty v \<longleftrightarrow>
     trimmed v \<and> folded v \<and> (he_csl_allowed (usipy_hdr_db_byid ty) \<longrightarrow> CHR '','' \<notin> set v)"

lemma trim_value_trimmed: "trimmed (trim_value v)"
proof -
  let ?b = "dropWhile USIPY_ISLWS v"
  have "trim_value v = rev (dropWhile USIPY_ISLWS (rev ?b))"
    by (simp add: trim_value_def str_simps)
  moreover have "trimmed (rev (dropWhile USIPY_ISLWS (rev ?b)))"
  proof (cases "dropWhile USIPY_ISLWS (rev ?b)")
    case (Cons c w)
    have "\<not> USIPY_ISLWS c" using Cons by (metis hd_dropWhile list.discI list.sel(1))
    moreover have "\<exists>z. ?b = rev (c # w) @ z"
      using takeWhile_dropWhile_id[of USIPY_ISLWS "rev ?b"] Cons by (metis rev_append rev_rev_ident)
    then obtain z where z: "?b = rev (c # w) @ z" by blast
    then have "hd (rev (c # w)) = hd ?b" "?b \<noteq> []" by (simp_all only: z hd_append rev_is_Nil_conv) simp_all
    then have "\<not> USIPY_ISLWS (hd (rev (c # w)))" by (metis hd_dropWhile)
    ultimately show ?thesis by (simp add: Cons trimmed_def last_rev)
  qed (simp add: trimmed_def)
  ultimately show ?thesis by simp
qed

lemma trim_value_sublist: "sublist (trim_value v) v"
proof -
  have "suffix (usipy_str_ltrm_b v) v" by (simp add: str_simps suffix_dropWhile)
  moreover have "prefix (usipy_str_ltrm_e w) w" for w
    by (metis ltrm_e_dropWhile rev_rev_ident suffix_dropWhile suffix_to_prefix)
  ultimately show ?thesis
    unfolding trim_value_def by (meson prefix_imp_sublist sublist_order.order_trans suffix_imp_sublist)
qed

lemma split_on_piece: "x \<in> set (split_on d s) \<Longrightarrow> sublist x s \<and> d \<notin> set x"
proof (induction s arbitrary: x)
  case (Cons c s)
  obtain y ys where y: "split_on d s = y # ys" by (metis neq_Nil_conv split_on_not_Nil)
  have p: "prefix y s"
  proof -
    have "\<exists>y ys. split_on d s = y # ys \<and> prefix y s" for s
      by (induction s) (auto split: list.splits)
    then show ?thesis using y by (metis list.inject)
  qed
  show ?case
    using Cons y p by (auto simp: sublist_Cons_right split: if_splits)
qed simp

lemma value_headers_value:
  "h \<in> set (value_headers hdr vs) \<Longrightarrow> vs \<noteq> [] \<Longrightarrow>
     h_hf_type h = h_hf_type hdr \<and> (\<exists>w\<in>set vs. h_value h = trim_value w)"
  by (cases vs) (auto simp: value_headers_def)

lemma header_values_plain:
  assumes "header_of_text full = Some vs" "folded full" "h \<in> set vs"
  shows "plain_value (h_hf_type h) (h_value h)" "h_hf_type h \<le> 32" "hdr_cantype h = h_hf_type h"
proof -
  obtain name val hde where sp: "usipy_str_split full CHR '':'' = Some (name, val)"
    and hde: "usipy_hdr_db_lookup (usipy_str_trm_e name) = Some hde"
    and vs: "vs = value_headers (hdr_zero\<lparr>h_full := full, h_name := usipy_str_trm_e name,
        h_onwire_hf := hde,
        h_hf_type := (if usipy_hdr_iscmpct hde then he_cantype (usipy_hdr_db_byid hde) else hde)\<rparr>)
       (if he_csl_allowed (usipy_hdr_db_byid hde) then split_on CHR '','' val else [val])"
    using assms(1) by (auto simp: header_of_text_def bind_eq_Some_conv)
  let ?hf = "if usipy_hdr_iscmpct hde then he_cantype (usipy_hdr_db_byid hde) else hde"
  let ?pieces = "if he_csl_allowed (usipy_hdr_db_byid hde) then split_on CHR '','' val else [val]"
  note ht = header_type[OF lookup_bound[OF hde]]
  have ne: "?pieces \<noteq> []" by simp
  have ty: "h_hf_type h = ?hf" and val: "\<exists>w\<in>set ?pieces. h_value h = trim_value w"
    using value_headers_value[OF assms(3)[unfolded vs] ne] by simp_all
  then obtain w where w: "w \<in> set ?pieces" "h_value h = trim_value w" by blast
  have w2: "sublist w val" "he_csl_allowed (usipy_hdr_db_byid hde) \<Longrightarrow> CHR '','' \<notin> set w"
    using w(1) split_on_piece by (auto split: if_splits)
  have "full = (name @ '':'') @ val @ []" using sp by (simp add: split_Some_iff)
  then have "sublist val full" unfolding sublist_def by blast
  then have sub: "sublist (h_value h) full"
    using w(2) w2(1) trim_value_sublist[of w] by (metis sublist_order.order_trans)
  have tr: "trimmed (h_value h)" by (simp add: w(2) trim_value_trimmed)
  have st: "set (h_value h) \<subseteq> set w" using trim_value_sublist[of w] w(2) by (simp add: set_mono_sublist)
  have csl: "he_csl_allowed (usipy_hdr_db_byid (h_hf_type h)) = he_csl_allowed (usipy_hdr_db_byid hde)"
    by (simp only: ty ht(3))
  have "he_csl_allowed (usipy_hdr_db_byid (h_hf_type h)) \<longrightarrow> CHR '','' \<notin> set (h_value h)"
    unfolding csl using w2(2) st by blast
  then show "plain_value (h_hf_type h) (h_value h)"
    unfolding plain_value_def using tr folded_sublist[OF assms(2) sub tr] by blast
  show "h_hf_type h \<le> 32" "hdr_cantype h = h_hf_type h" by (simp_all only: ty ht(1,2))
qed

text \<open>A header as it is written, and what reading it gives.\<close>

definition hdr_text :: "nat \<times> string \<Rightarrow> string" where
  "hdr_text tv = he_name (usipy_hdr_db_byid (fst tv)) @ '': '' @ snd tv"

definition read_hdr :: "nat \<times> string \<Rightarrow> usipy_sip_hdr" where
  "read_hdr tv = hdr_zero\<lparr>h_full := hdr_text tv, h_name := he_name (usipy_hdr_db_byid (fst tv)),
     h_onwire_hf := fst tv, h_hf_type := fst tv, h_value := snd tv\<rparr>"

definition plain_hdr :: "nat \<times> string \<Rightarrow> bool" where
  "plain_hdr tv \<longleftrightarrow> 1 \<le> fst tv \<and> fst tv \<le> 32 \<and> plain_value (fst tv) (snd tv)"

lemma header_of_written:
  assumes "plain_hdr tv"
  shows "header_of_text (hdr_text tv) = Some [read_hdr tv]"
proof -
  obtain ty v where tv: "tv = (ty, v)" by fastforce
  have ty: "1 \<le> ty" "ty \<le> 32" and v: "plain_value ty v" using assms by (simp_all add: plain_hdr_def tv)
  let ?n = "he_name (usipy_hdr_db_byid ty)"
  note n = header_name[OF ty]
  have sp: "usipy_str_split (hdr_text tv) CHR '':'' = Some (?n, CHR '' '' # v)"
    using n(1) by (simp add: hdr_text_def tv split_Some_iff)
  have "\<not> USIPY_ISWS (last ?n)" using n(2,3) by (auto simp: USIPY_ISLWS_def)
  then have tr: "usipy_str_trm_e ?n = ?n" by (cases ?n rule: rev_cases) simp_all
  have tv2: "trim_value (CHR '' '' # v) = v"
    using v by (simp add: trim_value_def plain_value_def USIPY_ISLWS_def USIPY_ISWS_def)
  have pcs: "(if he_csl_allowed (usipy_hdr_db_byid ty) then split_on CHR '','' (CHR '' '' # v)
      else [CHR '' '' # v]) = [CHR '' '' # v]"
    using v by (auto simp: plain_value_def split_on_absent)
  show ?thesis
    unfolding header_of_text_def sp using n tr tv2 pcs
    by (simp add: value_headers_def read_hdr_def tv hdr_zero_def)
qed

lemma headers_of_written: "\<forall>tv\<in>set tvs. plain_hdr tv \<Longrightarrow> headers_of_text (map hdr_text tvs) = Some (map read_hdr tvs)"
  by (induction tvs) (simp_all add: header_of_written)

lemma header_line_written:
  assumes "plain_hdr tv"
  shows "header_line (hdr_text tv)"
proof -
  obtain ty v where tv: "tv = (ty, v)" by fastforce
  have ty: "1 \<le> ty" "ty \<le> 32" and v: "folded v"
    using assms by (simp_all add: plain_hdr_def tv plain_value_def)
  note n = header_name[OF ty]
  have "CR \<notin> set (he_name (usipy_hdr_db_byid ty) @ '': '')" using n(2) by (auto simp: USIPY_ISLWS_def)
  then have "folded ((he_name (usipy_hdr_db_byid ty) @ '': '') @ v)" using v by (rule folded_append)
  then show ?thesis using n(2,3) by (cases "he_name (usipy_hdr_db_byid ty)")
    (auto simp: header_line_def hdr_text_def tv)
qed

text \<open>A message that is written with plain headers is read back.\<close>

lemma wire_message_written:
  assumes "cut_line sl = None" "sline_of_text sl = Some (k, p)" "tvs \<noteq> []" "\<forall>tv\<in>set tvs. plain_hdr tv"
  shows "wire_message (sl @ CRLF @ lines_text (map hdr_text tvs) @ CRLF @ body) =
    Some (sl, k, p, map read_hdr tvs, body)"
  using split_message_text[OF assms(1), of "map hdr_text tvs" body] assms headers_of_written[OF assms(4)]
    header_line_written
  by (simp add: wire_message_def)

text \<open>What is known of the headers of a message that has been read.\<close>

lemma headers_of_text_plain:
  "headers_of_text hs = Some vs \<Longrightarrow> \<forall>f\<in>set hs. folded f \<Longrightarrow>
   \<forall>h\<in>set vs. plain_value (h_hf_type h) (h_value h) \<and> h_hf_type h \<le> 32 \<and> hdr_cantype h = h_hf_type h"
  by (induction hs arbitrary: vs) (auto simp: bind_eq_Some_conv dest: header_values_plain)

lemma message_of_plain:
  assumes "message_of s m"
  shows "\<forall>h\<in>set (m_hdrs m). plain_value (h_hf_type h) (h_value h) \<and> h_hf_type h \<le> 32 \<and>
      hdr_cantype h = h_hf_type h"
    "cut_line (sln_onwire (m_sline m)) = None"
    "sline_of_text (sln_onwire (m_sline m)) = Some (m_kind m, sln_parsed (m_sline m))"
proof -
  obtain hs b where "split_message s = Some (sln_onwire (m_sline m), hs, b)"
    "sline_of_text (sln_onwire (m_sline m)) = Some (m_kind m, sln_parsed (m_sline m))"
    "headers_of_text hs = Some (m_hdrs m)"
    using assms by (auto simp: message_of_def wire_message_def bind_eq_Some_conv)
  then show "\<forall>h\<in>set (m_hdrs m). plain_value (h_hf_type h) (h_value h) \<and> h_hf_type h \<le> 32 \<and>
      hdr_cantype h = h_hf_type h"
    "cut_line (sln_onwire (m_sline m)) = None"
    "sline_of_text (sln_onwire (m_sline m)) = Some (m_kind m, sln_parsed (m_sline m))"
    using split_message_folded headers_of_text_plain by blast+
qed

end
