(* ===== verification/Usipy_Masks.thy ===== *)
theory Usipy_Masks
  imports Usipy_Wire
begin

unbundle bit_operations_syntax

text \<open>
  The 64-bit masks of header types (\<open>USIPY_HFT_MASK\<close>, \<open>USIPY_HF_ISMSET\<close>) as sets of types.
\<close>

lemma bit_HFT_MASK: "bit (USIPY_HFT_MASK t) n \<longleftrightarrow> n = t \<and> t < 64"
  by (auto simp: USIPY_HFT_MASK_def push_bit_eq_mult bit_exp_iff)

definition mask_of :: "64 word \<Rightarrow> nat set" where
  "mask_of m = {t. bit m t}"

lemma bit_bound: "bit (m :: 64 word) t \<Longrightarrow> t < 64"
  using bit_imp_le_length[of m t] by simp

lemma mask_of_HFT_MASK: "t < 64 \<Longrightarrow> mask_of (USIPY_HFT_MASK t) = {t}"
  by (auto simp: mask_of_def bit_HFT_MASK)

lemma mask_of_zero: "mask_of m = {} \<longleftrightarrow> m = 0"
  by (auto simp: mask_of_def bit_eq_iff dest: bit_bound)

lemma mask_of_and: "mask_of (m AND n) = mask_of m \<inter> mask_of n"
  by (auto simp: mask_of_def bit_and_iff)

lemma mask_of_or: "mask_of (m OR n) = mask_of m \<union> mask_of n"
  by (auto simp: mask_of_def bit_or_iff)

lemma mask_of_clear: "mask_of (m AND NOT (USIPY_HFT_MASK t)) = mask_of m - {t}"
  by (auto simp: mask_of_def bit_and_iff bit_not_iff bit_HFT_MASK dest: bit_bound)

lemma ismset_iff: "USIPY_HF_ISMSET m t \<longleftrightarrow> t \<in> mask_of m"
proof -
  have "mask_of (USIPY_HFT_MASK t) = (if t < 64 then {t} else {})"
    by (auto simp: mask_of_def bit_HFT_MASK)
  moreover have "t \<in> mask_of m \<Longrightarrow> t < 64" by (simp add: mask_of_def bit_bound)
  ultimately show ?thesis
    by (auto simp: USIPY_HF_ISMSET_def mask_of_zero[symmetric] mask_of_and)
qed

lemmas mask_simps = ismset_iff mask_of_or mask_of_clear mask_of_HFT_MASK

lemma present_mask_types: "mask_of (present_mask hs) = {t \<in> hdr_cantype ` set hs. t < 64}"
proof (induction hs)
  case (Cons h hs)
  have "mask_of (USIPY_HF_MASK h) = {t \<in> {hdr_cantype h}. t < 64}"
    by (auto simp: USIPY_HF_MASK_def mask_of_def bit_HFT_MASK)
  then show ?case using Cons by (auto simp: mask_of_or)
qed (simp add: mask_of_zero)

end
