(* ===== verification/Usipy_Response.thy ===== *)
theory Usipy_Response
  imports Usipy_Res Usipy_Wiretext Usipy_Masks
begin

unbundle bit_operations_syntax

text \<open>
  The text of a response: status line, the headers taken from the request, the library's own. The
  routines of \<open>usipy_sip_res.c\<close> write exactly this text when it fits, and reading it gives back
  the headers the response structure holds.
\<close>

lemma mask_copyfirst: "mask_of res_copyfirst = {USIPY_HF_FROM, USIPY_HF_CALLID, USIPY_HF_TO, USIPY_HF_CSEQ}"
  by (auto simp: res_copyfirst_def mask_simps)

lemma mask_copyall: "mask_of res_copyall = {USIPY_HF_VIA, USIPY_HF_RECORDROUTE}"
  by (auto simp: res_copyall_def mask_simps)

subsection \<open>One header\<close>

lemma read_hdr_eq: "read_hdr (ty, v) = hdr_zero\<lparr>h_full := hdr_text (ty, v),
   h_name := he_name (usipy_hdr_db_byid ty), h_value := v, h_onwire_hf := ty, h_hf_type := ty\<rparr>"
  by (simp add: read_hdr_def)

definition extra_of :: "string option \<Rightarrow> string" where
  "extra_of extrap = (case extrap of None \<Rightarrow> [] | Some e \<Rightarrow> e)"

lemma append_hdr_eq:
  "usipy_sip_res_append_hdr len hf val pre extrap buf =
     (let tv = (hf, val @ pre @ extra_of extrap) in
      if length buf + length (hdr_text tv) + 2 \<le> len
      then Some (buf @ hdr_text tv @ CRLF, read_hdr tv) else None)"
proof -
  have opt: "(if length s \<noteq> 0 then USIPY_APPEND_STR len s b else Some b) =
      (if s = [] \<or> length b + length s \<le> len then Some (b @ s) else None)" for s b
    by (simp add: USIPY_APPEND_STR_def)
  show ?thesis
    unfolding usipy_sip_res_append_hdr_def Let_def extra_of_def[symmetric] opt
    by (auto simp: USIPY_APPEND_STR_def hdr_text_def read_hdr_eq bind_eq_Some_conv)
qed

lemma append_next_eq:
  "usipy_sip_res_append_next_hdr cap len ty v pre extrap (buf, hdrs) =
     (let tv = (ty, v @ pre @ extra_of extrap) in
      if length hdrs < cap \<and> length buf + length (hdr_text tv) + 2 \<le> len
      then Some (buf @ hdr_text tv @ CRLF, hdrs @ [read_hdr tv]) else None)"
  by (simp add: usipy_sip_res_append_next_hdr_def append_hdr_eq usipy_sip_res_get_next_ohp_def Let_def)

text \<open>Headers written one after the other.\<close>

lemma append_hdrs_eq:
  "res_append_hdrs cap len tvs (buf, hdrs) =
     (if tvs = [] \<or> length hdrs + length tvs \<le> cap \<and> length buf + length (lines_text (map hdr_text tvs)) \<le> len
      then Some (buf @ lines_text (map hdr_text tvs), hdrs @ map read_hdr tvs) else None)"
proof (induction tvs arbitrary: buf hdrs)
  case (Cons tv tvs)
  obtain ty v where "tv = (ty, v)" by fastforce
  then show ?case
    by (cases "tvs = []") (auto simp: append_next_eq Cons extra_of_def lines_text_def Let_def)
qed (simp add: lines_text_def)

subsection \<open>The headers of a response\<close>

text \<open>The first header of each of the types \<open>F\<close>, and all Via and Record-Route headers.\<close>

fun res_pick :: "nat set \<Rightarrow> usipy_sip_hdr list \<Rightarrow> usipy_sip_hdr list" where
  "res_pick F [] = []"
| "res_pick F (h # hs) =
     (if hdr_cantype h \<in> F then h # res_pick (F - {hdr_cantype h}) hs
      else if hdr_cantype h \<in> {USIPY_HF_VIA, USIPY_HF_RECORDROUTE} then h # res_pick F hs
      else res_pick F hs)"

text \<open>Its type and value; the To header gets the tag.\<close>

definition res_value :: "string option \<Rightarrow> usipy_sip_hdr \<Rightarrow> nat \<times> string" where
  "res_value tagp h = (h_hf_type h, h_value h @
     (if hdr_cantype h = USIPY_HF_TO \<and> extra_of tagp \<noteq> [] then '';tag='' @ extra_of tagp else []))"

lemma res_value_step:
  "usipy_sip_res_append_next_hdr cap len (h_hf_type h) (h_value h)
     (if hdr_cantype h = USIPY_HF_TO \<and> (case tagp of None \<Rightarrow> False | Some t \<Rightarrow> length t \<noteq> 0) then '';tag='' else [])
     (if hdr_cantype h = USIPY_HF_TO then tagp else None) st =
   res_append_hdrs cap len [res_value tagp h] st"
  by (cases st; cases tagp) (auto simp: append_next_eq append_hdrs_eq res_value_def extra_of_def lines_text_def Let_def)

lemma copy_all_step:
  assumes "hdr_cantype h \<in> {USIPY_HF_VIA, USIPY_HF_RECORDROUTE}"
  shows "usipy_sip_res_append_next_hdr cap len (h_hf_type h) (h_value h) [] None st =
    res_append_hdrs cap len [res_value tagp h] st"
  using assms by (cases st) (auto simp: append_next_eq append_hdrs_eq res_value_def extra_of_def lines_text_def Let_def)

lemma append_hdrs_Cons:
  "res_append_hdrs cap len (tv # tvs) = (\<lambda>st. Option.bind (res_append_hdrs cap len [tv] st) (res_append_hdrs cap len tvs))"
  by (cases tv) (rule ext, simp)

lemma mask_minus_absent:
  "\<not> USIPY_HF_ISMSET m t \<Longrightarrow> m AND NOT (USIPY_HFT_MASK t OR p) = m AND NOT p"
  by (rule bit_word_eqI) (auto simp: ismset_iff mask_of_def bit_and_iff bit_or_iff bit_not_iff bit_HFT_MASK)

lemma copy_hdrs_eq:
  "res_copy_hdrs cap len tagp hs m st = map_option (\<lambda>st. (m AND NOT (present_mask hs), st))
     (res_append_hdrs cap len (map (res_value tagp) (res_pick (mask_of m) hs)) st)"
proof (induction hs arbitrary: m st)
  case (Cons h hs)
  let ?ct = "hdr_cantype h"
  have pm: "present_mask (h # hs) = USIPY_HFT_MASK ?ct OR present_mask hs"
    by (simp add: USIPY_HF_MASK_def)
  have bind: "Option.bind x (\<lambda>st. map_option f (g st)) = map_option f (Option.bind x g)" for x f g
    by (cases x) simp_all
  show ?case
  proof (cases "USIPY_HF_ISMSET m ?ct")
    case True
    have mm: "(m AND NOT (USIPY_HFT_MASK ?ct)) AND NOT (present_mask hs) = m AND NOT (present_mask (h # hs))"
      unfolding pm by (simp add: and.assoc)
    have "res_copy_hdrs cap len tagp (h # hs) m st =
        Option.bind (res_append_hdrs cap len [res_value tagp h] st)
          (\<lambda>st. res_copy_hdrs cap len tagp hs (m AND NOT (USIPY_HFT_MASK ?ct)) st)"
      unfolding res_copy_hdrs.simps Let_def res_value_step using True by simp
    then show ?thesis
      using True unfolding Cons mm
      by (simp add: ismset_iff mask_of_clear bind append_hdrs_Cons[of cap len "res_value tagp h" "map _ _"]
          del: present_mask.simps)
  next
    case False
    have mm: "m AND NOT (present_mask (h # hs)) = m AND NOT (present_mask hs)"
      unfolding pm by (rule mask_minus_absent[OF False])
    show ?thesis
    proof (cases "?ct \<in> mask_of res_copyall")
      case True
      then have "res_copy_hdrs cap len tagp (h # hs) m st =
          Option.bind (res_append_hdrs cap len [res_value tagp h] st)
            (\<lambda>st. res_copy_hdrs cap len tagp hs m st)"
        using False copy_all_step[of h cap len st tagp] by (simp add: ismset_iff mask_copyall Let_def)
      then show ?thesis
        using True False unfolding Cons mm
        by (simp add: ismset_iff mask_copyall bind append_hdrs_Cons[of cap len "res_value tagp h" "map _ _"])
    next
      case out: False
      then have "res_copy_hdrs cap len tagp (h # hs) m st = res_copy_hdrs cap len tagp hs m st"
        using False by (simp add: ismset_iff Let_def)
      then show ?thesis
        using out False mm unfolding Cons by (simp add: ismset_iff mask_copyall)
    qed
  qed
qed simp

subsection \<open>The whole response\<close>

definition response_headers :: "string \<Rightarrow> usipy_msg \<Rightarrow> string option \<Rightarrow> (nat \<times> string) list" where
  "response_headers server reqp tagp =
     map (res_value tagp) (res_pick {USIPY_HF_FROM, USIPY_HF_CALLID, USIPY_HF_TO, USIPY_HF_CSEQ} (m_hdrs reqp)) @
     usipy_sip_res_init_append_hdrs server"

definition status_text :: "string \<Rightarrow> usipy_sip_status \<Rightarrow> string" where
  "status_text vp slp = vp @ '' '' @ scode2str (st_code slp) @ st_reason_phrase slp"

definition response_text :: "string \<Rightarrow> string \<Rightarrow> usipy_msg \<Rightarrow> usipy_sip_status \<Rightarrow> string option \<Rightarrow> string" where
  "response_text vp server reqp slp tagp =
     status_text vp slp @ CRLF @ lines_text (map hdr_text (response_headers server reqp tagp)) @ CRLF"

definition request_version :: "usipy_sip_request_line \<Rightarrow> string" where
  "request_version rl = (if rl_version rl = [] then rl_onwire_version rl else rl_version rl)"

lemma copyfirst_left:
  "res_copyfirst AND NOT (present_mask hs) \<noteq> 0 \<longleftrightarrow>
     \<not> {USIPY_HF_FROM, USIPY_HF_CALLID, USIPY_HF_TO, USIPY_HF_CSEQ} \<subseteq> hdr_cantype ` set hs"
proof -
  have "mask_of (res_copyfirst AND NOT (present_mask hs)) = mask_of res_copyfirst - mask_of (present_mask hs)"
    by (auto simp: mask_of_def bit_and_iff bit_not_iff dest: bit_bound)
  then have "res_copyfirst AND NOT (present_mask hs) \<noteq> 0 \<longleftrightarrow> \<not> mask_of res_copyfirst \<subseteq> mask_of (present_mask hs)"
    unfolding mask_of_zero[symmetric] by blast
  then show ?thesis by (auto simp: mask_copyfirst present_mask_types)
qed

lemma own_headers_not_Nil [simp]: "usipy_sip_res_init_append_hdrs server \<noteq> []"
  by (simp add: usipy_sip_res_init_append_hdrs_def)

lemma length_scode2str [simp]: "length (scode2str c) = 4"
  by (simp add: scode2str_def)

text \<open>The response is its text, if all four headers are there and it fits.\<close>

lemma build_fromreq_eq:
  assumes req: "sln_parsed (m_sline reqp) = SL_request rl"
    and len: "length (request_version rl) + 5 \<le> len"
  shows "usipy_sip_res_build_fromreq_tagged_sz server reqp slp tagp cap len = Some
    (let tvs = response_headers server reqp tagp;
         t = response_text (request_version rl) server reqp slp tagp in
     if {USIPY_HF_FROM, USIPY_HF_CALLID, USIPY_HF_TO, USIPY_HF_CSEQ} \<subseteq> hdr_cantype ` set (m_hdrs reqp) \<and>
        length tvs \<le> cap \<and> length t \<le> len
     then Some (t, \<lparr>sl_version = request_version rl, sl_status = slp\<rparr>, map read_hdr tvs) else None)"
proof -
  let ?vp = "request_version rl" and ?own = "usipy_sip_res_init_append_hdrs server"
  let ?req = "map (res_value tagp) (res_pick {USIPY_HF_FROM, USIPY_HF_CALLID, USIPY_HF_TO, USIPY_HF_CSEQ} (m_hdrs reqp))"
  let ?st = "status_text ?vp slp @ CRLF"
  have v: "(if rl_version rl = [] then rl_onwire_version rl else rl_version rl) = ?vp"
    by (simp add: request_version_def)
  have start: "Option.bind (USIPY_APPEND_STR len ?vp []) (USIPY_APPEND_STR len '' '') = Some (?vp @ '' '')"
    using len by (simp add: USIPY_APPEND_STR_def)
  have lines: "lines_text (xs @ ys) = lines_text xs @ lines_text ys" for xs ys
    by (simp add: lines_text_def)
  have "usipy_sip_res_build_fromreq_tagged_sz server reqp slp tagp cap len = Some (do {
      buf \<leftarrow> USIPY_APPEND_STR len (st_reason_phrase slp) (?vp @ '' '' @ scode2str (st_code slp));
      buf \<leftarrow> USIPY_APPEND_STR len CRLF buf;
      st \<leftarrow> res_append_hdrs cap len ?req (buf, []);
      (if res_copyfirst AND NOT (present_mask (m_hdrs reqp)) \<noteq> 0 then None
       else do {
         (buf, hdrs) \<leftarrow> res_append_hdrs cap len ?own st;
         buf \<leftarrow> USIPY_APPEND_STR len CRLF buf;
         Some (buf, \<lparr>sl_version = ?vp, sl_status = slp\<rparr>, hdrs)
       })
    })"
    unfolding usipy_sip_res_build_fromreq_tagged_sz_def req usipy_sip_sline_parsed.case Let_def v start
    using len by (simp add: copy_hdrs_eq mask_copyfirst map_option_case case_prod_beta cong: option.case_cong
      split: bind_split option.split)
  then show ?thesis
    unfolding copyfirst_left response_text_def response_headers_def Let_def
    by (auto simp: USIPY_APPEND_STR_def append_hdrs_eq lines status_text_def)
qed

subsection \<open>Reading a response\<close>

lemma scode2str_dec:
  assumes "100 \<le> unat c" "unat c \<le> 999"
  shows "scode2str c = dec (unat c) @ '' ''"
proof -
  define n where "n = unat c"
  have n: "100 \<le> n" "n \<le> 999" using assms by (simp_all add: n_def)
  have "n mod 100 = 10 * (n div 10 mod 10) + n mod 10" using mod_mult2_eq[of n 10 10] by simp
  then have d: "n div 10 div 10 = n div 100" "n div 10 mod 10 = n mod 100 div 10"
    by (simp_all add: div_mult2_eq[symmetric])
  have "dec n = dec (n div 10) @ [char_of (48 + n mod 10)]" using n by (subst dec.simps) simp
  also have "dec (n div 10) = dec (n div 100) @ [char_of (48 + n mod 100 div 10)]"
    using n d by (subst dec.simps) simp
  also have "dec (n div 100) = [char_of (48 + n div 100)]" using n by (subst dec.simps) simp
  finally show ?thesis by (simp add: scode2str_def n_def)
qed

lemma version_no_space: "ieq vp ''SIP/2.0'' \<Longrightarrow> SP \<notin> set vp \<and> CR \<notin> set vp \<and> vp \<noteq> []"
proof (intro conjI)
  assume i: "ieq vp ''SIP/2.0''"
  have "set (map ascii_lower vp) = set (map ascii_lower ''SIP/2.0'')"
    using i by (simp only: ieq_def)
  then have "ascii_lower ` set vp = ascii_lower ` set ''SIP/2.0''" by (simp only: set_map)
  moreover have "ascii_lower SP \<notin> ascii_lower ` set ''SIP/2.0''" "ascii_lower CR \<notin> ascii_lower ` set ''SIP/2.0''"
    by (simp_all add: ascii_lower_def byte_lower_def)
  ultimately show "SP \<notin> set vp" "CR \<notin> set vp" by blast+
  show "vp \<noteq> []" using i by (auto simp: ieq_def)
qed

lemma sline_of_status_text:
  assumes "ieq vp ''SIP/2.0''" "100 \<le> unat (st_code slp)" "unat (st_code slp) \<le> 999"
  shows "sline_of_text (status_text vp slp) = Some (USIPY_SIP_MSG_RES, SL_status \<lparr>sl_version = vp, sl_status = slp\<rparr>)"
proof -
  let ?c = "dec (unat (st_code slp))"
  have t: "status_text vp slp = vp @ SP # ?c @ SP # st_reason_phrase slp"
    by (simp add: status_text_def scode2str_dec[OF assms(2,3)])
  have "SP \<notin> set ?c" by (rule dec_free) (simp add: is_digit_def)
  moreover have "usipy_str_atoui_range ?c 100 999 = Some (st_code slp)"
    using assms(2,3) by (intro atoui_range_dec) (simp_all add: word_le_nat_alt)
  moreover have "SP \<notin> set vp" "vp \<noteq> []" using version_no_space[OF assms(1)] by simp_all
  ultimately show ?thesis
    using assms(1) by (simp add: sline_of_text_def t split_append)
qed

lemma cut_line_prefix: "CR \<notin> set p \<Longrightarrow> cut_line s = None \<Longrightarrow> cut_line (p @ s) = None"
proof (induction p)
  case (Cons c p)
  then show ?case by (cases "p @ s") auto
qed simp

lemma status_text_line:
  assumes "ieq vp ''SIP/2.0''" "100 \<le> unat (st_code slp)" "unat (st_code slp) \<le> 999" "cut_line (st_reason_phrase slp) = None"
  shows "cut_line (status_text vp slp) = None"
proof -
  let ?p = "vp @ '' '' @ dec (unat (st_code slp)) @ '' ''"
  have "CR \<notin> set (dec (unat (st_code slp)))" by (rule dec_free) (simp add: is_digit_def)
  then have "CR \<notin> set ?p" using version_no_space[OF assms(1)] by simp
  then show ?thesis
    using cut_line_prefix[of ?p "st_reason_phrase slp"] assms(4)
    by (simp add: status_text_def scode2str_dec[OF assms(2,3)])
qed

text \<open>A request that has been read has a version that can be sent back.\<close>

lemma request_line_version:
  "sline_of_text s = Some (k, SL_request rl) \<Longrightarrow> ieq (request_version rl) ''SIP/2.0''"
  by (auto simp: sline_of_text_def bind_eq_Some_conv request_version_def ieq_def split: if_splits)

lemma res_pick_types:
  "h \<in> set (res_pick F hs) \<Longrightarrow> h \<in> set hs \<and> (hdr_cantype h \<in> F \<or> hdr_cantype h \<in> {USIPY_HF_VIA, USIPY_HF_RECORDROUTE})"
  by (induction F hs rule: res_pick.induct) (auto split: if_splits)

text \<open>A tag that can be written.\<close>

definition plain_tag :: "string \<Rightarrow> bool" where
  "plain_tag t \<longleftrightarrow> CR \<notin> set t \<and> (t \<noteq> [] \<longrightarrow> \<not> USIPY_ISLWS (last t))"

lemma folded_tail: "folded s \<Longrightarrow> trimmed s \<Longrightarrow> CR \<notin> set t \<Longrightarrow> folded (s @ t)"
  unfolding folded_def
proof (intro allI impI)
  fix x y assume f: "\<forall>x y. s = x @ CRLF @ y \<longrightarrow> y \<noteq> [] \<and> USIPY_ISWS (hd y)"
    and tr: "trimmed s" and t: "CR \<notin> set t" and e: "s @ t = x @ CRLF @ y"
  consider u where "s = x @ u" "u @ t = CRLF @ y" | u where "x = s @ u" "t = u @ CRLF @ y"
    using e by (auto simp: append_eq_append_conv2)
  then show "y \<noteq> [] \<and> USIPY_ISWS (hd y)"
  proof cases
    case 1
    show ?thesis
    proof (cases u)
      case Nil
      then show ?thesis using 1 t by auto
    next
      case (Cons c w)
      show ?thesis
      proof (cases w)
        case Nil
        then show ?thesis using 1 Cons tr by (auto simp: trimmed_def USIPY_ISLWS_def)
      next
        case (Cons d z)
        then have "s = x @ CRLF @ z" "y = z @ t" using 1 \<open>u = c # w\<close> by auto
        then show ?thesis using f by auto
      qed
    qed
  next
    case 2
    then show ?thesis using t by auto
  qed
qed

lemma response_headers_plain:
  assumes "message_of s reqp" "plain_value USIPY_HF_SERVER server" "plain_tag (extra_of tagp)"
  shows "\<forall>tv\<in>set (response_headers server reqp tagp). plain_hdr tv"
proof
  fix tv assume tv: "tv \<in> set (response_headers server reqp tagp)"
  have zero: "plain_value USIPY_HF_CONTENTLENGTH ''0''"
    by (simp add: plain_value_def trimmed_def USIPY_ISLWS_def USIPY_ISWS_def folded_def Cons_eq_append_conv)
  show "plain_hdr tv"
  proof (cases "tv \<in> set (usipy_sip_res_init_append_hdrs server)")
    case True
    then show ?thesis using assms(2) zero
      by (auto simp: usipy_sip_res_init_append_hdrs_def plain_hdr_def split: if_splits)
  next
    case False
    then obtain h where h: "tv = res_value tagp h" "h \<in> set (m_hdrs reqp)"
      "hdr_cantype h \<in> {USIPY_HF_FROM, USIPY_HF_CALLID, USIPY_HF_TO, USIPY_HF_CSEQ, USIPY_HF_VIA, USIPY_HF_RECORDROUTE}"
      using tv res_pick_types by (fastforce simp: response_headers_def)
    have p: "plain_value (h_hf_type h) (h_value h)" "hdr_cantype h = h_hf_type h"
      using message_of_plain(1)[OF assms(1)] h(2) by simp_all
    have ty: "1 \<le> h_hf_type h" "h_hf_type h \<le> 32" using h(3) p(2) by auto
    show ?thesis
    proof (cases "hdr_cantype h = USIPY_HF_TO \<and> extra_of tagp \<noteq> []")
      case True
      have "\<not> he_csl_allowed (usipy_hdr_db_byid USIPY_HF_TO)" by (simp add: hdr_table_eval)
      moreover have "folded (h_value h @ '';tag='' @ extra_of tagp)"
        using p(1) assms(3) by (intro folded_tail) (auto simp: plain_value_def plain_tag_def)
      moreover have "trimmed (h_value h @ '';tag='' @ extra_of tagp)"
        using p(1) assms(3) True by (auto simp: plain_value_def plain_tag_def trimmed_def hd_append
            USIPY_ISLWS_def USIPY_ISWS_def)
      ultimately show ?thesis using True ty p(2) by (simp add: plain_hdr_def h(1) res_value_def plain_value_def)
    next
      case False
      then show ?thesis using p ty by (auto simp: plain_hdr_def h(1) res_value_def)
    qed
  qed
qed

text \<open>Reading the text of a response gives the status line and the headers it was built with.\<close>

lemma response_read_back:
  assumes req: "message_of s reqp" "sln_parsed (m_sline reqp) = SL_request rl"
    and st: "100 \<le> unat (st_code slp)" "unat (st_code slp) \<le> 999" "cut_line (st_reason_phrase slp) = None"
    and own: "plain_value USIPY_HF_SERVER server" "plain_tag (extra_of tagp)"
    and len: "length (request_version rl) + 5 \<le> len"
    and b: "usipy_sip_res_build_fromreq_tagged_sz server reqp slp tagp cap len = Some (Some (txt, sl, hdrs))"
  shows "wire_message txt = Some (status_text (sl_version sl) slp, USIPY_SIP_MSG_RES, SL_status sl, hdrs, [])"
proof -
  have v: "ieq (request_version rl) ''SIP/2.0''"
    using message_of_plain(3)[OF req(1)] req(2) request_line_version by simp
  have r: "txt = response_text (request_version rl) server reqp slp tagp"
    "sl = \<lparr>sl_version = request_version rl, sl_status = slp\<rparr>"
    "hdrs = map read_hdr (response_headers server reqp tagp)"
    using b unfolding build_fromreq_eq[OF req(2) len] Let_def by (auto split: if_splits)
  have ne: "response_headers server reqp tagp \<noteq> []" by (simp add: response_headers_def)
  show ?thesis
    using wire_message_written[OF status_text_line[OF v st] sline_of_status_text[OF v st(1,2)] ne
        response_headers_plain[OF req(1) own], of "[]"]
    by (simp add: r response_text_def)
qed

end
