(* ===== verification/Usipy_Msgfacts.thy ===== *)
theory Usipy_Msgfacts
  imports Usipy_Response
begin

unbundle bit_operations_syntax

text \<open>
  What the operations on a message guarantee: parsing its headers on demand keeps the cache of
  parsed headers consistent and never aborts, the matches it returns, the transaction id, and the
  text a message is written as.
\<close>

subsection \<open>Parsing one header\<close>

lemma hdr_parse_total:
  assumes "heap_ok mhp" "length val < 2 ^ 56" "length stk < 2 ^ 56" "f \<noteq> No_parse"
  shows "\<exists>p mhp'. hdr_parse stk f mhp val = Some (p, mhp') \<and> extends mhp mhp'"
  using nameaddr_parse_refines[OF assms(1,2)] auth_parse_refines[OF assms(1,2)]
    via_parse_refines[OF assms(1,2,3)] cseq_parse_refines[OF assms(1), of val] extends_refl[OF assms(1)] assms(4)
  by (cases f) (auto simp: hdr_parse_def)

text \<open>The headers a call is about: those whose type is in the mask, with \<open>toponly\<close> the first of each type.\<close>

definition wanted :: "nat set \<Rightarrow> bool \<Rightarrow> (nat \<Rightarrow> nat) \<Rightarrow> nat \<Rightarrow> bool" where
  "wanted F toponly ty i \<longleftrightarrow> ty i \<in> F \<and> (toponly \<longrightarrow> (\<forall>j<i. ty j \<noteq> ty i))"

text \<open>The type of header \<open>i\<close>; parsing does not change it.\<close>

definition type_at :: "usipy_msg \<Rightarrow> nat \<Rightarrow> nat" where
  "type_at m i = hdr_cantype (m_hdrs m ! i)"

text \<open>Every header whose type is marked as parsed has a parsed form.\<close>

definition parsed_ok :: "usipy_msg \<Rightarrow> bool" where
  "parsed_ok m \<longleftrightarrow>
     (\<forall>i<length (m_hdrs m). type_at m i \<in> mask_of (m_parsed m) \<longrightarrow> h_parsed (m_hdrs m ! i) \<noteq> P_null)"

definition msg_bounds :: "usipy_msg \<Rightarrow> bool" where
  "msg_bounds m \<longleftrightarrow> heap_ok (m_heap m) \<and>
     (\<forall>h\<in>set (m_hdrs m). hdr_cantype h < 64 \<and> length (h_value h) < 2 ^ 56)"

text \<open>The message but for its heap and the parsed forms.\<close>

definition same_message :: "usipy_msg \<Rightarrow> usipy_msg \<Rightarrow> bool" where
  "same_message m m' \<longleftrightarrow>
     length (m_hdrs m') = length (m_hdrs m) \<and>
     (\<forall>i<length (m_hdrs m). m_hdrs m' ! i = (m_hdrs m ! i)\<lparr>h_parsed := h_parsed (m_hdrs m' ! i)\<rparr>) \<and>
     m' = m\<lparr>m_hdrs := m_hdrs m', m_heap := m_heap m', m_parsed := m_parsed m'\<rparr> \<and>
     extends (m_heap m) (m_heap m')"

lemma same_message_type: "same_message m m' \<Longrightarrow> i < length (m_hdrs m) \<Longrightarrow> type_at m' i = type_at m i"
  unfolding same_message_def type_at_def by (metis usipy_sip_hdr.select_convs(5) usipy_sip_hdr.surjective usipy_sip_hdr.update_convs(6))

lemma same_message_parsed: "same_message m m1 \<Longrightarrow> same_message m (m1\<lparr>m_parsed := p\<rparr>)"
proof -
  assume sm: "same_message m m1"
  then have eq: "m1 = m\<lparr>m_hdrs := m_hdrs m1, m_heap := m_heap m1, m_parsed := m_parsed m1\<rparr>"
    unfolding same_message_def by blast
  have "m1\<lparr>m_parsed := p\<rparr> = m\<lparr>m_hdrs := m_hdrs m1, m_heap := m_heap m1, m_parsed := p\<rparr>"
    using arg_cong[OF eq, of "\<lambda>m. m\<lparr>m_parsed := p\<rparr>"] by simp
  then show ?thesis using sm unfolding same_message_def by simp
qed

lemma same_message_update:
  assumes sm: "same_message m m1" and k: "k < length (m_hdrs m)" and e: "extends (m_heap m1) mhp"
  shows "same_message m (m1\<lparr>m_heap := mhp, m_hdrs := (m_hdrs m1)[k := (m_hdrs m1 ! k)\<lparr>h_parsed := p\<rparr>]\<rparr>)"
proof -
  have len: "length (m_hdrs m1) = length (m_hdrs m)"
    and el: "\<And>i. i < length (m_hdrs m) \<Longrightarrow> m_hdrs m1 ! i = (m_hdrs m ! i)\<lparr>h_parsed := h_parsed (m_hdrs m1 ! i)\<rparr>"
    and eq: "m1 = m\<lparr>m_hdrs := m_hdrs m1, m_heap := m_heap m1, m_parsed := m_parsed m1\<rparr>"
    and ext: "extends (m_heap m) (m_heap m1)"
    using sm unfolding same_message_def by blast+
  have "(m_hdrs m1 ! k)\<lparr>h_parsed := p\<rparr> = (m_hdrs m ! k)\<lparr>h_parsed := p\<rparr>"
    using arg_cong[OF el[OF k], of "\<lambda>h. h\<lparr>h_parsed := p\<rparr>"] by simp
  then have "\<forall>i<length (m_hdrs m). (m_hdrs m1)[k := (m_hdrs m1 ! k)\<lparr>h_parsed := p\<rparr>] ! i =
      (m_hdrs m ! i)\<lparr>h_parsed := h_parsed ((m_hdrs m1)[k := (m_hdrs m1 ! k)\<lparr>h_parsed := p\<rparr>] ! i)\<rparr>"
    using el len k by (simp add: nth_list_update)
  moreover have "m1\<lparr>m_heap := mhp, m_hdrs := X\<rparr> = m\<lparr>m_hdrs := X, m_heap := mhp, m_parsed := m_parsed m1\<rparr>" for X
    using arg_cong[OF eq, of "\<lambda>m. m\<lparr>m_heap := mhp, m_hdrs := X\<rparr>"] by simp
  ultimately show ?thesis
    using len extends_trans[OF ext e] unfolding same_message_def by simp
qed

subsection \<open>The loop over the headers\<close>

lemma first_exists:
  assumes "i < (k :: nat)" "ty i = t"
  shows "\<exists>j<k. ty j = t \<and> (\<forall>l<j. ty l \<noteq> t)"
proof -
  obtain j where j: "ty j = t" "\<forall>l<j. ty l \<noteq> t"
    using assms(2) exists_least_iff[of "\<lambda>j. ty j = t"] by blast
  then have "\<not> i < j" using assms(2) by blast
  then show ?thesis using assms(1) j by (intro exI[of _ j]) simp
qed

lemma image_lessThan: "t \<in> ty ` {..<k} \<longleftrightarrow> (\<exists>j<(k :: nat). ty j = t)"
  by auto

lemma seen_first:
  "t \<in> ty ` {i. i < k \<and> wanted M True ty i} \<longleftrightarrow> t \<in> M \<and> t \<in> ty ` {..<(k :: nat)}"
proof
  assume "t \<in> M \<and> t \<in> ty ` {..<k}"
  then obtain i where i: "i < k" "ty i = t" "t \<in> M" by blast
  obtain j where "j < k" "ty j = t" "\<forall>l<j. ty l \<noteq> t" using first_exists[of i k ty t] i(1,2) by blast
  then show "t \<in> ty ` {i. i < k \<and> wanted M True ty i}"
    using i(3) by (intro image_eqI[of _ _ j]) (simp_all add: wanted_def)
qed (auto simp: wanted_def)

text \<open>The matches after \<open>k\<close> headers.\<close>

definition match_inv :: "(nat \<Rightarrow> nat) \<Rightarrow> nat set \<Rightarrow> bool \<Rightarrow> bool \<Rightarrow> nat \<Rightarrow> hdrs_scan \<Rightarrow> bool" where
  "match_inv ty M toponly on k st \<longleftrightarrow>
     hs_matches st = (if on then filter (wanted M toponly ty) [0..<k] else []) \<and>
     mask_of (hs_seenmask st) = (if on then ty ` {i. i < k \<and> wanted M toponly ty i} else {})"

lemma hdrs_match_inv:
  assumes inv: "match_inv ty (mask_of mm) toponly (hdrslen \<noteq> None) k st"
    and ty: "hdr_cantype (m_hdrs (hs_msg st) ! k) = ty k" "ty k < 64"
  shows "case hdrs_match mm toponly hdrslen k st of
      None \<Rightarrow> \<exists>room. hdrslen = Some room \<and> room < length (filter (wanted (mask_of mm) toponly ty) [0..<Suc k])
    | Some st' \<Rightarrow> match_inv ty (mask_of mm) toponly (hdrslen \<noteq> None) (Suc k) st' \<and>
        st' = st\<lparr>hs_matches := hs_matches st', hs_seenmask := hs_seenmask st'\<rparr>"
proof (cases hdrslen)
  case None
  then show ?thesis using inv by (simp add: hdrs_match_def match_inv_def)
next
  case (Some room)
  let ?M = "mask_of mm"
  have "wanted ?M toponly ty k \<longleftrightarrow> ty k \<in> ?M \<and> (\<not> toponly \<or> ty k \<notin> mask_of (hs_seenmask st))"
    using inv Some seen_first[of "ty k" ty k ?M]
    by (cases toponly) (simp_all add: match_inv_def wanted_def[of _ _ _ k] image_lessThan, blast)
  then have w: "USIPY_HF_ISMSET mm (ty k) \<and> (\<not> toponly \<or> \<not> USIPY_HF_ISMSET (hs_seenmask st) (ty k)) \<longleftrightarrow>
      wanted ?M toponly ty k" by (simp add: ismset_iff)
  have img: "ty ` {i. i < Suc k \<and> wanted ?M toponly ty i} =
      ty ` {i. i < k \<and> wanted ?M toponly ty i} \<union> (if wanted ?M toponly ty k then {ty k} else {})"
    by (auto simp: less_Suc_eq)
  have ms: "hs_matches st = filter (wanted ?M toponly ty) [0..<k]"
    using inv Some by (simp add: match_inv_def)
  have m: "hdrs_match mm toponly hdrslen k st =
      (if wanted ?M toponly ty k then
         if length (hs_matches st) \<ge> room then None
         else Some (st\<lparr>hs_matches := hs_matches st @ [k], hs_seenmask := hs_seenmask st OR USIPY_HFT_MASK (ty k)\<rparr>)
       else Some st)"
    unfolding hdrs_match_def Let_def ty(1) Some option.case w by (rule refl)
  show ?thesis
    unfolding m using inv img ms ty(2) Some
    by (cases "wanted ?M toponly ty k"; cases "length (hs_matches st) \<ge> room")
       (simp_all add: match_inv_def mask_simps)
qed

text \<open>What has been parsed after \<open>k\<close> headers: \<open>P\<close> are the types to parse.\<close>

definition parse_inv :: "usipy_msg \<Rightarrow> nat set \<Rightarrow> bool \<Rightarrow> nat \<Rightarrow> hdrs_scan \<Rightarrow> bool" where
  "parse_inv m P toponly k st \<longleftrightarrow>
     same_message m (hs_msg st) \<and> m_parsed (hs_msg st) = m_parsed m \<and>
     (\<forall>i<length (m_hdrs m). \<not> (i < k \<and> wanted P toponly (type_at m) i) \<longrightarrow> m_hdrs (hs_msg st) ! i = m_hdrs m ! i) \<and>
     (\<forall>i<k. wanted P toponly (type_at m) i \<longrightarrow> h_parsed (m_hdrs (hs_msg st) ! i) \<noteq> P_null) \<and>
     mask_of (hs_parsemask st) = (if toponly then P - type_at m ` {..<k} else P) \<and>
     mask_of (hs_topparsed st) =
       (if toponly then {t \<in> P. \<exists>i<k. type_at m i = t \<and> (\<forall>j<k. type_at m j = t \<longrightarrow> j = i)} else {})"

lemma wanted_now:
  assumes "parse_inv m P toponly k st"
  shows "wanted P toponly (type_at m) k \<longleftrightarrow> USIPY_HF_ISMSET (hs_parsemask st) (type_at m k)"
proof -
  have "mask_of (hs_parsemask st) = (if toponly then P - type_at m ` {..<k} else P)"
    using assms by (simp add: parse_inv_def)
  then show ?thesis by (cases toponly) (simp_all add: wanted_def ismset_iff image_lessThan)
qed

text \<open>A header of another type, or one that need not be parsed again.\<close>

lemma parse_inv_skip:
  assumes inv: "parse_inv m P toponly k st" and sk: "\<not> wanted P toponly (type_at m) k"
  shows "parse_inv m P toponly (Suc k)
    (if toponly \<and> USIPY_HF_ISMSET (hs_topparsed st) (type_at m k)
     then st\<lparr>hs_topparsed := hs_topparsed st AND NOT (USIPY_HFT_MASK (type_at m k))\<rparr> else st)"
proof -
  let ?ty = "type_at m" and ?t = "type_at m k"
  have np: "toponly \<Longrightarrow> ?t \<in> P \<Longrightarrow> \<exists>i<k. ?ty i = ?t" using sk by (auto simp: wanted_def)
  have pm: "toponly \<Longrightarrow> P - ?ty ` {..<Suc k} = P - ?ty ` {..<k}"
    using np image_lessThan[of ?t ?ty k] by (auto simp: lessThan_Suc simp del: image_lessThan)
  have top: "{t \<in> P. \<exists>i<Suc k. ?ty i = t \<and> (\<forall>j<Suc k. ?ty j = t \<longrightarrow> j = i)} =
      {t \<in> P. \<exists>i<k. ?ty i = t \<and> (\<forall>j<k. ?ty j = t \<longrightarrow> j = i)} - {?t}" if tonly: toponly
  proof -
    have "(\<exists>i<Suc k. ?ty i = t \<and> (\<forall>j<Suc k. ?ty j = t \<longrightarrow> j = i)) \<longleftrightarrow>
        (\<exists>i<k. ?ty i = t \<and> (\<forall>j<k. ?ty j = t \<longrightarrow> j = i)) \<and> t \<noteq> ?t" if tP: "t \<in> P" for t
    proof (cases "t = ?t")
      case True
      obtain i where i: "i < k" "?ty i = t" using np[OF tonly] tP True by blast
      show ?thesis
      proof -
        have "\<not> (\<exists>l<Suc k. ?ty l = t \<and> (\<forall>j<Suc k. ?ty j = t \<longrightarrow> j = l))"
        proof (intro notI, elim exE conjE)
          fix l assume "\<forall>j<Suc k. ?ty j = t \<longrightarrow> j = l"
          then have "i = l" "k = l" using i True by auto
          then show False using i(1) by simp
        qed
        then show ?thesis using True by blast
      qed
    next
      case False
      then show ?thesis by (auto simp: less_Suc_eq)
    qed
    then show ?thesis by blast
  qed
  have w: "i < Suc k \<and> wanted P toponly ?ty i \<longleftrightarrow> i < k \<and> wanted P toponly ?ty i" for i
    using sk by (auto simp: less_Suc_eq)
  let ?st = "if toponly \<and> USIPY_HF_ISMSET (hs_topparsed st) ?t
     then st\<lparr>hs_topparsed := hs_topparsed st AND NOT (USIPY_HFT_MASK ?t)\<rparr> else st"
  have st: "hs_msg ?st = hs_msg st" "hs_parsemask ?st = hs_parsemask st"
    "mask_of (hs_topparsed ?st) = (if toponly then mask_of (hs_topparsed st) - {?t} else mask_of (hs_topparsed st))"
    by (auto simp: mask_simps)
  have i1: "same_message m (hs_msg st)" "m_parsed (hs_msg st) = m_parsed m"
    "\<forall>i<length (m_hdrs m). \<not> (i < k \<and> wanted P toponly ?ty i) \<longrightarrow> m_hdrs (hs_msg st) ! i = m_hdrs m ! i"
    "\<forall>i<k. wanted P toponly ?ty i \<longrightarrow> h_parsed (m_hdrs (hs_msg st) ! i) \<noteq> P_null"
    "mask_of (hs_parsemask st) = (if toponly then P - ?ty ` {..<k} else P)"
    "mask_of (hs_topparsed st) =
       (if toponly then {t \<in> P. \<exists>i<k. ?ty i = t \<and> (\<forall>j<k. ?ty j = t \<longrightarrow> j = i)} else {})"
    using inv unfolding parse_inv_def by blast+
  have "mask_of (hs_parsemask ?st) = (if toponly then P - ?ty ` {..<Suc k} else P)"
    unfolding st i1(5) using pm by simp
  moreover have "mask_of (hs_topparsed ?st) =
       (if toponly then {t \<in> P. \<exists>i<Suc k. ?ty i = t \<and> (\<forall>j<Suc k. ?ty j = t \<longrightarrow> j = i)} else {})"
    unfolding st i1(6) using top by (cases toponly) simp_all
  moreover have "\<forall>i<length (m_hdrs m). \<not> (i < Suc k \<and> wanted P toponly ?ty i) \<longrightarrow>
      m_hdrs (hs_msg ?st) ! i = m_hdrs m ! i"
    unfolding st w by (rule i1(3))
  moreover have "\<forall>i<Suc k. wanted P toponly ?ty i \<longrightarrow> h_parsed (m_hdrs (hs_msg ?st) ! i) \<noteq> P_null"
    unfolding st using i1(4) w by blast
  ultimately show ?thesis using i1(1,2) unfolding parse_inv_def st by blast
qed

text \<open>A header that is parsed.\<close>

lemma parse_inv_parse:
  assumes inv: "parse_inv m P toponly k st" and w: "wanted P toponly (type_at m) k"
    and k: "k < length (m_hdrs m)" "type_at m k < 64"
    and p: "p \<noteq> P_null" and e: "extends (m_heap (hs_msg st)) mhp"
  defines "msg' \<equiv> (hs_msg st)\<lparr>m_heap := mhp,
     m_hdrs := (m_hdrs (hs_msg st))[k := (m_hdrs (hs_msg st) ! k)\<lparr>h_parsed := p\<rparr>]\<rparr>"
  shows "parse_inv m P toponly (Suc k)
    (if toponly then st\<lparr>hs_msg := msg', hs_parsemask := hs_parsemask st AND NOT (USIPY_HFT_MASK (type_at m k)),
         hs_topparsed := hs_topparsed st OR USIPY_HFT_MASK (type_at m k)\<rparr>
     else st\<lparr>hs_msg := msg'\<rparr>)"
proof -
  let ?ty = "type_at m" and ?t = "type_at m k"
  let ?st = "if toponly then st\<lparr>hs_msg := msg', hs_parsemask := hs_parsemask st AND NOT (USIPY_HFT_MASK ?t),
         hs_topparsed := hs_topparsed st OR USIPY_HFT_MASK ?t\<rparr> else st\<lparr>hs_msg := msg'\<rparr>"
  have i1: "same_message m (hs_msg st)" "m_parsed (hs_msg st) = m_parsed m"
    "\<forall>i<length (m_hdrs m). \<not> (i < k \<and> wanted P toponly ?ty i) \<longrightarrow> m_hdrs (hs_msg st) ! i = m_hdrs m ! i"
    "\<forall>i<k. wanted P toponly ?ty i \<longrightarrow> h_parsed (m_hdrs (hs_msg st) ! i) \<noteq> P_null"
    "mask_of (hs_parsemask st) = (if toponly then P - ?ty ` {..<k} else P)"
    "mask_of (hs_topparsed st) =
       (if toponly then {t \<in> P. \<exists>i<k. ?ty i = t \<and> (\<forall>j<k. ?ty j = t \<longrightarrow> j = i)} else {})"
    using inv unfolding parse_inv_def by blast+
  have tP: "?t \<in> P" and fst: "toponly \<Longrightarrow> \<forall>j<k. ?ty j \<noteq> ?t" using w by (simp_all add: wanted_def)
  have len: "length (m_hdrs (hs_msg st)) = length (m_hdrs m)" using i1(1) by (simp add: same_message_def)
  have st: "hs_msg ?st = msg'"
    "mask_of (hs_parsemask ?st) = (if toponly then mask_of (hs_parsemask st) - {?t} else mask_of (hs_parsemask st))"
    "mask_of (hs_topparsed ?st) = (if toponly then insert ?t (mask_of (hs_topparsed st)) else mask_of (hs_topparsed st))"
    using k(2) by (simp_all add: mask_simps)
  have nth: "m_hdrs msg' ! i = (if i = k then (m_hdrs (hs_msg st) ! k)\<lparr>h_parsed := p\<rparr> else m_hdrs (hs_msg st) ! i)" for i
    using k(1) len by (simp add: msg'_def nth_list_update)
  have sm: "same_message m msg'" unfolding msg'_def by (rule same_message_update[OF i1(1) k(1) e])
  have "mask_of (hs_parsemask ?st) = (if toponly then P - ?ty ` {..<Suc k} else P)"
    unfolding st i1(5) by (auto simp: lessThan_Suc)
  moreover have "mask_of (hs_topparsed ?st) =
       (if toponly then {t \<in> P. \<exists>i<Suc k. ?ty i = t \<and> (\<forall>j<Suc k. ?ty j = t \<longrightarrow> j = i)} else {})"
  proof (cases toponly)
    case True
    have "(\<exists>i<Suc k. ?ty i = t \<and> (\<forall>j<Suc k. ?ty j = t \<longrightarrow> j = i)) \<longleftrightarrow>
        t = ?t \<or> (\<exists>i<k. ?ty i = t \<and> (\<forall>j<k. ?ty j = t \<longrightarrow> j = i))" for t
    proof (cases "t = ?t")
      case False
      then show ?thesis by (auto simp: less_Suc_eq)
    next
      case eq: True
      then show ?thesis using fst[OF True] by (auto simp: less_Suc_eq)
    qed
    then show ?thesis unfolding st i1(6) using True tP by auto
  qed (simp add: st(3) i1(6))
  moreover have "\<forall>i<length (m_hdrs m). \<not> (i < Suc k \<and> wanted P toponly ?ty i) \<longrightarrow>
      m_hdrs (hs_msg ?st) ! i = m_hdrs m ! i"
    unfolding st nth using i1(3) w by (auto simp: less_Suc_eq)
  moreover have "\<forall>i<Suc k. wanted P toponly ?ty i \<longrightarrow> h_parsed (m_hdrs (hs_msg ?st) ! i) \<noteq> P_null"
    unfolding st nth using i1(4) p by (auto simp: less_Suc_eq)
  moreover have "m_parsed msg' = m_parsed m" using i1(2) by (simp add: msg'_def)
  ultimately show ?thesis using sm unfolding parse_inv_def st by blast
qed

text \<open>A call that fails leaves the headers of other types alone.\<close>

definition scan_failed :: "usipy_msg \<Rightarrow> nat set \<Rightarrow> usipy_msg \<Rightarrow> bool" where
  "scan_failed m P m' \<longleftrightarrow> same_message m m' \<and> m_parsed m' = m_parsed m \<and>
     (\<forall>i<length (m_hdrs m). type_at m i \<notin> P \<longrightarrow> m_hdrs m' ! i = m_hdrs m ! i)"

lemma parse_inv_failed: "parse_inv m P toponly k st \<Longrightarrow> scan_failed m P (hs_msg st)"
  by (auto simp: parse_inv_def scan_failed_def wanted_def)

lemma inv_frame:
  "parse_inv m P toponly k (st\<lparr>hs_matches := ms, hs_seenmask := sm\<rparr>) = parse_inv m P toponly k st"
  "match_inv ty M toponly on k (st\<lparr>hs_msg := mp, hs_parsemask := pm, hs_topparsed := tp\<rparr>) = match_inv ty M toponly on k st"
  "match_inv ty M toponly on k (st\<lparr>hs_topparsed := tp\<rparr>) = match_inv ty M toponly on k st"
  "match_inv ty M toponly on k (st\<lparr>hs_msg := mp\<rparr>) = match_inv ty M toponly on k st"
  by (simp_all add: parse_inv_def match_inv_def)

fun round_post :: "usipy_msg \<Rightarrow> nat set \<Rightarrow> nat set \<Rightarrow> bool \<Rightarrow> bool \<Rightarrow> nat \<Rightarrow> bool \<times> hdrs_scan \<Rightarrow> bool" where
  "round_post m P M toponly on k (ok, st) \<longleftrightarrow>
     (if ok then parse_inv m P toponly k st \<and> match_inv (type_at m) M toponly on k st
      else scan_failed m P (hs_msg st))"

lemma hdrs_round_spec:
  assumes b: "msg_bounds m" "length stk < 2 ^ 56" and k: "k < length (m_hdrs m)"
    and pinv: "parse_inv m P toponly k st"
    and minv: "match_inv (type_at m) (mask_of mm) toponly (hdrslen \<noteq> None) k st"
  shows "\<exists>r. hdrs_round stk mm toponly hdrslen k st = Some r \<and>
    round_post m P (mask_of mm) toponly (hdrslen \<noteq> None) (Suc k) r"
proof -
  have sm: "same_message m (hs_msg st)" using pinv by (simp add: parse_inv_def)
  have ty: "hdr_cantype (m_hdrs (hs_msg st) ! k) = type_at m k"
    using same_message_type[OF sm k] by (simp add: type_at_def)
  have t64: "type_at m k < 64" using b(1) k by (simp add: msg_bounds_def type_at_def)
  note mm = hdrs_match_inv[OF minv ty t64]
  show ?thesis
  proof (cases "hdrs_match mm toponly hdrslen k st")
    case None
    then have "hdrs_round stk mm toponly hdrslen k st = Some (False, st)" by (simp add: hdrs_round_def)
    then show ?thesis using parse_inv_failed[OF pinv] by simp
  next
    case (Some st1)
    then have m1: "match_inv (type_at m) (mask_of mm) toponly (hdrslen \<noteq> None) (Suc k) st1"
      and e1: "st1 = st\<lparr>hs_matches := hs_matches st1, hs_seenmask := hs_seenmask st1\<rparr>"
      using mm by simp_all
    have p1: "parse_inv m P toponly k st1" by (subst e1) (simp only: inv_frame pinv)
    have msg1: "hs_msg st1 = hs_msg st" by (subst e1) simp
    let ?h = "m_hdrs (hs_msg st1) ! k" and ?t = "type_at m k"
    have ty1: "hdr_cantype ?h = ?t" using ty msg1 by simp
    note w = wanted_now[OF p1]
    show ?thesis
    proof (cases "wanted P toponly (type_at m) k")
      case False
      let ?st = "if toponly \<and> USIPY_HF_ISMSET (hs_topparsed st1) ?t
         then st1\<lparr>hs_topparsed := hs_topparsed st1 AND NOT (USIPY_HFT_MASK ?t)\<rparr> else st1"
      have "hdrs_round stk mm toponly hdrslen k st = Some (True, ?st)"
        using Some False w ty1 by (simp add: hdrs_round_def Let_def)
      moreover have "match_inv (type_at m) (mask_of mm) toponly (hdrslen \<noteq> None) (Suc k) ?st"
        using m1 by (cases toponly) (simp_all add: inv_frame)
      ultimately show ?thesis using parse_inv_skip[OF p1 False] by (intro exI[of _ "(True, ?st)"]) simp
    next
      case True
      let ?f = "he_parse (usipy_hdr_db_byid (h_hf_type ?h))"
      show ?thesis
      proof (cases "?f = No_parse")
        case np: True
        then have "hdrs_round stk mm toponly hdrslen k st = Some (False, st1)"
          using Some True w ty1 by (simp add: hdrs_round_def Let_def)
        then show ?thesis using parse_inv_failed[OF p1] by simp
      next
        case False
        have ok: "heap_ok (m_heap (hs_msg st1))"
          using sm extends_okD by (auto simp: same_message_def msg1)
        have "m_hdrs (hs_msg st) ! k = (m_hdrs m ! k)\<lparr>h_parsed := h_parsed (m_hdrs (hs_msg st) ! k)\<rparr>"
          using sm k unfolding same_message_def by blast
        then have "h_value ?h = h_value (m_hdrs m ! k)" unfolding msg1 by (metis usipy_sip_hdr.select_convs(3) usipy_sip_hdr.surjective usipy_sip_hdr.update_convs(6))
        then have "length (h_value ?h) < 2 ^ 56" using b(1) k by (simp add: msg_bounds_def)
        then obtain q mhp where q: "hdr_parse stk ?f (m_heap (hs_msg st1)) (h_value ?h) = Some (q, mhp)"
          "extends (m_heap (hs_msg st1)) mhp"
          using hdr_parse_total[OF ok _ b(2) False] by blast
        let ?msg = "(hs_msg st1)\<lparr>m_heap := mhp, m_hdrs := (m_hdrs (hs_msg st1))[k := ?h\<lparr>h_parsed := q\<rparr>]\<rparr>"
        show ?thesis
        proof (cases "q = P_null")
          case null: True
          have "hdrs_round stk mm toponly hdrslen k st = Some (False, st1\<lparr>hs_msg := ?msg\<rparr>)"
            using Some True w ty1 False q null by (simp add: hdrs_round_def Let_def)
          moreover have "scan_failed m P ?msg"
          proof -
            have f: "scan_failed m P (hs_msg st1)" by (rule parse_inv_failed[OF p1])
            then have "same_message m (hs_msg st1)" by (simp add: scan_failed_def)
            then have "same_message m ?msg" using k q(2) by (rule same_message_update)
            moreover have "type_at m k \<in> P" using True by (simp add: wanted_def)
            then have "\<forall>i. type_at m i \<notin> P \<longrightarrow> m_hdrs ?msg ! i = m_hdrs (hs_msg st1) ! i"
              by (auto intro!: nth_list_update_neq)
            ultimately show ?thesis using f by (simp add: scan_failed_def)
          qed
          ultimately show ?thesis by simp
        next
          case nn: False
          let ?st = "if toponly then st1\<lparr>hs_msg := ?msg,
               hs_parsemask := hs_parsemask st1 AND NOT (USIPY_HFT_MASK ?t),
               hs_topparsed := hs_topparsed st1 OR USIPY_HFT_MASK ?t\<rparr> else st1\<lparr>hs_msg := ?msg\<rparr>"
          have "hdrs_round stk mm toponly hdrslen k st = Some (True, ?st)"
            using Some True w ty1 False q nn by (simp add: hdrs_round_def Let_def)
          moreover have "parse_inv m P toponly (Suc k) ?st"
            by (rule parse_inv_parse[OF p1 True k t64 nn q(2)])
          moreover have "match_inv (type_at m) (mask_of mm) toponly (hdrslen \<noteq> None) (Suc k) ?st"
            using m1 by (cases toponly) (simp_all add: match_inv_def)
          ultimately show ?thesis by (intro exI[of _ "(True, ?st)"]) simp
        qed
      qed
    qed
  qed
qed

lemma hdrs_loop_spec:
  assumes b: "msg_bounds m" "length stk < 2 ^ 56"
  shows "k \<le> length (m_hdrs m) \<Longrightarrow> parse_inv m P toponly k st \<Longrightarrow>
    match_inv (type_at m) (mask_of mm) toponly (hdrslen \<noteq> None) k st \<Longrightarrow>
    \<exists>r. hdrs_loop stk mm toponly hdrslen [k..<length (m_hdrs m)] st = Some r \<and>
      round_post m P (mask_of mm) toponly (hdrslen \<noteq> None) (length (m_hdrs m)) r"
proof (induction "length (m_hdrs m) - k" arbitrary: k st)
  case 0
  then show ?case by (intro exI[of _ "(True, st)"]) simp
next
  case (Suc n)
  then have k: "k < length (m_hdrs m)" by simp
  obtain ok st' where r: "hdrs_round stk mm toponly hdrslen k st = Some (ok, st')"
    "round_post m P (mask_of mm) toponly (hdrslen \<noteq> None) (Suc k) (ok, st')"
    using hdrs_round_spec[OF b k Suc(4,5)] by auto
  have up: "[k..<length (m_hdrs m)] = k # [Suc k..<length (m_hdrs m)]" by (rule upt_conv_Cons[OF k])
  show ?case
  proof (cases ok)
    case True
    then show ?thesis using r Suc(1)[of "Suc k" st'] Suc(2) k unfolding up by simp
  next
    case False
    then show ?thesis using r unfolding up by (intro exI[of _ "(False, st')"]) simp
  qed
qed

subsection \<open>The calls\<close>

fun parse_post ::
  "usipy_msg \<Rightarrow> nat set \<Rightarrow> bool \<Rightarrow> bool \<Rightarrow> nat list option \<times> usipy_msg \<Rightarrow> bool" where
  "parse_post m F toponly on (r, m') \<longleftrightarrow>
     same_message m m' \<and> parsed_ok m' \<and>
     (\<forall>i<length (m_hdrs m). type_at m i \<in> mask_of (m_parsed m) \<longrightarrow> m_hdrs m' ! i = m_hdrs m ! i) \<and>
     (case r of
        None \<Rightarrow> m_parsed m' = m_parsed m
      | Some ms \<Rightarrow>
          F \<subseteq> mask_of (m_present m) \<and>
          ms = (if on then filter (wanted F toponly (type_at m)) [0..<length (m_hdrs m)] else []) \<and>
          mask_of (m_parsed m) \<subseteq> mask_of (m_parsed m') \<and> (\<not> toponly \<longrightarrow> F \<subseteq> mask_of (m_parsed m')) \<and>
          (\<forall>i<length (m_hdrs m). wanted F toponly (type_at m) i \<longrightarrow> h_parsed (m_hdrs m' ! i) \<noteq> P_null))"

lemma same_message_refl: "heap_ok (m_heap m) \<Longrightarrow> same_message m m"
  by (simp add: same_message_def extends_refl)

lemma parsed_ok_cong:
  assumes "same_message m m'" "\<forall>i<length (m_hdrs m). type_at m i \<in> mask_of (m_parsed m') \<longrightarrow> h_parsed (m_hdrs m' ! i) \<noteq> P_null"
  shows "parsed_ok m'"
  using assms same_message_type[OF assms(1)] by (auto simp: parsed_ok_def same_message_def)

lemma parse_hdrs_impl_spec:
  assumes b: "msg_bounds m" "length stk < 2 ^ 56" and ok: "parsed_ok m"
  shows "\<exists>r. usipy_sip_msg_parse_hdrs_impl stk m pm toponly hdrslen = Some r \<and>
    parse_post m (mask_of pm) toponly (hdrslen \<noteq> None) r"
proof -
  let ?n = "length (m_hdrs m)" and ?ty = "type_at m" and ?F = "mask_of pm"
  let ?P = "?F - mask_of (m_parsed m)"
  have hok: "heap_ok (m_heap m)" using b(1) by (simp add: msg_bounds_def)
  have pres: "m_present m AND pm \<noteq> pm \<longleftrightarrow> \<not> ?F \<subseteq> mask_of (m_present m)"
    by (auto simp: mask_of_def bit_eq_iff bit_and_iff dest: bit_bound)
  show ?thesis
  proof (cases "m_present m AND pm \<noteq> pm")
    case True
    then show ?thesis using ok same_message_refl[OF hok]
      by (simp add: usipy_sip_msg_parse_hdrs_impl_def)
  next
    case False
    let ?st = "\<lparr>hs_msg = m, hs_parsemask = pm AND NOT (m_parsed m), hs_seenmask = 0,
           hs_topparsed = 0, hs_matches = []\<rparr>"
    have m0: "mask_of 0 = {}" by (simp add: mask_of_zero)
    have P: "mask_of (pm AND NOT (m_parsed m)) = ?P"
      by (auto simp: mask_of_def bit_and_iff bit_not_iff dest: bit_bound)
    have p0: "parse_inv m ?P toponly 0 ?st"
      using same_message_refl[OF hok] by (simp add: parse_inv_def P m0)
    have q0: "match_inv ?ty ?F toponly (hdrslen \<noteq> None) 0 ?st" by (simp add: match_inv_def m0)
    obtain okb st where r: "hdrs_loop stk pm toponly hdrslen [0..<?n] ?st = Some (okb, st)"
      "round_post m ?P ?F toponly (hdrslen \<noteq> None) ?n (okb, st)"
      using hdrs_loop_spec[OF b _ p0 q0] by auto
    show ?thesis
    proof (cases okb)
      case False
      then have f: "scan_failed m ?P (hs_msg st)" using r(2) by simp
      have "usipy_sip_msg_parse_hdrs_impl stk m pm toponly hdrslen = Some (None, hs_msg st)"
        using r(1) False \<open>\<not> m_present m AND pm \<noteq> pm\<close>
        by (simp add: usipy_sip_msg_parse_hdrs_impl_def Let_def)
      moreover have "parsed_ok (hs_msg st)"
        using f ok by (intro parsed_ok_cong[of m]) (auto simp: scan_failed_def parsed_ok_def)
      ultimately show ?thesis using f by (auto simp: scan_failed_def)
    next
      case True
      then have p: "parse_inv m ?P toponly ?n st" and q: "match_inv ?ty ?F toponly (hdrslen \<noteq> None) ?n st"
        using r(2) by simp_all
      let ?add = "if toponly then hs_topparsed st else hs_parsemask st"
      let ?m' = "(hs_msg st)\<lparr>m_parsed := m_parsed (hs_msg st) OR ?add\<rparr>"
      have i: "same_message m (hs_msg st)" "m_parsed (hs_msg st) = m_parsed m"
        "\<forall>i<?n. \<not> (i < ?n \<and> wanted ?P toponly ?ty i) \<longrightarrow> m_hdrs (hs_msg st) ! i = m_hdrs m ! i"
        "\<forall>i<?n. wanted ?P toponly ?ty i \<longrightarrow> h_parsed (m_hdrs (hs_msg st) ! i) \<noteq> P_null"
        using p unfolding parse_inv_def by blast+
      have add: "mask_of ?add = (if toponly then
          {t \<in> ?P. \<exists>i<?n. ?ty i = t \<and> (\<forall>j<?n. ?ty j = t \<longrightarrow> j = i)} else ?P)"
        using p unfolding parse_inv_def by simp
      have pd: "mask_of (m_parsed ?m') = mask_of (m_parsed m) \<union> mask_of ?add"
        by (simp add: mask_of_or i(2))
      have call: "usipy_sip_msg_parse_hdrs_impl stk m pm toponly hdrslen = Some (Some (hs_matches st), ?m')"
        using r(1) True \<open>\<not> m_present m AND pm \<noteq> pm\<close>
        by (simp add: usipy_sip_msg_parse_hdrs_impl_def Let_def)
      have sm: "same_message m ?m'" by (rule same_message_parsed[OF i(1)])
      have keep: "\<forall>i<?n. ?ty i \<in> mask_of (m_parsed m) \<longrightarrow> m_hdrs ?m' ! i = m_hdrs m ! i"
        using i(3) by (simp add: wanted_def)
      have parsed: "\<forall>i<?n. wanted ?F toponly ?ty i \<longrightarrow> h_parsed (m_hdrs ?m' ! i) \<noteq> P_null"
      proof (intro allI impI)
        fix j assume j: "j < ?n" "wanted ?F toponly ?ty j"
        show "h_parsed (m_hdrs ?m' ! j) \<noteq> P_null"
        proof (cases "?ty j \<in> mask_of (m_parsed m)")
          case True
          then show ?thesis using keep ok j(1) by (simp add: parsed_ok_def)
        next
          case False
          then show ?thesis using i(4) j by (simp add: wanted_def)
        qed
      qed
      have "parsed_ok ?m'"
      proof (rule parsed_ok_cong[OF sm], intro allI impI)
        fix j assume j: "j < ?n" "?ty j \<in> mask_of (m_parsed ?m')"
        show "h_parsed (m_hdrs ?m' ! j) \<noteq> P_null"
        proof (cases "?ty j \<in> mask_of (m_parsed m)")
          case True
          then show ?thesis using keep ok j(1) by (simp add: parsed_ok_def)
        next
          case False
          then have "?ty j \<in> mask_of ?add" using j(2) pd by blast
          then have "wanted ?F toponly ?ty j" using j(1) unfolding add wanted_def
            by (auto split: if_splits) (metis less_irrefl less_trans)
          then show ?thesis using parsed j(1) by blast
        qed
      qed
      moreover have "hs_matches st = (if hdrslen \<noteq> None then filter (wanted ?F toponly ?ty) [0..<?n] else [])"
        using q by (simp add: match_inv_def)
      moreover have "?F \<subseteq> mask_of (m_present m)" using False pres by blast
      moreover have "\<not> toponly \<longrightarrow> ?F \<subseteq> mask_of (m_parsed ?m')" using pd add by auto
      ultimately have "parse_post m ?F toponly (hdrslen \<noteq> None) (Some (hs_matches st), ?m')"
        using sm keep parsed pd by simp
      then show ?thesis using call by blast
    qed
  qed
qed

end
