(* ===== verification/Usipy_Msgtext.thy ===== *)
theory Usipy_Msgtext
  imports Usipy_Msgfacts
begin

unbundle bit_operations_syntax

text \<open>
  The transaction id of a message, and the text a message is written as.
\<close>

subsection \<open>The transaction id\<close>

text \<open>Where a field of the id comes from: the first header of its type.\<close>

definition first_hdr :: "nat \<Rightarrow> usipy_sip_hdr list \<Rightarrow> usipy_sip_hdr option" where
  "first_hdr t hs = find (\<lambda>h. hdr_cantype h = t) hs"

fun tid_field :: "nat \<Rightarrow> usipy_sip_hdr \<Rightarrow> usipy_sip_tid \<Rightarrow> bool" where
  "tid_field t h tp \<longleftrightarrow>
     (if t = USIPY_HF_CSEQ then h_parsed h = P_cseq (tid_cseq tp)
      else if t = USIPY_HF_CALLID then h_parsed h = P_generic (tid_call_id tp)
      else if t = USIPY_HF_VIA then
        \<exists>v. h_parsed h = P_via v \<and> tid_param ''branch'' (via_params v) = Some (tid_vbranch tp)
      else \<exists>n. h_parsed h = P_nameaddr n \<and> tid_param ''tag'' (na_params n) = Some (tid_from_tag tp))"

declare tid_field.simps [simp del]

abbreviation tid_types :: "nat set" where
  "tid_types \<equiv> {USIPY_HF_CSEQ, USIPY_HF_CALLID, USIPY_HF_VIA, USIPY_HF_FROM}"

text \<open>The header of type \<open>t\<close> sets its field and no other.\<close>

lemma tid_hdr_spec:
  assumes "tid_hdr h tp = Some (Some tp')"
  shows "hdr_cantype h \<in> tid_types" "tid_field (hdr_cantype h) h tp'"
    "\<And>t g. t \<in> tid_types \<Longrightarrow> t \<noteq> hdr_cantype h \<Longrightarrow> tid_field t g tp' = tid_field t g tp"
  using assms
  by (auto simp: tid_hdr_def tid_field.simps split: usipy_sip_hdr_parsed.splits if_splits)

lemma tid_loop_spec:
  "tid_loop hs seen tp = Some (Some (seen', tp')) \<Longrightarrow> \<forall>h\<in>set hs. hdr_cantype h < 64 \<Longrightarrow>
   mask_of seen' = mask_of seen \<union> hdr_cantype ` set hs \<and>
   (\<forall>t\<in>tid_types. if t \<in> mask_of seen then \<forall>g. tid_field t g tp' = tid_field t g tp
     else \<forall>h. first_hdr t hs = Some h \<longrightarrow> tid_field t h tp')"
proof (induction hs arbitrary: seen tp)
  case (Cons h hs)
  let ?ct = "hdr_cantype h"
  show ?case
  proof (cases "USIPY_HF_ISMSET seen ?ct")
    case True
    then have "tid_loop hs seen tp = Some (Some (seen', tp'))" using Cons(2) by simp
    note IH = Cons(1)[OF this]
    show ?thesis
      using IH Cons(3) True by (auto simp: ismset_iff first_hdr_def)
  next
    case False
    then obtain tp1 where h: "tid_hdr h tp = Some (Some tp1)"
      "tid_loop hs (seen OR USIPY_HFT_MASK ?ct) tp1 = Some (Some (seen', tp'))"
      using Cons(2) by (auto simp: bind_eq_Some_conv split: option.splits)
    note IH = Cons(1)[OF h(2)]
    note s = tid_hdr_spec[OF h(1)]
    have m: "mask_of (seen OR USIPY_HFT_MASK ?ct) = insert ?ct (mask_of seen)"
      using Cons(3) by (simp add: mask_simps)
    have c: "mask_of seen' = mask_of seen \<union> hdr_cantype ` set (h # hs)"
      using IH Cons(3) m by auto
    moreover have "if t \<in> mask_of seen then \<forall>g. tid_field t g tp' = tid_field t g tp
        else \<forall>k. first_hdr t (h # hs) = Some k \<longrightarrow> tid_field t k tp'" if t: "t \<in> tid_types" for t
    proof (cases "t = ?ct")
      case True
      have "\<forall>g. tid_field t g tp' = tid_field t g tp1" using IH Cons(3) m t True by auto
      then show ?thesis using s(2) True False by (auto simp: first_hdr_def ismset_iff)
    next
      case ne: False
      have "\<And>g. tid_field t g tp1 = tid_field t g tp" using s(3)[OF t ne] .
      moreover have "if t \<in> mask_of seen then \<forall>g. tid_field t g tp' = tid_field t g tp1
          else \<forall>h. first_hdr t hs = Some h \<longrightarrow> tid_field t h tp'"
        using IH Cons(3) m t ne by (auto split: if_splits)
      ultimately show ?thesis using ne by (auto simp: first_hdr_def split: if_splits)
    qed
    ultimately show ?thesis by blast
  qed
qed (simp add: first_hdr_def)

text \<open>The result does not depend on what the structure held before.\<close>

lemma tid_hdr_free:
  "tid_hdr h tp = Some (Some tp1) \<Longrightarrow> \<exists>tp2. tid_hdr h tp' = Some (Some tp2)"
  by (auto simp: tid_hdr_def split: usipy_sip_hdr_parsed.splits if_splits)

lemma tid_loop_free:
  "tid_loop hs seen tp = Some (Some (seen', tp1)) \<Longrightarrow> \<exists>tp2. tid_loop hs seen tp' = Some (Some (seen', tp2))"
proof (induction hs arbitrary: seen tp tp')
  case (Cons h hs)
  show ?case
  proof (cases "USIPY_HF_ISMSET seen (hdr_cantype h)")
    case False
    then obtain a where a: "tid_hdr h tp = Some (Some a)"
      "tid_loop hs (seen OR USIPY_HFT_MASK (hdr_cantype h)) a = Some (Some (seen', tp1))"
      using Cons(2) by (auto simp: bind_eq_Some_conv split: option.splits)
    obtain b where "tid_hdr h tp' = Some (Some b)" using tid_hdr_free[OF a(1)] by blast
    then show ?thesis using Cons(1)[OF a(2), of b] False by simp
  qed (use Cons in auto)
qed simp

lemma mask_tid: "mask_of USIPY_HF_TID_MASK = tid_types"
  by (auto simp: USIPY_HF_TID_MASK_def mask_simps)

lemma tid_mask_full: "NOT s = (0 :: 64 word) \<longleftrightarrow> mask_of s = {t. t < 64}"
  by (auto simp: mask_of_def bit_eq_iff bit_not_iff dest: bit_bound)

lemma tid_hash_frame: "usipy_sip_tid_hash (tp\<lparr>tid_hash := x\<rparr>) = usipy_sip_tid_hash tp"
  by (simp add: usipy_sip_tid_hash_def Let_def)

lemma get_tid_spec:
  assumes g: "usipy_sip_msg_get_tid stk m tp = Some (Some tid, m')"
    and b: "\<forall>h\<in>set (m_hdrs m'). hdr_cantype h < 64"
  shows "\<forall>t\<in>tid_types. \<exists>h. first_hdr t (m_hdrs m') = Some h \<and> tid_field t h tid"
    "tid_hash tid = usipy_sip_tid_hash tid"
proof -
  obtain seen tp1 where l: "tid_loop (m_hdrs m') (NOT USIPY_HF_TID_MASK) tp = Some (Some (seen, tp1))"
    "NOT seen = 0" "tid = tp1\<lparr>tid_hash := usipy_sip_tid_hash tp1\<rparr>"
    using g by (auto simp: usipy_sip_msg_get_tid_def bind_eq_Some_conv split: if_splits option.splits)
  have n: "mask_of (NOT USIPY_HF_TID_MASK) = {t. t < 64} - tid_types"
    using mask_tid by (auto simp: mask_of_def bit_not_iff dest: bit_bound)
  note s = tid_loop_spec[OF l(1) b]
  have f: "tid_field t h tid = tid_field t h tp1" for t h by (simp add: tid_field.simps l(3))
  show "\<forall>t\<in>tid_types. \<exists>h. first_hdr t (m_hdrs m') = Some h \<and> tid_field t h tid"
  proof
    fix t assume t: "t \<in> tid_types"
    have "t < 64" using t by auto
    then have "t \<in> mask_of seen" using l(2) by (simp only: tid_mask_full mem_Collect_eq)
    moreover have "t \<notin> mask_of (NOT USIPY_HF_TID_MASK)" using t unfolding n by blast
    ultimately have "t \<in> hdr_cantype ` set (m_hdrs m')" using s[THEN conjunct1] by blast
    then have "first_hdr t (m_hdrs m') \<noteq> None" by (auto simp: first_hdr_def find_None_iff)
    then obtain h where "first_hdr t (m_hdrs m') = Some h" by blast
    then show "\<exists>h. first_hdr t (m_hdrs m') = Some h \<and> tid_field t h tid"
      using s[THEN conjunct2] t \<open>t \<notin> mask_of (NOT USIPY_HF_TID_MASK)\<close> unfolding f by metis
  qed
  have "usipy_sip_tid_hash tid = usipy_sip_tid_hash tp1"
    by (simp add: l(3) tid_hash_frame)
  then show "tid_hash tid = usipy_sip_tid_hash tid" by (simp add: l(3))
qed

lemma tid_field_unique:
  assumes "\<forall>t\<in>tid_types. \<exists>h. first_hdr t hs = Some h \<and> tid_field t h a"
    "\<forall>t\<in>tid_types. \<exists>h. first_hdr t hs = Some h \<and> tid_field t h b"
    "tid_hash a = usipy_sip_tid_hash a" "tid_hash b = usipy_sip_tid_hash b"
  shows "a = b"
proof -
  have f: "\<exists>h. tid_field t h a \<and> tid_field t h b" if "t \<in> tid_types" for t
    using assms(1,2) that by (metis option.inject)
  have e: "tid_cseq a = tid_cseq b" "tid_call_id a = tid_call_id b"
    "tid_vbranch a = tid_vbranch b" "tid_from_tag a = tid_from_tag b"
    using f[of USIPY_HF_CSEQ] f[of USIPY_HF_CALLID] f[of USIPY_HF_VIA] f[of USIPY_HF_FROM]
    by (auto simp: tid_field.simps)
  then have "usipy_sip_tid_hash a = usipy_sip_tid_hash b" by (simp add: usipy_sip_tid_hash_def Let_def)
  then have "tid_hash a = tid_hash b" using assms(3,4) by simp
  then show ?thesis using e by (cases a; cases b) simp
qed

lemma get_tid_free:
  assumes g: "usipy_sip_msg_get_tid stk m tp = Some (Some tid, m')"
    and b: "\<forall>h\<in>set (m_hdrs m'). hdr_cantype h < 64"
  shows "usipy_sip_msg_get_tid stk m tp' = Some (Some tid, m')"
proof -
  obtain seen tp1 where l: "usipy_sip_msg_parse_hdrs stk m USIPY_HF_TID_MASK True = Some (True, m')"
    "tid_loop (m_hdrs m') (NOT USIPY_HF_TID_MASK) tp = Some (Some (seen, tp1))" "NOT seen = 0"
    using g by (auto simp: usipy_sip_msg_get_tid_def bind_eq_Some_conv split: if_splits option.splits)
  obtain tp2 where "tid_loop (m_hdrs m') (NOT USIPY_HF_TID_MASK) tp' = Some (Some (seen, tp2))"
    using tid_loop_free[OF l(2)] by blast
  then have g2: "usipy_sip_msg_get_tid stk m tp' = Some (Some (tp2\<lparr>tid_hash := usipy_sip_tid_hash tp2\<rparr>), m')"
    using l(1,3) by (simp add: usipy_sip_msg_get_tid_def)
  show ?thesis
    using tid_field_unique[OF get_tid_spec(1)[OF g b] get_tid_spec(1)[OF g2 b] get_tid_spec(2)[OF g b] get_tid_spec(2)[OF g2 b]]
      g2 by simp
qed

subsection \<open>A message as text\<close>

lemma hdr_build_bounded: "hdr_build_value f p n = Some (Some v) \<Longrightarrow> length v \<le> n"
  unfolding hdr_build_value_def
  by (cases f; cases p)
     (auto simp: usipy_sip_hdr_1token_build_def nameaddr_build_eq usipy_sip_hdr_cseq_build_def
        bind_eq_Some_conv build_simps
        split: if_splits dest!: via_build_sound auth_build_bounded authz_build_bounded)


text \<open>The start line as it is written, and the headers in the order they are written.\<close>

fun sline_text :: "usipy_sip_msg_kind \<Rightarrow> usipy_sip_sline_parsed \<Rightarrow> string" where
  "sline_text USIPY_SIP_MSG_REQ (SL_request rl) =
     pct_s (usipy_method_db ! rl_method rl) @ '' '' @
     (case rl_ruri rl of Some u \<Rightarrow> uri_text u | None \<Rightarrow> pct_s (rl_onwire_ruri rl)) @ '' '' @
     pct_s (if rl_version rl \<noteq> [] then rl_version rl
       else if rl_onwire_version rl \<noteq> [] then rl_onwire_version rl else ''SIP/2.0'')"
| "sline_text USIPY_SIP_MSG_RES (SL_status sl) =
     pct_s (sl_version sl) @ '' '' @ dec (unat (st_code (sl_status sl))) @ '' '' @
     pct_s (st_reason_phrase (sl_status sl))"
| "sline_text _ _ = []"

definition is_length_hdr :: "usipy_sip_hdr \<Rightarrow> bool" where
  "is_length_hdr h \<longleftrightarrow> hdr_cantype h = USIPY_HF_CONTENTLENGTH"

definition last_length :: "usipy_sip_hdr option \<Rightarrow> usipy_sip_hdr list \<Rightarrow> usipy_sip_hdr list" where
  "last_length cl hs =
     (case (filter is_length_hdr hs, cl) of
        ([], None) \<Rightarrow> [] | ([], Some h) \<Rightarrow> [h] | (cs, _) \<Rightarrow> [last cs])"

definition ordered_hdrs :: "usipy_sip_hdr list \<Rightarrow> usipy_sip_hdr list" where
  "ordered_hdrs hs = filter (\<lambda>h. \<not> is_length_hdr h) hs @ last_length None hs"

text \<open>A header and the value its builder writes.\<close>

definition hdr_written :: "usipy_sip_hdr \<Rightarrow> nat \<times> string \<Rightarrow> bool" where
  "hdr_written h tv \<longleftrightarrow> fst tv = h_hf_type h \<and>
     (\<exists>n. hdr_build_value (he_build (usipy_hdr_db_byid (h_hf_type h))) (h_parsed h) n = Some (Some (snd tv)))"

lemma sline_cb_text:
  "usipy_sip_msg_build_sline_cb m len = Some (Some b) \<Longrightarrow>
     b = sline_text (m_kind m) (sln_parsed (m_sline m)) @ CRLF \<and> length b \<le> len"
  by (cases "m_kind m"; cases "sln_parsed (m_sline m)")
     (auto simp: usipy_sip_msg_build_sline_cb_def bind_eq_Some_conv build_simps split: option.splits if_splits
       dest!: uri_build_sound)

lemma hdr_cb_text:
  assumes "usipy_sip_msg_build_hdr_cb h n = Some (Some b)"
  shows "\<exists>tv. hdr_written h tv \<and> b = hdr_text tv @ CRLF \<and> length b \<le> n"
proof -
  let ?hf = "usipy_hdr_db_byid (h_hf_type h)"
  obtain v where v: "hdr_build_value (he_build ?hf) (h_parsed h) (n - length (he_name ?hf @ '': '') - 2) = Some (Some v)"
    "b = he_name ?hf @ '': '' @ v @ CRLF" "length (he_name ?hf) + 2 + 2 \<le> n"
    using assms
    by (auto simp: usipy_sip_msg_build_hdr_cb_def Let_def bind_eq_Some_conv build_simps
        split: if_splits option.splits)
  have "length v \<le> n - length (he_name ?hf @ '': '') - 2" using hdr_build_bounded[OF v(1)] .
  then have "length b \<le> n" using v(2,3) by simp
  then show ?thesis using v(1,2)
    by (intro exI[of _ "(h_hf_type h, v)"]) (auto simp: hdr_written_def hdr_text_def)
qed

lemma build_hdrs_text:
  assumes "build_hdrs_loop len hs cl buf = Some (Some (cl', b))" "length buf \<le> len"
  shows "\<exists>tvs. list_all2 hdr_written (filter (\<lambda>h. \<not> is_length_hdr h) hs) tvs \<and>
    b = buf @ lines_text (map hdr_text tvs) \<and> length b \<le> len \<and>
    (case cl' of None \<Rightarrow> [] | Some h \<Rightarrow> [h]) = last_length cl hs"
  using assms
proof (induction hs arbitrary: cl buf)
  case Nil
  then show ?case by (auto simp: last_length_def lines_text_def split: option.splits)
next
  case (Cons h hs)
  show ?case
  proof (cases "is_length_hdr h")
    case True
    then have "build_hdrs_loop len hs (Some h) buf = Some (Some (cl', b))"
      using Cons.prems(1) by (simp add: is_length_hdr_def)
    from Cons.IH[OF this Cons.prems(2)] show ?thesis
      using True by (auto simp: last_length_def split: option.splits list.splits)
  next
    case False
    then obtain t where t: "usipy_sip_msg_build_hdr_cb h (len - length buf) = Some (Some t)"
      "build_hdrs_loop len hs cl (buf @ t) = Some (Some (cl', b))"
      using Cons.prems(1) by (auto simp: is_length_hdr_def bind_eq_Some_conv split: option.splits)
    obtain tv where tv: "hdr_written h tv" "t = hdr_text tv @ CRLF" "length t \<le> len - length buf"
      using hdr_cb_text[OF t(1)] by blast
    have l: "length (buf @ t) \<le> len" using tv(3) Cons.prems(2) by simp
    obtain tvs where tvs: "list_all2 hdr_written (filter (\<lambda>h. \<not> is_length_hdr h) hs) tvs"
      "b = (buf @ t) @ lines_text (map hdr_text tvs)" "length b \<le> len"
      "(case cl' of None \<Rightarrow> [] | Some h \<Rightarrow> [h]) = last_length cl hs"
      using Cons.IH[OF t(2) l] by blast
    show ?thesis
      by (rule exI[of _ "tv # tvs"]) (use False tv tvs in \<open>simp add: lines_text_def last_length_def\<close>)
  qed
qed

text \<open>The text of a message.\<close>

lemma build_cb_text:
  assumes "usipy_sip_msg_build_cb m len = Some (Some t)"
  shows "\<exists>tvs. list_all2 hdr_written (ordered_hdrs (m_hdrs m)) tvs \<and> length t \<le> len \<and>
    t = sline_text (m_kind m) (sln_parsed (m_sline m)) @ CRLF @ lines_text (map hdr_text tvs) @ CRLF @ m_body m"
proof -
  let ?sl = "sline_text (m_kind m) (sln_parsed (m_sline m))"
  obtain b1 where b1: "usipy_sip_msg_build_sline_cb m len = Some (Some b1)"
    using assms by (auto simp: usipy_sip_msg_build_cb_def bind_eq_Some_conv split: option.split_asm)
  obtain r where "build_hdrs_loop len (m_hdrs m) None b1 = Some (Some r)"
    using assms unfolding usipy_sip_msg_build_cb_def b1
    by (cases "build_hdrs_loop len (m_hdrs m) None b1") (auto split: option.split_asm)
  then obtain cl b2 where b: "usipy_sip_msg_build_sline_cb m len = Some (Some b1)"
    "build_hdrs_loop len (m_hdrs m) None b1 = Some (Some (cl, b2))"
    using b1 by (cases r) simp
  note s = sline_cb_text[OF b(1)]
  obtain tvs where tvs: "list_all2 hdr_written (filter (\<lambda>h. \<not> is_length_hdr h) (m_hdrs m)) tvs"
    "b2 = b1 @ lines_text (map hdr_text tvs)" "length b2 \<le> len"
    "(case cl of None \<Rightarrow> [] | Some h \<Rightarrow> [h]) = last_length None (m_hdrs m)"
    using build_hdrs_text[OF b(2)] s by blast
  have "\<exists>tl. list_all2 hdr_written (last_length None (m_hdrs m)) tl \<and> length t \<le> len \<and>
     t = b2 @ lines_text (map hdr_text tl) @ CRLF @ m_body m"
  proof (cases cl)
    case None
    then show ?thesis using assms b tvs(3,4)
      by (auto simp: usipy_sip_msg_build_cb_def lines_text_def Let_def split: if_splits)
  next
    case (Some h)
    obtain u where u: "usipy_sip_msg_build_hdr_cb h (len - length b2) = Some (Some u)"
      "2 \<le> len - length (b2 @ u)" "length (m_body m) \<le> len - length (b2 @ u @ CRLF)"
      "t = (b2 @ u) @ CRLF @ m_body m"
      using assms b Some
      by (auto simp: usipy_sip_msg_build_cb_def bind_eq_Some_conv Let_def split: if_splits option.split_asm)
    obtain tv where tv: "hdr_written h tv" "u = hdr_text tv @ CRLF" using hdr_cb_text[OF u(1)] by blast
    show ?thesis
      by (rule exI[of _ "[tv]"]) (use u tv tvs(4)[symmetric] Some in \<open>auto simp: lines_text_def\<close>)
  qed
  then obtain tl where tl: "list_all2 hdr_written (last_length None (m_hdrs m)) tl" "length t \<le> len"
     "t = b2 @ lines_text (map hdr_text tl) @ CRLF @ m_body m" by blast
  show ?thesis
    by (rule exI[of _ "tvs @ tl"])
       (use tvs tl s in \<open>simp add: ordered_hdrs_def list_all2_appendI lines_text_append\<close>)
qed


subsection \<open>Reading back what is written\<close>

text \<open>The start lines that survive, and what of them does.\<close>

fun sline_writable :: "usipy_sip_msg_kind \<Rightarrow> usipy_sip_sline_parsed \<Rightarrow> bool" where
  "sline_writable USIPY_SIP_MSG_REQ (SL_request rl) \<longleftrightarrow>
     method_known (rl_method rl) \<and> ieq (rl_version rl) ''SIP/2.0'' \<and>
     (case rl_ruri rl of None \<Rightarrow> False | Some u \<Rightarrow> uri_wf u \<and> SP \<notin> set (uri_text u) \<and> CR \<notin> set (uri_text u))"
| "sline_writable USIPY_SIP_MSG_RES (SL_status sl) \<longleftrightarrow>
     ieq (sl_version sl) ''SIP/2.0'' \<and> 100 \<le> unat (st_code (sl_status sl)) \<and> unat (st_code (sl_status sl)) \<le> 999 \<and>
     CR \<notin> set (st_reason_phrase (sl_status sl)) \<and> NUL \<notin> set (st_reason_phrase (sl_status sl))"
| "sline_writable _ _ \<longleftrightarrow> False"

fun same_sline :: "usipy_sip_sline_parsed \<Rightarrow> usipy_sip_sline_parsed \<Rightarrow> bool" where
  "same_sline (SL_request a) (SL_request b) \<longleftrightarrow>
     rl_method a = rl_method b \<and> rl_ruri a = rl_ruri b \<and> rl_version a = rl_version b"
| "same_sline a b \<longleftrightarrow> a = b"

lemma pct_s_id: "NUL \<notin> set s \<Longrightarrow> pct_s s = s"
  by (auto simp: pct_s_def takeWhile_eq_all_conv)

lemma version_no_nul: "ieq vp ''SIP/2.0'' \<Longrightarrow> NUL \<notin> set vp"
proof
  assume i: "ieq vp ''SIP/2.0''" and "NUL \<in> set vp"
  then have "ascii_lower NUL \<in> set (map ascii_lower vp)" by simp
  also have "map ascii_lower vp = map ascii_lower ''SIP/2.0''" using i by (simp only: ieq_def)
  finally show False by (simp add: ascii_lower_def byte_lower_def)
qed

lemma method_name_written:
  assumes "method_known m"
  shows "SP \<notin> set (usipy_method_db ! m)" "CR \<notin> set (usipy_method_db ! m)"
    "\<not> ieq (usipy_method_db ! m) ''SIP/2.0''"
proof -
  have "list_all (\<lambda>n. SP \<notin> set n \<and> CR \<notin> set n \<and> \<not> ieq n ''SIP/2.0'') (tl usipy_method_db)"
    by (simp add: usipy_method_db_def ieq_def ascii_lower_def byte_lower_def)
  then show "SP \<notin> set (usipy_method_db ! m)" "CR \<notin> set (usipy_method_db ! m)"
    "\<not> ieq (usipy_method_db ! m) ''SIP/2.0''" using method_name_in[OF assms] by (auto simp: list_all_iff)
qed

lemma sline_of_sline_text:
  assumes "sline_writable k p"
  shows "\<exists>p'. sline_of_text (sline_text k p) = Some (k, p') \<and> same_sline p p'" "cut_line (sline_text k p) = None"
proof -
  have "(\<exists>p'. sline_of_text (sline_text k p) = Some (k, p') \<and> same_sline p p') \<and> cut_line (sline_text k p) = None"
    using assms
  proof (cases "(k, p)" rule: sline_writable.cases)
    case (1 rl)
    obtain u where u: "rl_ruri rl = Some u" "uri_wf u" "SP \<notin> set (uri_text u)" "CR \<notin> set (uri_text u)"
      using assms 1 by (auto split: option.splits)
    have m: "method_known (rl_method rl)" and v: "ieq (rl_version rl) ''SIP/2.0''" using assms 1 by auto
    let ?m = "usipy_method_db ! rl_method rl"
    have t: "sline_text k p = ?m @ SP # uri_text u @ SP # rl_version rl"
      using 1 u(1) method_name_plain[OF m] version_no_space[OF v] pct_s_id[OF version_no_nul[OF v]] by simp
    have "uri_text u \<noteq> []" by (simp add: uri_text_def)
    then have "sline_of_text (sline_text k p) = Some (USIPY_SIP_MSG_REQ,
        SL_request \<lparr>rl_version = rl_version rl, rl_onwire_method = ?m, rl_onwire_ruri = uri_text u,
          rl_onwire_version = rl_version rl, rl_ruri = Some u, rl_method = rl_method rl\<rparr>)"
      unfolding t sline_of_text_def
      using v u method_name_written[OF m] method_name_plain(1)[OF m] uri_of_text[OF u(2)] method_of_name_self[OF m]
      by (simp add: split_append method_lookup_correct)
    then have "\<exists>p'. sline_of_text (sline_text k p) = Some (k, p') \<and> same_sline p p'"
      using 1 u(1) by simp
    moreover have "cut_line (sline_text k p) = None"
      unfolding t using method_name_written(2)[OF m] u(4) version_no_space[OF v]
      by (intro cut_line_prefix[of _ "[]", simplified]) simp
    ultimately show ?thesis by blast
  next
    case (2 sl)
    let ?st = "sl_status sl"
    have v: "ieq (sl_version sl) ''SIP/2.0''" and c: "100 \<le> unat (st_code ?st)" "unat (st_code ?st) \<le> 999"
      and r: "CR \<notin> set (st_reason_phrase ?st)" "NUL \<notin> set (st_reason_phrase ?st)" using assms 2 by auto
    have n: "cut_line (st_reason_phrase ?st) = None" using cut_line_prefix[of _ "[]", simplified, OF r(1)] .
    have t: "sline_text k p = status_text (sl_version sl) ?st"
      using 2 pct_s_id[OF version_no_nul[OF v]] pct_s_id[OF r(2)] by (simp add: status_text_def scode2str_dec[OF c])
    show ?thesis
      unfolding t using sline_of_status_text[OF v c] status_text_line[OF v c n] 2 by simp
  qed auto
  then show "\<exists>p'. sline_of_text (sline_text k p) = Some (k, p') \<and> same_sline p p'" "cut_line (sline_text k p) = None" by blast+
qed

lemma last_length_not_Nil: "filter is_length_hdr hs \<noteq> [] \<Longrightarrow> last_length None hs \<noteq> []"
  by (auto simp: last_length_def split: list.splits)

lemma ordered_hdrs_Nil: "ordered_hdrs hs = [] \<longleftrightarrow> hs = []"
  by (cases "filter is_length_hdr hs = []")
     (auto simp: ordered_hdrs_def last_length_def filter_empty_conv split: list.splits)

lemma build_read_back:
  assumes "usipy_sip_msg_build_cb m len = Some (Some t)" "m_hdrs m \<noteq> []"
    and "sline_writable (m_kind m) (sln_parsed (m_sline m))"
  shows "\<exists>tvs p'. list_all2 hdr_written (ordered_hdrs (m_hdrs m)) tvs \<and> length t \<le> len \<and>
    t = sline_text (m_kind m) (sln_parsed (m_sline m)) @ CRLF @ lines_text (map hdr_text tvs) @ CRLF @ m_body m \<and>
    same_sline (sln_parsed (m_sline m)) p' \<and>
    (list_all plain_hdr tvs \<longrightarrow>
       wire_message t = Some (sline_text (m_kind m) (sln_parsed (m_sline m)), m_kind m, p', map read_hdr tvs, m_body m))"
proof -
  obtain tvs where tvs: "list_all2 hdr_written (ordered_hdrs (m_hdrs m)) tvs" "length t \<le> len"
    "t = sline_text (m_kind m) (sln_parsed (m_sline m)) @ CRLF @ lines_text (map hdr_text tvs) @ CRLF @ m_body m"
    using build_cb_text[OF assms(1)] by blast
  obtain p' where p': "sline_of_text (sline_text (m_kind m) (sln_parsed (m_sline m))) = Some (m_kind m, p')"
    "same_sline (sln_parsed (m_sline m)) p'"
    using sline_of_sline_text(1)[OF assms(3)] by blast
  have "tvs \<noteq> []" using tvs(1) assms(2) ordered_hdrs_Nil by auto
  then have "list_all plain_hdr tvs \<longrightarrow>
       wire_message t = Some (sline_text (m_kind m) (sln_parsed (m_sline m)), m_kind m, p', map read_hdr tvs, m_body m)"
    using wire_message_written[OF sline_of_sline_text(2)[OF assms(3)] p'(1)] unfolding tvs(3) list_all_iff by blast
  then show ?thesis using tvs p'(2) by blast
qed

end
