(* ===== verification/Parsing_Properties.thy ===== *)
theory Parsing_Properties
  imports Usipy_Uri Usipy_Via Usipy_Nameaddr Usipy_Cseq Usipy_Authz
begin

text \<open>
  What the string, heap, table and codec components promise their callers, each as one theorem
  over the definitions of those components. The theorems that need room in a heap state how many
  bytes are enough.
\<close>

subsection \<open>A heap to evaluate on\<close>

definition fresh_heap :: "nat \<Rightarrow> usipy_msg_heap" where
  "fresh_heap n = \<lparr>mh_tsize = of_nat n, mh_alen = 0, mh_checkpoints = [0, 0], mh_ncheckpoints = 2,
     mh_checkpoint_top = 0, mh_first = 0, mh_cells = replicate n NUL\<rparr>"

lemma fresh_heap_ok: "8 dvd n \<Longrightarrow> n < 2 ^ 64 \<Longrightarrow> heap_ok (fresh_heap n)"
  by (simp add: heap_ok_def fresh_heap_def live_checkpoints_def unat_of_nat)

lemma fresh_heap_size: "n < 2 ^ 64 \<Longrightarrow> hsize (fresh_heap n) = n \<and> mark (fresh_heap n) = 0"
  by (simp add: fresh_heap_def unat_of_nat)

subsection \<open>Strings\<close>

text \<open>
  C37: \<open>usipy_str_atoui_range\<close> accepts a string exactly when it is all digits, its decimal value
  fits a 32-bit unsigned integer and lies in the range (a range whose upper end is below its lower
  end has no upper end), and the result is that value.
\<close>

theorem atoui_range_spec:
  "usipy_str_atoui_range s lo hi =
     (let v = digits_value 0 s in
      if list_all is_digit s \<and> v < 2 ^ 32 \<and> unat lo \<le> v \<and> (hi < lo \<or> v \<le> unat hi)
      then Some (of_nat v) else None)"
proof -
  have "usipy_str_atoui_range s lo hi =
      (case atoui_loop s 0 of None \<Rightarrow> None
       | Some r \<Rightarrow> if r < lo \<or> hi \<ge> lo \<and> r > hi then None else Some r)"
    by (simp add: usipy_str_atoui_range_def)
  moreover have "digits_value 0 s < 2 ^ 32 \<Longrightarrow> unat (of_nat (digits_value 0 s) :: uint32) = digits_value 0 s"
    by (simp add: unat_of_nat)
  ultimately show ?thesis
    using atoui_loop_spec[of s 0]
    by (auto simp: Let_def list_all_iff word_less_nat_alt word_le_nat_alt)
qed

text \<open>
  C15: the word-at-a-time comparison \<open>turbo_casebcmp\<close> reports a difference exactly when the first
  \<open>len\<close> bytes of the two strings differ as ASCII text in any case.
\<close>

theorem casebcmp_spec:
  assumes "len \<le> length s1" "len \<le> length s2"
  shows "turbo_casebcmp s1 s2 len \<longleftrightarrow>
    map ascii_lower (take len s1) \<noteq> map ascii_lower (take len s2)"
  using casebcmp_correct[OF assms] by (simp add: ieq_def)

lemma casebcmp_spec_witness:
  "turbo_casebcmp ''Content-Type: x'' ''CONTENT-tYPE: y'' 12 \<longleftrightarrow>
     map ascii_lower (take 12 ''Content-Type: x'') \<noteq> map ascii_lower (take 12 ''CONTENT-tYPE: y'')"
  by (rule casebcmp_spec) simp_all

text \<open>
  C38: the version check of the start line accepts exactly the seven bytes of \<open>SIP/2.0\<close>, the
  letters in any case.
\<close>

theorem verify_version_spec: "usipy_verify_sip_version vp \<longleftrightarrow> ieq vp ''SIP/2.0''"
  by (rule version_is_sip20)

subsection \<open>The message heap\<close>

text \<open>
  C32: an allocation either fails and changes nothing, exactly when the aligned request does not
  fit above the aligned mark, or returns an 8-byte aligned block that starts at or above the old
  mark and ends at the new one, inside the heap; everything stored below the old mark is kept.
\<close>

theorem heap_alloc_spec:
  assumes "heap_ok hp" "unat len + 14 < 2 ^ 64"
  shows "case usipy_msg_heap_alloc hp len of
      (None, hp') \<Rightarrow> hp' = hp \<and> hsize hp < up8 (mark hp) + up8 (unat len)
    | (Some off, hp') \<Rightarrow> extends hp hp' \<and> 8 dvd unat off \<and> mark hp \<le> unat off \<and>
        mark hp' = unat off + up8 (unat len) \<and> mark hp' \<le> hsize hp'"
proof (cases "usipy_msg_heap_alloc hp len")
  case (Pair r hp')
  show ?thesis
  proof (cases r)
    case (Some off)
    note a = alloc_Some[OF assms Pair[unfolded Some]]
    show ?thesis
      using alloc_extends[OF assms] heap_ok_mark[OF a(1)] a up8_bounds[of "mark hp"] Pair Some by simp
  next
    case None
    then show ?thesis using Pair alloc_None[OF assms, of hp'] by simp
  qed
qed

lemma heap_alloc_spec_witness:
  "case usipy_msg_heap_alloc (fresh_heap 64) 5 of
      (None, hp') \<Rightarrow> hp' = fresh_heap 64 \<and> hsize (fresh_heap 64) < up8 (mark (fresh_heap 64)) + up8 (unat (5 :: size_t))
    | (Some off, hp') \<Rightarrow> extends (fresh_heap 64) hp' \<and> 8 dvd unat off \<and> mark (fresh_heap 64) \<le> unat off \<and>
        mark hp' = unat off + up8 (unat (5 :: size_t)) \<and> mark hp' \<le> hsize hp'"
  by (rule heap_alloc_spec) (simp_all add: fresh_heap_ok)

text \<open>
  C40: \<open>USIPY_ALIGNED_SIZE\<close> wraps: a request of \<open>SIZE_MAX\<close> bytes counts as none, and the allocator
  answers it with a block of no bytes.
\<close>

theorem heap_alloc_wraps:
  assumes "heap_ok hp" "8 dvd mark hp"
  shows "usipy_msg_heap_alloc hp (- 1) = (Some (mh_alen hp), hp)"
proof -
  have "USIPY_ALIGNED_SIZE (- 1) = 0" by (simp add: USIPY_ALIGNED_SIZE_def)
  moreover have "USIPY_ALIGNED_SIZE (mh_alen hp) = mh_alen hp"
    using assms hsize_bound[OF assms(1)] heap_ok_mark[OF assms(1)]
    by (intro word_unat_eq_iff[THEN iffD2]) (simp add: unat_ALIGNED_SIZE up8_dvd)
  ultimately show ?thesis by (simp add: usipy_msg_heap_alloc_def usipy_msg_heap_reserve_def)
qed

lemma heap_alloc_wraps_witness: "usipy_msg_heap_alloc (fresh_heap 64) (- 1) = (Some 0, fresh_heap 64)"
  using heap_alloc_wraps[OF fresh_heap_ok[of 64]] by (simp add: fresh_heap_def)

text \<open>
  C31: appending a string never disturbs what the heap holds, returns a slice that reads back as
  the string, and fails exactly when the bytes do not fit.
\<close>

theorem heap_append_spec:
  assumes "heap_ok hp" "length src + 7 < 2 ^ 64" "below hp sl"
  shows "case usipy_msg_heap_append hp src of
      (None, hp') \<Rightarrow> hp' = hp \<and> hsize hp < mark hp + length src
    | (Some d, hp') \<Rightarrow> extends hp hp' \<and> below hp' d \<and> slice_read hp' d = src \<and>
        slice_read hp' sl = slice_read hp sl"
proof (cases "usipy_msg_heap_append hp src")
  case (Pair r hp')
  show ?thesis
  proof (cases r)
    case None
    then show ?thesis using Pair append_spec[OF assms(1,2)] by (auto split: if_splits)
  next
    case (Some d)
    note a = append_Some[OF assms(1,2) Pair[unfolded Some]]
    have e: "extends hp hp'" using append_extends[OF assms(1,2)] Pair by simp
    have "below hp' d"
      using a(5) append_spec[OF assms(1,2)] Pair Some
      by (auto simp: below_def unat_of_nat split: if_splits)
    then show ?thesis using a e extends_slice[OF assms(1) e assms(3)] Pair Some by simp
  qed
qed

lemma heap_append_spec_witness:
  "case usipy_msg_heap_append (fresh_heap 64) ''tag'' of
      (None, hp') \<Rightarrow> False
    | (Some d, hp') \<Rightarrow> slice_read hp' d = ''tag''"
  using heap_append_spec[OF fresh_heap_ok[of 64], of "''tag''" "(0, 0)"]
  by (auto simp: below_def fresh_heap_size split: prod.splits option.splits)

text \<open>
  C14: rolling back to the newest checkpoint never aborts and gives back exactly the bytes that
  were live when it was taken, whatever the heap was extended with since; what was stored since
  is zeroed.
\<close>

theorem heap_rollback_spec:
  assumes "heap_ok hp" "usipy_msg_heap_checkpoint hp = Some (c, h1)" "extends h1 h2"
  shows "\<exists>h3. usipy_msg_heap_rollback h2 c = Some h3 \<and> heap_ok h3 \<and> mh_alen h3 = mh_alen hp \<and>
    heap_log h3 = heap_log hp \<and> list_all (\<lambda>i. mh_cells h3 ! i = NUL) [mark h3..<mark h2]"
  by (rule rollback_restores[OF assms]) (auto simp: list_all_iff)

lemma heap_rollback_spec_witness:
  "\<exists>h1 h3. usipy_msg_heap_checkpoint (fresh_heap 64) = Some (0, h1) \<and>
     usipy_msg_heap_rollback (snd (usipy_msg_heap_append h1 ''tag'')) 0 = Some h3 \<and>
     heap_log h3 = heap_log (fresh_heap 64)"
proof -
  let ?h1 = "(fresh_heap 64)\<lparr>mh_checkpoint_top := 1\<rparr>"
  have c: "usipy_msg_heap_checkpoint (fresh_heap 64) = Some (0, ?h1)"
    by (simp add: usipy_msg_heap_checkpoint_def fresh_heap_def)
  have "heap_ok ?h1" by (simp add: heap_ok_def fresh_heap_def live_checkpoints_def)
  then have "extends ?h1 (snd (usipy_msg_heap_append ?h1 ''tag''))" by (rule append_extends) simp
  then show ?thesis using heap_rollback_spec[OF fresh_heap_ok[of 64] c] c by auto
qed

text \<open>
  C33: growing the newest counted allocation never aborts as long as it does not shrink; it takes
  the bytes the new size needs beyond the old one, or fails, changing nothing, exactly when the
  aligned size does not fit.
\<close>

theorem heap_aextend_spec:
  assumes "cnt_ok base hp cnt" "unat nlen + 7 < 2 ^ 64" "unat (cnt_alen cnt) \<le> up8 (unat nlen)"
  shows "\<exists>hp' cnt'. usipy_msg_heap_aextend hp nlen cnt =
      Some (up8 (mark base) + up8 (unat nlen) \<le> hsize base, hp', cnt') \<and> cnt_ok base hp' cnt' \<and>
      (if up8 (mark base) + up8 (unat nlen) \<le> hsize base then unat (cnt_alen cnt') = up8 (unat nlen)
       else hp' = hp \<and> cnt' = cnt)"
  by (rule aextend_spec[OF assms]) auto

lemma heap_aextend_spec_witness:
  "\<exists>hp' cnt'. usipy_msg_heap_aextend ((fresh_heap 64)\<lparr>mh_alen := 8\<rparr>) 20 \<lparr>cnt_alen = 8, cnt_lastalen = 8\<rparr> =
     Some (True, hp', cnt') \<and> unat (cnt_alen cnt') = 24"
proof -
  have "cnt_ok (fresh_heap 64) ((fresh_heap 64)\<lparr>mh_alen := 8\<rparr>) \<lparr>cnt_alen = 8, cnt_lastalen = 8\<rparr>"
    using fresh_heap_ok[of 64]
    by (simp add: cnt_ok_def extends_def same_frame_def heap_log_def heap_ok_def live_checkpoints_def
        fresh_heap_def up8_def)
  from heap_aextend_spec[OF this, of 20] show ?thesis
    by (auto simp: fresh_heap_size up8_def)
qed

subsection \<open>The method and header tables\<close>

text \<open>
  C16: the perfect-hash lookup of a method name is the search of the method table for the name in
  any case: it finds every known method and nothing else.
\<close>

theorem method_lookup_spec:
  "usipy_method_db_lookup tp =
     (case filter (\<lambda>i. ieq tp (usipy_method_db ! i)) [1..<12] of [] \<Rightarrow> 0 | i # _ \<Rightarrow> i)"
  using method_lookup_correct[of tp] by (simp add: method_of_name_def)

text \<open>
  C34: every name of the header table, in any case, is looked up to its own entry.
\<close>

theorem hdr_lookup_spec:
  assumes "1 \<le> i" "i \<le> USIPY_HF_max" "ieq hname (he_name (usipy_hdr_db_byid i))"
  shows "usipy_hdr_db_lookup hname = Some i"
  using assms by (rule hdr_lookup_known)

lemma hdr_lookup_spec_witness: "usipy_hdr_db_lookup ''cALL-id'' = Some USIPY_HF_CALLID"
  by (rule hdr_lookup_spec)
     (simp_all add: usipy_hdr_db_byid_def usipy_hdr_db_def usipy_hdr_db_compact_def hdr_entr_def ieq_def ascii_lower_def byte_lower_def)



subsection \<open>The codecs\<close>



text \<open>
  C12: a URI that is written out and parsed again comes back as it was: when the buffer and the
  heap have room, the builder succeeds and the parser returns the same URI.
\<close>

theorem uri_roundtrip:
  assumes "uri_wf u" "length (uri_text u) < len" "length (uri_text u) < 2 ^ 56"
    and "heap_ok mhp" "up8 (mark mhp) + uri_size u \<le> hsize mhp"
  shows "\<exists>b mhp'. usipy_sip_uri_build u len = Some b \<and> length b < len \<and>
    usipy_sip_uri_parse mhp b = Some (Some u, mhp')"
  using uri_parse_refines[OF assms(4,3)] uri_of_text[OF assms(1)] uri_build_complete[OF assms(2)] assms(2,5)
  by auto

lemma uri_roundtrip_witness:
  "\<exists>b mhp'. usipy_sip_uri_build \<lparr>uri_proto = ''sip'', uri_user = ''bob'', uri_password = [],
       uri_host = ''h'', uri_port = 5060, uri_parameters = [\<lparr>tv_token = ''lr'', tv_value = []\<rparr>],
       uri_headers = []\<rparr> 64 = Some b \<and> length b < 64 \<and>
     usipy_sip_uri_parse (fresh_heap 256) b = Some (Some \<lparr>uri_proto = ''sip'', uri_user = ''bob'',
       uri_password = [], uri_host = ''h'', uri_port = 5060,
       uri_parameters = [\<lparr>tv_token = ''lr'', tv_value = []\<rparr>], uri_headers = []\<rparr>, mhp')"
  by (rule uri_roundtrip)
     (simp_all add: uri_wf_def tvs_ok_def tv_ok_def tv_text_def uri_text_def dec.simps uri_size_def
       fresh_heap_ok fresh_heap_size up8_def)

text \<open>
  C39: the URI builder never writes past the buffer, and what it writes is the whole text.
\<close>

theorem uri_build_bounded:
  assumes "usipy_sip_uri_build u len = Some b"
  shows "b = uri_text u \<and> length b \<le> len"
  using assms by (rule uri_build_sound)

lemma uri_build_bounded_witness:
  "\<exists>b. usipy_sip_uri_build \<lparr>uri_proto = ''sip'', uri_user = [], uri_password = [],
       uri_host = ''h'', uri_port = 0, uri_parameters = [], uri_headers = []\<rparr> 6 = Some b \<and>
     length b \<le> 6"
proof -
  let ?u = "\<lparr>uri_proto = ''sip'', uri_user = [], uri_password = [],
       uri_host = ''h'', uri_port = 0, uri_parameters = [], uri_headers = []\<rparr>"
  have "usipy_sip_uri_build ?u 6 = Some (uri_text ?u)"
    by (simp add: usipy_sip_uri_build_def uri_text_def usipy_strbuf_append_pair_def usipy_strbuf_append_def)
  then show ?thesis using uri_build_bounded by blast
qed



text \<open>
  C27: a Via value without parameters is parsed into whatever the stack holds: the parser reads a
  local variable it has not set.
\<close>

theorem via_parse_uninitialised:
  assumes "heap_ok mhp" "length stk < 2 ^ 56" "mark mhp = 0" "112 \<le> hsize mhp"
    and "lws_tvps stk = [p]"
  shows "\<exists>v mhp'. usipy_sip_hdr_via_parse stk mhp ''SIP/2.0/UDP h'' = Some (Some v, mhp') \<and>
    via_params v = [p]"
proof -
  have of_str: "via_of_string stk ''SIP/2.0/UDP h'' =
      Some \<lparr>via_proto_name = ''SIP'', via_proto_version = ''2.0'', via_transport = ''UDP'',
        via_host = ''h'', via_port = 0, via_params = [p]\<rparr>"
    using assms(5)
    by (simp add: via_of_string_def usipy_str_split3_def usipy_str_split_def usipy_str_splitlws_def
        USIPY_ISLWS_def USIPY_ISWS_def via_sent_by_def usipy_str_ltrm_e.simps)
  show ?thesis
    using via_parse_refines[OF assms(1) _ assms(2), of "''SIP/2.0/UDP h''"] assms(3,4)
    by (auto simp: of_str via_size_def up8_def)
qed

lemma via_parse_uninitialised_witness:
  "\<exists>v mhp'. usipy_sip_hdr_via_parse ''junk'' (fresh_heap 256) ''SIP/2.0/UDP h'' = Some (Some v, mhp') \<and>
    via_params v = [\<lparr>tv_token = ''junk'', tv_value = []\<rparr>]"
proof (rule via_parse_uninitialised)
  show "lws_tvps ''junk'' = [\<lparr>tv_token = ''junk'', tv_value = []\<rparr>]"
    by (simp add: lws_tvps.simps next_elem_lws_def split_tv_lws_def usipy_str_split_elem_def
        usipy_str_split_def)
qed (simp_all add: fresh_heap_ok fresh_heap_size)

text \<open>
  C25: a Via header that is written out and parsed again comes back as it was, if it has a
  parameter (without one, C17 applies).
\<close>

theorem via_roundtrip:
  assumes "via_wf v" "via_params v \<noteq> []" "length (via_text v) < len" "length (via_text v) < 2 ^ 56"
    and "heap_ok mhp" "up8 (mark mhp) + via_size v \<le> hsize mhp" "length stk < 2 ^ 56"
  shows "\<exists>b mhp'. usipy_sip_hdr_via_build v len = Some b \<and>
    usipy_sip_hdr_via_parse stk mhp b = Some (Some v, mhp')"
  using via_parse_refines[OF assms(5,4,7)] via_of_text[OF assms(1)] via_build_complete[OF assms(3)] assms(2,6)
  by auto

lemma via_roundtrip_witness:
  "\<exists>b mhp'. usipy_sip_hdr_via_build \<lparr>via_proto_name = ''SIP'', via_proto_version = ''2.0'',
       via_transport = ''UDP'', via_host = ''h'', via_port = 5060,
       via_params = [\<lparr>tv_token = ''branch'', tv_value = ''z9hG4bK1''\<rparr>]\<rparr> 99 = Some b \<and>
     usipy_sip_hdr_via_parse ''junk'' (fresh_heap 256) b = Some (Some \<lparr>via_proto_name = ''SIP'',
       via_proto_version = ''2.0'', via_transport = ''UDP'', via_host = ''h'', via_port = 5060,
       via_params = [\<lparr>tv_token = ''branch'', tv_value = ''z9hG4bK1''\<rparr>]\<rparr>, mhp')"
  by (rule via_roundtrip)
     (simp_all add: via_wf_def trimmed_def USIPY_ISLWS_def USIPY_ISWS_def tvs_ok_def tv_ok_def
       tv_trimmed_def tv_text_def via_text_def dec.simps via_size_def fresh_heap_ok fresh_heap_size up8_def)



text \<open>
  C28: a name-addr header that is written out and parsed again comes back as it was, and looking
  up a parameter of the parsed header finds the value of the first one of that name.
\<close>

theorem nameaddr_roundtrip:
  assumes "nameaddr_wf n" "length (nameaddr_text n) \<le> len" "length (nameaddr_text n) < 2 ^ 56"
    and "heap_ok mhp" "up8 (mark mhp) + na_size n \<le> hsize mhp"
  shows "\<exists>b m mhp'. usipy_sip_hdr_nameaddr_build n len = Some b \<and>
    usipy_sip_hdr_nameaddr_parse mhp b = Some (Some m, mhp') \<and> m = n \<and>
    usipy_sip_hdr_nameaddr_get_param m name =
      map_option tv_value (find (\<lambda>p. tv_token p = name) (na_params n))"
  using nameaddr_parse_refines[OF assms(4,3)] nameaddr_of_text[OF assms(1)] nameaddr_build_eq[of n len]
    get_param_find[of n name] assms(2,5)
  by auto

lemma nameaddr_roundtrip_witness:
  "\<exists>b m mhp'. usipy_sip_hdr_nameaddr_build \<lparr>na_display_name = ''Bob'', na_addr_spec = ''sip:bob@h'',
       na_params = [\<lparr>tv_token = ''tag'', tv_value = ''x1''\<rparr>]\<rparr> 99 = Some b \<and>
     usipy_sip_hdr_nameaddr_parse (fresh_heap 256) b = Some (Some m, mhp') \<and>
     m = \<lparr>na_display_name = ''Bob'', na_addr_spec = ''sip:bob@h'',
       na_params = [\<lparr>tv_token = ''tag'', tv_value = ''x1''\<rparr>]\<rparr> \<and>
     usipy_sip_hdr_nameaddr_get_param m ''tag'' =
       map_option tv_value (find (\<lambda>p. tv_token p = ''tag'') (na_params \<lparr>na_display_name = ''Bob'',
         na_addr_spec = ''sip:bob@h'', na_params = [\<lparr>tv_token = ''tag'', tv_value = ''x1''\<rparr>]\<rparr>))"
  by (rule nameaddr_roundtrip)
     (simp_all add: nameaddr_wf_def trimmed_def USIPY_ISLWS_def USIPY_ISWS_def tvs_ok_def tv_ok_def
       tv_trimmed_def tv_text_def nameaddr_text_def na_size_def fresh_heap_ok fresh_heap_size up8_def)

text \<open>
  C30: a CSeq header with a known method that is written out and parsed again keeps its number
  and its method, whatever method name it was parsed from.
\<close>

theorem cseq_roundtrip_spec:
  assumes "method_known m" "length (dec (unat v)) + 1 + length (usipy_method_db ! m) < len"
    and "heap_ok mhp" "up8 (mark mhp) + 32 \<le> hsize mhp"
  shows "\<exists>s c mhp'. usipy_sip_hdr_cseq_build \<lparr>cseq_onwire_method = x, cseq_val = v, cseq_method = m\<rparr> len =
      Some (Some s) \<and>
    usipy_sip_hdr_cseq_parse mhp s = (Some c, mhp') \<and> cseq_val c = v \<and> cseq_method c = m"
proof -
  obtain s where s: "usipy_sip_hdr_cseq_build \<lparr>cseq_onwire_method = x, cseq_val = v, cseq_method = m\<rparr> len =
      Some (Some s)"
    "cseq_of_string s = Some \<lparr>cseq_onwire_method = usipy_method_db ! m, cseq_val = v, cseq_method = m\<rparr>"
    using cseq_roundtrip[OF assms(1,2)] by blast
  then show ?thesis using cseq_parse_refines[OF assms(3), of s] assms(4) by auto
qed

lemma cseq_roundtrip_spec_witness:
  "\<exists>s c mhp'. usipy_sip_hdr_cseq_build
       \<lparr>cseq_onwire_method = ''invite'', cseq_val = 102, cseq_method = USIPY_SIP_METHOD_INVITE\<rparr> 32 =
       Some (Some s) \<and>
     usipy_sip_hdr_cseq_parse (fresh_heap 64) s = (Some c, mhp') \<and> cseq_val c = 102 \<and>
     cseq_method c = USIPY_SIP_METHOD_INVITE"
  by (rule cseq_roundtrip_spec)
     (simp_all add: method_known_def usipy_method_db_def dec.simps fresh_heap_ok fresh_heap_size up8_def)



text \<open>
  C24: the response the client computes to a challenge is the request digest of RFC 2617 over the
  user name, the realm, the nonce, the method, the URI and, for \<open>auth-int\<close>, the body, for every
  MD5 function.
\<close>

theorem auth_response_spec:
  assumes "gen_auth_hf md5 usec mhp ch user passwd meth uri bodyp qopp = (Some az, mhp')"
  shows "az_response az =
      rfc_response md5 (if az_qop az = [] then None else Some (az_qop az))
        (rfc_A1 md5 (usipy_sip_hdr_authz_ci_equal (au_algorithm ch) ''MD5-sess'') user (au_realm ch)
          passwd (au_nonce ch) (case usec of None \<Rightarrow> [] | Some u \<Rightarrow> hex8 u))
        (au_nonce ch) ''00000001'' (az_cnonce az)
        (rfc_A2 md5 (usipy_sip_hdr_authz_ci_equal (az_qop az) ''auth-int'') meth uri
          (case bodyp of None \<Rightarrow> [] | Some b \<Rightarrow> b))"
  using assms by (rule gen_auth_response)

lemma auth_response_spec_witness:
  "\<exists>az mhp'. gen_auth_hf (\<lambda>m. m) (Some 7) (fresh_heap 1024)
       \<lparr>au_scheme = ''Digest'', au_realm = ''r'', au_nonce = ''n'', au_qop = [], au_algorithm = [],
        au_opaque = [], au_params = []\<rparr> ''bob'' ''pw'' ''INVITE'' ''sip:h'' None None = (Some az, mhp') \<and>
     az_response az = ''bob:r:pw:n:INVITE:sip:h''"
proof -
  let ?ch = "\<lparr>au_scheme = ''Digest'', au_realm = ''r'', au_nonce = ''n'', au_qop = [],
    au_algorithm = [], au_opaque = [], au_params = []\<rparr>"
  let ?g = "gen_auth_hf (\<lambda>m. m) (Some 7) (fresh_heap 1024) ?ch ''bob'' ''pw'' ''INVITE'' ''sip:h'' None None"
  have "\<exists>az mhp'. ?g = (Some az, mhp') \<and> az_qop az = []"
    by (simp add: Let_def gen_auth_hf_def usipy_sip_hdr_authz_ci_equal_def strncasecmp_eq_def pct_s_def
        alloc_cases fresh_heap_ok fresh_heap_size up8_def)
  then obtain az mhp' where g: "?g = (Some az, mhp')" "az_qop az = []" by blast
  show ?thesis
    using auth_response_spec[OF g(1)] g
    by (simp add: rfc_response_def rfc_KD_def rfc_A1_def rfc_A2_def usipy_sip_hdr_authz_ci_equal_def)
qed

end
