(* ===== verification/Message_Properties.thy ===== *)
theory Message_Properties
  imports Usipy_Msgtext Parsing_Properties
begin

text \<open>
  The properties of whole messages: lines, headers, messages read from the wire, headers parsed on
  demand, transaction ids, and the texts of messages and responses. Each property is followed by a
  concrete instance.
\<close>

subsection \<open>Lines and headers\<close>

text \<open>
  C17: the line scanner finds every CR LF pair of a message, in order and once, and then answers -1
  for ever, whatever the alignment of the pairs in its eight-byte words.
\<close>

theorem scan_lines_spec:
  "break_calls (length (crlf_offsets 0 s) + n) (break_init s) = map int (crlf_offsets 0 s) @ replicate n (- 1)"
  by (rule break_calls_init)

text \<open>
  C22: the first pass over a header line with a known name takes the name without the white space
  before the colon, resolves a compact form, and makes one header of each element of the value when
  the header takes a list and a single one otherwise; it fails only when the table has no room.
\<close>

theorem hdr_preparse_spec:
  assumes "h_full shp = name @ CHR '':'' # val" "CHR '':'' \<notin> set name"
    and "usipy_hdr_db_lookup (usipy_str_trm_e name) = Some hde"
  shows "usipy_sip_hdr_preparse shp room = Some
    (let vs = (if he_csl_allowed (usipy_hdr_db_byid hde) then split_on CHR '','' val else [val]) in
     if 1 < length vs \<and> room < length vs then None
     else Some (value_headers (shp\<lparr>h_name := usipy_str_trm_e name, h_onwire_hf := hde,
        h_hf_type := (if usipy_hdr_iscmpct hde then he_cantype (usipy_hdr_db_byid hde) else hde)\<rparr>) vs))"
  using assms by (rule preparse_spec)

lemma hdr_preparse_spec_witness:
  "\<exists>hs. usipy_sip_hdr_preparse (hdr_zero\<lparr>h_full := ''Route:<a>,<b>''\<rparr>) 5 = Some (Some hs) \<and>
    map h_value hs = [''<a>'', ''<b>'']"
proof -
  have t: "usipy_str_trm_e ''Route'' = ''Route''"
    by (subst usipy_str_trm_e.simps) (simp add: USIPY_ISWS_def)
  have "usipy_hdr_db_lookup (usipy_str_trm_e ''Route'') = Some USIPY_HF_ROUTE"
    unfolding t by (rule hdr_lookup_known) (simp_all add: hdr_table_eval ieq_def ascii_lower_def byte_lower_def USIPY_ISWS_def)
  from hdr_preparse_spec[OF _ _ this, of "hdr_zero\<lparr>h_full := ''Route:<a>,<b>''\<rparr>" "''<a>,<b>''" 5]
  show ?thesis
    by (simp add: value_headers_def trim_value_def hdr_table_eval USIPY_ISLWS_def USIPY_ISWS_def
        usipy_str_ltrm_e.simps[of "''<a>''"] usipy_str_ltrm_e.simps[of "''<b>''"])
qed

subsection \<open>Messages from the wire\<close>

text \<open>A request as the instances below receive it.\<close>

definition sample_hdrs :: "(nat \<times> string) list" where
  "sample_hdrs = [(USIPY_HF_FROM, ''<sip:a>''), (USIPY_HF_TO, ''<sip:b>''), (USIPY_HF_CALLID, ''7''),
     (USIPY_HF_CSEQ, ''1 OPTIONS'')]"

definition sample_wire :: string where
  "sample_wire = ''OPTIONS sip:h SIP/2.0'' @ CRLF @ lines_text (map hdr_text sample_hdrs) @ CRLF @ ''v=0''"

definition sample_rl :: usipy_sip_request_line where
  "sample_rl = \<lparr>rl_version = ''SIP/2.0'', rl_onwire_method = ''OPTIONS'', rl_onwire_ruri = ''sip:h'',
     rl_onwire_version = ''SIP/2.0'',
     rl_ruri = Some \<lparr>uri_proto = ''sip'', uri_user = [], uri_password = [], uri_host = ''h'', uri_port = 0,
       uri_parameters = [], uri_headers = []\<rparr>, rl_method = USIPY_SIP_METHOD_OPTIONS\<rparr>"

lemma folded_free: "CR \<notin> set s \<Longrightarrow> folded s"
  by (auto simp: folded_def)

lemma sample_plain: "\<forall>tv\<in>set sample_hdrs. plain_hdr tv"
  by (auto simp: sample_hdrs_def plain_hdr_def plain_value_def trimmed_def hdr_table_eval
      USIPY_ISLWS_def USIPY_ISWS_def intro!: folded_free)

lemma short_written:
  assumes "1 \<le> ty" "ty \<le> 32"
  shows "short_name (hdr_text (ty, v))"
proof -
  let ?n = "he_name (usipy_hdr_db_byid ty)"
  have "usipy_str_split (hdr_text (ty, v)) CHR '':'' = Some (?n, CHR '' '' # v)"
    using header_name(1)[OF assms] by (simp add: hdr_text_def split_Some_iff)
  moreover have "list_all (\<lambda>i. length (he_name (usipy_hdr_db_byid i)) \<le> 32) [0..<42]"
    unfolding upt_all_headers by (simp add: hdr_table_eval)
  then have "length ?n \<le> 32" using assms unfolding list_all_iff by auto
  moreover have "usipy_str_trm_e ?n = ?n"
    using header_name(2,3)[OF assms] by (subst usipy_str_trm_e.simps) (auto simp: USIPY_ISLWS_def)
  ultimately show ?thesis by (simp add: short_name_def)
qed

lemma sample_message:
  "\<exists>rl. wire_message sample_wire = Some (''OPTIONS sip:h SIP/2.0'', USIPY_SIP_MSG_REQ, SL_request rl,
      map read_hdr sample_hdrs, ''v=0'') \<and> sline_size (SL_request rl) \<le> 200 \<and> rl_version rl = ''SIP/2.0''"
  "names_short sample_wire" "length sample_wire < 150"
proof -
  have w: "sline_writable USIPY_SIP_MSG_REQ (SL_request sample_rl)"
    by (simp add: sample_rl_def method_known_def uri_wf_def uri_text_def uri_tail_def tvs_ok_def ieq_refl)
  have t: "sline_text USIPY_SIP_MSG_REQ (SL_request sample_rl) = ''OPTIONS sip:h SIP/2.0''"
    by (simp add: sample_rl_def uri_text_def pct_s_def usipy_method_db_def)
  obtain p where p: "sline_of_text ''OPTIONS sip:h SIP/2.0'' = Some (USIPY_SIP_MSG_REQ, p)"
    "same_sline (SL_request sample_rl) p"
    using sline_of_sline_text(1)[OF w] unfolding t by blast
  have c: "cut_line ''OPTIONS sip:h SIP/2.0'' = None" by simp
  obtain rl where rl: "p = SL_request rl" using p(2) by (cases p) auto
  then have "sline_size p \<le> 200" "rl_version rl = ''SIP/2.0''"
    using p(2) by (auto simp: sample_rl_def uri_size_def up8_def split: option.splits)
  then show "\<exists>rl. wire_message sample_wire = Some (''OPTIONS sip:h SIP/2.0'', USIPY_SIP_MSG_REQ, SL_request rl,
      map read_hdr sample_hdrs, ''v=0'') \<and> sline_size (SL_request rl) \<le> 200 \<and> rl_version rl = ''SIP/2.0''"
    using wire_message_written[OF c p(1) _ sample_plain, of "''v=0''"] rl
    by (auto simp: sample_wire_def sample_hdrs_def)
  show "length sample_wire < 150"
    by (simp add: sample_wire_def sample_hdrs_def lines_text_def hdr_text_def hdr_table_eval)
  have "split_message sample_wire = Some (''OPTIONS sip:h SIP/2.0'', map hdr_text sample_hdrs, ''v=0'')"
    unfolding sample_wire_def by (rule split_message_text[OF c]) (use sample_plain header_line_written in \<open>auto simp: sample_hdrs_def\<close>)
  then show "names_short sample_wire"
    using short_written by (simp add: names_short_def sample_hdrs_def)
qed

lemma sample_read:
  "\<exists>m. usipy_sip_msg_init_fromwire 4096 4096 sample_wire = Some (Some m) \<and> m_body m = ''v=0'' \<and>
    map h_hf_type (m_hdrs m) = [USIPY_HF_FROM, USIPY_HF_TO, USIPY_HF_CALLID, USIPY_HF_CSEQ]"
proof -
  obtain p where p: "wire_message sample_wire =
      Some (''OPTIONS sip:h SIP/2.0'', USIPY_SIP_MSG_REQ, p, map read_hdr sample_hdrs, ''v=0'')" "sline_size p \<le> 200"
    using sample_message(1) by blast
  obtain r where r: "usipy_sip_msg_init_fromwire 4096 4096 sample_wire = Some r"
    "init_post sample_wire (4096 - length sample_wire - 230) r"
    using init_fromwire_refines[of 4096 4096 sample_wire, OF _ _ _ _ sample_message(2)] sample_message(3) by auto
  show ?thesis
  proof (cases r)
    case None
    then show ?thesis using r(2) p sample_message(3) by (auto simp: message_rejected_def sample_hdrs_def)
  next
    case (Some m)
    then have e: "m_hdrs m = map read_hdr sample_hdrs" "m_body m = ''v=0''"
      using r(2) p(1) by (simp_all add: message_of_def)
    then show ?thesis using r(1) Some by (simp add: sample_hdrs_def read_hdr_def)
  qed
qed

text \<open>
  C1: reading a message from the wire never fails an assertion and always ends. The message it
  returns is the text specification of the bytes received: the start line, every header with its
  folded lines and its list elements, the body, the mask of the types present. It returns none only
  when the text is malformed or its parsed form does not fit in the block. The names of the headers
  are at most 32 bytes long, as the header table expects.
\<close>

theorem message_from_wire:
  assumes "unat base + unat alloc_len < 2 ^ 64" "length buf + 300 \<le> unat alloc_len" "unat alloc_len \<le> 2 ^ 61"
    and "length buf < 2 ^ 56" "names_short buf"
  shows "\<exists>r. usipy_sip_msg_init_fromwire base alloc_len buf = Some r \<and>
    init_post buf (unat alloc_len - length buf - 230) r"
  using assms by (rule init_fromwire_refines)

lemma message_from_wire_witness:
  "\<exists>r. usipy_sip_msg_init_fromwire 4096 4096 sample_wire = Some r \<and>
    init_post sample_wire (4096 - length sample_wire - 230) r \<and> r \<noteq> None"
  using message_from_wire[of 4096 4096 sample_wire, OF _ _ _ _ sample_message(2)] sample_message(3) sample_read by auto

text \<open>
  C20: the loop over the lines of a message needs no more rounds than the message has bytes: with
  that much fuel it returns, and more fuel does not change what it returns.
\<close>

theorem wire_loop_terminates:
  assumes "block_ok hp0 ehp" "mark hp0 = 0" "names_short buf" "length buf < 2 ^ 56"
    and "wi_msg st = \<lparr>m_onwire = buf, m_body = [], m_kind = USIPY_SIP_MSG_REQ,
        m_sline = \<lparr>sln_onwire = [], sln_parsed = SL_none\<rparr>, m_hdrs = [], m_heap = hp0,
        m_present = 0, m_parsed = 0\<rparr>"
      "wi_mit st = break_init buf" "wi_cp st = 0" "wi_shp st = None"
  shows "\<exists>r. \<forall>fuel\<ge>length buf. wire_loop fuel ehp st = Some r"
proof -
  obtain r where "wire_loop (length buf) ehp st = Some r"
    using loop_from_start[OF assms(1-4) order.refl assms(5-8)] by blast
  then show ?thesis using wire_loop_fuel by blast
qed

lemma wire_loop_terminates_witness:
  "\<exists>r. \<forall>fuel\<ge>2. wire_loop fuel 1024
    \<lparr>wi_msg = \<lparr>m_onwire = CRLF, m_body = [], m_kind = USIPY_SIP_MSG_REQ,
        m_sline = \<lparr>sln_onwire = [], sln_parsed = SL_none\<rparr>, m_hdrs = [], m_heap = fresh_heap 1024,
        m_present = 0, m_parsed = 0\<rparr>, wi_mit = break_init CRLF, wi_cp = 0,
      wi_cnt = \<lparr>cnt_alen = 0, cnt_lastalen = 0\<rparr>, wi_shp = None, wi_table = 0\<rparr> = Some r"
proof -
  have "block_ok (fresh_heap 1024) 1024"
    using fresh_heap_ok[of 1024] fresh_heap_size[of 1024] by (simp add: block_ok_def) (simp add: fresh_heap_def)
  moreover have "names_short CRLF" by (simp add: names_short_def split_message_def)
  moreover have "\<And>n. Suc (Suc 0) \<le> n \<longleftrightarrow> 2 \<le> n" by auto
  ultimately show ?thesis
    using wire_loop_terminates[of "fresh_heap 1024" 1024 CRLF "\<lparr>wi_msg = \<lparr>m_onwire = CRLF, m_body = [],
        m_kind = USIPY_SIP_MSG_REQ, m_sline = \<lparr>sln_onwire = [], sln_parsed = SL_none\<rparr>, m_hdrs = [],
        m_heap = fresh_heap 1024, m_present = 0, m_parsed = 0\<rparr>, wi_mit = break_init CRLF, wi_cp = 0,
      wi_cnt = \<lparr>cnt_alen = 0, cnt_lastalen = 0\<rparr>, wi_shp = None, wi_table = 0\<rparr>"] fresh_heap_size[of 1024]
    by simp
qed

text \<open>
  C21: in every message read from the wire each header has one of the 33 full types (never a compact
  one), is marked as present, and its value is trimmed, breaks off only in folds, and is one element
  when the header takes a list.
\<close>

theorem read_headers_typed:
  assumes "unat base + unat alloc_len < 2 ^ 64" "length buf + 300 \<le> unat alloc_len" "unat alloc_len \<le> 2 ^ 61"
    and "length buf < 2 ^ 56" "names_short buf"
    and "usipy_sip_msg_init_fromwire base alloc_len buf = Some (Some m)"
  shows "\<forall>h\<in>set (m_hdrs m). h_hf_type h \<le> 32 \<and> hdr_cantype h = h_hf_type h \<and>
      USIPY_HF_ISMSET (m_present m) (h_hf_type h) \<and> plain_value (h_hf_type h) (h_value h)"
proof -
  have m: "message_of buf m" using init_fromwire_refines[OF assms(1-5)] assms(6) by auto
  then have "m_present m = present_mask (m_hdrs m)" by (simp add: message_of_def)
  then show ?thesis
    using message_of_plain(1)[OF m] by (auto simp: ismset_iff present_mask_types)
qed

lemma read_headers_typed_witness:
  "\<exists>m. usipy_sip_msg_init_fromwire 4096 4096 sample_wire = Some (Some m) \<and> m_hdrs m \<noteq> [] \<and>
    (\<forall>h\<in>set (m_hdrs m). USIPY_HF_ISMSET (m_present m) (h_hf_type h))"
proof -
  obtain m where mm: "usipy_sip_msg_init_fromwire 4096 4096 sample_wire = Some (Some m) \<and> m_body m = ''v=0'' \<and>
    map h_hf_type (m_hdrs m) = [USIPY_HF_FROM, USIPY_HF_TO, USIPY_HF_CALLID, USIPY_HF_CSEQ]"
    using sample_read ..
  note m = mm[THEN conjunct1] mm[THEN conjunct2, THEN conjunct2]
  have "\<forall>h\<in>set (m_hdrs m). h_hf_type h \<le> 32 \<and> hdr_cantype h = h_hf_type h \<and>
      USIPY_HF_ISMSET (m_present m) (h_hf_type h) \<and> plain_value (h_hf_type h) (h_value h)"
    by (rule read_headers_typed[OF _ _ _ _ sample_message(2) m(1)]) (use sample_message(3) in simp_all)
  moreover have "m_hdrs m \<noteq> []" using m(2) by auto
  ultimately show ?thesis using m(1) by blast
qed

subsection \<open>Headers parsed on demand\<close>

text \<open>
  C11: parsing the headers of the types asked for never fails an assertion. It changes nothing of the
  message but its heap, parsed forms and the mask; a header whose type is marked as parsed always
  has a parsed form, and one that was marked before is not parsed again. If it succeeds, all types
  asked for are present, the matches are exactly the headers asked for (each one, or the first of
  each type), in order, and all of them are parsed; if it fails, nothing is marked.
\<close>

theorem parse_hdrs_spec:
  assumes "msg_bounds m" "length stk < 2 ^ 56" "parsed_ok m"
  shows "\<exists>r. usipy_sip_msg_parse_hdrs_impl stk m pm toponly hdrslen = Some r \<and>
    parse_post m (mask_of pm) toponly (hdrslen \<noteq> None) r"
  using assms by (rule parse_hdrs_impl_spec)

definition sample_msg :: usipy_msg where
  "sample_msg = \<lparr>m_onwire = [], m_body = [], m_kind = USIPY_SIP_MSG_REQ,
     m_sline = \<lparr>sln_onwire = [], sln_parsed = SL_request sample_rl\<rparr>,
     m_hdrs = map read_hdr sample_hdrs, m_heap = fresh_heap 1024,
     m_present = present_mask (map read_hdr sample_hdrs), m_parsed = 0\<rparr>"

lemma sample_bounds: "msg_bounds sample_msg" "parsed_ok sample_msg"
  using fresh_heap_ok[of 1024]
  by (simp_all add: msg_bounds_def parsed_ok_def sample_msg_def sample_hdrs_def read_hdr_def hdr_table_eval mask_of_def)

lemma parse_hdrs_spec_witness:
  "\<exists>r. usipy_sip_msg_parse_hdrs_impl [] sample_msg (USIPY_HFT_MASK USIPY_HF_CSEQ) True (Some 1) = Some r \<and>
    parse_post sample_msg {USIPY_HF_CSEQ} True True r"
  using parse_hdrs_spec[OF sample_bounds(1) _ sample_bounds(2), of "[]" "USIPY_HFT_MASK USIPY_HF_CSEQ" True "Some 1"]
  by (simp add: mask_simps)

text \<open>
  C19: a transaction id that is computed is that of the top headers: the CSeq, the Call-ID, the
  branch of the first Via and the tag of the From header, with the hash over them; it does not
  depend on what the memory of the id held before.
\<close>

theorem transaction_id_spec:
  assumes "usipy_sip_msg_get_tid stk m tp = Some (Some tid, m')" "\<forall>h\<in>set (m_hdrs m'). hdr_cantype h < 64"
  shows "(\<forall>t\<in>tid_types. \<exists>h. first_hdr t (m_hdrs m') = Some h \<and> tid_field t h tid) \<and>
    tid_hash tid = usipy_sip_tid_hash tid \<and> usipy_sip_msg_get_tid stk m tp' = Some (Some tid, m')"
  using get_tid_spec[OF assms] get_tid_free[OF assms] by blast

definition tid_hdr_of :: "nat \<Rightarrow> usipy_sip_hdr_parsed \<Rightarrow> usipy_sip_hdr" where
  "tid_hdr_of ty p = (read_hdr (ty, []))\<lparr>h_parsed := p\<rparr>"

lemma transaction_id_spec_witness:
  "\<exists>m m' tid. m_hdrs m \<noteq> [] \<and> usipy_sip_msg_get_tid [] m
      \<lparr>tid_hash = 3, tid_call_id = ''x'', tid_from_tag = ''z'',
       tid_cseq = \<lparr>cseq_onwire_method = [], cseq_val = 0, cseq_method = 0\<rparr>, tid_vbranch = ''y''\<rparr> = Some (Some tid, m') \<and>
    tid_call_id tid = ''7'' \<and> tid_from_tag tid = ''t'' \<and> tid_vbranch tid = ''b''"
proof -
  let ?c = "\<lparr>cseq_onwire_method = ''ACK'', cseq_val = 1, cseq_method = 1\<rparr>"
  let ?hs = "[tid_hdr_of USIPY_HF_CALLID (P_generic ''7''), tid_hdr_of USIPY_HF_CSEQ (P_cseq ?c),
    tid_hdr_of USIPY_HF_FROM (P_nameaddr \<lparr>na_display_name = [], na_addr_spec = ''sip:a'',
      na_params = [\<lparr>tv_token = ''tag'', tv_value = ''t''\<rparr>]\<rparr>),
    tid_hdr_of USIPY_HF_VIA (P_via \<lparr>via_proto_name = [], via_proto_version = [],
      via_transport = [], via_host = [], via_port = 0, via_params = [\<lparr>tv_token = ''branch'', tv_value = ''b''\<rparr>]\<rparr>)]"
  let ?m = "sample_msg\<lparr>m_hdrs := ?hs, m_present := USIPY_HF_TID_MASK, m_parsed := USIPY_HF_TID_MASK\<rparr>"
  let ?tp = "\<lparr>tid_hash = 3, tid_call_id = ''x'', tid_from_tag = ''z'',
       tid_cseq = \<lparr>cseq_onwire_method = [], cseq_val = 0, cseq_method = 0\<rparr>, tid_vbranch = ''y''\<rparr>"
  have g: "\<exists>tid m'. usipy_sip_msg_get_tid [] ?m ?tp = Some (Some tid, m') \<and> m_hdrs m' = ?hs"
    by (simp add: usipy_sip_msg_get_tid_def usipy_sip_msg_parse_hdrs_def usipy_sip_msg_parse_hdrs_impl_def
        hdrs_round_def hdrs_match_def sample_msg_def tid_hdr_of_def tid_hdr_def read_hdr_def hdr_table_eval Let_def
        USIPY_HF_ISMSET_def USIPY_HFT_MASK_def USIPY_HF_TID_MASK_def)
  then obtain tid m' where t: "usipy_sip_msg_get_tid [] ?m ?tp = Some (Some tid, m')" "m_hdrs m' = ?hs" by blast
  have "\<forall>t\<in>tid_types. \<exists>h. first_hdr t ?hs = Some h \<and> tid_field t h tid"
    using transaction_id_spec[OF t(1)] unfolding t(2)
    by (simp add: tid_hdr_of_def read_hdr_def hdr_table_eval)
  then have "tid_call_id tid = ''7'' \<and> tid_from_tag tid = ''t'' \<and> tid_vbranch tid = ''b''"
    by (simp add: first_hdr_def tid_hdr_of_def read_hdr_def hdr_table_eval tid_field.simps)
  then show ?thesis using t(1) by (intro exI[of _ ?m] exI[of _ m'] exI[of _ tid]) simp
qed

subsection \<open>Messages and responses written\<close>

text \<open>
  C10: a message that is written stays within its buffer and is the start line, the headers with
  their built values (a Content-Length header last), the empty line and the body. When its values
  can stand in a header line, reading the text gives back the same start line, headers and body.
\<close>

theorem message_roundtrip:
  assumes "usipy_sip_msg_build_cb m len = Some (Some t)" "m_hdrs m \<noteq> []"
    and "sline_writable (m_kind m) (sln_parsed (m_sline m))"
  shows "\<exists>tvs p'. list_all2 hdr_written (ordered_hdrs (m_hdrs m)) tvs \<and> length t \<le> len \<and>
    t = sline_text (m_kind m) (sln_parsed (m_sline m)) @ CRLF @ lines_text (map hdr_text tvs) @ CRLF @ m_body m \<and>
    same_sline (sln_parsed (m_sline m)) p' \<and>
    (list_all plain_hdr tvs \<longrightarrow>
       wire_message t = Some (sline_text (m_kind m) (sln_parsed (m_sline m)), m_kind m, p', map read_hdr tvs, m_body m))"
  using assms by (rule build_read_back)

lemma message_roundtrip_witness:
  "\<exists>t. usipy_sip_msg_build_cb (sample_msg\<lparr>m_kind := USIPY_SIP_MSG_RES,
        m_sline := \<lparr>sln_onwire = [], sln_parsed = SL_status \<lparr>sl_version = ''SIP/2.0'', sl_status = usipy_sip_res_ok\<rparr>\<rparr>,
        m_hdrs := [tid_hdr_of USIPY_HF_CALLID (P_generic ''7'')]\<rparr>) 200 = Some (Some t) \<and>
     (\<exists>sl k p hs. wire_message t = Some (sl, k, p, hs, []) \<and> map h_hf_type hs = [USIPY_HF_CALLID])"
proof -
  let ?m = "sample_msg\<lparr>m_kind := USIPY_SIP_MSG_RES,
        m_sline := \<lparr>sln_onwire = [], sln_parsed = SL_status \<lparr>sl_version = ''SIP/2.0'', sl_status = usipy_sip_res_ok\<rparr>\<rparr>,
        m_hdrs := [tid_hdr_of USIPY_HF_CALLID (P_generic ''7'')]\<rparr>"
  have "\<exists>t. usipy_sip_msg_build_cb ?m 200 = Some (Some t)"
    by (simp add: usipy_sip_msg_build_cb_def usipy_sip_msg_build_sline_cb_def usipy_sip_msg_build_hdr_cb_def
        hdr_build_value_def usipy_sip_hdr_1token_build_def snprintf_at_def pct_s_def usipy_sip_res_ok_def
        usipy_strbuf_append_def sample_msg_def tid_hdr_of_def read_hdr_def hdr_table_eval Let_def dec.simps)
  then obtain t where t: "usipy_sip_msg_build_cb ?m 200 = Some (Some t)" by blast
  show ?thesis
  proof -
    have p: "m_hdrs ?m \<noteq> []" "sline_writable (m_kind ?m) (sln_parsed (m_sline ?m))" "m_body ?m = []"
      "ordered_hdrs (m_hdrs ?m) = [tid_hdr_of USIPY_HF_CALLID (P_generic ''7'')]"
      by (simp_all add: usipy_sip_res_ok_def ieq_refl sample_msg_def ordered_hdrs_def is_length_hdr_def last_length_def
          tid_hdr_of_def read_hdr_def hdr_table_eval)
    obtain tvs p' where m: "list_all2 hdr_written [tid_hdr_of USIPY_HF_CALLID (P_generic ''7'')] tvs"
      "list_all plain_hdr tvs \<Longrightarrow> wire_message t = Some (sline_text (m_kind ?m) (sln_parsed (m_sline ?m)), m_kind ?m, p', map read_hdr tvs, [])"
      using message_roundtrip[OF t p(1,2)] unfolding p(3,4) by blast
    then have "tvs = [(USIPY_HF_CALLID, ''7'')]"
      by (auto simp: list_all2_Cons1 hdr_written_def tid_hdr_of_def read_hdr_def hdr_table_eval hdr_build_value_def
          usipy_sip_hdr_1token_build_def build_simps bind_eq_Some_conv split: if_splits)
    then show ?thesis
      using t m(2) sample_plain by (auto simp: sample_hdrs_def read_hdr_def)
  qed
qed

text \<open>
  C18: the response to a request is built exactly when the request has its From, To, Call-ID and CSeq
  headers, the header array has room and the text fits; then the text is the status line, the
  headers taken over from the request (the tag added to To), and the library's own headers, and the
  header structures are those one reads from that text. In every other case no response is built,
  and nothing is written out of bounds.
\<close>

theorem response_build_spec:
  assumes "sln_parsed (m_sline reqp) = SL_request rl" "length (request_version rl) + 5 \<le> len"
  shows "usipy_sip_res_build_fromreq_tagged_sz server reqp slp tagp cap len = Some
    (let tvs = response_headers server reqp tagp;
         t = response_text (request_version rl) server reqp slp tagp in
     if {USIPY_HF_FROM, USIPY_HF_CALLID, USIPY_HF_TO, USIPY_HF_CSEQ} \<subseteq> hdr_cantype ` set (m_hdrs reqp) \<and>
        length tvs \<le> cap \<and> length t \<le> len
     then Some (t, \<lparr>sl_version = request_version rl, sl_status = slp\<rparr>, map read_hdr tvs) else None)"
  using assms by (rule build_fromreq_eq)

definition sample_reply :: string where
  "sample_reply = response_text ''SIP/2.0'' ''srv'' sample_msg usipy_sip_res_ok (Some ''1'')"

lemma sample_msg_sel:
  "sln_parsed (m_sline sample_msg) = SL_request sample_rl" "request_version sample_rl = ''SIP/2.0''"
  "m_hdrs sample_msg = map read_hdr sample_hdrs"
  by (simp_all add: sample_msg_def request_version_def sample_rl_def)

lemma sample_types: "hdr_cantype ` set (map read_hdr sample_hdrs) = {USIPY_HF_FROM, USIPY_HF_TO, USIPY_HF_CALLID, USIPY_HF_CSEQ}"
  by (simp add: sample_hdrs_def read_hdr_def hdr_table_eval)

lemma sample_response_headers: "response_headers ''srv'' sample_msg (Some ''1'') =
    [(USIPY_HF_FROM, ''<sip:a>''), (USIPY_HF_TO, ''<sip:b>;tag=1''), (USIPY_HF_CALLID, ''7''),
     (USIPY_HF_CSEQ, ''1 OPTIONS''), (USIPY_HF_SERVER, ''srv''), (USIPY_HF_CONTENTLENGTH, ''0'')]"
  by (simp add: response_headers_def sample_msg_sel sample_hdrs_def read_hdr_def hdr_table_eval res_value_def
      extra_of_def usipy_sip_res_init_append_hdrs_def)

lemma sample_reply_fits: "length sample_reply \<le> 2000"
  by (simp add: sample_reply_def response_text_def status_text_def sample_response_headers
    hdr_table_eval lines_text_def hdr_text_def usipy_sip_res_ok_def scode2str_def)

lemma response_build_spec_witness:
  "\<exists>sl hdrs. usipy_sip_res_build_fromreq_tagged_sz ''srv'' sample_msg usipy_sip_res_ok (Some ''1'') 20 2000 =
    Some (Some (sample_reply, sl, hdrs))"
  using response_build_spec[OF sample_msg_sel(1), of 2000 "''srv''" usipy_sip_res_ok "Some ''1''" 20] sample_reply_fits
    sample_types
  by (simp add: sample_msg_sel sample_response_headers sample_reply_def[symmetric] Let_def)

text \<open>
  C2: a response built from a request that was read from the wire can be read again: the text is a
  well-formed message with the same status line and exactly the headers of the response structure.
\<close>

theorem response_roundtrip:
  assumes "message_of s reqp" "sln_parsed (m_sline reqp) = SL_request rl"
    and "100 \<le> unat (st_code slp)" "unat (st_code slp) \<le> 999" "cut_line (st_reason_phrase slp) = None"
    and "plain_value USIPY_HF_SERVER server" "plain_tag (extra_of tagp)"
    and "length (request_version rl) + 5 \<le> len"
    and "usipy_sip_res_build_fromreq_tagged_sz server reqp slp tagp cap len = Some (Some (txt, sl, hdrs))"
  shows "wire_message txt = Some (status_text (sl_version sl) slp, USIPY_SIP_MSG_RES, SL_status sl, hdrs, [])"
  using assms by (rule response_read_back)

lemma response_roundtrip_witness:
  "\<exists>s m txt sl hdrs. message_of s m \<and>
     usipy_sip_res_build_fromreq_tagged_sz ''srv'' m usipy_sip_res_ok (Some ''1'') 20 2000 = Some (Some (txt, sl, hdrs)) \<and>
     wire_message txt = Some (''SIP/2.0 200 OK'', USIPY_SIP_MSG_RES, SL_status sl, hdrs, [])"
proof -
  obtain rl where rl: "wire_message sample_wire = Some (''OPTIONS sip:h SIP/2.0'', USIPY_SIP_MSG_REQ, SL_request rl,
      map read_hdr sample_hdrs, ''v=0'')" "rl_version rl = ''SIP/2.0''"
    using sample_message(1) by blast
  let ?m = "sample_msg\<lparr>m_onwire := sample_wire, m_body := ''v=0'',
     m_sline := \<lparr>sln_onwire = ''OPTIONS sip:h SIP/2.0'', sln_parsed = SL_request rl\<rparr>\<rparr>"
  have m: "message_of sample_wire ?m"
    using rl(1) fresh_heap_ok[of 1024] by (simp add: message_of_def sample_msg_def)
  have v: "request_version rl = ''SIP/2.0''" by (simp add: request_version_def rl(2))
  have hs: "response_headers ''srv'' ?m (Some ''1'') = response_headers ''srv'' sample_msg (Some ''1'')"
    "m_hdrs ?m = map read_hdr sample_hdrs"
    by (simp_all add: response_headers_def sample_msg_sel)
  have b: "usipy_sip_res_build_fromreq_tagged_sz ''srv'' ?m usipy_sip_res_ok (Some ''1'') 20 2000 =
    Some (Some (sample_reply, \<lparr>sl_version = ''SIP/2.0'', sl_status = usipy_sip_res_ok\<rparr>,
      map read_hdr (response_headers ''srv'' sample_msg (Some ''1''))))"
    using build_fromreq_eq[of ?m rl 2000 "''srv''" usipy_sip_res_ok "Some ''1''" 20] sample_reply_fits sample_types
    by (simp add: hs v response_text_def sample_reply_def sample_response_headers Let_def)
  have "wire_message sample_reply = Some (status_text ''SIP/2.0'' usipy_sip_res_ok, USIPY_SIP_MSG_RES,
      SL_status \<lparr>sl_version = ''SIP/2.0'', sl_status = usipy_sip_res_ok\<rparr>,
      map read_hdr (response_headers ''srv'' sample_msg (Some ''1'')), [])"
    using response_roundtrip[OF m _ _ _ _ _ _ _ b, of rl] v
    by (simp add: usipy_sip_res_ok_def plain_value_def trimmed_def plain_tag_def extra_of_def folded_free hdr_table_eval
        USIPY_ISLWS_def USIPY_ISWS_def)
  moreover have "status_text ''SIP/2.0'' usipy_sip_res_ok = ''SIP/2.0 200 OK''"
    by (simp add: status_text_def usipy_sip_res_ok_def scode2str_def char_of_def bit_iff_odd)
  ultimately show ?thesis
    by (intro exI[of _ sample_wire] exI[of _ ?m] exI[of _ sample_reply]
      exI[of _ "\<lparr>sl_version = ''SIP/2.0'', sl_status = usipy_sip_res_ok\<rparr>"]
      exI[of _ "map read_hdr (response_headers ''srv'' sample_msg (Some ''1''))"] conjI m b) simp
qed

end
