(* ===== verification/Usipy_Tmtypes.thy ===== *)
theory Usipy_Tmtypes
  imports Usipy_Msgops Usipy_Res
begin

unbundle bit_operations_syntax

text \<open>
  The data of the transaction manager (\<open>public/usipy_sip_tm.h\<close>, \<open>usipy_sip_tm_priv.h\<close>,
  \<open>usipy_sip_tm_internal.h\<close>) and the steps its operations are made of.

  \<^item> A transaction slot is one record: the nested structures \<open>pub\<close>, \<open>pub.common\<close> and \<open>cache\<close> are
    laid flat; \<open>outbound.pub\<close> and its copy \<open>pub.common.outbound\<close> stay apart, as the code keeps both.
  \<^item> A string a slot keeps below its outbound checkpoint is its text: nothing overwrites it while
    the slot is active. What lies above the checkpoint is wiped and written anew, so those strings
    (the message to send, the branch and tag of a client transaction) are slices of the scratch heap.
  \<^item> Indices of slots are naturals, \<open>USIPY_SIP_TM_TX_INDEX_NONE\<close> is \<open>None\<close>; a function pointer or an
    opaque \<open>arg\<close> is a number, the null pointer \<open>None\<close>.
  \<^item> What the application behind the callbacks keeps is the field \<open>tm_app\<close>. The callbacks
    themselves are parameters, functions on the whole state: they may call back into the manager.
    \<open>send_to\<close> gets constant structures and hands a datagram to the network: it changes \<open>tm_app\<close> only.
\<close>

subsection \<open>Enumerations\<close>

datatype usipy_sip_tm_role = USIPY_SIP_TM_ROLE_UAC | USIPY_SIP_TM_ROLE_UAS

datatype usipy_sip_tm_state =
    USIPY_SIP_TM_STATE_NULL
  | USIPY_SIP_TM_STATE_CALLING
  | USIPY_SIP_TM_STATE_TRYING
  | USIPY_SIP_TM_STATE_PROCEEDING
  | USIPY_SIP_TM_STATE_COMPLETED
  | USIPY_SIP_TM_STATE_CONFIRMED
  | USIPY_SIP_TM_STATE_TERMINATED
  | USIPY_SIP_TM_STATE_ACCEPTED

datatype usipy_sip_tm_transport =
    USIPY_SIP_TM_TRANSPORT_UNSPEC
  | USIPY_SIP_TM_TRANSPORT_UDP
  | USIPY_SIP_TM_TRANSPORT_TCP
  | USIPY_SIP_TM_TRANSPORT_TLS
  | USIPY_SIP_TM_TRANSPORT_SCTP

datatype usipy_sip_tm_match_kind =
    USIPY_SIP_TM_MATCH_NONE
  | USIPY_SIP_TM_MATCH_EXISTING
  | USIPY_SIP_TM_MATCH_NEW

datatype usipy_sip_tm_event =
    USIPY_SIP_TM_EVENT_NONE
  | USIPY_SIP_TM_EVENT_REQUEST_RX
  | USIPY_SIP_TM_EVENT_REQUEST_RETRANSMIT
  | USIPY_SIP_TM_EVENT_ACK_RX
  | USIPY_SIP_TM_EVENT_RESPONSE_1XX
  | USIPY_SIP_TM_EVENT_RESPONSE_FINAL
  | USIPY_SIP_TM_EVENT_RETRANSMIT_DUE
  | USIPY_SIP_TM_EVENT_TIMEOUT
  | USIPY_SIP_TM_EVENT_TERMINATED

datatype usipy_sip_tm_uac_timeout_id =
    USIPY_SIP_TM_TIMEOUT_NONE
  | USIPY_SIP_TM_TIMEOUT_PR
  | USIPY_SIP_TM_TIMEOUT_FR

datatype usipy_sip_tm_timer_kind =
    USIPY_SIP_TM_TIMER_NONE
  | USIPY_SIP_TM_TIMER_A
  | USIPY_SIP_TM_TIMER_B
  | USIPY_SIP_TM_TIMER_D
  | USIPY_SIP_TM_TIMER_E
  | USIPY_SIP_TM_TIMER_F
  | USIPY_SIP_TM_TIMER_H
  | USIPY_SIP_TM_TIMER_I
  | USIPY_SIP_TM_TIMER_J
  | USIPY_SIP_TM_TIMER_K
  | USIPY_SIP_TM_TIMER_L

datatype usipy_sip_tm_invite_cancel_state =
    USIPY_SIP_TM_INVITE_CANCEL_NONE
  | USIPY_SIP_TM_INVITE_CANCEL_SCHEDULED
  | USIPY_SIP_TM_INVITE_CANCEL_ONWIRE

datatype address_family = AF_UNSPEC | AF_INET | AF_INET6 | AF_OTHER

text \<open>Times are milliseconds on 64 bits.\<close>

type_synonym time_ms = "64 word"

abbreviation (input) USIPY_SIP_TM_TIME_NONE :: time_ms where "USIPY_SIP_TM_TIME_NONE \<equiv> - 1"

abbreviation (input) USIPY_SIP_TM_F_RELIABLE_TRANSPORT :: uint32 where "USIPY_SIP_TM_F_RELIABLE_TRANSPORT \<equiv> 1"
abbreviation (input) USIPY_SIP_TM_F_TERMINATED :: uint32 where "USIPY_SIP_TM_F_TERMINATED \<equiv> 2"
abbreviation (input) USIPY_SIP_TM_F_ABANDONED :: uint32 where "USIPY_SIP_TM_F_ABANDONED \<equiv> 4"
abbreviation (input) USIPY_SIP_TM_F_ACKED :: uint32 where "USIPY_SIP_TM_F_ACKED \<equiv> 8"

definition has_flag :: "uint32 \<Rightarrow> uint32 \<Rightarrow> bool" where
  "has_flag flags f \<longleftrightarrow> flags AND f \<noteq> 0"

subsection \<open>Strings of a slot\<close>

datatype string_ref = Kept string | Scratch slice

fun ref_text :: "usipy_msg_heap \<Rightarrow> string_ref \<Rightarrow> string" where
  "ref_text hp (Kept s) = s"
| "ref_text hp (Scratch sl) = slice_read hp sl"

text \<open>The member \<open>l\<close> of the string.\<close>

fun ref_len :: "string_ref \<Rightarrow> nat" where
  "ref_len (Kept s) = length s"
| "ref_len (Scratch sl) = unat (snd sl)"

abbreviation (input) slice_null :: slice where "slice_null \<equiv> (0, 0)"

subsection \<open>Structures\<close>

record usipy_sip_tm_addr =
  ad_af :: address_family
  ad_port :: "16 word"
  ad_transport :: usipy_sip_tm_transport
  ad_host :: string

definition addr_zero :: usipy_sip_tm_addr where
  "addr_zero = \<lparr>ad_af = AF_UNSPEC, ad_port = 0, ad_transport = USIPY_SIP_TM_TRANSPORT_UNSPEC, ad_host = []\<rparr>"

record usipy_sip_tm_id =
  id_hash :: uint32
  id_branch :: string_ref
  id_call_id :: string
  id_from_tag :: string_ref
  id_cseq :: uint32
  id_method_type :: nat

record usipy_sip_tm_timer_policy =
  t1_ms :: uint32
  t2_ms :: uint32
  t4_ms :: uint32
  timer_a_ms :: uint32
  timer_b_ms :: uint32
  timer_d_ms :: uint32
  timer_e_ms :: uint32
  timer_f_ms :: uint32
  timer_j_ms :: uint32
  timer_k_ms :: uint32
  timer_l_ms :: uint32

definition policy_zero :: usipy_sip_tm_timer_policy where
  "policy_zero = \<lparr>t1_ms = 0, t2_ms = 0, t4_ms = 0, timer_a_ms = 0, timer_b_ms = 0, timer_d_ms = 0,
     timer_e_ms = 0, timer_f_ms = 0, timer_j_ms = 0, timer_k_ms = 0, timer_l_ms = 0\<rparr>"

definition USIPY_SIP_TM_TIMER_POLICY_RFC3261 :: usipy_sip_tm_timer_policy where
  "USIPY_SIP_TM_TIMER_POLICY_RFC3261 = policy_zero\<lparr>t1_ms := 500, t2_ms := 4000, t4_ms := 5000\<rparr>"

record usipy_sip_tm_timer =
  tmr_type :: usipy_sip_tm_timer_kind
  tmr_value_ms :: uint32
  tmr_due_at_ms :: time_ms

record usipy_sip_tm_outbound =
  ob_target :: usipy_sip_tm_addr
  ob_raw :: slice
  ob_next_send_at_ms :: time_ms

record usipy_sip_tm_uac_callbacks =
  ucb_arg :: nat
  ucb_response :: "nat option"
  ucb_timeout :: "nat option"

record usipy_sip_tm_uas_callbacks =
  scb_arg :: "nat option"
  scb_cancel :: "nat option"
  scb_no_ack :: "nat option"

definition uac_callbacks_zero :: usipy_sip_tm_uac_callbacks where
  "uac_callbacks_zero = \<lparr>ucb_arg = 0, ucb_response = None, ucb_timeout = None\<rparr>"

definition uas_callbacks_zero :: usipy_sip_tm_uas_callbacks where
  "uas_callbacks_zero = \<lparr>scb_arg = None, scb_cancel = None, scb_no_ack = None\<rparr>"

record usipy_sip_tm_uac_cache =
  cc_request_uri :: "usipy_sip_uri option"
  cc_from_uri :: string
  cc_to_uri :: string
  cc_contact_uri :: string
  cc_routes :: "string list"
  cc_contact_expires :: uint32
  cc_invite_expires :: uint32
  cc_include_contact :: bool

text \<open>
  \<open>to_uri\<close> is \<open>None\<close> where the code points past the end of the text it kept of the To header.
\<close>

record usipy_sip_tm_uas_cache =
  sc_from :: string
  sc_to :: string
  sc_request_uri :: string
  sc_from_uri :: string
  sc_to_uri :: "string option"
  sc_contact_uri :: string
  sc_local_contact_uri :: string
  sc_vias :: "string list"
  sc_record_routes :: "string list"
  sc_ack_hash :: uint32
  sc_cancel_hash :: uint32

record usipy_sip_tm_uac_invite =
  inv_timeout_at_ms :: time_ms
  inv_provisional_seen :: bool
  inv_cancel_state :: usipy_sip_tm_invite_cancel_state
  inv_timeout_id :: usipy_sip_tm_uac_timeout_id
  inv_bye_started :: bool
  inv_app_cancelled :: bool

text \<open>
  The second byte of \<open>role_data\<close> is \<open>response_class\<close> of a client and \<open>request_retransmits\<close> of a
  server; the status code lies at the same place for both.
\<close>

record usipy_sip_tm_txi =
  x_role :: usipy_sip_tm_role
  x_state :: usipy_sip_tm_state
  x_flags :: uint32
  x_id :: usipy_sip_tm_id
  x_peer :: usipy_sip_tm_addr
  x_local :: usipy_sip_tm_addr
  x_pub_outbound :: usipy_sip_tm_outbound
  x_retransmit_count :: "8 word"
  x_created_at_ms :: time_ms
  x_updated_at_ms :: time_ms
  x_timer :: usipy_sip_tm_timer
  x_timers :: usipy_sip_tm_timer_policy
  x_last_status_code :: "16 word"
  x_role_byte :: "8 word"
  x_call_id :: string
  x_branch :: string_ref
  x_from_tag :: string_ref
  x_to_tag :: string
  x_cseq :: usipy_sip_hdr_cseq
  x_method_type :: nat
  x_uac :: usipy_sip_tm_uac_cache
  x_uas :: usipy_sip_tm_uas_cache
  x_callbacks :: usipy_sip_tm_uac_callbacks
  x_uas_callbacks :: usipy_sip_tm_uas_callbacks
  x_uas_owner :: "nat option"
  x_checkpoint :: size_t
  x_outbound :: usipy_sip_tm_outbound
  x_scratch :: usipy_msg_heap
  x_parent_index :: "nat option"
  x_child_index :: "nat option"
  x_invite :: "usipy_sip_tm_uac_invite option"
  x_scratch_buf :: "64 word"
  x_scratch_capacity :: size_t
  x_final_reported :: bool
  x_active :: bool

record 'a usipy_sip_tm =
  tm_transport :: usipy_sip_tm_transport
  tm_nactive :: nat
  tm_heap :: usipy_msg_heap
  tm_laddr :: usipy_sip_tm_addr
  tm_luri :: string
  tm_default_via :: usipy_sip_hdr_via
  tm_default_from :: usipy_sip_hdr_nameaddr
  tm_default_to :: usipy_sip_hdr_nameaddr
  tm_default_contact :: usipy_sip_hdr_nameaddr
  tm_incoming_request :: "nat option"
  tm_callbacks_arg :: nat
  tm_id_policy :: "nat option"
  tm_id_policy_arg :: nat
  tm_transactions :: "usipy_sip_tm_txi list"
  tm_app :: 'a

abbreviation txn :: "'a usipy_sip_tm \<Rightarrow> nat \<Rightarrow> usipy_sip_tm_txi" where
  "txn tm i \<equiv> tm_transactions tm ! i"

abbreviation max_transactions :: "'a usipy_sip_tm \<Rightarrow> nat" where
  "max_transactions tm \<equiv> length (tm_transactions tm)"

definition upd :: "nat \<Rightarrow> (usipy_sip_tm_txi \<Rightarrow> usipy_sip_tm_txi) \<Rightarrow> 'a usipy_sip_tm \<Rightarrow> 'a usipy_sip_tm" where
  "upd i f tm = tm\<lparr>tm_transactions := (tm_transactions tm)[i := f (txn tm i)]\<rparr>"

subsection \<open>Parameters of the operations\<close>

record usipy_sip_tm_id_policy_in =
  ipi_transaction_index :: nat
  ipi_cseq :: uint32
  ipi_method_type :: nat

record usipy_sip_tm_id_policy_out =
  ipo_branch :: string_ref
  ipo_call_id :: string_ref
  ipo_local_tag :: string_ref

definition ids_zero :: usipy_sip_tm_id_policy_out where
  "ids_zero = \<lparr>ipo_branch = Kept [], ipo_call_id = Kept [], ipo_local_tag = Kept []\<rparr>"

abbreviation (input) USIPY_SIP_TM_EH_RAW :: nat where "USIPY_SIP_TM_EH_RAW \<equiv> 0"
abbreviation (input) USIPY_SIP_TM_EH_PARSED :: nat where "USIPY_SIP_TM_EH_PARSED \<equiv> 1"

record usipy_sip_tm_extra_header =
  eh_hf_type :: nat
  eh_value_kind :: nat
  eh_value :: "string option"
  eh_parsed :: "usipy_sip_hdr_authz option"

record usipy_sip_tm_new_uas_tr_params =
  nus_request :: usipy_msg
  nus_timers :: "usipy_sip_tm_timer_policy option"
  nus_peer :: usipy_sip_tm_addr
  nus_local :: usipy_sip_tm_addr
  nus_callbacks :: "usipy_sip_tm_uas_callbacks option"

record usipy_sip_tm_uas_response_params =
  urp_status :: usipy_sip_status
  urp_content_type :: "string option"
  urp_body :: "string option"
  urp_extra_headers :: "usipy_sip_tm_extra_header list"
  urp_callbacks :: "usipy_sip_tm_uas_callbacks option"

record usipy_sip_tm_handle_incoming_in =
  hin_now_ms :: time_ms
  hin_timers :: "usipy_sip_tm_timer_policy option"
  hin_peer :: usipy_sip_tm_addr
  hin_local :: usipy_sip_tm_addr
  hin_buf :: string

record usipy_sip_tm_handle_incoming_out =
  hout_error :: usipy_sip_tm_error
  hout_consumed :: bool
  hout_match_kind :: usipy_sip_tm_match_kind
  hout_event :: usipy_sip_tm_event
  hout_transaction_index :: "nat option"

record usipy_sip_tm_run_out =
  ro_error :: int
  ro_next_run_at_ms :: time_ms
  ro_nsent :: nat
  ro_ntimeouts :: int

text \<open>
  The platform and the callbacks. \<open>ev_stk\<close> and \<open>ev_tid0\<close> are what uninitialised variables hold
  before they are filled in.
\<close>

record 'a tm_env =
  ev_stk :: string
  ev_tid0 :: usipy_sip_tid
  ev_server :: string
  ev_user_agent :: string
  ev_default_udp_port :: "16 word"
  ev_id_policy :: "nat \<Rightarrow> nat \<Rightarrow> usipy_msg_heap \<Rightarrow> usipy_sip_tm_id_policy_in \<Rightarrow>
    usipy_sip_tm_id_policy_out option \<times> usipy_msg_heap"
  ev_send_to :: "nat \<Rightarrow> usipy_sip_tm_addr \<Rightarrow> string \<Rightarrow> 'a \<Rightarrow> int \<times> 'a"
  ev_uac_response :: "nat \<Rightarrow> nat \<Rightarrow> nat \<Rightarrow> usipy_msg \<Rightarrow> 'a usipy_sip_tm \<Rightarrow> 'a usipy_sip_tm abortable"
  ev_uac_timeout :: "nat \<Rightarrow> nat \<Rightarrow> nat \<Rightarrow> usipy_sip_tm_uac_timeout_id \<Rightarrow> 'a usipy_sip_tm \<Rightarrow>
    'a usipy_sip_tm abortable"
  ev_uas_cancel :: "nat \<Rightarrow> nat option \<Rightarrow> nat \<Rightarrow> usipy_msg \<Rightarrow> 'a usipy_sip_tm \<Rightarrow> 'a usipy_sip_tm abortable"
  ev_uas_no_ack :: "nat \<Rightarrow> nat option \<Rightarrow> nat \<Rightarrow> 'a usipy_sip_tm \<Rightarrow> (int \<times> 'a usipy_sip_tm) abortable"
  ev_incoming_request :: "nat \<Rightarrow> nat \<Rightarrow> usipy_sip_tm_handle_incoming_in \<Rightarrow> usipy_msg \<Rightarrow>
    'a usipy_sip_tm \<Rightarrow> 'a usipy_sip_tm abortable"
  ev_owner_sent :: "nat \<Rightarrow> time_ms \<Rightarrow> 'a usipy_sip_tm \<Rightarrow> 'a usipy_sip_tm abortable"
  ev_owner_acked :: "nat \<Rightarrow> 'a usipy_sip_tm \<Rightarrow> 'a usipy_sip_tm abortable"
  ev_owner_timeout :: "nat \<Rightarrow> 'a usipy_sip_tm \<Rightarrow> (int \<times> 'a usipy_sip_tm) abortable"

text \<open>The numeric value of an error, for the results that mix them with those of \<open>send_to\<close>.\<close>

fun tm_code :: "usipy_sip_tm_error \<Rightarrow> int" where
  "tm_code USIPY_SIP_TM_OK = 0"
| "tm_code USIPY_SIP_TM_ERR_PARSE = - 1"
| "tm_code USIPY_SIP_TM_ERR_BADMSG = - 2"
| "tm_code USIPY_SIP_TM_ERR_NOT_FOUND = - 3"
| "tm_code USIPY_SIP_TM_ERR_UNSUPPORTED = - 4"
| "tm_code USIPY_SIP_TM_ERR_INVAL = - 5"
| "tm_code USIPY_SIP_TM_ERR_NOMEM = - 6"
| "tm_code USIPY_SIP_TM_ERR_NOSPC = - 7"

subsection \<open>Steps on a slot\<close>

text \<open>
  A step on a slot that may fail. The chains of heap operations stop at the first that fails; a
  \<open>-1\<close> of a helper whose callers all answer \<open>USIPY_SIP_TM_ERR_NOSPC\<close> is that error here.
\<close>

type_synonym tx_act = "usipy_sip_tm_txi \<Rightarrow> (usipy_sip_tm_error \<times> usipy_sip_tm_txi) abortable"

fun acts :: "tx_act list \<Rightarrow> tx_act" where
  "acts [] t = Some (USIPY_SIP_TM_OK, t)"
| "acts (a # as) t = do {
     (r, t) \<leftarrow> a t;
     if r \<noteq> USIPY_SIP_TM_OK then Some (r, t) else acts as t
   }"

text \<open>
  \<open>usipy_msg_heap_append\<close> and \<open>usipy_msg_heap_sprintf\<close> into the scratch heap of the slot. A string is
  a C object: it fits in the 56 bits of address space a machine has at most, and an execution with a
  longer one does not exist.
\<close>

definition c_object :: "string \<Rightarrow> bool" where
  "c_object s \<longleftrightarrow> length s < 2 ^ 56"

definition act_keep :: "string \<Rightarrow> (string \<Rightarrow> usipy_sip_tm_txi \<Rightarrow> usipy_sip_tm_txi) \<Rightarrow> tx_act" where
  "act_keep s put t = do {
     dassert (c_object s);
     case usipy_msg_heap_append (x_scratch t) s of
       (None, h) \<Rightarrow> Some (USIPY_SIP_TM_ERR_NOSPC, t\<lparr>x_scratch := h\<rparr>)
     | (Some sl, h) \<Rightarrow> Some (USIPY_SIP_TM_OK, put (slice_read h sl) (t\<lparr>x_scratch := h\<rparr>))
   }"

definition act_printf :: "string \<Rightarrow> (slice \<Rightarrow> usipy_sip_tm_txi \<Rightarrow> usipy_sip_tm_txi) \<Rightarrow> tx_act" where
  "act_printf s put t = do {
     dassert (c_object s);
     case usipy_msg_heap_sprintf (x_scratch t) s of
       (None, h) \<Rightarrow> Some (USIPY_SIP_TM_ERR_NOSPC, t\<lparr>x_scratch := h\<rparr>)
     | (Some sl, h) \<Rightarrow> Some (USIPY_SIP_TM_OK, put sl (t\<lparr>x_scratch := h\<rparr>))
   }"

text \<open>\<open>usipy_msg_heap_alloc\<close> of a block whose contents the model keeps as a value.\<close>

definition act_alloc :: "size_t \<Rightarrow> tx_act" where
  "act_alloc n t =
     (case usipy_msg_heap_alloc (x_scratch t) n of
        (None, h) \<Rightarrow> Some (USIPY_SIP_TM_ERR_NOSPC, t\<lparr>x_scratch := h\<rparr>)
      | (Some _, h) \<Rightarrow> Some (USIPY_SIP_TM_OK, t\<lparr>x_scratch := h\<rparr>))"

definition act_set :: "(usipy_sip_tm_txi \<Rightarrow> usipy_sip_tm_txi) \<Rightarrow> tx_act" where
  "act_set f t = Some (USIPY_SIP_TM_OK, f t)"

text \<open>A step run on the slot of a manager.\<close>

definition run_act :: "nat \<Rightarrow> tx_act \<Rightarrow> 'a usipy_sip_tm \<Rightarrow> (usipy_sip_tm_error \<times> 'a usipy_sip_tm) abortable" where
  "run_act i a tm = map_option (\<lambda>(r, t). (r, upd i (\<lambda>_. t) tm)) (a (txn tm i))"

text \<open>\<open>tp->pub.common.outbound = tp->outbound.pub\<close>\<close>

definition sync_outbound :: "usipy_sip_tm_txi \<Rightarrow> usipy_sip_tm_txi" where
  "sync_outbound t = t\<lparr>x_pub_outbound := x_outbound t\<rparr>"

definition set_next_send :: "time_ms \<Rightarrow> usipy_sip_tm_txi \<Rightarrow> usipy_sip_tm_txi" where
  "set_next_send w t = t\<lparr>x_outbound := (x_outbound t)\<lparr>ob_next_send_at_ms := w\<rparr>\<rparr>"

definition set_timer :: "usipy_sip_tm_timer_kind \<Rightarrow> uint32 \<Rightarrow> time_ms \<Rightarrow> usipy_sip_tm_txi \<Rightarrow> usipy_sip_tm_txi" where
  "set_timer k v due t = t\<lparr>x_timer := \<lparr>tmr_type = k, tmr_value_ms = v, tmr_due_at_ms = due\<rparr>\<rparr>"

definition stop_timer :: "usipy_sip_tm_txi \<Rightarrow> usipy_sip_tm_txi" where
  "stop_timer t = t\<lparr>x_timer := (x_timer t)\<lparr>tmr_type := USIPY_SIP_TM_TIMER_NONE\<rparr>\<rparr>"

definition raise_flag :: "uint32 \<Rightarrow> usipy_sip_tm_txi \<Rightarrow> usipy_sip_tm_txi" where
  "raise_flag f t = t\<lparr>x_flags := x_flags t OR f\<rparr>"

definition drop_flag :: "uint32 \<Rightarrow> usipy_sip_tm_txi \<Rightarrow> usipy_sip_tm_txi" where
  "drop_flag f t = t\<lparr>x_flags := x_flags t AND NOT f\<rparr>"

abbreviation reliable :: "usipy_sip_tm_txi \<Rightarrow> bool" where
  "reliable t \<equiv> has_flag (x_flags t) USIPY_SIP_TM_F_RELIABLE_TRANSPORT"

named_theorems tm_steps \<open>the elementary changes of a slot\<close>

declare sync_outbound_def [tm_steps] set_next_send_def [tm_steps] set_timer_def [tm_steps]
  stop_timer_def [tm_steps] raise_flag_def [tm_steps] drop_flag_def [tm_steps]

lemma txn_upd [simp]: "i < max_transactions tm \<Longrightarrow> txn (upd i f tm) j = (if i = j then f (txn tm i) else txn tm j)"
  by (simp add: upd_def)

lemma max_upd [simp]: "max_transactions (upd i f tm) = max_transactions tm"
  by (simp add: upd_def)

lemma upd_sel [simp]:
  "tm_nactive (upd i f tm) = tm_nactive tm" "tm_app (upd i f tm) = tm_app tm"
  "tm_transport (upd i f tm) = tm_transport tm" "tm_luri (upd i f tm) = tm_luri tm"
  "tm_laddr (upd i f tm) = tm_laddr tm" "tm_incoming_request (upd i f tm) = tm_incoming_request tm"
  "tm_callbacks_arg (upd i f tm) = tm_callbacks_arg tm" "tm_id_policy (upd i f tm) = tm_id_policy tm"
  "tm_id_policy_arg (upd i f tm) = tm_id_policy_arg tm"
  by (simp_all add: upd_def)

lemma upd_upd [simp]: "i < max_transactions tm \<Longrightarrow> upd i f (upd i g tm) = upd i (\<lambda>t. f (g t)) tm"
  by (simp add: upd_def)

lemma flag_raised: "has_flag (a OR b) f \<longleftrightarrow> has_flag a f \<or> has_flag b f"
  by (auto simp: has_flag_def bit_eq_iff bit_simps)

end
