(* ===== verification/Usipy_Tm.thy ===== *)
theory Usipy_Tm
  imports Usipy_Tmtypes
begin

unbundle bit_operations_syntax

text \<open>
  Component \<open>usipy_sip_tm\<close> (\<open>src/usipy_sip_tm.c\<close>, \<open>usipy_sip_tm_utils.c\<close>): the table of transaction
  slots, its construction, the allocation of a slot with eviction, dropping a transaction with its
  children, the timer policy and the match of a transaction id.
\<close>

abbreviation (input) USIPY_SIP_TM_HEAP_SIZE :: nat where "USIPY_SIP_TM_HEAP_SIZE \<equiv> 512"
abbreviation (input) USIPY_SIP_TM_TX_SCRATCH_SIZE :: nat where "USIPY_SIP_TM_TX_SCRATCH_SIZE \<equiv> 4096"
abbreviation (input) USIPY_SIP_TM_TX_NCHECKPOINTS :: size_t where "USIPY_SIP_TM_TX_NCHECKPOINTS \<equiv> 2"

text \<open>On LP64 a manager takes 528 bytes and a slot 792.\<close>

abbreviation (input) sizeof_usipy_sip_tm :: nat where "sizeof_usipy_sip_tm \<equiv> 528"
abbreviation (input) sizeof_usipy_sip_tm_txi :: nat where "sizeof_usipy_sip_tm_txi \<equiv> 792"
abbreviation (input) SIZE_MAX :: nat where "SIZE_MAX \<equiv> 2 ^ 64 - 1"

definition usipy_sip_tm_ctor_size :: "nat \<Rightarrow> nat abortable" where
  "usipy_sip_tm_ctor_size n = do {
     dassert (n > 0);
     dassert (n \<le> SIZE_MAX div sizeof_usipy_sip_tm_txi);
     let txs_size = sizeof_usipy_sip_tm_txi * n;
     dassert (n \<le> SIZE_MAX div USIPY_SIP_TM_TX_SCRATCH_SIZE);
     let scratch_size = USIPY_SIP_TM_TX_SCRATCH_SIZE * n;
     dassert (sizeof_usipy_sip_tm \<le> SIZE_MAX - txs_size);
     let total_size = sizeof_usipy_sip_tm + txs_size;
     dassert (total_size \<le> SIZE_MAX - USIPY_SIP_TM_HEAP_SIZE);
     let total_size = total_size + USIPY_SIP_TM_HEAP_SIZE;
     dassert (total_size \<le> SIZE_MAX - scratch_size);
     Some (total_size + scratch_size)
   }"

definition usipy_sip_tm_transport_name :: "usipy_sip_tm_transport \<Rightarrow> string abortable" where
  "usipy_sip_tm_transport_name transport =
     (case transport of
        USIPY_SIP_TM_TRANSPORT_UDP \<Rightarrow> Some ''UDP''
      | USIPY_SIP_TM_TRANSPORT_TCP \<Rightarrow> Some ''TCP''
      | USIPY_SIP_TM_TRANSPORT_TLS \<Rightarrow> Some ''TLS''
      | USIPY_SIP_TM_TRANSPORT_SCTP \<Rightarrow> Some ''SCTP''
      | USIPY_SIP_TM_TRANSPORT_UNSPEC \<Rightarrow> None)"

subsection \<open>Slots\<close>

text \<open>A slot with every field cleared, over its scratch buffer and the heap made of it.\<close>

definition slot_zero :: "64 word \<Rightarrow> size_t \<Rightarrow> usipy_msg_heap \<Rightarrow> usipy_sip_tm_txi" where
  "slot_zero buf capacity scratch =
     (let ob = \<lparr>ob_target = addr_zero, ob_raw = slice_null, ob_next_send_at_ms = USIPY_SIP_TM_TIME_NONE\<rparr> in
      \<lparr>x_role = USIPY_SIP_TM_ROLE_UAC, x_state = USIPY_SIP_TM_STATE_NULL, x_flags = 0,
       x_id = \<lparr>id_hash = 0, id_branch = Kept [], id_call_id = [], id_from_tag = Kept [], id_cseq = 0,
         id_method_type = 0\<rparr>,
       x_peer = addr_zero, x_local = addr_zero, x_pub_outbound = ob, x_retransmit_count = 0,
       x_created_at_ms = 0, x_updated_at_ms = 0,
       x_timer = \<lparr>tmr_type = USIPY_SIP_TM_TIMER_NONE, tmr_value_ms = 0, tmr_due_at_ms = 0\<rparr>,
       x_timers = policy_zero, x_last_status_code = 0, x_role_byte = 0,
       x_call_id = [], x_branch = Kept [], x_from_tag = Kept [], x_to_tag = [],
       x_cseq = \<lparr>cseq_onwire_method = [], cseq_val = 0, cseq_method = 0\<rparr>, x_method_type = 0,
       x_uac = \<lparr>cc_request_uri = None, cc_from_uri = [], cc_to_uri = [], cc_contact_uri = [],
         cc_routes = [], cc_contact_expires = 0, cc_invite_expires = 0, cc_include_contact = False\<rparr>,
       x_uas = \<lparr>sc_from = [], sc_to = [], sc_request_uri = [], sc_from_uri = [], sc_to_uri = Some [],
         sc_contact_uri = [], sc_local_contact_uri = [], sc_vias = [], sc_record_routes = [],
         sc_ack_hash = 0, sc_cancel_hash = 0\<rparr>,
       x_callbacks = uac_callbacks_zero, x_uas_callbacks = uas_callbacks_zero, x_uas_owner = None,
       x_checkpoint = USIPY_MSG_HEAP_CHECKPOINT_NONE, x_outbound = ob,
       x_scratch = scratch,
       x_parent_index = None, x_child_index = None, x_invite = None,
       x_scratch_buf = buf, x_scratch_capacity = capacity,
       x_final_reported = False, x_active = False\<rparr>)"

definition usipy_sip_tm_tx_reset :: "usipy_sip_tm_txi \<Rightarrow> usipy_sip_tm_txi" where
  "usipy_sip_tm_tx_reset tp = slot_zero (x_scratch_buf tp) (x_scratch_capacity tp)
     (usipy_msg_heap_init (x_scratch_buf tp) (mh_cells (x_scratch tp)) (x_scratch_capacity tp)
       (mh_checkpoints (x_scratch tp)) USIPY_SIP_TM_TX_NCHECKPOINTS)"

definition usipy_sip_tm_tx_fini :: "usipy_sip_tm_txi \<Rightarrow> usipy_sip_tm_txi" where
  "usipy_sip_tm_tx_fini tp = usipy_sip_tm_tx_reset tp"

definition usipy_sip_tm_uac_evictable :: "usipy_sip_tm_txi \<Rightarrow> bool" where
  "usipy_sip_tm_uac_evictable tp =
     (if x_state tp \<noteq> USIPY_SIP_TM_STATE_COMPLETED \<or> \<not> x_final_reported tp then False
      else (case tmr_type (x_timer tp) of
              USIPY_SIP_TM_TIMER_D \<Rightarrow> True | USIPY_SIP_TM_TIMER_K \<Rightarrow> True | _ \<Rightarrow> False))"

definition usipy_sip_tm_uas_evictable :: "usipy_sip_tm_txi \<Rightarrow> bool" where
  "usipy_sip_tm_uas_evictable tp =
     (case x_state tp of
        USIPY_SIP_TM_STATE_COMPLETED \<Rightarrow> tmr_type (x_timer tp) = USIPY_SIP_TM_TIMER_J
      | USIPY_SIP_TM_STATE_CONFIRMED \<Rightarrow> tmr_type (x_timer tp) = USIPY_SIP_TM_TIMER_I
      | USIPY_SIP_TM_STATE_ACCEPTED \<Rightarrow> has_flag (x_flags tp) USIPY_SIP_TM_F_ACKED
      | _ \<Rightarrow> False)"

definition usipy_sip_tm_tx_evictable :: "usipy_sip_tm_txi \<Rightarrow> bool" where
  "usipy_sip_tm_tx_evictable tp =
     (if \<not> x_active tp \<or> x_parent_index tp \<noteq> None then False
      else if x_state tp = USIPY_SIP_TM_STATE_TERMINATED then True
      else if has_flag (x_flags tp) USIPY_SIP_TM_F_ABANDONED then False
      else (case x_role tp of
              USIPY_SIP_TM_ROLE_UAC \<Rightarrow> usipy_sip_tm_uac_evictable tp
            | USIPY_SIP_TM_ROLE_UAS \<Rightarrow> usipy_sip_tm_uas_evictable tp))"

text \<open>The children of slot \<open>index\<close> go first, then the link of its parent, then the slot.\<close>

definition drop_child :: "nat \<Rightarrow> nat \<Rightarrow> 'a usipy_sip_tm \<Rightarrow> 'a usipy_sip_tm" where
  "drop_child index i tm =
     (let childp = txn tm i in
      if \<not> x_active childp \<or> x_parent_index childp \<noteq> Some index then tm
      else (upd i usipy_sip_tm_tx_fini tm)\<lparr>tm_nactive := tm_nactive tm - 1\<rparr>)"

definition unlink_parent :: "nat \<Rightarrow> 'a usipy_sip_tm \<Rightarrow> 'a usipy_sip_tm" where
  "unlink_parent index tm =
     (case x_parent_index (txn tm index) of
        None \<Rightarrow> tm
      | Some p \<Rightarrow>
          if p < max_transactions tm \<and> x_active (txn tm p) \<and> x_child_index (txn tm p) = Some index
          then upd p (\<lambda>t. t\<lparr>x_child_index := None\<rparr>) tm else tm)"

definition usipy_sip_tm_drop_transaction ::
  "'a usipy_sip_tm \<Rightarrow> nat \<Rightarrow> usipy_sip_tm_error \<times> 'a usipy_sip_tm" where
  "usipy_sip_tm_drop_transaction tm index =
     (if index \<ge> max_transactions tm then (USIPY_SIP_TM_ERR_INVAL, tm)
      else if \<not> x_active (txn tm index) then (USIPY_SIP_TM_ERR_NOT_FOUND, tm)
      else
        let tm = fold (drop_child index) [0..<max_transactions tm] tm;
            tm = unlink_parent index tm;
            tm = upd index usipy_sip_tm_tx_fini tm in
        (USIPY_SIP_TM_OK, tm\<lparr>tm_nactive := tm_nactive tm - 1\<rparr>))"

text \<open>When an evictable transaction would go anyway.\<close>

definition slot_due :: "usipy_sip_tm_txi \<Rightarrow> time_ms" where
  "slot_due t = (if x_state t = USIPY_SIP_TM_STATE_TERMINATED then 0 else tmr_due_at_ms (x_timer t))"

text \<open>The scan for a slot: a free one, and the victim so far with the time it is due.\<close>

fun slot_scan :: "usipy_sip_tm_txi list \<Rightarrow> nat \<Rightarrow> (nat \<times> time_ms) option \<Rightarrow> nat option \<times> (nat \<times> time_ms) option" where
  "slot_scan [] i victim = (None, victim)"
| "slot_scan (tp # tps) i victim =
     (if \<not> x_active tp then (Some i, victim)
      else if \<not> usipy_sip_tm_tx_evictable tp then slot_scan tps (i + 1) victim
      else
        let due = slot_due tp in
        slot_scan tps (i + 1)
          (case victim of
             None \<Rightarrow> Some (i, due)
           | Some (v, vdue) \<Rightarrow> if due < vdue then Some (i, due) else victim))"

definition usipy_sip_tm_alloc_slot :: "'a usipy_sip_tm \<Rightarrow> nat option \<times> 'a usipy_sip_tm" where
  "usipy_sip_tm_alloc_slot tm =
     (case slot_scan (tm_transactions tm) 0 None of
        (Some i, _) \<Rightarrow> (Some i, upd i usipy_sip_tm_tx_reset tm)
      | (None, None) \<Rightarrow> (None, tm)
      | (None, Some (v, _)) \<Rightarrow>
          (case usipy_sip_tm_drop_transaction tm v of
             (r, tm) \<Rightarrow>
               if r \<noteq> USIPY_SIP_TM_OK then (None, tm)
               else (Some v, upd v usipy_sip_tm_tx_reset tm)))"

definition usipy_sip_tm_nactive :: "'a usipy_sip_tm option \<Rightarrow> nat" where
  "usipy_sip_tm_nactive tm = (case tm of None \<Rightarrow> 0 | Some tm \<Rightarrow> tm_nactive tm)"

definition usipy_sip_tm_get_transaction :: "'a usipy_sip_tm \<Rightarrow> nat \<Rightarrow> usipy_sip_tm_txi option" where
  "usipy_sip_tm_get_transaction tm index =
     (if index \<ge> max_transactions tm then None
      else if \<not> x_active (txn tm index) then None
      else Some (txn tm index))"

text \<open>\<open>usipy_sip_tm_reap_terminated\<close>, with a manager.\<close>

definition usipy_sip_tm_reap_terminated :: "'a usipy_sip_tm \<Rightarrow> 'a usipy_sip_tm" where
  "usipy_sip_tm_reap_terminated tm =
     (if usipy_sip_tm_nactive (Some tm) = 0 then tm
      else fold (\<lambda>i tm.
        case usipy_sip_tm_get_transaction tm i of
          Some txp \<Rightarrow>
            if x_state txp = USIPY_SIP_TM_STATE_TERMINATED then snd (usipy_sip_tm_drop_transaction tm i) else tm
        | None \<Rightarrow> tm) [0..<max_transactions tm] tm)"

subsection \<open>Timer policies\<close>

definition usipy_sip_tm_timer_policy_resolve ::
  "usipy_sip_tm_timer_policy option \<Rightarrow> usipy_sip_tm_timer_policy" where
  "usipy_sip_tm_timer_policy_resolve srcp =
     (let rfc3261 = USIPY_SIP_TM_TIMER_POLICY_RFC3261;
          dst = (case srcp of Some src \<Rightarrow> src | None \<Rightarrow> rfc3261);
          dst = (if t1_ms dst = 0 then dst\<lparr>t1_ms := t1_ms rfc3261\<rparr> else dst);
          dst = (if t2_ms dst = 0 then dst\<lparr>t2_ms := t2_ms rfc3261\<rparr> else dst)
      in (if t4_ms dst = 0 then dst\<lparr>t4_ms := t4_ms rfc3261\<rparr> else dst))"

definition usipy_sip_tm_set_timer_policy ::
  "'a usipy_sip_tm \<Rightarrow> nat \<Rightarrow> usipy_sip_tm_timer_policy option \<Rightarrow> usipy_sip_tm_error \<times> 'a usipy_sip_tm" where
  "usipy_sip_tm_set_timer_policy tm index policy =
     (if policy = None \<or> index \<ge> max_transactions tm then (USIPY_SIP_TM_ERR_INVAL, tm)
      else if \<not> x_active (txn tm index) then (USIPY_SIP_TM_ERR_NOT_FOUND, tm)
      else (USIPY_SIP_TM_OK,
        upd index (\<lambda>t. t\<lparr>x_timers := usipy_sip_tm_timer_policy_resolve policy\<rparr>) tm))"

subsection \<open>Construction\<close>

definition usipy_sip_tm_init_luri :: "'a usipy_sip_tm \<Rightarrow> bool \<times> 'a usipy_sip_tm" where
  "usipy_sip_tm_init_luri tm =
     (let a = tm_laddr tm; port = dec (unat (ad_port a));
          put = (\<lambda>txt. case usipy_msg_heap_sprintf (tm_heap tm) txt of
            (None, h) \<Rightarrow> (False, tm\<lparr>tm_heap := h\<rparr>)
          | (Some sl, h) \<Rightarrow> (True, tm\<lparr>tm_heap := h, tm_luri := slice_read h sl\<rparr>)) in
      case ad_af a of
        AF_INET \<Rightarrow> put (''sip:'' @ pct_s (ad_host a) @ '':'' @ port)
      | AF_INET6 \<Rightarrow> put (''sip:['' @ pct_s (ad_host a) @ '']:'' @ port)
      | _ \<Rightarrow> (False, tm))"

definition usipy_sip_tm_init_default_via :: "'a usipy_sip_tm \<Rightarrow> 'a usipy_sip_tm abortable" where
  "usipy_sip_tm_init_default_via tm = do {
     nm \<leftarrow> usipy_sip_tm_transport_name (tm_transport tm);
     Some (tm\<lparr>tm_default_via := \<lparr>via_proto_name = ''SIP'', via_proto_version = ''2.0'', via_transport = nm,
       via_host = ad_host (tm_laddr tm), via_port = ucast (ad_port (tm_laddr tm)),
       via_params = [\<lparr>tv_token = ''branch'', tv_value = []\<rparr>, \<lparr>tv_token = ''rport'', tv_value = []\<rparr>]\<rparr>\<rparr>)
   }"

text \<open>
  The second member of a default name-addr, the room for one parameter, is filled in by the request
  builder when it raises \<open>nparams\<close>; the parameters are those in use.
\<close>

definition usipy_sip_tm_init_default_nameaddrs :: "'a usipy_sip_tm \<Rightarrow> 'a usipy_sip_tm" where
  "usipy_sip_tm_init_default_nameaddrs tm =
     (let na = \<lparr>na_display_name = [], na_addr_spec = tm_luri tm, na_params = []\<rparr> in
      tm\<lparr>tm_default_from := na\<lparr>na_params := [\<lparr>tv_token = ''tag'', tv_value = []\<rparr>]\<rparr>,
         tm_default_to := na, tm_default_contact := na\<rparr>)"

text \<open>
  \<open>sockname\<close> is what \<open>getsockname\<close> and \<open>inet_ntop\<close> answer, \<open>None\<close> when one of them fails.
\<close>

definition usipy_sip_tm_init_laddr ::
  "(address_family \<times> 16 word \<times> string) option \<Rightarrow> 'a usipy_sip_tm \<Rightarrow> (bool \<times> 'a usipy_sip_tm) abortable" where
  "usipy_sip_tm_init_laddr sockname tm =
     (case sockname of
        None \<Rightarrow> Some (False, tm)
      | Some (af, port, aname) \<Rightarrow>
          if af \<noteq> AF_INET \<and> af \<noteq> AF_INET6 then Some (False, tm)
          else (case usipy_msg_heap_sprintf (tm_heap tm) (pct_s aname) of
            (None, h) \<Rightarrow> Some (False, tm\<lparr>tm_heap := h\<rparr>)
          | (Some sl, h) \<Rightarrow>
              let tm = tm\<lparr>tm_heap := h, tm_laddr := \<lparr>ad_af = af, ad_port = port,
                ad_transport = tm_transport tm, ad_host = slice_read h sl\<rparr>\<rparr> in
              (case usipy_sip_tm_init_luri tm of
                 (False, tm) \<Rightarrow> Some (False, tm)
               | (True, tm) \<Rightarrow> do {
                   tm \<leftarrow> usipy_sip_tm_init_default_via tm;
                   Some (True, usipy_sip_tm_init_default_nameaddrs tm)
                 })))"

record usipy_sip_tm_ctor_params =
  ctp_transport :: usipy_sip_tm_transport
  ctp_max_transactions :: nat
  ctp_incoming_request :: "nat option"
  ctp_callbacks_arg :: nat
  ctp_id_policy :: "nat option"
  ctp_id_policy_arg :: nat

text \<open>A slot of the zeroed block after its reset.\<close>

definition blank_slot :: "64 word \<Rightarrow> usipy_sip_tm_txi" where
  "blank_slot buf = slot_zero buf (of_nat USIPY_SIP_TM_TX_SCRATCH_SIZE)
     (usipy_msg_heap_init buf (replicate USIPY_SIP_TM_TX_SCRATCH_SIZE NUL)
       (of_nat USIPY_SIP_TM_TX_SCRATCH_SIZE) [0, 0] USIPY_SIP_TM_TX_NCHECKPOINTS)"

text \<open>\<open>base\<close> is the address \<open>malloc\<close> answers, \<open>None\<close> for null.\<close>

definition usipy_sip_tm_ctor ::
  "(address_family \<times> 16 word \<times> string) option \<Rightarrow> (nat \<Rightarrow> 64 word option) \<Rightarrow> 'a \<Rightarrow>
     usipy_sip_tm_ctor_params \<Rightarrow> 'a usipy_sip_tm option abortable" where
  "usipy_sip_tm_ctor sockname mem app ipp = do {
     total_size \<leftarrow> usipy_sip_tm_ctor_size (ctp_max_transactions ipp);
     dassert (ctp_transport ipp \<noteq> USIPY_SIP_TM_TRANSPORT_UNSPEC);
     case mem total_size of
       None \<Rightarrow> Some None
     | Some base \<Rightarrow>
         let n = ctp_max_transactions ipp;
             heap_buf = base + of_nat (sizeof_usipy_sip_tm + sizeof_usipy_sip_tm_txi * n);
             scratch = heap_buf + of_nat USIPY_SIP_TM_HEAP_SIZE;
             na = \<lparr>na_display_name = [], na_addr_spec = [], na_params = []\<rparr>;
             rp = \<lparr>tm_transport = ctp_transport ipp, tm_nactive = 0,
               tm_heap = usipy_msg_heap_init heap_buf (replicate USIPY_SIP_TM_HEAP_SIZE NUL)
                 (of_nat USIPY_SIP_TM_HEAP_SIZE) [] 0,
               tm_laddr = addr_zero, tm_luri = [],
               tm_default_via = \<lparr>via_proto_name = [], via_proto_version = [], via_transport = [],
                 via_host = [], via_port = 0, via_params = []\<rparr>,
               tm_default_from = na, tm_default_to = na, tm_default_contact = na,
               tm_incoming_request = ctp_incoming_request ipp, tm_callbacks_arg = ctp_callbacks_arg ipp,
               tm_id_policy = ctp_id_policy ipp, tm_id_policy_arg = ctp_id_policy_arg ipp,
               tm_transactions = [], tm_app = app\<rparr> in do {
           (ok, rp) \<leftarrow> usipy_sip_tm_init_laddr sockname rp;
           if \<not> ok then Some None
           else Some (Some (rp\<lparr>tm_transactions := map (\<lambda>i. blank_slot
             (scratch + of_nat (i * USIPY_SIP_TM_TX_SCRATCH_SIZE))) [0..<n]\<rparr>))
         }
   }"

text \<open>What \<open>usipy_sip_tm_dtor\<close> does before it frees the block.\<close>

definition usipy_sip_tm_dtor :: "'a usipy_sip_tm \<Rightarrow> 'a usipy_sip_tm" where
  "usipy_sip_tm_dtor tm = tm\<lparr>tm_transactions := map usipy_sip_tm_tx_fini (tm_transactions tm)\<rparr>"

subsection \<open>Matching\<close>

definition usipy_sip_tm_tid_matches_tx :: "usipy_sip_tid \<Rightarrow> usipy_sip_tm_txi \<Rightarrow> bool" where
  "usipy_sip_tm_tid_matches_tx tidp tp =
     (let i = x_id tp; h = x_scratch tp in
      if tid_hash tidp \<noteq> id_hash i then False
      else if \<not> usipy_str_eq (tid_call_id tidp) (id_call_id i) \<or>
              \<not> usipy_str_eq (tid_from_tag tidp) (ref_text h (id_from_tag i)) \<or>
              \<not> usipy_str_eq (tid_vbranch tidp) (ref_text h (id_branch i)) then False
      else if cseq_val (tid_cseq tidp) \<noteq> id_cseq i \<or> cseq_method (tid_cseq tidp) \<noteq> id_method_type i then False
      else True)"

subsection \<open>Slots stay well formed\<close>

text \<open>
  What holds of every slot, used or not: its scratch heap is well formed and spans its buffer.
\<close>

definition slot_ok :: "usipy_sip_tm_txi \<Rightarrow> bool" where
  "slot_ok t \<longleftrightarrow> heap_ok (x_scratch t) \<and> mh_tsize (x_scratch t) = of_nat USIPY_SIP_TM_TX_SCRATCH_SIZE \<and>
     mh_ncheckpoints (x_scratch t) = USIPY_SIP_TM_TX_NCHECKPOINTS \<and> length (mh_checkpoints (x_scratch t)) = 2 \<and>
     x_scratch_capacity t = of_nat USIPY_SIP_TM_TX_SCRATCH_SIZE \<and> 8 dvd unat (x_scratch_buf t)"

lemma slot_zero_sel [simp]:
  "x_active (slot_zero b c h) = False" "x_scratch (slot_zero b c h) = h" "x_scratch_buf (slot_zero b c h) = b"
  "x_scratch_capacity (slot_zero b c h) = c" "x_parent_index (slot_zero b c h) = None"
  "x_child_index (slot_zero b c h) = None" "x_checkpoint (slot_zero b c h) = USIPY_MSG_HEAP_CHECKPOINT_NONE"
  by (simp_all add: slot_zero_def Let_def)

lemma reset_sel [simp]:
  "x_active (usipy_sip_tm_tx_reset t) = False" "x_parent_index (usipy_sip_tm_tx_reset t) = None"
  "x_child_index (usipy_sip_tm_tx_reset t) = None"
  by (simp_all add: usipy_sip_tm_tx_reset_def)

lemma realign_aligned: "8 dvd unat (b :: 64 word) \<Longrightarrow> USIPY_REALIGN b = b"
  by (rule word_unat_eq_iff[THEN iffD2]) (simp add: unat_REALIGN)

lemma init_aligned:
  assumes "8 dvd unat b" "length mem = 4096" "length cps = 2"
  shows "usipy_msg_heap_init b mem 4096 cps 2 = \<lparr>mh_tsize = 4096, mh_alen = 0, mh_checkpoints = cps,
    mh_ncheckpoints = 2, mh_checkpoint_top = 0, mh_first = b, mh_cells = mem\<rparr>"
  using assms by (simp add: usipy_msg_heap_init_def realign_aligned Let_def)

lemma reset_ok:
  assumes "slot_ok t"
  shows "slot_ok (usipy_sip_tm_tx_reset t)"
    "x_scratch (usipy_sip_tm_tx_reset t) = (x_scratch t)\<lparr>mh_alen := 0, mh_checkpoint_top := 0,
       mh_first := x_scratch_buf t\<rparr>"
proof -
  have c: "length (mh_cells (x_scratch t)) = 4096" using assms by (simp add: slot_ok_def heap_ok_def)
  show h: "x_scratch (usipy_sip_tm_tx_reset t) = (x_scratch t)\<lparr>mh_alen := 0, mh_checkpoint_top := 0,
       mh_first := x_scratch_buf t\<rparr>"
    using assms c by (simp add: usipy_sip_tm_tx_reset_def slot_ok_def init_aligned)
  show "slot_ok (usipy_sip_tm_tx_reset t)"
    using assms c by (simp add: slot_ok_def h) (simp add: usipy_sip_tm_tx_reset_def heap_ok_def live_checkpoints_def)
qed

lemma reset_idem: "slot_ok t \<Longrightarrow> usipy_sip_tm_tx_reset (usipy_sip_tm_tx_reset t) = usipy_sip_tm_tx_reset t"
  using reset_ok[of t] reset_ok(2)[of "usipy_sip_tm_tx_reset t"] by (simp add: usipy_sip_tm_tx_reset_def)

lemma blank_ok: "8 dvd unat b \<Longrightarrow> slot_ok (blank_slot b)"
  by (simp add: blank_slot_def slot_ok_def init_aligned heap_ok_def live_checkpoints_def)

subsection \<open>Dropping a transaction\<close>

definition active_count :: "'a usipy_sip_tm \<Rightarrow> nat" where
  "active_count tm = sum_list (map (\<lambda>t. of_bool (x_active t)) (tm_transactions tm))"

lemma active_count_upd:
  assumes "i < max_transactions tm"
  shows "active_count (upd i f tm) =
    active_count tm + of_bool (x_active (f (txn tm i))) - of_bool (x_active (txn tm i))"
  using assms by (simp add: active_count_def upd_def map_update sum_list_update)

lemma active_count_pos: "i < max_transactions tm \<Longrightarrow> x_active (txn tm i) \<Longrightarrow> 0 < active_count tm"
  unfolding active_count_def by (rule ccontr) (auto simp: all_set_conv_all_nth)

lemma active_count_more [simp]: "active_count (tm\<lparr>tm_nactive := n\<rparr>) = active_count tm"
  by (simp add: active_count_def)

lemma upd_nactive [simp]: "upd i f tm\<lparr>tm_nactive := n\<rparr> = upd i f (tm\<lparr>tm_nactive := n\<rparr>)"
  by (simp add: upd_def)

text \<open>The manager with other slots and another count.\<close>

definition with_slots :: "'a usipy_sip_tm \<Rightarrow> nat \<Rightarrow> usipy_sip_tm_txi list \<Rightarrow> 'a usipy_sip_tm" where
  "with_slots tm n ts = tm\<lparr>tm_nactive := n, tm_transactions := ts\<rparr>"

lemma with_slots_sel [simp]:
  "tm_transactions (with_slots tm n ts) = ts" "tm_nactive (with_slots tm n ts) = n"
  "tm_app (with_slots tm n ts) = tm_app tm" "with_slots (with_slots tm n ts) m us = with_slots tm m us"
  "with_slots tm (tm_nactive tm) (tm_transactions tm) = tm"
  by (simp_all add: with_slots_def)

definition child_of :: "'a usipy_sip_tm \<Rightarrow> nat \<Rightarrow> nat \<Rightarrow> bool" where
  "child_of tm index j \<longleftrightarrow> x_active (txn tm j) \<and> x_parent_index (txn tm j) = Some index"

lemma fold_upt_Suc: "fold f [0..<Suc k] x = f k (fold f [0..<k] x)"
  by simp

lemma map_upt_update: "(map g [0..<n])[k := x] = map (\<lambda>j. if j = k then x else g j) [0..<n]"
  by (rule nth_equalityI) (auto simp: nth_list_update)

text \<open>The loop over the children: those of \<open>index\<close> are reset and counted off.\<close>

lemma drop_children:
  assumes "k \<le> max_transactions tm"
  shows "fold (drop_child index) [0..<k] tm = with_slots tm
      (tm_nactive tm - card {j. j < k \<and> child_of tm index j})
      (map (\<lambda>j. if j < k \<and> child_of tm index j then usipy_sip_tm_tx_fini (txn tm j) else txn tm j)
        [0..<max_transactions tm])"
  using assms
proof (induction k)
  case 0
  show ?case by (simp add: with_slots_def map_nth)
next
  case (Suc k)
  let ?S = "\<lambda>k. {j. j < k \<and> child_of tm index j}"
  have S: "?S (Suc k) = (if child_of tm index k then insert k (?S k) else ?S k)" "finite (?S k)" "k \<notin> ?S k"
    by (auto simp: less_Suc_eq)
  have IH: "fold (drop_child index) [0..<k] tm = with_slots tm (tm_nactive tm - card (?S k))
      (map (\<lambda>j. if j < k \<and> child_of tm index j then usipy_sip_tm_tx_fini (txn tm j) else txn tm j)
        [0..<max_transactions tm])" (is "?l = ?r")
    using Suc by simp
  have k: "txn ?r k = txn tm k" using Suc.prems by simp
  show ?case
  proof (cases "child_of tm index k")
    case True
    then have "drop_child index k ?r = (upd k usipy_sip_tm_tx_fini ?r)\<lparr>tm_nactive := tm_nactive ?r - 1\<rparr>"
      using k by (simp add: drop_child_def Let_def child_of_def)
    also have "\<dots> = with_slots tm (tm_nactive tm - card (?S (Suc k)))
      ((map (\<lambda>j. if j < k \<and> child_of tm index j then usipy_sip_tm_tx_fini (txn tm j) else txn tm j)
        [0..<max_transactions tm])[k := usipy_sip_tm_tx_fini (txn tm k)])"
      using True S k by (simp add: upd_def with_slots_def)
    also have "\<dots> = with_slots tm (tm_nactive tm - card (?S (Suc k)))
      (map (\<lambda>j. if j < Suc k \<and> child_of tm index j then usipy_sip_tm_tx_fini (txn tm j) else txn tm j)
        [0..<max_transactions tm])"
      unfolding map_upt_update using True Suc.prems
      by (intro arg_cong[where f = "with_slots tm _"] map_cong) (auto simp: less_Suc_eq)
    finally show ?thesis unfolding fold_upt_Suc IH .
  next
    case False
    then have "drop_child index k ?r = ?r"
      using k by (auto simp: drop_child_def Let_def child_of_def)
    also have "?r = with_slots tm (tm_nactive tm - card (?S (Suc k)))
      (map (\<lambda>j. if j < Suc k \<and> child_of tm index j then usipy_sip_tm_tx_fini (txn tm j) else txn tm j)
        [0..<max_transactions tm])"
    proof -
      have "map (\<lambda>j. if j < k \<and> child_of tm index j then usipy_sip_tm_tx_fini (txn tm j) else txn tm j)
          [0..<max_transactions tm] =
        map (\<lambda>j. if j < Suc k \<and> child_of tm index j then usipy_sip_tm_tx_fini (txn tm j) else txn tm j)
          [0..<max_transactions tm]"
        using False by (intro map_cong) (auto simp: less_Suc_eq)
      moreover have "?S (Suc k) = ?S k" using False S(1) by simp
      ultimately show ?thesis by (simp only:)
    qed
    finally show ?thesis unfolding fold_upt_Suc IH .
  qed
qed

text \<open>The count of active transactions is ahead of the slots by \<open>c\<close>.\<close>

definition counted :: "nat \<Rightarrow> 'a usipy_sip_tm \<Rightarrow> bool" where
  "counted c tm \<longleftrightarrow> tm_nactive tm = active_count tm + c"

lemma counted_off:
  assumes "counted c tm" "i < max_transactions tm" "x_active (txn tm i)" "\<not> x_active (f (txn tm i))"
  shows "counted c ((upd i f tm)\<lparr>tm_nactive := tm_nactive tm - 1\<rparr>)"
  using assms active_count_pos[of i tm] by (simp add: counted_def active_count_upd del: upd_nactive)

lemma counted_same:
  assumes "counted c tm" "i < max_transactions tm" "x_active (f (txn tm i)) = x_active (txn tm i)"
  shows "counted c (upd i f tm)"
  using assms active_count_pos[of i tm] by (simp add: counted_def active_count_upd)

lemma drop_child_counted:
  assumes "counted c tm" "i < max_transactions tm"
  shows "counted c (drop_child index i tm)"
  using assms counted_off[OF assms]
  by (simp add: drop_child_def Let_def usipy_sip_tm_tx_fini_def del: upd_nactive)

lemma drop_children_counted:
  assumes "counted c tm" "k \<le> max_transactions tm"
  shows "counted c (fold (drop_child index) [0..<k] tm)"
  using assms(2)
proof (induction k)
  case (Suc k)
  let ?tm = "fold (drop_child index) [0..<k] tm"
  have "max_transactions ?tm = max_transactions tm"
    using Suc.prems by (subst drop_children) (simp_all add: with_slots_def)
  then show ?case
    unfolding fold_upt_Suc using Suc by (intro drop_child_counted) simp_all
qed (use assms(1) in simp)

text \<open>
  Dropping an active transaction resets its slot and those of its children, clears the link its parent
  has to it, changes nothing else, and keeps the count.
\<close>

definition dropped_slot :: "'a usipy_sip_tm \<Rightarrow> nat \<Rightarrow> nat \<Rightarrow> usipy_sip_tm_txi" where
  "dropped_slot tm index j =
     (let t = txn tm j in
      if j = index \<or> child_of tm index j then usipy_sip_tm_tx_fini t
      else if x_parent_index (txn tm index) = Some j \<and> x_active t \<and> x_child_index t = Some index
      then t\<lparr>x_child_index := None\<rparr> else t)"

lemma drop_spec:
  assumes "index < max_transactions tm" "x_active (txn tm index)" "x_parent_index (txn tm index) \<noteq> Some index"
  obtains n where "usipy_sip_tm_drop_transaction tm index = (USIPY_SIP_TM_OK,
      with_slots tm n (map (dropped_slot tm index) [0..<max_transactions tm]))"
    "\<And>c. counted c tm \<Longrightarrow> counted c (with_slots tm n (map (dropped_slot tm index) [0..<max_transactions tm]))"
proof -
  let ?N = "max_transactions tm"
  let ?g = "\<lambda>j. if child_of tm index j then usipy_sip_tm_tx_fini (txn tm j) else txn tm j"
  define tm1 where "tm1 = fold (drop_child index) [0..<?N] tm"
  define n1 where "n1 = tm_nactive tm - card {j. j < ?N \<and> child_of tm index j}"
  have "map (\<lambda>j. if j < ?N \<and> child_of tm index j then usipy_sip_tm_tx_fini (txn tm j) else txn tm j) [0..<?N] =
      map ?g [0..<?N]" by (intro map_cong) auto
  then have tm1: "tm1 = with_slots tm n1 (map ?g [0..<?N])"
    unfolding tm1_def drop_children[OF order.refl] n1_def by (simp only:)
  have c1: "counted c tm \<Longrightarrow> counted c tm1" for c unfolding tm1_def by (rule drop_children_counted) simp_all
  have self: "\<not> child_of tm index index" using assms(3) by (simp add: child_of_def)
  have t1: "txn tm1 j = ?g j" if "j < ?N" for j using that by (simp add: tm1)
  have m1: "max_transactions tm1 = ?N" by (simp add: tm1)
  define tm2 where "tm2 = unlink_parent index tm1"
  let ?h = "\<lambda>j. if x_parent_index (txn tm index) = Some j \<and> \<not> child_of tm index j \<and> x_active (txn tm j) \<and>
      x_child_index (txn tm j) = Some index then (txn tm j)\<lparr>x_child_index := None\<rparr> else ?g j"
  have tm2: "tm2 = with_slots tm n1 (map ?h [0..<?N]) \<and> (\<forall>c. counted c tm \<longrightarrow> counted c tm2)"
  proof (cases "x_parent_index (txn tm index)")
    case None
    have "map ?h [0..<?N] = map ?g [0..<?N]" using None by simp
    then show ?thesis
      using None t1[OF assms(1)] self c1 by (simp add: tm2_def unlink_parent_def) (simp add: tm1)
  next
    case (Some p)
    show ?thesis
    proof (cases "p < ?N \<and> \<not> child_of tm index p \<and> x_active (txn tm p) \<and> x_child_index (txn tm p) = Some index")
      case True
      then have u: "tm2 = upd p (\<lambda>t. t\<lparr>x_child_index := None\<rparr>) tm1"
        using Some t1[OF assms(1)] t1[of p] self m1 by (simp add: tm2_def unlink_parent_def)
      have "(map ?g [0..<?N])[p := (txn tm p)\<lparr>x_child_index := None\<rparr>] = map ?h [0..<?N]"
        unfolding map_upt_update using True Some by (intro map_cong) auto
      then have "tm2 = with_slots tm n1 (map ?h [0..<?N])"
        using True unfolding u by (simp add: upd_def tm1) (simp add: with_slots_def)
      moreover have "counted c tm1 \<Longrightarrow> counted c tm2" for c
        unfolding u using True m1 by (intro counted_same) simp_all
      ultimately show ?thesis using c1 by blast
    next
      case False
      have i: "x_parent_index (txn tm1 index) = Some p" using t1[OF assms(1)] self Some by simp
      have "tm2 = tm1"
      proof (cases "p < ?N")
        case True
        then show ?thesis using False i t1[of p] m1
          by (auto simp: tm2_def unlink_parent_def usipy_sip_tm_tx_fini_def split: if_splits)
      qed (use i m1 in \<open>simp add: tm2_def unlink_parent_def\<close>)
      moreover have "map ?h [0..<?N] = map ?g [0..<?N]" using False Some by (intro map_cong) auto
      ultimately have "tm2 = with_slots tm n1 (map ?h [0..<?N])" using tm1 by (simp only:)
      moreover have "counted c tm \<Longrightarrow> counted c tm2" for c using c1 \<open>tm2 = tm1\<close> by (simp only:)
      ultimately show ?thesis by blast
    qed
  qed
  let ?r = "(upd index usipy_sip_tm_tx_fini tm2)\<lparr>tm_nactive := tm_nactive tm2 - 1\<rparr>"
  have t2: "txn tm2 index = txn tm index" "max_transactions tm2 = ?N"
    using tm2 assms self by simp_all
  have "(map ?h [0..<?N])[index := usipy_sip_tm_tx_fini (txn tm index)] = map (dropped_slot tm index) [0..<?N]"
    unfolding map_upt_update by (intro map_cong) (auto simp: dropped_slot_def Let_def)
  then have "?r = with_slots tm (n1 - 1) (map (dropped_slot tm index) [0..<?N])"
    using tm2 t2 by (simp add: upd_def) (simp add: with_slots_def)
  moreover have "counted c ?r" if "counted c tm" for c
  proof (rule counted_off)
    show "counted c tm2" using tm2 that by blast
    show "index < max_transactions tm2" "x_active (txn tm2 index)" using t2 assms(1,2) by (simp_all only:)
    show "\<not> x_active (usipy_sip_tm_tx_fini (txn tm2 index))" by (simp add: usipy_sip_tm_tx_fini_def)
  qed
  moreover have "usipy_sip_tm_drop_transaction tm index = (USIPY_SIP_TM_OK, ?r)"
    using assms by (simp add: usipy_sip_tm_drop_transaction_def Let_def tm1_def tm2_def del: upd_nactive)
  ultimately show ?thesis using that by simp
qed

subsection \<open>Allocating a slot\<close>

lemma slot_scan_free:
  "slot_scan tps i v = (Some f, v') \<Longrightarrow>
     \<exists>k<length tps. f = i + k \<and> \<not> x_active (tps ! k) \<and> (\<forall>j<k. x_active (tps ! j))"
proof (induction tps i v rule: slot_scan.induct)
  case (2 tp tps i v)
  show ?case
  proof (cases "x_active tp")
    case True
    then have "\<exists>k<length tps. f = i + 1 + k \<and> \<not> x_active (tps ! k) \<and> (\<forall>j<k. x_active (tps ! j))"
      using 2 by (auto simp: Let_def split: if_splits)
    then obtain k where "k < length tps" "f = i + 1 + k" "\<not> x_active (tps ! k)" "\<forall>j<k. x_active (tps ! j)"
      by blast
    then show ?thesis using True by (intro exI[of _ "Suc k"]) (auto simp: less_Suc_eq_0_disj)
  next
    case False
    then show ?thesis using 2(3) by auto
  qed
qed simp

lemma slot_scan_victim:
  assumes "slot_scan tps i v = (None, v')"
  shows "(\<forall>t\<in>set tps. x_active t) \<and>
    (case v' of
       None \<Rightarrow> v = None \<and> (\<forall>t\<in>set tps. \<not> usipy_sip_tm_tx_evictable t)
     | Some (w, d) \<Rightarrow>
         (v = Some (w, d) \<or> (\<exists>k<length tps. w = i + k \<and> usipy_sip_tm_tx_evictable (tps ! k) \<and> d = slot_due (tps ! k))) \<and>
         (\<forall>t\<in>set tps. usipy_sip_tm_tx_evictable t \<longrightarrow> d \<le> slot_due t) \<and>
         (case v of None \<Rightarrow> True | Some (_, d0) \<Rightarrow> d \<le> d0))"
  using assms
proof (induction tps arbitrary: i v)
  case Nil
  then show ?case by (auto split: option.splits)
next
  case (Cons tp tps)
  define w where "w = (if usipy_sip_tm_tx_evictable tp
    then (case v of None \<Rightarrow> Some (i, slot_due tp)
          | Some (u, ud) \<Rightarrow> if slot_due tp < ud then Some (i, slot_due tp) else v) else v)"
  have act: "x_active tp" using Cons.prems by (auto split: if_splits)
  then have "slot_scan tps (i + 1) w = (None, v')"
    using Cons.prems act by (simp add: w_def Let_def split: if_splits)
  note IH = Cons.IH[OF this]
  have shift: "(\<exists>k<length tps. u = i + 1 + k \<and> P (tps ! k)) \<Longrightarrow> \<exists>k<length (tp # tps). u = i + k \<and> P ((tp # tps) ! k)" for u P
    by (metis Suc_eq_plus1 Suc_less_eq add.assoc add.commute length_Cons nth_Cons_Suc)
  show ?case
  proof (cases v')
    case None
    then show ?thesis using IH act by (auto simp: w_def split: if_splits option.splits prod.splits)
  next
    case (Some p)
    obtain u d where p: "p = (u, d)" by force
    have I: "\<forall>t\<in>set tps. x_active t"
      "w = Some (u, d) \<or> (\<exists>k<length tps. u = i + 1 + k \<and> usipy_sip_tm_tx_evictable (tps ! k) \<and> d = slot_due (tps ! k))"
      "\<forall>t\<in>set tps. usipy_sip_tm_tx_evictable t \<longrightarrow> d \<le> slot_due t"
      "case w of None \<Rightarrow> True | Some (_, d0) \<Rightarrow> d \<le> d0"
      using IH Some p by simp_all
    have "v = Some (u, d) \<or> (\<exists>k<length (tp # tps). u = i + k \<and> usipy_sip_tm_tx_evictable ((tp # tps) ! k) \<and>
        d = slot_due ((tp # tps) ! k))"
      using I(2)
    proof
      assume "w = Some (u, d)"
      then show ?thesis
        by (auto simp: w_def split: if_splits option.splits prod.splits intro: exI[of _ 0])
    next
      assume "\<exists>k<length tps. u = i + 1 + k \<and> usipy_sip_tm_tx_evictable (tps ! k) \<and> d = slot_due (tps ! k)"
      from shift[OF this] show ?thesis by blast
    qed
    moreover have "usipy_sip_tm_tx_evictable tp \<longrightarrow> d \<le> slot_due tp"
      "case v of None \<Rightarrow> True | Some (_, d0) \<Rightarrow> d \<le> d0"
      using I(4) by (auto simp: w_def split: if_splits option.splits prod.splits)
    ultimately show ?thesis using I(1,3) act Some p by simp
  qed
qed

lemma evictable_active: "usipy_sip_tm_tx_evictable t \<Longrightarrow> x_active t \<and> x_parent_index t = None"
  by (auto simp: usipy_sip_tm_tx_evictable_def split: if_splits)

text \<open>
  A free slot if there is one; otherwise the evictable transaction that would go first, which is dropped
  with its children; nothing at all, and no change, if no transaction may go.
\<close>

lemma alloc_slot_spec:
  obtains
    (free) i where "usipy_sip_tm_alloc_slot tm = (Some i, upd i usipy_sip_tm_tx_reset tm)" "i < max_transactions tm"
      "\<not> x_active (txn tm i)" "\<forall>j<i. x_active (txn tm j)"
  | (evicted) i tm' where "usipy_sip_tm_alloc_slot tm = (Some i, upd i usipy_sip_tm_tx_reset tm')"
      "i < max_transactions tm" "\<forall>j<max_transactions tm. x_active (txn tm j)"
      "usipy_sip_tm_tx_evictable (txn tm i)"
      "\<forall>j<max_transactions tm. usipy_sip_tm_tx_evictable (txn tm j) \<longrightarrow> slot_due (txn tm i) \<le> slot_due (txn tm j)"
      "usipy_sip_tm_drop_transaction tm i = (USIPY_SIP_TM_OK, tm')"
  | (full) "usipy_sip_tm_alloc_slot tm = (None, tm)"
      "\<forall>j<max_transactions tm. x_active (txn tm j) \<and> \<not> usipy_sip_tm_tx_evictable (txn tm j)"
proof -
  obtain r v' where sc: "slot_scan (tm_transactions tm) 0 None = (r, v')" by force
  show thesis
  proof (cases r)
    case (Some f)
    then show thesis using slot_scan_free[of "tm_transactions tm" 0 None f v'] sc
      by (auto intro: free simp: usipy_sip_tm_alloc_slot_def)
  next
    case None
    note V = slot_scan_victim[OF sc[unfolded None]]
    show thesis
    proof (cases v')
      case N: None
      then show thesis using V sc None by (intro full) (simp_all add: usipy_sip_tm_alloc_slot_def)
    next
      case (Some p)
      obtain w d where p: "p = (w, d)" by force
      have E: "w < max_transactions tm" "usipy_sip_tm_tx_evictable (txn tm w)" "d = slot_due (txn tm w)"
        "\<forall>j<max_transactions tm. usipy_sip_tm_tx_evictable (txn tm j) \<longrightarrow> d \<le> slot_due (txn tm j)"
        "\<forall>j<max_transactions tm. x_active (txn tm j)"
        using V Some p by auto
      obtain n where d: "usipy_sip_tm_drop_transaction tm w = (USIPY_SIP_TM_OK,
          with_slots tm n (map (dropped_slot tm w) [0..<max_transactions tm]))"
        using drop_spec[OF E(1)] evictable_active[OF E(2)] by auto
      show thesis using E d sc None Some p
        by (intro evicted[OF _ E(1,5,2) _ d]) (simp_all add: usipy_sip_tm_alloc_slot_def)
    qed
  qed
qed

end
