(* ===== verification/Usipy_Tmsteps.thy ===== *)
theory Usipy_Tmsteps
  imports Usipy_Tm
begin

text \<open>
  What the steps on a slot keep. The contract of a step is that the scratch heap stays well formed in
  its frame and that the slot changes in the given fields only; chains of steps inherit it.
\<close>

subsection \<open>The heap\<close>

definition keeps :: "usipy_msg_heap \<Rightarrow> usipy_msg_heap \<Rightarrow> bool" where
  "keeps hp hp' \<longleftrightarrow> (heap_ok hp \<longrightarrow> heap_ok hp' \<and> same_frame hp hp')"

lemma keeps_refl [simp]: "keeps hp hp"
  by (simp add: keeps_def)

lemma keeps_trans: "keeps a b \<Longrightarrow> keeps b c \<Longrightarrow> keeps a c"
  unfolding keeps_def by (blast intro: same_frame_trans)

lemma extends_keeps: "(heap_ok hp \<Longrightarrow> extends hp hp') \<Longrightarrow> keeps hp hp'"
  by (simp add: keeps_def extends_def)

lemma reserve_keeps:
  assumes "unat len + 7 < 2 ^ 64"
  shows "keeps hp (snd (usipy_msg_heap_reserve hp len al))"
  unfolding keeps_def
proof
  assume ok: "heap_ok hp"
  define off where "off = (if al then up8 (mark hp) else mark hp)"
  define a :: size_t where "a = of_nat (off + unat len)"
  have r: "usipy_msg_heap_reserve hp len al =
      (if off + unat len \<le> hsize hp then (Some (of_nat off), hp\<lparr>mh_alen := a\<rparr>) else (None, hp))"
    unfolding reserve_cases[OF ok assms] off_def a_def by simp
  have "mark hp \<le> off" using up8_bounds(1) by (simp add: off_def)
  moreover have "length (mh_cells hp) = hsize hp" using ok by (simp add: heap_ok_def)
  moreover have "unat a = off + unat len" if "off + unat len \<le> hsize hp"
    unfolding a_def by (rule unat_mark[OF ok that])
  ultimately have "heap_ok (hp\<lparr>mh_alen := a\<rparr>)" if "off + unat len \<le> hsize hp"
    using that by (intro heap_ok_grow(2)[OF ok, of a "mh_cells hp"]) simp_all
  then show "heap_ok (snd (usipy_msg_heap_reserve hp len al)) \<and> same_frame hp (snd (usipy_msg_heap_reserve hp len al))"
    using ok by (simp add: r)
qed

lemma cells_keep: "length c = length (mh_cells hp) \<Longrightarrow> keeps hp (hp\<lparr>mh_cells := c\<rparr>)"
  by (auto simp: keeps_def heap_ok_def live_checkpoints_def)

lemma append_keeps: "c_object s \<Longrightarrow> keeps hp (snd (usipy_msg_heap_append hp s))"
  by (rule extends_keeps) (simp add: append_extends c_object_def)

lemma alloc_keeps: "unat n + 14 < 2 ^ 64 \<Longrightarrow> keeps hp (snd (usipy_msg_heap_alloc hp n))"
  by (rule extends_keeps) (simp add: alloc_extends)

lemma sprintf_keeps:
  assumes "c_object s"
  shows "keeps hp (snd (usipy_msg_heap_sprintf hp s))"
proof (cases "heap_ok hp \<and> usipy_msg_heap_remaining hp \<noteq> 0")
  case True
  let ?n = "unat (usipy_msg_heap_remaining hp)"
  let ?h = "hp\<lparr>mh_cells := overwrite (mark hp) (take (?n - 1) s @ [NUL]) (mh_cells hp)\<rparr>"
  have "?n \<noteq> 0" using True by (simp add: unat_eq_0)
  then have n: "?n = hsize hp - mark hp" "0 < ?n" using True unat_remaining by simp_all
  have "length (mh_cells hp) = hsize hp" using True by (simp add: heap_ok_def)
  moreover have "mark hp + length (take (?n - 1) s @ [NUL]) \<le> hsize hp" using n by simp
  ultimately have h: "keeps hp ?h" by (intro cells_keep) (simp only: length_overwrite)
  have u: "unat (of_nat (length s) + 1 :: size_t) = length s + 1"
    using assms by (intro unat_size_Suc) (simp add: c_object_def)
  have "keeps ?h (snd (usipy_msg_heap_reserve ?h (of_nat (length s) + 1) False))"
    using assms by (intro reserve_keeps) (simp add: u c_object_def)
  then have "keeps hp (snd (usipy_msg_heap_reserve ?h (of_nat (length s) + 1) False))"
    using h by (rule keeps_trans[rotated])
  moreover have "usipy_msg_heap_sprintf hp s = (if ?n \<le> length s then (None, ?h)
      else case usipy_msg_heap_reserve ?h (of_nat (length s) + 1) False of
        (None, hp) \<Rightarrow> (None, hp) | (Some bp, hp) \<Rightarrow> (Some (bp, of_nat (length s)), hp))"
    using True by (simp only: usipy_msg_heap_sprintf_def Let_def if_False simp_thms)
  ultimately show ?thesis
    using h by (auto split: option.splits prod.splits simp del: take_append)
next
  case False
  then show ?thesis by (auto simp: usipy_msg_heap_sprintf_def keeps_def)
qed

lemma build_keeps:
  assumes cb: "\<And>cap out. cb cap = Some out \<Longrightarrow> length out \<le> cap"
  shows "keeps hp (snd (usipy_msg_heap_build hp cb))"
proof (cases "heap_ok hp \<and> mh_tsize hp - USIPY_ALIGNED_SIZE (mh_alen hp) \<noteq> 0 \<and>
    cb (unat (mh_tsize hp - USIPY_ALIGNED_SIZE (mh_alen hp))) \<noteq> None")
  case True
  let ?off = "USIPY_ALIGNED_SIZE (mh_alen hp)" and ?n = "unat (mh_tsize hp - USIPY_ALIGNED_SIZE (mh_alen hp))"
  have ok: "heap_ok hp" using True by simp
  obtain out where out: "cb ?n = Some out" using True by auto
  let ?h = "hp\<lparr>mh_cells := overwrite (unat ?off) out (mh_cells hp)\<rparr>"
  have off: "unat ?off = up8 (mark hp)"
    using hsize_bound[OF ok] heap_ok_mark[OF ok] by (intro unat_ALIGNED_SIZE) simp
  have n: "?n = hsize hp - up8 (mark hp)"
    using up8_mark[OF ok] by (simp add: unat_sub word_le_nat_alt off)
  have "length (mh_cells hp) = hsize hp" using ok by (simp add: heap_ok_def)
  moreover have "unat ?off + length out \<le> hsize hp" using n off cb[OF out] up8_mark[OF ok] by linarith
  ultimately have h: "keeps hp ?h" by (intro cells_keep) (simp only: length_overwrite)
  have len: "length out + 7 < 2 ^ 64" using cb[OF out] n hsize_bound[OF ok] by simp
  then have "unat (USIPY_ALIGNED_SIZE (of_nat (length out))) = up8 (length out)"
    by (subst unat_ALIGNED_SIZE) (simp_all add: unat_of_nat)
  moreover have "up8 (length out) \<le> hsize hp"
    using up8_le[OF heap_ok_dvd[OF ok], of "length out"] cb[OF out] n by simp
  ultimately have "unat (USIPY_ALIGNED_SIZE (of_nat (length out))) + 7 < 2 ^ 64"
    using hsize_bound[OF ok] by simp
  from reserve_keeps[OF this] have "keeps ?h (snd (usipy_msg_heap_reserve ?h (USIPY_ALIGNED_SIZE (of_nat (length out))) True))" .
  then have "keeps hp (snd (usipy_msg_heap_reserve ?h (USIPY_ALIGNED_SIZE (of_nat (length out))) True))"
    using h by (rule keeps_trans[rotated])
  then show ?thesis
    using True out
    by (cases "usipy_msg_heap_reserve ?h (USIPY_ALIGNED_SIZE (of_nat (length out))) True")
      (simp add: usipy_msg_heap_build_def Let_def split: option.split)
next
  case False
  then show ?thesis by (auto simp: usipy_msg_heap_build_def Let_def keeps_def)
qed

subsection \<open>The contract of a step\<close>

text \<open>
  A relation between a slot before and after: reflexive, transitive, and blind to what a step does to
  the scratch heap inside its frame. A step meets it if all its results do.
\<close>

definition step_in :: "(usipy_sip_tm_txi \<Rightarrow> usipy_sip_tm_txi \<Rightarrow> bool) \<Rightarrow> tx_act \<Rightarrow> bool" where
  "step_in R a \<longleftrightarrow> (\<forall>t r t'. a t = Some (r, t') \<longrightarrow> R t t')"

locale slot_contract =
  fixes R :: "usipy_sip_tm_txi \<Rightarrow> usipy_sip_tm_txi \<Rightarrow> bool"
  assumes same: "R t t"
    and chain: "R t u \<Longrightarrow> R u v \<Longrightarrow> R t v"
    and heap: "keeps (x_scratch t) h \<Longrightarrow> R t (t\<lparr>x_scratch := h\<rparr>)"
begin

lemma acts_Nil: "step_in R (acts [])"
  by (simp add: step_in_def same)

lemma acts_Cons:
  assumes "step_in R a" "step_in R (acts as)"
  shows "step_in R (acts (a # as))"
  unfolding step_in_def
proof (intro allI impI)
  fix t r t' assume "acts (a # as) t = Some (r, t')"
  then obtain q u where "a t = Some (q, u)" "u = t' \<or> acts as u = Some (r, t')"
    by (auto simp: bind_eq_Some_conv split: if_splits)
  then show "R t t'" using assms chain[of t u t'] unfolding step_in_def by blast
qed

lemma acts_in: "(\<And>a. a \<in> set as \<Longrightarrow> step_in R a) \<Longrightarrow> step_in R (acts as)"
proof (induction as)
  case Nil
  then show ?case by (simp add: step_in_def same)
next
  case (Cons a as)
  then have "step_in R a" "step_in R (acts as)" by simp_all
  then show ?case by (rule acts_Cons)
qed


lemma set_in: "(\<And>t. R t (f t)) \<Longrightarrow> step_in R (act_set f)"
  by (auto simp: step_in_def act_set_def)

lemma keep_in:
  assumes "\<And>s t. R t (put s t)"
  shows "step_in R (act_keep str put)"
  unfolding step_in_def
proof (intro allI impI)
  fix t r t' assume a: "act_keep str put t = Some (r, t')"
  then have "c_object str" by (simp add: act_keep_def)
  then have "R t (t\<lparr>x_scratch := snd (usipy_msg_heap_append (x_scratch t) str)\<rparr>)"
    by (intro heap append_keeps)
  then show "R t t'"
    using a assms chain by (auto simp: act_keep_def split: option.splits prod.splits)
qed

lemma printf_in:
  assumes "\<And>sl t. R t (put sl t)"
  shows "step_in R (act_printf str put)"
  unfolding step_in_def
proof (intro allI impI)
  fix t r t' assume a: "act_printf str put t = Some (r, t')"
  then have "c_object str" by (simp add: act_printf_def)
  then have "R t (t\<lparr>x_scratch := snd (usipy_msg_heap_sprintf (x_scratch t) str)\<rparr>)"
    by (intro heap sprintf_keeps)
  then show "R t t'"
    using a assms chain by (auto simp: act_printf_def split: option.splits prod.splits)
qed

lemma alloc_in:
  assumes "unat n + 14 < 2 ^ 64"
  shows "step_in R (act_alloc n)"
  unfolding step_in_def
proof (intro allI impI)
  fix t r t' assume a: "act_alloc n t = Some (r, t')"
  have "R t (t\<lparr>x_scratch := snd (usipy_msg_heap_alloc (x_scratch t) n)\<rparr>)"
    using assms by (intro heap alloc_keeps)
  then show "R t t'" using a by (auto simp: act_alloc_def split: option.splits prod.splits)
qed

end

text \<open>A field no step on the heap changes.\<close>

lemma field_contract: "(\<And>t h. g (t\<lparr>x_scratch := h\<rparr>) = g t) \<Longrightarrow> slot_contract (\<lambda>t t'. g t' = g t)"
  by unfold_locales simp_all

text \<open>What a successful chain leaves behind: its last step says so, or an earlier one and no later one undoes it.\<close>

definition leaves :: "(usipy_sip_tm_txi \<Rightarrow> bool) \<Rightarrow> tx_act \<Rightarrow> bool" where
  "leaves Q a \<longleftrightarrow> (\<forall>t t'. a t = Some (USIPY_SIP_TM_OK, t') \<longrightarrow> Q t')"

lemma leaves_later: "leaves Q (acts as) \<Longrightarrow> leaves Q (acts (a # as))"
  by (auto simp: leaves_def bind_eq_Some_conv split: if_splits)

lemma leaves_here: "leaves (\<lambda>t. g t = v) a \<Longrightarrow> step_in (\<lambda>t t'. g t' = g t) (acts as) \<Longrightarrow> leaves (\<lambda>t. g t = v) (acts (a # as))"
  unfolding leaves_def step_in_def by (auto simp: bind_eq_Some_conv split: if_splits)

lemma leaves_set: "(\<And>t. Q (f t)) \<Longrightarrow> leaves Q (act_set f)"
  by (auto simp: leaves_def act_set_def)

text \<open>A string that is kept is the string.\<close>

lemma act_keep_value:
  assumes "heap_ok (x_scratch t)" "act_keep s put t = Some (USIPY_SIP_TM_OK, t')"
  obtains h where "t' = put s (t\<lparr>x_scratch := h\<rparr>)" "heap_ok h" "same_frame (x_scratch t) h"
proof -
  have c: "length s + 7 < 2 ^ 64" using assms(2) by (simp add: act_keep_def c_object_def)
  obtain sl h where ap: "usipy_msg_heap_append (x_scratch t) s = (Some sl, h)" and t': "t' = put (slice_read h sl) (t\<lparr>x_scratch := h\<rparr>)"
    using assms(2) by (auto simp: act_keep_def split: option.splits prod.splits)
  show thesis using append_Some[OF assms(1) c ap] t' by (intro that) simp_all
qed

subsection \<open>Slots of a manager\<close>

definition slots_ok :: "'a usipy_sip_tm \<Rightarrow> bool" where
  "slots_ok tm \<longleftrightarrow> (\<forall>i<max_transactions tm. slot_ok (txn tm i) \<and> x_parent_index (txn tm i) \<noteq> Some i)"

lemma slot_ok_more [simp]:
  "slot_ok (t\<lparr>x_child_index := c\<rparr>) = slot_ok t"
  by (simp add: slot_ok_def)

lemma fini_ok: "slot_ok t \<Longrightarrow> slot_ok (usipy_sip_tm_tx_fini t)"
  by (simp add: usipy_sip_tm_tx_fini_def reset_ok)

lemma fini_sel [simp]: "x_active (usipy_sip_tm_tx_fini t) = False" "x_parent_index (usipy_sip_tm_tx_fini t) = None"
  by (simp_all add: usipy_sip_tm_tx_fini_def)

lemma dropped_cases:
  obtains (reset) "dropped_slot tm index j = usipy_sip_tm_tx_fini (txn tm j)"
  | (unlinked) c where "dropped_slot tm index j = (txn tm j)\<lparr>x_child_index := c\<rparr>" "j \<noteq> index"
      "\<not> child_of tm index j"
proof (cases "j = index \<or> child_of tm index j")
  case True
  then show thesis by (intro reset) (auto simp: dropped_slot_def Let_def)
next
  case False
  then show thesis
    by (intro unlinked[of "x_child_index (dropped_slot tm index j)"]) (auto simp: dropped_slot_def Let_def)
qed

text \<open>
  Dropping keeps the slots well formed, and every other transaction but a child as it is up to the link.
\<close>

lemma drop_ok:
  assumes "slots_ok tm" "usipy_sip_tm_drop_transaction tm index = (r, tm')"
  shows "slots_ok tm'" "max_transactions tm' = max_transactions tm" "counted c tm \<Longrightarrow> counted c tm'"
    "\<exists>n ts. tm' = with_slots tm n ts"
    "j < max_transactions tm \<Longrightarrow> x_active (txn tm' j) \<Longrightarrow> \<exists>c. txn tm' j = (txn tm j)\<lparr>x_child_index := c\<rparr>"
proof -
  consider (no) "tm' = tm" | (yes) "index < max_transactions tm" "x_active (txn tm index)"
    using assms(2) by (auto simp: usipy_sip_tm_drop_transaction_def split: if_splits)
  then have "slots_ok tm' \<and> max_transactions tm' = max_transactions tm \<and> (counted c tm \<longrightarrow> counted c tm') \<and>
    (\<exists>n ts. tm' = with_slots tm n ts) \<and>
    (j < max_transactions tm \<longrightarrow> x_active (txn tm' j) \<longrightarrow> (\<exists>c. txn tm' j = (txn tm j)\<lparr>x_child_index := c\<rparr>))"
  proof cases
    case no
    moreover have "txn tm j = (txn tm j)\<lparr>x_child_index := x_child_index (txn tm j)\<rparr>" by simp
    moreover have "tm = with_slots tm (tm_nactive tm) (tm_transactions tm)" by simp
    ultimately show ?thesis using assms(1) by blast
  next
    case yes
    have "x_parent_index (txn tm index) \<noteq> Some index" using assms(1) yes(1) by (simp add: slots_ok_def)
    from drop_spec[OF yes this] obtain n where n: "usipy_sip_tm_drop_transaction tm index = (USIPY_SIP_TM_OK,
        with_slots tm n (map (dropped_slot tm index) [0..<max_transactions tm]))"
      "\<And>c. counted c tm \<Longrightarrow> counted c (with_slots tm n (map (dropped_slot tm index) [0..<max_transactions tm]))"
      by metis
    have tm': "tm' = with_slots tm n (map (dropped_slot tm index) [0..<max_transactions tm])"
      using n(1) assms(2) by simp
    have s: "slot_ok (dropped_slot tm index i) \<and> x_parent_index (dropped_slot tm index i) \<noteq> Some i"
      if "i < max_transactions tm" for i
      using assms(1) that by (cases rule: dropped_cases[of tm index i]) (simp_all add: slots_ok_def fini_ok)
    have k: "\<exists>c. dropped_slot tm index j = (txn tm j)\<lparr>x_child_index := c\<rparr>" if "x_active (dropped_slot tm index j)"
      using that by (cases rule: dropped_cases[of tm index j]) auto
    show ?thesis
      using s k n(2) unfolding tm' by (auto simp: slots_ok_def)
  qed
  then show "slots_ok tm'" "max_transactions tm' = max_transactions tm" "counted c tm \<Longrightarrow> counted c tm'"
    "\<exists>n ts. tm' = with_slots tm n ts"
    "j < max_transactions tm \<Longrightarrow> x_active (txn tm' j) \<Longrightarrow> \<exists>c. txn tm' j = (txn tm j)\<lparr>x_child_index := c\<rparr>"
    by blast+
qed

lemma with_slots_upd: "upd i f tm = with_slots tm (tm_nactive tm) ((tm_transactions tm)[i := f (txn tm i)])"
  by (simp add: upd_def with_slots_def)

text \<open>So does allocating a slot, which comes out free and reset.\<close>

lemma alloc_ok:
  assumes "slots_ok tm" "usipy_sip_tm_alloc_slot tm = (Some i, tm')"
  shows "slots_ok tm'" "i < max_transactions tm" "max_transactions tm' = max_transactions tm"
    "counted c tm \<Longrightarrow> counted c tm'" "\<exists>n ts. tm' = with_slots tm n ts"
    "\<exists>t. slot_ok t \<and> txn tm' i = usipy_sip_tm_tx_reset t"
    "j < max_transactions tm \<Longrightarrow> x_active (txn tm' j) \<Longrightarrow> j \<noteq> i \<and> (\<exists>c. txn tm' j = (txn tm j)\<lparr>x_child_index := c\<rparr>)"
proof -
  have "i < max_transactions tm \<and> slots_ok tm' \<and> max_transactions tm' = max_transactions tm \<and>
    (counted c tm \<longrightarrow> counted c tm') \<and> (\<exists>n ts. tm' = with_slots tm n ts) \<and>
    (\<exists>t. slot_ok t \<and> txn tm' i = usipy_sip_tm_tx_reset t) \<and>
    (j < max_transactions tm \<longrightarrow> x_active (txn tm' j) \<longrightarrow> j \<noteq> i \<and> (\<exists>c. txn tm' j = (txn tm j)\<lparr>x_child_index := c\<rparr>))"
  proof -
    have K: ?thesis if u: "slots_ok u" "max_transactions u = max_transactions tm" "i < max_transactions tm"
        "counted c tm \<Longrightarrow> counted c u" "\<exists>n ts. u = with_slots tm n ts" "\<not> x_active (txn u i)"
        "j < max_transactions tm \<Longrightarrow> x_active (txn u j) \<Longrightarrow> \<exists>c. txn u j = (txn tm j)\<lparr>x_child_index := c\<rparr>"
        "tm' = upd i usipy_sip_tm_tx_reset u" for u
    proof -
      have "slot_ok (txn u i)" using u(1,2,3) by (simp add: slots_ok_def)
      moreover have "txn tm' i = usipy_sip_tm_tx_reset (txn u i)" using u(2,3,8) by simp
      moreover have "counted c tm \<longrightarrow> counted c tm'"
        using u counted_same[of c u i usipy_sip_tm_tx_reset] by simp
      moreover have "\<exists>n ts. tm' = with_slots tm n ts"
        using u(5,8) unfolding with_slots_upd by (clarsimp simp del: with_slots_sel(5)) (rule exI, rule exI, rule refl)
      moreover have "slots_ok tm'" using u reset_ok(1) by (auto simp: slots_ok_def)
      moreover have "max_transactions tm' = max_transactions tm" using u by simp
      moreover have "j < max_transactions tm \<longrightarrow> x_active (txn tm' j) \<longrightarrow>
          j \<noteq> i \<and> (\<exists>c. txn tm' j = (txn tm j)\<lparr>x_child_index := c\<rparr>)"
        using u by (auto split: if_splits)
      ultimately show ?thesis using u(3) by blast
    qed
    show ?thesis
    proof (cases rule: alloc_slot_spec[of tm])
      case (free f)
      then have e: "f = i" "tm' = upd i usipy_sip_tm_tx_reset tm" using assms(2) by simp_all
      have "tm = with_slots tm (tm_nactive tm) (tm_transactions tm)"
        "txn tm j = (txn tm j)\<lparr>x_child_index := x_child_index (txn tm j)\<rparr>" by simp_all
      then show ?thesis using free e assms(1) by (intro K[of tm]) blast+
    next
      case (evicted f u)
      then have e: "f = i" "tm' = upd i usipy_sip_tm_tx_reset u" using assms(2) by simp_all
      have d: "usipy_sip_tm_drop_transaction tm i = (USIPY_SIP_TM_OK, u)" "i < max_transactions tm"
        "x_active (txn tm i)" using evicted e by auto
      have "x_parent_index (txn tm i) \<noteq> Some i" using assms(1) d(2) by (simp add: slots_ok_def)
      from drop_spec[OF d(2,3) this] obtain n where "usipy_sip_tm_drop_transaction tm i = (USIPY_SIP_TM_OK,
          with_slots tm n (map (dropped_slot tm i) [0..<max_transactions tm]))" by metis
      then have "\<not> x_active (txn u i)" using d(1,2) by (simp add: dropped_slot_def)
      then show ?thesis using drop_ok[OF assms(1) d(1)] d(2) e(2) by (intro K[of u])
    next
      case full
      then show ?thesis using assms(2) by simp
    qed
  qed
  then show "slots_ok tm'" "i < max_transactions tm" "max_transactions tm' = max_transactions tm"
    "counted c tm \<Longrightarrow> counted c tm'" "\<exists>n ts. tm' = with_slots tm n ts"
    "\<exists>t. slot_ok t \<and> txn tm' i = usipy_sip_tm_tx_reset t"
    "j < max_transactions tm \<Longrightarrow> x_active (txn tm' j) \<Longrightarrow> j \<noteq> i \<and> (\<exists>c. txn tm' j = (txn tm j)\<lparr>x_child_index := c\<rparr>)"
    by blast+
qed

end
