(* ===== verification/Usipy_Tmuas.thy ===== *)
theory Usipy_Tmuas
  imports Usipy_Tmsteps
begin

unbundle bit_operations_syntax

text \<open>
  Component \<open>usipy_sip_tm_uas\<close> (\<open>src/usipy_sip_tm_uas.c\<close>): server transactions. A request opens a
  slot that keeps what its responses repeat; a response is built into the slot and sent by the timer
  pump; ACK, CANCEL and retransmitted requests are matched to their transaction. A \<open>-1\<close> of a
  helper is \<open>USIPY_SIP_TM_ERR_NOSPC\<close>, what every caller makes of it.
\<close>

subsection \<open>Timers\<close>

definition usipy_sip_tm_uas_copy_addr ::
  "(usipy_sip_tm_addr \<Rightarrow> usipy_sip_tm_txi \<Rightarrow> usipy_sip_tm_txi) \<Rightarrow> usipy_sip_tm_addr \<Rightarrow> tx_act" where
  "usipy_sip_tm_uas_copy_addr put src tp =
     (if length (ad_host src) = 0 then Some (USIPY_SIP_TM_OK, put src tp)
      else act_keep (ad_host src) (\<lambda>s. put (src\<lparr>ad_host := s\<rparr>)) tp)"

definition usipy_sip_tm_timer_j_ms :: "usipy_sip_tm_timer_policy \<Rightarrow> uint32 abortable" where
  "usipy_sip_tm_timer_j_ms tp = do {
     dassert (timer_j_ms tp \<noteq> 0 \<or> t1_ms tp \<noteq> 0);
     Some (if timer_j_ms tp \<noteq> 0 then timer_j_ms tp else t1_ms tp * 64)
   }"

definition usipy_sip_tm_timer_h_ms :: "usipy_sip_tm_timer_policy \<Rightarrow> uint32 abortable" where
  "usipy_sip_tm_timer_h_ms tp = do { dassert (t1_ms tp \<noteq> 0); Some (t1_ms tp * 64) }"

definition usipy_sip_tm_timer_l_ms :: "usipy_sip_tm_timer_policy \<Rightarrow> uint32 abortable" where
  "usipy_sip_tm_timer_l_ms tp = do {
     dassert (timer_l_ms tp \<noteq> 0 \<or> t1_ms tp \<noteq> 0);
     Some (if timer_l_ms tp \<noteq> 0 then timer_l_ms tp else t1_ms tp * 64)
   }"

definition usipy_sip_tm_timer_i_ms :: "usipy_sip_tm_timer_policy \<Rightarrow> uint32 abortable" where
  "usipy_sip_tm_timer_i_ms tp = do { dassert (t4_ms tp \<noteq> 0); Some (t4_ms tp) }"

definition usipy_sip_tm_uas_is_invite_non2xx_final :: "usipy_sip_tm_txi \<Rightarrow> bool" where
  "usipy_sip_tm_uas_is_invite_non2xx_final tp \<longleftrightarrow>
     x_method_type tp = USIPY_SIP_METHOD_INVITE \<and> x_last_status_code tp \<ge> 300"

text \<open>The shift is on 64 bits and below 31, the count of transmissions an 8-bit number that wraps.\<close>

definition usipy_sip_tm_uas_invite_next_send_delay_ms :: "usipy_sip_tm_txi \<Rightarrow> uint32 abortable" where
  "usipy_sip_tm_uas_invite_next_send_delay_ms tp = do {
     dassert (t1_ms (x_timers tp) \<noteq> 0);
     dassert (t2_ms (x_timers tp) \<noteq> 0);
     let t1 = t1_ms (x_timers tp); t2 = t2_ms (x_timers tp);
         shift = (if x_retransmit_count tp > 0 then x_retransmit_count tp - 1 else 0);
         delay = push_bit (unat shift) (ucast t1 :: 64 word) in
     Some (if shift \<ge> 31 then t2 else if delay > ucast t2 then t2 else ucast delay)
   }"

text \<open>The method is given by its number; what the message said of it is not part of the hash.\<close>

definition usipy_sip_tm_uas_method_hash :: "usipy_sip_tm_txi \<Rightarrow> nat \<Rightarrow> uint32" where
  "usipy_sip_tm_uas_method_hash tp method_type =
     usipy_sip_tid_hash \<lparr>tid_hash = 0, tid_call_id = id_call_id (x_id tp),
       tid_from_tag = ref_text (x_scratch tp) (id_from_tag (x_id tp)),
       tid_cseq = \<lparr>cseq_onwire_method = [], cseq_val = id_cseq (x_id tp), cseq_method = method_type\<rparr>,
       tid_vbranch = ref_text (x_scratch tp) (id_branch (x_id tp))\<rparr>"

subsection \<open>Matching requests\<close>

text \<open>The strings of an id that the three matches compare.\<close>

definition same_call :: "usipy_sip_tid \<Rightarrow> usipy_sip_tm_txi \<Rightarrow> bool" where
  "same_call tidp tp \<longleftrightarrow> usipy_str_eq (tid_call_id tidp) (id_call_id (x_id tp)) \<and>
     usipy_str_eq (tid_from_tag tidp) (ref_text (x_scratch tp) (id_from_tag (x_id tp)))"

definition same_branch :: "usipy_sip_tid \<Rightarrow> usipy_sip_tm_txi \<Rightarrow> bool" where
  "same_branch tidp tp \<longleftrightarrow> usipy_str_eq (tid_vbranch tidp) (ref_text (x_scratch tp) (id_branch (x_id tp)))"

definition usipy_sip_tm_uas_ack_matches_tx ::
  "usipy_sip_tid \<Rightarrow> string option \<Rightarrow> uint32 \<Rightarrow> usipy_sip_tm_txi \<Rightarrow> bool" where
  "usipy_sip_tm_uas_ack_matches_tx tidp to_tagp dialog_hash tp =
     (if cseq_method (tid_cseq tidp) \<noteq> USIPY_SIP_METHOD_ACK \<or> x_role tp \<noteq> USIPY_SIP_TM_ROLE_UAS \<or>
         id_method_type (x_id tp) \<noteq> USIPY_SIP_METHOD_INVITE \<or>
         (x_state tp \<noteq> USIPY_SIP_TM_STATE_COMPLETED \<and> x_state tp \<noteq> USIPY_SIP_TM_STATE_ACCEPTED) \<or>
         sc_ack_hash (x_uas tp) = 0 then False
      else if x_last_status_code tp \<ge> 200 \<and> x_last_status_code tp < 300 then
        (case to_tagp of
           None \<Rightarrow> False
         | Some tag \<Rightarrow>
             if tag = [] \<or> dialog_hash \<noteq> sc_ack_hash (x_uas tp) then False
             else if \<not> same_call tidp tp \<or> \<not> usipy_str_eq tag (x_to_tag tp) then False
             else cseq_val (tid_cseq tidp) = id_cseq (x_id tp))
      else if tid_hash tidp \<noteq> sc_ack_hash (x_uas tp) then False
      else if \<not> same_call tidp tp \<or> \<not> same_branch tidp tp then False
      else cseq_val (tid_cseq tidp) = id_cseq (x_id tp))"

text \<open>The first slot that satisfies a condition.\<close>

definition find_slot :: "(usipy_sip_tm_txi \<Rightarrow> bool) \<Rightarrow> 'a usipy_sip_tm \<Rightarrow> nat option" where
  "find_slot P tm = find (\<lambda>i. P (txn tm i)) [0..<max_transactions tm]"

definition usipy_sip_tm_find_uas_ack_transaction ::
  "string \<Rightarrow> 'a usipy_sip_tm \<Rightarrow> usipy_msg \<Rightarrow> usipy_sip_tid \<Rightarrow> (nat option \<times> usipy_msg) abortable" where
  "usipy_sip_tm_find_uas_ack_transaction stk tm msg tidp = do {
     (matchp, msg) \<leftarrow> usipy_sip_msg_parse_hdrs_get stk msg (USIPY_HFT_MASK USIPY_HF_TO) True (length (m_hdrs msg));
     case matchp of
       None \<Rightarrow> Some (None, msg)
     | Some [] \<Rightarrow> Some (None, msg)
     | Some (i # _) \<Rightarrow>
         (case h_parsed (m_hdrs msg ! i) of
            P_null \<Rightarrow> Some (None, msg)
          | P_nameaddr hto \<Rightarrow>
              let to_tagp = usipy_sip_hdr_nameaddr_get_param hto ''tag'';
                  dialog_hash = (case to_tagp of
                      None \<Rightarrow> 0
                    | Some tag \<Rightarrow>
                        if length tag \<noteq> 0
                        then usipy_sip_dialog_tid_hash (tid_call_id tidp) (tid_from_tag tidp) tag
                               (cseq_val (tid_cseq tidp)) USIPY_SIP_METHOD_ACK
                        else 0) in
              Some (find_slot (\<lambda>tp. x_active tp \<and> usipy_sip_tm_uas_ack_matches_tx tidp to_tagp dialog_hash tp) tm, msg)
          | _ \<Rightarrow> None)
   }"

definition usipy_sip_tm_find_uas_transaction :: "'a usipy_sip_tm \<Rightarrow> usipy_sip_tid \<Rightarrow> nat option" where
  "usipy_sip_tm_find_uas_transaction tm tidp =
     find_slot (\<lambda>tp. \<not> (\<not> x_active tp \<or> x_role tp \<noteq> USIPY_SIP_TM_ROLE_UAS) \<and>
       usipy_sip_tm_tid_matches_tx tidp tp) tm"

definition usipy_sip_tm_uas_cancel_matches_tx :: "usipy_sip_tid \<Rightarrow> usipy_sip_tm_txi \<Rightarrow> bool" where
  "usipy_sip_tm_uas_cancel_matches_tx tidp tp =
     (if x_role tp \<noteq> USIPY_SIP_TM_ROLE_UAS \<or> id_method_type (x_id tp) \<noteq> USIPY_SIP_METHOD_INVITE \<or>
         tid_hash tidp \<noteq> sc_cancel_hash (x_uas tp) \<or>
         x_state tp = USIPY_SIP_TM_STATE_COMPLETED \<or> x_state tp = USIPY_SIP_TM_STATE_ACCEPTED \<or>
         x_state tp = USIPY_SIP_TM_STATE_CONFIRMED \<or> x_state tp = USIPY_SIP_TM_STATE_TERMINATED then False
      else if \<not> same_call tidp tp \<or> \<not> same_branch tidp tp then False
      else cseq_val (tid_cseq tidp) = id_cseq (x_id tp))"

definition usipy_sip_tm_find_uas_cancel_transaction ::
  "'a usipy_sip_tm \<Rightarrow> usipy_sip_tid \<Rightarrow> nat option abortable" where
  "usipy_sip_tm_find_uas_cancel_transaction tm tidp = do {
     dassert (cseq_method (tid_cseq tidp) = USIPY_SIP_METHOD_CANCEL);
     Some (find_slot (\<lambda>tp. x_active tp \<and> usipy_sip_tm_uas_cancel_matches_tx tidp tp) tm)
   }"

subsection \<open>The timer pump: small steps\<close>

definition usipy_sip_tm_uas_run_out_consider ::
  "time_ms \<Rightarrow> usipy_sip_tm_run_out option \<Rightarrow> usipy_sip_tm_run_out option abortable" where
  "usipy_sip_tm_uas_run_out_consider when_ms outp =
     (case outp of
        None \<Rightarrow> None
      | Some out \<Rightarrow>
          if when_ms = USIPY_SIP_TM_TIME_NONE then Some (Some out)
          else if ro_next_run_at_ms out = USIPY_SIP_TM_TIME_NONE \<or> when_ms < ro_next_run_at_ms out
          then Some (Some (out\<lparr>ro_next_run_at_ms := when_ms\<rparr>))
          else Some (Some out))"

definition usipy_sip_tm_uas_mark_terminated :: "usipy_sip_tm_txi \<Rightarrow> usipy_sip_tm_txi" where
  "usipy_sip_tm_uas_mark_terminated tp =
     sync_outbound (set_next_send USIPY_SIP_TM_TIME_NONE (stop_timer
       (raise_flag USIPY_SIP_TM_F_TERMINATED (tp\<lparr>x_state := USIPY_SIP_TM_STATE_TERMINATED\<rparr>))))"

definition usipy_sip_tm_uas_post_send_invite_final ::
  "time_ms \<Rightarrow> usipy_sip_tm_txi \<Rightarrow> usipy_sip_tm_run_out option \<Rightarrow>
     (usipy_sip_tm_txi \<times> usipy_sip_tm_run_out option) abortable" where
  "usipy_sip_tm_uas_post_send_invite_final now tp outp = do {
     let tp = (if tmr_due_at_ms (x_timer tp) = USIPY_SIP_TM_TIME_NONE
               then tp\<lparr>x_timer := (x_timer tp)\<lparr>tmr_due_at_ms := now + ucast (tmr_value_ms (x_timer tp))\<rparr>\<rparr>
               else tp);
     (tp, outp) \<leftarrow>
       (if \<not> reliable tp then do {
          delay \<leftarrow> usipy_sip_tm_uas_invite_next_send_delay_ms tp;
          let tp = sync_outbound (set_next_send (now + ucast delay) tp);
          outp \<leftarrow> usipy_sip_tm_uas_run_out_consider (ob_next_send_at_ms (x_outbound tp)) outp;
          Some (tp, outp)
        }
        else Some (tp, outp));
     outp \<leftarrow> usipy_sip_tm_uas_run_out_consider (tmr_due_at_ms (x_timer tp)) outp;
     Some (tp, outp)
   }"

definition usipy_sip_tm_uas_post_send_final ::
  "time_ms \<Rightarrow> usipy_sip_tm_txi \<Rightarrow> usipy_sip_tm_run_out option \<Rightarrow>
     (usipy_sip_tm_txi \<times> usipy_sip_tm_run_out option) abortable" where
  "usipy_sip_tm_uas_post_send_final now tp outp =
     (if reliable tp then Some (usipy_sip_tm_uas_mark_terminated tp, outp)
      else do {
        v \<leftarrow> usipy_sip_tm_timer_j_ms (x_timers tp);
        let tp = set_timer USIPY_SIP_TM_TIMER_J v (now + ucast v) tp;
        outp \<leftarrow> usipy_sip_tm_uas_run_out_consider (tmr_due_at_ms (x_timer tp)) outp;
        Some (tp, outp)
      })"

definition usipy_sip_tm_uas_handle_ack :: "time_ms \<Rightarrow> usipy_sip_tm_txi \<Rightarrow> usipy_sip_tm_txi abortable" where
  "usipy_sip_tm_uas_handle_ack now tp =
     (let tp = sync_outbound (set_next_send USIPY_SIP_TM_TIME_NONE tp) in
      if reliable tp then Some (usipy_sip_tm_uas_mark_terminated tp)
      else do {
        v \<leftarrow> usipy_sip_tm_timer_i_ms (x_timers tp);
        Some (set_timer USIPY_SIP_TM_TIMER_I v (now + ucast v) (tp\<lparr>x_state := USIPY_SIP_TM_STATE_CONFIRMED\<rparr>))
      })"

definition usipy_sip_tm_uas_report_consumed_request :: "nat \<Rightarrow> usipy_sip_tm_handle_incoming_out" where
  "usipy_sip_tm_uas_report_consumed_request tx_index =
     \<lparr>hout_error = USIPY_SIP_TM_OK, hout_consumed = True, hout_match_kind = USIPY_SIP_TM_MATCH_EXISTING,
      hout_event = USIPY_SIP_TM_EVENT_REQUEST_RX, hout_transaction_index = Some tx_index\<rparr>"

definition usipy_sip_tm_uas_handle_cancel ::
  "'a tm_env \<Rightarrow> 'a usipy_sip_tm \<Rightarrow> nat \<Rightarrow> usipy_msg \<Rightarrow>
     (usipy_sip_tm_handle_incoming_out \<times> 'a usipy_sip_tm) abortable" where
  "usipy_sip_tm_uas_handle_cancel ev tm tx_index msg = do {
     let cb = x_uas_callbacks (txn tm tx_index);
     tm \<leftarrow> (case scb_cancel cb of
         None \<Rightarrow> Some tm
       | Some f \<Rightarrow> ev_uas_cancel ev f (scb_arg cb) tx_index msg tm);
     Some (usipy_sip_tm_uas_report_consumed_request tx_index, tm)
   }"

subsection \<open>The text of a response\<close>

definition usipy_sip_tm_uas_scode2str :: "uint32 \<Rightarrow> string" where
  "usipy_sip_tm_uas_scode2str scode =
     [char_of (48 + unat scode div 100), char_of (48 + (unat scode mod 100) div 10),
      char_of (48 + unat scode mod 10), SP]"

definition usipy_sip_tm_uas_include_to_tag :: "usipy_sip_tm_txi \<Rightarrow> usipy_sip_status \<Rightarrow> bool" where
  "usipy_sip_tm_uas_include_to_tag tp slp =
     (if st_code slp = 100 then False else length (x_to_tag tp) \<noteq> 0)"

definition usipy_sip_tm_uas_copy_record_route :: "usipy_sip_tm_txi \<Rightarrow> usipy_sip_status \<Rightarrow> bool" where
  "usipy_sip_tm_uas_copy_record_route tp slp =
     (if x_method_type tp \<noteq> USIPY_SIP_METHOD_INVITE then False
      else if st_code slp > 100 \<and> st_code slp < 200 then length (x_to_tag tp) \<noteq> 0
      else st_code slp \<ge> 200 \<and> st_code slp < 300)"

text \<open>A chain of \<open>APPEND_STR\<close> and \<open>APPEND_MEM\<close>.\<close>

fun append_all :: "nat \<Rightarrow> string list \<Rightarrow> string \<Rightarrow> string option" where
  "append_all len [] buf = Some buf"
| "append_all len (s # ss) buf = do { buf \<leftarrow> USIPY_APPEND_STR len s buf; append_all len ss buf }"

definition hdr_pieces :: "nat \<Rightarrow> string \<Rightarrow> string list" where
  "hdr_pieces ty val = [he_name (usipy_hdr_db_byid ty), '': '', val, CRLF]"

text \<open>
  The extra headers: the types must be those of the table (its entries are read without a check), the
  values raw.
\<close>

fun extra_hdrs :: "nat \<Rightarrow> usipy_sip_tm_extra_header list \<Rightarrow> string \<Rightarrow> string option abortable" where
  "extra_hdrs len [] buf = Some (Some buf)"
| "extra_hdrs len (eh # ehs) buf = do {
     dassert (eh_hf_type eh < length usipy_hdr_db);
     let hf = usipy_hdr_db_byid (eh_hf_type eh);
     if he_cantype hf \<noteq> eh_hf_type eh \<or> eh_value_kind eh \<noteq> USIPY_SIP_TM_EH_RAW then Some None
     else (case append_all len (hdr_pieces (eh_hf_type eh) (case eh_value eh of None \<Rightarrow> [] | Some v \<Rightarrow> v)) buf of
             None \<Rightarrow> Some None
           | Some buf \<Rightarrow> extra_hdrs len ehs buf)
   }"

definition usipy_sip_tm_uas_build_response_cb ::
  "string \<Rightarrow> string \<Rightarrow> usipy_sip_tm_txi \<Rightarrow> usipy_sip_tm_uas_response_params \<Rightarrow> nat \<Rightarrow> string option abortable" where
  "usipy_sip_tm_uas_build_response_cb server luri tp rpp len =
     (let slp = urp_status rpp; uas = x_uas tp;
          content_type = (case urp_content_type rpp of None \<Rightarrow> [] | Some s \<Rightarrow> s);
          body = (case urp_body rpp of None \<Rightarrow> [] | Some s \<Rightarrow> s);
          name = (\<lambda>ty. he_name (usipy_hdr_db_byid ty));
          contact = (if length (sc_local_contact_uri uas) = 0 then luri else sc_local_contact_uri uas) in
      case do {
        buf \<leftarrow> append_all len [''SIP/2.0 '', usipy_sip_tm_uas_scode2str (st_code slp),
          st_reason_phrase slp, CRLF] [];
        buf \<leftarrow> append_all len (concat (map (hdr_pieces USIPY_HF_VIA) (sc_vias uas))) buf;
        buf \<leftarrow> append_all len (hdr_pieces USIPY_HF_FROM (sc_from uas)) buf;
        buf \<leftarrow> append_all len [name USIPY_HF_TO, '': '', sc_to uas] buf;
        buf \<leftarrow> (if usipy_sip_tm_uas_include_to_tag tp slp
               then append_all len ['';tag='', x_to_tag tp] buf else Some buf);
        buf \<leftarrow> append_all len [CRLF] buf;
        buf \<leftarrow> append_all len (hdr_pieces USIPY_HF_CALLID (x_call_id tp)) buf;
        buf \<leftarrow> append_all len [name USIPY_HF_CSEQ, '': ''] buf;
        buf \<leftarrow> snprintf_at (dec (unat (cseq_val (x_cseq tp))) @ '' '' @ pct_s (usipy_method_db ! x_method_type tp)) len buf;
        buf \<leftarrow> append_all len [CRLF] buf;
        buf \<leftarrow> (if usipy_sip_tm_uas_copy_record_route tp slp
               then append_all len (concat (map (hdr_pieces USIPY_HF_RECORDROUTE) (sc_record_routes uas))) buf
               else Some buf);
        buf \<leftarrow> (if x_method_type tp = USIPY_SIP_METHOD_INVITE \<and> st_code slp \<ge> 200 \<and> st_code slp < 300
               then append_all len [name USIPY_HF_CONTACT, '': '', ''<'', contact, ''>'', CRLF] buf
               else Some buf);
        (if length server \<noteq> 0 then append_all len (hdr_pieces USIPY_HF_SERVER server) buf else Some buf)
      } of
        None \<Rightarrow> Some None
      | Some buf \<Rightarrow> do {
          r \<leftarrow> extra_hdrs len (urp_extra_headers rpp) buf;
          Some (do {
            buf \<leftarrow> r;
            buf \<leftarrow> (if length body \<noteq> 0 \<and> length content_type \<noteq> 0
                   then append_all len (hdr_pieces USIPY_HF_CONTENTTYPE content_type) buf else Some buf);
            buf \<leftarrow> append_all len [name USIPY_HF_CONTENTLENGTH, '': ''] buf;
            (if length (dec (length body)) \<ge> 32 then None else Some ());
            buf \<leftarrow> append_all len [dec (length body), CRLF, CRLF] buf;
            (if length body \<noteq> 0 then append_all len [body] buf else Some buf)
          })
        })"

subsection \<open>Opening a transaction\<close>

text \<open>The structure of a name-addr is a C object too: 32 bytes per parameter.\<close>

definition usipy_sip_tm_uas_copy_nameaddr_without_param ::
  "usipy_sip_hdr_nameaddr \<Rightarrow> string \<Rightarrow> (string \<Rightarrow> usipy_sip_tm_txi \<Rightarrow> usipy_sip_tm_txi) \<Rightarrow> tx_act" where
  "usipy_sip_tm_uas_copy_nameaddr_without_param nap skip_param put tp = do {
     dassert (length (na_params nap) < 2 ^ 50);
     let copy = nap\<lparr>na_params := filter (\<lambda>pp. \<not> usipy_str_eq (tv_token pp) skip_param) (na_params nap)\<rparr>;
     case usipy_msg_heap_build (x_scratch tp) (usipy_sip_hdr_nameaddr_build copy) of
       (None, h) \<Rightarrow> Some (USIPY_SIP_TM_ERR_NOSPC, tp\<lparr>x_scratch := h\<rparr>)
     | (Some sl, h) \<Rightarrow>
         acts [act_alloc (NA_SIZEOF (length (na_params nap))), act_set (put (slice_read h sl))]
           (tp\<lparr>x_scratch := h\<rparr>)
   }"

text \<open>Copies of header values, one after the other, behind an array for their slices.\<close>

fun copy_values ::
  "string list \<Rightarrow> string list \<Rightarrow> (string list \<Rightarrow> usipy_sip_tm_txi \<Rightarrow> usipy_sip_tm_txi) \<Rightarrow> tx_act" where
  "copy_values [] acc put tp = Some (USIPY_SIP_TM_OK, put acc tp)"
| "copy_values (v # vs) acc put tp = do {
     dassert (c_object v);
     case usipy_msg_heap_append (x_scratch tp) v of
       (None, h) \<Rightarrow> Some (USIPY_SIP_TM_ERR_NOSPC, tp\<lparr>x_scratch := h\<rparr>)
     | (Some sl, h) \<Rightarrow> copy_values vs (acc @ [slice_read h sl]) put (tp\<lparr>x_scratch := h\<rparr>)
   }"

abbreviation (input) sizeof_usipy_str :: nat where "sizeof_usipy_str \<equiv> 16"

definition usipy_sip_tm_uas_copy_hdrs ::
  "string list \<Rightarrow> (string list \<Rightarrow> usipy_sip_tm_txi \<Rightarrow> usipy_sip_tm_txi) \<Rightarrow> tx_act" where
  "usipy_sip_tm_uas_copy_hdrs vs put =
     (if vs = [] then act_set (put [])
      else acts [act_alloc (of_nat (sizeof_usipy_str * length vs)), copy_values vs [] put])"

text \<open>
  The slice of \<open>dst_base\<close> at the place \<open>src\<close> has in \<open>src_base\<close>, \<open>off\<close> bytes after its start. The outer
  \<open>None\<close> is the \<open>-1\<close> of the code; the code looks at the length of \<open>src_base\<close> only, and the inner \<open>None\<close> is
  a slice that leaves \<open>dst_base\<close>.
\<close>

definition usipy_sip_tm_uas_rebase_substr ::
  "string \<Rightarrow> string \<Rightarrow> nat \<Rightarrow> string \<Rightarrow> string option option" where
  "usipy_sip_tm_uas_rebase_substr src_base dst_base off src =
     (if length src = 0 then Some (Some [])
      else if off > length src_base \<or> length src > length src_base - off then None
      else Some (if off + length src \<le> length dst_base then Some (take (length src) (drop off dst_base)) else None))"

text \<open>Where the parser of a name-addr finds the address in the value.\<close>

definition na_addr_off :: "string \<Rightarrow> nat" where
  "na_addr_off v =
     (case memchr CHR ''<'' v of
        None \<Rightarrow> 0
      | Some r \<Rightarrow> length v - length (usipy_str_ltrm_b (drop (r + 1) v)))"

text \<open>The headers the loop over the request picks: every Via and Record-Route, the first of the others.\<close>

definition hdrs_of :: "usipy_msg \<Rightarrow> nat \<Rightarrow> usipy_sip_hdr list" where
  "hdrs_of msg ty = filter (\<lambda>shp. hdr_cantype shp = ty) (m_hdrs msg)"

text \<open>
  The second half of \<open>usipy_sip_tm_uas_cache_request\<close>: the copies, in order. From, branch and From tag
  are slices of values that are copied unchanged: the rebased slice has the same text. The To value is
  written anew without its tag, and its address is looked for at the old place.
\<close>

definition uas_cache_contact :: "usipy_sip_hdr list \<Rightarrow> tx_act" where
  "uas_cache_contact contacts =
     (case contacts of
        contactp # _ \<Rightarrow>
          (case h_parsed contactp of
             P_nameaddr cna \<Rightarrow>
               if length (na_addr_spec cna) \<noteq> 0
               then act_keep (na_addr_spec cna) (\<lambda>s t. t\<lparr>x_uas := (x_uas t)\<lparr>sc_contact_uri := s\<rparr>\<rparr>)
               else act_set id
           | P_null \<Rightarrow> act_set id
           | _ \<Rightarrow> (\<lambda>_. None))
      | [] \<Rightarrow> act_set id)"

definition uas_cache_to_uri :: "string \<Rightarrow> string \<Rightarrow> tx_act" where
  "uas_cache_to_uri to_value addr_spec t =
     (case usipy_sip_tm_uas_rebase_substr to_value (sc_to (x_uas t)) (na_addr_off to_value) addr_spec of
        None \<Rightarrow> Some (USIPY_SIP_TM_ERR_NOSPC, t)
      | Some u \<Rightarrow> Some (USIPY_SIP_TM_OK, t\<lparr>x_uas := (x_uas t)\<lparr>sc_to_uri := u\<rparr>\<rparr>))"

definition uas_cache_steps ::
  "usipy_sip_tid \<Rightarrow> usipy_sip_request_line \<Rightarrow> usipy_sip_hdr \<times> usipy_sip_hdr_nameaddr \<Rightarrow>
     usipy_sip_hdr \<times> usipy_sip_hdr_nameaddr \<Rightarrow> usipy_sip_hdr_cseq \<Rightarrow> string list \<Rightarrow> string list \<Rightarrow>
     usipy_sip_hdr list \<Rightarrow> tx_act list" where
  "uas_cache_steps tidp rl f t cseq vias rrs contacts =
     [act_keep (h_value (fst f)) (\<lambda>s t. t\<lparr>x_uas := (x_uas t)\<lparr>sc_from := s\<rparr>\<rparr>),
      usipy_sip_tm_uas_copy_nameaddr_without_param (snd t) ''tag''
        (\<lambda>s t. t\<lparr>x_uas := (x_uas t)\<lparr>sc_to := s\<rparr>\<rparr>),
      act_keep (rl_onwire_ruri rl) (\<lambda>s t. t\<lparr>x_uas := (x_uas t)\<lparr>sc_request_uri := s\<rparr>\<rparr>),
      act_set (\<lambda>t. t\<lparr>x_uas := (x_uas t)\<lparr>sc_from_uri := na_addr_spec (snd f)\<rparr>\<rparr>),
      uas_cache_to_uri (h_value (fst t)) (na_addr_spec (snd t)),
      usipy_sip_tm_uas_copy_hdrs vias (\<lambda>vs t. t\<lparr>x_uas := (x_uas t)\<lparr>sc_vias := vs\<rparr>\<rparr>),
      act_set (\<lambda>t. t\<lparr>x_branch := Kept (tid_vbranch tidp)\<rparr>),
      usipy_sip_tm_uas_copy_hdrs rrs (\<lambda>vs t. t\<lparr>x_uas := (x_uas t)\<lparr>sc_record_routes := vs\<rparr>\<rparr>),
      uas_cache_contact contacts,
      act_set (\<lambda>t. t\<lparr>x_from_tag := Kept (tid_from_tag tidp), x_cseq := cseq\<rparr>)]"

definition usipy_sip_tm_uas_cache_request ::
  "string \<Rightarrow> usipy_msg \<Rightarrow> usipy_sip_tid \<Rightarrow> usipy_sip_tm_txi \<Rightarrow>
     (usipy_sip_tm_error \<times> usipy_msg \<times> usipy_sip_tm_txi) abortable" where
  "usipy_sip_tm_uas_cache_request stk reqp tidp tp = do {
     let parse_mask = USIPY_HFT_MASK USIPY_HF_FROM OR USIPY_HFT_MASK USIPY_HF_TO OR USIPY_HFT_MASK USIPY_HF_CSEQ;
     let parse_mask = (if USIPY_HF_ISMSET (m_present reqp) USIPY_HF_CONTACT
                       then parse_mask OR USIPY_HFT_MASK USIPY_HF_CONTACT else parse_mask);
     (ok, reqp) \<leftarrow> usipy_sip_msg_parse_hdrs stk reqp parse_mask False;
     if \<not> ok then Some (USIPY_SIP_TM_ERR_NOSPC, reqp, tp)
     else do {
       let vias = map h_value (hdrs_of reqp USIPY_HF_VIA);
       let rrs = map h_value (hdrs_of reqp USIPY_HF_RECORDROUTE);
       dassert (length vias \<le> 32);
       dassert (length rrs \<le> 32);
       case (hdrs_of reqp USIPY_HF_FROM, hdrs_of reqp USIPY_HF_TO, hdrs_of reqp USIPY_HF_CSEQ, sln_parsed (m_sline reqp)) of
         (fromp # _, hto # _, cseqp # _, SL_request rl) \<Rightarrow>
           if vias = [] then Some (USIPY_SIP_TM_ERR_NOSPC, reqp, tp)
           else
             (case (h_parsed fromp, h_parsed hto, h_parsed cseqp) of
                (P_nameaddr fna, P_nameaddr tna, P_cseq cseq) \<Rightarrow> do {
                  (r, tp) \<leftarrow> acts (uas_cache_steps tidp rl (fromp, fna) (hto, tna) cseq vias rrs
                    (hdrs_of reqp USIPY_HF_CONTACT)) tp;
                  Some (r, reqp, tp)
                }
              | _ \<Rightarrow> None)
       | _ \<Rightarrow> None
     }
   }"

definition usipy_sip_tm_uas_format_local_contact_uri ::
  "usipy_sip_tm_addr \<Rightarrow> (string \<Rightarrow> usipy_sip_tm_txi \<Rightarrow> usipy_sip_tm_txi) \<Rightarrow> tx_act" where
  "usipy_sip_tm_uas_format_local_contact_uri localp put tp =
     (let port = dec (unat (ad_port localp));
          fmt = (\<lambda>txt. act_printf txt (\<lambda>sl t. put (slice_read (x_scratch t) sl) t) tp) in
      case ad_af localp of
        AF_INET \<Rightarrow> fmt (''sip:'' @ pct_s (ad_host localp) @ '':'' @ port)
      | AF_INET6 \<Rightarrow> fmt (''sip:['' @ pct_s (ad_host localp) @ '']:'' @ port)
      | _ \<Rightarrow> Some (USIPY_SIP_TM_ERR_NOSPC, tp))"

definition usipy_sip_tm_uas_prepare_default_local_tag :: "nat \<Rightarrow> tx_act" where
  "usipy_sip_tm_uas_prepare_default_local_tag tx_index =
     act_printf (''t'' @ dec tx_index @ ''-1'') (\<lambda>sl t. t\<lparr>x_to_tag := slice_read (x_scratch t) sl\<rparr>)"

definition usipy_sip_tm_uas_prepare_local_tag ::
  "'a tm_env \<Rightarrow> 'a usipy_sip_tm \<Rightarrow> nat \<Rightarrow> uint32 \<Rightarrow> nat \<Rightarrow> tx_act" where
  "usipy_sip_tm_uas_prepare_local_tag ev tm tx_index cseq method_type tp =
     (case tm_id_policy tm of
        None \<Rightarrow> usipy_sip_tm_uas_prepare_default_local_tag tx_index tp
      | Some cb \<Rightarrow>
          (case ev_id_policy ev cb (tm_id_policy_arg tm) (x_scratch tp)
                  \<lparr>ipi_transaction_index = tx_index, ipi_cseq = cseq, ipi_method_type = method_type\<rparr> of
             (None, h) \<Rightarrow> Some (USIPY_SIP_TM_ERR_NOSPC, tp\<lparr>x_scratch := h\<rparr>)
           | (Some ids, h) \<Rightarrow>
               if ref_len (ipo_local_tag ids) = 0 then Some (USIPY_SIP_TM_ERR_NOSPC, tp\<lparr>x_scratch := h\<rparr>)
               else Some (USIPY_SIP_TM_OK, tp\<lparr>x_scratch := h, x_to_tag := ref_text h (ipo_local_tag ids)\<rparr>)))"

text \<open>Everything \<open>usipy_sip_tm_new_uas_tr\<close> stores in the slot before it takes the checkpoint.\<close>

definition uas_fill ::
  "'a tm_env \<Rightarrow> 'a usipy_sip_tm \<Rightarrow> usipy_sip_tm_new_uas_tr_params \<Rightarrow> usipy_sip_tid \<Rightarrow> usipy_msg \<Rightarrow> nat \<Rightarrow>
     nat \<Rightarrow> usipy_sip_tm_txi \<Rightarrow> (usipy_sip_tm_error \<times> usipy_msg \<times> usipy_sip_tm_txi) abortable" where
  "uas_fill ev tm tpp tid req method_type tx_index tp = do {
     (r, tp) \<leftarrow> act_keep (tid_call_id tid) (\<lambda>s t. t\<lparr>x_call_id := s\<rparr>) tp;
     if r \<noteq> USIPY_SIP_TM_OK then Some (r, req, tp)
     else do {
       (r, req, tp) \<leftarrow> usipy_sip_tm_uas_cache_request (ev_stk ev) req tid tp;
       if r \<noteq> USIPY_SIP_TM_OK then Some (r, req, tp)
       else do {
         (r, tp) \<leftarrow> acts
           [usipy_sip_tm_uas_format_local_contact_uri (nus_local tpp)
              (\<lambda>s t. t\<lparr>x_uas := (x_uas t)\<lparr>sc_local_contact_uri := s\<rparr>\<rparr>),
            usipy_sip_tm_uas_prepare_local_tag ev tm tx_index (cseq_val (tid_cseq tid)) method_type,
            usipy_sip_tm_uas_copy_addr (\<lambda>a t. t\<lparr>x_peer := a\<rparr>) (nus_peer tpp),
            usipy_sip_tm_uas_copy_addr (\<lambda>a t. t\<lparr>x_local := a\<rparr>) (nus_local tpp)] tp;
         Some (r, req, tp)
       }
     }
   }"

text \<open>The slot becomes an active transaction.\<close>

definition uas_activate ::
  "usipy_sip_tm_transport \<Rightarrow> usipy_sip_tm_timer_policy option \<Rightarrow> usipy_sip_tid \<Rightarrow> usipy_sip_tm_txi \<Rightarrow>
     usipy_sip_tm_txi abortable" where
  "uas_activate transport timers tid tp = do {
     (cp, h) \<leftarrow> usipy_msg_heap_checkpoint (x_scratch tp);
     let ob = \<lparr>ob_target = x_peer tp, ob_raw = slice_null, ob_next_send_at_ms = USIPY_SIP_TM_TIME_NONE\<rparr>;
     let tp = tp\<lparr>x_scratch := h, x_checkpoint := cp, x_active := True, x_role := USIPY_SIP_TM_ROLE_UAS,
       x_state := USIPY_SIP_TM_STATE_TRYING,
       x_flags := (if transport = USIPY_SIP_TM_TRANSPORT_UDP then 0 else USIPY_SIP_TM_F_RELIABLE_TRANSPORT),
       x_outbound := ob, x_pub_outbound := ob, x_timers := usipy_sip_tm_timer_policy_resolve timers,
       x_id := \<lparr>id_hash = tid_hash tid, id_branch = x_branch tp, id_call_id = x_call_id tp,
         id_from_tag = x_from_tag tp, id_cseq = cseq_val (tid_cseq tid), id_method_type = x_method_type tp\<rparr>\<rparr>;
     let cancel_hash = (if x_method_type tp = USIPY_SIP_METHOD_INVITE \<and> scb_cancel (x_uas_callbacks tp) \<noteq> None
                        then usipy_sip_tm_uas_method_hash tp USIPY_SIP_METHOD_CANCEL else 0);
     Some (tp\<lparr>x_uas := (x_uas tp)\<lparr>sc_cancel_hash := cancel_hash\<rparr>, x_last_status_code := 0, x_role_byte := 0\<rparr>)
   }"

definition usipy_sip_tm_new_uas_tr ::
  "'a tm_env \<Rightarrow> 'a usipy_sip_tm \<Rightarrow> usipy_sip_tm_new_uas_tr_params \<Rightarrow>
     (usipy_sip_tm_error \<times> nat option \<times> usipy_msg \<times> 'a usipy_sip_tm) abortable" where
  "usipy_sip_tm_new_uas_tr ev tm tpp = do {
     let req = nus_request tpp;
     dassert (m_kind req = USIPY_SIP_MSG_REQ);
     case sln_parsed (m_sline req) of
       SL_request rl \<Rightarrow>
         let method_type = rl_method rl in
         if method_type = USIPY_SIP_METHOD_generic \<or> method_type = USIPY_SIP_METHOD_ACK
         then Some (USIPY_SIP_TM_ERR_UNSUPPORTED, None, req, tm)
         else do {
           (tid, req) \<leftarrow> usipy_sip_msg_get_tid (ev_stk ev) req (ev_tid0 ev);
           case tid of
             None \<Rightarrow> Some (USIPY_SIP_TM_ERR_BADMSG, None, req, tm)
           | Some tid \<Rightarrow>
               if usipy_sip_tm_find_uas_transaction tm tid \<noteq> None
               then Some (USIPY_SIP_TM_ERR_UNSUPPORTED, None, req, tm)
               else
                 (case usipy_sip_tm_alloc_slot tm of
                    (None, tm) \<Rightarrow> Some (USIPY_SIP_TM_ERR_NOSPC, None, req, tm)
                  | (Some i, tm) \<Rightarrow> do {
                      (r, req, tp) \<leftarrow> uas_fill ev tm tpp tid req method_type i
                        ((txn tm i)\<lparr>x_uas_callbacks := (case nus_callbacks tpp of
                           None \<Rightarrow> uas_callbacks_zero | Some cb \<Rightarrow> cb), x_method_type := method_type\<rparr>);
                      if r \<noteq> USIPY_SIP_TM_OK
                      then Some (USIPY_SIP_TM_ERR_NOSPC, None, req, upd i (\<lambda>_. usipy_sip_tm_tx_fini tp) tm)
                      else do {
                        tp \<leftarrow> uas_activate (tm_transport tm) (nus_timers tpp) tid tp;
                        Some (USIPY_SIP_TM_OK, Some i, req, (upd i (\<lambda>_. tp) tm)\<lparr>tm_nactive := tm_nactive tm + 1\<rparr>)
                      }
                    })
         }
     | _ \<Rightarrow> None
   }"

subsection \<open>Responding\<close>

text \<open>The state a slot takes for a response that has been built.\<close>

definition uas_response_state ::
  "usipy_sip_tm_uas_response_params \<Rightarrow> usipy_sip_tm_txi \<Rightarrow> usipy_sip_tm_txi abortable" where
  "uas_response_state rpp tp =
     (let code = st_code (urp_status rpp);
          cb = (case urp_callbacks rpp of None \<Rightarrow> uas_callbacks_zero | Some cb \<Rightarrow> cb);
          tp = sync_outbound (tp\<lparr>x_outbound := (x_outbound tp)\<lparr>ob_target := x_peer tp, ob_next_send_at_ms := 0\<rparr>\<rparr>);
          tp = tp\<lparr>x_last_status_code := ucast code,
            x_state := (if code < 200 then USIPY_SIP_TM_STATE_PROCEEDING else USIPY_SIP_TM_STATE_COMPLETED),
            x_uas := (x_uas tp)\<lparr>sc_ack_hash := 0\<rparr>\<rparr> in
      if code < 200 then Some (stop_timer tp)
      else if x_method_type tp = USIPY_SIP_METHOD_INVITE \<and> code < 300 then do {
        v \<leftarrow> usipy_sip_tm_timer_l_ms (x_timers tp);
        let tp = set_timer USIPY_SIP_TM_TIMER_L v USIPY_SIP_TM_TIME_NONE
          (tp\<lparr>x_state := USIPY_SIP_TM_STATE_ACCEPTED\<rparr>);
        Some (tp\<lparr>x_uas := (x_uas tp)\<lparr>sc_ack_hash := usipy_sip_dialog_tid_hash (id_call_id (x_id tp))
                (ref_text (x_scratch tp) (id_from_tag (x_id tp))) (x_to_tag tp) (id_cseq (x_id tp)) USIPY_SIP_METHOD_ACK\<rparr>,
              x_uas_callbacks := (x_uas_callbacks tp)\<lparr>scb_no_ack := None\<rparr>\<rparr>)
      }
      else if x_method_type tp = USIPY_SIP_METHOD_INVITE \<and> code \<ge> 300 then do {
        v \<leftarrow> usipy_sip_tm_timer_h_ms (x_timers tp);
        let tp = set_timer USIPY_SIP_TM_TIMER_H v USIPY_SIP_TM_TIME_NONE tp;
        Some (tp\<lparr>x_uas := (x_uas tp)\<lparr>sc_ack_hash := usipy_sip_tm_uas_method_hash tp USIPY_SIP_METHOD_ACK\<rparr>,
              x_uas_callbacks := (x_uas_callbacks tp)\<lparr>
                scb_arg := (if scb_arg cb \<noteq> None then scb_arg cb else scb_arg (x_uas_callbacks tp)),
                scb_no_ack := scb_no_ack cb\<rparr>\<rparr>)
      }
      else Some ((stop_timer tp)\<lparr>x_uas_callbacks := (x_uas_callbacks tp)\<lparr>scb_no_ack := None\<rparr>\<rparr>))"

text \<open>The message in the scratch heap, above the checkpoint, in place of the last one.\<close>

definition uas_build_response ::
  "string \<Rightarrow> string \<Rightarrow> usipy_sip_tm_uas_response_params \<Rightarrow> tx_act" where
  "uas_build_response server luri rpp tp = do {
     dassert (x_checkpoint tp \<noteq> USIPY_MSG_HEAP_CHECKPOINT_NONE);
     h \<leftarrow> usipy_msg_heap_rollback (x_scratch tp) (x_checkpoint tp);
     let currfree = mh_tsize h - USIPY_ALIGNED_SIZE (mh_alen h);
     out \<leftarrow> (if currfree = 0 then Some None
            else usipy_sip_tm_uas_build_response_cb server luri (tp\<lparr>x_scratch := h\<rparr>) rpp (unat currfree));
     case usipy_msg_heap_build h (\<lambda>_. out) of
       (None, h) \<Rightarrow> Some (USIPY_SIP_TM_ERR_NOSPC, tp\<lparr>x_scratch := h\<rparr>)
     | (Some sl, h) \<Rightarrow> Some (USIPY_SIP_TM_OK, tp\<lparr>x_scratch := h, x_outbound := (x_outbound tp)\<lparr>ob_raw := sl\<rparr>\<rparr>)
   }"

definition usipy_sip_tm_send_uas_response ::
  "'a tm_env \<Rightarrow> 'a usipy_sip_tm \<Rightarrow> nat \<Rightarrow> usipy_sip_tm_uas_response_params \<Rightarrow>
     (usipy_sip_tm_error \<times> 'a usipy_sip_tm) abortable" where
  "usipy_sip_tm_send_uas_response ev tm index rpp = do {
     dassert (index < max_transactions tm);
     let tp = txn tm index;
     if \<not> x_active tp then Some (USIPY_SIP_TM_ERR_NOT_FOUND, tm)
     else do {
       dassert (x_role tp = USIPY_SIP_TM_ROLE_UAS);
       if x_state tp = USIPY_SIP_TM_STATE_TERMINATED then Some (USIPY_SIP_TM_ERR_UNSUPPORTED, tm)
       else if x_last_status_code tp \<ge> 200 then Some (USIPY_SIP_TM_ERR_UNSUPPORTED, tm)
       else do {
         (r, tp) \<leftarrow> uas_build_response (ev_server ev) (tm_luri tm) rpp tp;
         if r \<noteq> USIPY_SIP_TM_OK then Some (r, upd index (\<lambda>_. tp) tm)
         else do {
           tp \<leftarrow> uas_response_state rpp tp;
           Some (USIPY_SIP_TM_OK, upd index (\<lambda>_. tp) tm)
         }
       }
     }
   }"

definition response_of_status :: "usipy_sip_status \<Rightarrow> usipy_sip_tm_uas_response_params" where
  "response_of_status st = \<lparr>urp_status = st, urp_content_type = None, urp_body = None,
     urp_extra_headers = [], urp_callbacks = None\<rparr>"

definition usipy_sip_tm_uas_cancel_ok ::
  "'a tm_env \<Rightarrow> 'a usipy_sip_tm \<Rightarrow> usipy_msg \<Rightarrow> nat \<Rightarrow> (usipy_sip_tm_error \<times> 'a usipy_sip_tm) abortable" where
  "usipy_sip_tm_uas_cancel_ok ev tm cancelp index = do {
     dassert (index < max_transactions tm);
     dassert (m_kind cancelp = USIPY_SIP_MSG_REQ);
     case sln_parsed (m_sline cancelp) of
       SL_request rl \<Rightarrow> do {
         dassert (rl_method rl = USIPY_SIP_METHOD_CANCEL);
         case usipy_sip_tm_get_transaction tm index of
           None \<Rightarrow> Some (USIPY_SIP_TM_ERR_NOT_FOUND, tm)
         | Some txp \<Rightarrow> do {
             dassert (x_role txp = USIPY_SIP_TM_ROLE_UAS);
             if id_method_type (x_id txp) \<noteq> USIPY_SIP_METHOD_INVITE then Some (USIPY_SIP_TM_ERR_UNSUPPORTED, tm)
             else do {
               (rval, cancel_index, _, tm) \<leftarrow> usipy_sip_tm_new_uas_tr ev tm
                 \<lparr>nus_request = cancelp, nus_timers = Some (x_timers txp), nus_peer = x_peer txp,
                  nus_local = x_local txp, nus_callbacks = None\<rparr>;
               case cancel_index of
                 Some ci \<Rightarrow>
                   if rval \<noteq> USIPY_SIP_TM_OK then Some (rval, tm)
                   else usipy_sip_tm_send_uas_response ev tm ci (response_of_status usipy_sip_res_ok)
               | None \<Rightarrow> Some (rval, tm)
             }
           }
       }
     | _ \<Rightarrow> None
   }"

definition usipy_sip_tm_uas_tr_cancelled ::
  "'a tm_env \<Rightarrow> 'a usipy_sip_tm \<Rightarrow> usipy_msg \<Rightarrow> nat \<Rightarrow> usipy_sip_tm_uas_response_params option \<Rightarrow>
     (usipy_sip_tm_error \<times> 'a usipy_sip_tm) abortable" where
  "usipy_sip_tm_uas_tr_cancelled ev tm cancelp index rpp = do {
     (rval, tm) \<leftarrow> usipy_sip_tm_uas_cancel_ok ev tm cancelp index;
     if rval \<noteq> USIPY_SIP_TM_OK then Some (rval, tm)
     else usipy_sip_tm_send_uas_response ev tm index
       (case rpp of None \<Rightarrow> response_of_status usipy_sip_res_req_term | Some rpp \<Rightarrow> rpp)
   }"

text \<open>\<open>usipy_sip_tm_send_simple_response\<close> of \<open>usipy_sip_response_utils.c\<close>.\<close>

definition usipy_sip_tm_send_simple_response ::
  "'a tm_env \<Rightarrow> 'a usipy_sip_tm \<Rightarrow> usipy_sip_tm_handle_incoming_in \<Rightarrow> usipy_msg \<Rightarrow> usipy_sip_status \<Rightarrow>
     (usipy_sip_tm_error \<times> 'a usipy_sip_tm) abortable" where
  "usipy_sip_tm_send_simple_response ev tm hin msg statusp = do {
     dassert (hin_timers hin \<noteq> None);
     (rval, tx_index, _, tm) \<leftarrow> usipy_sip_tm_new_uas_tr ev tm
       \<lparr>nus_request = msg, nus_timers = hin_timers hin, nus_peer = hin_peer hin, nus_local = hin_local hin,
        nus_callbacks = None\<rparr>;
     case tx_index of
       Some i \<Rightarrow>
         if rval \<noteq> USIPY_SIP_TM_OK then Some (rval, tm)
         else usipy_sip_tm_send_uas_response ev tm i (response_of_status statusp)
     | None \<Rightarrow> Some (rval, tm)
   }"

subsection \<open>The timer pump\<close>

definition count_timeouts :: "int \<Rightarrow> usipy_sip_tm_run_out option \<Rightarrow> usipy_sip_tm_run_out option" where
  "count_timeouts n = map_option (\<lambda>out. out\<lparr>ro_ntimeouts := ro_ntimeouts out + n\<rparr>)"

text \<open>The first branch: the timer of the slot is due.\<close>

definition uas_timer_due ::
  "'a tm_env \<Rightarrow> nat \<Rightarrow> usipy_sip_tm_run_out option \<Rightarrow> 'a usipy_sip_tm \<Rightarrow>
     (int \<times> usipy_sip_tm_run_out option \<times> 'a usipy_sip_tm) abortable" where
  "uas_timer_due ev index outp tm =
     (let timer = tmr_type (x_timer (txn tm index)); tm = upd index usipy_sip_tm_uas_mark_terminated tm;
          tp = txn tm index in
      if timer = USIPY_SIP_TM_TIMER_H then do {
        tm \<leftarrow> (case scb_no_ack (x_uas_callbacks tp) of
            None \<Rightarrow> Some tm
          | Some f \<Rightarrow> map_option snd (ev_uas_no_ack ev f (scb_arg (x_uas_callbacks tp)) index tm));
        Some (0, count_timeouts 1 outp, tm)
      }
      else (case x_uas_owner tp of
          Some arg \<Rightarrow>
            if timer = USIPY_SIP_TM_TIMER_L then do {
              (timed_out, tm) \<leftarrow> ev_owner_timeout ev arg tm;
              Some (0, count_timeouts timed_out outp, tm)
            }
            else Some (0, outp, tm)
        | None \<Rightarrow> Some (0, outp, tm)))"

text \<open>What happens to a slot once its message went out.\<close>

definition uas_note_sent :: "time_ms \<Rightarrow> usipy_sip_tm_txi \<Rightarrow> usipy_sip_tm_txi" where
  "uas_note_sent now tp =
     (let tp = (if x_created_at_ms tp = 0 \<and> x_retransmit_count tp = 0 then tp\<lparr>x_created_at_ms := now\<rparr> else tp) in
      sync_outbound (set_next_send USIPY_SIP_TM_TIME_NONE
        (tp\<lparr>x_updated_at_ms := now, x_retransmit_count := x_retransmit_count tp + 1\<rparr>)))"

definition uas_start_timer_l :: "time_ms \<Rightarrow> usipy_sip_tm_txi \<Rightarrow> usipy_sip_tm_txi" where
  "uas_start_timer_l now tp =
     (if x_state tp = USIPY_SIP_TM_STATE_ACCEPTED \<and> tmr_due_at_ms (x_timer tp) = USIPY_SIP_TM_TIME_NONE
      then tp\<lparr>x_timer := (x_timer tp)\<lparr>tmr_due_at_ms := now + ucast (tmr_value_ms (x_timer tp))\<rparr>\<rparr> else tp)"

definition uas_send ::
  "'a tm_env \<Rightarrow> nat \<Rightarrow> time_ms \<Rightarrow> usipy_sip_tm_run_out option \<Rightarrow> 'a usipy_sip_tm \<Rightarrow>
     (int \<times> usipy_sip_tm_run_out option \<times> 'a usipy_sip_tm) abortable" where
  "uas_send ev index now outp tm =
     (let tm = upd index (uas_start_timer_l now) tm;
          ob = x_outbound (txn tm index);
          (send_rval, app) = ev_send_to ev index (ob_target ob)
            (slice_read (x_scratch (txn tm index)) (ob_raw ob)) (tm_app tm);
          tm = tm\<lparr>tm_app := app\<rparr> in
      if send_rval \<noteq> 0 then Some (send_rval, outp, tm)
      else do {
        let outp = map_option (\<lambda>out. out\<lparr>ro_nsent := ro_nsent out + 1\<rparr>) outp;
        let tm = upd index (uas_note_sent now) tm;
        let tp = txn tm index;
        if x_state tp = USIPY_SIP_TM_STATE_ACCEPTED then do {
          tm \<leftarrow> (case x_uas_owner tp of None \<Rightarrow> Some tm | Some arg \<Rightarrow> ev_owner_sent ev arg now tm);
          let tp = txn tm index;
          outp \<leftarrow> (if outp = None then Some None
                  else do {
                    outp \<leftarrow> usipy_sip_tm_uas_run_out_consider (ob_next_send_at_ms (x_outbound tp)) outp;
                    usipy_sip_tm_uas_run_out_consider (tmr_due_at_ms (x_timer tp)) outp
                  });
          Some (0, outp, tm)
        }
        else if x_last_status_code tp \<ge> 200 \<and> usipy_sip_tm_uas_is_invite_non2xx_final tp then do {
          (tp, outp) \<leftarrow> usipy_sip_tm_uas_post_send_invite_final now tp outp;
          Some (0, outp, upd index (\<lambda>_. tp) tm)
        }
        else if x_last_status_code tp \<ge> 200 then do {
          (tp, outp) \<leftarrow> usipy_sip_tm_uas_post_send_final now tp outp;
          Some (0, outp, upd index (\<lambda>_. tp) tm)
        }
        else Some (0, outp, tm)
      })"

definition usipy_sip_tm_uas_run ::
  "'a tm_env \<Rightarrow> nat \<Rightarrow> time_ms \<Rightarrow> usipy_sip_tm_run_out option \<Rightarrow> 'a usipy_sip_tm \<Rightarrow>
     (int \<times> usipy_sip_tm_run_out option \<times> 'a usipy_sip_tm) abortable" where
  "usipy_sip_tm_uas_run ev index now outp tm =
     (let tp = txn tm index; next = ob_next_send_at_ms (x_outbound tp) in
      if tmr_type (x_timer tp) \<noteq> USIPY_SIP_TM_TIMER_NONE \<and> tmr_due_at_ms (x_timer tp) \<le> now
      then uas_timer_due ev index outp tm
      else if x_state tp = USIPY_SIP_TM_STATE_TERMINATED \<or> next = USIPY_SIP_TM_TIME_NONE \<or> next > now then
        (if outp = None then Some (0, None, tm)
         else do {
           outp \<leftarrow> usipy_sip_tm_uas_run_out_consider next outp;
           outp \<leftarrow> (if tmr_type (x_timer tp) \<noteq> USIPY_SIP_TM_TIMER_NONE
                   then usipy_sip_tm_uas_run_out_consider (tmr_due_at_ms (x_timer tp)) outp else Some outp);
           Some (0, outp, tm)
         })
      else uas_send ev index now outp tm)"

subsection \<open>Requests from the network\<close>

definition incoming_out ::
  "usipy_sip_tm_match_kind \<Rightarrow> usipy_sip_tm_event \<Rightarrow> nat option \<Rightarrow> usipy_sip_tm_handle_incoming_out" where
  "incoming_out mk evt index = \<lparr>hout_error = USIPY_SIP_TM_OK, hout_consumed = True, hout_match_kind = mk,
     hout_event = evt, hout_transaction_index = index\<rparr>"

text \<open>A request seen before: the last response goes out again, unless it is not ours to repeat.\<close>

definition uas_request_again :: "time_ms \<Rightarrow> usipy_sip_tm_txi \<Rightarrow> usipy_sip_tm_txi" where
  "uas_request_again now tp =
     (let tp = tp\<lparr>x_role_byte := x_role_byte tp + 1\<rparr> in
      if x_state tp \<noteq> USIPY_SIP_TM_STATE_CONFIRMED \<and> x_state tp \<noteq> USIPY_SIP_TM_STATE_ACCEPTED \<and>
         snd (ob_raw (x_outbound tp)) \<noteq> 0
      then sync_outbound (set_next_send now tp) else tp)"

text \<open>\<open>None\<close> for the output structure is an outcome that leaves it to the caller.\<close>

definition usipy_sip_tm_handle_incoming_request ::
  "'a tm_env \<Rightarrow> usipy_sip_tm_handle_incoming_in \<Rightarrow> usipy_msg \<Rightarrow> usipy_sip_tid \<Rightarrow> 'a usipy_sip_tm \<Rightarrow>
     (usipy_sip_tm_error \<times> usipy_sip_tm_handle_incoming_out option \<times> 'a usipy_sip_tm) abortable" where
  "usipy_sip_tm_handle_incoming_request ev inp msg tidp tm =
     (case sln_parsed (m_sline msg) of
        SL_request rl \<Rightarrow> do {
          (ack, msg) \<leftarrow> (if rl_method rl = USIPY_SIP_METHOD_ACK
            then usipy_sip_tm_find_uas_ack_transaction (ev_stk ev) tm msg tidp else Some (None, msg));
          case ack of
            Some i \<Rightarrow>
              let tp = txn tm i;
                  out = incoming_out USIPY_SIP_TM_MATCH_EXISTING USIPY_SIP_TM_EVENT_ACK_RX (Some i) in
              if x_last_status_code tp \<ge> 200 \<and> x_last_status_code tp < 300 then do {
                let tm = upd i (raise_flag USIPY_SIP_TM_F_ACKED) tm;
                tm \<leftarrow> (case x_uas_owner tp of None \<Rightarrow> Some tm | Some arg \<Rightarrow> ev_owner_acked ev arg tm);
                Some (USIPY_SIP_TM_OK, Some out, tm)
              }
              else do {
                tp \<leftarrow> usipy_sip_tm_uas_handle_ack (hin_now_ms inp) tp;
                Some (USIPY_SIP_TM_OK, Some out, upd i (\<lambda>_. tp) tm)
              }
          | None \<Rightarrow> do {
              cancel \<leftarrow> (if rl_method rl = USIPY_SIP_METHOD_CANCEL
                then usipy_sip_tm_find_uas_cancel_transaction tm tidp else Some None);
              case cancel of
                Some i \<Rightarrow> do {
                  (out, tm) \<leftarrow> usipy_sip_tm_uas_handle_cancel ev tm i msg;
                  Some (USIPY_SIP_TM_OK, Some out, tm)
                }
              | None \<Rightarrow>
                  (case usipy_sip_tm_find_uas_transaction tm tidp of
                     Some i \<Rightarrow>
                       Some (USIPY_SIP_TM_OK,
                         Some (incoming_out USIPY_SIP_TM_MATCH_EXISTING USIPY_SIP_TM_EVENT_REQUEST_RETRANSMIT (Some i)),
                         upd i (uas_request_again (hin_now_ms inp)) tm)
                   | None \<Rightarrow>
                       (case tm_incoming_request tm of
                          None \<Rightarrow> Some (USIPY_SIP_TM_ERR_UNSUPPORTED, None, tm)
                        | Some f \<Rightarrow> do {
                            tm \<leftarrow> ev_incoming_request ev f (tm_callbacks_arg tm) inp msg tm;
                            Some (USIPY_SIP_TM_OK,
                              Some (case usipy_sip_tm_find_uas_transaction tm tidp of
                                None \<Rightarrow> incoming_out USIPY_SIP_TM_MATCH_NONE USIPY_SIP_TM_EVENT_REQUEST_RX None
                              | Some i \<Rightarrow> incoming_out USIPY_SIP_TM_MATCH_NEW USIPY_SIP_TM_EVENT_REQUEST_RX (Some i)),
                              tm)
                          }))
            }
        }
      | _ \<Rightarrow> None)"

subsection \<open>The owner of an accepted INVITE\<close>

definition usipy_sip_tm_uas_lookup :: "'a usipy_sip_tm \<Rightarrow> nat \<Rightarrow> nat option \<Rightarrow> usipy_sip_tm_txi option" where
  "usipy_sip_tm_uas_lookup tm index owner_arg =
     (if index \<ge> max_transactions tm then None
      else let tp = txn tm index in
        if \<not> x_active tp \<or> x_role tp \<noteq> USIPY_SIP_TM_ROLE_UAS then None
        else if owner_arg \<noteq> None \<and> x_uas_owner tp \<noteq> owner_arg then None
        else Some tp)"

definition usipy_sip_tm_uas_get_callbacks ::
  "'a usipy_sip_tm \<Rightarrow> nat \<Rightarrow> usipy_sip_tm_error \<times> usipy_sip_tm_uas_callbacks option" where
  "usipy_sip_tm_uas_get_callbacks tm index =
     (case usipy_sip_tm_uas_lookup tm index None of
        None \<Rightarrow> (USIPY_SIP_TM_ERR_NOT_FOUND, None)
      | Some tp \<Rightarrow> (USIPY_SIP_TM_OK, Some (x_uas_callbacks tp)))"

definition usipy_sip_tm_uas_set_owner ::
  "'a usipy_sip_tm \<Rightarrow> nat \<Rightarrow> nat \<Rightarrow> usipy_sip_tm_error \<times> 'a usipy_sip_tm" where
  "usipy_sip_tm_uas_set_owner tm index arg =
     (case usipy_sip_tm_uas_lookup tm index None of
        None \<Rightarrow> (USIPY_SIP_TM_ERR_NOT_FOUND, tm)
      | Some _ \<Rightarrow> (USIPY_SIP_TM_OK, upd index (\<lambda>t. t\<lparr>x_uas_owner := Some arg\<rparr>) tm))"

definition usipy_sip_tm_uas_clear_owner ::
  "'a usipy_sip_tm \<Rightarrow> nat \<Rightarrow> nat \<Rightarrow> usipy_sip_tm_error \<times> 'a usipy_sip_tm" where
  "usipy_sip_tm_uas_clear_owner tm index arg =
     (case usipy_sip_tm_uas_lookup tm index (Some arg) of
        None \<Rightarrow> (USIPY_SIP_TM_ERR_NOT_FOUND, tm)
      | Some _ \<Rightarrow> (USIPY_SIP_TM_OK, upd index (\<lambda>t. t\<lparr>x_uas_owner := None\<rparr>) tm))"

definition usipy_sip_tm_uas_send_at ::
  "'a usipy_sip_tm \<Rightarrow> nat \<Rightarrow> nat \<Rightarrow> time_ms \<Rightarrow> usipy_sip_tm_error \<times> 'a usipy_sip_tm" where
  "usipy_sip_tm_uas_send_at tm index arg at_ms =
     (case usipy_sip_tm_uas_lookup tm index (Some arg) of
        None \<Rightarrow> (USIPY_SIP_TM_ERR_NOT_FOUND, tm)
      | Some _ \<Rightarrow> (USIPY_SIP_TM_OK, upd index (\<lambda>t. sync_outbound (set_next_send at_ms t)) tm))"

definition usipy_sip_tm_uas_owned_tx :: "'a usipy_sip_tm \<Rightarrow> nat \<Rightarrow> nat \<Rightarrow> usipy_sip_tm_txi option" where
  "usipy_sip_tm_uas_owned_tx tm index arg = usipy_sip_tm_uas_lookup tm index (Some arg)"

end
