(* ===== verification/Usipy_Tmuasfacts.thy ===== *)
theory Usipy_Tmuasfacts
  imports Usipy_Tmuas
begin

text \<open>
  Server transactions: what filling a slot leaves in it, the invariant of a server transaction, and its
  preservation by every operation.
\<close>

subsection \<open>Filling a slot\<close>

definition fill_frame where
  "fill_frame t = (x_scratch_buf t, x_scratch_capacity t, x_parent_index t, x_child_index t, x_method_type t,
     x_uas_callbacks t, x_active t, x_uas_owner t, x_timer t, x_retransmit_count t)"

definition fill_rel :: "usipy_sip_tm_txi \<Rightarrow> usipy_sip_tm_txi \<Rightarrow> bool" where
  "fill_rel t t' \<longleftrightarrow> keeps (x_scratch t) (x_scratch t') \<and> fill_frame t' = fill_frame t"

interpretation fill: slot_contract fill_rel
  by unfold_locales (auto simp: fill_rel_def fill_frame_def intro: keeps_trans)

interpretation call_id: slot_contract "\<lambda>t t'. x_call_id t' = x_call_id t"
  by (rule field_contract) simp

interpretation branch: slot_contract "\<lambda>t t'. x_branch t' = x_branch t"
  by (rule field_contract) simp

interpretation from_tag: slot_contract "\<lambda>t t'. x_from_tag t' = x_from_tag t"
  by (rule field_contract) simp

lemma nameaddr_build_bounded: "usipy_sip_hdr_nameaddr_build n cap = Some out \<Longrightarrow> length out \<le> cap"
  by (simp add: nameaddr_build_eq split: if_splits)

interpretation ident: slot_contract "\<lambda>t t'. (x_call_id t', x_branch t', x_from_tag t') = (x_call_id t, x_branch t, x_from_tag t)"
  by (rule field_contract) simp

text \<open>What the identity policy may do to the heap of the slot: use it.\<close>

definition policy_ok :: "'a tm_env \<Rightarrow> bool" where
  "policy_ok ev \<longleftrightarrow> (\<forall>cb arg h i. keeps h (snd (ev_id_policy ev cb arg h i)))"

text \<open>The steps of this component meet every contract their last assignment meets.\<close>

context slot_contract
begin

lemma copy_values_in:
  assumes "\<And>vs t. R t (put vs t)"
  shows "step_in R (copy_values vs acc put)"
  unfolding step_in_def
proof (intro allI impI)
  fix t r t' assume "copy_values vs acc put t = Some (r, t')"
  then show "R t t'"
  proof (induction vs arbitrary: acc t)
    case Nil
    then have "t' = put acc t" by simp
    then show ?case using assms by simp
  next
    case (Cons v vs)
    let ?u = "t\<lparr>x_scratch := snd (usipy_msg_heap_append (x_scratch t) v)\<rparr>"
    have "R t ?u" using Cons.prems by (intro heap append_keeps) simp
    moreover have "t' = ?u \<or> (\<exists>acc. copy_values vs acc put ?u = Some (r, t'))"
      using Cons.prems by (auto split: option.splits prod.splits)
    ultimately show ?case using Cons.IH chain[of t ?u t'] by blast
  qed
qed

lemma copy_hdrs_in:
  assumes "\<And>vs t. R t (put vs t)" "length vs \<le> 32"
  shows "step_in R (usipy_sip_tm_uas_copy_hdrs vs put)"
proof (cases "vs = []")
  case False
  have "unat (of_nat (16 * length vs) :: size_t) = 16 * length vs"
    using assms(2) by (subst unat_of_nat) simp
  then have "step_in R (act_alloc (of_nat (16 * length vs)))" using assms(2) by (intro alloc_in) simp
  then have "step_in R (acts [act_alloc (of_nat (16 * length vs)), copy_values vs [] put])"
    using assms(1) by (intro acts_Cons acts_Nil copy_values_in)
  then show ?thesis using False by (simp only: usipy_sip_tm_uas_copy_hdrs_def if_False)
qed (use assms set_in in \<open>simp add: usipy_sip_tm_uas_copy_hdrs_def\<close>)

lemma nameaddr_copy_in:
  assumes "\<And>s t. R t (put s t)"
  shows "step_in R (usipy_sip_tm_uas_copy_nameaddr_without_param nap skip put)"
  unfolding step_in_def
proof (intro allI impI)
  fix t r t' assume a: "usipy_sip_tm_uas_copy_nameaddr_without_param nap skip put t = Some (r, t')"
  let ?n = "NA_SIZEOF (length (na_params nap))"
  define c where "c = nap\<lparr>na_params := filter (\<lambda>pp. \<not> usipy_str_eq (tv_token pp) skip) (na_params nap)\<rparr>"
  define u where "u = t\<lparr>x_scratch := snd (usipy_msg_heap_build (x_scratch t) (usipy_sip_hdr_nameaddr_build c))\<rparr>"
  have n: "length (na_params nap) < 2 ^ 50"
    using a by (simp add: usipy_sip_tm_uas_copy_nameaddr_without_param_def)
  have s: "step_in R (acts [act_alloc ?n, act_set (put s)])" for s
    using n assms by (intro acts_Cons acts_Nil alloc_in set_in) (simp_all add: unat_NA_SIZEOF)
  have "R t u" unfolding u_def by (intro heap build_keeps nameaddr_build_bounded)
  moreover have "t' = u \<or> (\<exists>s. acts [act_alloc ?n, act_set (put s)] u = Some (r, t'))"
    using a n unfolding usipy_sip_tm_uas_copy_nameaddr_without_param_def c_def[symmetric] u_def
    by (cases "usipy_msg_heap_build (x_scratch t) (usipy_sip_hdr_nameaddr_build c)"; cases "fst (usipy_msg_heap_build (x_scratch t) (usipy_sip_hdr_nameaddr_build c))")
      (auto simp del: acts.simps)
  ultimately show "R t t'" using s chain unfolding step_in_def by metis
qed

lemma copy_addr_in:
  assumes "\<And>a t. R t (put a t)"
  shows "step_in R (usipy_sip_tm_uas_copy_addr put src)"
  using keep_in[of "\<lambda>s. put (src\<lparr>ad_host := s\<rparr>)" "ad_host src"] assms
  by (auto simp: step_in_def usipy_sip_tm_uas_copy_addr_def)

lemma contact_uri_in:
  assumes "\<And>s t. R t (put s t)"
  shows "step_in R (usipy_sip_tm_uas_format_local_contact_uri a put)"
  using printf_in[of "\<lambda>sl t. put (slice_read (x_scratch t) sl) t"] assms same
  by (auto simp: step_in_def usipy_sip_tm_uas_format_local_contact_uri_def Let_def
      split: address_family.splits)

lemma local_tag_in:
  assumes "policy_ok ev" "\<And>s t. R t (t\<lparr>x_to_tag := s\<rparr>)"
  shows "step_in R (usipy_sip_tm_uas_prepare_local_tag ev tm i cseq m)"
  unfolding step_in_def
proof (intro allI impI)
  fix t r t' assume a: "usipy_sip_tm_uas_prepare_local_tag ev tm i cseq m t = Some (r, t')"
  show "R t t'"
  proof (cases "tm_id_policy tm")
    case None
    have "step_in R (usipy_sip_tm_uas_prepare_default_local_tag i)"
      unfolding usipy_sip_tm_uas_prepare_default_local_tag_def by (intro printf_in assms(2))
    then show ?thesis using a None by (simp add: usipy_sip_tm_uas_prepare_local_tag_def step_in_def)
  next
    case (Some cb)
    obtain ids h where p: "ev_id_policy ev cb (tm_id_policy_arg tm) (x_scratch t)
        \<lparr>ipi_transaction_index = i, ipi_cseq = cseq, ipi_method_type = m\<rparr> = (ids, h)" by force
    have "keeps (x_scratch t) h" using assms(1) p unfolding policy_ok_def by (metis snd_conv)
    then have h: "R t (t\<lparr>x_scratch := h\<rparr>)" by (rule heap)
    have "t' = t\<lparr>x_scratch := h\<rparr> \<or> (\<exists>s. t' = (t\<lparr>x_scratch := h\<rparr>)\<lparr>x_to_tag := s\<rparr>)"
      using a Some p unfolding usipy_sip_tm_uas_prepare_local_tag_def by (auto split: option.splits if_splits)
    then show ?thesis using h chain[OF h assms(2)] by blast
  qed
qed

lemma cache_contact_in:
  assumes "\<And>u t. R t (t\<lparr>x_uas := u\<rparr>)"
  shows "step_in R (uas_cache_contact hs)"
proof -
  have "step_in R (act_set id)" using same by (intro set_in) simp
  moreover have "step_in R (act_keep s (\<lambda>s t. t\<lparr>x_uas := (x_uas t)\<lparr>sc_contact_uri := s\<rparr>\<rparr>))" for s
    by (intro keep_in assms)
  moreover have "step_in R (\<lambda>_. None)" by (simp add: step_in_def)
  ultimately show ?thesis by (simp add: uas_cache_contact_def split: list.split usipy_sip_hdr_parsed.split)
qed

lemma cache_to_uri_in:
  assumes "\<And>u t. R t (t\<lparr>x_uas := u\<rparr>)"
  shows "step_in R (uas_cache_to_uri v a)"
  using assms same by (auto simp: step_in_def uas_cache_to_uri_def split: option.splits)

lemma cache_steps_in:
  assumes "\<And>u t. R t (t\<lparr>x_uas := u\<rparr>)" "\<And>b t. R t (t\<lparr>x_branch := b\<rparr>)"
    "\<And>a c t. R t (t\<lparr>x_from_tag := a, x_cseq := c\<rparr>)" "length vias \<le> 32" "length rrs \<le> 32"
  shows "step_in R (acts (uas_cache_steps tid rl f h cseq vias rrs cs))"
  unfolding uas_cache_steps_def
  by (intro acts_Cons acts_Nil keep_in nameaddr_copy_in set_in cache_to_uri_in copy_hdrs_in cache_contact_in assms)

end

lemma cache_steps_rel: "length vias \<le> 32 \<Longrightarrow> length rrs \<le> 32 \<Longrightarrow>
    step_in fill_rel (acts (uas_cache_steps tid rl f h cseq vias rrs cs))"
  by (intro fill.cache_steps_in) (simp_all add: fill_rel_def fill_frame_def)

lemma cache_steps_call_id: "length vias \<le> 32 \<Longrightarrow> length rrs \<le> 32 \<Longrightarrow>
    step_in (\<lambda>t t'. x_call_id t' = x_call_id t) (acts (uas_cache_steps tid rl f h cseq vias rrs cs))"
  by (intro call_id.cache_steps_in) simp_all

lemma cache_steps_branch:
  assumes "length rrs \<le> 32"
  shows "leaves (\<lambda>t. x_branch t = Kept (tid_vbranch tid)) (acts (uas_cache_steps tid rl f h cseq vias rrs cs))"
  unfolding uas_cache_steps_def using assms
  by (intro leaves_later[of _ "_ # _ # _ # _ # _ # _ # _ # _ # _"] leaves_later[of _ "_ # _ # _ # _ # _ # _ # _ # _"]
      leaves_later[of _ "_ # _ # _ # _ # _ # _ # _"] leaves_later[of _ "_ # _ # _ # _ # _ # _"]
      leaves_later[of _ "_ # _ # _ # _ # _"] leaves_later[of _ "_ # _ # _ # _"] leaves_here leaves_set
      branch.acts_Cons branch.acts_Nil branch.copy_hdrs_in branch.cache_contact_in branch.set_in) simp_all

lemma cache_steps_from_tag:
  "leaves (\<lambda>t. x_from_tag t = Kept (tid_from_tag tid)) (acts (uas_cache_steps tid rl f h cseq vias rrs cs))"
  unfolding uas_cache_steps_def
  by (rule leaves_later, rule leaves_later, rule leaves_later, rule leaves_later, rule leaves_later,
      rule leaves_later, rule leaves_later, rule leaves_later, rule leaves_later, rule leaves_here,
      rule leaves_set, simp, rule from_tag.acts_Nil)

lemma cache_request_cases:
  assumes "usipy_sip_tm_uas_cache_request stk req tid t = Some (r, req', t')"
  obtains (early) "r = USIPY_SIP_TM_ERR_NOSPC" "t' = t"
  | (steps) rl f h cseq vias rrs cs where "length vias \<le> 32" "length rrs \<le> 32"
      "acts (uas_cache_steps tid rl f h cseq vias rrs cs) t = Some (r, t')"
proof -
  have "(r = USIPY_SIP_TM_ERR_NOSPC \<and> t' = t) \<or> (\<exists>rl f h cseq vias rrs cs.
      acts (uas_cache_steps tid rl f h cseq vias rrs cs) t = Some (r, t') \<and> length vias \<le> 32 \<and> length rrs \<le> 32)"
    using assms unfolding usipy_sip_tm_uas_cache_request_def
    by (auto simp: Let_def bind_eq_Some_conv simp del: acts.simps split: prod.splits if_splits list.splits
        usipy_sip_hdr_parsed.splits usipy_sip_sline_parsed.splits) (metis length_map)+
  then show thesis using early steps by blast
qed

lemma cache_request_spec:
  assumes "usipy_sip_tm_uas_cache_request stk req tid t = Some (r, req', t')"
  shows "fill_rel t t'" "x_call_id t' = x_call_id t"
    "r = USIPY_SIP_TM_OK \<Longrightarrow> x_branch t' = Kept (tid_vbranch tid) \<and> x_from_tag t' = Kept (tid_from_tag tid)"
  using assms cache_steps_rel cache_steps_call_id cache_steps_branch cache_steps_from_tag fill.same
  by (cases rule: cache_request_cases; fastforce simp: step_in_def leaves_def)+

lemma uas_fill_spec:
  assumes "uas_fill ev tm tpp tid req m i t = Some (r, req', t')" "policy_ok ev"
  shows "fill_rel t t'"
    "heap_ok (x_scratch t) \<Longrightarrow> r = USIPY_SIP_TM_OK \<Longrightarrow>
       x_call_id t' = tid_call_id tid \<and> x_branch t' = Kept (tid_vbranch tid) \<and> x_from_tag t' = Kept (tid_from_tag tid)"
proof -
  let ?keep = "act_keep (tid_call_id tid) (\<lambda>s t. t\<lparr>x_call_id := s\<rparr>)"
  let ?ctc = "usipy_sip_tm_uas_format_local_contact_uri (nus_local tpp)
              (\<lambda>s t. t\<lparr>x_uas := (x_uas t)\<lparr>sc_local_contact_uri := s\<rparr>\<rparr>)"
  let ?tag = "usipy_sip_tm_uas_prepare_local_tag ev tm i (cseq_val (tid_cseq tid)) m"
  let ?peer = "usipy_sip_tm_uas_copy_addr (\<lambda>a t. t\<lparr>x_peer := a\<rparr>) (nus_peer tpp)"
  let ?loc = "usipy_sip_tm_uas_copy_addr (\<lambda>a t. t\<lparr>x_local := a\<rparr>) (nus_local tpp)"
  obtain q u where u: "?keep t = Some (q, u)" using assms(1) by (auto simp: uas_fill_def bind_eq_Some_conv)
  have k1: "fill_rel t u"
    using fill.keep_in[of "\<lambda>s t. t\<lparr>x_call_id := s\<rparr>" "tid_call_id tid"] u
    by (simp add: step_in_def fill_rel_def fill_frame_def)
  have k2: "x_call_id u = tid_call_id tid" if h: "heap_ok (x_scratch t)" "q = USIPY_SIP_TM_OK"
  proof -
    from act_keep_value[OF h(1) u[unfolded h(2)]] obtain h' where "u = t\<lparr>x_scratch := h', x_call_id := tid_call_id tid\<rparr>"
      by metis
    then show ?thesis by simp
  qed
  have l: "step_in fill_rel (acts [?ctc, ?tag, ?peer, ?loc])"
    by (intro fill.acts_Cons fill.acts_Nil fill.contact_uri_in fill.local_tag_in fill.copy_addr_in assms(2))
      (simp_all add: fill_rel_def fill_frame_def)
  have n: "step_in (\<lambda>t t'. (x_call_id t', x_branch t', x_from_tag t') = (x_call_id t, x_branch t, x_from_tag t))
      (acts [?ctc, ?tag, ?peer, ?loc])"
    by (intro ident.acts_Cons ident.acts_Nil ident.contact_uri_in ident.local_tag_in ident.copy_addr_in assms(2)) simp_all
  consider (a) "t' = u" "r = q" "q \<noteq> USIPY_SIP_TM_OK"
    | (b) p req2 v where "q = USIPY_SIP_TM_OK" "usipy_sip_tm_uas_cache_request (ev_stk ev) req tid u = Some (p, req2, v)"
        "t' = v \<and> r = p \<and> p \<noteq> USIPY_SIP_TM_OK \<or> p = USIPY_SIP_TM_OK \<and> acts [?ctc, ?tag, ?peer, ?loc] v = Some (r, t')"
    using assms(1) u by (auto simp: uas_fill_def bind_eq_Some_conv simp del: acts.simps split: if_splits)
  then have "fill_rel t t' \<and> (heap_ok (x_scratch t) \<longrightarrow> r = USIPY_SIP_TM_OK \<longrightarrow>
      x_call_id t' = tid_call_id tid \<and> x_branch t' = Kept (tid_vbranch tid) \<and> x_from_tag t' = Kept (tid_from_tag tid))"
  proof cases
    case a
    then show ?thesis using k1 by simp
  next
    case b
    note C = cache_request_spec[OF b(2)]
    have "fill_rel v t'" using b(3) l fill.same by (auto simp: step_in_def simp del: acts.simps)
    then have "fill_rel t t'" using fill.chain k1 C(1) by blast
    moreover have "(x_call_id t', x_branch t', x_from_tag t') = (x_call_id v, x_branch v, x_from_tag v)"
      using b(3) n unfolding step_in_def by blast
    moreover have "r = USIPY_SIP_TM_OK \<Longrightarrow> p = USIPY_SIP_TM_OK" using b(3) by auto
    ultimately show ?thesis using C(2,3) k2 b(1) by auto
  qed
  then show "fill_rel t t'" "heap_ok (x_scratch t) \<Longrightarrow> r = USIPY_SIP_TM_OK \<Longrightarrow>
       x_call_id t' = tid_call_id tid \<and> x_branch t' = Kept (tid_vbranch tid) \<and> x_from_tag t' = Kept (tid_from_tag tid)"
    by simp_all
qed

end
