(* ===== verification/Usipy_Tmresp.thy ===== *)
theory Usipy_Tmresp
  imports Usipy_Tmuasfacts Usipy_Response
begin

text \<open>
  The text of a response of a server transaction: \<open>usipy_sip_tm_uas_build_response_cb\<close> writes exactly
  this text when it fits, and the slot then holds it.
\<close>

subsection \<open>Pieces\<close>

lemma append_all_eq:
  "length buf \<le> len \<Longrightarrow> append_all len ss buf =
     (if length buf + length (concat ss) \<le> len then Some (buf @ concat ss) else None)"
  by (induction ss arbitrary: buf) (auto simp: USIPY_APPEND_STR_def)

lemma hdr_pieces_text: "concat (hdr_pieces ty v) = hdr_text (ty, v) @ CRLF"
  by (simp add: hdr_pieces_def hdr_text_def)

lemma concat_hdr_pieces: "concat (concat (map (hdr_pieces ty) vs)) = lines_text (map (\<lambda>v. hdr_text (ty, v)) vs)"
  by (induction vs) (simp_all add: hdr_pieces_text lines_text_def)

lemma scode2str_same: "usipy_sip_tm_uas_scode2str c = scode2str c"
  by (simp add: usipy_sip_tm_uas_scode2str_def scode2str_def)

text \<open>An extra header that is sent, and its text.\<close>

definition extra_ok :: "usipy_sip_tm_extra_header \<Rightarrow> bool" where
  "extra_ok eh \<longleftrightarrow> eh_hf_type eh < length usipy_hdr_db \<and>
     he_cantype (usipy_hdr_db_byid (eh_hf_type eh)) = eh_hf_type eh \<and> eh_value_kind eh = USIPY_SIP_TM_EH_RAW"

definition extra_tv :: "usipy_sip_tm_extra_header \<Rightarrow> nat \<times> string" where
  "extra_tv eh = (eh_hf_type eh, case eh_value eh of None \<Rightarrow> [] | Some v \<Rightarrow> v)"

definition extra_text :: "usipy_sip_tm_extra_header list \<Rightarrow> string" where
  "extra_text ehs = lines_text (map hdr_text (map extra_tv ehs))"

lemma extra_text_simps: "extra_text [] = []" "extra_text (eh # ehs) = hdr_text (extra_tv eh) @ CRLF @ extra_text ehs"
  by (simp_all add: extra_text_def lines_text_def)

lemma extra_hdrs_eq:
  assumes "\<forall>eh\<in>set ehs. eh_hf_type eh < length usipy_hdr_db" "length buf \<le> len"
  shows "extra_hdrs len ehs buf = Some
    (if list_all extra_ok ehs \<and> length buf + length (extra_text ehs) \<le> len then Some (buf @ extra_text ehs) else None)"
  using assms
proof (induction ehs arbitrary: buf)
  case (Cons eh ehs)
  define p where "p = hdr_text (extra_tv eh) @ CRLF"
  have p: "concat (hdr_pieces (eh_hf_type eh) (case eh_value eh of None \<Rightarrow> [] | Some v \<Rightarrow> v)) = p"
    by (simp add: hdr_pieces_text extra_tv_def p_def)
  have l: "extra_text (eh # ehs) = p @ extra_text ehs" by (simp add: extra_text_simps p_def)
  show ?case
  proof (cases "extra_ok eh \<and> length buf + length p \<le> len")
    case True
    then have "extra_hdrs len (eh # ehs) buf = extra_hdrs len ehs (buf @ p)"
      using Cons.prems p by (simp add: extra_ok_def append_all_eq)
    then show ?thesis
      using Cons.IH[of "buf @ p"] Cons.prems True unfolding l by simp
  next
    case False
    then have "extra_hdrs len (eh # ehs) buf = Some None"
      using Cons.prems p by (auto simp: extra_ok_def append_all_eq split: option.split)
    then show ?thesis using False unfolding l by auto
  qed
qed (simp add: extra_text_simps)

subsection \<open>The whole text\<close>

definition opt_text :: "string option \<Rightarrow> string" where
  "opt_text s = (case s of None \<Rightarrow> [] | Some s \<Rightarrow> s)"

definition uas_headers :: "string \<Rightarrow> string \<Rightarrow> usipy_sip_tm_txi \<Rightarrow> usipy_sip_tm_uas_response_params \<Rightarrow> (nat \<times> string) list" where
  "uas_headers server luri tp rpp =
     (let slp = urp_status rpp; uas = x_uas tp;
          contact = (if sc_local_contact_uri uas = [] then luri else sc_local_contact_uri uas) in
      map (Pair USIPY_HF_VIA) (sc_vias uas) @
      [(USIPY_HF_FROM, sc_from uas),
       (USIPY_HF_TO, sc_to uas @ (if usipy_sip_tm_uas_include_to_tag tp slp then '';tag='' @ x_to_tag tp else [])),
       (USIPY_HF_CALLID, x_call_id tp),
       (USIPY_HF_CSEQ, dec (unat (cseq_val (x_cseq tp))) @ '' '' @ pct_s (usipy_method_db ! x_method_type tp))] @
      (if usipy_sip_tm_uas_copy_record_route tp slp then map (Pair USIPY_HF_RECORDROUTE) (sc_record_routes uas) else []) @
      (if x_method_type tp = USIPY_SIP_METHOD_INVITE \<and> st_code slp \<ge> 200 \<and> st_code slp < 300
       then [(USIPY_HF_CONTACT, ''<'' @ contact @ ''>'')] else []) @
      (if server \<noteq> [] then [(USIPY_HF_SERVER, server)] else []) @
      map extra_tv (urp_extra_headers rpp) @
      (if opt_text (urp_body rpp) \<noteq> [] \<and> opt_text (urp_content_type rpp) \<noteq> []
       then [(USIPY_HF_CONTENTTYPE, opt_text (urp_content_type rpp))] else []) @
      [(USIPY_HF_CONTENTLENGTH, dec (length (opt_text (urp_body rpp))))])"

definition uas_text :: "string \<Rightarrow> string \<Rightarrow> usipy_sip_tm_txi \<Rightarrow> usipy_sip_tm_uas_response_params \<Rightarrow> string" where
  "uas_text server luri tp rpp = status_text ''SIP/2.0'' (urp_status rpp) @ CRLF @
     lines_text (map hdr_text (uas_headers server luri tp rpp)) @ CRLF @ opt_text (urp_body rpp)"

lemma length_dec: "n < 10 ^ k \<Longrightarrow> 0 < k \<Longrightarrow> length (dec n) \<le> k"
proof (induction k arbitrary: n)
  case (Suc k)
  show ?case
  proof (cases "n < 10")
    case False
    then have "k \<noteq> 0" using Suc.prems by (cases k) auto
    moreover have "n div 10 < 10 ^ k" using Suc.prems by (simp add: less_mult_imp_div_less mult.commute)
    ultimately have "length (dec (n div 10)) \<le> k" using Suc.IH by simp
    then show ?thesis using False by (subst dec.simps) simp
  qed (subst dec.simps, simp)
qed simp

text \<open>A step that writes exactly \<open>s\<close>, or fails because it does not fit.\<close>

definition exact :: "nat \<Rightarrow> (string \<Rightarrow> string option) \<Rightarrow> string \<Rightarrow> bool" where
  "exact len w s \<longleftrightarrow> (\<forall>buf. length buf \<le> len \<longrightarrow>
     w buf = (if length buf + length s \<le> len then Some (buf @ s) else None))"

lemma exact_append: "exact len (append_all len ss) (concat ss)"
  by (simp add: exact_def append_all_eq)

lemma exact_bind: "exact len w1 s1 \<Longrightarrow> exact len w2 s2 \<Longrightarrow> exact len (\<lambda>b. Option.bind (w1 b) w2) (s1 @ s2)"
  by (auto simp: exact_def)

lemma exact_if: "exact len w s \<Longrightarrow> exact len (\<lambda>b. if c then w b else Some b) (if c then s else [])"
  by (simp add: exact_def)

lemma exact_cseq: "exact len k s \<Longrightarrow>
    exact len (\<lambda>b. Option.bind (snprintf_at c len b) (\<lambda>b. Option.bind (append_all len [CRLF] b) k)) (c @ CRLF @ s)"
  by (auto simp: exact_def snprintf_at_def USIPY_APPEND_STR_def)

lemma exact_check: "p \<Longrightarrow> exact len k s \<Longrightarrow> exact len (\<lambda>b. Option.bind (if \<not> p then None else Some ()) (\<lambda>_. k b)) s"
  by (simp add: exact_def)

lemma exact_case:
  assumes "exact len k s" "concat ss @ s = H" "X = H @ T"
    and "length H \<le> len \<Longrightarrow> f H = Some (if P \<and> length X \<le> len then Some X else None)"
  shows "(case Option.bind (append_all len ss []) k of None \<Rightarrow> Some None | Some b \<Rightarrow> f b) =
    Some (if P \<and> length X \<le> len then Some X else None)"
proof -
  have "Option.bind (append_all len ss []) k = (if length H \<le> len then Some H else None)"
    using assms(1,2) by (auto simp: exact_def append_all_eq)
  then show ?thesis using assms(3,4) by auto
qed

text \<open>The headers before the extra ones, and those after them.\<close>

definition uas_first_headers where
  "uas_first_headers server luri tp slp =
     (let uas = x_uas tp; contact = (if sc_local_contact_uri uas = [] then luri else sc_local_contact_uri uas) in
      map (Pair USIPY_HF_VIA) (sc_vias uas) @
      [(USIPY_HF_FROM, sc_from uas),
       (USIPY_HF_TO, sc_to uas @ (if usipy_sip_tm_uas_include_to_tag tp slp then '';tag='' @ x_to_tag tp else [])),
       (USIPY_HF_CALLID, x_call_id tp),
       (USIPY_HF_CSEQ, dec (unat (cseq_val (x_cseq tp))) @ '' '' @ pct_s (usipy_method_db ! x_method_type tp))] @
      (if usipy_sip_tm_uas_copy_record_route tp slp then map (Pair USIPY_HF_RECORDROUTE) (sc_record_routes uas) else []) @
      (if x_method_type tp = USIPY_SIP_METHOD_INVITE \<and> st_code slp \<ge> 200 \<and> st_code slp < 300
       then [(USIPY_HF_CONTACT, ''<'' @ contact @ ''>'')] else []) @
      (if server \<noteq> [] then [(USIPY_HF_SERVER, server)] else []))"

definition uas_last_headers :: "string \<Rightarrow> string \<Rightarrow> (nat \<times> string) list" where
  "uas_last_headers ct body = (if body \<noteq> [] \<and> ct \<noteq> [] then [(USIPY_HF_CONTENTTYPE, ct)] else []) @
     [(USIPY_HF_CONTENTLENGTH, dec (length body))]"

lemma uas_text_parts:
  "uas_text server luri tp rpp = (status_text ''SIP/2.0'' (urp_status rpp) @ CRLF @
     lines_text (map hdr_text (uas_first_headers server luri tp (urp_status rpp)))) @
     extra_text (urp_extra_headers rpp) @
     lines_text (map hdr_text (uas_last_headers (opt_text (urp_content_type rpp)) (opt_text (urp_body rpp)))) @
     CRLF @ opt_text (urp_body rpp)"
  by (simp only: uas_text_def uas_headers_def uas_first_headers_def uas_last_headers_def Let_def map_append
      lines_text_append extra_text_def append_assoc)

lemma last_headers_exact:
  assumes "length body < 10 ^ 31" "length buf \<le> len"
  shows "Option.bind (if length body \<noteq> 0 \<and> length ct \<noteq> 0 then append_all len (hdr_pieces USIPY_HF_CONTENTTYPE ct) buf else Some buf)
    (\<lambda>buf. Option.bind (append_all len [he_name (usipy_hdr_db_byid USIPY_HF_CONTENTLENGTH), '': ''] buf)
    (\<lambda>buf. Option.bind (if length (dec (length body)) \<ge> 32 then None else Some ())
    (\<lambda>_. Option.bind (append_all len [dec (length body), CRLF, CRLF] buf)
    (\<lambda>buf. if length body \<noteq> 0 then append_all len [body] buf else Some buf)))) =
    (if length (buf @ lines_text (map hdr_text (uas_last_headers ct body)) @ CRLF @ body) \<le> len
     then Some (buf @ lines_text (map hdr_text (uas_last_headers ct body)) @ CRLF @ body) else None)"
proof -
  have d: "\<not> length (dec (length body)) \<ge> 32" using length_dec[OF assms(1)] by simp
  show ?thesis
    using assms(2) d
    by (simp add: append_all_eq uas_last_headers_def lines_text_def hdr_pieces_text hdr_text_def del: append_all.simps)
qed

lemma bind_guarded:
  assumes "\<And>buf. length buf \<le> len \<Longrightarrow> k buf = (if length (buf @ t) \<le> len then Some (buf @ t) else None)"
  shows "Option.bind (if p \<and> length h + length e \<le> len then Some (h @ e) else None) k =
    (if p \<and> length (h @ e @ t) \<le> len then Some (h @ e @ t) else None)"
  using assms[of "h @ e"] by simp

lemma build_response_cb_eq:
  assumes "\<forall>eh\<in>set (urp_extra_headers rpp). eh_hf_type eh < length usipy_hdr_db" "length (opt_text (urp_body rpp)) < 10 ^ 31"
  shows "usipy_sip_tm_uas_build_response_cb server luri tp rpp len = Some
    (if list_all extra_ok (urp_extra_headers rpp) \<and> length (uas_text server luri tp rpp) \<le> len
     then Some (uas_text server luri tp rpp) else None)"
  unfolding usipy_sip_tm_uas_build_response_cb_def Let_def opt_text_def[symmetric]
proof (rule exact_case[OF _ _ uas_text_parts], (rule exact_cseq exact_if exact_append exact_bind)+, goal_cases)
  case 1
  show ?case
    by (simp add: uas_first_headers_def lines_text_def hdr_pieces_text concat_hdr_pieces hdr_text_def scode2str_same status_text_def Let_def o_def)
next
  case 2
  then show ?case
    unfolding extra_hdrs_eq[OF assms(1) 2] bind.simps uas_text_parts
    by (subst bind_guarded[OF last_headers_exact[OF assms(2)]]) (rule refl | assumption)+
qed

subsection \<open>The message in the slot\<close>

text \<open>What \<open>usipy_msg_heap_build\<close> has room for.\<close>

definition room :: "usipy_msg_heap \<Rightarrow> nat" where
  "room hp = hsize hp - up8 (mark hp)"

lemma build_room:
  assumes "heap_ok hp"
  shows "unat (mh_tsize hp - USIPY_ALIGNED_SIZE (mh_alen hp)) = room hp"
proof -
  have "unat (USIPY_ALIGNED_SIZE (mh_alen hp)) = up8 (mark hp)"
    using hsize_bound[OF assms] heap_ok_mark[OF assms] by (intro unat_ALIGNED_SIZE) simp
  then show ?thesis using up8_mark[OF assms] by (simp add: room_def unat_sub word_le_nat_alt)
qed

text \<open>A text that fits is built, and stored below the new mark.\<close>

lemma build_fits:
  assumes ok: "heap_ok hp" and len: "length out \<le> room hp" and n: "room hp \<noteq> 0"
  obtains sl h where "usipy_msg_heap_build hp (\<lambda>_. Some out) = (Some sl, h)" "slice_read h sl = out"
    "heap_ok h" "same_frame hp h" "snd sl = of_nat (length out)" "length out < 2 ^ 64"
proof -
  let ?cb = "\<lambda>c. if c = room hp then Some out else None"
  have e: "usipy_msg_heap_build hp (\<lambda>_. Some out) = usipy_msg_heap_build hp ?cb"
    using build_room[OF ok] by (simp add: usipy_msg_heap_build_def Let_def)
  let ?off = "USIPY_ALIGNED_SIZE (mh_alen hp)"
  let ?h = "hp\<lparr>mh_cells := overwrite (unat ?off) out (mh_cells hp)\<rparr>"
  have off: "unat ?off = up8 (mark hp)"
    using hsize_bound[OF ok] heap_ok_mark[OF ok] by (intro unat_ALIGNED_SIZE) simp
  have "mh_tsize hp - ?off \<noteq> 0" using n build_room[OF ok] by auto
  then have b: "usipy_msg_heap_build hp (\<lambda>_. Some out) =
      (case usipy_msg_heap_reserve ?h (USIPY_ALIGNED_SIZE (of_nat (length out))) True of
            (None, hp) \<Rightarrow> (None, hp) | (Some bp, hp) \<Rightarrow> (Some (bp, of_nat (length out)), hp))"
    by (simp add: usipy_msg_heap_build_def Let_def)
  have fit: "up8 (mark hp) + length out \<le> hsize hp" using len conjunct2[OF up8_mark[OF ok]] by (metis add.commute le_diff_conv2 room_def)
  have l: "length out + 7 < 2 ^ 64" using fit hsize_bound[OF ok] by simp
  then have u8: "unat (USIPY_ALIGNED_SIZE (of_nat (length out))) = up8 (length out)"
    by (subst unat_ALIGNED_SIZE) (simp_all add: unat_of_nat)
  have sum: "up8 (mark hp) + up8 (length out) \<le> hsize hp"
    using up8_le[OF dvd_diff_nat[OF heap_ok_dvd[OF ok] up8_bounds(3)[of "mark hp"]], of "length out"] fit by linarith
  have "length (mh_cells hp) = hsize hp" using ok by (simp add: heap_ok_def)
  then have h: "heap_ok ?h" using fit ok off by (simp add: heap_ok_def live_checkpoints_def)
  have "unat (USIPY_ALIGNED_SIZE (of_nat (length out))) + 7 < 2 ^ 64" using u8 sum hsize_bound[OF ok] by simp
  from reserve_cases[OF h this, of True] obtain g bp where
    "usipy_msg_heap_reserve ?h (USIPY_ALIGNED_SIZE (of_nat (length out))) True = (Some bp, g)"
    using sum u8 by simp
  then have B: "usipy_msg_heap_build hp (\<lambda>_. Some out) = (Some (bp, of_nat (length out)), g)" unfolding b by simp
  have "usipy_msg_heap_build hp ?cb = (Some (bp, of_nat (length out)), g)" using B e by simp
  then obtain o' where "?cb (hsize hp - up8 (mark hp)) = Some o'" "slice_read g (bp, of_nat (length out)) = o'"
    "heap_ok g" "same_frame hp g"
    using build_Some[OF ok, of ?cb] len by (metis option.inject option.discI)
  then show thesis using B l by (intro that[of "(bp, of_nat (length out))" g]) (simp_all add: room_def)
qed

lemma rollback_first:
  assumes "heap_ok h" "mh_checkpoint_top h = 1"
  obtains h' where "usipy_msg_heap_rollback h 0 = Some h'" "heap_ok h'" "same_frame h h'"
    "mh_alen h' = mh_checkpoints h ! 0"
proof -
  have n: "mh_checkpoints h \<noteq> []" "live_checkpoints h = [mh_checkpoints h ! 0]"
  proof -
    have "1 \<le> unat (mh_ncheckpoints h)" "unat (mh_ncheckpoints h) \<le> length (mh_checkpoints h)"
      using assms by (auto simp: heap_ok_def word_le_nat_alt)
    then show "mh_checkpoints h \<noteq> []" by auto
    then show "live_checkpoints h = [mh_checkpoints h ! 0]"
      using assms(2) by (cases "mh_checkpoints h") (simp_all add: live_checkpoints_def)
  qed
  have le: "mh_checkpoints h ! unat 0 \<le> mh_alen h" using assms(1) n by (simp add: heap_ok_def)
  show thesis
  proof (rule rollback_Some[OF assms(1), of 0])
    show "\<forall>cp\<in>set (live_checkpoints h). cp \<le> mh_checkpoints h ! unat 0" using n(2) by simp
  qed (use assms(2) le that in \<open>simp_all add: USIPY_MSG_HEAP_CHECKPOINT_NONE_def\<close>)
qed

text \<open>The response is built over the last one: it is its text, or there is no room for it.\<close>

definition uas_room :: "usipy_sip_tm_txi \<Rightarrow> nat" where
  "uas_room t = hsize (x_scratch t) - up8 (unat (mh_checkpoints (x_scratch t) ! 0))"

definition extras_known :: "usipy_sip_tm_uas_response_params \<Rightarrow> bool" where
  "extras_known rpp \<longleftrightarrow> (\<forall>eh\<in>set (urp_extra_headers rpp). eh_hf_type eh < length usipy_hdr_db) \<and>
     length (opt_text (urp_body rpp)) < 10 ^ 31"

definition uas_sendable :: "string \<Rightarrow> string \<Rightarrow> usipy_sip_tm_txi \<Rightarrow> usipy_sip_tm_uas_response_params \<Rightarrow> bool" where
  "uas_sendable server luri t rpp \<longleftrightarrow> list_all extra_ok (urp_extra_headers rpp) \<and>
     length (uas_text server luri t rpp) \<le> uas_room t"

lemma uas_choices_scratch:
  "usipy_sip_tm_uas_include_to_tag (t\<lparr>x_scratch := h\<rparr>) slp = usipy_sip_tm_uas_include_to_tag t slp"
  "usipy_sip_tm_uas_copy_record_route (t\<lparr>x_scratch := h\<rparr>) slp = usipy_sip_tm_uas_copy_record_route t slp"
  by (simp_all add: usipy_sip_tm_uas_include_to_tag_def usipy_sip_tm_uas_copy_record_route_def)

lemma uas_text_scratch [simp]: "uas_text server luri (t\<lparr>x_scratch := h\<rparr>) rpp = uas_text server luri t rpp"
  by (simp add: uas_text_def uas_headers_def uas_choices_scratch Let_def split del: if_split cong: if_cong)

lemma uas_text_pos: "0 < length (uas_text server luri t rpp)"
  by (simp add: uas_text_def status_text_def)

lemma uas_build_response_spec:
  assumes "heap_ok (x_scratch t)" "mh_checkpoint_top (x_scratch t) = 1" "x_checkpoint t = 0" "extras_known rpp"
  obtains
    (built) h sl where "uas_sendable server luri t rpp"
      "uas_build_response server luri rpp t =
         Some (USIPY_SIP_TM_OK, t\<lparr>x_scratch := h, x_outbound := (x_outbound t)\<lparr>ob_raw := sl\<rparr>\<rparr>)"
      "slice_read h sl = uas_text server luri t rpp" "heap_ok h" "same_frame (x_scratch t) h"
      "snd sl = of_nat (length (uas_text server luri t rpp))" "snd sl \<noteq> 0"
  | (refused) h where "\<not> uas_sendable server luri t rpp"
      "uas_build_response server luri rpp t = Some (USIPY_SIP_TM_ERR_NOSPC, t\<lparr>x_scratch := h\<rparr>)"
      "heap_ok h" "same_frame (x_scratch t) h"
proof -
  let ?t = "uas_text server luri t rpp"
  obtain h where h: "usipy_msg_heap_rollback (x_scratch t) 0 = Some h" "heap_ok h" "same_frame (x_scratch t) h"
    "mh_alen h = mh_checkpoints (x_scratch t) ! 0" using rollback_first[OF assms(1,2)] by metis
  have r: "room h = uas_room t" using h(3,4) same_frame_sel[OF h(3)] by (simp add: room_def uas_room_def)
  define out where "out = (if uas_sendable server luri t rpp then Some ?t else None)"
  have cb: "(if mh_tsize h - USIPY_ALIGNED_SIZE (mh_alen h) = 0 then Some None
      else usipy_sip_tm_uas_build_response_cb server luri (t\<lparr>x_scratch := h\<rparr>) rpp
        (unat (mh_tsize h - USIPY_ALIGNED_SIZE (mh_alen h)))) = Some out"
  proof (cases "room h = 0")
    case True
    then have "mh_tsize h - USIPY_ALIGNED_SIZE (mh_alen h) = 0" using build_room[OF h(2)] by (simp add: unat_eq_0)
    moreover have "\<not> uas_sendable server luri t rpp" using True r uas_text_pos by (simp add: uas_sendable_def)
    ultimately show ?thesis by (simp add: out_def)
  next
    case False
    then have "mh_tsize h - USIPY_ALIGNED_SIZE (mh_alen h) \<noteq> 0" using build_room[OF h(2)] by auto
    then show ?thesis
      using assms(4) r by (simp add: build_room[OF h(2)] build_response_cb_eq extras_known_def out_def uas_sendable_def)
  qed
  have e: "uas_build_response server luri rpp t = (case usipy_msg_heap_build h (\<lambda>_. out) of
       (None, h) \<Rightarrow> Some (USIPY_SIP_TM_ERR_NOSPC, t\<lparr>x_scratch := h\<rparr>)
     | (Some sl, h) \<Rightarrow> Some (USIPY_SIP_TM_OK, t\<lparr>x_scratch := h, x_outbound := (x_outbound t)\<lparr>ob_raw := sl\<rparr>\<rparr>))"
    unfolding uas_build_response_def assms(3) h(1) bind.simps Let_def cb
    by (simp add: USIPY_MSG_HEAP_CHECKPOINT_NONE_def)
  show thesis
  proof (cases "uas_sendable server luri t rpp")
    case True
    then have l: "length ?t \<le> room h" using r by (simp add: uas_sendable_def)
    note len = l less_imp_neq[OF less_le_trans[OF uas_text_pos l], symmetric]
    obtain sl g where g: "usipy_msg_heap_build h (\<lambda>_. Some ?t) = (Some sl, g)" "slice_read g sl = ?t"
      "heap_ok g" "same_frame h g" "snd sl = of_nat (length ?t)" "length ?t < 2 ^ 64" using build_fits[OF h(2) len] by metis
    have "unat (snd sl) = length ?t" using g(5,6) by (simp add: unat_of_nat)
    then have "unat (snd sl) \<noteq> 0" using uas_text_pos[of server luri t rpp] by simp
    then have "snd sl \<noteq> 0" by (metis unat_0)
    then show thesis using True g same_frame_trans[OF h(3) g(4)] e by (intro built[of sl g]; simp add: out_def)
  next
    case False
    have "usipy_msg_heap_build h (\<lambda>_. None) = (None, h)" by (simp add: usipy_msg_heap_build_def Let_def)
    then show thesis using False h(2,3) e by (intro refused) (simp_all add: out_def)
  qed
qed

end
