(* ===== verification/Usipy_Tminv.thy ===== *)
theory Usipy_Tminv
  imports Usipy_Tmresp
begin

unbundle bit_operations_syntax

text \<open>
  The invariant of a server transaction: the state, the last status code and the timer that runs agree,
  the response is kept above the only checkpoint, and the copy of the outbound data the application sees
  is in step. Every operation keeps it, and none aborts because of it.
\<close>

subsection \<open>A server transaction\<close>

fun kept :: "string_ref \<Rightarrow> bool" where
  "kept (Kept s) = True"
| "kept (Scratch sl) = False"

definition uas_states :: "usipy_sip_tm_txi \<Rightarrow> bool" where
  "uas_states t \<longleftrightarrow>
     (let code = x_last_status_code t; invite = (x_method_type t = USIPY_SIP_METHOD_INVITE);
          timer = tmr_type (x_timer t) in
      case x_state t of
        USIPY_SIP_TM_STATE_TRYING \<Rightarrow> code = 0 \<and> timer = USIPY_SIP_TM_TIMER_NONE
      | USIPY_SIP_TM_STATE_PROCEEDING \<Rightarrow> code < 200 \<and> timer = USIPY_SIP_TM_TIMER_NONE
      | USIPY_SIP_TM_STATE_COMPLETED \<Rightarrow>
          if invite then code \<ge> 300 \<and> timer = USIPY_SIP_TM_TIMER_H
          else code \<ge> 200 \<and> (timer = USIPY_SIP_TM_TIMER_NONE \<or> timer = USIPY_SIP_TM_TIMER_J)
      | USIPY_SIP_TM_STATE_ACCEPTED \<Rightarrow> invite \<and> code \<ge> 200 \<and> code < 300 \<and> timer = USIPY_SIP_TM_TIMER_L
      | USIPY_SIP_TM_STATE_CONFIRMED \<Rightarrow> invite \<and> code \<ge> 300 \<and> timer = USIPY_SIP_TM_TIMER_I
      | USIPY_SIP_TM_STATE_TERMINATED \<Rightarrow>
          has_flag (x_flags t) USIPY_SIP_TM_F_TERMINATED \<and> timer = USIPY_SIP_TM_TIMER_NONE
      | _ \<Rightarrow> False)"

definition policy_set :: "usipy_sip_tm_timer_policy \<Rightarrow> bool" where
  "policy_set p \<longleftrightarrow> t1_ms p \<noteq> 0 \<and> t2_ms p \<noteq> 0 \<and> t4_ms p \<noteq> 0"

definition uas_inv :: "usipy_sip_tm_txi \<Rightarrow> bool" where
  "uas_inv t \<longleftrightarrow> uas_states t \<and> x_checkpoint t = 0 \<and> mh_checkpoint_top (x_scratch t) = 1 \<and>
     policy_set (x_timers t) \<and> x_pub_outbound t = x_outbound t \<and>
     id_method_type (x_id t) = x_method_type t \<and> x_method_type t \<noteq> USIPY_SIP_METHOD_ACK \<and>
     kept (id_branch (x_id t)) \<and> kept (id_from_tag (x_id t))"

text \<open>
  A client transaction: its outbound checkpoint is the last one taken, so that the message can always be
  given back; its method is one of the table and that of its CSeq; the INVITEs are those with
  an INVITE state, and what is not an ACK has its request URI; an abandoned transaction is an INVITE that calls nobody back.
\<close>

definition uac_inv :: "usipy_sip_tm_txi \<Rightarrow> bool" where
  "uac_inv t \<longleftrightarrow>
     (mh_checkpoint_top (x_scratch t) = 1 \<or> mh_checkpoint_top (x_scratch t) = 2) \<and>
     x_checkpoint t = mh_checkpoint_top (x_scratch t) - 1 \<and> policy_set (x_timers t) \<and>
     id_method_type (x_id t) = x_method_type t \<and> cseq_method (x_cseq t) = x_method_type t \<and>
     x_method_type t \<noteq> USIPY_SIP_METHOD_generic \<and> x_method_type t \<le> USIPY_SIP_METHOD_max \<and>
     (x_method_type t = USIPY_SIP_METHOD_INVITE \<longleftrightarrow> x_invite t \<noteq> None) \<and>
     (x_method_type t \<noteq> USIPY_SIP_METHOD_ACK \<longrightarrow> cc_request_uri (x_uac t) \<noteq> None) \<and>
     (has_flag (x_flags t) USIPY_SIP_TM_F_ABANDONED \<longrightarrow>
        x_callbacks t = uac_callbacks_zero \<and> x_method_type t = USIPY_SIP_METHOD_INVITE) \<and>
     (x_state t = USIPY_SIP_TM_STATE_TERMINATED \<longrightarrow> has_flag (x_flags t) USIPY_SIP_TM_F_TERMINATED)"

lemma resolve_set [simp]: "policy_set (usipy_sip_tm_timer_policy_resolve p)"
  by (cases p) (simp_all add: usipy_sip_tm_timer_policy_resolve_def policy_set_def Let_def
      USIPY_SIP_TM_TIMER_POLICY_RFC3261_def)

text \<open>The timers are always derived, and never abort.\<close>

lemma policy_timers:
  assumes "policy_set p"
  shows "\<exists>v. usipy_sip_tm_timer_j_ms p = Some v" "usipy_sip_tm_timer_h_ms p = Some (t1_ms p * 64)"
    "\<exists>v. usipy_sip_tm_timer_l_ms p = Some v" "usipy_sip_tm_timer_i_ms p = Some (t4_ms p)"
  using assms by (simp_all add: policy_set_def usipy_sip_tm_timer_j_ms_def usipy_sip_tm_timer_h_ms_def
      usipy_sip_tm_timer_l_ms_def usipy_sip_tm_timer_i_ms_def)

text \<open>A step of a transaction: the slot stays well formed, in its place and in its role, and valid.\<close>

definition slot_step :: "usipy_sip_tm_txi \<Rightarrow> usipy_sip_tm_txi \<Rightarrow> bool" where
  "slot_step t t' \<longleftrightarrow> x_active t' = x_active t \<and> x_parent_index t' = x_parent_index t \<and> x_role t' = x_role t \<and>
     (slot_ok t \<longrightarrow> slot_ok t') \<and> (uas_inv t \<longrightarrow> uas_inv t') \<and>
     (x_role t = USIPY_SIP_TM_ROLE_UAC \<longrightarrow> uac_inv t \<longrightarrow> uac_inv t')"

lemma slot_step_refl [simp]: "slot_step t t"
  by (simp add: slot_step_def)

lemma slot_step_trans [trans]: "slot_step t u \<Longrightarrow> slot_step u v \<Longrightarrow> slot_step t v"
  by (auto simp: slot_step_def)

lemma slot_ok_frame:
  assumes "slot_ok t" "heap_ok (x_scratch t')" "same_frame (x_scratch t) (x_scratch t')"
    "x_scratch_buf t' = x_scratch_buf t" "x_scratch_capacity t' = x_scratch_capacity t"
  shows "slot_ok t'" "mh_checkpoint_top (x_scratch t') = mh_checkpoint_top (x_scratch t)"
  using assms same_frame_sel[OF assms(3)] by (simp_all add: slot_ok_def)

named_theorems slot_step_defs \<open>what a step of a transaction unfolds to\<close>

declare slot_step_def [slot_step_defs] slot_ok_def [slot_step_defs] uas_inv_def [slot_step_defs]
  uas_states_def [slot_step_defs] uac_inv_def [slot_step_defs] Let_def [slot_step_defs]

subsection \<open>Its small steps\<close>

lemma terminated_step: "slot_step t (usipy_sip_tm_uas_mark_terminated t)"
  by (simp add: slot_step_defs usipy_sip_tm_uas_mark_terminated_def tm_steps flag_raised)
     (simp add: has_flag_def)

lemma ack_flag_step: "slot_step t (raise_flag USIPY_SIP_TM_F_ACKED t)"
proof -
  have "\<not> has_flag USIPY_SIP_TM_F_ACKED USIPY_SIP_TM_F_ABANDONED" by (simp add: has_flag_def)
  then show ?thesis by (simp add: slot_step_defs tm_steps flag_raised split: usipy_sip_tm_state.split)
qed

lemma owner_step: "slot_step t (t\<lparr>x_uas_owner := w\<rparr>)"
  by (simp add: slot_step_defs split: usipy_sip_tm_state.split)

lemma send_at_step: "slot_step t (sync_outbound (set_next_send w t))"
  by (simp add: slot_step_defs tm_steps split: usipy_sip_tm_state.split)

lemma timers_step: "slot_step t (t\<lparr>x_timers := usipy_sip_tm_timer_policy_resolve p\<rparr>)"
  by (simp add: slot_step_defs split: usipy_sip_tm_state.split)

lemma again_step: "slot_step t (uas_request_again now t)"
  by (simp add: slot_step_defs uas_request_again_def tm_steps split: usipy_sip_tm_state.split)

lemma note_sent_step: "slot_step t (uas_note_sent now t)"
  by (simp add: slot_step_defs uas_note_sent_def tm_steps split: usipy_sip_tm_state.split)

lemma timer_l_step: "slot_step t (uas_start_timer_l now t)"
  by (simp add: slot_step_defs uas_start_timer_l_def split: usipy_sip_tm_state.split)

text \<open>An ACK to an error response.\<close>

lemma ack_step:
  assumes "usipy_sip_tm_uas_handle_ack now t = Some t'" "x_state t = USIPY_SIP_TM_STATE_COMPLETED"
    "x_method_type t = USIPY_SIP_METHOD_INVITE"
  shows "slot_step t t'"
proof -
  let ?u = "sync_outbound (set_next_send USIPY_SIP_TM_TIME_NONE t)"
  show ?thesis
  proof (cases "reliable ?u")
    case True
    then have "t' = usipy_sip_tm_uas_mark_terminated ?u" using assms(1) by (simp add: usipy_sip_tm_uas_handle_ack_def)
    then show ?thesis using slot_step_trans[OF send_at_step terminated_step] by simp
  next
    case False
    then obtain v where t': "t' = set_timer USIPY_SIP_TM_TIMER_I v (now + ucast v) (?u\<lparr>x_state := USIPY_SIP_TM_STATE_CONFIRMED\<rparr>)"
      using assms(1) by (auto simp: usipy_sip_tm_uas_handle_ack_def Let_def bind_eq_Some_conv)
    show ?thesis unfolding t' using assms(2,3) by (simp add: slot_step_defs tm_steps)
  qed
qed

lemma post_invite_step:
  assumes "usipy_sip_tm_uas_post_send_invite_final now t outp = Some (t', outp')"
  shows "slot_step t t'"
proof -
  define u where "u = (if tmr_due_at_ms (x_timer t) = USIPY_SIP_TM_TIME_NONE
               then t\<lparr>x_timer := (x_timer t)\<lparr>tmr_due_at_ms := now + ucast (tmr_value_ms (x_timer t))\<rparr>\<rparr> else t)"
  have "slot_step t u" by (simp add: u_def slot_step_defs split: usipy_sip_tm_state.split)
  moreover have "slot_step u t'"
    using assms send_at_step[of u] unfolding usipy_sip_tm_uas_post_send_invite_final_def Let_def u_def[symmetric]
    by (auto simp: bind_eq_Some_conv split: if_splits)
  ultimately show ?thesis by (rule slot_step_trans)
qed

lemma post_final_step:
  assumes "usipy_sip_tm_uas_post_send_final now t outp = Some (t', outp')"
    "x_state t = USIPY_SIP_TM_STATE_COMPLETED" "x_method_type t \<noteq> USIPY_SIP_METHOD_INVITE"
  shows "slot_step t t'"
proof (cases "reliable t")
  case True
  then have "t' = usipy_sip_tm_uas_mark_terminated t" using assms(1) by (simp add: usipy_sip_tm_uas_post_send_final_def)
  then show ?thesis by (simp add: terminated_step)
next
  case False
  then obtain v where t': "t' = set_timer USIPY_SIP_TM_TIMER_J v (now + ucast v) t"
    using assms(1) by (auto simp: usipy_sip_tm_uas_post_send_final_def Let_def bind_eq_Some_conv)
  show ?thesis unfolding t' using assms(2,3) by (simp add: slot_step_defs tm_steps)
qed

subsection \<open>Responding\<close>

lemma resp_code:
  fixes c :: uint32
  assumes "c < 65536"
  shows "(ucast c :: 16 word) < 200 \<longleftrightarrow> c < 200" "(ucast c :: 16 word) < 300 \<longleftrightarrow> c < 300"
    "200 \<le> (ucast c :: 16 word) \<longleftrightarrow> 200 \<le> c" "300 \<le> (ucast c :: 16 word) \<longleftrightarrow> 300 \<le> c"
proof -
  have "unat (ucast c :: 16 word) = unat c"
    using assms by (simp add: unsigned_ucast_eq word_less_nat_alt take_bit_nat_eq_self)
  then show "(ucast c :: 16 word) < 200 \<longleftrightarrow> c < 200" "(ucast c :: 16 word) < 300 \<longleftrightarrow> c < 300"
    "200 \<le> (ucast c :: 16 word) \<longleftrightarrow> 200 \<le> c" "300 \<le> (ucast c :: 16 word) \<longleftrightarrow> 300 \<le> c"
    by (simp_all add: word_less_nat_alt word_le_nat_alt)
qed

text \<open>The state after a response: which one, and that it is a valid one.\<close>

definition response_class :: "usipy_sip_tm_txi \<Rightarrow> uint32 \<Rightarrow> usipy_sip_tm_state" where
  "response_class t code =
     (if code < 200 then USIPY_SIP_TM_STATE_PROCEEDING
      else if x_method_type t = USIPY_SIP_METHOD_INVITE \<and> code < 300 then USIPY_SIP_TM_STATE_ACCEPTED
      else USIPY_SIP_TM_STATE_COMPLETED)"

definition same_slot :: "usipy_sip_tm_txi \<Rightarrow> usipy_sip_tm_txi \<Rightarrow> bool" where
  "same_slot t t' \<longleftrightarrow> x_active t' = x_active t \<and> x_parent_index t' = x_parent_index t \<and> x_role t' = x_role t \<and>
     x_scratch t' = x_scratch t \<and> x_scratch_buf t' = x_scratch_buf t \<and>
     x_scratch_capacity t' = x_scratch_capacity t \<and> x_checkpoint t' = x_checkpoint t \<and> x_timers t' = x_timers t \<and>
     x_method_type t' = x_method_type t \<and> x_id t' = x_id t"

lemma response_state_total:
  assumes "policy_set (x_timers t)"
  shows "\<exists>t'. uas_response_state rpp t = Some t'"
proof -
  obtain l where l: "usipy_sip_tm_timer_l_ms (x_timers t) = Some l" using policy_timers(3)[OF assms] by blast
  show ?thesis using l policy_timers(2)[OF assms] by (simp add: uas_response_state_def Let_def tm_steps)
qed

lemma response_state_cases:
  assumes "uas_response_state rpp t = Some t'"
  obtains (provisional) "st_code (urp_status rpp) < 200" "x_state t' = USIPY_SIP_TM_STATE_PROCEEDING"
      "tmr_type (x_timer t') = USIPY_SIP_TM_TIMER_NONE"
  | (accepted) "\<not> st_code (urp_status rpp) < 200" "st_code (urp_status rpp) < 300"
      "x_method_type t = USIPY_SIP_METHOD_INVITE" "x_state t' = USIPY_SIP_TM_STATE_ACCEPTED"
      "tmr_type (x_timer t') = USIPY_SIP_TM_TIMER_L" "tmr_due_at_ms (x_timer t') = USIPY_SIP_TM_TIME_NONE"
  | (rejected) "\<not> st_code (urp_status rpp) < 200" "\<not> st_code (urp_status rpp) < 300"
      "x_method_type t = USIPY_SIP_METHOD_INVITE" "x_state t' = USIPY_SIP_TM_STATE_COMPLETED"
      "x_timer t' = \<lparr>tmr_type = USIPY_SIP_TM_TIMER_H, tmr_value_ms = t1_ms (x_timers t) * 64,
        tmr_due_at_ms = USIPY_SIP_TM_TIME_NONE\<rparr>"
  | (completed) "\<not> st_code (urp_status rpp) < 200" "x_method_type t \<noteq> USIPY_SIP_METHOD_INVITE"
      "x_state t' = USIPY_SIP_TM_STATE_COMPLETED" "tmr_type (x_timer t') = USIPY_SIP_TM_TIMER_NONE"
proof (cases "st_code (urp_status rpp) < 200")
  case True
  then show thesis using assms
    by (intro provisional) (auto simp: uas_response_state_def Let_def tm_steps)
next
  case n: False
  show thesis
  proof (cases "x_method_type t = USIPY_SIP_METHOD_INVITE")
    case i: True
    show thesis
    proof (cases "st_code (urp_status rpp) < 300")
      case True
      then show thesis using assms n i
        by (intro accepted) (auto simp: uas_response_state_def Let_def tm_steps bind_eq_Some_conv)
    next
      case False
      then have e: "(st_code (urp_status rpp) < 200) = False" "(st_code (urp_status rpp) < 300) = False"
        "(300 \<le> st_code (urp_status rpp)) = True" using n by simp_all
      have "x_state t' = USIPY_SIP_TM_STATE_COMPLETED \<and> x_timer t' = \<lparr>tmr_type = USIPY_SIP_TM_TIMER_H,
          tmr_value_ms = t1_ms (x_timers t) * 64, tmr_due_at_ms = USIPY_SIP_TM_TIME_NONE\<rparr>"
        using assms unfolding uas_response_state_def Let_def e if_False if_True simp_thms
        by (simp add: i tm_steps usipy_sip_tm_timer_h_ms_def) (elim conjE, hypsubst, simp)
      then show thesis using i n False by (intro rejected) blast+
    qed
  next
    case False
    then show thesis using assms n
      by (intro completed) (auto simp: uas_response_state_def Let_def tm_steps)
  qed
qed

definition responded :: "uint32 \<Rightarrow> usipy_sip_tm_txi \<Rightarrow> usipy_sip_tm_txi \<Rightarrow> bool" where
  "responded code t t' \<longleftrightarrow> same_slot t t' \<and> x_last_status_code t' = ucast code \<and> x_pub_outbound t' = x_outbound t' \<and>
     x_outbound t' = (x_outbound t)\<lparr>ob_target := x_peer t, ob_next_send_at_ms := 0\<rparr> \<and> x_flags t' = x_flags t \<and>
     x_retransmit_count t' = x_retransmit_count t"

lemma responded_more:
  "responded code t (u\<lparr>x_uas := a\<rparr>) = responded code t u" "responded code t (u\<lparr>x_uas_callbacks := b\<rparr>) = responded code t u"
  "responded code t (set_timer k v d u) = responded code t u" "responded code t (stop_timer u) = responded code t u"
  "responded code t (u\<lparr>x_state := st\<rparr>) = responded code t u"
  by (simp_all add: responded_def same_slot_def tm_steps)

lemma responded_base: "responded code t
    ((sync_outbound (t\<lparr>x_outbound := (x_outbound t)\<lparr>ob_target := x_peer t, ob_next_send_at_ms := 0\<rparr>\<rparr>))
       \<lparr>x_last_status_code := ucast code, x_state := st, x_uas := u\<rparr>)"
  by (simp add: responded_def same_slot_def tm_steps)

lemma response_state_responded:
  assumes "uas_response_state rpp t = Some t'"
  shows "responded (st_code (urp_status rpp)) t t'"
proof -
  define c where "c = st_code (urp_status rpp)"
  define u where "u = (sync_outbound (t\<lparr>x_outbound := (x_outbound t)\<lparr>ob_target := x_peer t, ob_next_send_at_ms := 0\<rparr>\<rparr>))
       \<lparr>x_last_status_code := ucast c, x_state := (if c < 200 then USIPY_SIP_TM_STATE_PROCEEDING else USIPY_SIP_TM_STATE_COMPLETED),
        x_uas := (x_uas (sync_outbound (t\<lparr>x_outbound := (x_outbound t)\<lparr>ob_target := x_peer t, ob_next_send_at_ms := 0\<rparr>\<rparr>)))\<lparr>sc_ack_hash := 0\<rparr>\<rparr>"
  have u: "responded c t u" unfolding u_def by (rule responded_base)
  define A P Q where "A = (c < 200)" and "P = (x_method_type u = USIPY_SIP_METHOD_INVITE \<and> c < 300)"
    and "Q = (x_method_type u = USIPY_SIP_METHOD_INVITE \<and> c \<ge> 300)"
  have "responded c t t'"
    using assms unfolding uas_response_state_def Let_def c_def[symmetric] u_def[symmetric]
    unfolding A_def[symmetric] P_def[symmetric] Q_def[symmetric]
    by (cases A; cases P; cases Q; auto simp: bind_eq_Some_conv responded_more u)
  then show ?thesis by (simp only: c_def)
qed

lemma response_state_same:
  assumes "uas_response_state rpp t = Some t'"
  shows "same_slot t t'" "x_last_status_code t' = ucast (st_code (urp_status rpp))" "x_pub_outbound t' = x_outbound t'"
    "x_outbound t' = (x_outbound t)\<lparr>ob_target := x_peer t, ob_next_send_at_ms := 0\<rparr>" "x_flags t' = x_flags t"
    "x_retransmit_count t' = x_retransmit_count t"
  using response_state_responded[OF assms] by (simp_all add: responded_def)

lemma response_state_ok:
  assumes "uas_response_state rpp t = Some t'" "st_code (urp_status rpp) < 65536"
  shows "uas_states t'"
  using response_state_same(1,2)[OF assms(1)] resp_code[OF assms(2)]
  by (cases rule: response_state_cases[OF assms(1)]) (auto simp: uas_states_def Let_def same_slot_def)

text \<open>
  A response to a valid transaction: refused once a final one was given, refused for want of room, or
  taken; there is nothing else.
\<close>

definition open_uas :: "usipy_sip_tm_txi \<Rightarrow> bool" where
  "open_uas t \<longleftrightarrow> x_state t \<noteq> USIPY_SIP_TM_STATE_TERMINATED \<and> x_last_status_code t < 200"

lemma send_response_cases:
  assumes "i < max_transactions tm" "x_active (txn tm i)" "x_role (txn tm i) = USIPY_SIP_TM_ROLE_UAS"
    "slot_ok (txn tm i)" "uas_inv (txn tm i)" "extras_known rpp"
  obtains (final) "\<not> open_uas (txn tm i)"
      "usipy_sip_tm_send_uas_response ev tm i rpp = Some (USIPY_SIP_TM_ERR_UNSUPPORTED, tm)"
  | (refused) h where "open_uas (txn tm i)" "\<not> uas_sendable (ev_server ev) (tm_luri tm) (txn tm i) rpp"
      "usipy_sip_tm_send_uas_response ev tm i rpp =
         Some (USIPY_SIP_TM_ERR_NOSPC, upd i (\<lambda>t. t\<lparr>x_scratch := h\<rparr>) tm)"
      "heap_ok h" "same_frame (x_scratch (txn tm i)) h"
  | (sent) h sl t' where "open_uas (txn tm i)" "uas_sendable (ev_server ev) (tm_luri tm) (txn tm i) rpp"
      "usipy_sip_tm_send_uas_response ev tm i rpp = Some (USIPY_SIP_TM_OK, upd i (\<lambda>_. t') tm)"
      "uas_response_state rpp ((txn tm i)\<lparr>x_scratch := h, x_outbound := (x_outbound (txn tm i))\<lparr>ob_raw := sl\<rparr>\<rparr>) = Some t'"
      "slice_read h sl = uas_text (ev_server ev) (tm_luri tm) (txn tm i) rpp" "snd sl \<noteq> 0"
      "heap_ok h" "same_frame (x_scratch (txn tm i)) h"
proof (cases "open_uas (txn tm i)")
  case False
  then show thesis using assms
    by (intro final) (auto simp: usipy_sip_tm_send_uas_response_def open_uas_def Let_def not_less)
next
  case op: True
  let ?t = "txn tm i"
  have op': "x_state ?t \<noteq> USIPY_SIP_TM_STATE_TERMINATED" "(200 \<le> x_last_status_code ?t) = False"
    using op by (auto simp: open_uas_def not_le)
  have S: "usipy_sip_tm_send_uas_response ev tm i rpp = Option.bind (uas_build_response (ev_server ev) (tm_luri tm) rpp ?t)
      (\<lambda>(r, tp). if r \<noteq> USIPY_SIP_TM_OK then Some (r, upd i (\<lambda>_. tp) tm)
         else Option.bind (uas_response_state rpp tp) (\<lambda>tp. Some (USIPY_SIP_TM_OK, upd i (\<lambda>_. tp) tm)))"
    using assms op' by (simp add: usipy_sip_tm_send_uas_response_def Let_def del: not_le)
  have b: "heap_ok (x_scratch ?t)" "mh_checkpoint_top (x_scratch ?t) = 1" "x_checkpoint ?t = 0"
    using assms by (simp_all add: slot_ok_def uas_inv_def)
  show thesis
    using b assms(6)
  proof (cases rule: uas_build_response_spec[where server = "ev_server ev" and luri = "tm_luri tm"])
    case (built h sl)
    obtain t' where t': "uas_response_state rpp (?t\<lparr>x_scratch := h, x_outbound := (x_outbound ?t)\<lparr>ob_raw := sl\<rparr>\<rparr>) = Some t'"
      using response_state_total[of "?t\<lparr>x_scratch := h, x_outbound := (x_outbound ?t)\<lparr>ob_raw := sl\<rparr>\<rparr>" rpp] assms(5)
      by (auto simp: uas_inv_def)
    have "usipy_sip_tm_send_uas_response ev tm i rpp = Some (USIPY_SIP_TM_OK, upd i (\<lambda>_. t') tm)"
      using S built(2) t' by simp
    then show thesis by (rule sent[OF op built(1) _ t' built(3,7,4,5)])
  next
    case (refused h)
    have "upd i (\<lambda>_. ?t\<lparr>x_scratch := h\<rparr>) tm = upd i (\<lambda>t. t\<lparr>x_scratch := h\<rparr>) tm" by (simp add: upd_def)
    then show thesis using refused(1-4) op S that(2)[of h] by simp
  qed
qed

subsection \<open>Opening\<close>

lemma activate_spec:
  assumes "slot_ok t" "mh_checkpoint_top (x_scratch t) = 0" "tmr_type (x_timer t) = USIPY_SIP_TM_TIMER_NONE"
    "kept (x_branch t)" "kept (x_from_tag t)" "x_method_type t \<noteq> USIPY_SIP_METHOD_ACK"
  obtains t' where "uas_activate transport timers tid t = Some t'" "slot_ok t'" "uas_inv t'" "x_active t'"
    "x_role t' = USIPY_SIP_TM_ROLE_UAS" "x_parent_index t' = x_parent_index t"
    "x_state t' = USIPY_SIP_TM_STATE_TRYING" "x_call_id t' = x_call_id t"
    "x_id t' = \<lparr>id_hash = tid_hash tid, id_branch = x_branch t, id_call_id = x_call_id t,
       id_from_tag = x_from_tag t, id_cseq = cseq_val (tid_cseq tid), id_method_type = x_method_type t\<rparr>"
    "x_method_type t' = x_method_type t"
proof -
  have ok: "heap_ok (x_scratch t)" "mh_ncheckpoints (x_scratch t) = 2" using assms(1) by (simp_all add: slot_ok_def)
  let ?h = "(x_scratch t)\<lparr>mh_checkpoints := (mh_checkpoints (x_scratch t))[0 := mh_alen (x_scratch t)],
                   mh_checkpoint_top := 1\<rparr>"
  have cp: "usipy_msg_heap_checkpoint (x_scratch t) = Some (0, ?h)"
    using ok assms(2) by (simp add: usipy_msg_heap_checkpoint_def Let_def)
  have h: "heap_ok ?h" using checkpoint_Some(1)[OF ok(1) cp] .
  show thesis
  proof (rule that)
    show "uas_activate transport timers tid t = Some (the (uas_activate transport timers tid t))"
      by (simp add: uas_activate_def cp Let_def)
  qed (use assms h in \<open>simp_all add: uas_activate_def cp Let_def slot_ok_def uas_inv_def uas_states_def\<close>)
qed

subsection \<open>The manager\<close>

definition tm_inv :: "'a usipy_sip_tm \<Rightarrow> bool" where
  "tm_inv tm \<longleftrightarrow> slots_ok tm \<and>
     (\<forall>i<max_transactions tm. x_active (txn tm i) \<and>
        x_role (txn tm i) = USIPY_SIP_TM_ROLE_UAS \<longrightarrow> uas_inv (txn tm i)) \<and>
     (\<forall>i<max_transactions tm. x_active (txn tm i) \<and>
        x_role (txn tm i) = USIPY_SIP_TM_ROLE_UAC \<longrightarrow> uac_inv (txn tm i))"

text \<open>What an operation keeps: the invariant, the number of slots, and the count of active ones.\<close>

definition sound :: "'a usipy_sip_tm \<Rightarrow> 'a usipy_sip_tm \<Rightarrow> bool" where
  "sound tm tm' \<longleftrightarrow> (tm_inv tm \<longrightarrow> tm_inv tm' \<and> max_transactions tm' = max_transactions tm \<and>
     (\<forall>c. counted c tm \<longrightarrow> counted c tm'))"

lemma sound_refl [simp]: "sound tm tm"
  by (simp add: sound_def)

lemma sound_trans [trans]: "sound a b \<Longrightarrow> sound b c \<Longrightarrow> sound a c"
  by (auto simp: sound_def)

lemma upd_beyond: "\<not> i < max_transactions tm \<Longrightarrow> upd i f tm = tm"
  by (simp add: upd_def list_update_beyond)

lemma tm_inv_slot: "tm_inv tm \<Longrightarrow> i < max_transactions tm \<Longrightarrow>
    slot_ok (txn tm i) \<and> x_parent_index (txn tm i) \<noteq> Some i \<and>
    (x_active (txn tm i) \<longrightarrow> x_role (txn tm i) = USIPY_SIP_TM_ROLE_UAS \<longrightarrow> uas_inv (txn tm i)) \<and>
    (x_active (txn tm i) \<longrightarrow> x_role (txn tm i) = USIPY_SIP_TM_ROLE_UAC \<longrightarrow> uac_inv (txn tm i))"
  by (simp add: tm_inv_def slots_ok_def)

text \<open>A slot replaced.\<close>

lemma tm_inv_upd:
  assumes "tm_inv tm" "slot_ok (f (txn tm i))" "x_parent_index (f (txn tm i)) \<noteq> Some i"
    "x_active (f (txn tm i)) \<Longrightarrow> x_role (f (txn tm i)) = USIPY_SIP_TM_ROLE_UAS \<Longrightarrow> uas_inv (f (txn tm i))"
    "x_active (f (txn tm i)) \<Longrightarrow> x_role (f (txn tm i)) = USIPY_SIP_TM_ROLE_UAC \<Longrightarrow> uac_inv (f (txn tm i))"
  shows "tm_inv (upd i f tm)"
proof (cases "i < max_transactions tm")
  case True
  then show ?thesis using assms by (auto simp: tm_inv_def slots_ok_def)
qed (use assms in \<open>simp add: upd_beyond\<close>)

lemma sound_upd:
  assumes "tm_inv tm \<Longrightarrow> i < max_transactions tm \<Longrightarrow> slot_step (txn tm i) (f (txn tm i))"
  shows "sound tm (upd i f tm)"
proof (cases "i < max_transactions tm")
  case True
  show ?thesis unfolding sound_def
  proof
    assume inv: "tm_inv tm"
    note s = assms[OF inv True] and t = tm_inv_slot[OF inv True]
    have "tm_inv (upd i f tm)"
      using s t by (intro tm_inv_upd[OF inv]) (auto simp: slot_step_def)
    moreover have "counted c tm \<Longrightarrow> counted c (upd i f tm)" for c
      using s True by (intro counted_same) (simp_all add: slot_step_def)
    ultimately show "tm_inv (upd i f tm) \<and> max_transactions (upd i f tm) = max_transactions tm \<and>
        (\<forall>c. counted c tm \<longrightarrow> counted c (upd i f tm))" by simp
  qed
qed (simp add: upd_beyond)

lemma counted_app [simp]: "counted c (tm\<lparr>tm_app := a\<rparr>) = counted c tm"
  by (simp add: counted_def active_count_def)

lemma sound_app: "sound tm (tm\<lparr>tm_app := a\<rparr>)"
  by (simp add: sound_def tm_inv_def slots_ok_def)

lemma child_step: "slot_step t (t\<lparr>x_child_index := c\<rparr>)"
  by (simp add: slot_step_defs split: usipy_sip_tm_state.split)

lemma tm_inv_others:
  assumes "tm_inv tm" "slots_ok tm'" "max_transactions tm' = max_transactions tm"
    "\<And>j. j < max_transactions tm \<Longrightarrow> x_active (txn tm' j) \<Longrightarrow> \<exists>c. txn tm' j = (txn tm j)\<lparr>x_child_index := c\<rparr>"
  shows "tm_inv tm'"
  unfolding tm_inv_def
proof (intro conjI allI impI)
  fix j assume j: "j < max_transactions tm'" "x_active (txn tm' j) \<and> x_role (txn tm' j) = USIPY_SIP_TM_ROLE_UAS"
  then obtain c where c: "txn tm' j = (txn tm j)\<lparr>x_child_index := c\<rparr>" using assms(3,4) by auto
  then have "uas_inv (txn tm j)" using j assms(3) tm_inv_slot[OF assms(1), of j] by simp
  then show "uas_inv (txn tm' j)" unfolding c using child_step by (simp add: slot_step_def)
next
  fix j assume j: "j < max_transactions tm'" "x_active (txn tm' j) \<and> x_role (txn tm' j) = USIPY_SIP_TM_ROLE_UAC"
  then obtain c where c: "txn tm' j = (txn tm j)\<lparr>x_child_index := c\<rparr>" using assms(3,4) by auto
  then have "uac_inv (txn tm j)" "x_role (txn tm j) = USIPY_SIP_TM_ROLE_UAC"
    using j assms(3) tm_inv_slot[OF assms(1), of j] by simp_all
  then show "uac_inv (txn tm' j)" unfolding c using child_step by (simp add: slot_step_def)
qed (rule assms(2))

lemma drop_sound: "sound tm (snd (usipy_sip_tm_drop_transaction tm i))"
  unfolding sound_def
proof
  assume inv: "tm_inv tm"
  then have ok: "slots_ok tm" by (simp add: tm_inv_def)
  obtain r tm' where d: "usipy_sip_tm_drop_transaction tm i = (r, tm')" by force
  note D = drop_ok[OF ok d]
  have "tm_inv tm'" using D by (intro tm_inv_others[OF inv])
  then show "tm_inv (snd (usipy_sip_tm_drop_transaction tm i)) \<and>
      max_transactions (snd (usipy_sip_tm_drop_transaction tm i)) = max_transactions tm \<and>
      (\<forall>c. counted c tm \<longrightarrow> counted c (snd (usipy_sip_tm_drop_transaction tm i)))"
    using D by (simp add: d)
qed

lemma alloc_sound:
  assumes "usipy_sip_tm_alloc_slot tm = (r, tm')"
  shows "sound tm tm'"
proof (cases r)
  case None
  then show ?thesis using assms by (cases rule: alloc_slot_spec[of tm]) auto
next
  case (Some i)
  show ?thesis unfolding sound_def
  proof
    assume inv: "tm_inv tm"
    then have ok: "slots_ok tm" by (simp add: tm_inv_def)
    note A = alloc_ok[OF ok assms[unfolded Some]]
    have "tm_inv tm'" using A(1,3,7) by (intro tm_inv_others[OF inv]) blast+
    then show "tm_inv tm' \<and> max_transactions tm' = max_transactions tm \<and> (\<forall>c. counted c tm \<longrightarrow> counted c tm')"
      using A by simp
  qed
qed

lemma reset_fields [simp]:
  "x_timer (usipy_sip_tm_tx_reset t) = \<lparr>tmr_type = USIPY_SIP_TM_TIMER_NONE, tmr_value_ms = 0, tmr_due_at_ms = 0\<rparr>"
  "x_retransmit_count (usipy_sip_tm_tx_reset t) = 0"
  by (simp_all add: usipy_sip_tm_tx_reset_def slot_zero_def Let_def)

text \<open>
  What \<open>usipy_sip_tm_new_uas_tr\<close> does with a slot: it fills it, and activates it or gives it back.
\<close>

lemma new_uas_tr_cases:
  assumes "usipy_sip_tm_new_uas_tr ev tm tpp = Some (r, idx, req, tm')"
  obtains (none) "idx = None" "r \<noteq> USIPY_SIP_TM_OK" "tm' = tm"
  | (full) tid tm1 where "idx = None" "r \<noteq> USIPY_SIP_TM_OK" "tm' = tm1" "usipy_sip_tm_alloc_slot tm = (None, tm1)"
      "usipy_sip_tm_find_uas_transaction tm tid = None"
  | (failed) tid m req0 i tm1 q tp where "idx = None" "r \<noteq> USIPY_SIP_TM_OK" "usipy_sip_tm_alloc_slot tm = (Some i, tm1)"
      "uas_fill ev tm1 tpp tid req0 (m) i ((txn tm1 i)\<lparr>x_uas_callbacks := (case nus_callbacks tpp of
                           None \<Rightarrow> uas_callbacks_zero | Some cb \<Rightarrow> cb), x_method_type := m\<rparr>) = Some (q, req, tp)"
      "tm' = upd i (\<lambda>_. usipy_sip_tm_tx_fini tp) tm1"
  | (opened) tid req0 i tm1 tp tp' and rl :: usipy_sip_request_line where "idx = Some i" "r = USIPY_SIP_TM_OK" "usipy_sip_tm_alloc_slot tm = (Some i, tm1)"
      "sln_parsed (m_sline (nus_request tpp)) = SL_request rl"
      "rl_method rl \<noteq> USIPY_SIP_METHOD_generic" "rl_method rl \<noteq> USIPY_SIP_METHOD_ACK"
      "usipy_sip_msg_get_tid (ev_stk ev) (nus_request tpp) (ev_tid0 ev) = Some (Some tid, req0)"
      "usipy_sip_tm_find_uas_transaction tm tid = None"
      "uas_fill ev tm1 tpp tid req0 (rl_method rl) i ((txn tm1 i)\<lparr>x_uas_callbacks := (case nus_callbacks tpp of
                           None \<Rightarrow> uas_callbacks_zero | Some cb \<Rightarrow> cb), x_method_type := rl_method rl\<rparr>) = Some (USIPY_SIP_TM_OK, req, tp)"
      "uas_activate (tm_transport tm1) (nus_timers tpp) tid tp = Some tp'"
      "tm' = (upd i (\<lambda>_. tp') tm1)\<lparr>tm_nactive := tm_nactive tm1 + 1\<rparr>"
proof -
  obtain rl where rl: "sln_parsed (m_sline (nus_request tpp)) = SL_request rl"
    using assms by (auto simp: usipy_sip_tm_new_uas_tr_def Let_def split: usipy_sip_sline_parsed.splits)
  show thesis
  proof (cases "rl_method rl = USIPY_SIP_METHOD_generic \<or> rl_method rl = USIPY_SIP_METHOD_ACK")
    case True
    then show thesis using assms rl by (intro none) (auto simp: usipy_sip_tm_new_uas_tr_def Let_def)
  next
    case m: False
    obtain tido req0 where g: "usipy_sip_msg_get_tid (ev_stk ev) (nus_request tpp) (ev_tid0 ev) = Some (tido, req0)"
      using assms rl m by (auto simp: usipy_sip_tm_new_uas_tr_def Let_def bind_eq_Some_conv)
    show thesis
    proof (cases tido)
      case None
      then show thesis using assms rl m g by (intro none) (auto simp: usipy_sip_tm_new_uas_tr_def Let_def)
    next
      case tid: (Some tid)
      show thesis
      proof (cases "usipy_sip_tm_find_uas_transaction tm tid")
        case (Some k)
        then show thesis using assms rl m g tid by (intro none) (auto simp: usipy_sip_tm_new_uas_tr_def Let_def)
      next
        case nf: None
        obtain s tm1 where a: "usipy_sip_tm_alloc_slot tm = (s, tm1)" by force
        show thesis
        proof (cases s)
          case None
          then show thesis using assms rl m g tid nf a by (intro full) (auto simp: usipy_sip_tm_new_uas_tr_def Let_def)
        next
          case (Some i)
          let ?t0 = "(txn tm1 i)\<lparr>x_uas_callbacks := (case nus_callbacks tpp of
                           None \<Rightarrow> uas_callbacks_zero | Some cb \<Rightarrow> cb), x_method_type := rl_method rl\<rparr>"
          have R: "Option.bind (uas_fill ev tm1 tpp tid req0 (rl_method rl) i ?t0) (\<lambda>(r, req, tp).
              if r \<noteq> USIPY_SIP_TM_OK then Some (USIPY_SIP_TM_ERR_NOSPC, None, req, upd i (\<lambda>_. usipy_sip_tm_tx_fini tp) tm1)
              else Option.bind (uas_activate (tm_transport tm1) (nus_timers tpp) tid tp) (\<lambda>tp.
                Some (USIPY_SIP_TM_OK, Some i, req, (upd i (\<lambda>_. tp) tm1)\<lparr>tm_nactive := tm_nactive tm1 + 1\<rparr>))) =
              Some (r, idx, req, tm')"
            using assms rl m g tid nf a Some
            by (auto simp: usipy_sip_tm_new_uas_tr_def Let_def dassert_def simp del: upd_nactive split: if_splits)
          then obtain q req1 tp where f: "uas_fill ev tm1 tpp tid req0 (rl_method rl) i ?t0 = Some (q, req1, tp)"
            by (auto simp: bind_eq_Some_conv)
          show thesis
          proof (cases "q = USIPY_SIP_TM_OK")
            case True
            then obtain tp' where "uas_activate (tm_transport tm1) (nus_timers tpp) tid tp = Some tp'"
              "r = USIPY_SIP_TM_OK" "idx = Some i" "req = req1" "tm' = (upd i (\<lambda>_. tp') tm1)\<lparr>tm_nactive := tm_nactive tm1 + 1\<rparr>"
              using R f by (auto simp: bind_eq_Some_conv simp del: upd_nactive)
            note o = this
            show thesis
              by (rule opened[where rl = rl])
                (use o rl m g tid nf a Some f True in \<open>simp_all del: upd_nactive\<close>)
          next
            case False
            then have "idx = None" "r \<noteq> USIPY_SIP_TM_OK" "req = req1" "tm' = upd i (\<lambda>_. usipy_sip_tm_tx_fini tp) tm1"
              using R f by auto
            then show thesis using failed[of i tm1 tid req0 "rl_method rl" q tp] a Some f by blast
          qed
        qed
      qed
    qed
  qed
qed

lemma reset_top: "slot_ok t \<Longrightarrow> mh_checkpoint_top (x_scratch (usipy_sip_tm_tx_reset t)) = 0"
  by (simp add: reset_ok(2))

lemma filled_slot:
  assumes "tm_inv tm" "usipy_sip_tm_alloc_slot tm = (Some i, tm1)" "policy_ok ev"
    "uas_fill ev tm1 tpp tid req m i ((txn tm1 i)\<lparr>x_uas_callbacks := cb, x_method_type := m\<rparr>) = Some (q, req', tp)"
  shows "slot_ok tp" "mh_checkpoint_top (x_scratch tp) = 0" "tmr_type (x_timer tp) = USIPY_SIP_TM_TIMER_NONE"
    "x_parent_index tp = None" "\<not> x_active (txn tm1 i)" "x_method_type tp = m" "x_retransmit_count tp = 0"
    "q = USIPY_SIP_TM_OK \<Longrightarrow> x_call_id tp = tid_call_id tid \<and> x_branch tp = Kept (tid_vbranch tid) \<and>
       x_from_tag tp = Kept (tid_from_tag tid)"
proof -
  let ?t0 = "(txn tm1 i)\<lparr>x_uas_callbacks := cb, x_method_type := m\<rparr>"
  have ok: "slots_ok tm" using assms(1) by (simp add: tm_inv_def)
  obtain t where t: "slot_ok t" "txn tm1 i = usipy_sip_tm_tx_reset t" using alloc_ok(6)[OF ok assms(2)] by blast
  have t0: "slot_ok ?t0" "mh_checkpoint_top (x_scratch ?t0) = 0"
    using reset_ok(1)[OF t(1)] reset_top[OF t(1)] by (simp_all add: t(2) slot_ok_def)
  note F = uas_fill_spec[OF assms(4,3)]
  have k: "keeps (x_scratch ?t0) (x_scratch tp)" "fill_frame tp = fill_frame ?t0" using F(1) by (simp_all add: fill_rel_def)
  then have h: "heap_ok (x_scratch tp)" "same_frame (x_scratch ?t0) (x_scratch tp)"
    using t0(1) by (simp_all add: keeps_def slot_ok_def)
  have f: "x_scratch_buf tp = x_scratch_buf ?t0" "x_scratch_capacity tp = x_scratch_capacity ?t0"
    using k(2) by (simp_all add: fill_frame_def)
  show "slot_ok tp" "mh_checkpoint_top (x_scratch tp) = 0" using slot_ok_frame[OF t0(1) h f] t0(2) by simp_all
  show "tmr_type (x_timer tp) = USIPY_SIP_TM_TIMER_NONE" "x_parent_index tp = None" "\<not> x_active (txn tm1 i)"
    "x_method_type tp = m" "x_retransmit_count tp = 0"
    using k(2) by (simp_all add: fill_frame_def t(2))
  have "heap_ok (x_scratch ?t0)" using t0(1) by (simp add: slot_ok_def)
  then show "q = USIPY_SIP_TM_OK \<Longrightarrow> x_call_id tp = tid_call_id tid \<and> x_branch tp = Kept (tid_vbranch tid) \<and>
       x_from_tag tp = Kept (tid_from_tag tid)" using F(2) by blast
qed

lemma counted_on:
  assumes "counted c tm" "i < max_transactions tm" "\<not> x_active (txn tm i)" "x_active (f (txn tm i))"
  shows "counted c ((upd i f tm)\<lparr>tm_nactive := tm_nactive tm + 1\<rparr>)"
  using assms by (simp add: counted_def active_count_upd del: upd_nactive)

lemma tm_inv_nactive [simp]: "tm_inv (tm\<lparr>tm_nactive := n\<rparr>) = tm_inv tm"
  by (simp add: tm_inv_def slots_ok_def)

text \<open>The transaction that was opened.\<close>

definition opened_slot :: "usipy_sip_tid \<Rightarrow> nat \<Rightarrow> usipy_sip_tm_txi \<Rightarrow> bool" where
  "opened_slot tid m t \<longleftrightarrow> x_active t \<and> x_role t = USIPY_SIP_TM_ROLE_UAS \<and> x_state t = USIPY_SIP_TM_STATE_TRYING \<and>
     slot_ok t \<and> uas_inv t \<and> x_method_type t = m \<and>
     x_id t = \<lparr>id_hash = tid_hash tid, id_branch = Kept (tid_vbranch tid), id_call_id = tid_call_id tid,
       id_from_tag = Kept (tid_from_tag tid), id_cseq = cseq_val (tid_cseq tid), id_method_type = m\<rparr>"

lemma new_uas_tr_opened:
  assumes "tm_inv tm" "policy_ok ev" "usipy_sip_tm_new_uas_tr ev tm tpp = Some (USIPY_SIP_TM_OK, idx, req, tm')"
  obtains i tid req0 and rl :: usipy_sip_request_line where "idx = Some i" "i < max_transactions tm"
    "usipy_sip_msg_get_tid (ev_stk ev) (nus_request tpp) (ev_tid0 ev) = Some (Some tid, req0)"
    "sln_parsed (m_sline (nus_request tpp)) = SL_request rl"
    "usipy_sip_tm_find_uas_transaction tm tid = None" "opened_slot tid (rl_method rl) (txn tm' i)"
    "rl_method rl \<noteq> USIPY_SIP_METHOD_generic" "rl_method rl \<noteq> USIPY_SIP_METHOD_ACK" "sound tm tm'"
    "\<And>j. j < max_transactions tm \<Longrightarrow> j \<noteq> i \<Longrightarrow> x_active (txn tm' j) \<Longrightarrow> \<exists>c. txn tm' j = (txn tm j)\<lparr>x_child_index := c\<rparr>"
  using assms(3)
proof (cases rule: new_uas_tr_cases)
  case (opened tid req0 i tm1 tp tp' rl)
  have ok: "slots_ok tm" using assms(1) by (simp add: tm_inv_def)
  note A = alloc_ok[OF ok opened(3)]
  note F = filled_slot[OF assms(1) opened(3) assms(2) opened(9)]
  note V = F(8)[OF refl]
  have kp: "kept (x_branch tp)" "kept (x_from_tag tp)" "x_method_type tp \<noteq> USIPY_SIP_METHOD_ACK"
    using V F(6) opened(6) by simp_all
  obtain u where u: "uas_activate (tm_transport tm1) (nus_timers tpp) tid tp = Some u" "slot_ok u" "uas_inv u" "x_active u"
    "x_role u = USIPY_SIP_TM_ROLE_UAS" "x_parent_index u = x_parent_index tp" "x_state u = USIPY_SIP_TM_STATE_TRYING"
    "x_id u = \<lparr>id_hash = tid_hash tid, id_branch = x_branch tp, id_call_id = x_call_id tp,
       id_from_tag = x_from_tag tp, id_cseq = cseq_val (tid_cseq tid), id_method_type = x_method_type tp\<rparr>"
    "x_method_type u = x_method_type tp"
    using activate_spec[OF F(1-3) kp] by metis
  have tp': "tp' = u" using u(1) opened(10) by simp
  have i: "i < max_transactions tm1" using A(2,3) by simp
  have inv1: "tm_inv tm1" using alloc_sound[OF opened(3)] assms(1) by (simp add: sound_def)
  have inv: "tm_inv tm'"
    unfolding opened(11) tm_inv_nactive using u F(4) by (intro tm_inv_upd[OF inv1]) (simp_all add: tp')
  have cnt: "counted c tm'" if "counted c tm" for c
    unfolding opened(11) using A(4)[OF that] i F(5) u(4) tp' by (intro counted_on) simp_all
  have s: "sound tm tm'" using inv cnt A(3) by (simp add: sound_def opened(11))
  show thesis
  proof (rule that[OF opened(1) A(2) opened(7,4,8) _ opened(5,6) s])
    show "opened_slot tid (rl_method rl) (txn tm' i)"
      using i u V F(6) by (simp add: opened_slot_def opened(11) tp')
    show "\<exists>c. txn tm' j = (txn tm j)\<lparr>x_child_index := c\<rparr>" if "j < max_transactions tm" "j \<noteq> i" "x_active (txn tm' j)" for j
      using A(7)[of j] that i by (simp add: opened(11))
  qed
qed blast+

lemma new_uas_tr_sound:
  assumes "policy_ok ev" "usipy_sip_tm_new_uas_tr ev tm tpp = Some (r, idx, req, tm')"
  shows "sound tm tm'"
proof (cases "tm_inv tm")
  case inv: True
  show ?thesis using assms(2)
  proof (cases rule: new_uas_tr_cases)
    case none
    then show ?thesis by simp
  next
    case (full tid tm1)
    then show ?thesis using alloc_sound by blast
  next
    case (failed tid m req0 i tm1 q tp)
    have ok: "slots_ok tm" using inv by (simp add: tm_inv_def)
    note A = alloc_ok[OF ok failed(3)]
    note F = filled_slot[OF inv failed(3) assms(1) failed(4)]
    have inv1: "tm_inv tm1" using alloc_sound[OF failed(3)] inv by (simp add: sound_def)
    have "tm_inv tm'" unfolding failed(5) using fini_ok[OF F(1)] by (intro tm_inv_upd[OF inv1]) simp_all
    moreover have "counted c tm'" if "counted c tm" for c
      unfolding failed(5) using A(2,3) A(4)[OF that] F(5) by (intro counted_same) simp_all
    ultimately show ?thesis using A(3) by (simp add: sound_def failed(5))
  next
    case (opened tid req0 i tm1 tp tp' rl)
    then have "usipy_sip_tm_new_uas_tr ev tm tpp = Some (USIPY_SIP_TM_OK, idx, req, tm')" using assms(2) by simp
    from new_uas_tr_opened[OF inv assms(1) this] show ?thesis by metis
  qed
qed (simp add: sound_def)

end
