(* ===== verification/Usipy_Tmrun.thy ===== *)
theory Usipy_Tmrun
  imports Usipy_Tminv
begin

unbundle bit_operations_syntax

text \<open>
  The manager as a system: what the application may call, and what the pump and the network make happen.
  The callbacks are the application's: all that is asked of them is that they change the manager only
  through its interface.
\<close>

subsection \<open>What the application may call\<close>

definition response_ok :: "usipy_sip_tm_uas_response_params \<Rightarrow> bool" where
  "response_ok rpp \<longleftrightarrow> extras_known rpp \<and> st_code (urp_status rpp) < 65536"

inductive uas_call :: "'a tm_env \<Rightarrow> 'a usipy_sip_tm \<Rightarrow> 'a usipy_sip_tm \<Rightarrow> bool" for ev where
  open_uas_tr: "usipy_sip_tm_new_uas_tr ev tm tpp = Some (r, idx, req, tm') \<Longrightarrow> uas_call ev tm tm'"
| respond: "usipy_sip_tm_send_uas_response ev tm i rpp = Some (r, tm') \<Longrightarrow> response_ok rpp \<Longrightarrow> uas_call ev tm tm'"
| drop_tr: "usipy_sip_tm_drop_transaction tm i = (r, tm') \<Longrightarrow> uas_call ev tm tm'"
| set_policy: "usipy_sip_tm_set_timer_policy tm i p = (r, tm') \<Longrightarrow> uas_call ev tm tm'"
| take_over: "usipy_sip_tm_uas_set_owner tm i arg = (r, tm') \<Longrightarrow> uas_call ev tm tm'"
| let_go: "usipy_sip_tm_uas_clear_owner tm i arg = (r, tm') \<Longrightarrow> uas_call ev tm tm'"
| send_again: "usipy_sip_tm_uas_send_at tm i arg at = (r, tm') \<Longrightarrow> uas_call ev tm tm'"
| own_state: "uas_call ev tm (tm\<lparr>tm_app := a\<rparr>)"

inductive_cases uas_callE: "uas_call ev tm tm'"

text \<open>Composite calls are sequences of these.\<close>

lemma send_simple_calls:
  assumes "usipy_sip_tm_send_simple_response ev tm hin msg st = Some (r, tm')" "st_code st < 65536"
  shows "(uas_call ev)\<^sup>*\<^sup>* tm tm'"
proof -
  have ok: "response_ok (response_of_status st)"
    using assms(2) by (simp add: response_ok_def response_of_status_def extras_known_def opt_text_def)
  obtain r1 idx req tm1 where o: "usipy_sip_tm_new_uas_tr ev tm \<lparr>nus_request = msg, nus_timers = hin_timers hin,
      nus_peer = hin_peer hin, nus_local = hin_local hin, nus_callbacks = None\<rparr> = Some (r1, idx, req, tm1)"
    "(case idx of Some i \<Rightarrow> if r1 \<noteq> USIPY_SIP_TM_OK then Some (r1, tm1)
         else usipy_sip_tm_send_uas_response ev tm1 i (response_of_status st)
       | None \<Rightarrow> Some (r1, tm1)) = Some (r, tm')"
    using assms(1) unfolding usipy_sip_tm_send_simple_response_def bind_eq_Some_conv by auto
  have "uas_call ev tm tm1" using o(1) by (rule open_uas_tr)
  moreover have "tm' = tm1 \<or> uas_call ev tm1 tm'"
    using o(2) ok by (cases idx; cases "r1 = USIPY_SIP_TM_OK") (auto intro: respond)
  ultimately show ?thesis by (metis converse_rtranclp_into_rtranclp r_into_rtranclp)
qed

lemma cancelled_calls:
  assumes "usipy_sip_tm_uas_tr_cancelled ev tm msg i rpp = Some (r, tm')" "case rpp of None \<Rightarrow> True | Some p \<Rightarrow> response_ok p"
  shows "(uas_call ev)\<^sup>*\<^sup>* tm tm'"
proof -
  have d: "response_ok (response_of_status usipy_sip_res_ok)" "response_ok (response_of_status usipy_sip_res_req_term)"
    by (simp_all add: response_ok_def response_of_status_def extras_known_def opt_text_def usipy_sip_res_ok_def
        usipy_sip_res_req_term_def)
  then have p: "response_ok (case rpp of None \<Rightarrow> response_of_status usipy_sip_res_req_term | Some rpp \<Rightarrow> rpp)"
    using assms(2) by (cases rpp) simp_all
  obtain r1 tm1 where c: "usipy_sip_tm_uas_cancel_ok ev tm msg i = Some (r1, tm1)"
    "tm' = tm1 \<or> usipy_sip_tm_send_uas_response ev tm1 i
       (case rpp of None \<Rightarrow> response_of_status usipy_sip_res_req_term | Some rpp \<Rightarrow> rpp) = Some (r, tm')"
    using assms(1) by (auto simp: usipy_sip_tm_uas_tr_cancelled_def bind_eq_Some_conv split: if_splits)
  have "tm1 = tm \<or> (\<exists>tpp r2 idx req tm2. usipy_sip_tm_new_uas_tr ev tm tpp = Some (r2, idx, req, tm2) \<and>
      (tm1 = tm2 \<or> (\<exists>j r3. usipy_sip_tm_send_uas_response ev tm2 j (response_of_status usipy_sip_res_ok) = Some (r3, tm1))))"
    using c(1) unfolding usipy_sip_tm_uas_cancel_ok_def
    by (auto simp: bind_eq_Some_conv Let_def split: option.splits if_splits usipy_sip_sline_parsed.splits) blast+
  then have "(uas_call ev)\<^sup>*\<^sup>* tm tm1"
    using d(1) open_uas_tr respond by (metis (no_types) rtranclp.simps)
  moreover have "tm' = tm1 \<or> uas_call ev tm1 tm'" using c(2) p respond by blast
  ultimately show ?thesis by (metis rtranclp.rtrancl_into_rtrancl)
qed

lemma sound_step: "(\<And>t. slot_step t (f t)) \<Longrightarrow> sound tm (upd i f tm)"
  by (rule sound_upd)

lemma uas_states_scratch: "uas_states (t\<lparr>x_scratch := h\<rparr>) = uas_states t"
  by (simp add: uas_states_def Let_def split: usipy_sip_tm_state.split)

lemma send_response_sound:
  assumes "usipy_sip_tm_send_uas_response ev tm i rpp = Some (r, tm')" "response_ok rpp"
  shows "sound tm tm'"
proof (cases "tm_inv tm \<and> x_active (txn tm i)")
  case True
  have i: "i < max_transactions tm" "x_role (txn tm i) = USIPY_SIP_TM_ROLE_UAS"
    using assms(1) True by (auto simp: usipy_sip_tm_send_uas_response_def Let_def bind_eq_Some_conv split: if_splits)
  have t: "slot_ok (txn tm i)" "uas_inv (txn tm i)" using tm_inv_slot[of tm i] True i by auto
  have ok: "extras_known rpp" "st_code (urp_status rpp) < 65536" using assms(2) by (simp_all add: response_ok_def)
  show ?thesis
    using i(1) conjunct2[OF True] i(2) t ok(1)
  proof (cases rule: send_response_cases[where ev = ev])
    case final
    then show ?thesis using assms(1) by simp
  next
    case (refused h)
    have "slot_step (txn tm i) ((txn tm i)\<lparr>x_scratch := h\<rparr>)"
      using slot_ok_frame[OF t(1), of "(txn tm i)\<lparr>x_scratch := h\<rparr>"] refused(4,5) t(2) i(2)
      by (simp add: slot_step_def uas_inv_def uas_states_scratch)
    then show ?thesis using refused(3) assms(1) by (simp add: sound_upd)
  next
    case (sent h sl t')
    let ?u = "(txn tm i)\<lparr>x_scratch := h, x_outbound := (x_outbound (txn tm i))\<lparr>ob_raw := sl\<rparr>\<rparr>"
    note S = response_state_same[OF sent(4)]
    have u: "slot_ok ?u" "mh_checkpoint_top h = 1"
      using slot_ok_frame[OF t(1), of ?u] sent(7,8) t(2) by (simp_all add: uas_inv_def)
    have "slot_ok t'" using u(1) S(1) by (simp add: slot_ok_def same_slot_def)
    moreover have "uas_inv t'"
      using response_state_ok[OF sent(4) ok(2)] S u(2) t(2) by (simp add: uas_inv_def same_slot_def)
    ultimately have "slot_step (txn tm i) t'" using S(1) i(2) by (simp add: slot_step_def same_slot_def)
    then show ?thesis using sent(3) assms(1) by (simp add: sound_upd)
  qed
next
  case False
  then show ?thesis
    using assms(1) by (auto simp: usipy_sip_tm_send_uas_response_def Let_def sound_def split: if_splits)
qed

lemma uas_call_sound:
  assumes "policy_ok ev" "uas_call ev tm tm'"
  shows "sound tm tm'"
  using assms(2)
proof cases
  case (open_uas_tr tpp r idx req)
  then show ?thesis using new_uas_tr_sound[OF assms(1)] by blast
next
  case (respond i rpp r)
  then show ?thesis using send_response_sound by blast
next
  case (drop_tr i r)
  then show ?thesis using drop_sound[of tm i] by simp
next
  case (set_policy i p r)
  then show ?thesis by (auto intro!: sound_step timers_step simp: usipy_sip_tm_set_timer_policy_def split: if_splits)
next
  case (take_over i arg r)
  then show ?thesis by (auto intro!: sound_step owner_step simp: usipy_sip_tm_uas_set_owner_def split: option.splits)
next
  case (let_go i arg r)
  then show ?thesis by (auto intro!: sound_step owner_step simp: usipy_sip_tm_uas_clear_owner_def split: option.splits)
next
  case (send_again i arg at r)
  then show ?thesis by (auto intro!: sound_step send_at_step simp: usipy_sip_tm_uas_send_at_def split: option.splits)
next
  case (own_state a)
  then show ?thesis using sound_app[of tm a] by simp
qed

lemma calls_sound: "(uas_call ev)\<^sup>*\<^sup>* tm tm' \<Longrightarrow> policy_ok ev \<Longrightarrow> sound tm tm'"
  by (induction rule: rtranclp_induct) (auto intro: sound_trans uas_call_sound)

subsection \<open>What the pump and the network make happen\<close>

text \<open>A valid transaction that sends a final response which is no error to an INVITE.\<close>

lemma final_state:
  assumes "uas_states t" "x_last_status_code t \<ge> 200" "\<not> usipy_sip_tm_uas_is_invite_non2xx_final t"
    "x_state t \<noteq> USIPY_SIP_TM_STATE_ACCEPTED" "x_state t \<noteq> USIPY_SIP_TM_STATE_TERMINATED"
  shows "x_state t = USIPY_SIP_TM_STATE_COMPLETED" "x_method_type t \<noteq> USIPY_SIP_METHOD_INVITE"
proof -
  define c where "c = x_last_status_code t"
  have "c \<noteq> 0" "\<not> c < 200" using assms(2) by (auto simp: c_def)
  then show "x_state t = USIPY_SIP_TM_STATE_COMPLETED" "x_method_type t \<noteq> USIPY_SIP_METHOD_INVITE"
    using assms(1,3-5) unfolding uas_states_def Let_def usipy_sip_tm_uas_is_invite_non2xx_final_def c_def[symmetric]
    by (cases "x_state t"; simp split: if_splits)+
qed

text \<open>What \<open>uas_send\<close> does before and after the datagram went out.\<close>

definition uas_started :: "nat \<Rightarrow> time_ms \<Rightarrow> 'a usipy_sip_tm \<Rightarrow> 'a usipy_sip_tm" where
  "uas_started i now tm = upd i (uas_start_timer_l now) tm"

definition uas_out :: "'a tm_env \<Rightarrow> nat \<Rightarrow> time_ms \<Rightarrow> 'a usipy_sip_tm \<Rightarrow> int \<times> 'a" where
  "uas_out ev i now tm = (let t = txn (uas_started i now tm) i in
     ev_send_to ev i (ob_target (x_outbound t)) (slice_read (x_scratch t) (ob_raw (x_outbound t))) (tm_app tm))"

definition uas_sent :: "'a tm_env \<Rightarrow> nat \<Rightarrow> time_ms \<Rightarrow> 'a usipy_sip_tm \<Rightarrow> 'a usipy_sip_tm" where
  "uas_sent ev i now tm = upd i (uas_note_sent now) ((uas_started i now tm)\<lparr>tm_app := snd (uas_out ev i now tm)\<rparr>)"

lemma uas_sent_sel:
  assumes "i < max_transactions tm"
  shows "max_transactions (uas_sent ev i now tm) = max_transactions tm"
    "txn (uas_sent ev i now tm) j = (if i = j then uas_note_sent now (uas_start_timer_l now (txn tm i)) else txn tm j)"
    "x_state (uas_note_sent now (uas_start_timer_l now t)) = x_state t"
    "x_active (uas_note_sent now (uas_start_timer_l now t)) = x_active t"
    "x_role (uas_note_sent now (uas_start_timer_l now t)) = x_role t"
  using assms by (simp_all add: uas_sent_def uas_started_def uas_note_sent_def uas_start_timer_l_def Let_def tm_steps)

definition uas_after_send ::
  "'a tm_env \<Rightarrow> nat \<Rightarrow> time_ms \<Rightarrow> usipy_sip_tm_run_out option \<Rightarrow> 'a usipy_sip_tm \<Rightarrow>
     (int \<times> usipy_sip_tm_run_out option \<times> 'a usipy_sip_tm) abortable" where
  "uas_after_send ev i now outp tm =
     (let tp = txn tm i in
        if x_state tp = USIPY_SIP_TM_STATE_ACCEPTED then do {
          tm \<leftarrow> (case x_uas_owner tp of None \<Rightarrow> Some tm | Some arg \<Rightarrow> ev_owner_sent ev arg now tm);
          let tp = txn tm i;
          outp \<leftarrow> (if outp = None then Some None
                  else do {
                    outp \<leftarrow> usipy_sip_tm_uas_run_out_consider (ob_next_send_at_ms (x_outbound tp)) outp;
                    usipy_sip_tm_uas_run_out_consider (tmr_due_at_ms (x_timer tp)) outp
                  });
          Some (0, outp, tm)
        }
        else if x_last_status_code tp \<ge> 200 \<and> usipy_sip_tm_uas_is_invite_non2xx_final tp then do {
          (tp, outp) \<leftarrow> usipy_sip_tm_uas_post_send_invite_final now tp outp;
          Some (0, outp, upd i (\<lambda>_. tp) tm)
        }
        else if x_last_status_code tp \<ge> 200 then do {
          (tp, outp) \<leftarrow> usipy_sip_tm_uas_post_send_final now tp outp;
          Some (0, outp, upd i (\<lambda>_. tp) tm)
        }
        else Some (0, outp, tm))"

lemma uas_send_eq:
  "uas_send ev i now outp tm =
     (if fst (uas_out ev i now tm) \<noteq> 0
      then Some (fst (uas_out ev i now tm), outp, (uas_started i now tm)\<lparr>tm_app := snd (uas_out ev i now tm)\<rparr>)
      else uas_after_send ev i now (map_option (\<lambda>out. out\<lparr>ro_nsent := ro_nsent out + 1\<rparr>) outp) (uas_sent ev i now tm))"
  by (simp only: uas_send_def uas_after_send_def uas_sent_def uas_started_def uas_out_def Let_def case_prod_beta upd_sel)

lemma uas_send_cases:
  assumes "uas_send ev i now outp tm = Some (r, outp', tm')"
  obtains (failed) a where "tm' = (uas_started i now tm)\<lparr>tm_app := a\<rparr>" "r \<noteq> 0"
  | (accepted) "tm' = uas_sent ev i now tm \<or> (\<exists>n. ev_owner_sent ev n now (uas_sent ev i now tm) = Some tm')"
  | (rejected) tp o1 o2 where "usipy_sip_tm_uas_post_send_invite_final now (txn (uas_sent ev i now tm) i) o1 = Some (tp, o2)"
      "tm' = upd i (\<lambda>_. tp) (uas_sent ev i now tm)"
  | (completed) tp o1 o2 where "usipy_sip_tm_uas_post_send_final now (txn (uas_sent ev i now tm) i) o1 = Some (tp, o2)"
      "usipy_sip_tm_uas_post_send_final now (txn (uas_sent ev i now tm) i) o1 = Some (tp, o2)"
      "tm' = upd i (\<lambda>_. tp) (uas_sent ev i now tm)" "x_last_status_code (txn (uas_sent ev i now tm) i) \<ge> 200"
      "\<not> usipy_sip_tm_uas_is_invite_non2xx_final (txn (uas_sent ev i now tm) i)"
      "x_state (txn (uas_sent ev i now tm) i) \<noteq> USIPY_SIP_TM_STATE_ACCEPTED"
proof (cases "fst (uas_out ev i now tm) = 0")
  case False
  then show thesis using assms by (intro failed) (auto simp: uas_send_eq)
next
  case True
  let ?tm = "uas_sent ev i now tm" and ?tp = "txn (uas_sent ev i now tm) i"
  define o1 where "o1 = map_option (\<lambda>out. out\<lparr>ro_nsent := ro_nsent out + 1\<rparr>) outp"
  have U: "uas_after_send ev i now o1 ?tm = Some (r, outp', tm')" using assms True by (simp add: uas_send_eq o1_def)
  show thesis
  proof (cases "x_state ?tp = USIPY_SIP_TM_STATE_ACCEPTED")
    case True
    then obtain tm3 where "(case x_uas_owner ?tp of None \<Rightarrow> Some ?tm | Some arg \<Rightarrow> ev_owner_sent ev arg now ?tm) = Some tm3" "tm3 = tm'"
      using U by (auto simp: uas_after_send_def bind_eq_Some_conv Let_def)
    then show thesis by (intro accepted) (auto split: option.splits)
  next
    case na: False
    show thesis
    proof (cases "x_last_status_code ?tp \<ge> 200")
      case l: True
      show thesis
      proof (cases "usipy_sip_tm_uas_is_invite_non2xx_final ?tp")
        case True
        then obtain tp o' where "usipy_sip_tm_uas_post_send_invite_final now ?tp o1 = Some (tp, o')" "tm' = upd i (\<lambda>_. tp) ?tm"
          using U na l by (auto simp: uas_after_send_def Let_def bind_eq_Some_conv)
        then show thesis by (rule rejected)
      next
        case False
        then obtain tp o' where c: "usipy_sip_tm_uas_post_send_final now ?tp o1 = Some (tp, o')" "tm' = upd i (\<lambda>_. tp) ?tm"
          using U na l by (auto simp: uas_after_send_def Let_def bind_eq_Some_conv)
        show thesis by (rule completed[OF c(1) c(1,2) l False na])
      qed
    next
      case False
      then show thesis using U na by (intro accepted) (simp add: uas_after_send_def Let_def)
    qed
  qed
qed

lemma found_slot:
  "find_slot P tm = Some i \<Longrightarrow> i < max_transactions tm \<and> P (txn tm i)"
  by (auto simp: find_slot_def find_Some_iff)

text \<open>An ACK that matches: the transaction it confirms has answered an INVITE with an error.\<close>

lemma ack_confirms:
  assumes "usipy_sip_tm_find_uas_ack_transaction stk tm msg tid = Some (Some i, msg')" "tm_inv tm"
    "\<not> (x_last_status_code (txn tm i) \<ge> 200 \<and> x_last_status_code (txn tm i) < 300)"
  shows "x_state (txn tm i) = USIPY_SIP_TM_STATE_COMPLETED" "x_method_type (txn tm i) = USIPY_SIP_METHOD_INVITE"
proof -
  obtain P where f: "find_slot P tm = Some i" and P: "\<And>t. P t \<Longrightarrow> x_active t \<and> x_role t = USIPY_SIP_TM_ROLE_UAS \<and>
      id_method_type (x_id t) = USIPY_SIP_METHOD_INVITE \<and>
      (x_state t = USIPY_SIP_TM_STATE_COMPLETED \<or> x_state t = USIPY_SIP_TM_STATE_ACCEPTED)"
    using assms(1) unfolding usipy_sip_tm_find_uas_ack_transaction_def Let_def usipy_sip_tm_uas_ack_matches_tx_def
    by (auto simp: bind_eq_Some_conv split: option.splits list.splits usipy_sip_hdr_parsed.splits if_splits)
  note t = found_slot[OF f] tm_inv_slot[OF assms(2), of i]
  have inv: "uas_inv (txn tm i)" using t P by blast
  show "x_method_type (txn tm i) = USIPY_SIP_METHOD_INVITE" using inv P t(1) by (auto simp: uas_inv_def)
  show "x_state (txn tm i) = USIPY_SIP_TM_STATE_COMPLETED"
    using P[of "txn tm i"] t(1) inv assms(3) by (auto simp: uas_inv_def uas_states_def Let_def)
qed

lemma request_cases:
  assumes "usipy_sip_tm_handle_incoming_request ev inp msg tid tm = Some (r, out, tm')"
  obtains (same) "tm' = tm"
  | (acked) i where "tm' = upd i (raise_flag USIPY_SIP_TM_F_ACKED) tm \<or>
      (\<exists>n. ev_owner_acked ev n (upd i (raise_flag USIPY_SIP_TM_F_ACKED) tm) = Some tm')"
  | (confirmed) i msg' tp where "usipy_sip_tm_find_uas_ack_transaction (ev_stk ev) tm msg tid = Some (Some i, msg')"
      "\<not> (x_last_status_code (txn tm i) \<ge> 200 \<and> x_last_status_code (txn tm i) < 300)"
      "usipy_sip_tm_uas_handle_ack (hin_now_ms inp) (txn tm i) = Some tp" "tm' = upd i (\<lambda>_. tp) tm"
  | (cancelled) f a i m where "ev_uas_cancel ev f a i m tm = Some tm'"
  | (again) i where "tm' = upd i (uas_request_again (hin_now_ms inp)) tm"
  | (fresh) f n m where "ev_incoming_request ev f n inp m tm = Some tm'"
proof -
  obtain rl where rl: "sln_parsed (m_sline msg) = SL_request rl"
    using assms by (auto simp: usipy_sip_tm_handle_incoming_request_def split: usipy_sip_sline_parsed.splits)
  obtain ack msg1 where a: "(if rl_method rl = USIPY_SIP_METHOD_ACK
      then usipy_sip_tm_find_uas_ack_transaction (ev_stk ev) tm msg tid else Some (None, msg)) = Some (ack, msg1)"
    using assms rl by (auto simp: usipy_sip_tm_handle_incoming_request_def bind_eq_Some_conv)
  show thesis
  proof (cases ack)
    case (Some i)
    then have f: "usipy_sip_tm_find_uas_ack_transaction (ev_stk ev) tm msg tid = Some (Some i, msg1)"
      using a by (simp split: if_splits)
    show thesis
    proof (cases "x_last_status_code (txn tm i) \<ge> 200 \<and> x_last_status_code (txn tm i) < 300")
      case True
      then show thesis using assms rl a Some
        by (intro acked[of i]) (auto simp: usipy_sip_tm_handle_incoming_request_def Let_def bind_eq_Some_conv split: option.splits)
    next
      case False
      then obtain tp where "usipy_sip_tm_uas_handle_ack (hin_now_ms inp) (txn tm i) = Some tp" "tm' = upd i (\<lambda>_. tp) tm"
        using assms rl a Some by (auto simp: usipy_sip_tm_handle_incoming_request_def Let_def bind_eq_Some_conv)
      then show thesis by (rule confirmed[OF f False])
    qed
  next
    case na: None
    obtain cn where c: "(if rl_method rl = USIPY_SIP_METHOD_CANCEL
        then usipy_sip_tm_find_uas_cancel_transaction tm tid else Some None) = Some cn"
      using assms rl a na by (auto simp: usipy_sip_tm_handle_incoming_request_def bind_eq_Some_conv)
    have R: "(case cn of
                Some i \<Rightarrow> do {
                  (out, tm) \<leftarrow> usipy_sip_tm_uas_handle_cancel ev tm i msg1;
                  Some (USIPY_SIP_TM_OK, Some out, tm)
                }
              | None \<Rightarrow>
                  (case usipy_sip_tm_find_uas_transaction tm tid of
                     Some i \<Rightarrow>
                       Some (USIPY_SIP_TM_OK,
                         Some (incoming_out USIPY_SIP_TM_MATCH_EXISTING USIPY_SIP_TM_EVENT_REQUEST_RETRANSMIT (Some i)),
                         upd i (uas_request_again (hin_now_ms inp)) tm)
                   | None \<Rightarrow>
                       (case tm_incoming_request tm of
                          None \<Rightarrow> Some (USIPY_SIP_TM_ERR_UNSUPPORTED, None, tm)
                        | Some f \<Rightarrow> do {
                            tm \<leftarrow> ev_incoming_request ev f (tm_callbacks_arg tm) inp msg1 tm;
                            Some (USIPY_SIP_TM_OK,
                              Some (case usipy_sip_tm_find_uas_transaction tm tid of
                                None \<Rightarrow> incoming_out USIPY_SIP_TM_MATCH_NONE USIPY_SIP_TM_EVENT_REQUEST_RX None
                              | Some i \<Rightarrow> incoming_out USIPY_SIP_TM_MATCH_NEW USIPY_SIP_TM_EVENT_REQUEST_RX (Some i)),
                              tm)
                          }))) = Some (r, out, tm')"
      using assms rl a na c by (simp add: usipy_sip_tm_handle_incoming_request_def)
    show thesis
    proof (cases cn)
      case (Some i)
      then have "tm' = tm \<or> (\<exists>f a m. ev_uas_cancel ev f a i m tm = Some tm')"
        using R by (auto simp: usipy_sip_tm_uas_handle_cancel_def Let_def bind_eq_Some_conv split: option.splits)
      then show thesis using same cancelled by blast
    next
      case None
      show thesis
      proof (cases "usipy_sip_tm_find_uas_transaction tm tid")
        case (Some i)
        then show thesis using R None by (intro again[of i]) simp
      next
        case None2: None
        then have "tm' = tm \<or> (\<exists>f n m. ev_incoming_request ev f n inp m tm = Some tm')"
          using R None by (auto simp: bind_eq_Some_conv split: option.splits)
        then show thesis using same fresh by blast
      qed
    qed
  qed
qed

text \<open>
  What the server side needs of the callbacks: a relation between managers, at least as wide as what the
  server operations keep, that holds from before to after each of them.
\<close>

locale tm_callbacks =
  fixes ev :: "'a tm_env" and R :: "'a usipy_sip_tm \<Rightarrow> 'a usipy_sip_tm \<Rightarrow> bool"
  assumes keeps_sound: "sound tm tm' \<Longrightarrow> R tm tm'"
    and chain [trans]: "R tm tm1 \<Longrightarrow> R tm1 tm2 \<Longrightarrow> R tm tm2"
    and cancel: "ev_uas_cancel ev f c i msg tm = Some tm' \<Longrightarrow> R tm tm'"
    and no_ack: "ev_uas_no_ack ev f c i tm = Some (r, tm') \<Longrightarrow> R tm tm'"
    and request: "ev_incoming_request ev g n inp msg tm = Some tm' \<Longrightarrow> R tm tm'"
    and owner_sent: "ev_owner_sent ev n now tm = Some tm' \<Longrightarrow> R tm tm'"
    and owner_acked: "ev_owner_acked ev n tm = Some tm' \<Longrightarrow> R tm tm'"
    and owner_timeout: "ev_owner_timeout ev n tm = Some (r, tm') \<Longrightarrow> R tm tm'"
begin

lemma timer_due_kept:
  assumes "uas_timer_due ev i outp tm = Some (r, outp', tm')"
  shows "R tm tm'"
proof -
  let ?u = "upd i usipy_sip_tm_uas_mark_terminated tm"
  have "tm' = ?u \<or> R ?u tm'"
    using assms unfolding uas_timer_due_def Let_def
    by (auto simp: bind_eq_Some_conv split: if_splits option.splits dest: no_ack owner_timeout)
  moreover have "R tm ?u" by (intro keeps_sound sound_step terminated_step)
  ultimately show ?thesis using chain by blast
qed

lemma send_kept:
  assumes "uas_send ev i now outp tm = Some (r, outp', tm')" "x_active (txn tm i)"
    "x_role (txn tm i) = USIPY_SIP_TM_ROLE_UAS" "i < max_transactions tm"
    "x_state (txn tm i) \<noteq> USIPY_SIP_TM_STATE_TERMINATED"
  shows "R tm tm'"
proof -
  have s1: "sound tm ((uas_started i now tm)\<lparr>tm_app := a\<rparr>)" for a
    unfolding uas_started_def by (rule sound_trans[OF sound_step[OF timer_l_step] sound_app])
  have s2: "sound tm (uas_sent ev i now tm)"
    unfolding uas_sent_def by (rule sound_trans[OF s1 sound_step[OF note_sent_step]])
  from assms(1) show ?thesis
  proof (cases rule: uas_send_cases)
    case failed
    then show ?thesis using s1 keeps_sound by blast
  next
    case accepted
    then show ?thesis using keeps_sound[OF s2] owner_sent chain by blast
  next
    case (rejected tp)
    then show ?thesis using s2 post_invite_step sound_upd sound_trans keeps_sound by metis
  next
    case (completed tp)
    let ?tm2 = "uas_sent ev i now tm"
    have "slot_step (txn ?tm2 i) tp" if inv: "tm_inv ?tm2"
    proof (rule post_final_step[OF completed(2)])
      have t: "x_active (txn ?tm2 i)" "x_role (txn ?tm2 i) = USIPY_SIP_TM_ROLE_UAS"
        "x_state (txn ?tm2 i) = x_state (txn tm i)" "i < max_transactions ?tm2"
        using assms(2-4) by (simp_all add: uas_sent_sel)
      have "uas_states (txn ?tm2 i)" using tm_inv_slot[OF inv t(4)] t(1,2) by (simp add: uas_inv_def)
      then show "x_state (txn ?tm2 i) = USIPY_SIP_TM_STATE_COMPLETED" "x_method_type (txn ?tm2 i) \<noteq> USIPY_SIP_METHOD_INVITE"
        using completed(4,5,6) assms(5) unfolding t(3)[symmetric] by (rule final_state)+
    qed
    then have "sound ?tm2 tm'" unfolding completed(3) by (intro sound_upd)
    then show ?thesis using s2 sound_trans keeps_sound by blast
  qed
qed

lemma run_kept:
  assumes "usipy_sip_tm_uas_run ev i now outp tm = Some (r, outp', tm')" "x_active (txn tm i)"
    "x_role (txn tm i) = USIPY_SIP_TM_ROLE_UAS" "i < max_transactions tm"
  shows "R tm tm'"
  using assms
  by (auto simp: usipy_sip_tm_uas_run_def Let_def bind_eq_Some_conv split: if_splits
      intro: timer_due_kept send_kept intro!: keeps_sound[OF sound_refl])

lemma request_kept:
  assumes "usipy_sip_tm_handle_incoming_request ev inp msg tid tm = Some (r, out, tm')"
  shows "R tm tm'"
  using assms
proof (cases rule: request_cases)
  case (acked i)
  have "sound tm (upd i (raise_flag USIPY_SIP_TM_F_ACKED) tm)" by (intro sound_step ack_flag_step)
  then show ?thesis using acked owner_acked chain keeps_sound by blast
next
  case (confirmed i msg' tp)
  have "slot_step (txn tm i) tp" if "tm_inv tm"
    using ack_step[OF confirmed(3)] ack_confirms[OF confirmed(1) that confirmed(2)] by blast
  then show ?thesis unfolding confirmed(4) by (intro keeps_sound sound_upd)
next
  case (again i)
  then show ?thesis by (simp add: keeps_sound sound_step again_step)
qed (use cancel request keeps_sound in auto)

end

text \<open>The contract of the application: its callbacks move the manager by calls only.\<close>

definition application_ok :: "'a tm_env \<Rightarrow> bool" where
  "application_ok ev \<longleftrightarrow> policy_ok ev \<and>
     (\<forall>f a i msg tm tm'. ev_uas_cancel ev f a i msg tm = Some tm' \<longrightarrow> (uas_call ev)\<^sup>*\<^sup>* tm tm') \<and>
     (\<forall>f a i tm r tm'. ev_uas_no_ack ev f a i tm = Some (r, tm') \<longrightarrow> (uas_call ev)\<^sup>*\<^sup>* tm tm') \<and>
     (\<forall>f n inp msg tm tm'. ev_incoming_request ev f n inp msg tm = Some tm' \<longrightarrow> (uas_call ev)\<^sup>*\<^sup>* tm tm') \<and>
     (\<forall>n now tm tm'. ev_owner_sent ev n now tm = Some tm' \<longrightarrow> (uas_call ev)\<^sup>*\<^sup>* tm tm') \<and>
     (\<forall>n tm tm'. ev_owner_acked ev n tm = Some tm' \<longrightarrow> (uas_call ev)\<^sup>*\<^sup>* tm tm') \<and>
     (\<forall>n tm r tm'. ev_owner_timeout ev n tm = Some (r, tm') \<longrightarrow> (uas_call ev)\<^sup>*\<^sup>* tm tm')"

locale tm_client =
  fixes ev :: "'a tm_env"
  assumes application: "application_ok ev"
begin

lemma policy: "policy_ok ev"
  using application by (simp add: application_ok_def)

lemma calls: "(uas_call ev)\<^sup>*\<^sup>* tm tm' \<Longrightarrow> sound tm tm'"
  using calls_sound policy by blast

end

sublocale tm_client \<subseteq> server: tm_callbacks ev sound
proof unfold_locales
  show "sound tm tm1 \<Longrightarrow> sound tm1 tm2 \<Longrightarrow> sound tm tm2" for tm tm1 tm2 :: "'a usipy_sip_tm"
    by (rule sound_trans)
qed (use application calls in \<open>simp_all add: application_ok_def\<close>)

text \<open>A step of the system.\<close>

inductive uas_step :: "'a tm_env \<Rightarrow> 'a usipy_sip_tm \<Rightarrow> 'a usipy_sip_tm \<Rightarrow> bool" for ev where
  application: "uas_call ev tm tm' \<Longrightarrow> uas_step ev tm tm'"
| pump: "usipy_sip_tm_uas_run ev i now outp tm = Some (r, outp', tm') \<Longrightarrow> i < max_transactions tm \<Longrightarrow>
    x_active (txn tm i) \<Longrightarrow> x_role (txn tm i) = USIPY_SIP_TM_ROLE_UAS \<Longrightarrow> uas_step ev tm tm'"
| network: "usipy_sip_tm_handle_incoming_request ev inp msg tid tm = Some (r, out, tm') \<Longrightarrow> uas_step ev tm tm'"
| reap: "uas_step ev tm (usipy_sip_tm_reap_terminated tm)"

lemma reap_sound: "sound tm (usipy_sip_tm_reap_terminated tm)"
proof -
  have "sound tm (fold (\<lambda>i tm. case usipy_sip_tm_get_transaction tm i of
          Some txp \<Rightarrow> if x_state txp = USIPY_SIP_TM_STATE_TERMINATED then snd (usipy_sip_tm_drop_transaction tm i) else tm
        | None \<Rightarrow> tm) ks tm)" for ks
    by (induction ks arbitrary: tm) (auto intro: sound_trans drop_sound split: option.split)
  then show ?thesis by (simp add: usipy_sip_tm_reap_terminated_def)
qed

context tm_client
begin

lemma step_sound: "uas_step ev tm tm' \<Longrightarrow> sound tm tm'"
  by (induction rule: uas_step.induct) (auto intro: uas_call_sound[OF policy] server.run_kept server.request_kept reap_sound)

lemma steps_sound: "(uas_step ev)\<^sup>*\<^sup>* tm tm' \<Longrightarrow> sound tm tm'"
  by (induction rule: rtranclp_induct) (auto intro: sound_trans step_sound)

end

subsection \<open>An application\<close>

text \<open>
  One that answers every request at once, answers a CANCEL as the library does, drops a transaction whose
  ACK never came, and leaves the rest alone.
\<close>

definition answering :: "(usipy_msg \<Rightarrow> usipy_sip_status) \<Rightarrow> 'a tm_env \<Rightarrow> 'a tm_env" where
  "answering st ev = ev
     \<lparr>ev_uas_cancel := (\<lambda>f a i msg tm. map_option snd (usipy_sip_tm_uas_tr_cancelled ev tm msg i None)),
      ev_uas_no_ack := (\<lambda>f a i tm. Some (0, snd (usipy_sip_tm_drop_transaction tm i))),
      ev_incoming_request := (\<lambda>f n inp msg tm. map_option snd (usipy_sip_tm_send_simple_response ev tm inp msg (st msg))),
      ev_owner_sent := (\<lambda>n now tm. Some tm), ev_owner_acked := (\<lambda>n tm. Some tm),
      ev_owner_timeout := (\<lambda>n tm. Some (0, tm))\<rparr>"

lemma answering_sel [simp]:
  "ev_stk (answering st ev) = ev_stk ev" "ev_tid0 (answering st ev) = ev_tid0 ev"
  "ev_server (answering st ev) = ev_server ev" "ev_id_policy (answering st ev) = ev_id_policy ev"
  "ev_send_to (answering st ev) = ev_send_to ev"
  by (simp_all add: answering_def)

lemma answering_calls: "uas_call (answering st ev) tm tm' \<longleftrightarrow> uas_call ev tm tm'"
proof -
  have t: "usipy_sip_tm_uas_prepare_local_tag (answering st ev) = usipy_sip_tm_uas_prepare_local_tag ev"
    by (intro ext) (simp add: usipy_sip_tm_uas_prepare_local_tag_def split: option.split)
  have f: "uas_fill (answering st ev) = uas_fill ev"
    by (intro ext) (unfold uas_fill_def t answering_sel, rule refl)
  have n: "usipy_sip_tm_new_uas_tr (answering st ev) = usipy_sip_tm_new_uas_tr ev"
    by (intro ext) (unfold usipy_sip_tm_new_uas_tr_def f answering_sel, rule refl)
  have r: "usipy_sip_tm_send_uas_response (answering st ev) = usipy_sip_tm_send_uas_response ev"
    by (intro ext) (unfold usipy_sip_tm_send_uas_response_def answering_sel, rule refl)
  show ?thesis unfolding uas_call.simps n r ..
qed

lemma answering_ok:
  assumes "policy_ok ev" "\<And>msg. st_code (st msg) < 65536"
  shows "application_ok (answering st ev)"
proof -
  have c: "(uas_call (answering st ev))\<^sup>*\<^sup>* = (uas_call ev)\<^sup>*\<^sup>*"
    by (intro arg_cong[where f = rtranclp] ext) (rule answering_calls)
  have d: "(uas_call ev)\<^sup>*\<^sup>* tm (snd (usipy_sip_tm_drop_transaction tm i))" for tm i
    by (rule r_into_rtranclp, rule drop_tr[of _ i]) (rule prod.collapse[symmetric])
  have p: "policy_ok (answering st ev)" using assms(1) by (simp add: policy_ok_def)
  show ?thesis
    unfolding application_ok_def c
    by (intro conjI p)
      (auto simp: answering_def dest: cancelled_calls send_simple_calls[OF _ assms(2)] intro: d)
qed

text \<open>The simplest platform: a network that takes everything, and no policy for identities.\<close>

definition quiet_env :: "'a tm_env" where
  "quiet_env = \<lparr>ev_stk = [], ev_tid0 = \<lparr>tid_hash = 0, tid_call_id = [], tid_from_tag = [],
       tid_cseq = \<lparr>cseq_onwire_method = [], cseq_val = 0, cseq_method = 0\<rparr>, tid_vbranch = []\<rparr>,
     ev_server = ''microsippy'', ev_user_agent = [], ev_default_udp_port = 5060,
     ev_id_policy = (\<lambda>_ _ h _. (None, h)), ev_send_to = (\<lambda>_ _ _ app. (0, app)),
     ev_uac_response = (\<lambda>_ _ _ _ tm. Some tm), ev_uac_timeout = (\<lambda>_ _ _ _ tm. Some tm),
     ev_uas_cancel = (\<lambda>_ _ _ _ tm. Some tm), ev_uas_no_ack = (\<lambda>_ _ _ tm. Some (0, tm)),
     ev_incoming_request = (\<lambda>_ _ _ _ tm. Some tm), ev_owner_sent = (\<lambda>_ _ tm. Some tm),
     ev_owner_acked = (\<lambda>_ tm. Some tm), ev_owner_timeout = (\<lambda>_ tm. Some (0, tm))\<rparr>"

lemma quiet_policy: "policy_ok quiet_env"
  by (simp add: policy_ok_def quiet_env_def)

interpretation refuser: tm_client "answering (\<lambda>_. usipy_sip_res_req_term) quiet_env"
  by unfold_locales (rule answering_ok[OF quiet_policy], simp add: usipy_sip_res_req_term_def)

end
