(* ===== verification/Usipy_Tmlive.thy ===== *)
theory Usipy_Tmlive
  imports Usipy_Tmrun
begin

unbundle bit_operations_syntax

text \<open>
  The timer pump on an INVITE answered with an error: the retransmissions back off from T1 to T2 until
  Timer H ends the transaction, and the pump, run each time it asks to be run, gets there.
\<close>

subsection \<open>One run\<close>

definition backoff :: "nat \<Rightarrow> usipy_sip_tm_timer_policy \<Rightarrow> nat" where
  "backoff n p = (if n \<ge> 31 then unat (t2_ms p) else min (unat (t1_ms p) * 2 ^ n) (unat (t2_ms p)))"

lemma backoff_bounds:
  assumes "policy_set p"
  shows "0 < backoff n p" "backoff n p < 2 ^ 32"
proof -
  have "unat (t1_ms p) \<noteq> 0" "unat (t2_ms p) \<noteq> 0" using assms by (simp_all add: policy_set_def unat_eq_0)
  moreover have "unat (t2_ms p) < 2 ^ 32" using unsigned_less[of "t2_ms p"] by simp
  ultimately show "0 < backoff n p" "backoff n p < 2 ^ 32" by (simp_all add: backoff_def min_less_iff_disj)
qed

lemma delay_eq:
  assumes "policy_set (x_timers t)"
  shows "usipy_sip_tm_uas_invite_next_send_delay_ms t =
    Some (of_nat (backoff (unat (x_retransmit_count t) - 1) (x_timers t)))"
proof -
  let ?n = "unat (x_retransmit_count t) - 1"
  define t1 t2 where "t1 = t1_ms (x_timers t)" and "t2 = t2_ms (x_timers t)"
  define shift where "shift = (if x_retransmit_count t > 0 then x_retransmit_count t - 1 else 0)"
  have s: "unat shift = ?n" by (auto simp: shift_def unat_sub word_le_nat_alt word_less_nat_alt)
  have g: "shift \<ge> 31 \<longleftrightarrow> ?n \<ge> 31" using s by (simp add: word_le_nat_alt)
  have b: "unat t1 < 2 ^ 32" "unat t2 < 2 ^ 32" using unsigned_less[of t1] unsigned_less[of t2] by simp_all
  have u: "unat (ucast t1 :: 64 word) = unat t1" "unat (ucast t2 :: 64 word) = unat t2"
    using b by (simp_all add: unsigned_ucast_eq take_bit_nat_eq_self)
  define d where "d = push_bit ?n (ucast t1 :: 64 word)"
  have d: "unat d = unat t1 * 2 ^ ?n" if "\<not> ?n \<ge> 31"
  proof -
    have "(2 :: nat) ^ ?n \<le> 2 ^ 31" using that by (intro power_increasing) simp_all
    then have "unat t1 * 2 ^ ?n < 2 ^ 32 * 2 ^ 31"
      using b(1) by (intro mult_less_le_imp_less) simp_all
    then have "unat t1 * 2 ^ ?n < 2 ^ 64" by simp
    then have "take_bit LENGTH(64) (push_bit ?n (unat t1)) = unat t1 * 2 ^ ?n"
      by (simp only: push_bit_eq_mult) (simp add: take_bit_nat_eq_self)
    then show ?thesis unfolding d_def unsigned_push_bit_eq u(1) .
  qed
  have "usipy_sip_tm_uas_invite_next_send_delay_ms t =
      Some (if ?n \<ge> 31 then t2 else if d > ucast t2 then t2 else ucast d)"
    using assms unfolding usipy_sip_tm_uas_invite_next_send_delay_ms_def Let_def shift_def[symmetric] s g
    by (simp add: policy_set_def t1_def t2_def d_def)
  also have "\<dots> = Some (of_nat (backoff ?n (x_timers t)))"
  proof (cases "?n \<ge> 31")
    case False
    have "d > ucast t2 \<longleftrightarrow> unat t1 * 2 ^ ?n > unat t2" using d[OF False] u(2) by (simp add: word_less_nat_alt)
    moreover have "ucast d = (of_nat (unat t1 * 2 ^ ?n) :: uint32)" by (simp only: d[OF False, symmetric] of_nat_unat)
    ultimately show ?thesis using False by (simp add: backoff_def t1_def[symmetric] t2_def[symmetric] min_def)
  qed (simp add: backoff_def t2_def)
  finally show ?thesis .
qed

text \<open>The next time the pump wants to run.\<close>

definition run_out_min :: "time_ms \<Rightarrow> usipy_sip_tm_run_out \<Rightarrow> usipy_sip_tm_run_out" where
  "run_out_min w out =
     (if w \<noteq> USIPY_SIP_TM_TIME_NONE \<and> (ro_next_run_at_ms out = USIPY_SIP_TM_TIME_NONE \<or> w < ro_next_run_at_ms out)
      then out\<lparr>ro_next_run_at_ms := w\<rparr> else out)"

lemma consider_eq: "usipy_sip_tm_uas_run_out_consider w (Some out) = Some (Some (run_out_min w out))"
  by (simp add: usipy_sip_tm_uas_run_out_consider_def run_out_min_def)

text \<open>An INVITE that has been answered with an error, over an unreliable transport.\<close>

definition rejecting :: "usipy_sip_tm_txi \<Rightarrow> bool" where
  "rejecting t \<longleftrightarrow> x_active t \<and> x_role t = USIPY_SIP_TM_ROLE_UAS \<and> x_state t = USIPY_SIP_TM_STATE_COMPLETED \<and>
     x_method_type t = USIPY_SIP_METHOD_INVITE \<and> x_last_status_code t \<ge> 300 \<and> \<not> reliable t \<and>
     policy_set (x_timers t) \<and> tmr_type (x_timer t) = USIPY_SIP_TM_TIMER_H"

lemma rejecting_code: "rejecting t \<Longrightarrow> 200 \<le> x_last_status_code t"
  by (rule order_trans[of _ "300 :: 16 word"]) (simp_all add: rejecting_def)

text \<open>The slot after its response went out once more.\<close>

definition hurried :: "time_ms \<Rightarrow> usipy_sip_tm_txi \<Rightarrow> usipy_sip_tm_txi" where
  "hurried now t = (if tmr_due_at_ms (x_timer t) = USIPY_SIP_TM_TIME_NONE
     then t\<lparr>x_timer := (x_timer t)\<lparr>tmr_due_at_ms := now + ucast (tmr_value_ms (x_timer t))\<rparr>\<rparr> else t)"

definition resent :: "time_ms \<Rightarrow> usipy_sip_tm_txi \<Rightarrow> usipy_sip_tm_txi" where
  "resent now t = (let u = uas_note_sent now t in
     sync_outbound (set_next_send (now + of_nat (backoff (unat (x_retransmit_count u) - 1) (x_timers u))) (hurried now u)))"

lemma note_sent_sel:
  "x_state (uas_note_sent now t) = x_state t" "x_timer (uas_note_sent now t) = x_timer t"
  "x_timers (uas_note_sent now t) = x_timers t" "x_flags (uas_note_sent now t) = x_flags t"
  "x_last_status_code (uas_note_sent now t) = x_last_status_code t" "x_method_type (uas_note_sent now t) = x_method_type t"
  "x_retransmit_count (uas_note_sent now t) = x_retransmit_count t + 1" "x_role (uas_note_sent now t) = x_role t"
  "x_active (uas_note_sent now t) = x_active t"
  "x_scratch (uas_note_sent now t) = x_scratch t" "ob_raw (x_outbound (uas_note_sent now t)) = ob_raw (x_outbound t)"
  "ob_target (x_outbound (uas_note_sent now t)) = ob_target (x_outbound t)"
  "x_uas_callbacks (uas_note_sent now t) = x_uas_callbacks t"
  by (simp_all add: uas_note_sent_def Let_def tm_steps)

lemma hurried_sel:
  "x_state (hurried now t) = x_state t" "x_timers (hurried now t) = x_timers t" "x_flags (hurried now t) = x_flags t"
  "x_last_status_code (hurried now t) = x_last_status_code t" "x_method_type (hurried now t) = x_method_type t"
  "x_retransmit_count (hurried now t) = x_retransmit_count t" "x_role (hurried now t) = x_role t"
  "x_active (hurried now t) = x_active t" "x_outbound (hurried now t) = x_outbound t"
  "tmr_type (x_timer (hurried now t)) = tmr_type (x_timer t)" "x_scratch (hurried now t) = x_scratch t"
  "tmr_value_ms (x_timer (hurried now t)) = tmr_value_ms (x_timer t)" "x_uas_callbacks (hurried now t) = x_uas_callbacks t"
  "tmr_due_at_ms (x_timer (hurried now t)) = (if tmr_due_at_ms (x_timer t) = USIPY_SIP_TM_TIME_NONE
     then now + ucast (tmr_value_ms (x_timer t)) else tmr_due_at_ms (x_timer t))"
  by (simp_all add: hurried_def)

lemma resent_sel:
  "rejecting (resent now t) = rejecting t" "x_retransmit_count (resent now t) = x_retransmit_count t + 1"
  "ob_next_send_at_ms (x_outbound (resent now t)) = now + of_nat (backoff (unat (x_retransmit_count t + 1) - 1) (x_timers t))"
  "ob_raw (x_outbound (resent now t)) = ob_raw (x_outbound t)" "x_scratch (resent now t) = x_scratch t"
  "ob_target (x_outbound (resent now t)) = ob_target (x_outbound t)"
  "x_timers (resent now t) = x_timers t" "tmr_value_ms (x_timer (resent now t)) = tmr_value_ms (x_timer t)"
  "x_uas_callbacks (resent now t) = x_uas_callbacks t"
  "tmr_due_at_ms (x_timer (resent now t)) = (if tmr_due_at_ms (x_timer t) = USIPY_SIP_TM_TIME_NONE
     then now + ucast (tmr_value_ms (x_timer t)) else tmr_due_at_ms (x_timer t))"
  by (simp_all add: resent_def rejecting_def Let_def hurried_sel note_sent_sel sync_outbound_def set_next_send_def)

text \<open>A run that is due sends the response again and says when the next one is.\<close>

lemma post_invite_eq:
  assumes "rejecting u"
  shows "usipy_sip_tm_uas_post_send_invite_final now u (Some out) =
    (let v = sync_outbound (set_next_send (now + of_nat (backoff (unat (x_retransmit_count u) - 1) (x_timers u))) (hurried now u)) in
     Some (v, Some (run_out_min (tmr_due_at_ms (x_timer v)) (run_out_min (ob_next_send_at_ms (x_outbound v)) out))))"
proof -
  have p: "policy_set (x_timers (hurried now u))" "\<not> reliable (hurried now u)" using assms by (simp_all add: rejecting_def hurried_sel)
  have w: "backoff n p < 2 ^ 32" if "policy_set p" for n p using backoff_bounds(2)[OF that] .
  have c: "(ucast (of_nat (backoff n (x_timers u)) :: uint32) :: time_ms) = of_nat (backoff n (x_timers u))" for n
  proof -
    have "backoff n (x_timers u) < 2 ^ 32" using assms by (intro w) (simp add: rejecting_def)
    then show ?thesis by (intro word_unat_eq_iff[THEN iffD2]) (simp add: unsigned_ucast_eq unat_of_nat take_bit_nat_eq_self)
  qed
  have "usipy_sip_tm_uas_post_send_invite_final now u (Some out) = Option.bind
      (Option.bind (usipy_sip_tm_uas_invite_next_send_delay_ms (hurried now u)) (\<lambda>delay.
          let tp = sync_outbound (set_next_send (now + ucast delay) (hurried now u)) in
          Option.bind (usipy_sip_tm_uas_run_out_consider (ob_next_send_at_ms (x_outbound tp)) (Some out)) (\<lambda>outp. Some (tp, outp))))
      (\<lambda>(tp, outp). Option.bind (usipy_sip_tm_uas_run_out_consider (tmr_due_at_ms (x_timer tp)) outp) (\<lambda>outp. Some (tp, outp)))"
    using p(2) by (simp add: usipy_sip_tm_uas_post_send_invite_final_def hurried_def[symmetric] Let_def)
  then show ?thesis by (simp add: delay_eq[OF p(1)] consider_eq Let_def hurried_sel c)
qed

lemma resend_run:
  assumes "i < max_transactions tm" "rejecting (txn tm i)" "fst (uas_out ev i now tm) = 0"
    "tmr_due_at_ms (x_timer (txn tm i)) > now" "ob_next_send_at_ms (x_outbound (txn tm i)) \<le> now"
    "ob_next_send_at_ms (x_outbound (txn tm i)) \<noteq> USIPY_SIP_TM_TIME_NONE"
  shows "usipy_sip_tm_uas_run ev i now (Some out) tm =
    (let t = resent now (txn tm i) in
     Some (0, Some (run_out_min (tmr_due_at_ms (x_timer t)) (run_out_min (ob_next_send_at_ms (x_outbound t))
         (out\<lparr>ro_nsent := ro_nsent out + 1\<rparr>))),
       upd i (\<lambda>_. t) (tm\<lparr>tm_app := snd (uas_out ev i now tm)\<rparr>)))"
proof -
  let ?t = "txn tm i"
  have st: "x_state ?t = USIPY_SIP_TM_STATE_COMPLETED" using assms(2) by (simp add: rejecting_def)
  then have l: "uas_start_timer_l now ?t = ?t" by (simp add: uas_start_timer_l_def)
  let ?tm2 = "uas_sent ev i now tm"
  have t2: "txn ?tm2 i = uas_note_sent now ?t" using assms(1) by (simp add: uas_sent_sel l)
  have r2: "rejecting (txn ?tm2 i)" using assms(2) unfolding t2 by (simp add: rejecting_def note_sent_sel)
  have u: "upd i (\<lambda>_. v) ?tm2 = upd i (\<lambda>_. v) (tm\<lparr>tm_app := snd (uas_out ev i now tm)\<rparr>)" for v
    by (simp add: uas_sent_def uas_started_def upd_def)
  have c: "x_last_status_code (txn ?tm2 i) \<ge> 200 \<and> usipy_sip_tm_uas_is_invite_non2xx_final (txn ?tm2 i)"
    "x_state (txn ?tm2 i) \<noteq> USIPY_SIP_TM_STATE_ACCEPTED"
    using r2 rejecting_code[OF r2] by (simp_all add: rejecting_def usipy_sip_tm_uas_is_invite_non2xx_final_def)
  have "uas_after_send ev i now (Some (out\<lparr>ro_nsent := ro_nsent out + 1\<rparr>)) ?tm2 =
      (let t = resent now ?t in Some (0, Some (run_out_min (tmr_due_at_ms (x_timer t)) (run_out_min (ob_next_send_at_ms (x_outbound t))
         (out\<lparr>ro_nsent := ro_nsent out + 1\<rparr>))), upd i (\<lambda>_. t) ?tm2))"
    unfolding uas_after_send_def Let_def if_not_P[OF c(2)] if_P[OF c(1)] post_invite_eq[OF r2]
    by (simp add: resent_def t2 Let_def)
  then have "uas_send ev i now (Some out) tm = (let t = resent now ?t in
      Some (0, Some (run_out_min (tmr_due_at_ms (x_timer t)) (run_out_min (ob_next_send_at_ms (x_outbound t))
         (out\<lparr>ro_nsent := ro_nsent out + 1\<rparr>))), upd i (\<lambda>_. t) (tm\<lparr>tm_app := snd (uas_out ev i now tm)\<rparr>)))"
    using assms(3) by (simp add: uas_send_eq u Let_def)
  moreover have "usipy_sip_tm_uas_run ev i now (Some out) tm = uas_send ev i now (Some out) tm"
    using assms(4-6) st unfolding usipy_sip_tm_uas_run_def Let_def not_less[symmetric] by auto
  ultimately show ?thesis by (simp only:)
qed

subsection \<open>Until the end\<close>

text \<open>
  A driver of the pump: it runs it at a time, then at the time the run asked for, and stops when there is
  no next time. It answers the time of the last run.
\<close>

definition run_out_zero :: usipy_sip_tm_run_out where
  "run_out_zero = \<lparr>ro_error = 0, ro_next_run_at_ms = USIPY_SIP_TM_TIME_NONE, ro_nsent = 0, ro_ntimeouts = 0\<rparr>"

fun pump_loop :: "'a tm_env \<Rightarrow> nat \<Rightarrow> nat \<Rightarrow> time_ms \<Rightarrow> 'a usipy_sip_tm \<Rightarrow> (time_ms \<times> 'a usipy_sip_tm) option" where
  "pump_loop ev i 0 now tm = None"
| "pump_loop ev i (Suc k) now tm = do {
     (r, outp, tm) \<leftarrow> usipy_sip_tm_uas_run ev i now (Some run_out_zero) tm;
     out \<leftarrow> outp;
     if ro_next_run_at_ms out = USIPY_SIP_TM_TIME_NONE then Some (now, tm)
     else pump_loop ev i k (ro_next_run_at_ms out) tm
   }"

definition network_up :: "'a tm_env \<Rightarrow> bool" where
  "network_up ev \<longleftrightarrow> (\<forall>i a s app. fst (ev_send_to ev i a s app) = 0)"

lemma network_out: "network_up ev \<Longrightarrow> fst (uas_out ev i now tm) = 0"
  by (simp add: network_up_def uas_out_def Let_def)

lemma run_out_min_zero:
  assumes "s \<noteq> USIPY_SIP_TM_TIME_NONE" "d \<noteq> USIPY_SIP_TM_TIME_NONE"
  shows "ro_next_run_at_ms (run_out_min d (run_out_min s (run_out_zero\<lparr>ro_nsent := n\<rparr>))) = min s d"
  using assms by (auto simp: run_out_min_def run_out_zero_def min_def not_less dest: less_le_trans)

lemma time_not_none: "unat (w :: time_ms) < 2 ^ 63 \<Longrightarrow> w \<noteq> USIPY_SIP_TM_TIME_NONE"
  by (auto simp: unsigned_minus_1_eq_mask mask_eq_exp_minus_1)

lemma time_later:
  assumes "unat (now :: time_ms) < 2 ^ 62" "b < 2 ^ 32"
  shows "unat (now + of_nat b) = unat now + b"
proof -
  have b: "unat (of_nat b :: time_ms) = b" using assms(2) by (simp add: unat_of_nat take_bit_nat_eq_self)
  show ?thesis using assms b by (subst unat_add_lem[THEN iffD1]) simp_all
qed

text \<open>Timer H fires.\<close>

lemma timer_h_run:
  assumes "i < max_transactions tm" "rejecting (txn tm i)" "scb_no_ack (x_uas_callbacks (txn tm i)) = None"
    "tmr_due_at_ms (x_timer (txn tm i)) \<le> now"
  shows "pump_loop ev i (Suc k) now tm = Some (now, upd i usipy_sip_tm_uas_mark_terminated tm)"
    "x_state (txn (upd i usipy_sip_tm_uas_mark_terminated tm) i) = USIPY_SIP_TM_STATE_TERMINATED"
proof -
  let ?u = "upd i usipy_sip_tm_uas_mark_terminated tm"
  have n: "scb_no_ack (x_uas_callbacks (txn ?u i)) = None"
    using assms(1,3) by (simp add: usipy_sip_tm_uas_mark_terminated_def tm_steps)
  have "usipy_sip_tm_uas_run ev i now (Some run_out_zero) tm = Some (0, count_timeouts 1 (Some run_out_zero), ?u)"
    using assms n by (simp add: usipy_sip_tm_uas_run_def uas_timer_due_def Let_def rejecting_def)
  then show "pump_loop ev i (Suc k) now tm = Some (now, ?u)"
    by (simp add: count_timeouts_def run_out_zero_def)
  show "x_state (txn ?u i) = USIPY_SIP_TM_STATE_TERMINATED"
    using assms(1) by (simp add: usipy_sip_tm_uas_mark_terminated_def tm_steps)
qed

text \<open>The runs in between: each is later than the one before, and none is later than Timer H.\<close>

lemma pump_ends:
  assumes "i < max_transactions tm" "rejecting (txn tm i)" "scb_no_ack (x_uas_callbacks (txn tm i)) = None"
    "network_up ev" "tmr_due_at_ms (x_timer (txn tm i)) = d" "unat d < 2 ^ 62" "now \<le> d"
    "ob_next_send_at_ms (x_outbound (txn tm i)) \<le> now \<or> now = d" "unat d - unat now < k"
  shows "\<exists>tm'. pump_loop ev i k now tm = Some (d, tm') \<and> x_state (txn tm' i) = USIPY_SIP_TM_STATE_TERMINATED"
  using assms
proof (induction k arbitrary: now tm)
  case (Suc k)
  show ?case
  proof (cases "d \<le> now")
    case True
    then have "now = d" using Suc.prems(7) by simp
    then show ?thesis
      using timer_h_run[OF Suc.prems(1-3), of now, unfolded Suc.prems(5), OF True] by blast
  next
    case False
    then have lt: "now < d" by simp
    let ?t = "txn tm i"
    have s: "ob_next_send_at_ms (x_outbound ?t) \<le> now" using Suc.prems(8) lt by auto
    have nb: "unat now < unat d" using lt by (simp add: word_less_nat_alt)
    have nn: "ob_next_send_at_ms (x_outbound ?t) \<noteq> USIPY_SIP_TM_TIME_NONE"
      using s nb Suc.prems(6) by (intro time_not_none) (simp add: word_le_nat_alt)
    define t' where "t' = resent now ?t"
    define tm1 where "tm1 = upd i (\<lambda>_. t') (tm\<lparr>tm_app := snd (uas_out ev i now tm)\<rparr>)"
    note R = resend_run[OF Suc.prems(1,2) network_out[OF Suc.prems(4)] _ s nn, of run_out_zero]
    define b where "b = backoff (unat (x_retransmit_count ?t + 1) - 1) (x_timers ?t)"
    have b: "0 < b" "b < 2 ^ 32" unfolding b_def using Suc.prems(2) backoff_bounds by (auto simp: rejecting_def)
    define s' where "s' = ob_next_send_at_ms (x_outbound t')"
    have s': "unat s' = unat now + b"
      unfolding s'_def t'_def resent_sel b_def[symmetric] using nb Suc.prems(6) b by (intro time_later) simp_all
    have dn: "d \<noteq> USIPY_SIP_TM_TIME_NONE" using Suc.prems(6) by (intro time_not_none) simp
    have d': "tmr_due_at_ms (x_timer t') = d" using dn Suc.prems(5) by (simp add: t'_def resent_sel)
    have sn: "s' \<noteq> USIPY_SIP_TM_TIME_NONE" using s' b nb Suc.prems(6) by (intro time_not_none) simp
    have run: "usipy_sip_tm_uas_run ev i now (Some run_out_zero) tm =
        Some (0, Some (run_out_min d (run_out_min s' (run_out_zero\<lparr>ro_nsent := 1\<rparr>))), tm1)"
      using R lt Suc.prems(5) d' unfolding tm1_def t'_def[symmetric] Let_def s'_def by (simp add: run_out_zero_def)
    have next_run: "ro_next_run_at_ms (run_out_min d (run_out_min s' (run_out_zero\<lparr>ro_nsent := 1\<rparr>))) = min s' d"
      by (rule run_out_min_zero[OF sn dn])
    have "min s' d \<noteq> USIPY_SIP_TM_TIME_NONE" using sn dn by (simp add: min_def)
    then have L: "pump_loop ev i (Suc k) now tm = pump_loop ev i k (min s' d) tm1"
      using run next_run by simp
    have t1: "txn tm1 i = t'" using Suc.prems(1) by (simp add: tm1_def)
    have later: "unat now < unat (min s' d)" using s' b nb by (simp add: min_def)
    have "\<exists>tm'. pump_loop ev i k (min s' d) tm1 = Some (d, tm') \<and> x_state (txn tm' i) = USIPY_SIP_TM_STATE_TERMINATED"
    proof (rule Suc.IH)
      show "i < max_transactions tm1" using Suc.prems(1) by (simp add: tm1_def)
      show "rejecting (txn tm1 i)" "scb_no_ack (x_uas_callbacks (txn tm1 i)) = None"
        using Suc.prems(2,3) by (simp_all add: t1 t'_def resent_sel)
      show "tmr_due_at_ms (x_timer (txn tm1 i)) = d" using d' t1 by simp
      show "min s' d \<le> d" by simp
      show "ob_next_send_at_ms (x_outbound (txn tm1 i)) \<le> min s' d \<or> min s' d = d"
        by (simp add: t1 s'_def[symmetric] min_def)
      show "unat d - unat (min s' d) < k" using later nb Suc.prems(9) by linarith
    qed (use Suc.prems in simp_all)
    then show ?thesis unfolding L .
  qed
qed simp

text \<open>From the first transmission on.\<close>

lemma pump_from_start:
  assumes "i < max_transactions tm" "rejecting (txn tm i)" "scb_no_ack (x_uas_callbacks (txn tm i)) = None"
    "tmr_due_at_ms (x_timer (txn tm i)) = USIPY_SIP_TM_TIME_NONE" "ob_next_send_at_ms (x_outbound (txn tm i)) = 0"
    "network_up ev" "unat now < 2 ^ 61"
  shows "\<exists>tm'. pump_loop ev i (unat (tmr_value_ms (x_timer (txn tm i))) + 2) now tm =
      Some (now + ucast (tmr_value_ms (x_timer (txn tm i))), tm') \<and> x_state (txn tm' i) = USIPY_SIP_TM_STATE_TERMINATED"
proof -
  let ?t = "txn tm i"
  define v where "v = tmr_value_ms (x_timer ?t)"
  define t' where "t' = resent now ?t"
  define tm1 where "tm1 = upd i (\<lambda>_. t') (tm\<lparr>tm_app := snd (uas_out ev i now tm)\<rparr>)"
  define d where "d = tmr_due_at_ms (x_timer t')"
  define s where "s = ob_next_send_at_ms (x_outbound t')"
  have vb: "unat v < 2 ^ 32" using unsigned_less[of v] by simp
  have de: "d = now + ucast v" using assms(4) by (simp add: d_def t'_def resent_sel v_def)
  have "(ucast v :: time_ms) = of_nat (unat v)" by (simp add: word_unat_eq_iff unsigned_ucast_eq unat_of_nat)
  then have du: "unat d = unat now + unat v" unfolding de using time_later[of now "unat v"] assms(7) vb by simp
  define b where "b = backoff (unat (x_retransmit_count ?t + 1) - 1) (x_timers ?t)"
  have b: "0 < b" "b < 2 ^ 32" unfolding b_def using assms(2) backoff_bounds by (auto simp: rejecting_def)
  have su: "unat s = unat now + b"
    unfolding s_def t'_def resent_sel b_def[symmetric] using assms(7) b by (intro time_later) simp_all
  have dn: "d \<noteq> USIPY_SIP_TM_TIME_NONE" "s \<noteq> USIPY_SIP_TM_TIME_NONE"
    using du su b vb assms(7) by (auto intro!: time_not_none)
  have lt: "now < tmr_due_at_ms (x_timer ?t)" using assms(4,7) time_not_none[of now]
    by (auto simp: order.strict_iff_order)
  have run: "usipy_sip_tm_uas_run ev i now (Some run_out_zero) tm =
      Some (0, Some (run_out_min d (run_out_min s (run_out_zero\<lparr>ro_nsent := 1\<rparr>))), tm1)"
    using resend_run[OF assms(1,2) network_out[OF assms(6)] lt, of run_out_zero] assms(5)
    unfolding tm1_def t'_def[symmetric] Let_def s_def d_def by (simp add: run_out_zero_def)
  have m: "min s d \<noteq> USIPY_SIP_TM_TIME_NONE" using dn by (simp add: min_def)
  have L: "pump_loop ev i (unat v + 2) now tm = pump_loop ev i (unat v + 1) (min s d) tm1"
    using run run_out_min_zero[OF dn(2,1)] m by (simp add: numeral_2_eq_2)
  have t1: "txn tm1 i = t'" using assms(1) by (simp add: tm1_def)
  have "\<exists>tm'. pump_loop ev i (unat v + 1) (min s d) tm1 = Some (d, tm') \<and> x_state (txn tm' i) = USIPY_SIP_TM_STATE_TERMINATED"
  proof (rule pump_ends)
    show "i < max_transactions tm1" using assms(1) by (simp add: tm1_def)
    show "rejecting (txn tm1 i)" "scb_no_ack (x_uas_callbacks (txn tm1 i)) = None"
      using assms(2,3) unfolding t1 by (simp_all add: t'_def resent_sel)
    show "tmr_due_at_ms (x_timer (txn tm1 i)) = d" by (simp add: t1 d_def)
    show "unat d < 2 ^ 62" using du vb assms(7) by simp
    show "ob_next_send_at_ms (x_outbound (txn tm1 i)) \<le> min s d \<or> min s d = d"
      unfolding t1 s_def[symmetric] by (auto simp: min_def)
    have "unat now \<le> unat (min s d)" using su du by (simp add: min_def)
    then show "unat d - unat (min s d) < unat v + 1" using du by simp
  qed (use assms(6) in auto)
  then show ?thesis using L de by (simp add: v_def)
qed

end
