(* ===== verification/Transaction_Properties.thy ===== *)
theory Transaction_Properties
  imports Usipy_Tmlive Message_Properties
begin

unbundle bit_operations_syntax

text \<open>
  The properties of the transaction manager and its server transactions, each with a witness.
\<close>

subsection \<open>Construction and reachable states\<close>











subsection \<open>Responses\<close>

text \<open>Values that can be read back from the text.\<close>

definition reply_plain :: "string \<Rightarrow> string \<Rightarrow> usipy_sip_tm_txi \<Rightarrow> usipy_sip_tm_uas_response_params \<Rightarrow> bool" where
  "reply_plain server luri t rpp \<longleftrightarrow> 100 \<le> unat (st_code (urp_status rpp)) \<and> unat (st_code (urp_status rpp)) \<le> 999 \<and>
     cut_line (st_reason_phrase (urp_status rpp)) = None \<and> list_all plain_hdr (uas_headers server luri t rpp)"

lemma reply_read_back:
  assumes "reply_plain server luri t rpp"
  shows "wire_message (uas_text server luri t rpp) = Some (status_text ''SIP/2.0'' (urp_status rpp), USIPY_SIP_MSG_RES,
    SL_status \<lparr>sl_version = ''SIP/2.0'', sl_status = urp_status rpp\<rparr>, map read_hdr (uas_headers server luri t rpp),
    opt_text (urp_body rpp))"
proof -
  have v: "ieq ''SIP/2.0'' ''SIP/2.0''" by (simp add: ieq_def)
  have n: "uas_headers server luri t rpp \<noteq> []" by (simp add: uas_headers_def Let_def)
  show ?thesis
    unfolding uas_text_def using assms n
    by (intro wire_message_written status_text_line sline_of_status_text v)
      (simp_all add: reply_plain_def list_all_iff)
qed

text \<open>
  C6: \<open>usipy_sip_tm_send_uas_response\<close> never aborts on a valid transaction and keeps it valid. After a
  final response every other is refused and nothing changes; a response that does not fit is refused
  and leaves state and status as they were; any other is stored in the slot as the text the headers of the request,
  the status and the parameters determine, which reads back as that message, and is due at once.
\<close>

theorem uas_response_spec:
  assumes "tm_inv tm" "i < max_transactions tm" "x_active (txn tm i)" "x_role (txn tm i) = USIPY_SIP_TM_ROLE_UAS"
    "response_ok rpp"
  shows "\<exists>r tm'. usipy_sip_tm_send_uas_response ev tm i rpp = Some (r, tm') \<and> tm_inv tm' \<and>
    (let t = txn tm i; t' = txn tm' i; code = st_code (urp_status rpp);
         msg = slice_read (x_scratch t') (ob_raw (x_outbound t')) in
     if \<not> open_uas t then r = USIPY_SIP_TM_ERR_UNSUPPORTED \<and> tm' = tm
     else if \<not> uas_sendable (ev_server ev) (tm_luri tm) t rpp
     then r = USIPY_SIP_TM_ERR_NOSPC \<and> x_state t' = x_state t \<and> x_last_status_code t' = x_last_status_code t
     else r = USIPY_SIP_TM_OK \<and> msg = uas_text (ev_server ev) (tm_luri tm) t rpp \<and>
       x_state t' = response_class t code \<and> (open_uas t' \<longleftrightarrow> code < 200) \<and>
       ob_next_send_at_ms (x_outbound t') = 0 \<and>
       (reply_plain (ev_server ev) (tm_luri tm) t rpp \<longrightarrow>
          wire_message msg = Some (status_text ''SIP/2.0'' (urp_status rpp), USIPY_SIP_MSG_RES,
            SL_status \<lparr>sl_version = ''SIP/2.0'', sl_status = urp_status rpp\<rparr>,
            map read_hdr (uas_headers (ev_server ev) (tm_luri tm) t rpp), opt_text (urp_body rpp))))"
proof -
  have t: "slot_ok (txn tm i)" "uas_inv (txn tm i)" using tm_inv_slot[OF assms(1,2)] assms(3,4) by auto
  have ok: "extras_known rpp" "st_code (urp_status rpp) < 65536" using assms(5) by (simp_all add: response_ok_def)
  have inv: "tm_inv tm'" if "usipy_sip_tm_send_uas_response ev tm i rpp = Some (r, tm')" for r tm'
    using send_response_sound[OF that assms(5)] assms(1) by (simp add: sound_def)
  show ?thesis
    using assms(2-4) t ok(1)
  proof (cases rule: send_response_cases[where ev = ev])
    case final
    then show ?thesis using inv[OF final(2)] by simp
  next
    case (refused h)
    then show ?thesis using inv[OF refused(3)] assms(2) by (simp add: Let_def)
  next
    case (sent h sl t')
    note S = response_state_same[OF sent(4)]
    have st: "x_state t' = response_class (txn tm i) (st_code (urp_status rpp))"
      by (cases rule: response_state_cases[OF sent(4)]) (simp_all add: response_class_def)
    have op: "open_uas t' \<longleftrightarrow> st_code (urp_status rpp) < 200"
      using resp_code(1)[OF ok(2)] S(2) st by (auto simp: open_uas_def response_class_def)
    have m: "slice_read (x_scratch t') (ob_raw (x_outbound t')) = uas_text (ev_server ev) (tm_luri tm) (txn tm i) rpp"
      using S(1,4) sent(5) by (simp add: same_slot_def)
    show ?thesis
      using inv[OF sent(3)] sent(1-3) st op m S(4) reply_read_back assms(2) by (simp add: Let_def)
  qed
qed

text \<open>A manager with one transaction: an INVITE that is to be answered.\<close>

definition sample_tid :: "nat \<Rightarrow> usipy_sip_tid" where
  "sample_tid m = \<lparr>tid_hash = 7, tid_call_id = ''c'', tid_from_tag = ''f'',
     tid_cseq = \<lparr>cseq_onwire_method = [], cseq_val = 1, cseq_method = m\<rparr>, tid_vbranch = ''z''\<rparr>"

definition sample_new :: "nat \<Rightarrow> usipy_sip_tm_txi" where
  "sample_new m = (blank_slot 64)
     \<lparr>x_call_id := ''c'', x_branch := Kept ''z'', x_from_tag := Kept ''f'', x_to_tag := ''t0-1'',
      x_cseq := tid_cseq (sample_tid m), x_method_type := m,
      x_uas := (x_uas (blank_slot 64))\<lparr>sc_from := ''<sip:a@h>;tag=f'', sc_to := ''<sip:b@h>'',
        sc_vias := [''SIP/2.0/UDP h;branch=z'']\<rparr>\<rparr>"

definition sample_open :: "nat \<Rightarrow> usipy_sip_tm_txi" where
  "sample_open m = the (uas_activate USIPY_SIP_TM_TRANSPORT_UDP None (sample_tid m) (sample_new m))"

definition sample_tm :: "usipy_sip_tm_txi \<Rightarrow> unit usipy_sip_tm" where
  "sample_tm t = \<lparr>tm_transport = USIPY_SIP_TM_TRANSPORT_UDP, tm_nactive = 1,
     tm_heap = usipy_msg_heap_init 1384 (replicate 512 NUL) 512 [] 0, tm_laddr = addr_zero, tm_luri = ''sip:h'',
     tm_default_via = \<lparr>via_proto_name = [], via_proto_version = [], via_transport = [], via_host = [],
       via_port = 0, via_params = []\<rparr>,
     tm_default_from = \<lparr>na_display_name = [], na_addr_spec = [], na_params = []\<rparr>,
     tm_default_to = \<lparr>na_display_name = [], na_addr_spec = [], na_params = []\<rparr>,
     tm_default_contact = \<lparr>na_display_name = [], na_addr_spec = [], na_params = []\<rparr>,
     tm_incoming_request = None, tm_callbacks_arg = 0, tm_id_policy = None, tm_id_policy_arg = 0,
     tm_transactions = [t], tm_app = ()\<rparr>"

lemma sample_activate:
  assumes "m \<noteq> USIPY_SIP_METHOD_ACK"
  shows "uas_activate USIPY_SIP_TM_TRANSPORT_UDP None (sample_tid m) (sample_new m) = Some (sample_open m)"
  "slot_ok (sample_open m)" "uas_inv (sample_open m)" "x_active (sample_open m)"
  "x_role (sample_open m) = USIPY_SIP_TM_ROLE_UAS" "x_parent_index (sample_open m) = None"
  "x_state (sample_open m) = USIPY_SIP_TM_STATE_TRYING" "x_method_type (sample_open m) = m"
proof -
  have n: "slot_ok (sample_new m)" "mh_checkpoint_top (x_scratch (sample_new m)) = 0"
    "tmr_type (x_timer (sample_new m)) = USIPY_SIP_TM_TIMER_NONE" "kept (x_branch (sample_new m))"
    "kept (x_from_tag (sample_new m))" "x_method_type (sample_new m) \<noteq> USIPY_SIP_METHOD_ACK"
    using blank_ok[of 64] assms by (simp_all add: sample_new_def slot_ok_def) (simp_all add: blank_slot_def slot_zero_def Let_def
        init_aligned)
  from n obtain t where "uas_activate USIPY_SIP_TM_TRANSPORT_UDP None (sample_tid m) (sample_new m) = Some t"
    "slot_ok t" "uas_inv t" "x_active t" "x_role t = USIPY_SIP_TM_ROLE_UAS"
    "x_parent_index t = x_parent_index (sample_new m)" "x_state t = USIPY_SIP_TM_STATE_TRYING"
    "x_method_type t = x_method_type (sample_new m)"
    by (rule activate_spec)
  then show "uas_activate USIPY_SIP_TM_TRANSPORT_UDP None (sample_tid m) (sample_new m) = Some (sample_open m)"
    "slot_ok (sample_open m)" "uas_inv (sample_open m)" "x_active (sample_open m)"
    "x_role (sample_open m) = USIPY_SIP_TM_ROLE_UAS" "x_parent_index (sample_open m) = None"
    "x_state (sample_open m) = USIPY_SIP_TM_STATE_TRYING" "x_method_type (sample_open m) = m"
    by (simp_all add: sample_open_def sample_new_def blank_slot_def slot_zero_def Let_def)
qed

lemma sample_tm_sel [simp]:
  "tm_transactions (sample_tm t) = [t]" "tm_luri (sample_tm t) = ''sip:h''" "tm_app (sample_tm t) = ()"
  by (simp_all add: sample_tm_def)

lemma sample_inv: "m \<noteq> USIPY_SIP_METHOD_ACK \<Longrightarrow> tm_inv (sample_tm (sample_open m))"
  using sample_activate[of m] by (simp add: tm_inv_def slots_ok_def)

lemma sample_inv_invite: "tm_inv (sample_tm (sample_open USIPY_SIP_METHOD_INVITE))"
  by (simp add: sample_inv)

lemma sample_fields:
  "x_last_status_code (sample_open m) = 0" "\<not> reliable (sample_open m)" "t1_ms (x_timers (sample_open m)) = 500"
  "x_uas (sample_open m) = (x_uas (sample_new m))\<lparr>sc_cancel_hash := 0\<rparr>" "x_call_id (sample_open m) = ''c''"
  "x_cseq (sample_open m) = tid_cseq (sample_tid m)" "x_to_tag (sample_open m) = ''t0-1''" "uas_room (sample_open m) = 4096"
  by (simp_all add: sample_open_def uas_activate_def sample_new_def blank_slot_def slot_zero_def Let_def
      init_aligned usipy_msg_heap_checkpoint_def has_flag_def usipy_sip_tm_timer_policy_resolve_def
      USIPY_SIP_TM_TIMER_POLICY_RFC3261_def policy_zero_def uas_callbacks_zero_def sample_tid_def uas_room_def up8_def)

definition busy :: usipy_sip_tm_uas_response_params where
  "busy = response_of_status usipy_sip_res_busy_here"

lemma quiet_server: "ev_server quiet_env = ''microsippy''"
  by (simp add: quiet_env_def)

lemma busy_sendable: "uas_sendable ''microsippy'' ''sip:h'' (sample_open USIPY_SIP_METHOD_INVITE) busy"
  by (simp add: uas_sendable_def uas_text_def uas_headers_def Let_def sample_fields sample_new_def busy_def response_of_status_def usipy_sip_res_busy_here_def hdr_text_def lines_text_def
      usipy_sip_tm_uas_copy_record_route_def usipy_sip_tm_uas_include_to_tag_def opt_text_def status_text_def scode2str_def sample_activate sample_tid_def) code_simp

lemma uas_response_spec_witness:
  "\<exists>tm'. usipy_sip_tm_send_uas_response quiet_env (sample_tm (sample_open USIPY_SIP_METHOD_INVITE)) 0 busy =
       Some (USIPY_SIP_TM_OK, tm') \<and> tm_inv tm'"
proof -
  have "response_ok busy" by (simp add: response_ok_def busy_def response_of_status_def extras_known_def
        usipy_sip_res_busy_here_def opt_text_def)
  moreover have op: "open_uas (sample_open USIPY_SIP_METHOD_INVITE)"
    using sample_activate(7) by (simp add: open_uas_def sample_fields)
  ultimately show ?thesis
    using uas_response_spec[OF sample_inv_invite, of 0 busy quiet_env] busy_sendable
      sample_activate(4,5)[of USIPY_SIP_METHOD_INVITE]
    by (auto simp: Let_def quiet_server)
qed

subsection \<open>An INVITE answered with an error\<close>

lemma rejected_callback:
  assumes "uas_response_state rpp t = Some t'" "x_method_type t = USIPY_SIP_METHOD_INVITE"
    "\<not> st_code (urp_status rpp) < 300" "urp_callbacks rpp = None"
  shows "scb_no_ack (x_uas_callbacks t') = None"
proof -
  have "\<not> st_code (urp_status rpp) < 200" using assms(3) by (auto simp: not_less intro: order_trans[of _ 300])
  then have e: "(st_code (urp_status rpp) < 200) = False" "(st_code (urp_status rpp) < 300) = False"
    "(300 \<le> st_code (urp_status rpp)) = True" using assms(3) by simp_all
  show ?thesis
    using assms(1) unfolding uas_response_state_def Let_def e if_False if_True simp_thms
    by (simp add: assms(2,4) tm_steps usipy_sip_tm_timer_h_ms_def uas_callbacks_zero_def) (elim conjE, hypsubst, simp)
qed

text \<open>The transaction once such a response was taken.\<close>

definition rejects :: "usipy_sip_tm_uas_response_params \<Rightarrow> usipy_sip_tm_txi \<Rightarrow> bool" where
  "rejects rpp t \<longleftrightarrow> x_active t \<and> x_role t = USIPY_SIP_TM_ROLE_UAS \<and> open_uas t \<and> \<not> reliable t \<and>
     x_method_type t = USIPY_SIP_METHOD_INVITE \<and> st_code (urp_status rpp) \<ge> 300 \<and> urp_callbacks rpp = None"

lemma rejected_slot:
  assumes "tm_inv tm" "i < max_transactions tm" "rejects rpp (txn tm i)" "response_ok rpp"
    "uas_sendable (ev_server ev) (tm_luri tm) (txn tm i) rpp"
  obtains tm1 where "usipy_sip_tm_send_uas_response ev tm i rpp = Some (USIPY_SIP_TM_OK, tm1)" "rejecting (txn tm1 i)"
    "max_transactions tm1 = max_transactions tm" "scb_no_ack (x_uas_callbacks (txn tm1 i)) = None"
    "tmr_due_at_ms (x_timer (txn tm1 i)) = USIPY_SIP_TM_TIME_NONE"
    "tmr_value_ms (x_timer (txn tm1 i)) = t1_ms (x_timers (txn tm i)) * 64" "ob_next_send_at_ms (x_outbound (txn tm1 i)) = 0"
    "x_retransmit_count (txn tm1 i) = x_retransmit_count (txn tm i)" "x_timers (txn tm1 i) = x_timers (txn tm i)"
proof -
  let ?t = "txn tm i"
  have t: "slot_ok ?t" "uas_inv ?t" using tm_inv_slot[OF assms(1,2)] assms(3) by (auto simp: rejects_def)
  have r: "x_active ?t" "x_role ?t = USIPY_SIP_TM_ROLE_UAS" "open_uas ?t" "\<not> reliable ?t"
    "x_method_type ?t = USIPY_SIP_METHOD_INVITE" "300 \<le> st_code (urp_status rpp)" "urp_callbacks rpp = None"
    using assms(3) by (simp_all add: rejects_def)
  have ok: "extras_known rpp" "st_code (urp_status rpp) < 65536" using assms(4) by (simp_all add: response_ok_def)
  show thesis
    using assms(2) r(1,2) t ok(1)
  proof (cases rule: send_response_cases[where ev = ev])
    case (sent h sl t')
    note S = response_state_same[OF sent(4)]
    have b: "x_state t' = USIPY_SIP_TM_STATE_COMPLETED \<and> x_timer t' = \<lparr>tmr_type = USIPY_SIP_TM_TIMER_H,
        tmr_value_ms = t1_ms (x_timers ?t) * 64, tmr_due_at_ms = USIPY_SIP_TM_TIME_NONE\<rparr>"
      using r(5,6) order.trans[OF r(6), of "199 :: uint32"]
      by (cases rule: response_state_cases[OF sent(4)]) (auto simp: not_less[symmetric] dest: less_trans[of _ "200 :: uint32" 300])
    have "rejecting t'"
      using r S b t(2) resp_code(4)[OF ok(2)] by (simp add: rejecting_def same_slot_def uas_inv_def)
    moreover have "scb_no_ack (x_uas_callbacks t') = None"
      using r by (intro rejected_callback[OF sent(4)]) simp_all
    moreover have "x_timers t' = x_timers ?t" using S(1) by (simp add: same_slot_def)
    ultimately show thesis
      using sent(3) assms(2) b S by (intro that[of "upd i (\<lambda>_. t') tm"]) simp_all
  qed (use r(3) assms(5) in auto)
qed

subsection \<open>Retransmissions\<close>

text \<open>
  C7: a due run of the pump on an INVITE answered with an error sends the stored response once more,
  counts it, and asks to be run again after T1 doubled with every transmission, T2 at most, or when Timer H
  is due, which the first transmission starts.
\<close>

theorem uas_retransmission_spec:
  assumes "i < max_transactions tm" "rejecting (txn tm i)" "network_up ev"
    "now < tmr_due_at_ms (x_timer (txn tm i))" "ob_next_send_at_ms (x_outbound (txn tm i)) \<le> now"
    "unat now < 2 ^ 62" "unat (tmr_due_at_ms (x_timer (txn tm i))) < 2 ^ 63 \<or> tmr_due_at_ms (x_timer (txn tm i)) = USIPY_SIP_TM_TIME_NONE"
  shows "\<exists>out tm'. usipy_sip_tm_uas_run ev i now (Some run_out_zero) tm = Some (0, Some out, tm') \<and>
    (let t = txn tm i; t' = txn tm' i;
         delay = backoff (unat (x_retransmit_count t + 1) - 1) (x_timers t);
         due = (if tmr_due_at_ms (x_timer t) = USIPY_SIP_TM_TIME_NONE then now + ucast (tmr_value_ms (x_timer t))
                else tmr_due_at_ms (x_timer t)) in
     tm_app tm' = snd (ev_send_to ev i (ob_target (x_outbound t)) (slice_read (x_scratch t) (ob_raw (x_outbound t))) (tm_app tm)) \<and>
     ro_nsent out = 1 \<and> x_retransmit_count t' = x_retransmit_count t + 1 \<and> rejecting t' \<and>
     unat (ob_next_send_at_ms (x_outbound t')) = unat now + delay \<and> tmr_due_at_ms (x_timer t') = due \<and>
     ro_next_run_at_ms out = min (ob_next_send_at_ms (x_outbound t')) due \<and>
     (\<forall>j. j \<noteq> i \<longrightarrow> txn tm' j = txn tm j))"
proof -
  let ?t = "txn tm i" and ?u = "resent now (txn tm i)"
  have b: "0 < backoff n (x_timers ?t)" "backoff n (x_timers ?t) < 2 ^ 32" for n
    using assms(2) backoff_bounds by (auto simp: rejecting_def)
  have st: "x_state ?t \<noteq> USIPY_SIP_TM_STATE_ACCEPTED" using assms(2) by (simp add: rejecting_def)
  have v: "unat (ucast (tmr_value_ms (x_timer ?t)) :: time_ms) < 2 ^ 32"
  proof -
    have "unat (tmr_value_ms (x_timer ?t)) < 2 ^ 32" using unsigned_less[of "tmr_value_ms (x_timer ?t)"] by simp
    then show ?thesis by (simp add: unsigned_ucast_eq take_bit_nat_eq_self)
  qed
  have "unat (now + ucast (tmr_value_ms (x_timer ?t))) = unat now + unat (ucast (tmr_value_ms (x_timer ?t)) :: time_ms)"
    using assms(6) v by (subst unat_add_lem[THEN iffD1]) simp_all
  then have dn: "tmr_due_at_ms (x_timer ?u) \<noteq> USIPY_SIP_TM_TIME_NONE"
    using assms(6,7) v by (intro time_not_none) (auto simp: resent_sel)
  have s: "unat (ob_next_send_at_ms (x_outbound ?u)) = unat now + backoff (unat (x_retransmit_count ?t + 1) - 1) (x_timers ?t)"
    unfolding resent_sel using assms(6) b by (intro time_later) simp_all
  then have sn: "ob_next_send_at_ms (x_outbound ?u) \<noteq> USIPY_SIP_TM_TIME_NONE"
    using assms(6) b(2)[of "unat (x_retransmit_count ?t + 1) - 1"] by (intro time_not_none) simp
  have nn: "ob_next_send_at_ms (x_outbound ?t) \<noteq> USIPY_SIP_TM_TIME_NONE"
    using assms(5,6) by (intro time_not_none) (simp add: word_le_nat_alt)
  have o: "uas_out ev i now tm =
      ev_send_to ev i (ob_target (x_outbound ?t)) (slice_read (x_scratch ?t) (ob_raw (x_outbound ?t))) (tm_app tm)"
    using st assms(1) by (simp add: uas_out_def uas_started_def uas_start_timer_l_def Let_def)
  define u where "u = ?u"
  define out where "out = run_out_min (tmr_due_at_ms (x_timer u)) (run_out_min (ob_next_send_at_ms (x_outbound u))
    (run_out_zero\<lparr>ro_nsent := 1\<rparr>))"
  have out: "ro_nsent out = 1" "ro_next_run_at_ms out = min (ob_next_send_at_ms (x_outbound u)) (tmr_due_at_ms (x_timer u))"
    using run_out_min_zero[OF sn dn] by (simp_all add: out_def u_def) (simp add: run_out_min_def run_out_zero_def)
  have run: "usipy_sip_tm_uas_run ev i now (Some run_out_zero) tm =
      Some (0, Some out, upd i (\<lambda>_. u) (tm\<lparr>tm_app := snd (uas_out ev i now tm)\<rparr>))"
    using resend_run[OF assms(1,2) network_out[OF assms(3)] assms(4,5) nn, of run_out_zero]
    by (simp add: out_def u_def Let_def run_out_zero_def)
  have u: "x_retransmit_count u = x_retransmit_count ?t + 1" "rejecting u"
    "tmr_due_at_ms (x_timer u) = (if tmr_due_at_ms (x_timer ?t) = USIPY_SIP_TM_TIME_NONE
       then now + ucast (tmr_value_ms (x_timer ?t)) else tmr_due_at_ms (x_timer ?t))"
    using assms(2) by (simp_all add: u_def resent_sel)
  show ?thesis
    using run out u s[folded u_def] o assms(1) by (simp add: Let_def)
qed

lemma sample_rejects: "rejects busy (sample_open USIPY_SIP_METHOD_INVITE)" "response_ok busy"
  using sample_activate[of USIPY_SIP_METHOD_INVITE]
  by (simp_all add: rejects_def open_uas_def sample_fields busy_def response_of_status_def usipy_sip_res_busy_here_def
      response_ok_def extras_known_def opt_text_def)

lemma quiet_network: "network_up quiet_env"
  by (simp add: network_up_def quiet_env_def)

lemma sample_rejected:
  obtains tm1 where "usipy_sip_tm_send_uas_response quiet_env (sample_tm (sample_open USIPY_SIP_METHOD_INVITE)) 0 busy =
      Some (USIPY_SIP_TM_OK, tm1)" "rejecting (txn tm1 0)" "0 < max_transactions tm1"
    "tmr_due_at_ms (x_timer (txn tm1 0)) = USIPY_SIP_TM_TIME_NONE" "ob_next_send_at_ms (x_outbound (txn tm1 0)) = 0"
proof -
  have m: "0 < max_transactions (sample_tm (sample_open USIPY_SIP_METHOD_INVITE))" by simp
  have r: "rejects busy (txn (sample_tm (sample_open USIPY_SIP_METHOD_INVITE)) 0)"
    "uas_sendable (ev_server quiet_env) (tm_luri (sample_tm (sample_open USIPY_SIP_METHOD_INVITE)))
       (txn (sample_tm (sample_open USIPY_SIP_METHOD_INVITE)) 0) busy"
    by (simp_all add: sample_rejects busy_sendable quiet_server)
  obtain tm1 where "usipy_sip_tm_send_uas_response quiet_env (sample_tm (sample_open USIPY_SIP_METHOD_INVITE)) 0 busy =
      Some (USIPY_SIP_TM_OK, tm1)" "rejecting (txn tm1 0)"
    "max_transactions tm1 = max_transactions (sample_tm (sample_open USIPY_SIP_METHOD_INVITE))"
    "tmr_due_at_ms (x_timer (txn tm1 0)) = USIPY_SIP_TM_TIME_NONE" "ob_next_send_at_ms (x_outbound (txn tm1 0)) = 0"
    using rejected_slot[OF sample_inv_invite m r(1) sample_rejects(2) r(2)] by metis
  then show thesis using m by (intro that) (simp_all only:)
qed

lemma uas_retransmission_spec_witness:
  "\<exists>tm1 out tm2. usipy_sip_tm_send_uas_response quiet_env (sample_tm (sample_open USIPY_SIP_METHOD_INVITE)) 0 busy =
      Some (USIPY_SIP_TM_OK, tm1) \<and>
    usipy_sip_tm_uas_run quiet_env 0 1000 (Some run_out_zero) tm1 = Some (0, Some out, tm2) \<and> ro_nsent out = 1"
proof -
  obtain tm1 where 1: "usipy_sip_tm_send_uas_response quiet_env (sample_tm (sample_open USIPY_SIP_METHOD_INVITE)) 0 busy =
      Some (USIPY_SIP_TM_OK, tm1)" "rejecting (txn tm1 0)" "0 < max_transactions tm1"
    "tmr_due_at_ms (x_timer (txn tm1 0)) = USIPY_SIP_TM_TIME_NONE" "ob_next_send_at_ms (x_outbound (txn tm1 0)) = 0"
    by (rule sample_rejected)
  have "(1000 :: time_ms) < USIPY_SIP_TM_TIME_NONE" by simp
  then show ?thesis
    using uas_retransmission_spec[OF 1(3,2) quiet_network, of 1000] 1(1,4,5) by (auto simp: Let_def)
qed

text \<open>
  C5: an INVITE that was answered with an error always comes to its end: when the network takes what is
  sent and no ACK comes, the pump, run at once and then each time it asks for, terminates the
  transaction exactly 64 times T1 after the first transmission, and nothing remains to be sent.
\<close>

theorem rejected_invite_terminates:
  assumes "tm_inv tm" "i < max_transactions tm" "rejects rpp (txn tm i)" "response_ok rpp"
    "uas_sendable (ev_server ev) (tm_luri tm) (txn tm i) rpp" "network_up ev" "unat now < 2 ^ 61"
  shows "\<exists>tm1 tm'. usipy_sip_tm_send_uas_response ev tm i rpp = Some (USIPY_SIP_TM_OK, tm1) \<and>
    (let h = t1_ms (x_timers (txn tm i)) * 64 in
     pump_loop ev i (unat h + 2) now tm1 = Some (now + ucast h, tm') \<and>
     x_state (txn tm' i) = USIPY_SIP_TM_STATE_TERMINATED)"
proof -
  obtain tm1 where 1: "usipy_sip_tm_send_uas_response ev tm i rpp = Some (USIPY_SIP_TM_OK, tm1)" "rejecting (txn tm1 i)"
    "max_transactions tm1 = max_transactions tm" "scb_no_ack (x_uas_callbacks (txn tm1 i)) = None"
    "tmr_due_at_ms (x_timer (txn tm1 i)) = USIPY_SIP_TM_TIME_NONE"
    "tmr_value_ms (x_timer (txn tm1 i)) = t1_ms (x_timers (txn tm i)) * 64" "ob_next_send_at_ms (x_outbound (txn tm1 i)) = 0"
    using rejected_slot[OF assms(1-5)] by metis
  have "\<exists>tm'. pump_loop ev i (unat (tmr_value_ms (x_timer (txn tm1 i))) + 2) now tm1 =
      Some (now + ucast (tmr_value_ms (x_timer (txn tm1 i))), tm') \<and> x_state (txn tm' i) = USIPY_SIP_TM_STATE_TERMINATED"
    using 1(2-5,7) assms(2,6,7) by (intro pump_from_start) simp_all
  then show ?thesis using 1(1,6) by (auto simp: Let_def)
qed

lemma rejected_invite_terminates_witness:
  "\<exists>tm1 tm'. usipy_sip_tm_send_uas_response quiet_env (sample_tm (sample_open USIPY_SIP_METHOD_INVITE)) 0 busy =
      Some (USIPY_SIP_TM_OK, tm1) \<and> pump_loop quiet_env 0 (unat (32000 :: uint32) + 2) 5 tm1 = Some (32005, tm') \<and>
    x_state (txn tm' 0) = USIPY_SIP_TM_STATE_TERMINATED"
proof -
  have m: "0 < max_transactions (sample_tm (sample_open USIPY_SIP_METHOD_INVITE))" by simp
  have r: "rejects busy (txn (sample_tm (sample_open USIPY_SIP_METHOD_INVITE)) 0)"
    "uas_sendable (ev_server quiet_env) (tm_luri (sample_tm (sample_open USIPY_SIP_METHOD_INVITE)))
       (txn (sample_tm (sample_open USIPY_SIP_METHOD_INVITE)) 0) busy"
    by (simp_all add: sample_rejects busy_sendable quiet_server)
  have t: "t1_ms (x_timers (txn (sample_tm (sample_open USIPY_SIP_METHOD_INVITE)) 0)) * 64 = 32000"
    by (simp add: sample_fields)
  have n: "unat (5 :: time_ms) < 2 ^ 61" "(5 :: time_ms) + ucast (32000 :: uint32) = 32005" by simp_all
  show ?thesis
    using rejected_invite_terminates[OF sample_inv_invite m r(1) sample_rejects(2) r(2) quiet_network n(1)]
    unfolding Let_def t n(2) .
qed

subsection \<open>Slots and requests seen before\<close>

text \<open>
  C8: allocation fails, and changes nothing, exactly when every slot holds a transaction that may
  not go. It takes a free slot if there is one; otherwise the evictable transaction that would go first
  makes room, with its children, and every other transaction stays as it is up to its link to a child.
\<close>

theorem alloc_slot_evicts:
  assumes "usipy_sip_tm_alloc_slot tm = (r, tm')"
  shows "(r = None \<longleftrightarrow> (\<forall>j<max_transactions tm. x_active (txn tm j) \<and> \<not> usipy_sip_tm_tx_evictable (txn tm j))) \<and>
    (case r of
       None \<Rightarrow> tm' = tm
     | Some i \<Rightarrow> i < max_transactions tm \<and> \<not> x_active (txn tm' i) \<and>
         (if \<exists>j<max_transactions tm. \<not> x_active (txn tm j) then \<not> x_active (txn tm i)
          else usipy_sip_tm_tx_evictable (txn tm i) \<and>
            (\<forall>j<max_transactions tm. usipy_sip_tm_tx_evictable (txn tm j) \<longrightarrow> slot_due (txn tm i) \<le> slot_due (txn tm j))) \<and>
         (\<forall>j<max_transactions tm. j \<noteq> i \<longrightarrow> x_active (txn tm i) \<and> child_of tm i j \<or>
            (\<exists>c. txn tm' j = (txn tm j)\<lparr>x_child_index := c\<rparr>)))"
proof (cases rule: alloc_slot_spec[of tm])
  case (free i)
  then have e: "r = Some i" "tm' = upd i usipy_sip_tm_tx_reset tm" using assms by simp_all
  have "\<exists>c. t = t\<lparr>x_child_index := c\<rparr>" for t :: usipy_sip_tm_txi by (rule exI[of _ "x_child_index t"]) simp
  then show ?thesis using free e by auto
next
  case (evicted i tm1)
  then have e: "r = Some i" "tm' = upd i usipy_sip_tm_tx_reset tm1" using assms by simp_all
  have a: "x_active (txn tm i)" "x_parent_index (txn tm i) = None" using evictable_active[OF evicted(4)] by simp_all
  then obtain n where d: "usipy_sip_tm_drop_transaction tm i = (USIPY_SIP_TM_OK,
      with_slots tm n (map (dropped_slot tm i) [0..<max_transactions tm]))"
    using drop_spec[OF evicted(2)] by (metis option.distinct(1))
  then have t1: "tm1 = with_slots tm n (map (dropped_slot tm i) [0..<max_transactions tm])" using evicted(6) by simp
  have k: "child_of tm i j \<or> (\<exists>c. txn tm' j = (txn tm j)\<lparr>x_child_index := c\<rparr>)" if "j < max_transactions tm" "j \<noteq> i" for j
  proof (cases "child_of tm i j")
    case False
    then have "dropped_slot tm i j = txn tm j" using that(2) a(2) by (simp add: dropped_slot_def Let_def)
    then show ?thesis using that evicted(2) by (auto simp: e(2) t1 intro: exI[of _ "x_child_index (txn tm j)"])
  qed simp
  show ?thesis using evicted(2-5) a(1) k e t1 by auto
next
  case full
  then show ?thesis using assms by auto
qed

lemma alloc_slot_evicts_witness:
  "\<exists>i tm'. usipy_sip_tm_alloc_slot (sample_tm (usipy_sip_tm_uas_mark_terminated (sample_open USIPY_SIP_METHOD_BYE))) = (Some i, tm') \<and>
     \<not> x_active (txn tm' i)"
proof -
  let ?t = "usipy_sip_tm_uas_mark_terminated (sample_open USIPY_SIP_METHOD_BYE)"
  obtain r tm' where r: "usipy_sip_tm_alloc_slot (sample_tm ?t) = (r, tm')" by force
  have "usipy_sip_tm_tx_evictable ?t"
    using sample_activate(4,6)[of USIPY_SIP_METHOD_BYE]
    by (simp add: usipy_sip_tm_tx_evictable_def usipy_sip_tm_uas_mark_terminated_def tm_steps)
  then show ?thesis using alloc_slot_evicts[OF r] r by (auto split: option.splits)
qed





end
