(* ===== verification/Usipy_Tmdialog.thy ===== *)
theory Usipy_Tmdialog
  imports Usipy_Tmsteps
begin

unbundle bit_operations_syntax

text \<open>
  Component \<open>usipy_sip_tm_dialog\<close> (\<open>src/usipy_sip_tm_dialog.c\<close>): the parameters of a request inside a
  dialog, from the INVITE transaction that set it up and the response or request that answered it. The
  strings go to the heap of the caller. Also the parameters of the operations that open client
  transactions (\<open>public/usipy_sip_tm.h\<close>, \<open>usipy_sip_tm_internal.h\<close>); a pointer the code asserts is its
  value, another one an option.
\<close>

subsection \<open>Parameters\<close>

record usipy_sip_tm_request_id =
  rid_call_id :: "string option"
  rid_cseq :: uint32
  rid_method_type :: nat

record usipy_sip_tm_request_target =
  rt_request_uri :: "string option"
  rt_target :: "usipy_sip_tm_addr option"

record usipy_sip_tm_request_parties =
  rp_contact :: "string option"
  rp_from :: "string option"
  rp_to :: "string option"

record usipy_sip_tm_request_payload =
  pl_content_type :: "string option"
  pl_body :: "string option"

record usipy_sip_tm_dialog_tags =
  dt_local_tag :: "string option"
  dt_remote_tag :: "string option"

record usipy_sip_tm_new_uac_tr_params =
  nuc_request_id :: usipy_sip_tm_request_id
  nuc_request_target :: usipy_sip_tm_request_target
  nuc_local :: "usipy_sip_tm_addr option"
  nuc_parties_by_username :: usipy_sip_tm_request_parties
  nuc_contact_expires :: uint32
  nuc_invite_expires :: uint32
  nuc_payload :: "usipy_sip_tm_request_payload option"
  nuc_callbacks :: "usipy_sip_tm_uac_callbacks option"
  nuc_timers :: "usipy_sip_tm_timer_policy option"

record usipy_sip_tm_new_in_dialog_transaction_params =
  nid_request_id :: usipy_sip_tm_request_id
  nid_request_target :: usipy_sip_tm_request_target
  nid_local :: "usipy_sip_tm_addr option"
  nid_parties_by_uri :: usipy_sip_tm_request_parties
  nid_route_set :: "string list option"
  nid_dialog_tags :: usipy_sip_tm_dialog_tags
  nid_timers :: "usipy_sip_tm_timer_policy option"
  nid_callbacks :: "usipy_sip_tm_uac_callbacks option"

text \<open>The members that point into the structure itself are what they point to.\<close>

record usipy_sip_tm_dialog_request =
  dr_cseq :: uint32
  dr_method_type :: nat
  dr_request_target_addr :: usipy_sip_tm_addr
  dr_local :: usipy_sip_tm_addr
  dr_route_set :: "string list"
  dr_timers :: usipy_sip_tm_timer_policy
  dr_call_id :: string
  dr_request_uri :: string
  dr_contact_uri :: string
  dr_from_uri :: string
  dr_to_uri :: string
  dr_local_tag :: string
  dr_remote_tag :: string

definition usipy_sip_tm_dialog_request_init :: usipy_sip_tm_dialog_request where
  "usipy_sip_tm_dialog_request_init =
     \<lparr>dr_cseq = 0, dr_method_type = 0, dr_request_target_addr = addr_zero, dr_local = addr_zero,
      dr_route_set = [], dr_timers = policy_zero, dr_call_id = [], dr_request_uri = [], dr_contact_uri = [],
      dr_from_uri = [], dr_to_uri = [], dr_local_tag = [], dr_remote_tag = []\<rparr>"

definition usipy_sip_tm_dialog_request_get_params ::
  "usipy_sip_tm_dialog_request \<Rightarrow> usipy_sip_tm_new_in_dialog_transaction_params" where
  "usipy_sip_tm_dialog_request_get_params src =
     \<lparr>nid_request_id = \<lparr>rid_call_id = Some (dr_call_id src), rid_cseq = dr_cseq src,
        rid_method_type = dr_method_type src\<rparr>,
      nid_request_target = \<lparr>rt_request_uri = Some (dr_request_uri src),
        rt_target = Some (dr_request_target_addr src)\<rparr>,
      nid_local = Some (dr_local src),
      nid_parties_by_uri = \<lparr>rp_contact = Some (dr_contact_uri src), rp_from = Some (dr_from_uri src),
        rp_to = Some (dr_to_uri src)\<rparr>,
      nid_route_set = Some (dr_route_set src),
      nid_dialog_tags = \<lparr>dt_local_tag = Some (dr_local_tag src), dt_remote_tag = Some (dr_remote_tag src)\<rparr>,
      nid_timers = Some (dr_timers src), nid_callbacks = None\<rparr>"

subsection \<open>Steps on a heap\<close>

type_synonym 'b heap_result = "((usipy_sip_tm_error + 'b) \<times> usipy_msg_heap) abortable"

definition then_do :: "'b heap_result \<Rightarrow> ('b \<Rightarrow> usipy_msg_heap \<Rightarrow> 'c heap_result) \<Rightarrow> 'c heap_result" where
  "then_do m f = do {
     (r, mhp) \<leftarrow> m;
     case r of Inl e \<Rightarrow> Some (Inl e, mhp) | Inr v \<Rightarrow> f v mhp
   }"

definition heap_keep :: "usipy_msg_heap \<Rightarrow> string \<Rightarrow> string heap_result" where
  "heap_keep mhp s = do {
     dassert (c_object s);
     case usipy_msg_heap_append mhp s of
       (None, mhp) \<Rightarrow> Some (Inl USIPY_SIP_TM_ERR_NOSPC, mhp)
     | (Some sl, mhp) \<Rightarrow> Some (Inr (slice_read mhp sl), mhp)
   }"

definition heap_array :: "usipy_msg_heap \<Rightarrow> size_t \<Rightarrow> unit heap_result" where
  "heap_array mhp n =
     (case usipy_msg_heap_alloc mhp n of
        (None, mhp) \<Rightarrow> Some (Inl USIPY_SIP_TM_ERR_NOSPC, mhp)
      | (Some _, mhp) \<Rightarrow> Some (Inr (), mhp))"

fun heap_keep_all :: "string list \<Rightarrow> string list \<Rightarrow> usipy_msg_heap \<Rightarrow> string list heap_result" where
  "heap_keep_all [] acc mhp = Some (Inr acc, mhp)"
| "heap_keep_all (s # ss) acc mhp = then_do (heap_keep mhp s) (\<lambda>s. heap_keep_all ss (acc @ [s]))"

text \<open>An array of \<open>struct usipy_str\<close> is a C object: it has fewer than 2 to the 52 elements.\<close>

definition heap_strs :: "usipy_msg_heap \<Rightarrow> nat \<Rightarrow> unit heap_result" where
  "heap_strs mhp n = do { dassert (n < 2 ^ 52); heap_array mhp (of_nat (16 * n)) }"

text \<open>The parsers are run on strings that are C objects.\<close>

definition parse_uri_at :: "usipy_msg_heap \<Rightarrow> string \<Rightarrow> (usipy_sip_uri option \<times> usipy_msg_heap) abortable" where
  "parse_uri_at mhp s = do { dassert (c_object s); usipy_sip_uri_parse mhp s }"

text \<open>A URI that must parse and name a host.\<close>

definition heap_uri :: "usipy_msg_heap \<Rightarrow> string \<Rightarrow> usipy_sip_uri heap_result" where
  "heap_uri mhp s = do {
     (u, mhp) \<leftarrow> parse_uri_at mhp s;
     case u of
       None \<Rightarrow> Some (Inl USIPY_SIP_TM_ERR_BADMSG, mhp)
     | Some u \<Rightarrow>
         if length (uri_host u) = 0 then Some (Inl USIPY_SIP_TM_ERR_BADMSG, mhp) else Some (Inr u, mhp)
   }"

definition usipy_sip_tm_dialog_copy_addr ::
  "usipy_msg_heap \<Rightarrow> usipy_sip_tm_addr \<Rightarrow> usipy_sip_tm_addr heap_result" where
  "usipy_sip_tm_dialog_copy_addr mhp src =
     (if length (ad_host src) = 0 then Some (Inr src, mhp)
      else then_do (heap_keep mhp (ad_host src)) (\<lambda>s mhp. Some (Inr (src\<lparr>ad_host := s\<rparr>), mhp)))"

definition usipy_sip_tm_dialog_heap_str_dup :: "usipy_msg_heap \<Rightarrow> string \<Rightarrow> string heap_result" where
  "usipy_sip_tm_dialog_heap_str_dup mhp src =
     (if length src \<noteq> 0 then heap_keep mhp src else Some (Inr [], mhp))"

subsection \<open>The target of a dialog\<close>

definition usipy_sip_tm_dialog_uri_has_param :: "usipy_sip_uri \<Rightarrow> string \<Rightarrow> bool" where
  "usipy_sip_tm_dialog_uri_has_param up name = list_ex (\<lambda>p. tv_token p = name) (uri_parameters up)"

definition usipy_sip_tm_dialog_set_target_from_uri ::
  "usipy_sip_tm_addr \<Rightarrow> usipy_sip_uri \<Rightarrow> usipy_sip_tm_addr" where
  "usipy_sip_tm_dialog_set_target_from_uri base uri =
     (let target = base\<lparr>ad_host := uri_host uri\<rparr> in
      if uri_port uri \<noteq> 0 then target\<lparr>ad_port := ucast (uri_port uri)\<rparr>
      else target\<lparr>ad_port := (if ad_transport base = USIPY_SIP_TM_TRANSPORT_TLS then 5061 else 5060)\<rparr>)"

text \<open>A URI up to its headers.\<close>

definition cut_headers :: "string \<Rightarrow> string" where
  "cut_headers s = (case memchr CHR ''?'' s of None \<Rightarrow> s | Some q \<Rightarrow> take q s)"

text \<open>The results: request URI, target and route set.\<close>

definition dialog_target ::
  "usipy_sip_tm_addr \<Rightarrow> string \<Rightarrow> string \<Rightarrow> string list \<Rightarrow> usipy_msg_heap \<Rightarrow>
     (string \<times> usipy_sip_tm_addr \<times> string list) heap_result" where
  "dialog_target base target_uri request_uri route_set mhp =
     then_do (heap_uri mhp target_uri) (\<lambda>u mhp.
       Some (Inr (request_uri, usipy_sip_tm_dialog_set_target_from_uri base u, route_set), mhp))"

definition usipy_sip_tm_dialog_resolve_target ::
  "usipy_msg_heap \<Rightarrow> usipy_sip_tm_addr \<Rightarrow> string \<Rightarrow> string list \<Rightarrow> bool \<Rightarrow>
     (string \<times> usipy_sip_tm_addr \<times> string list) heap_result" where
  "usipy_sip_tm_dialog_resolve_target mhp base remote_target route_src reverse =
     then_do (heap_keep mhp remote_target) (\<lambda>remote_target mhp.
       if length route_src = 0 then dialog_target base remote_target remote_target [] mhp
       else then_do (heap_strs mhp (length route_src + 1)) (\<lambda>_ mhp.
         then_do (heap_keep_all (if reverse then rev route_src else route_src) [] mhp) (\<lambda>routes mhp.
           then_do (heap_uri mhp (routes ! 0)) (\<lambda>first_route_uri mhp.
             if usipy_sip_tm_dialog_uri_has_param first_route_uri ''lr''
             then dialog_target base (routes ! 0) remote_target routes mhp
             else
               let request_uri = cut_headers (routes ! 0) in
               dialog_target base request_uri request_uri (drop 1 routes @ [remote_target]) mhp))))"

subsection \<open>Filling in the parameters\<close>

type_synonym dlg_act =
  "usipy_sip_tm_dialog_request \<Rightarrow> usipy_msg_heap \<Rightarrow> usipy_sip_tm_dialog_request heap_result"

fun dlg_acts :: "dlg_act list \<Rightarrow> dlg_act" where
  "dlg_acts [] d mhp = Some (Inr d, mhp)"
| "dlg_acts (a # as) d mhp = then_do (a d mhp) (dlg_acts as)"

definition dlg_dup ::
  "string \<Rightarrow> (string \<Rightarrow> usipy_sip_tm_dialog_request \<Rightarrow> usipy_sip_tm_dialog_request) \<Rightarrow> dlg_act" where
  "dlg_dup s put d mhp =
     then_do (usipy_sip_tm_dialog_heap_str_dup mhp s) (\<lambda>s mhp. Some (Inr (put s d), mhp))"

definition dlg_append ::
  "string \<Rightarrow> (string \<Rightarrow> usipy_sip_tm_dialog_request \<Rightarrow> usipy_sip_tm_dialog_request) \<Rightarrow> dlg_act" where
  "dlg_append s put d mhp = then_do (heap_keep mhp s) (\<lambda>s mhp. Some (Inr (put s d), mhp))"

definition dlg_local :: "usipy_sip_tm_addr \<Rightarrow> dlg_act" where
  "dlg_local a d mhp =
     then_do (usipy_sip_tm_dialog_copy_addr mhp a) (\<lambda>a mhp. Some (Inr (d\<lparr>dr_local := a\<rparr>), mhp))"

text \<open>
  What the two functions have in common once the target is known. \<open>from\<close> is \<open>None\<close> where the server
  side reads past the end of the text it kept.
\<close>

definition dialog_fill ::
  "usipy_sip_tm_txi \<Rightarrow> string \<Rightarrow> string option \<Rightarrow> string \<Rightarrow> string \<Rightarrow> string \<Rightarrow> nat \<Rightarrow>
     string \<times> usipy_sip_tm_addr \<times> string list \<Rightarrow> usipy_msg_heap \<Rightarrow> usipy_sip_tm_dialog_request heap_result" where
  "dialog_fill anchor contact from to_uri local_tag remote_tag method_type tgt mhp =
     (case tgt of (request_uri, next_target, route_set) \<Rightarrow>
        dlg_acts
          [dlg_dup (x_call_id anchor) (\<lambda>s d. d\<lparr>dr_call_id := s\<rparr>),
           dlg_dup contact (\<lambda>s d. d\<lparr>dr_contact_uri := s\<rparr>),
           (case from of None \<Rightarrow> (\<lambda>_ _. None) | Some u \<Rightarrow> dlg_dup u (\<lambda>s d. d\<lparr>dr_from_uri := s\<rparr>)),
           dlg_dup to_uri (\<lambda>s d. d\<lparr>dr_to_uri := s\<rparr>),
           dlg_append local_tag (\<lambda>s d. d\<lparr>dr_local_tag := s\<rparr>),
           dlg_append remote_tag (\<lambda>s d. d\<lparr>dr_remote_tag := s\<rparr>),
           dlg_dup request_uri (\<lambda>s d. d\<lparr>dr_request_uri := s, dr_route_set := route_set,
             dr_request_target_addr := next_target\<rparr>),
           dlg_local (x_local anchor),
           (\<lambda>d mhp. Some (Inr (d\<lparr>dr_cseq := cseq_val (x_cseq anchor), dr_method_type := method_type,
              dr_timers := x_timers anchor\<rparr>), mhp))]
          usipy_sip_tm_dialog_request_init mhp)"

text \<open>What a 2xx says of the dialog: its To tag, its Contact and its Record-Routes.\<close>

fun first_nameaddr :: "usipy_sip_hdr list \<Rightarrow> usipy_sip_hdr_nameaddr option abortable" where
  "first_nameaddr [] = Some None"
| "first_nameaddr (shp # shs) =
     (case h_parsed shp of
        P_nameaddr n \<Rightarrow> Some (Some n)
      | P_null \<Rightarrow> first_nameaddr shs
      | _ \<Rightarrow> None)"

fun nameaddr_specs :: "usipy_sip_hdr list \<Rightarrow> string list abortable" where
  "nameaddr_specs [] = Some []"
| "nameaddr_specs (shp # shs) =
     (case h_parsed shp of
        P_nameaddr n \<Rightarrow> map_option ((#) (na_addr_spec n)) (nameaddr_specs shs)
      | _ \<Rightarrow> None)"

definition dialog_answer ::
  "string \<Rightarrow> usipy_msg \<Rightarrow> ((string \<times> string \<times> string list) option \<times> usipy_msg) abortable" where
  "dialog_answer stk msg = do {
     let parse_mask = USIPY_HFT_MASK USIPY_HF_TO OR USIPY_HFT_MASK USIPY_HF_CONTACT;
     let parse_mask = (if USIPY_HF_ISMSET (m_present msg) USIPY_HF_RECORDROUTE
                       then parse_mask OR USIPY_HFT_MASK USIPY_HF_RECORDROUTE else parse_mask);
     (matchp, msg) \<leftarrow> usipy_sip_msg_parse_hdrs_get stk msg parse_mask False (length (m_hdrs msg));
     case matchp of
       None \<Rightarrow> Some (None, msg)
     | Some is \<Rightarrow> do {
         let found = (\<lambda>ty. filter (\<lambda>shp. hdr_cantype shp = ty) (map (\<lambda>i. m_hdrs msg ! i) is));
         hto \<leftarrow> first_nameaddr (found USIPY_HF_TO);
         contact \<leftarrow> first_nameaddr (found USIPY_HF_CONTACT);
         case (hto, contact) of
           (Some na_to, Some na_contact) \<Rightarrow>
             (case usipy_sip_hdr_nameaddr_get_param na_to ''tag'' of
                None \<Rightarrow> Some (None, msg)
              | Some tag \<Rightarrow>
                  if length tag = 0 \<or> length (na_addr_spec na_contact) = 0 then Some (None, msg)
                  else do {
                    routes \<leftarrow> nameaddr_specs (found USIPY_HF_RECORDROUTE);
                    Some (Some (tag, na_addr_spec na_contact, routes), msg)
                  })
         | _ \<Rightarrow> Some (None, msg)
       }
   }"

definition usipy_sip_tm_init_uac_dialog_request_params ::
  "string \<Rightarrow> 'a usipy_sip_tm \<Rightarrow> nat \<Rightarrow> usipy_msg \<Rightarrow> nat \<Rightarrow> usipy_msg_heap \<Rightarrow>
     ((usipy_sip_tm_error + usipy_sip_tm_dialog_request) \<times> usipy_msg_heap \<times> usipy_msg) abortable" where
  "usipy_sip_tm_init_uac_dialog_request_params stk tm anchor_index msg method_type mhp = do {
     dassert (anchor_index < max_transactions tm);
     let anchor = txn tm anchor_index;
     if \<not> x_active anchor then Some (Inl USIPY_SIP_TM_ERR_UNSUPPORTED, mhp, msg)
     else do {
       dassert (x_role anchor = USIPY_SIP_TM_ROLE_UAC);
       if id_method_type (x_id anchor) \<noteq> USIPY_SIP_METHOD_INVITE \<or> x_role_byte anchor \<noteq> 2
       then Some (Inl USIPY_SIP_TM_ERR_UNSUPPORTED, mhp, msg)
       else
         (case (m_kind msg, sln_parsed (m_sline msg)) of
            (USIPY_SIP_MSG_RES, SL_status sl) \<Rightarrow>
              if st_code (sl_status sl) < 200 \<or> st_code (sl_status sl) > 299
              then Some (Inl USIPY_SIP_TM_ERR_UNSUPPORTED, mhp, msg)
              else do {
                (r, msg) \<leftarrow> dialog_answer stk msg;
                case r of
                  None \<Rightarrow> Some (Inl USIPY_SIP_TM_ERR_BADMSG, mhp, msg)
                | Some (tag, contact, routes) \<Rightarrow> do {
                    (r, mhp) \<leftarrow> then_do
                      (usipy_sip_tm_dialog_resolve_target mhp (x_peer anchor) contact routes True)
                      (dialog_fill anchor (cc_contact_uri (x_uac anchor)) (Some (cc_from_uri (x_uac anchor)))
                        (cc_to_uri (x_uac anchor)) (ref_text (x_scratch anchor) (x_from_tag anchor))
                        tag method_type);
                    Some (r, mhp, msg)
                  }
              }
          | (USIPY_SIP_MSG_RES, _) \<Rightarrow> None
          | _ \<Rightarrow> Some (Inl USIPY_SIP_TM_ERR_UNSUPPORTED, mhp, msg))
     }
   }"

text \<open>
  The server side: the route set is that of the INVITE, in its order and as the headers have it. A request
  URI at the end of a set without \<open>lr\<close> is the remote target.
\<close>

definition uas_dialog_target ::
  "usipy_sip_tm_txi \<Rightarrow> string \<Rightarrow> usipy_msg_heap \<Rightarrow> (string \<times> usipy_sip_tm_addr \<times> string list) heap_result" where
  "uas_dialog_target anchor remote_target mhp =
     (let rrs = sc_record_routes (x_uas anchor); base = x_peer anchor;
          done_with = (\<lambda>request_uri u route_set mhp.
            Some (Inr (request_uri, usipy_sip_tm_dialog_set_target_from_uri base u, route_set), mhp)) in
      if length rrs = 0 then
        then_do (heap_keep mhp remote_target) (\<lambda>request_uri mhp.
          then_do (heap_uri mhp request_uri) (\<lambda>u. done_with request_uri u []))
      else
        then_do (heap_keep mhp (rrs ! 0)) (\<lambda>first_route_raw mhp.
          do {
            dassert (c_object first_route_raw);
            (rrp, mhp) \<leftarrow> usipy_sip_hdr_nameaddr_parse mhp first_route_raw;
            case rrp of
              None \<Rightarrow> Some (Inl USIPY_SIP_TM_ERR_BADMSG, mhp)
            | Some rrp \<Rightarrow>
                if length (na_addr_spec rrp) = 0 then Some (Inl USIPY_SIP_TM_ERR_BADMSG, mhp)
                else then_do (heap_uri mhp (na_addr_spec rrp)) (\<lambda>first_route_uri mhp.
                  then_do (heap_strs mhp (length rrs)) (\<lambda>_ mhp.
                    if usipy_sip_tm_dialog_uri_has_param first_route_uri ''lr'' then
                      then_do (heap_keep mhp remote_target) (\<lambda>request_uri mhp.
                        then_do (heap_keep_all rrs [] mhp) (\<lambda>routes.
                          done_with request_uri first_route_uri routes))
                    else
                      then_do (heap_keep mhp (na_addr_spec rrp)) (\<lambda>request_uri mhp.
                        let request_uri = cut_headers request_uri in
                        then_do (heap_keep_all (drop 1 rrs) [] mhp) (\<lambda>routes mhp.
                          then_do (heap_keep mhp remote_target) (\<lambda>last mhp.
                            then_do (heap_uri mhp request_uri) (\<lambda>u.
                              done_with request_uri u (routes @ [last])))))))
          }))"

definition usipy_sip_tm_init_uas_dialog_request_params ::
  "'a usipy_sip_tm \<Rightarrow> nat \<Rightarrow> nat \<Rightarrow> usipy_msg_heap \<Rightarrow> usipy_sip_tm_dialog_request heap_result" where
  "usipy_sip_tm_init_uas_dialog_request_params tm anchor_index method_type mhp = do {
     dassert (anchor_index < max_transactions tm);
     let anchor = txn tm anchor_index;
     let uas = x_uas anchor;
     let from_tag = ref_text (x_scratch anchor) (x_from_tag anchor);
     if \<not> x_active anchor then Some (Inl USIPY_SIP_TM_ERR_UNSUPPORTED, mhp)
     else do {
       dassert (x_role anchor = USIPY_SIP_TM_ROLE_UAS);
       if id_method_type (x_id anchor) \<noteq> USIPY_SIP_METHOD_INVITE \<or> x_last_status_code anchor \<ge> 200 \<or>
          length (x_to_tag anchor) = 0 \<or> length from_tag = 0 \<or> length (sc_from_uri uas) = 0 \<or>
          sc_to_uri uas = Some []
       then Some (Inl USIPY_SIP_TM_ERR_UNSUPPORTED, mhp)
       else
         let remote_target = (if length (sc_contact_uri uas) = 0 then sc_request_uri uas else sc_contact_uri uas) in
         if length remote_target = 0 then Some (Inl USIPY_SIP_TM_ERR_BADMSG, mhp)
         else
           let contact = (if length (sc_local_contact_uri uas) = 0 then tm_luri tm else sc_local_contact_uri uas) in
           then_do (uas_dialog_target anchor remote_target mhp)
             (dialog_fill anchor contact (sc_to_uri uas) (sc_from_uri uas) (x_to_tag anchor) from_tag method_type)
     }
   }"

text \<open>
  The ACK of a 2xx takes the dialog's target, parties, tag and routes, in its own scratch heap.
\<close>

definition usipy_sip_tm_apply_uac_2xx_ack_dialog ::
  "string \<Rightarrow> 'a usipy_sip_tm \<Rightarrow> nat \<Rightarrow> usipy_msg \<Rightarrow> usipy_sip_tm_txi \<Rightarrow>
     (usipy_sip_tm_error \<times> usipy_msg \<times> usipy_sip_tm_txi) abortable" where
  "usipy_sip_tm_apply_uac_2xx_ack_dialog stk tm anchor_index msg ackp = do {
     (r, h, msg) \<leftarrow> usipy_sip_tm_init_uac_dialog_request_params stk tm anchor_index msg USIPY_SIP_METHOD_ACK
       (x_scratch ackp);
     let ackp = ackp\<lparr>x_scratch := h\<rparr>;
     case r of
       Inl e \<Rightarrow> Some (e, msg, ackp)
     | Inr d \<Rightarrow> do {
         (u, h) \<leftarrow> parse_uri_at h (dr_request_uri d);
         let ackp = ackp\<lparr>x_scratch := h, x_uac := (x_uac ackp)\<lparr>cc_request_uri := u\<rparr>\<rparr>;
         if u = None then Some (USIPY_SIP_TM_ERR_BADMSG, msg, ackp)
         else
           Some (USIPY_SIP_TM_OK, msg, sync_outbound (ackp
             \<lparr>x_uac := (x_uac ackp)\<lparr>cc_from_uri := dr_from_uri d, cc_to_uri := dr_to_uri d,
                cc_contact_uri := dr_contact_uri d, cc_routes := dr_route_set d\<rparr>,
              x_to_tag := dr_remote_tag d, x_peer := dr_request_target_addr d,
              x_outbound := (x_outbound ackp)\<lparr>ob_target := dr_request_target_addr d\<rparr>\<rparr>))
       }
   }"

end
