(* ===== verification/Usipy_Tmreq.thy ===== *)
theory Usipy_Tmreq
  imports Usipy_Tmdialog
begin

unbundle bit_operations_syntax

text \<open>
  Component \<open>usipy_sip_tm_uac\<close> (\<open>src/usipy_sip_tm_uac.c\<close>), first half: what a client transaction keeps of
  its request, its identity and its small state changes, and the text of the request. A \<open>-1\<close> of a
  helper is \<open>USIPY_SIP_TM_ERR_NOSPC\<close>, what every caller makes of it.
\<close>

subsection \<open>Steps with a value\<close>

text \<open>A step of the slot that answers a value the next step uses: the local strings of the code.\<close>

type_synonym 'b tx_val = "usipy_sip_tm_txi \<Rightarrow> ((usipy_sip_tm_error + 'b) \<times> usipy_sip_tm_txi) abortable"

definition act_let :: "'b tx_val \<Rightarrow> ('b \<Rightarrow> tx_act) \<Rightarrow> tx_act" where
  "act_let m f t = do {
     (r, t) \<leftarrow> m t;
     case r of Inl e \<Rightarrow> Some (e, t) | Inr v \<Rightarrow> f v t
   }"

definition on_scratch :: "(usipy_msg_heap \<Rightarrow> 'b heap_result) \<Rightarrow> 'b tx_val" where
  "on_scratch f t = map_option (\<lambda>(r, h). (r, t\<lparr>x_scratch := h\<rparr>)) (f (x_scratch t))"

definition heap_printf :: "string \<Rightarrow> usipy_msg_heap \<Rightarrow> slice heap_result" where
  "heap_printf s mhp = do {
     dassert (c_object s);
     case usipy_msg_heap_sprintf mhp s of
       (None, mhp) \<Rightarrow> Some (Inl USIPY_SIP_TM_ERR_NOSPC, mhp)
     | (Some sl, mhp) \<Rightarrow> Some (Inr sl, mhp)
   }"

definition heap_print :: "string \<Rightarrow> usipy_msg_heap \<Rightarrow> string heap_result" where
  "heap_print s mhp = then_do (heap_printf s mhp) (\<lambda>sl mhp. Some (Inr (slice_read mhp sl), mhp))"

definition heap_parse_uri :: "string \<Rightarrow> usipy_msg_heap \<Rightarrow> usipy_sip_uri heap_result" where
  "heap_parse_uri s mhp =
     map_option (\<lambda>(u, mhp). (case u of None \<Rightarrow> Inl USIPY_SIP_TM_ERR_NOSPC | Some u \<Rightarrow> Inr u, mhp))
       (parse_uri_at mhp s)"

subsection \<open>The request of a transaction\<close>

definition usipy_sip_tm_param_str :: "string option \<Rightarrow> string" where
  "usipy_sip_tm_param_str sp = (case sp of Some s \<Rightarrow> s | None \<Rightarrow> [])"

definition usipy_sip_tm_copy_target_addr ::
  "(usipy_sip_tm_addr \<Rightarrow> usipy_sip_tm_txi \<Rightarrow> usipy_sip_tm_txi) \<Rightarrow> usipy_sip_tm_addr \<Rightarrow> tx_act" where
  "usipy_sip_tm_copy_target_addr put src tp =
     (if length (ad_host src) = 0 then Some (USIPY_SIP_TM_OK, put src tp)
      else act_keep (ad_host src) (\<lambda>s. put (src\<lparr>ad_host := s\<rparr>)) tp)"

definition usipy_sip_tm_request_uri_materialize ::
  "'a tm_env \<Rightarrow> usipy_sip_tm_request_target \<Rightarrow> string tx_val" where
  "usipy_sip_tm_request_uri_materialize ev targetp tp = do {
     dassert (rt_target targetp \<noteq> None \<or> rt_request_uri targetp \<noteq> None);
     let default_port = (if ev_default_udp_port ev \<noteq> 0 then ev_default_udp_port ev else 5060);
     let request_uri_in = usipy_sip_tm_param_str (rt_request_uri targetp);
     if length request_uri_in \<noteq> 0 then on_scratch (\<lambda>h. heap_keep h request_uri_in) tp
     else do {
       target_addr \<leftarrow> rt_target targetp;
       if length (ad_host target_addr) = 0 then Some (Inl USIPY_SIP_TM_ERR_INVAL, tp)
       else if ad_port target_addr = 0 \<or> ad_port target_addr = default_port
       then on_scratch (heap_print (''sip:'' @ pct_s (ad_host target_addr))) tp
       else on_scratch (heap_print (''sip:'' @ pct_s (ad_host target_addr) @ '':'' @
         dec (unat (ad_port target_addr)))) tp
     }
   }"

definition usipy_sip_tm_transition_allowed ::
  "usipy_sip_tm_txi \<Rightarrow> usipy_sip_tm_state \<Rightarrow> bool abortable" where
  "usipy_sip_tm_transition_allowed tp next_state = do {
     dassert (x_role tp = USIPY_SIP_TM_ROLE_UAC);
     Some (if next_state \<noteq> USIPY_SIP_TM_STATE_CALLING then False
           else x_state tp = USIPY_SIP_TM_STATE_TERMINATED \<or> x_state tp = USIPY_SIP_TM_STATE_COMPLETED)
   }"

definition usipy_sip_tm_transition :: "usipy_sip_tm_state \<Rightarrow> tx_act" where
  "usipy_sip_tm_transition next_state tp = do {
     ok \<leftarrow> usipy_sip_tm_transition_allowed tp next_state;
     if \<not> ok then Some (USIPY_SIP_TM_ERR_UNSUPPORTED, tp)
     else Some (USIPY_SIP_TM_OK, drop_flag USIPY_SIP_TM_F_TERMINATED (tp\<lparr>x_state := next_state\<rparr>))
   }"

definition usipy_sip_tm_format_local_uri ::
  "usipy_sip_tm_addr \<Rightarrow> string \<Rightarrow> bool \<Rightarrow> (string \<Rightarrow> usipy_sip_tm_txi \<Rightarrow> usipy_sip_tm_txi) \<Rightarrow> tx_act" where
  "usipy_sip_tm_format_local_uri localp userp include_port put tp =
     (let user = (if length userp = 0 then [] else pct_s userp @ ''@'');
          port = (if include_port then '':'' @ dec (unat (ad_port localp)) else []);
          fmt = (\<lambda>host. act_printf (''sip:'' @ user @ host @ port) (\<lambda>sl t. put (slice_read (x_scratch t) sl) t) tp) in
      case ad_af localp of
        AF_INET \<Rightarrow> fmt (pct_s (ad_host localp))
      | AF_INET6 \<Rightarrow> fmt (''['' @ pct_s (ad_host localp) @ '']'')
      | _ \<Rightarrow> Some (USIPY_SIP_TM_ERR_NOSPC, tp))"

definition usipy_sip_tm_copy_uri ::
  "string \<Rightarrow> (string \<Rightarrow> usipy_sip_tm_txi \<Rightarrow> usipy_sip_tm_txi) \<Rightarrow> tx_act" where
  "usipy_sip_tm_copy_uri src put = (if length src = 0 then act_set (put []) else act_keep src put)"

definition usipy_sip_tm_copy_route_set ::
  "string list \<Rightarrow> usipy_msg_heap \<Rightarrow> string list heap_result" where
  "usipy_sip_tm_copy_route_set src mhp =
     (if length src = 0 then Some (Inr [], mhp)
      else then_do (heap_strs mhp (length src)) (\<lambda>_. heap_keep_all src []))"

definition usipy_sip_tm_lookup_uac_method :: "nat \<Rightarrow> bool \<Rightarrow> (usipy_sip_tm_error + nat) abortable" where
  "usipy_sip_tm_lookup_uac_method method_type in_dialog = do {
     dassert (method_type \<le> USIPY_SIP_METHOD_max);
     if in_dialog \<and> (method_type = USIPY_SIP_METHOD_INVITE \<or> method_type = USIPY_SIP_METHOD_ACK \<or>
        method_type = USIPY_SIP_METHOD_CANCEL)
     then Some (Inl USIPY_SIP_TM_ERR_INVAL)
     else do {
       dassert (length (usipy_method_db ! method_type) > 0);
       Some (Inr method_type)
     }
   }"

definition usipy_sip_tm_init_uac_request :: "usipy_sip_tm_request_id \<Rightarrow> string \<Rightarrow> nat \<Rightarrow> tx_act" where
  "usipy_sip_tm_init_uac_request request_id request_uri mdp = acts
     [act_keep (usipy_sip_tm_param_str (rid_call_id request_id)) (\<lambda>s t. t\<lparr>x_call_id := s\<rparr>),
      act_let (on_scratch (\<lambda>h. heap_keep h request_uri)) (\<lambda>req_uri.
        act_let (on_scratch (heap_parse_uri req_uri)) (\<lambda>u.
          act_set (\<lambda>t. t\<lparr>x_uac := (x_uac t)\<lparr>cc_request_uri := Some u\<rparr>\<rparr>))),
      act_set (\<lambda>t. t\<lparr>x_method_type := rid_method_type request_id,
        x_cseq := (x_cseq t)\<lparr>cseq_val := rid_cseq request_id, cseq_method := mdp\<rparr>,
        x_uac := (x_uac t)\<lparr>cc_include_contact := True\<rparr>\<rparr>)]"

definition put_from_uri :: "string \<Rightarrow> usipy_sip_tm_txi \<Rightarrow> usipy_sip_tm_txi" where
  "put_from_uri s t = t\<lparr>x_uac := (x_uac t)\<lparr>cc_from_uri := s\<rparr>\<rparr>"

definition put_to_uri :: "string \<Rightarrow> usipy_sip_tm_txi \<Rightarrow> usipy_sip_tm_txi" where
  "put_to_uri s t = t\<lparr>x_uac := (x_uac t)\<lparr>cc_to_uri := s\<rparr>\<rparr>"

definition put_contact_uri :: "string \<Rightarrow> usipy_sip_tm_txi \<Rightarrow> usipy_sip_tm_txi" where
  "put_contact_uri s t = t\<lparr>x_uac := (x_uac t)\<lparr>cc_contact_uri := s\<rparr>\<rparr>"

definition usipy_sip_tm_init_uac_parties_by_username ::
  "usipy_sip_tm_addr \<Rightarrow> usipy_sip_tm_request_parties \<Rightarrow> tx_act" where
  "usipy_sip_tm_init_uac_parties_by_username localp parties = acts
     [usipy_sip_tm_format_local_uri localp (usipy_sip_tm_param_str (rp_from parties)) False put_from_uri,
      usipy_sip_tm_format_local_uri localp (usipy_sip_tm_param_str (rp_to parties)) False put_to_uri,
      usipy_sip_tm_format_local_uri localp (usipy_sip_tm_param_str (rp_contact parties)) True put_contact_uri]"

definition usipy_sip_tm_init_uac_parties_by_uri ::
  "usipy_sip_tm_request_parties \<Rightarrow> usipy_sip_tm_dialog_tags \<Rightarrow> tx_act" where
  "usipy_sip_tm_init_uac_parties_by_uri parties dialog_tags = acts
     [usipy_sip_tm_copy_uri (usipy_sip_tm_param_str (rp_from parties)) put_from_uri,
      usipy_sip_tm_copy_uri (usipy_sip_tm_param_str (rp_to parties)) put_to_uri,
      usipy_sip_tm_copy_uri (usipy_sip_tm_param_str (rp_contact parties)) put_contact_uri,
      act_keep (usipy_sip_tm_param_str (dt_local_tag dialog_tags)) (\<lambda>s t. t\<lparr>x_from_tag := Kept s\<rparr>),
      act_keep (usipy_sip_tm_param_str (dt_remote_tag dialog_tags)) (\<lambda>s t. t\<lparr>x_to_tag := s\<rparr>)]"

definition usipy_sip_tm_set_route_set :: "string list \<Rightarrow> usipy_sip_tm_txi \<Rightarrow> usipy_sip_tm_txi" where
  "usipy_sip_tm_set_route_set routes t = t\<lparr>x_uac := (x_uac t)\<lparr>cc_routes := routes\<rparr>\<rparr>"

definition usipy_sip_tm_uac_reset_invite :: usipy_sip_tm_uac_invite where
  "usipy_sip_tm_uac_reset_invite =
     \<lparr>inv_timeout_at_ms = USIPY_SIP_TM_TIME_NONE, inv_provisional_seen = False,
      inv_cancel_state = USIPY_SIP_TM_INVITE_CANCEL_NONE, inv_timeout_id = USIPY_SIP_TM_TIMEOUT_NONE,
      inv_bye_started = False, inv_app_cancelled = False\<rparr>"

text \<open>\<open>sizeof(struct usipy_sip_tm_uac_invite)\<close> is 16.\<close>

definition uac_alloc_invite :: tx_act where
  "uac_alloc_invite = acts
     [act_alloc 16, act_set (\<lambda>t. t\<lparr>x_invite := Some usipy_sip_tm_uac_reset_invite\<rparr>)]"

text \<open>
  The target and the local address go to the slot at once; the code sets them with the rest, and a
  failure in between ends in a reset of the slot.
\<close>

definition uac_activate ::
  "usipy_sip_tm_transport \<Rightarrow> usipy_sip_tm_state \<Rightarrow> uint32 \<Rightarrow> usipy_sip_tm_uac_callbacks \<Rightarrow>
     usipy_sip_tm_timer_policy \<Rightarrow> tx_act" where
  "uac_activate transport state cseq callbacks timers t = do {
     (cp, h) \<leftarrow> usipy_msg_heap_checkpoint (x_scratch t);
     let ob = \<lparr>ob_target = x_peer t, ob_raw = slice_null, ob_next_send_at_ms = 0\<rparr>;
     Some (USIPY_SIP_TM_OK,
       t\<lparr>x_callbacks := callbacks, x_scratch := h, x_checkpoint := cp, x_active := True,
         x_role := USIPY_SIP_TM_ROLE_UAC, x_state := state,
         x_flags := (if transport = USIPY_SIP_TM_TRANSPORT_UDP then 0 else USIPY_SIP_TM_F_RELIABLE_TRANSPORT),
         x_outbound := ob, x_pub_outbound := ob, x_timers := timers,
         x_id := \<lparr>id_hash = 0, id_branch = Kept [], id_call_id = x_call_id t, id_from_tag = x_from_tag t,
           id_cseq = cseq, id_method_type = x_method_type t\<rparr>,
         x_last_status_code := 0, x_role_byte := 0\<rparr>)
   }"

text \<open>Without the count of active transactions, which the callers keep.\<close>

definition usipy_sip_tm_activate_uac_slot ::
  "'a usipy_sip_tm \<Rightarrow> usipy_sip_tm_state \<Rightarrow> usipy_sip_tm_request_id \<Rightarrow> usipy_sip_tm_addr \<Rightarrow>
     usipy_sip_tm_addr option \<Rightarrow> usipy_sip_tm_uac_callbacks \<Rightarrow> usipy_sip_tm_timer_policy \<Rightarrow> tx_act" where
  "usipy_sip_tm_activate_uac_slot tm state request_id localp targetp callbacks timers tp = do {
     target \<leftarrow> targetp;
     acts
       [usipy_sip_tm_copy_target_addr (\<lambda>a t. t\<lparr>x_peer := a\<rparr>) target,
        (if length (ad_host localp) \<noteq> 0 then usipy_sip_tm_copy_target_addr (\<lambda>a t. t\<lparr>x_local := a\<rparr>) localp
         else act_set (\<lambda>t. t\<lparr>x_local := tm_laddr tm\<rparr>)),
        (if rid_method_type request_id = USIPY_SIP_METHOD_INVITE then uac_alloc_invite else act_set id),
        uac_activate (tm_transport tm) state (rid_cseq request_id) callbacks timers] tp
   }"

subsection \<open>Identity\<close>

text \<open>\<open>(unsigned int)tx_index\<close>\<close>

definition index_text :: "nat \<Rightarrow> string" where
  "index_text i = dec (i mod 2 ^ 32)"

definition usipy_sip_tm_prepare_default_ids :: "nat \<Rightarrow> usipy_sip_tm_id_policy_out tx_val" where
  "usipy_sip_tm_prepare_default_ids tx_index tp = on_scratch (\<lambda>h.
     then_do (heap_printf (''z9hG4bK-'' @ index_text tx_index @ ''-'' @ dec (unat (cseq_val (x_cseq tp)))) h) (\<lambda>b h.
       then_do (heap_printf (''t'' @ index_text tx_index) h) (\<lambda>l h.
         Some (Inr (ids_zero\<lparr>ipo_branch := Scratch b, ipo_local_tag := Scratch l\<rparr>), h)))) tp"

definition ask_id_policy ::
  "'a tm_env \<Rightarrow> 'a usipy_sip_tm \<Rightarrow> nat \<Rightarrow> nat \<Rightarrow> usipy_sip_tm_id_policy_out tx_val" where
  "ask_id_policy ev tm cb tx_index tp =
     (case ev_id_policy ev cb (tm_id_policy_arg tm) (x_scratch tp)
             \<lparr>ipi_transaction_index = tx_index, ipi_cseq = cseq_val (x_cseq tp), ipi_method_type = x_method_type tp\<rparr> of
        (None, h) \<Rightarrow> Some (Inl USIPY_SIP_TM_ERR_NOSPC, tp\<lparr>x_scratch := h\<rparr>)
      | (Some ids, h) \<Rightarrow> Some (Inr ids, tp\<lparr>x_scratch := h\<rparr>))"

definition usipy_sip_tm_prepare_initial_call_id :: "'a tm_env \<Rightarrow> 'a usipy_sip_tm \<Rightarrow> nat \<Rightarrow> tx_act" where
  "usipy_sip_tm_prepare_initial_call_id ev tm tx_index tp =
     (if length (x_call_id tp) \<noteq> 0 then Some (USIPY_SIP_TM_OK, tp)
      else act_let
        (case tm_id_policy tm of
           Some cb \<Rightarrow> ask_id_policy ev tm cb tx_index
         | None \<Rightarrow> on_scratch (\<lambda>h. then_do (heap_printf (''c'' @ index_text tx_index) h) (\<lambda>c h.
             Some (Inr (ids_zero\<lparr>ipo_call_id := Scratch c\<rparr>), h))))
        (\<lambda>ids tp.
           if ref_len (ipo_call_id ids) = 0 then Some (USIPY_SIP_TM_ERR_NOSPC, tp)
           else act_keep (ref_text (x_scratch tp) (ipo_call_id ids)) (\<lambda>s t. t\<lparr>x_call_id := s\<rparr>) tp) tp)"

text \<open>
  The branch and the tag are taken from the policy when the transaction has none, also when it has one
  whose bytes went with the last message: only the length is looked at.
\<close>

definition set_ids :: "usipy_sip_tm_id_policy_out \<Rightarrow> usipy_sip_tm_txi \<Rightarrow> usipy_sip_tm_txi" where
  "set_ids ids tp =
     (let tp = (if ref_len (x_branch tp) = 0 then tp\<lparr>x_branch := ipo_branch ids\<rparr> else tp);
          tp = (if ref_len (x_from_tag tp) = 0 then tp\<lparr>x_from_tag := ipo_local_tag ids\<rparr> else tp);
          hash = usipy_sip_tid_hash \<lparr>tid_hash = 0, tid_call_id = x_call_id tp,
            tid_from_tag = ref_text (x_scratch tp) (x_from_tag tp), tid_cseq = x_cseq tp,
            tid_vbranch = ref_text (x_scratch tp) (x_branch tp)\<rparr> in
      tp\<lparr>x_id := \<lparr>id_hash = hash, id_branch = x_branch tp, id_call_id = x_call_id tp,
        id_from_tag = x_from_tag tp, id_cseq = cseq_val (x_cseq tp), id_method_type = x_method_type tp\<rparr>\<rparr>)"

definition usipy_sip_tm_prepare_ids :: "'a tm_env \<Rightarrow> 'a usipy_sip_tm \<Rightarrow> nat \<Rightarrow> tx_act" where
  "usipy_sip_tm_prepare_ids ev tm tx_index = act_let
     (case tm_id_policy tm of
        Some cb \<Rightarrow> ask_id_policy ev tm cb tx_index
      | None \<Rightarrow> usipy_sip_tm_prepare_default_ids tx_index)
     (\<lambda>ids tp.
        if length (x_call_id tp) = 0 \<or> ref_len (ipo_branch ids) = 0 \<or>
           (ref_len (x_from_tag tp) = 0 \<and> ref_len (ipo_local_tag ids) = 0)
        then Some (USIPY_SIP_TM_ERR_INVAL, tp)
        else Some (USIPY_SIP_TM_OK, set_ids ids tp))"

subsection \<open>Small changes of a slot\<close>

definition clear_ids :: "usipy_sip_tm_txi \<Rightarrow> usipy_sip_tm_txi" where
  "clear_ids tp = tp\<lparr>x_id := (x_id tp)\<lparr>id_hash := 0, id_branch := Kept [], id_from_tag := Kept []\<rparr>\<rparr>"

definition set_outbound :: "slice \<Rightarrow> time_ms \<Rightarrow> usipy_sip_tm_txi \<Rightarrow> usipy_sip_tm_txi" where
  "set_outbound raw w tp = tp\<lparr>x_outbound := (x_outbound tp)\<lparr>ob_raw := raw, ob_next_send_at_ms := w\<rparr>\<rparr>"

definition usipy_sip_tm_tx_clear_timer :: "usipy_sip_tm_txi \<Rightarrow> usipy_sip_tm_txi" where
  "usipy_sip_tm_tx_clear_timer tp = set_timer USIPY_SIP_TM_TIMER_NONE 0 0 tp"

definition usipy_sip_tm_tx_reset_uac_runtime :: "usipy_sip_tm_txi \<Rightarrow> usipy_sip_tm_txi" where
  "usipy_sip_tm_tx_reset_uac_runtime tp =
     (let tp = clear_ids (drop_flag USIPY_SIP_TM_F_TERMINATED tp);
          tp = usipy_sip_tm_tx_clear_timer
            (tp\<lparr>x_id := (x_id tp)\<lparr>id_cseq := cseq_val (x_cseq tp)\<rparr>, x_retransmit_count := 0,
              x_created_at_ms := 0, x_updated_at_ms := 0, x_last_status_code := 0, x_role_byte := 0\<rparr>) in
      sync_outbound (set_outbound slice_null 0
        (tp\<lparr>x_invite := map_option (\<lambda>_. usipy_sip_tm_uac_reset_invite) (x_invite tp), x_final_reported := False\<rparr>)))"

definition usipy_sip_tm_release_outbound :: "usipy_sip_tm_txi \<Rightarrow> usipy_sip_tm_txi abortable" where
  "usipy_sip_tm_release_outbound tp = do {
     h \<leftarrow> (if x_checkpoint tp \<noteq> USIPY_MSG_HEAP_CHECKPOINT_NONE
          then usipy_msg_heap_rollback (x_scratch tp) (x_checkpoint tp) else Some (x_scratch tp));
     Some (sync_outbound (set_outbound slice_null USIPY_SIP_TM_TIME_NONE (clear_ids (tp\<lparr>x_scratch := h\<rparr>))))
   }"

definition usipy_sip_tm_tx_clear_invite_timeout :: "usipy_sip_tm_txi \<Rightarrow> usipy_sip_tm_txi" where
  "usipy_sip_tm_tx_clear_invite_timeout tp =
     tp\<lparr>x_invite := map_option (\<lambda>inv. inv\<lparr>inv_timeout_at_ms := USIPY_SIP_TM_TIME_NONE,
       inv_timeout_id := USIPY_SIP_TM_TIMEOUT_NONE\<rparr>) (x_invite tp)\<rparr>"

definition usipy_sip_tm_tx_mark_terminated :: "usipy_sip_tm_txi \<Rightarrow> usipy_sip_tm_txi" where
  "usipy_sip_tm_tx_mark_terminated tp =
     sync_outbound (set_next_send USIPY_SIP_TM_TIME_NONE
       (raise_flag USIPY_SIP_TM_F_TERMINATED (tp\<lparr>x_state := USIPY_SIP_TM_STATE_TERMINATED\<rparr>)))"

definition usipy_sip_tm_tx_is_invite :: "usipy_sip_tm_txi \<Rightarrow> bool" where
  "usipy_sip_tm_tx_is_invite tp \<longleftrightarrow> id_method_type (x_id tp) = USIPY_SIP_METHOD_INVITE"

definition usipy_sip_tm_tx_is_ack :: "usipy_sip_tm_txi \<Rightarrow> bool" where
  "usipy_sip_tm_tx_is_ack tp \<longleftrightarrow> id_method_type (x_id tp) = USIPY_SIP_METHOD_ACK"

definition usipy_sip_tm_tx_waits_for_invite_ack :: "usipy_sip_tm_txi \<Rightarrow> bool" where
  "usipy_sip_tm_tx_waits_for_invite_ack tp \<longleftrightarrow> usipy_sip_tm_tx_is_invite tp \<and> x_child_index tp \<noteq> None \<and>
     tmr_type (x_timer tp) = USIPY_SIP_TM_TIMER_D"

definition usipy_sip_tm_extract_response_to_tag ::
  "string \<Rightarrow> usipy_msg \<Rightarrow> (string option \<times> usipy_msg) abortable" where
  "usipy_sip_tm_extract_response_to_tag stk msg = do {
     (matchp, msg) \<leftarrow> usipy_sip_msg_parse_hdrs_get stk msg (USIPY_HFT_MASK USIPY_HF_TO) True 1;
     case matchp of
       None \<Rightarrow> Some (None, msg)
     | Some [] \<Rightarrow> Some (None, msg)
     | Some (i # _) \<Rightarrow>
         (case h_parsed (m_hdrs msg ! i) of
            P_null \<Rightarrow> Some (None, msg)
          | P_nameaddr hto \<Rightarrow>
              Some (case usipy_sip_hdr_nameaddr_get_param hto ''tag'' of
                  None \<Rightarrow> None
                | Some v \<Rightarrow> if length v = 0 then None else Some v, msg)
          | _ \<Rightarrow> None)
   }"

definition heap_build_uri :: "usipy_sip_uri \<Rightarrow> usipy_msg_heap \<Rightarrow> string heap_result" where
  "heap_build_uri u mhp =
     (case usipy_msg_heap_build mhp (usipy_sip_uri_build u) of
        (None, mhp) \<Rightarrow> Some (Inl USIPY_SIP_TM_ERR_NOSPC, mhp)
      | (Some sl, mhp) \<Rightarrow> Some (Inr (slice_read mhp sl), mhp))"

definition usipy_sip_tm_copy_parsed_uri :: "usipy_sip_uri option \<Rightarrow> tx_act" where
  "usipy_sip_tm_copy_parsed_uri srcp tp = do {
     src \<leftarrow> srcp;
     act_let (on_scratch (heap_build_uri src)) (\<lambda>uris.
       act_let (on_scratch (heap_parse_uri uris)) (\<lambda>u.
         act_set (\<lambda>t. t\<lparr>x_uac := (x_uac t)\<lparr>cc_request_uri := Some u\<rparr>\<rparr>))) tp
   }"

definition usipy_sip_tm_uac_arm_send_now :: "time_ms \<Rightarrow> usipy_sip_tm_txi \<Rightarrow> usipy_sip_tm_txi" where
  "usipy_sip_tm_uac_arm_send_now now tp = sync_outbound (set_next_send now tp)"

subsection \<open>The text of a request\<close>

definition hdr_of :: "nat \<Rightarrow> usipy_sip_hdr_parsed \<Rightarrow> usipy_sip_hdr" where
  "hdr_of ty p = hdr_zero\<lparr>h_hf_type := ty, h_parsed := p\<rparr>"

text \<open>
  The extra headers; the inner \<open>None\<close> is \<open>USIPY_SIP_TM_ERR_INVAL\<close>. The types must be those of the table,
  whose entries are read without a check. A raw value goes under a copy of the entry without its builder.
\<close>

fun uac_extra_hdrs :: "usipy_sip_tm_extra_header list \<Rightarrow> usipy_sip_hdr list option abortable" where
  "uac_extra_hdrs [] = Some (Some [])"
| "uac_extra_hdrs (eh # ehs) = do {
     dassert (eh_hf_type eh < length usipy_hdr_db);
     let hf = usipy_hdr_db_byid (eh_hf_type eh);
     if he_cantype hf \<noteq> eh_hf_type eh then Some None
     else if eh_value_kind eh = USIPY_SIP_TM_EH_PARSED \<and> eh_hf_type eh \<noteq> USIPY_HF_AUTHORIZATION \<and>
        eh_hf_type eh \<noteq> USIPY_HF_PROXYAUTHORIZATION then Some None
     else if eh_value_kind eh \<noteq> USIPY_SIP_TM_EH_PARSED \<and> eh_value_kind eh \<noteq> USIPY_SIP_TM_EH_RAW then Some None
     else
       let value = usipy_sip_tm_param_str (eh_value eh);
           p = (if eh_value_kind eh = USIPY_SIP_TM_EH_PARSED
                then (case eh_parsed eh of None \<Rightarrow> P_null | Some az \<Rightarrow> P_authz az)
                else if he_build hf \<noteq> No_build then P_raw value else P_generic value) in
       map_option (map_option ((#) (hdr_of (eh_hf_type eh) p))) (uac_extra_hdrs ehs)
   }"

definition heap_zero :: usipy_msg_heap where
  "heap_zero = \<lparr>mh_tsize = 0, mh_alen = 0, mh_checkpoints = [], mh_ncheckpoints = 0, mh_checkpoint_top = 0,
     mh_first = 0, mh_cells = []\<rparr>"

text \<open>The headers before the extra ones. \<open>contact_expires\<close> and \<open>expires\<close> are the printed numbers.\<close>

definition uac_base_hdrs ::
  "'a usipy_sip_tm \<Rightarrow> usipy_sip_tm_txi \<Rightarrow> string \<Rightarrow> string \<Rightarrow> string option \<Rightarrow> string option \<Rightarrow>
     string option \<Rightarrow> usipy_sip_hdr list" where
  "uac_base_hdrs tm tp branch from_tag contact_expires expires content_type =
     (let uac = x_uac tp;
          via = (tm_default_via tm)\<lparr>via_host := ad_host (x_local tp), via_port := ucast (ad_port (x_local tp)),
            via_params := (via_params (tm_default_via tm))
              [0 := (via_params (tm_default_via tm) ! 0)\<lparr>tv_value := branch\<rparr>]\<rparr>;
          from = (tm_default_from tm)\<lparr>na_addr_spec := cc_from_uri uac,
            na_params := (na_params (tm_default_from tm))
              [0 := (na_params (tm_default_from tm) ! 0)\<lparr>tv_value := from_tag\<rparr>]\<rparr>;
          na_to = (tm_default_to tm)\<lparr>na_addr_spec := cc_to_uri uac\<rparr>;
          na_to = (if length (x_to_tag tp) \<noteq> 0
                   then na_to\<lparr>na_params := [\<lparr>tv_token = ''tag'', tv_value = x_to_tag tp\<rparr>]\<rparr> else na_to);
          contact = (tm_default_contact tm)\<lparr>na_addr_spec := cc_contact_uri uac\<rparr>;
          contact = (case contact_expires of None \<Rightarrow> contact
                     | Some e \<Rightarrow> contact\<lparr>na_params := [\<lparr>tv_token = ''expires'', tv_value = e\<rparr>]\<rparr>) in
      [hdr_of USIPY_HF_VIA (P_via via), hdr_of USIPY_HF_FROM (P_nameaddr from), hdr_of USIPY_HF_TO (P_nameaddr na_to)] @
      map (\<lambda>r. hdr_of USIPY_HF_ROUTE (P_generic r)) (cc_routes uac) @
      (if cc_include_contact uac then [hdr_of USIPY_HF_CONTACT (P_nameaddr contact)] else []) @
      [hdr_of USIPY_HF_CALLID (P_generic (x_call_id tp)), hdr_of USIPY_HF_CSEQ (P_cseq (x_cseq tp))] @
      (case expires of None \<Rightarrow> [] | Some e \<Rightarrow> [hdr_of USIPY_HF_EXPIRES (P_generic e)]) @
      (case content_type of None \<Rightarrow> [] | Some c \<Rightarrow> [hdr_of USIPY_HF_CONTENTTYPE (P_generic c)]))"

definition uac_message :: "usipy_sip_tm_txi \<Rightarrow> usipy_sip_hdr list \<Rightarrow> string \<Rightarrow> usipy_msg" where
  "uac_message tp hdrs body =
     \<lparr>m_onwire = [], m_body = body, m_kind = USIPY_SIP_MSG_REQ,
      m_sline = \<lparr>sln_onwire = [], sln_parsed = SL_request \<lparr>rl_version = ''SIP/2.0'', rl_onwire_method = [],
        rl_onwire_ruri = [], rl_onwire_version = [], rl_ruri = cc_request_uri (x_uac tp),
        rl_method = cseq_method (x_cseq tp)\<rparr>\<rparr>,
      m_hdrs = hdrs, m_heap = heap_zero, m_present = 0, m_parsed = 0\<rparr>"

text \<open>A number printed into the scratch heap, where the message wants it.\<close>

definition print_if :: "bool \<Rightarrow> nat \<Rightarrow> string option tx_val" where
  "print_if b n tp =
     (if b then on_scratch (\<lambda>h. then_do (heap_print (dec n) h) (\<lambda>s h. Some (Inr (Some s), h))) tp
      else Some (Inr None, tp))"

text \<open>
  The last part: the branch and the tag are read before the message is written over what follows the
  mark. The header types of the extra headers are looked at after the numbers are printed.
\<close>

definition uac_write ::
  "'a tm_env \<Rightarrow> 'a usipy_sip_tm \<Rightarrow> string \<Rightarrow> string option \<Rightarrow> usipy_sip_tm_extra_header list \<Rightarrow>
     string option \<Rightarrow> string option \<Rightarrow> string option \<Rightarrow> tx_act" where
  "uac_write ev tm body content_type ehs contact_expires expires clen tp = do {
     extra \<leftarrow> uac_extra_hdrs ehs;
     case extra of
       None \<Rightarrow> Some (USIPY_SIP_TM_ERR_INVAL, tp)
     | Some extra \<Rightarrow> do {
         let hdrs = uac_base_hdrs tm tp (ref_text (x_scratch tp) (x_branch tp)) (ref_text (x_scratch tp) (x_from_tag tp))
             contact_expires expires content_type @
           (if length (ev_user_agent ev) \<noteq> 0 then [hdr_of USIPY_HF_USERAGENT (P_generic (ev_user_agent ev))] else []) @
           extra @
           [hdr_of USIPY_HF_CONTENTLENGTH (P_generic (case clen of None \<Rightarrow> ''0'' | Some n \<Rightarrow> n))];
         (raw, h, _) \<leftarrow> usipy_sip_msg_build (x_scratch tp) (uac_message tp hdrs body);
         case raw of
           None \<Rightarrow> Some (USIPY_SIP_TM_ERR_NOSPC, tp\<lparr>x_scratch := h\<rparr>)
         | Some sl \<Rightarrow> Some (USIPY_SIP_TM_OK,
             sync_outbound (tp\<lparr>x_scratch := h, x_outbound := (x_outbound tp)\<lparr>ob_raw := sl\<rparr>\<rparr>))
       }
   }"

definition usipy_sip_tm_build_request ::
  "'a tm_env \<Rightarrow> 'a usipy_sip_tm \<Rightarrow> nat \<Rightarrow> usipy_sip_tm_request_payload option \<Rightarrow>
     usipy_sip_tm_extra_header list \<Rightarrow> tx_act" where
  "usipy_sip_tm_build_request ev tm tx_index payload ehs tp = do {
     let content_type = (case payload of None \<Rightarrow> [] | Some p \<Rightarrow> usipy_sip_tm_param_str (pl_content_type p));
     let body = (case payload of None \<Rightarrow> [] | Some p \<Rightarrow> usipy_sip_tm_param_str (pl_body p));
     let include_expires = (id_method_type (x_id tp) = USIPY_SIP_METHOD_INVITE);
     let include_ctype = (length body \<noteq> 0 \<and> length content_type \<noteq> 0);
     let uac = x_uac tp;
     dassert (x_checkpoint tp \<noteq> USIPY_MSG_HEAP_CHECKPOINT_NONE);
     h \<leftarrow> usipy_msg_heap_rollback (x_scratch tp) (x_checkpoint tp);
     acts
       [usipy_sip_tm_prepare_ids ev tm tx_index,
        act_let (print_if (cc_include_contact uac \<and> cc_contact_expires uac \<noteq> 0) (unat (cc_contact_expires uac)))
          (\<lambda>contact_expires.
            act_let (print_if include_expires (unat (cc_invite_expires uac))) (\<lambda>expires.
              if length body \<noteq> 0 \<and> length content_type = 0 then (\<lambda>t. Some (USIPY_SIP_TM_ERR_INVAL, t))
              else act_let (print_if (length body \<noteq> 0) (length body)) (\<lambda>clen.
                uac_write ev tm body (if include_ctype then Some content_type else None) ehs
                  contact_expires expires clen)))] (tp\<lparr>x_scratch := h\<rparr>)
   }"

end
