(* ===== verification/Usipy_Tmuac.thy ===== *)
theory Usipy_Tmuac
  imports Usipy_Tmreq Usipy_Tmuas
begin

unbundle bit_operations_syntax

text \<open>
  Component \<open>usipy_sip_tm_uac\<close> (\<open>src/usipy_sip_tm_uac.c\<close>), second half: client transactions. A request
  opens a slot; the pump sends and resends it and expires it; responses are matched to it; the ACK of
  an INVITE and a CANCEL are slots of their own, cloned from the INVITE. An INVITE the application gave up
  is abandoned: the manager cancels it, acknowledges what still comes, and ends a call that was
  set up meanwhile with BYE. The local address of a clone aliases that of its INVITE: here it is its
  text at the time.
\<close>

subsection \<open>Opening transactions\<close>

text \<open>A step on slot \<open>i\<close> of the manager, and a chain of such steps.\<close>

definition slot_act ::
  "nat \<Rightarrow> ('a usipy_sip_tm \<Rightarrow> tx_act) \<Rightarrow> 'a usipy_sip_tm \<Rightarrow> (usipy_sip_tm_error \<times> 'a usipy_sip_tm) abortable" where
  "slot_act i a tm = run_act i (a tm) tm"

fun tm_acts ::
  "('a usipy_sip_tm \<Rightarrow> (usipy_sip_tm_error \<times> 'a usipy_sip_tm) abortable) list \<Rightarrow> 'a usipy_sip_tm \<Rightarrow>
     (usipy_sip_tm_error \<times> 'a usipy_sip_tm) abortable" where
  "tm_acts [] tm = Some (USIPY_SIP_TM_OK, tm)"
| "tm_acts (a # as) tm = do {
     (r, tm) \<leftarrow> a tm;
     if r \<noteq> USIPY_SIP_TM_OK then Some (r, tm) else tm_acts as tm
   }"

text \<open>The slot becomes active and counts; it does not stop counting when a later step fails.\<close>

definition count_active :: "'a usipy_sip_tm \<Rightarrow> (usipy_sip_tm_error \<times> 'a usipy_sip_tm) abortable" where
  "count_active tm = Some (USIPY_SIP_TM_OK, tm\<lparr>tm_nactive := tm_nactive tm + 1\<rparr>)"

text \<open>The \<open>fail\<close> labels: the slot is reset; \<open>g\<close> is what becomes of the error.\<close>

definition or_fini ::
  "nat \<Rightarrow> (usipy_sip_tm_error \<Rightarrow> usipy_sip_tm_error) \<Rightarrow> (usipy_sip_tm_error \<times> 'a usipy_sip_tm) abortable \<Rightarrow>
     (usipy_sip_tm_error \<times> nat option \<times> 'a usipy_sip_tm) abortable" where
  "or_fini i g m = do {
     (r, tm) \<leftarrow> m;
     if r \<noteq> USIPY_SIP_TM_OK then Some (g r, None, upd i usipy_sip_tm_tx_fini tm)
     else Some (USIPY_SIP_TM_OK, Some i, tm)
   }"

definition addr_or_empty :: "usipy_sip_tm_addr option \<Rightarrow> usipy_sip_tm_addr" where
  "addr_or_empty a = (case a of None \<Rightarrow> addr_zero | Some a \<Rightarrow> a)"

definition callbacks_or_empty :: "usipy_sip_tm_uac_callbacks option \<Rightarrow> usipy_sip_tm_uac_callbacks" where
  "callbacks_or_empty cb = (case cb of None \<Rightarrow> uac_callbacks_zero | Some cb \<Rightarrow> cb)"

definition usipy_sip_tm_new_uac_tr ::
  "'a tm_env \<Rightarrow> 'a usipy_sip_tm \<Rightarrow> usipy_sip_tm_new_uac_tr_params \<Rightarrow>
     (usipy_sip_tm_error \<times> nat option \<times> 'a usipy_sip_tm) abortable" where
  "usipy_sip_tm_new_uac_tr ev tm tpp = do {
     let rid = nuc_request_id tpp;
     m \<leftarrow> usipy_sip_tm_lookup_uac_method (rid_method_type rid) False;
     case m of
       Inl e \<Rightarrow> Some (e, None, tm)
     | Inr mdp \<Rightarrow>
         (case usipy_sip_tm_alloc_slot tm of
            (None, tm) \<Rightarrow> Some (USIPY_SIP_TM_ERR_NOSPC, None, tm)
          | (Some i, tm) \<Rightarrow>
              let localp = addr_or_empty (nuc_local tpp) in
              or_fini i id (tm_acts
                [slot_act i (\<lambda>tm. acts
                   [act_let (usipy_sip_tm_request_uri_materialize ev (nuc_request_target tpp)) (\<lambda>request_uri.
                      usipy_sip_tm_init_uac_request rid request_uri mdp),
                    usipy_sip_tm_prepare_initial_call_id ev tm i,
                    usipy_sip_tm_init_uac_parties_by_username
                      (if length (ad_host localp) \<noteq> 0 then localp else tm_laddr tm) (nuc_parties_by_username tpp),
                    act_set (\<lambda>t. t\<lparr>x_uac := (x_uac t)\<lparr>cc_contact_expires := nuc_contact_expires tpp,
                      cc_invite_expires := (if nuc_invite_expires tpp \<noteq> 0 then nuc_invite_expires tpp else 300)\<rparr>\<rparr>),
                    usipy_sip_tm_activate_uac_slot tm
                      (if rid_method_type rid = USIPY_SIP_METHOD_INVITE then USIPY_SIP_TM_STATE_CALLING
                       else USIPY_SIP_TM_STATE_TRYING)
                      rid localp (rt_target (nuc_request_target tpp)) (callbacks_or_empty (nuc_callbacks tpp))
                      (usipy_sip_tm_timer_policy_resolve (nuc_timers tpp))]),
                 count_active,
                 slot_act i (\<lambda>tm. usipy_sip_tm_build_request ev tm i (nuc_payload tpp) [])] tm))
   }"

definition usipy_sip_tm_new_in_dialog_transaction ::
  "'a tm_env \<Rightarrow> 'a usipy_sip_tm \<Rightarrow> usipy_sip_tm_new_in_dialog_transaction_params \<Rightarrow>
     (usipy_sip_tm_error \<times> nat option \<times> 'a usipy_sip_tm) abortable" where
  "usipy_sip_tm_new_in_dialog_transaction ev tm tpp = do {
     let rid = nid_request_id tpp;
     call_id \<leftarrow> rid_call_id rid;
     request_uri \<leftarrow> rt_request_uri (nid_request_target tpp);
     contact \<leftarrow> rp_contact (nid_parties_by_uri tpp);
     from \<leftarrow> rp_from (nid_parties_by_uri tpp);
     hto \<leftarrow> rp_to (nid_parties_by_uri tpp);
     local_tag \<leftarrow> dt_local_tag (nid_dialog_tags tpp);
     remote_tag \<leftarrow> dt_remote_tag (nid_dialog_tags tpp);
     if rid_method_type rid > USIPY_SIP_METHOD_max \<or> length call_id = 0 \<or> length request_uri = 0 \<or>
        length contact = 0 \<or> length from = 0 \<or> length hto = 0 \<or> length local_tag = 0 \<or> length remote_tag = 0
     then Some (USIPY_SIP_TM_ERR_INVAL, None, tm)
     else do {
       let routes = (case nid_route_set tpp of None \<Rightarrow> [] | Some rs \<Rightarrow> rs);
       m \<leftarrow> usipy_sip_tm_lookup_uac_method (rid_method_type rid) True;
       case m of
         Inl e \<Rightarrow> Some (e, None, tm)
       | Inr mdp \<Rightarrow>
           (case usipy_sip_tm_alloc_slot tm of
              (None, tm) \<Rightarrow> Some (USIPY_SIP_TM_ERR_NOSPC, None, tm)
            | (Some i, tm) \<Rightarrow>
                or_fini i (\<lambda>_. USIPY_SIP_TM_ERR_NOSPC) (tm_acts
                  [slot_act i (\<lambda>tm. acts
                     [usipy_sip_tm_init_uac_request rid request_uri mdp,
                      usipy_sip_tm_init_uac_parties_by_uri (nid_parties_by_uri tpp) (nid_dialog_tags tpp),
                      act_let (on_scratch (usipy_sip_tm_copy_route_set routes)) (\<lambda>routes.
                        act_set (usipy_sip_tm_set_route_set routes)),
                      usipy_sip_tm_activate_uac_slot tm USIPY_SIP_TM_STATE_TRYING rid
                        (addr_or_empty (nid_local tpp)) (rt_target (nid_request_target tpp))
                        (callbacks_or_empty (nid_callbacks tpp))
                        (usipy_sip_tm_timer_policy_resolve (nid_timers tpp))]),
                   count_active,
                   slot_act i (\<lambda>tm. usipy_sip_tm_prepare_ids ev tm i)] tm))
     }
   }"

text \<open>
  The ACK or CANCEL of an INVITE. The fields of the INVITE are read after the slot is allocated: an
  INVITE that was itself evicted for it has no request URI, which the copy asserts.
\<close>

definition clone_steps :: "usipy_sip_tm_txi \<Rightarrow> nat \<Rightarrow> tx_act list" where
  "clone_steps src method_type =
     [(if length (x_call_id src) \<noteq> 0 then act_keep (x_call_id src) (\<lambda>s t. t\<lparr>x_call_id := s\<rparr>) else act_set id),
      usipy_sip_tm_copy_parsed_uri (cc_request_uri (x_uac src)),
      usipy_sip_tm_copy_uri (cc_from_uri (x_uac src)) put_from_uri,
      usipy_sip_tm_copy_uri (cc_to_uri (x_uac src)) put_to_uri,
      usipy_sip_tm_copy_uri (cc_contact_uri (x_uac src)) put_contact_uri,
      act_set (\<lambda>t. t\<lparr>x_method_type := method_type\<rparr>),
      (if ref_len (x_from_tag src) \<noteq> 0
       then act_keep (ref_text (x_scratch src) (x_from_tag src)) (\<lambda>s t. t\<lparr>x_from_tag := Kept s\<rparr>) else act_set id),
      (if method_type = USIPY_SIP_METHOD_CANCEL \<and> ref_len (x_branch src) \<noteq> 0
       then act_keep (ref_text (x_scratch src) (x_branch src)) (\<lambda>s t. t\<lparr>x_branch := Kept s\<rparr>) else act_set id)]"

definition clone_activate :: "usipy_sip_tm_txi \<Rightarrow> nat \<Rightarrow> nat \<Rightarrow> usipy_sip_tm_txi \<Rightarrow> usipy_sip_tm_txi" where
  "clone_activate src parent_index method_type t =
     t\<lparr>x_uac := (x_uac t)\<lparr>cc_invite_expires := cc_invite_expires (x_uac src), cc_include_contact := False\<rparr>,
       x_cseq := (x_cseq t)\<lparr>cseq_val := cseq_val (x_cseq src), cseq_method := method_type\<rparr>,
       x_active := True,
       x_parent_index := (if method_type = USIPY_SIP_METHOD_ACK then Some parent_index else None),
       x_role := USIPY_SIP_TM_ROLE_UAC,
       x_state := (if method_type = USIPY_SIP_METHOD_ACK then USIPY_SIP_TM_STATE_CALLING
                   else USIPY_SIP_TM_STATE_TRYING),
       x_flags := x_flags src AND NOT USIPY_SIP_TM_F_ABANDONED\<rparr>"

definition clone_outbound :: "usipy_sip_tm_txi \<Rightarrow> tx_act" where
  "clone_outbound src t = do {
     (cp, h) \<leftarrow> usipy_msg_heap_checkpoint (x_scratch t);
     let ob = \<lparr>ob_target = x_peer t, ob_raw = slice_null, ob_next_send_at_ms = USIPY_SIP_TM_TIME_NONE\<rparr>;
     Some (USIPY_SIP_TM_OK, t\<lparr>x_scratch := h, x_checkpoint := cp, x_local := x_local src, x_outbound := ob,
       x_pub_outbound := ob, x_timers := x_timers src,
       x_id := (x_id t)\<lparr>id_call_id := x_call_id t, id_cseq := cseq_val (x_cseq t),
         id_method_type := x_method_type t\<rparr>\<rparr>)
   }"

definition usipy_sip_tm_clone_uac_invite ::
  "'a usipy_sip_tm \<Rightarrow> nat \<Rightarrow> nat \<Rightarrow> (usipy_sip_tm_error \<times> nat option \<times> 'a usipy_sip_tm) abortable" where
  "usipy_sip_tm_clone_uac_invite tm parent_index method_type = do {
     dassert (parent_index < max_transactions tm);
     dassert (method_type = USIPY_SIP_METHOD_ACK \<or> method_type = USIPY_SIP_METHOD_CANCEL);
     case usipy_sip_tm_alloc_slot tm of
       (None, tm) \<Rightarrow> Some (USIPY_SIP_TM_ERR_NOSPC, None, tm)
     | (Some i, tm) \<Rightarrow>
         let src = txn tm parent_index in
         or_fini i (\<lambda>_. USIPY_SIP_TM_ERR_NOSPC) (tm_acts
           [slot_act i (\<lambda>_. acts (clone_steps src method_type @
              [act_set (clone_activate src parent_index method_type)])),
            count_active,
            slot_act i (\<lambda>_. acts
              [usipy_sip_tm_copy_target_addr (\<lambda>a t. t\<lparr>x_peer := a\<rparr>) (x_peer src), clone_outbound src])] tm)
   }"

subsection \<open>Abandoning an INVITE\<close>

text \<open>
  The chain of children of slot \<open>p\<close>. A chain without a cycle is no longer than the table; on a cycle
  the recursion of the code does not end.
\<close>

fun usipy_sip_tm_tx_terminate_child :: "nat \<Rightarrow> nat \<Rightarrow> 'a usipy_sip_tm \<Rightarrow> 'a usipy_sip_tm abortable" where
  "usipy_sip_tm_tx_terminate_child 0 p tm = None"
| "usipy_sip_tm_tx_terminate_child (Suc fuel) p tm =
     (case x_child_index (txn tm p) of
        None \<Rightarrow> Some tm
      | Some c \<Rightarrow> do {
          dassert (c < max_transactions tm);
          tm \<leftarrow> (if x_active (txn tm c) then do {
              tm \<leftarrow> usipy_sip_tm_tx_terminate_child fuel c tm;
              let t = usipy_sip_tm_tx_clear_invite_timeout (usipy_sip_tm_tx_clear_timer
                (usipy_sip_tm_tx_mark_terminated (txn tm c)));
              t \<leftarrow> usipy_sip_tm_release_outbound (t\<lparr>x_parent_index := None, x_child_index := None\<rparr>);
              Some (upd c (\<lambda>_. t) tm)
            }
            else Some tm);
          Some (upd p (\<lambda>t. t\<lparr>x_child_index := None\<rparr>) tm)
        })"

text \<open>A change of the INVITE state of a slot, which must have one.\<close>

definition upd_invite ::
  "nat \<Rightarrow> (usipy_sip_tm_uac_invite \<Rightarrow> usipy_sip_tm_uac_invite) \<Rightarrow> 'a usipy_sip_tm \<Rightarrow> 'a usipy_sip_tm abortable" where
  "upd_invite i f tm = do {
     inv \<leftarrow> x_invite (txn tm i);
     Some (upd i (\<lambda>t. t\<lparr>x_invite := Some (f inv)\<rparr>) tm)
   }"

definition usipy_sip_tm_uac_start_cancel ::
  "'a tm_env \<Rightarrow> 'a usipy_sip_tm \<Rightarrow> nat \<Rightarrow> (usipy_sip_tm_error \<times> 'a usipy_sip_tm) abortable" where
  "usipy_sip_tm_uac_start_cancel ev tm parent_index = do {
     dassert (parent_index < max_transactions tm);
     inv \<leftarrow> x_invite (txn tm parent_index);
     if inv_cancel_state inv = USIPY_SIP_TM_INVITE_CANCEL_ONWIRE then Some (USIPY_SIP_TM_OK, tm)
     else if \<not> inv_provisional_seen inv then do {
       tm \<leftarrow> upd_invite parent_index (\<lambda>inv. inv\<lparr>inv_cancel_state := USIPY_SIP_TM_INVITE_CANCEL_SCHEDULED\<rparr>) tm;
       Some (USIPY_SIP_TM_OK, tm)
     }
     else do {
       (r, cancel, tm) \<leftarrow> usipy_sip_tm_clone_uac_invite tm parent_index USIPY_SIP_METHOD_CANCEL;
       case cancel of
         None \<Rightarrow> Some (USIPY_SIP_TM_ERR_NOSPC, tm)
       | Some ci \<Rightarrow> do {
           let tm = upd ci (\<lambda>t. t\<lparr>x_callbacks := uac_callbacks_zero\<rparr>) tm;
           (r, tm) \<leftarrow> run_act ci (usipy_sip_tm_build_request ev tm ci None []) tm;
           if r \<noteq> USIPY_SIP_TM_OK
           then Some (USIPY_SIP_TM_ERR_NOSPC,
             (upd ci usipy_sip_tm_tx_fini tm)\<lparr>tm_nactive := tm_nactive tm - 1\<rparr>)
           else do {
             tm \<leftarrow> upd_invite parent_index (\<lambda>inv. inv\<lparr>inv_cancel_state := USIPY_SIP_TM_INVITE_CANCEL_ONWIRE\<rparr>) tm;
             let tm = upd parent_index usipy_sip_tm_tx_clear_invite_timeout tm;
             Some (USIPY_SIP_TM_OK, upd ci (usipy_sip_tm_uac_arm_send_now 0) tm)
           }
         }
     }
   }"

definition usipy_sip_tm_uac_finish_abandoned :: "usipy_sip_tm_txi \<Rightarrow> usipy_sip_tm_txi abortable" where
  "usipy_sip_tm_uac_finish_abandoned tp =
     usipy_sip_tm_release_outbound (usipy_sip_tm_tx_clear_invite_timeout (usipy_sip_tm_tx_mark_terminated tp))"

text \<open>A step on a slot that has no result.\<close>

definition upd_step :: "nat \<Rightarrow> (usipy_sip_tm_txi \<Rightarrow> usipy_sip_tm_txi abortable) \<Rightarrow> 'a usipy_sip_tm \<Rightarrow>
    'a usipy_sip_tm abortable" where
  "upd_step i f tm = map_option (\<lambda>t. upd i (\<lambda>_. t) tm) (f (txn tm i))"

abbreviation abandoned :: "usipy_sip_tm_txi \<Rightarrow> bool" where
  "abandoned t \<equiv> has_flag (x_flags t) USIPY_SIP_TM_F_ABANDONED"

definition usipy_sip_tm_uac_abandon :: "'a tm_env \<Rightarrow> 'a usipy_sip_tm \<Rightarrow> nat \<Rightarrow> 'a usipy_sip_tm abortable" where
  "usipy_sip_tm_uac_abandon ev tm index = do {
     dassert (\<not> abandoned (txn tm index));
     let tm = upd index (\<lambda>t. usipy_sip_tm_tx_clear_invite_timeout
       (raise_flag USIPY_SIP_TM_F_ABANDONED (t\<lparr>x_callbacks := uac_callbacks_zero\<rparr>))) tm;
     if x_retransmit_count (txn tm index) = 0 then upd_step index usipy_sip_tm_uac_finish_abandoned tm
     else do {
       (rval, tm) \<leftarrow> usipy_sip_tm_uac_start_cancel ev tm index;
       if rval \<noteq> USIPY_SIP_TM_OK then upd_step index usipy_sip_tm_uac_finish_abandoned tm else Some tm
     }
   }"

text \<open>64 times T1, on 64 bits and asserted to fit 32.\<close>

definition t1_times_64 :: "usipy_sip_tm_timer_policy \<Rightarrow> uint32 abortable" where
  "t1_times_64 timers = do {
     let ms = (ucast (t1_ms timers) :: 64 word) * 64;
     dassert (ms \<le> 0xFFFFFFFF);
     Some (ucast ms)
   }"

definition usipy_sip_tm_uac_cleanup_ms :: "usipy_sip_tm_timer_policy \<Rightarrow> uint32 abortable" where
  "usipy_sip_tm_uac_cleanup_ms timers = t1_times_64 timers"

definition usipy_sip_tm_uac_arm_cleanup :: "time_ms \<Rightarrow> usipy_sip_tm_txi \<Rightarrow> usipy_sip_tm_txi abortable" where
  "usipy_sip_tm_uac_arm_cleanup now tp =
     (let guard = (\<lambda>st. do {
        inv \<leftarrow> x_invite tp;
        if inv_cancel_state inv \<noteq> st \<or> inv_timeout_at_ms inv \<noteq> USIPY_SIP_TM_TIME_NONE then Some tp
        else do {
          v \<leftarrow> usipy_sip_tm_uac_cleanup_ms (x_timers tp);
          Some (tp\<lparr>x_invite := Some (inv\<lparr>inv_timeout_at_ms := now + ucast v\<rparr>)\<rparr>)
        }
      }) in
      if \<not> abandoned tp then Some tp
      else (case x_state tp of
              USIPY_SIP_TM_STATE_CALLING \<Rightarrow> guard USIPY_SIP_TM_INVITE_CANCEL_SCHEDULED
            | USIPY_SIP_TM_STATE_PROCEEDING \<Rightarrow> guard USIPY_SIP_TM_INVITE_CANCEL_ONWIRE
            | _ \<Rightarrow> Some tp))"

text \<open>
  A 2xx to an abandoned INVITE: a BYE that waits behind the ACK. The parameters go to a local heap of
  1024 bytes, which are written before they are read.
\<close>

abbreviation (input) USIPY_SIP_TM_ABANDONED_HEAP_SIZE :: nat where "USIPY_SIP_TM_ABANDONED_HEAP_SIZE \<equiv> 1024"

definition abandoned_heap :: usipy_msg_heap where
  "abandoned_heap = usipy_msg_heap_init 0 (replicate USIPY_SIP_TM_ABANDONED_HEAP_SIZE NUL)
     (of_nat USIPY_SIP_TM_ABANDONED_HEAP_SIZE) [] 0"

definition usipy_sip_tm_abandoned_uac ::
  "'a tm_env \<Rightarrow> 'a usipy_sip_tm \<Rightarrow> nat \<Rightarrow> usipy_msg \<Rightarrow> 8 word \<Rightarrow>
     (usipy_sip_tm_error \<times> usipy_msg \<times> 'a usipy_sip_tm) abortable" where
  "usipy_sip_tm_abandoned_uac ev tm index msg sclass =
     (if sclass \<noteq> 2 then Some (USIPY_SIP_TM_OK, msg, tm)
      else do {
        inv \<leftarrow> x_invite (txn tm index);
        if inv_bye_started inv then Some (USIPY_SIP_TM_OK, msg, tm)
        else do {
          (dialog, _, msg) \<leftarrow> usipy_sip_tm_init_uac_dialog_request_params (ev_stk ev) tm index msg
            USIPY_SIP_METHOD_BYE abandoned_heap;
          case dialog of
            Inl e \<Rightarrow> Some (e, msg, tm)
          | Inr d \<Rightarrow> do {
              let params = usipy_sip_tm_dialog_request_get_params (d\<lparr>dr_cseq := dr_cseq d + 1\<rparr>);
              (rval, bye, tm) \<leftarrow> usipy_sip_tm_new_in_dialog_transaction ev tm params;
              case bye of
                None \<Rightarrow> Some (rval, msg, tm)
              | Some bi \<Rightarrow> do {
                  let tm = upd bi (\<lambda>t. t\<lparr>x_outbound := (x_outbound t)\<lparr>ob_next_send_at_ms := USIPY_SIP_TM_TIME_NONE\<rparr>,
                    x_pub_outbound := (x_pub_outbound t)\<lparr>ob_next_send_at_ms := USIPY_SIP_TM_TIME_NONE\<rparr>,
                    x_parent_index := Some index\<rparr>) tm;
                  ci \<leftarrow> x_child_index (txn tm index);
                  dassert (ci < max_transactions tm);
                  let tm = upd ci (\<lambda>t. t\<lparr>x_child_index := Some bi\<rparr>) tm;
                  tm \<leftarrow> upd_invite index (\<lambda>inv. inv\<lparr>inv_bye_started := True\<rparr>) tm;
                  Some (USIPY_SIP_TM_OK, msg, tm)
                }
            }
        }
      })"

end
