(* ===== verification/Usipy_Tmreqfacts.thy ===== *)
theory Usipy_Tmreqfacts
  imports Usipy_Tmrun Usipy_Tmuac Usipy_Msgtext
begin

unbundle bit_operations_syntax

text \<open>
  Client transactions: the contracts of the steps that open one and that write its request. What they do
  to a heap stays in its frame; what they do to a slot stays in the fields they are for.
\<close>

subsection \<open>Steps on a heap\<close>

definition heap_in :: "(usipy_msg_heap \<Rightarrow> 'b heap_result) \<Rightarrow> bool" where
  "heap_in f \<longleftrightarrow> (\<forall>h r h'. f h = Some (r, h') \<longrightarrow> keeps h h')"

named_theorems heap_in_intros \<open>steps on a heap stay in its frame\<close>

lemma then_do_in [heap_in_intros]:
  assumes "heap_in m" "\<And>v. heap_in (f v)"
  shows "heap_in (\<lambda>h. then_do (m h) f)"
  unfolding heap_in_def
proof (intro allI impI)
  fix h r h' assume d: "then_do (m h) f = Some (r, h')"
  then obtain q h1 where m: "m h = Some (q, h1)" by (auto simp: then_do_def bind_eq_Some_conv)
  then have "h' = h1 \<or> (\<exists>v. f v h1 = Some (r, h'))" using d by (cases q) (auto simp: then_do_def)
  with m show "keeps h h'" using assms keeps_trans unfolding heap_in_def by blast
qed

lemma heap_in_ret [heap_in_intros]: "heap_in (\<lambda>h. Some (f h, h))"
  by (simp add: heap_in_def)

lemma heap_in_if [heap_in_intros]: "heap_in f \<Longrightarrow> heap_in g \<Longrightarrow> heap_in (\<lambda>h. if c then f h else g h)"
  by (simp add: heap_in_def)

lemma heap_keep_in [heap_in_intros]: "heap_in (\<lambda>h. heap_keep h s)"
  unfolding heap_in_def
proof (intro allI impI)
  fix h r h' assume k: "heap_keep h s = Some (r, h')"
  then have "c_object s" "h' = snd (usipy_msg_heap_append h s)"
    by (auto simp: heap_keep_def split: option.splits prod.splits)
  then show "keeps h h'" by (simp add: append_keeps)
qed

lemma heap_printf_in [heap_in_intros]: "heap_in (heap_printf s)"
  unfolding heap_in_def
proof (intro allI impI)
  fix h r h' assume k: "heap_printf s h = Some (r, h')"
  then have "c_object s" "h' = snd (usipy_msg_heap_sprintf h s)"
    by (auto simp: heap_printf_def split: option.splits prod.splits)
  then show "keeps h h'" by (simp add: sprintf_keeps)
qed

lemma heap_print_in [heap_in_intros]: "heap_in (heap_print s)"
  unfolding heap_print_def by (intro heap_in_intros)

lemma heap_strs_in [heap_in_intros]: "heap_in (\<lambda>h. heap_strs h n)"
  unfolding heap_in_def
proof (intro allI impI)
  fix h r h' assume k: "heap_strs h n = Some (r, h')"
  then have n: "n < 2 ^ 52" and h': "h' = snd (usipy_msg_heap_alloc h (of_nat (16 * n)))"
    by (auto simp: heap_strs_def heap_array_def split: option.splits prod.splits)
  have "unat (of_nat (16 * n) :: size_t) = 16 * n" using n by (subst unat_of_nat) simp
  then show "keeps h h'" unfolding h' using n by (intro alloc_keeps) simp
qed

lemma heap_keep_all_in [heap_in_intros]: "heap_in (heap_keep_all ss acc)"
proof (induction ss arbitrary: acc)
  case Nil
  have "heap_keep_all [] acc = (\<lambda>h. Some (Inr acc, h))" by (intro ext) simp
  then show ?case by (simp only: heap_in_ret)
next
  case (Cons s ss)
  have "heap_keep_all (s # ss) acc = (\<lambda>h. then_do (heap_keep h s) (\<lambda>s. heap_keep_all ss (acc @ [s])))"
    by (intro ext) simp
  moreover have "heap_in \<dots>" by (intro heap_in_intros Cons.IH)
  ultimately show ?case by (simp only:)
qed

lemma parse_uri_keeps: "parse_uri_at h s = Some (u, h') \<Longrightarrow> keeps h h'"
  using uri_parse_refines[of h s] by (auto simp: parse_uri_at_def c_object_def keeps_def extends_def)

lemma heap_uri_in [heap_in_intros]: "heap_in (\<lambda>h. heap_uri h s)"
  unfolding heap_in_def heap_uri_def
  by (auto simp: bind_eq_Some_conv split: option.splits if_splits dest: parse_uri_keeps)

lemma heap_parse_uri_in [heap_in_intros]: "heap_in (heap_parse_uri s)"
  unfolding heap_in_def heap_parse_uri_def by (auto dest: parse_uri_keeps)

lemma heap_build_uri_in [heap_in_intros]: "heap_in (heap_build_uri u)"
  unfolding heap_in_def
proof (intro allI impI)
  fix h r h' assume "heap_build_uri u h = Some (r, h')"
  then have "h' = snd (usipy_msg_heap_build h (usipy_sip_uri_build u))"
    by (auto simp: heap_build_uri_def split: option.splits prod.splits)
  then show "keeps h h'" using build_keeps[of "usipy_sip_uri_build u" h] uri_build_sound by blast
qed

text \<open>A message is built in its room.\<close>

lemma msg_build_keeps:
  assumes "usipy_sip_msg_build h m = Some (r, h', m')"
  shows "keeps h h'"
proof -
  let ?n = "unat (mh_tsize h - USIPY_ALIGNED_SIZE (mh_alen h))"
  obtain out where out: "(if mh_tsize h - USIPY_ALIGNED_SIZE (mh_alen h) = 0 then Some None
      else usipy_sip_msg_build_cb m ?n) = Some out"
    "(case usipy_msg_heap_build h (\<lambda>_. out) of (None, hp) \<Rightarrow> Some (None, hp, m)
         | (Some sl, hp) \<Rightarrow> Some (Some sl, hp, m\<lparr>m_onwire := slice_read hp sl\<rparr>)) = Some (r, h', m')"
    using assms unfolding usipy_sip_msg_build_def Let_def bind_eq_Some_conv by blast
  have h': "h' = snd (usipy_msg_heap_build h (\<lambda>_. out))" using out(2) by (auto split: prod.split_asm option.split_asm)
  let ?cb = "\<lambda>c. if c = ?n then out else None"
  have "usipy_msg_heap_build h (\<lambda>_. out) = usipy_msg_heap_build h ?cb"
    by (simp add: usipy_msg_heap_build_def Let_def)
  moreover have "length t \<le> c" if "?cb c = Some t" for c t
    using that out(1) build_cb_text[of m ?n t] by (auto split: if_splits)
  ultimately show ?thesis using build_keeps[of ?cb h] h' by simp
qed

text \<open>Giving the newest checkpoint back.\<close>

lemma rollback_keeps:
  assumes "usipy_msg_heap_rollback h c = Some h'"
  shows "keeps h h'"
  unfolding keeps_def
proof
  assume ok: "heap_ok h"
  have c: "mh_checkpoint_top h > 0" "c \<noteq> USIPY_MSG_HEAP_CHECKPOINT_NONE" "c = mh_checkpoint_top h - 1"
    "mh_checkpoints h ! unat c \<le> mh_alen h"
    using assms unfolding usipy_msg_heap_rollback_def Let_def dassert_bind by blast+
  let ?k = "unat (mh_checkpoint_top h)"
  have "1 \<le> mh_checkpoint_top h" using c(1) by (simp add: word_le_nat_alt word_less_nat_alt Suc_le_eq)
  then have k: "unat c = ?k - 1" unfolding c(3) by (simp add: unat_sub)
  have k0: "0 < ?k" using c(1) by (simp add: word_less_nat_alt)
  have "mh_checkpoint_top h \<le> mh_ncheckpoints h" "unat (mh_ncheckpoints h) \<le> length (mh_checkpoints h)"
    and sd: "sorted (live_checkpoints h)" using ok by (simp_all add: heap_ok_def)
  then have "?k \<le> length (mh_checkpoints h)" by (simp add: word_le_nat_alt)
  then have l: "length (live_checkpoints h) = ?k" "mh_checkpoints h ! unat c = live_checkpoints h ! (?k - 1)"
    using k k0 by (simp_all add: live_checkpoints_def)
  have "x \<le> live_checkpoints h ! (?k - 1)" if x: "x \<in> set (live_checkpoints h)" for x
  proof -
    obtain i where i: "i < ?k" "x = live_checkpoints h ! i" using x unfolding in_set_conv_nth l(1) by blast
    have "i \<le> ?k - 1" "?k - 1 < length (live_checkpoints h)" unfolding l(1) using i(1) k0 by linarith+
    then show ?thesis unfolding i(2) by (rule sorted_nth_mono[OF sd])
  qed
  then obtain g where "usipy_msg_heap_rollback h c = Some g" "heap_ok g" "same_frame h g"
    using rollback_Some[OF ok c(1,3,2,4)] l(2) by metis
  then show "heap_ok h' \<and> same_frame h h'" using assms by simp
qed

subsection \<open>Steps on a slot\<close>

definition val_in :: "(usipy_sip_tm_txi \<Rightarrow> usipy_sip_tm_txi \<Rightarrow> bool) \<Rightarrow> 'b tx_val \<Rightarrow> bool" where
  "val_in R m \<longleftrightarrow> (\<forall>t r t'. m t = Some (r, t') \<longrightarrow> R t t')"

context slot_contract
begin

lemma let_in:
  assumes "val_in R m" "\<And>v. step_in R (f v)"
  shows "step_in R (act_let m f)"
  unfolding step_in_def
proof (intro allI impI)
  fix t r t' assume d: "act_let m f t = Some (r, t')"
  then obtain q u where m: "m t = Some (q, u)" by (auto simp: act_let_def bind_eq_Some_conv)
  then have "t' = u \<or> (\<exists>v. f v u = Some (r, t'))" using d by (cases q) (auto simp: act_let_def)
  with m show "R t t'" using assms chain unfolding val_in_def step_in_def by blast
qed

lemma scratch_in:
  assumes "heap_in f"
  shows "val_in R (on_scratch f)"
  using assms heap unfolding val_in_def on_scratch_def heap_in_def by auto

lemma if_in: "step_in R a \<Longrightarrow> step_in R b \<Longrightarrow> step_in R (if c then a else b)"
  by simp

lemma skip_in: "step_in R (act_set id)"
  by (intro set_in) (simp add: same)

lemma target_addr_in:
  assumes "\<And>a t. R t (put a t)"
  shows "step_in R (usipy_sip_tm_copy_target_addr put src)"
  using keep_in[of "\<lambda>s. put (src\<lparr>ad_host := s\<rparr>)" "ad_host src"] assms
  by (auto simp: step_in_def usipy_sip_tm_copy_target_addr_def)

lemma materialize_in: "val_in R (usipy_sip_tm_request_uri_materialize ev targetp)"
proof -
  have s: "val_in R (on_scratch (\<lambda>h. heap_keep h s))" "val_in R (on_scratch (heap_print s))" for s
    by (intro scratch_in heap_in_intros)+
  show ?thesis
    using s same unfolding val_in_def usipy_sip_tm_request_uri_materialize_def
    by (auto simp: Let_def bind_eq_Some_conv split: if_splits)
qed

lemma local_uri_in:
  assumes "\<And>s t. R t (put s t)"
  shows "step_in R (usipy_sip_tm_format_local_uri localp userp p put)"
  using printf_in[of "\<lambda>sl t. put (slice_read (x_scratch t) sl) t"] assms same
  by (auto simp: step_in_def usipy_sip_tm_format_local_uri_def Let_def split: address_family.splits)

lemma copy_uri_in:
  assumes "\<And>s t. R t (put s t)"
  shows "step_in R (usipy_sip_tm_copy_uri src put)"
  unfolding usipy_sip_tm_copy_uri_def by (intro if_in set_in keep_in assms)

lemma parsed_uri_in:
  assumes "\<And>u t. R t (t\<lparr>x_uac := (x_uac t)\<lparr>cc_request_uri := Some u\<rparr>\<rparr>)"
  shows "step_in R (usipy_sip_tm_copy_parsed_uri srcp)"
proof (cases srcp)
  case (Some src)
  have "step_in R (act_let (on_scratch (heap_build_uri src)) (\<lambda>uris.
       act_let (on_scratch (heap_parse_uri uris)) (\<lambda>u.
         act_set (\<lambda>t. t\<lparr>x_uac := (x_uac t)\<lparr>cc_request_uri := Some u\<rparr>\<rparr>))))"
    by (intro let_in scratch_in heap_in_intros set_in assms)
  then show ?thesis by (simp add: step_in_def usipy_sip_tm_copy_parsed_uri_def Some)
qed (simp add: step_in_def usipy_sip_tm_copy_parsed_uri_def)

lemma default_ids_in: "val_in R (usipy_sip_tm_prepare_default_ids i)"
proof -
  have h: "heap_in (\<lambda>h. then_do (heap_printf (''z9hG4bK-'' @ index_text i @ ''-'' @ dec n) h) (\<lambda>b h.
       then_do (heap_printf (''t'' @ index_text i) h) (\<lambda>l h.
         Some (Inr (ids_zero\<lparr>ipo_branch := Scratch b, ipo_local_tag := Scratch l\<rparr>), h))))" for n
    by (intro heap_in_intros)
  show ?thesis
    unfolding val_in_def usipy_sip_tm_prepare_default_ids_def
    using scratch_in[OF h, unfolded val_in_def] by blast
qed

lemma policy_in:
  assumes "policy_ok ev"
  shows "val_in R (ask_id_policy ev tm cb i)"
  unfolding val_in_def
proof (intro allI impI)
  fix t r t' assume a: "ask_id_policy ev tm cb i t = Some (r, t')"
  let ?q = "ev_id_policy ev cb (tm_id_policy_arg tm) (x_scratch t)
     \<lparr>ipi_transaction_index = i, ipi_cseq = cseq_val (x_cseq t), ipi_method_type = x_method_type t\<rparr>"
  have "t' = t\<lparr>x_scratch := snd ?q\<rparr>"
    using a by (auto simp: ask_id_policy_def split: option.split_asm prod.split_asm)
  then show "R t t'" using assms heap by (simp add: policy_ok_def)
qed

lemma initial_call_id_in:
  assumes "policy_ok ev" "\<And>s t. R t (t\<lparr>x_call_id := s\<rparr>)"
  shows "step_in R (usipy_sip_tm_prepare_initial_call_id ev tm i)"
proof -
  let ?m = "case tm_id_policy tm of Some cb \<Rightarrow> ask_id_policy ev tm cb i
         | None \<Rightarrow> on_scratch (\<lambda>h. then_do (heap_printf (''c'' @ index_text i) h) (\<lambda>c h.
             Some (Inr (ids_zero\<lparr>ipo_call_id := Scratch c\<rparr>), h)))"
  have "val_in R ?m"
    by (cases "tm_id_policy tm") (simp_all add: policy_in assms(1) scratch_in heap_in_intros)
  moreover have "step_in R (\<lambda>tp. if ref_len (ipo_call_id ids) = 0 then Some (USIPY_SIP_TM_ERR_NOSPC, tp)
           else act_keep (ref_text (x_scratch tp) (ipo_call_id ids)) (\<lambda>s t. t\<lparr>x_call_id := s\<rparr>) tp)" for ids
    using keep_in[of "\<lambda>s t. t\<lparr>x_call_id := s\<rparr>"] assms(2) same by (auto simp: step_in_def)
  ultimately have "step_in R (act_let ?m (\<lambda>ids tp. if ref_len (ipo_call_id ids) = 0 then Some (USIPY_SIP_TM_ERR_NOSPC, tp)
           else act_keep (ref_text (x_scratch tp) (ipo_call_id ids)) (\<lambda>s t. t\<lparr>x_call_id := s\<rparr>) tp))"
    by (rule let_in)
  then show ?thesis
    using same unfolding step_in_def usipy_sip_tm_prepare_initial_call_id_def by simp
qed

lemma prepare_ids_in:
  assumes "policy_ok ev" "\<And>ids t. R t (set_ids ids t)"
  shows "step_in R (usipy_sip_tm_prepare_ids ev tm i)"
  unfolding usipy_sip_tm_prepare_ids_def
proof (rule let_in)
  show "val_in R (case tm_id_policy tm of Some cb \<Rightarrow> ask_id_policy ev tm cb i
      | None \<Rightarrow> usipy_sip_tm_prepare_default_ids i)"
    by (cases "tm_id_policy tm") (simp_all add: policy_in assms(1) default_ids_in)
qed (use assms(2) same in \<open>auto simp: step_in_def\<close>)

lemma print_if_in: "val_in R (print_if b n)"
proof -
  have "val_in R (on_scratch (\<lambda>h. then_do (heap_print (dec n) h) (\<lambda>s h. Some (Inr (Some s), h))))"
    by (intro scratch_in heap_in_intros)
  then show ?thesis using same unfolding val_in_def print_if_def by auto
qed

lemma write_in:
  assumes "\<And>ob t. R t (t\<lparr>x_outbound := ob, x_pub_outbound := ob\<rparr>)"
  shows "step_in R (uac_write ev tm body ct ehs ce ex cl)"
  unfolding step_in_def
proof (intro allI impI)
  fix t r t' assume w: "uac_write ev tm body ct ehs ce ex cl t = Some (r, t')"
  obtain extra where e: "uac_extra_hdrs ehs = Some extra" using w by (auto simp: uac_write_def bind_eq_Some_conv)
  show "R t t'"
  proof (cases extra)
    case None
    then show ?thesis using w e same by (simp add: uac_write_def)
  next
    case (Some x)
    then obtain m raw h m' where b: "usipy_sip_msg_build (x_scratch t) m = Some (raw, h, m')"
      "(case raw of None \<Rightarrow> Some (USIPY_SIP_TM_ERR_NOSPC, t\<lparr>x_scratch := h\<rparr>)
         | Some sl \<Rightarrow> Some (USIPY_SIP_TM_OK, sync_outbound (t\<lparr>x_scratch := h, x_outbound := (x_outbound t)\<lparr>ob_raw := sl\<rparr>\<rparr>))) =
       Some (r, t')"
      using w e by (auto simp: uac_write_def Let_def bind_eq_Some_conv)
    have "R t (t\<lparr>x_scratch := h\<rparr>)" using msg_build_keeps[OF b(1)] by (rule heap)
    moreover have "R (t\<lparr>x_scratch := h\<rparr>) ((t\<lparr>x_scratch := h\<rparr>)\<lparr>x_outbound := ob, x_pub_outbound := ob\<rparr>)" for ob
      by (rule assms)
    ultimately show ?thesis using b(2) chain by (cases raw) (auto simp: sync_outbound_def)
  qed
qed

lemma build_request_in:
  assumes "policy_ok ev" "\<And>ids t. R t (set_ids ids t)" "\<And>ob t. R t (t\<lparr>x_outbound := ob, x_pub_outbound := ob\<rparr>)"
  shows "step_in R (usipy_sip_tm_build_request ev tm i payload ehs)"
  unfolding step_in_def
proof (intro allI impI)
  fix t r t' assume "usipy_sip_tm_build_request ev tm i payload ehs t = Some (r, t')"
  then obtain h g where h: "usipy_msg_heap_rollback (x_scratch t) (x_checkpoint t) = Some h"
    and g: "acts [usipy_sip_tm_prepare_ids ev tm i, g] (t\<lparr>x_scratch := h\<rparr>) = Some (r, t')" "step_in R g"
  proof (atomize_elim, goal_cases)
    case 1
    let ?b = "case payload of None \<Rightarrow> [] | Some p \<Rightarrow> usipy_sip_tm_param_str (pl_body p)"
    let ?c = "case payload of None \<Rightarrow> [] | Some p \<Rightarrow> usipy_sip_tm_param_str (pl_content_type p)"
    let ?g = "act_let (print_if (cc_include_contact (x_uac t) \<and> cc_contact_expires (x_uac t) \<noteq> 0) (unat (cc_contact_expires (x_uac t))))
          (\<lambda>contact_expires.
            act_let (print_if (id_method_type (x_id t) = USIPY_SIP_METHOD_INVITE) (unat (cc_invite_expires (x_uac t)))) (\<lambda>expires.
              if length ?b \<noteq> 0 \<and> length ?c = 0 then (\<lambda>t. Some (USIPY_SIP_TM_ERR_INVAL, t))
              else act_let (print_if (length ?b \<noteq> 0) (length ?b)) (\<lambda>clen.
                uac_write ev tm ?b (if length ?b \<noteq> 0 \<and> length ?c \<noteq> 0 then Some ?c else None) ehs
                  contact_expires expires clen)))"
    have "step_in R (\<lambda>t. Some (USIPY_SIP_TM_ERR_INVAL, t))" using same by (simp add: step_in_def)
    then have "step_in R ?g" by (intro let_in if_in print_if_in write_in assms(3))
    moreover obtain h where "usipy_msg_heap_rollback (x_scratch t) (x_checkpoint t) = Some h"
      "acts [usipy_sip_tm_prepare_ids ev tm i, ?g] (t\<lparr>x_scratch := h\<rparr>) = Some (r, t')"
      using 1 unfolding usipy_sip_tm_build_request_def Let_def by (auto simp: bind_eq_Some_conv simp del: acts.simps)
    ultimately show ?case by blast
  qed
  have "R t (t\<lparr>x_scratch := h\<rparr>)" by (intro heap rollback_keeps[OF h])
  moreover have "step_in R (acts [usipy_sip_tm_prepare_ids ev tm i, g])"
    by (intro acts_Cons acts_Nil prepare_ids_in assms g(2))
  ultimately show "R t t'" using g(1) chain unfolding step_in_def by blast
qed

lemma init_request_in:
  assumes "\<And>s t. R t (t\<lparr>x_call_id := s\<rparr>)" "\<And>u t. R t (t\<lparr>x_uac := u\<rparr>)"
    "\<And>m c u t. R t (t\<lparr>x_method_type := m, x_cseq := c, x_uac := u\<rparr>)"
  shows "step_in R (usipy_sip_tm_init_uac_request rid uri mdp)"
  unfolding usipy_sip_tm_init_uac_request_def
  by (intro acts_Cons acts_Nil keep_in let_in scratch_in set_in heap_in_intros assms)

lemma parties_username_in:
  assumes "\<And>s t. R t (put_from_uri s t)" "\<And>s t. R t (put_to_uri s t)" "\<And>s t. R t (put_contact_uri s t)"
  shows "step_in R (usipy_sip_tm_init_uac_parties_by_username l ps)"
  unfolding usipy_sip_tm_init_uac_parties_by_username_def
  by (intro acts_Cons acts_Nil local_uri_in assms)

lemma parties_uri_in:
  assumes "\<And>s t. R t (put_from_uri s t)" "\<And>s t. R t (put_to_uri s t)" "\<And>s t. R t (put_contact_uri s t)"
    "\<And>s t. R t (t\<lparr>x_from_tag := s\<rparr>)" "\<And>s t. R t (t\<lparr>x_to_tag := s\<rparr>)"
  shows "step_in R (usipy_sip_tm_init_uac_parties_by_uri ps tags)"
  unfolding usipy_sip_tm_init_uac_parties_by_uri_def
  by (intro acts_Cons acts_Nil copy_uri_in keep_in assms)

lemma route_set_in:
  assumes "\<And>rs t. R t (usipy_sip_tm_set_route_set rs t)"
  shows "step_in R (act_let (on_scratch (usipy_sip_tm_copy_route_set routes)) (\<lambda>routes.
      act_set (usipy_sip_tm_set_route_set routes)))"
proof (intro let_in scratch_in set_in)
  show "heap_in (usipy_sip_tm_copy_route_set routes)"
    unfolding usipy_sip_tm_copy_route_set_def by (intro heap_in_intros)
qed (rule assms)

lemma alloc_invite_in:
  assumes "\<And>v t. R t (t\<lparr>x_invite := v\<rparr>)"
  shows "step_in R uac_alloc_invite"
  unfolding uac_alloc_invite_def by (intro acts_Cons acts_Nil alloc_in set_in assms) simp

lemma clone_steps_in:
  assumes "\<And>s t. R t (put_from_uri s t)" "\<And>s t. R t (put_to_uri s t)" "\<And>s t. R t (put_contact_uri s t)"
    "\<And>s t. R t (t\<lparr>x_call_id := s\<rparr>)" "\<And>u t. R t (t\<lparr>x_uac := (x_uac t)\<lparr>cc_request_uri := Some u\<rparr>\<rparr>)"
    "\<And>m t. R t (t\<lparr>x_method_type := m\<rparr>)" "\<And>s t. R t (t\<lparr>x_from_tag := s\<rparr>)" "\<And>s t. R t (t\<lparr>x_branch := s\<rparr>)"
  shows "step_in R (acts (clone_steps src m))"
  unfolding clone_steps_def
  by (intro acts_Cons acts_Nil if_in keep_in skip_in parsed_uri_in copy_uri_in set_in assms)

end

subsection \<open>What the steps leave alone\<close>

definition open_frame where
  "open_frame t = (x_scratch_buf t, x_scratch_capacity t, x_parent_index t, x_child_index t, x_active t)"

definition open_rel :: "usipy_sip_tm_txi \<Rightarrow> usipy_sip_tm_txi \<Rightarrow> bool" where
  "open_rel t t' \<longleftrightarrow> keeps (x_scratch t) (x_scratch t') \<and> open_frame t' = open_frame t"

interpretation prepare: slot_contract open_rel
  by unfold_locales (auto simp: open_rel_def open_frame_def intro: keeps_trans)

text \<open>The identity of the request is fixed once it is set.\<close>

definition request_key where
  "request_key t = (x_method_type t, cseq_method (x_cseq t), cc_request_uri (x_uac t) = None)"

interpretation key: slot_contract "\<lambda>t t'. request_key t' = request_key t"
  by (rule field_contract) (simp add: request_key_def)

interpretation invite: slot_contract "\<lambda>t t'. x_invite t' = x_invite t"
  by (rule field_contract) simp

text \<open>Writing a request changes the scratch heap, the identity and the outbound data.\<close>

definition request_frame where
  "request_frame t = (open_frame t, x_role t, x_state t, x_flags t, x_checkpoint t, x_timers t, x_method_type t,
     x_cseq t, x_invite t, x_uac t, x_callbacks t)"

definition request_rel :: "usipy_sip_tm_txi \<Rightarrow> usipy_sip_tm_txi \<Rightarrow> bool" where
  "request_rel t t' \<longleftrightarrow> keeps (x_scratch t) (x_scratch t') \<and> request_frame t' = request_frame t \<and>
     (id_method_type (x_id t) = x_method_type t \<longrightarrow> id_method_type (x_id t') = x_method_type t')"

interpretation writing: slot_contract request_rel
  by unfold_locales (auto simp: request_rel_def request_frame_def open_frame_def intro: keeps_trans)

named_theorems put_uri_defs \<open>the three places of a URI\<close>

declare put_from_uri_def [put_uri_defs] put_to_uri_def [put_uri_defs] put_contact_uri_def [put_uri_defs]
  usipy_sip_tm_set_route_set_def [put_uri_defs]

lemma set_ids_rel: "request_rel t (set_ids ids t)"
  by (simp add: request_rel_def request_frame_def open_frame_def set_ids_def Let_def)

lemma build_request_rel: "policy_ok ev \<Longrightarrow> step_in request_rel (usipy_sip_tm_build_request ev tm i payload ehs)"
  by (intro writing.build_request_in set_ids_rel) (simp_all add: request_rel_def request_frame_def open_frame_def)

lemma prepare_ids_rel: "policy_ok ev \<Longrightarrow> step_in request_rel (usipy_sip_tm_prepare_ids ev tm i)"
  by (intro writing.prepare_ids_in set_ids_rel)

subsection \<open>A slot that keeps what its role asks of it\<close>

definition slot_good :: "usipy_sip_tm_txi \<Rightarrow> bool" where
  "slot_good t \<longleftrightarrow> slot_ok t \<and> (x_active t \<longrightarrow> x_role t = USIPY_SIP_TM_ROLE_UAS \<longrightarrow> uas_inv t) \<and>
     (x_active t \<longrightarrow> x_role t = USIPY_SIP_TM_ROLE_UAC \<longrightarrow> uac_inv t)"

lemma tm_inv_good: "tm_inv tm \<longleftrightarrow>
    (\<forall>i<max_transactions tm. slot_good (txn tm i) \<and> x_parent_index (txn tm i) \<noteq> Some i)"
  by (auto simp: tm_inv_def slots_ok_def slot_good_def)

definition slot_kept :: "usipy_sip_tm_txi \<Rightarrow> usipy_sip_tm_txi \<Rightarrow> bool" where
  "slot_kept t t' \<longleftrightarrow> x_active t' = x_active t \<and> x_role t' = x_role t \<and>
     (x_parent_index t' = x_parent_index t \<or> x_parent_index t' = None) \<and> (slot_good t \<longrightarrow> slot_good t')"

lemma slot_kept_refl [simp]: "slot_kept t t"
  by (simp add: slot_kept_def)

lemma slot_kept_trans [trans]: "slot_kept t u \<Longrightarrow> slot_kept u v \<Longrightarrow> slot_kept t v"
  by (auto simp: slot_kept_def)

lemma step_kept: "slot_step t t' \<Longrightarrow> slot_kept t t'"
  by (auto simp: slot_step_def slot_kept_def slot_good_def)

text \<open>A change of a client transaction.\<close>

lemma client_kept:
  assumes "x_active t' = x_active t" "x_role t' = x_role t" "x_parent_index t' = x_parent_index t \<or> x_parent_index t' = None"
    "x_role t = USIPY_SIP_TM_ROLE_UAC" "slot_ok t \<Longrightarrow> slot_ok t'" "slot_ok t \<Longrightarrow> uac_inv t \<Longrightarrow> uac_inv t'"
  shows "slot_kept t t'"
  using assms by (auto simp: slot_kept_def slot_good_def)

lemma kept_upd:
  assumes "tm_inv tm \<Longrightarrow> i < max_transactions tm \<Longrightarrow> slot_kept (txn tm i) (f (txn tm i))"
  shows "sound tm (upd i f tm)"
proof (cases "i < max_transactions tm")
  case True
  show ?thesis unfolding sound_def
  proof (intro impI conjI allI)
    assume inv: "tm_inv tm"
    note s = assms[OF inv True]
    show "tm_inv (upd i f tm)" using inv s True by (auto simp: tm_inv_good slot_kept_def)
    show "counted c (upd i f tm)" if "counted c tm" for c
      using s True that by (intro counted_same) (simp_all add: slot_kept_def)
  qed simp
qed (simp add: upd_beyond)

lemma keeps_slot:
  assumes "keeps (x_scratch t) (x_scratch t')" "slot_ok t" "x_scratch_buf t' = x_scratch_buf t"
    "x_scratch_capacity t' = x_scratch_capacity t"
  shows "slot_ok t'" "mh_checkpoint_top (x_scratch t') = mh_checkpoint_top (x_scratch t)"
proof -
  have h: "heap_ok (x_scratch t')" "same_frame (x_scratch t) (x_scratch t')"
    using assms(1,2) by (simp_all add: keeps_def slot_ok_def)
  show "slot_ok t'" "mh_checkpoint_top (x_scratch t') = mh_checkpoint_top (x_scratch t)"
    using slot_ok_frame[OF assms(2) h assms(3,4)] by simp_all
qed

lemma written_kept:
  assumes "request_rel t t'" "x_role t = USIPY_SIP_TM_ROLE_UAC"
  shows "slot_kept t t'"
proof (rule client_kept)
  have f: "x_scratch_buf t' = x_scratch_buf t" "x_scratch_capacity t' = x_scratch_capacity t"
    "keeps (x_scratch t) (x_scratch t')"
    using assms(1) by (simp_all add: request_rel_def request_frame_def open_frame_def)
  note k = keeps_slot[OF f(3) _ f(1,2)]
  show "slot_ok t \<Longrightarrow> slot_ok t'" by (rule k(1))
  show "uac_inv t'" if "slot_ok t" "uac_inv t"
    using assms(1) that(2) k(2)[OF that(1)] by (simp add: request_rel_def request_frame_def uac_inv_def)
qed (use assms in \<open>simp_all add: request_rel_def request_frame_def open_frame_def\<close>)

end
