(* ===== verification/Usipy_Tmpump.thy ===== *)
theory Usipy_Tmpump
  imports Usipy_Tmuac
begin

unbundle bit_operations_syntax

text \<open>
  Component \<open>usipy_sip_tm_uac\<close>, last part: responses, the timer pump of client transactions, and the
  operations the application drives them with; then the pump and the network side of the whole manager
  (\<open>usipy_sip_tm_run\<close> and \<open>usipy_sip_tm_handle_incoming\<close> of \<open>src/usipy_sip_tm.c\<close>).
\<close>

subsection \<open>Timers\<close>

definition usipy_sip_tm_timer_d_ms :: "usipy_sip_tm_timer_policy \<Rightarrow> uint32 abortable" where
  "usipy_sip_tm_timer_d_ms tp = do {
     dassert (timer_d_ms tp \<noteq> 0 \<or> t4_ms tp \<noteq> 0);
     Some (if timer_d_ms tp \<noteq> 0 then timer_d_ms tp else t4_ms tp)
   }"

definition usipy_sip_tm_timer_k_ms :: "usipy_sip_tm_timer_policy \<Rightarrow> uint32 abortable" where
  "usipy_sip_tm_timer_k_ms tp = do {
     dassert (timer_k_ms tp \<noteq> 0 \<or> t4_ms tp \<noteq> 0);
     Some (if timer_k_ms tp \<noteq> 0 then timer_k_ms tp else t4_ms tp)
   }"

definition usipy_sip_tm_timer_f_ms :: "usipy_sip_tm_timer_policy \<Rightarrow> uint32 abortable" where
  "usipy_sip_tm_timer_f_ms tp = (if timer_f_ms tp \<noteq> 0 then Some (timer_f_ms tp) else t1_times_64 tp)"

definition usipy_sip_tm_timer_b_ms :: "usipy_sip_tm_timer_policy \<Rightarrow> uint32 abortable" where
  "usipy_sip_tm_timer_b_ms tp = (if timer_b_ms tp \<noteq> 0 then Some (timer_b_ms tp) else t1_times_64 tp)"

subsection \<open>Responses\<close>

text \<open>The ACK gets its dialog or its tag, and its text, the first time.\<close>

definition uac_ack_fill ::
  "'a tm_env \<Rightarrow> 'a usipy_sip_tm \<Rightarrow> nat \<Rightarrow> usipy_msg \<Rightarrow> 8 word \<Rightarrow> usipy_sip_tm_txi \<Rightarrow>
     (usipy_sip_tm_error \<times> usipy_msg \<times> usipy_sip_tm_txi) abortable" where
  "uac_ack_fill ev tm index msg sclass ackp =
     (if sclass = 2 then usipy_sip_tm_apply_uac_2xx_ack_dialog (ev_stk ev) tm index msg ackp
      else do {
        (to_tag, msg) \<leftarrow> usipy_sip_tm_extract_response_to_tag (ev_stk ev) msg;
        case to_tag of
          None \<Rightarrow> Some (USIPY_SIP_TM_ERR_BADMSG, msg, ackp)
        | Some tag \<Rightarrow> do {
            let tp = txn tm index;
            (r, ackp) \<leftarrow> acts
              [(if ref_len (x_branch ackp) = 0 \<and> ref_len (x_branch tp) \<noteq> 0
                then act_keep (ref_text (x_scratch tp) (x_branch tp)) (\<lambda>s t. t\<lparr>x_branch := Kept s\<rparr>)
                else act_set id),
               act_keep tag (\<lambda>s t. t\<lparr>x_to_tag := s\<rparr>)] ackp;
            Some (r, msg, ackp)
          }
      })"

definition uac_ack_build ::
  "'a tm_env \<Rightarrow> 'a usipy_sip_tm \<Rightarrow> nat \<Rightarrow> nat \<Rightarrow> usipy_msg \<Rightarrow> 8 word \<Rightarrow>
     (usipy_sip_tm_error \<times> usipy_msg \<times> 'a usipy_sip_tm) abortable" where
  "uac_ack_build ev tm index ai msg sclass =
     (if snd (ob_raw (x_outbound (txn tm ai))) \<noteq> 0 then Some (USIPY_SIP_TM_OK, msg, tm)
      else do {
        (r, msg, ackp) \<leftarrow> uac_ack_fill ev tm index msg sclass (txn tm ai);
        let tm = upd ai (\<lambda>_. ackp) tm;
        if r \<noteq> USIPY_SIP_TM_OK then Some (r, msg, tm)
        else do {
          (cp, h) \<leftarrow> usipy_msg_heap_checkpoint (x_scratch ackp);
          let tm = upd ai (\<lambda>t. t\<lparr>x_scratch := h, x_checkpoint := cp\<rparr>) tm;
          (r, tm) \<leftarrow> run_act ai (usipy_sip_tm_build_request ev tm ai None []) tm;
          Some (if r \<noteq> USIPY_SIP_TM_OK then USIPY_SIP_TM_ERR_NOSPC else USIPY_SIP_TM_OK, msg, tm)
        }
      })"

text \<open>Timer D of an INVITE that is answered.\<close>

definition uac_start_timer_d :: "time_ms \<Rightarrow> 8 word \<Rightarrow> usipy_sip_tm_txi \<Rightarrow> usipy_sip_tm_txi abortable" where
  "uac_start_timer_d now sclass tp =
     (if \<not> x_final_reported tp \<or> \<not> abandoned tp then do {
        v \<leftarrow> usipy_sip_tm_timer_d_ms (x_timers tp);
        v \<leftarrow> (if sclass = 2 \<and> abandoned tp then usipy_sip_tm_uac_cleanup_ms (x_timers tp) else Some v);
        Some (set_timer USIPY_SIP_TM_TIMER_D v (now + ucast v) tp)
      }
      else Some tp)"

text \<open>The ACK of an INVITE: a clone of it, the first time.\<close>

definition uac_invite_ack ::
  "'a usipy_sip_tm \<Rightarrow> nat \<Rightarrow> (usipy_sip_tm_error \<times> nat option \<times> 'a usipy_sip_tm) abortable" where
  "uac_invite_ack tm index =
     (case x_child_index (txn tm index) of
         None \<Rightarrow> do {
           (r, ack, tm) \<leftarrow> usipy_sip_tm_clone_uac_invite tm index USIPY_SIP_METHOD_ACK;
           Some (r, ack, case ack of None \<Rightarrow> tm
             | Some ai \<Rightarrow> upd index (\<lambda>t. t\<lparr>x_child_index := Some ai\<rparr>) tm)
         }
       | Some ai \<Rightarrow> do {
           dassert (ai < max_transactions tm);
           dassert (x_active (txn tm ai));
           dassert (usipy_sip_tm_tx_is_ack (txn tm ai));
           Some (USIPY_SIP_TM_OK, Some ai, tm)
         })"

definition uac_acknowledge ::
  "'a tm_env \<Rightarrow> nat \<Rightarrow> nat \<Rightarrow> usipy_msg \<Rightarrow> 8 word \<Rightarrow> time_ms \<Rightarrow> 'a usipy_sip_tm \<Rightarrow>
     (usipy_sip_tm_error \<times> usipy_msg \<times> 'a usipy_sip_tm) abortable" where
  "uac_acknowledge ev index ai msg sclass now tm = do {
     (r, msg, tm) \<leftarrow> uac_ack_build ev tm index ai msg sclass;
     if r \<noteq> USIPY_SIP_TM_OK then Some (r, msg, tm)
     else do {
       (r, msg, tm) \<leftarrow> (if abandoned (txn tm index) then usipy_sip_tm_abandoned_uac ev tm index msg sclass
         else Some (USIPY_SIP_TM_OK, msg, tm));
       if r \<noteq> USIPY_SIP_TM_OK then Some (r, msg, tm)
       else
         let tm = upd ai (usipy_sip_tm_uac_arm_send_now now) tm in
         Some (USIPY_SIP_TM_OK, msg, upd index (\<lambda>t. t\<lparr>x_final_reported := True\<rparr>) tm)
     }
   }"

text \<open>The flag is \<open>deliver_response\<close>.\<close>

definition usipy_sip_tm_uac_handle_invite_final ::
  "'a tm_env \<Rightarrow> 'a usipy_sip_tm \<Rightarrow> nat \<Rightarrow> usipy_msg \<Rightarrow> 8 word \<Rightarrow> time_ms \<Rightarrow>
     (usipy_sip_tm_error \<times> bool \<times> usipy_msg \<times> 'a usipy_sip_tm) abortable" where
  "usipy_sip_tm_uac_handle_invite_final ev tm index msg sclass now = do {
     dassert (sclass \<ge> 2);
     tp \<leftarrow> uac_start_timer_d now sclass (usipy_sip_tm_tx_clear_invite_timeout (txn tm index));
     let tm = upd index (\<lambda>_. tp\<lparr>x_state := USIPY_SIP_TM_STATE_COMPLETED\<rparr>) tm;
     let deliver = (\<not> x_final_reported tp);
     (r, ack, tm) \<leftarrow> uac_invite_ack tm index;
     case ack of
       None \<Rightarrow> Some (r, deliver, msg, tm)
     | Some ai \<Rightarrow> map_option (\<lambda>(r, msg, tm). (r, deliver, msg, tm)) (uac_acknowledge ev index ai msg sclass now tm)
   }"

text \<open>What a response of status \<open>scode\<close> stores in the slot it matches.\<close>

definition uac_note_response :: "time_ms \<Rightarrow> uint32 \<Rightarrow> 8 word \<Rightarrow> usipy_sip_tm_txi \<Rightarrow> usipy_sip_tm_txi" where
  "uac_note_response now scode sclass tp =
     (let ob = (x_pub_outbound tp)\<lparr>ob_next_send_at_ms := USIPY_SIP_TM_TIME_NONE, ob_raw := slice_null\<rparr> in
      tp\<lparr>x_updated_at_ms := now, x_pub_outbound := ob, x_outbound := ob, x_last_status_code := ucast scode,
        x_role_byte := sclass\<rparr>)"

definition uac_note_provisional :: "usipy_sip_tm_txi \<Rightarrow> usipy_sip_tm_txi abortable" where
  "uac_note_provisional tp = do {
     inv \<leftarrow> x_invite tp;
     let inv = (if \<not> inv_provisional_seen inv \<and> inv_timeout_at_ms inv \<noteq> USIPY_SIP_TM_TIME_NONE
                then inv\<lparr>inv_timeout_at_ms := x_created_at_ms tp + ucast (cc_invite_expires (x_uac tp)) * 1000\<rparr>
                else inv);
     let inv = inv\<lparr>inv_provisional_seen := True\<rparr>;
     let inv = (if \<not> abandoned tp then inv\<lparr>inv_timeout_id := USIPY_SIP_TM_TIMEOUT_FR\<rparr> else inv);
     Some (tp\<lparr>x_state := USIPY_SIP_TM_STATE_PROCEEDING, x_invite := Some inv\<rparr>)
   }"

definition uac_invite_provisional ::
  "'a tm_env \<Rightarrow> 'a usipy_sip_tm \<Rightarrow> nat \<Rightarrow> time_ms \<Rightarrow> 'a usipy_sip_tm abortable" where
  "uac_invite_provisional ev tm i now = do {
     tm \<leftarrow> upd_step i uac_note_provisional tm;
     if map_option inv_cancel_state (x_invite (txn tm i)) = Some USIPY_SIP_TM_INVITE_CANCEL_SCHEDULED then do {
       (rval, tm) \<leftarrow> usipy_sip_tm_uac_start_cancel ev tm i;
       tm \<leftarrow> (if rval \<noteq> USIPY_SIP_TM_OK then upd_step i usipy_sip_tm_uac_finish_abandoned tm else Some tm);
       upd_step i (usipy_sip_tm_uac_arm_cleanup now) tm
     }
     else Some tm
   }"

definition uac_noninvite_final :: "time_ms \<Rightarrow> usipy_sip_tm_txi \<Rightarrow> usipy_sip_tm_txi abortable" where
  "uac_noninvite_final now tp = do {
     v \<leftarrow> usipy_sip_tm_timer_k_ms (x_timers tp);
     let tp = usipy_sip_tm_tx_clear_timer (usipy_sip_tm_tx_clear_invite_timeout tp);
     Some ((set_timer USIPY_SIP_TM_TIMER_K v (now + ucast v) tp)
       \<lparr>x_state := USIPY_SIP_TM_STATE_COMPLETED, x_final_reported := True\<rparr>)
   }"

definition uac_response_out :: "8 word \<Rightarrow> nat \<Rightarrow> usipy_sip_tm_handle_incoming_out" where
  "uac_response_out sclass i = incoming_out USIPY_SIP_TM_MATCH_EXISTING
     (if sclass < 2 then USIPY_SIP_TM_EVENT_RESPONSE_1XX else USIPY_SIP_TM_EVENT_RESPONSE_FINAL) (Some i)"

text \<open>\<open>response_done\<close>\<close>

definition uac_response_done ::
  "8 word \<Rightarrow> nat \<Rightarrow> 'a usipy_sip_tm \<Rightarrow>
     (usipy_sip_tm_error \<times> usipy_sip_tm_handle_incoming_out option \<times> 'a usipy_sip_tm) abortable" where
  "uac_response_done sclass i tm = do {
     let tp = txn tm i;
     tm \<leftarrow> (if sclass \<ge> 2 \<and> x_state tp \<noteq> USIPY_SIP_TM_STATE_CALLING \<and>
              \<not> usipy_sip_tm_tx_waits_for_invite_ack tp
           then upd_step i usipy_sip_tm_release_outbound tm else Some tm);
     Some (USIPY_SIP_TM_OK, Some (uac_response_out sclass i), tm)
   }"

text \<open>By the kind of the request and the class of the status; the flag is \<open>deliver_response\<close>.\<close>

definition uac_response_step ::
  "'a tm_env \<Rightarrow> 'a usipy_sip_tm \<Rightarrow> nat \<Rightarrow> bool \<Rightarrow> usipy_msg \<Rightarrow> 8 word \<Rightarrow> time_ms \<Rightarrow>
     (usipy_sip_tm_error \<times> bool \<times> usipy_msg \<times> 'a usipy_sip_tm) abortable" where
  "uac_response_step ev tm i invite msg sclass now =
     (if invite \<and> sclass = 1 then
        map_option (\<lambda>tm. (USIPY_SIP_TM_OK, True, msg, tm)) (uac_invite_provisional ev tm i now)
      else if invite \<and> sclass \<ge> 2 then
        usipy_sip_tm_uac_handle_invite_final ev tm i msg sclass now
      else if sclass \<ge> 2 then
        map_option (\<lambda>tm'. (USIPY_SIP_TM_OK, \<not> x_final_reported (txn tm i), msg, tm'))
          (upd_step i (uac_noninvite_final now) tm)
      else Some (USIPY_SIP_TM_OK, True, msg, tm))"

definition usipy_sip_tm_handle_incoming_response ::
  "'a tm_env \<Rightarrow> usipy_sip_tm_handle_incoming_in \<Rightarrow> usipy_msg \<Rightarrow> usipy_sip_tid \<Rightarrow> 'a usipy_sip_tm \<Rightarrow>
     (usipy_sip_tm_error \<times> usipy_sip_tm_handle_incoming_out option \<times> 'a usipy_sip_tm) abortable" where
  "usipy_sip_tm_handle_incoming_response ev inp msg tidp tm =
     (case sln_parsed (m_sline msg) of
        SL_status sl \<Rightarrow>
          let scode = st_code (sl_status sl); sclass = (ucast (scode div 100) :: 8 word); now = hin_now_ms inp in
          (case find_slot (\<lambda>tp. \<not> (\<not> x_active tp \<or> x_role tp \<noteq> USIPY_SIP_TM_ROLE_UAC) \<and>
                 usipy_sip_tm_tid_matches_tx tidp tp) tm of
             None \<Rightarrow> Some (USIPY_SIP_TM_ERR_NOT_FOUND, None, tm)
           | Some i \<Rightarrow>
               let invite = usipy_sip_tm_tx_is_invite (txn tm i) in
               if invite \<and> sclass = 1 \<and> x_final_reported (txn tm i) then uac_response_done sclass i tm
               else do {
                 let tm = upd i (uac_note_response now scode sclass) tm;
                 (r, deliver, msg, tm) \<leftarrow> uac_response_step ev tm i invite msg sclass now;
                 if r \<noteq> USIPY_SIP_TM_OK then Some (r, None, tm)
                 else do {
                   tm \<leftarrow> (case ucb_response (x_callbacks (txn tm i)) of
                       None \<Rightarrow> Some tm
                     | Some f \<Rightarrow>
                         if deliver then ev_uac_response ev f (ucb_arg (x_callbacks (txn tm i))) i msg tm else Some tm);
                   uac_response_done sclass i tm
                 }
               })
      | _ \<Rightarrow> None)"

subsection \<open>The timer pump\<close>

text \<open>The doublings of the retransmission interval of a request that is no INVITE, up to T2.\<close>

fun noninvite_delay :: "nat \<Rightarrow> 64 word \<Rightarrow> uint32 \<Rightarrow> uint32 abortable" where
  "noninvite_delay 0 delay t2 = do { dassert (delay \<le> 0xFFFFFFFF); Some (ucast delay) }"
| "noninvite_delay (Suc n) delay t2 =
     (let delay = push_bit 1 delay in if delay \<ge> ucast t2 then Some t2 else noninvite_delay n delay t2)"

definition usipy_sip_tm_uac_next_send_delay_ms :: "usipy_sip_tm_txi \<Rightarrow> uint32 abortable" where
  "usipy_sip_tm_uac_next_send_delay_ms tp =
     (let timers = x_timers tp; doublings = unat (x_retransmit_count tp) - 1 in
      if usipy_sip_tm_tx_is_invite tp then do {
        let delay = push_bit doublings
          (ucast (if timer_a_ms timers \<noteq> 0 then timer_a_ms timers else t1_ms timers) :: 64 word);
        dassert (delay \<le> 0xFFFFFFFF);
        Some (ucast delay)
      }
      else noninvite_delay doublings
        (ucast (if timer_e_ms timers \<noteq> 0 then timer_e_ms timers else t1_ms timers)) (t2_ms timers))"

definition usipy_sip_tm_run_out_consider ::
  "time_ms \<Rightarrow> usipy_sip_tm_run_out option \<Rightarrow> usipy_sip_tm_run_out option" where
  "usipy_sip_tm_run_out_consider when_ms outp =
     (case outp of
        None \<Rightarrow> None
      | Some out \<Rightarrow>
          if when_ms = USIPY_SIP_TM_TIME_NONE then Some out
          else if ro_next_run_at_ms out = USIPY_SIP_TM_TIME_NONE \<or> when_ms < ro_next_run_at_ms out
          then Some (out\<lparr>ro_next_run_at_ms := when_ms\<rparr>)
          else Some out)"

definition usipy_sip_tm_run_out_consider_timer ::
  "usipy_sip_tm_timer \<Rightarrow> usipy_sip_tm_run_out option \<Rightarrow> usipy_sip_tm_run_out option" where
  "usipy_sip_tm_run_out_consider_timer tp outp =
     (if tmr_type tp = USIPY_SIP_TM_TIMER_NONE then outp
      else usipy_sip_tm_run_out_consider (tmr_due_at_ms tp) outp)"

definition usipy_sip_tm_uac_consider_invite ::
  "usipy_sip_tm_uac_invite option \<Rightarrow> usipy_sip_tm_run_out option \<Rightarrow> usipy_sip_tm_run_out option" where
  "usipy_sip_tm_uac_consider_invite invite outp =
     (case invite of None \<Rightarrow> outp | Some iv \<Rightarrow> usipy_sip_tm_run_out_consider (inv_timeout_at_ms iv) outp)"

text \<open>The three considerations that end a run.\<close>

definition uac_consider :: "usipy_sip_tm_txi \<Rightarrow> usipy_sip_tm_run_out option \<Rightarrow> usipy_sip_tm_run_out option" where
  "uac_consider tp outp = usipy_sip_tm_run_out_consider_timer (x_timer tp)
     (usipy_sip_tm_uac_consider_invite (x_invite tp)
       (usipy_sip_tm_run_out_consider (ob_next_send_at_ms (x_outbound tp)) outp))"

definition usipy_sip_tm_uac_note_send :: "time_ms \<Rightarrow> usipy_sip_tm_txi \<Rightarrow> usipy_sip_tm_txi" where
  "usipy_sip_tm_uac_note_send now tp =
     (let tp = (if x_created_at_ms tp = 0 \<and> x_retransmit_count tp = 0 then tp\<lparr>x_created_at_ms := now\<rparr> else tp) in
      tp\<lparr>x_updated_at_ms := now, x_retransmit_count := x_retransmit_count tp + 1\<rparr>)"

definition usipy_sip_tm_uac_post_send_ack :: "usipy_sip_tm_txi \<Rightarrow> usipy_sip_tm_txi" where
  "usipy_sip_tm_uac_post_send_ack tp = set_next_send USIPY_SIP_TM_TIME_NONE tp"

definition usipy_sip_tm_uac_post_send_invite :: "time_ms \<Rightarrow> usipy_sip_tm_txi \<Rightarrow> usipy_sip_tm_txi abortable" where
  "usipy_sip_tm_uac_post_send_invite now tp =
     (if usipy_sip_tm_tx_waits_for_invite_ack tp then Some (set_next_send USIPY_SIP_TM_TIME_NONE tp)
      else do {
        inv \<leftarrow> x_invite tp;
        inv \<leftarrow> (if inv_timeout_at_ms inv = USIPY_SIP_TM_TIME_NONE then do {
            v \<leftarrow> usipy_sip_tm_timer_b_ms (x_timers tp);
            Some (inv\<lparr>inv_timeout_at_ms := now + ucast v, inv_timeout_id := USIPY_SIP_TM_TIMEOUT_PR\<rparr>)
          }
          else Some inv);
        let tp = tp\<lparr>x_invite := Some inv\<rparr>;
        if inv_provisional_seen inv \<or> reliable tp then Some (set_next_send USIPY_SIP_TM_TIME_NONE tp)
        else do {
          delay \<leftarrow> usipy_sip_tm_uac_next_send_delay_ms tp;
          Some (set_next_send (now + ucast delay) tp)
        }
      })"

definition usipy_sip_tm_uac_post_send_noninvite :: "time_ms \<Rightarrow> usipy_sip_tm_txi \<Rightarrow> usipy_sip_tm_txi abortable" where
  "usipy_sip_tm_uac_post_send_noninvite now tp = do {
     tp \<leftarrow> (if tmr_type (x_timer tp) = USIPY_SIP_TM_TIMER_NONE then do {
         v \<leftarrow> usipy_sip_tm_timer_f_ms (x_timers tp);
         Some (set_timer USIPY_SIP_TM_TIMER_F v (now + ucast v) tp)
       }
       else Some tp);
     if reliable tp then Some (set_next_send USIPY_SIP_TM_TIME_NONE tp)
     else do {
       delay \<leftarrow> usipy_sip_tm_uac_next_send_delay_ms tp;
       Some (set_next_send (now + ucast delay) tp)
     }
   }"

text \<open>The application's timeout callback, if there is one.\<close>

definition call_timeout ::
  "'a tm_env \<Rightarrow> usipy_sip_tm_uac_callbacks \<Rightarrow> nat \<Rightarrow> usipy_sip_tm_uac_timeout_id \<Rightarrow> 'a usipy_sip_tm \<Rightarrow>
     'a usipy_sip_tm abortable" where
  "call_timeout ev cb index timeout_id tm =
     (case ucb_timeout cb of None \<Rightarrow> Some tm | Some f \<Rightarrow> ev_uac_timeout ev f (ucb_arg cb) index timeout_id tm)"

text \<open>The flag is true when a timeout of the INVITE was handled.\<close>

definition usipy_sip_tm_uac_expire_invite ::
  "'a tm_env \<Rightarrow> nat \<Rightarrow> time_ms \<Rightarrow> usipy_sip_tm_run_out option \<Rightarrow> 'a usipy_sip_tm \<Rightarrow>
     (bool \<times> usipy_sip_tm_run_out option \<times> 'a usipy_sip_tm) abortable" where
  "usipy_sip_tm_uac_expire_invite ev index now outp tm =
     (if x_invite (txn tm index) = None then Some (False, outp, tm)
      else do {
        tm \<leftarrow> upd_step index (usipy_sip_tm_uac_arm_cleanup now) tm;
        let tp = txn tm index;
        inv \<leftarrow> x_invite tp;
        if \<not> (inv_timeout_at_ms inv \<noteq> USIPY_SIP_TM_TIME_NONE \<and> inv_timeout_at_ms inv \<le> now)
        then Some (False, outp, tm)
        else if \<not> abandoned tp then do {
          tm \<leftarrow> usipy_sip_tm_uac_abandon ev tm index;
          tm \<leftarrow> upd_step index (usipy_sip_tm_uac_arm_cleanup now) tm;
          let outp = count_timeouts 1 (usipy_sip_tm_run_out_consider now outp);
          tm \<leftarrow> call_timeout ev (x_callbacks tp) index (inv_timeout_id inv) tm;
          Some (True, outp, tm)
        }
        else do {
          let tm = upd index (\<lambda>t. usipy_sip_tm_tx_clear_invite_timeout (usipy_sip_tm_tx_mark_terminated t)) tm;
          tm \<leftarrow> call_timeout ev (x_callbacks (txn tm index)) index (inv_timeout_id inv) tm;
          tm \<leftarrow> upd_step index usipy_sip_tm_release_outbound tm;
          Some (True, count_timeouts 1 outp, tm)
        }
      })"

definition uac_timer_due ::
  "'a tm_env \<Rightarrow> nat \<Rightarrow> usipy_sip_tm_run_out option \<Rightarrow> 'a usipy_sip_tm \<Rightarrow>
     (int \<times> usipy_sip_tm_run_out option \<times> 'a usipy_sip_tm) abortable" where
  "uac_timer_due ev index outp tm = do {
     let tm = upd index (\<lambda>t. usipy_sip_tm_tx_clear_timer (usipy_sip_tm_tx_mark_terminated t)) tm;
     tm \<leftarrow> usipy_sip_tm_tx_terminate_child (max_transactions tm) index tm;
     let tp = txn tm index;
     tm \<leftarrow> (if \<not> x_final_reported tp then call_timeout ev (x_callbacks tp) index USIPY_SIP_TM_TIMEOUT_NONE tm
           else Some tm);
     tm \<leftarrow> (if x_state (txn tm index) \<noteq> USIPY_SIP_TM_STATE_CALLING
           then upd_step index usipy_sip_tm_release_outbound tm else Some tm);
     Some (0, count_timeouts 1 outp, tm)
   }"

text \<open>What follows a datagram that went out. The BYE behind an ACK may go now.\<close>

definition uac_after_send ::
  "nat \<Rightarrow> time_ms \<Rightarrow> usipy_sip_tm_run_out option \<Rightarrow> 'a usipy_sip_tm \<Rightarrow>
     (int \<times> usipy_sip_tm_run_out option \<times> 'a usipy_sip_tm) abortable" where
  "uac_after_send index now outp tm = do {
     let tm = upd index (usipy_sip_tm_uac_note_send now) tm;
     let tp = txn tm index;
     (outp, tm) \<leftarrow>
       (if usipy_sip_tm_tx_is_ack tp then
          let tm = upd index usipy_sip_tm_uac_post_send_ack tm in
          (case x_child_index tp of
             None \<Rightarrow> Some (outp, tm)
           | Some bi \<Rightarrow> do {
               dassert (bi < max_transactions tm);
               let tm = upd bi (\<lambda>t. usipy_sip_tm_uac_arm_send_now now (t\<lparr>x_parent_index := None\<rparr>)) tm;
               let tm = upd index (\<lambda>t. t\<lparr>x_child_index := None\<rparr>) tm;
               Some (usipy_sip_tm_run_out_consider now outp, tm)
             })
        else if usipy_sip_tm_tx_is_invite tp then
          map_option (\<lambda>tm. (outp, tm)) (upd_step index (usipy_sip_tm_uac_post_send_invite now) tm)
        else map_option (\<lambda>tm. (outp, tm)) (upd_step index (usipy_sip_tm_uac_post_send_noninvite now) tm));
     let tm = upd index sync_outbound tm;
     let outp = map_option (\<lambda>out. out\<lparr>ro_nsent := ro_nsent out + 1\<rparr>) outp;
     Some (0, uac_consider (txn tm index) outp, tm)
   }"

definition uac_send ::
  "'a tm_env \<Rightarrow> nat \<Rightarrow> time_ms \<Rightarrow> usipy_sip_tm_run_out option \<Rightarrow> 'a usipy_sip_tm \<Rightarrow>
     (int \<times> usipy_sip_tm_run_out option \<times> 'a usipy_sip_tm) abortable" where
  "uac_send ev index now outp tm = do {
     (r, tm) \<leftarrow> (if snd (ob_raw (x_outbound (txn tm index))) = 0
       then run_act index (usipy_sip_tm_build_request ev tm index None []) tm else Some (USIPY_SIP_TM_OK, tm));
     if r \<noteq> USIPY_SIP_TM_OK then Some (tm_code r, outp, tm)
     else
       let ob = x_outbound (txn tm index);
           (rval, app) = ev_send_to ev index (ob_target ob)
             (slice_read (x_scratch (txn tm index)) (ob_raw ob)) (tm_app tm);
           tm = tm\<lparr>tm_app := app\<rparr> in
       if rval \<noteq> 0 then Some (rval, outp, tm) else uac_after_send index now outp tm
   }"

definition usipy_sip_tm_uac_run ::
  "'a tm_env \<Rightarrow> nat \<Rightarrow> time_ms \<Rightarrow> usipy_sip_tm_run_out option \<Rightarrow> 'a usipy_sip_tm \<Rightarrow>
     (int \<times> usipy_sip_tm_run_out option \<times> 'a usipy_sip_tm) abortable" where
  "usipy_sip_tm_uac_run ev index now outp tm =
     (if x_state (txn tm index) = USIPY_SIP_TM_STATE_TERMINATED \<or>
         has_flag (x_flags (txn tm index)) USIPY_SIP_TM_F_TERMINATED then Some (0, outp, tm)
      else do {
        (expired, outp, tm) \<leftarrow> usipy_sip_tm_uac_expire_invite ev index now outp tm;
        let tp = txn tm index;
        let next = ob_next_send_at_ms (x_outbound tp);
        if expired then Some (0, outp, tm)
        else if tmr_type (x_timer tp) \<noteq> USIPY_SIP_TM_TIMER_NONE \<and> tmr_due_at_ms (x_timer tp) \<le> now
        then uac_timer_due ev index outp tm
        else if next = USIPY_SIP_TM_TIME_NONE \<or> next > now then Some (0, uac_consider tp outp, tm)
        else uac_send ev index now outp tm
      })"

subsection \<open>Credentials, the next transaction, and CANCEL\<close>

text \<open>The digest and the clock are parameters, as for \<open>gen_auth_hf\<close>. No pointer is null.\<close>

definition usipy_sip_tm_gen_authz_hf ::
  "(string \<Rightarrow> string) \<Rightarrow> uint32 option \<Rightarrow> 'a usipy_sip_tm \<Rightarrow> nat \<Rightarrow> nat \<Rightarrow> usipy_msg_heap \<Rightarrow>
     usipy_sip_hdr_auth \<Rightarrow> string \<Rightarrow> string \<Rightarrow> string option \<Rightarrow> string option \<Rightarrow>
     (usipy_sip_tm_error \<times> usipy_sip_tm_extra_header option \<times> usipy_msg_heap) abortable" where
  "usipy_sip_tm_gen_authz_hf md5 usec_now tm index hf_type mhp challenge username password bodyp qopp =
     (if hf_type \<noteq> USIPY_HF_AUTHORIZATION \<and> hf_type \<noteq> USIPY_HF_PROXYAUTHORIZATION
      then Some (USIPY_SIP_TM_ERR_INVAL, None, mhp)
      else if index \<ge> max_transactions tm then Some (USIPY_SIP_TM_ERR_INVAL, None, mhp)
      else if \<not> x_active (txn tm index) then Some (USIPY_SIP_TM_ERR_NOT_FOUND, None, mhp)
      else do {
        let tp = txn tm index;
        dassert (x_role tp = USIPY_SIP_TM_ROLE_UAC);
        if mh_tsize mhp = USIPY_ALIGNED_SIZE (mh_alen mhp) then Some (USIPY_SIP_TM_ERR_NOSPC, None, mhp)
        else do {
          u \<leftarrow> cc_request_uri (x_uac tp);
          case usipy_msg_heap_build mhp (usipy_sip_uri_build u) of
            (None, mhp) \<Rightarrow> Some (USIPY_SIP_TM_ERR_NOSPC, None, mhp)
          | (Some sl, mhp) \<Rightarrow>
              Some (case gen_auth_hf md5 usec_now mhp challenge username password
                  (usipy_method_db ! x_method_type tp) (slice_read mhp sl) bodyp qopp of
                (None, mhp) \<Rightarrow> (USIPY_SIP_TM_ERR_INVAL, None, mhp)
              | (Some az, mhp) \<Rightarrow> (USIPY_SIP_TM_OK,
                  Some \<lparr>eh_hf_type = hf_type, eh_value_kind = USIPY_SIP_TM_EH_PARSED, eh_value = None,
                    eh_parsed = Some az\<rparr>, mhp))
        }
      })"

definition usipy_sip_tm_next_transaction ::
  "'a tm_env \<Rightarrow> 'a usipy_sip_tm \<Rightarrow> nat \<Rightarrow> usipy_sip_tm_request_payload option \<Rightarrow>
     usipy_sip_tm_extra_header list \<Rightarrow> (usipy_sip_tm_error \<times> 'a usipy_sip_tm) abortable" where
  "usipy_sip_tm_next_transaction ev tm index payload ehs =
     (if index \<ge> max_transactions tm then Some (USIPY_SIP_TM_ERR_INVAL, tm)
      else if \<not> x_active (txn tm index) then Some (USIPY_SIP_TM_ERR_NOT_FOUND, tm)
      else if abandoned (txn tm index) then Some (USIPY_SIP_TM_ERR_UNSUPPORTED, tm)
      else do {
        (r, tm) \<leftarrow> (case x_child_index (txn tm index) of
            None \<Rightarrow> Some (USIPY_SIP_TM_OK, tm)
          | Some c \<Rightarrow> do {
              dassert (c < max_transactions tm);
              if \<not> x_active (txn tm c) \<or> \<not> usipy_sip_tm_tx_is_ack (txn tm c)
              then Some (USIPY_SIP_TM_ERR_UNSUPPORTED, tm)
              else Some (USIPY_SIP_TM_OK, upd index (\<lambda>t. t\<lparr>x_child_index := None\<rparr>) tm)
            });
        if r \<noteq> USIPY_SIP_TM_OK then Some (r, tm)
        else run_act index (acts
          [usipy_sip_tm_transition USIPY_SIP_TM_STATE_CALLING,
           act_set (\<lambda>t. usipy_sip_tm_tx_reset_uac_runtime
             (t\<lparr>x_cseq := (x_cseq t)\<lparr>cseq_val := cseq_val (x_cseq t) + 1\<rparr>\<rparr>)),
           usipy_sip_tm_prepare_ids ev tm index,
           usipy_sip_tm_build_request ev tm index payload ehs]) tm
      })"

definition usipy_sip_tm_cancel ::
  "'a tm_env \<Rightarrow> 'a usipy_sip_tm \<Rightarrow> nat \<Rightarrow> (usipy_sip_tm_error \<times> 'a usipy_sip_tm) abortable" where
  "usipy_sip_tm_cancel ev tm index =
     (if index \<ge> max_transactions tm then Some (USIPY_SIP_TM_ERR_INVAL, tm)
      else if \<not> x_active (txn tm index) then Some (USIPY_SIP_TM_ERR_NOT_FOUND, tm)
      else do {
        let tp = txn tm index;
        dassert (x_role tp = USIPY_SIP_TM_ROLE_UAC);
        if \<not> usipy_sip_tm_tx_is_invite tp \<or> x_state tp = USIPY_SIP_TM_STATE_COMPLETED \<or>
           x_state tp = USIPY_SIP_TM_STATE_TERMINATED then Some (USIPY_SIP_TM_ERR_UNSUPPORTED, tm)
        else if x_child_index tp \<noteq> None \<or> x_final_reported tp then Some (USIPY_SIP_TM_ERR_UNSUPPORTED, tm)
        else do {
          inv \<leftarrow> x_invite tp;
          dassert (\<not> inv_app_cancelled inv);
          tm \<leftarrow> upd_invite index (\<lambda>inv. inv\<lparr>inv_app_cancelled := True\<rparr>) tm;
          if abandoned tp then Some (USIPY_SIP_TM_OK, tm)
          else map_option (\<lambda>tm. (USIPY_SIP_TM_OK, tm)) (usipy_sip_tm_uac_abandon ev tm index)
        }
      })"

subsection \<open>The whole manager\<close>

text \<open>
  One pass over the slots, with a \<open>send_to\<close>. The slots are looked at as they are when their turn comes:
  a callback may have changed them.
\<close>

fun run_slots ::
  "'a tm_env \<Rightarrow> time_ms \<Rightarrow> nat list \<Rightarrow> usipy_sip_tm_run_out option \<Rightarrow> 'a usipy_sip_tm \<Rightarrow>
     (int \<times> usipy_sip_tm_run_out option \<times> 'a usipy_sip_tm) abortable" where
  "run_slots ev now [] outp tm =
     Some (0, map_option (\<lambda>out. out\<lparr>ro_error := tm_code USIPY_SIP_TM_OK\<rparr>) outp, tm)"
| "run_slots ev now (i # is) outp tm =
     (if \<not> x_active (txn tm i) then run_slots ev now is outp tm
      else do {
        (rval, outp, tm) \<leftarrow> (case x_role (txn tm i) of
            USIPY_SIP_TM_ROLE_UAC \<Rightarrow> usipy_sip_tm_uac_run ev i now outp tm
          | USIPY_SIP_TM_ROLE_UAS \<Rightarrow> usipy_sip_tm_uas_run ev i now outp tm);
        if rval \<noteq> 0 then Some (rval, map_option (\<lambda>out. out\<lparr>ro_error := rval\<rparr>) outp, tm)
        else run_slots ev now is outp tm
      })"

text \<open>\<open>with_out\<close>: the caller passes an output structure.\<close>

definition usipy_sip_tm_run ::
  "'a tm_env \<Rightarrow> time_ms \<Rightarrow> bool \<Rightarrow> 'a usipy_sip_tm \<Rightarrow>
     (int \<times> usipy_sip_tm_run_out option \<times> 'a usipy_sip_tm) abortable" where
  "usipy_sip_tm_run ev now with_out tm =
     run_slots ev now [0..<max_transactions tm]
       (if with_out then Some \<lparr>ro_error = 0, ro_next_run_at_ms = USIPY_SIP_TM_TIME_NONE, ro_nsent = 0,
          ro_ntimeouts = 0\<rparr> else None) tm"

definition hout_init :: "usipy_sip_tm_error \<Rightarrow> usipy_sip_tm_handle_incoming_out" where
  "hout_init e = \<lparr>hout_error = e, hout_consumed = False, hout_match_kind = USIPY_SIP_TM_MATCH_NONE,
     hout_event = USIPY_SIP_TM_EVENT_NONE, hout_transaction_index = None\<rparr>"

text \<open>\<open>mem\<close> is \<open>malloc\<close>; the message is freed at the end, the manager keeps nothing of it.\<close>

definition usipy_sip_tm_handle_incoming ::
  "'a tm_env \<Rightarrow> (size_t \<Rightarrow> 64 word option) \<Rightarrow> usipy_sip_tm_handle_incoming_in \<Rightarrow> 'a usipy_sip_tm \<Rightarrow>
     (usipy_sip_tm_error \<times> usipy_sip_tm_handle_incoming_out \<times> 'a usipy_sip_tm) abortable" where
  "usipy_sip_tm_handle_incoming ev mem inp tm = do {
     msg \<leftarrow> usipy_sip_msg_ctor_fromwire mem (hin_buf inp);
     case msg of
       None \<Rightarrow> Some (USIPY_SIP_TM_ERR_PARSE, hout_init USIPY_SIP_TM_ERR_PARSE, tm)
     | Some msg \<Rightarrow> do {
         (tid, msg) \<leftarrow> usipy_sip_msg_get_tid (ev_stk ev) msg (ev_tid0 ev);
         case tid of
           None \<Rightarrow> Some (USIPY_SIP_TM_ERR_BADMSG, hout_init USIPY_SIP_TM_ERR_BADMSG, tm)
         | Some tid \<Rightarrow> do {
             (rval, out, tm) \<leftarrow> (case m_kind msg of
                 USIPY_SIP_MSG_RES \<Rightarrow> usipy_sip_tm_handle_incoming_response ev inp msg tid tm
               | USIPY_SIP_MSG_REQ \<Rightarrow> usipy_sip_tm_handle_incoming_request ev inp msg tid tm
               | _ \<Rightarrow> Some (USIPY_SIP_TM_ERR_UNSUPPORTED, None, tm));
             Some (rval, case out of
                 Some o1 \<Rightarrow> (if rval \<noteq> USIPY_SIP_TM_OK then o1\<lparr>hout_error := rval\<rparr> else o1)
               | None \<Rightarrow> hout_init rval, tm)
           }
       }
   }"

end
