(* ===== verification/Usipy_Tmuacfacts.thy ===== *)
theory Usipy_Tmuacfacts
  imports Usipy_Tmreqfacts Usipy_Tmpump
begin

unbundle bit_operations_syntax

text \<open>
  Client transactions: every operation keeps the invariant of the manager. The count of active
  transactions is not kept: it stays ahead of the slots when an opening fails after it was counted.
\<close>

subsection \<open>Opening a slot\<close>

lemma step_inD: "step_in R a \<Longrightarrow> a t = Some (r, t') \<Longrightarrow> R t t'"
  by (simp add: step_in_def)

lemma leavesD: "leaves Q a \<Longrightarrow> a t = Some (USIPY_SIP_TM_OK, t') \<Longrightarrow> Q t'"
  by (simp add: leaves_def)

lemma acts_snoc:
  "acts (as @ [a]) t = Some (r, t') \<Longrightarrow>
     r \<noteq> USIPY_SIP_TM_OK \<and> acts as t = Some (r, t') \<or>
     (\<exists>u. acts as t = Some (USIPY_SIP_TM_OK, u) \<and> a u = Some (r, t'))"
proof (induction as arbitrary: t)
  case Nil
  then show ?case by (cases "a t") (auto split: if_splits)
next
  case (Cons b as)
  then obtain q u where b: "b t = Some (q, u)" by (auto simp: bind_eq_Some_conv)
  show ?case
    using Cons.prems Cons.IH[of u] b by (cases "q = USIPY_SIP_TM_OK") auto
qed

text \<open>A slot that is ready to become the transaction of a request of method \<open>m\<close>.\<close>

definition blank :: "usipy_sip_tm_txi \<Rightarrow> bool" where
  "blank t \<longleftrightarrow> slot_ok t \<and> mh_checkpoint_top (x_scratch t) = 0 \<and> x_parent_index t = None \<and>
     x_child_index t = None \<and> \<not> x_active t"

definition ready :: "nat \<Rightarrow> usipy_sip_tm_txi \<Rightarrow> bool" where
  "ready m t \<longleftrightarrow> x_method_type t = m \<and> cseq_method (x_cseq t) = m \<and> cc_request_uri (x_uac t) \<noteq> None"

text \<open>One that became it, in slot \<open>i\<close>.\<close>

definition opened_uac :: "nat \<Rightarrow> usipy_sip_tm_txi \<Rightarrow> bool" where
  "opened_uac i t \<longleftrightarrow> slot_ok t \<and> uac_inv t \<and> x_active t \<and> x_role t = USIPY_SIP_TM_ROLE_UAC \<and>
     x_parent_index t \<noteq> Some i \<and> x_child_index t = None"

lemma blank_step:
  assumes "open_rel t t'" "blank t"
  shows "blank t'"
proof -
  have k: "keeps (x_scratch t) (x_scratch t')" "x_scratch_buf t' = x_scratch_buf t"
    "x_scratch_capacity t' = x_scratch_capacity t"
    using assms(1) by (simp_all add: open_rel_def open_frame_def)
  have ok: "slot_ok t" using assms(2) by (simp add: blank_def)
  show ?thesis using keeps_slot[OF k(1) ok k(2,3)] assms by (simp add: blank_def open_rel_def open_frame_def)
qed

lemma ready_key: "request_key t' = request_key t \<Longrightarrow> ready m t' = ready m t"
  by (simp add: request_key_def ready_def)

text \<open>The first mark.\<close>

lemma first_checkpoint:
  assumes "slot_ok t" "mh_checkpoint_top (x_scratch t) = 0" "usipy_msg_heap_checkpoint (x_scratch t) = Some (cp, h)"
  shows "cp = 0" "mh_checkpoint_top h = 1" "heap_ok h" "mh_tsize h = mh_tsize (x_scratch t)"
    "mh_ncheckpoints h = mh_ncheckpoints (x_scratch t)" "length (mh_checkpoints h) = length (mh_checkpoints (x_scratch t))"
  using assms checkpoint_Some(1)[OF _ assms(3)]
  by (auto simp: usipy_msg_heap_checkpoint_def Let_def slot_ok_def)

lemma activate_opens:
  assumes "blank t" "ready m t" "m \<noteq> USIPY_SIP_METHOD_generic" "m \<le> USIPY_SIP_METHOD_max"
    "m = USIPY_SIP_METHOD_INVITE \<longleftrightarrow> x_invite t \<noteq> None" "policy_set timers" "st \<noteq> USIPY_SIP_TM_STATE_TERMINATED"
    "uac_activate transport st cseq cbs timers t = Some (r, t')"
  shows "r = USIPY_SIP_TM_OK \<and> opened_uac i t'"
proof -
  have s: "slot_ok t" "mh_checkpoint_top (x_scratch t) = 0" using assms(1) by (simp_all add: blank_def)
  obtain cp h where cp: "usipy_msg_heap_checkpoint (x_scratch t) = Some (cp, h)"
    using assms(8) by (auto simp: uac_activate_def bind_eq_Some_conv)
  note F = first_checkpoint[OF s cp]
  have f: "\<not> has_flag 0 USIPY_SIP_TM_F_ABANDONED" "\<not> has_flag USIPY_SIP_TM_F_RELIABLE_TRANSPORT USIPY_SIP_TM_F_ABANDONED"
    by (simp_all add: has_flag_def)
  show ?thesis
    using assms(1-7) assms(8)[symmetric] F f
    by (simp add: uac_activate_def cp Let_def opened_uac_def blank_def slot_ok_def ready_def uac_inv_def)
qed

lemma alloc_invite_leaves: "leaves (\<lambda>t. x_invite t \<noteq> None) uac_alloc_invite"
  unfolding uac_alloc_invite_def
  by (rule leaves_later) (auto simp: leaves_def act_set_def)

lemma activate_slot_opens:
  assumes "blank t" "ready (rid_method_type rid) t" "rid_method_type rid \<noteq> USIPY_SIP_METHOD_generic"
    "rid_method_type rid \<le> USIPY_SIP_METHOD_max" "x_invite t = None" "policy_set timers" "st \<noteq> USIPY_SIP_TM_STATE_TERMINATED"
    "usipy_sip_tm_activate_uac_slot tm st rid localp targetp cbs timers t = Some (r, t')"
  shows "r \<noteq> USIPY_SIP_TM_OK \<and> slot_ok t' \<or> r = USIPY_SIP_TM_OK \<and> opened_uac i t'"
proof -
  let ?m = "rid_method_type rid"
  let ?as = "\<lambda>target. [usipy_sip_tm_copy_target_addr (\<lambda>a t. t\<lparr>x_peer := a\<rparr>) target,
        (if length (ad_host localp) \<noteq> 0 then usipy_sip_tm_copy_target_addr (\<lambda>a t. t\<lparr>x_local := a\<rparr>) localp
         else act_set (\<lambda>t. t\<lparr>x_local := tm_laddr tm\<rparr>))]"
  let ?i = "if ?m = USIPY_SIP_METHOD_INVITE then uac_alloc_invite else act_set id"
  obtain target where a: "acts ((?as target @ [?i]) @ [uac_activate (tm_transport tm) st (rid_cseq rid) cbs timers]) t = Some (r, t')"
    using assms(8) by (auto simp: usipy_sip_tm_activate_uac_slot_def bind_eq_Some_conv simp del: acts.simps)
  have R: "step_in open_rel (acts (?as target @ [?i]))"
    unfolding append.simps
    by (intro prepare.acts_Cons prepare.acts_Nil prepare.if_in prepare.target_addr_in prepare.set_in prepare.alloc_invite_in prepare.skip_in)
      (simp_all add: open_rel_def open_frame_def)
  have K: "step_in (\<lambda>t t'. request_key t' = request_key t) (acts (?as target @ [?i]))"
    unfolding append.simps
    by (intro key.acts_Cons key.acts_Nil key.if_in key.target_addr_in key.set_in key.alloc_invite_in key.skip_in)
      (simp_all add: request_key_def)
  have I: "step_in (\<lambda>t t'. x_invite t' = x_invite t) (acts (?as target))"
    by (intro invite.acts_Cons invite.acts_Nil invite.if_in invite.target_addr_in invite.set_in) simp_all
  consider (fail) "r \<noteq> USIPY_SIP_TM_OK" "acts (?as target @ [?i]) t = Some (r, t')"
    | (go) u where "acts (?as target @ [?i]) t = Some (USIPY_SIP_TM_OK, u)"
        "uac_activate (tm_transport tm) st (rid_cseq rid) cbs timers u = Some (r, t')"
    using acts_snoc[OF a] by blast
  then show ?thesis
  proof cases
    case fail
    then show ?thesis using blank_step[OF step_inD[OF R] assms(1)] by (simp add: blank_def)
  next
    case go
    have b1: "blank u" using step_inD[OF R go(1)] assms(1) by (rule blank_step)
    have b2: "ready ?m u" using ready_key[OF step_inD[OF K go(1)]] assms(2) by simp
    note b = b1 b2
    obtain v where v: "acts (?as target) t = Some (USIPY_SIP_TM_OK, v)" "?i v = Some (USIPY_SIP_TM_OK, u)"
      using acts_snoc[OF go(1)] by blast
    have "x_invite v = x_invite t" by (rule step_inD[OF I v(1)])
    moreover have "x_invite u \<noteq> None" if "?m = USIPY_SIP_METHOD_INVITE"
    proof (rule leavesD[OF alloc_invite_leaves])
      show "uac_alloc_invite v = Some (USIPY_SIP_TM_OK, u)" using v(2) that by simp
    qed
    moreover have "x_invite u = x_invite v" if "?m \<noteq> USIPY_SIP_METHOD_INVITE"
      using v(2) that by (simp add: act_set_def)
    ultimately have "?m = USIPY_SIP_METHOD_INVITE \<longleftrightarrow> x_invite u \<noteq> None" using assms(5) by metis
    from activate_opens[OF b assms(3,4) this assms(6,7) go(2)] show ?thesis by simp
  qed
qed

text \<open>A step with a value says what went wrong, when it has none.\<close>

definition says_why :: "'b tx_val \<Rightarrow> bool" where
  "says_why m \<longleftrightarrow> (\<forall>t t'. m t \<noteq> Some (Inl USIPY_SIP_TM_OK, t'))"

lemma let_leaves: "says_why m \<Longrightarrow> (\<And>v. leaves Q (f v)) \<Longrightarrow> leaves Q (act_let m f)"
  unfolding leaves_def says_why_def act_let_def
  by (auto simp: bind_eq_Some_conv split: sum.split_asm)

lemma says_why_steps:
  "says_why (on_scratch (\<lambda>h. heap_keep h s))" "says_why (on_scratch (heap_print s))"
  "says_why (on_scratch (heap_parse_uri s))" "says_why (on_scratch (heap_build_uri u))"
  by (auto simp: says_why_def on_scratch_def heap_keep_def heap_print_def heap_printf_def then_do_def heap_parse_uri_def
      heap_build_uri_def bind_eq_Some_conv split: option.split_asm prod.split_asm sum.split_asm)

lemma materialize_says_why: "says_why (usipy_sip_tm_request_uri_materialize ev targetp)"
  using says_why_steps(1,2) unfolding says_why_def usipy_sip_tm_request_uri_materialize_def
  by (auto simp: Let_def bind_eq_Some_conv split: if_split_asm)

lemma init_request_ready:
  assumes "mdp = rid_method_type rid"
  shows "leaves (ready mdp) (usipy_sip_tm_init_uac_request rid uri mdp)"
proof -
  let ?a = "act_let (on_scratch (\<lambda>h. heap_keep h uri)) (\<lambda>req_uri.
        act_let (on_scratch (heap_parse_uri req_uri)) (\<lambda>u.
          act_set (\<lambda>t. t\<lparr>x_uac := (x_uac t)\<lparr>cc_request_uri := Some u\<rparr>\<rparr>)))"
  have "leaves (\<lambda>t. cc_request_uri (x_uac t) \<noteq> None) ?a" by (intro let_leaves says_why_steps leaves_set) simp
  moreover have "leaves (ready mdp) (acts [a, act_set (\<lambda>t. t\<lparr>x_method_type := rid_method_type rid,
        x_cseq := (x_cseq t)\<lparr>cseq_val := rid_cseq rid, cseq_method := mdp\<rparr>,
        x_uac := (x_uac t)\<lparr>cc_include_contact := True\<rparr>\<rparr>)])"
    if "leaves (\<lambda>t. cc_request_uri (x_uac t) \<noteq> None) a" for a
  proof (rule leaves_def[THEN iffD2], intro allI impI)
    fix t t' assume r: "acts [a, act_set (\<lambda>t. t\<lparr>x_method_type := rid_method_type rid,
        x_cseq := (x_cseq t)\<lparr>cseq_val := rid_cseq rid, cseq_method := mdp\<rparr>,
        x_uac := (x_uac t)\<lparr>cc_include_contact := True\<rparr>\<rparr>)] t = Some (USIPY_SIP_TM_OK, t')"
    then obtain u where u: "a t = Some (USIPY_SIP_TM_OK, u)"
      by (cases "a t") (auto split: if_splits)
    then have "cc_request_uri (x_uac u) \<noteq> None" using that by (rule leavesD[rotated])
    then show "ready mdp t'" using r u by (auto simp: act_set_def ready_def assms)
  qed
  ultimately show ?thesis unfolding usipy_sip_tm_init_uac_request_def by (blast intro: leaves_later[of _ "[_, _]"])
qed

text \<open>What the operations of clients keep: the count may only get further ahead.\<close>

definition safe :: "'a usipy_sip_tm \<Rightarrow> 'a usipy_sip_tm \<Rightarrow> bool" where
  "safe tm tm' \<longleftrightarrow> (tm_inv tm \<longrightarrow> tm_inv tm' \<and> max_transactions tm' = max_transactions tm \<and>
     (\<forall>c. counted c tm \<longrightarrow> (\<exists>d\<ge>c. counted d tm')))"

lemma safe_trans [trans]: "safe a b \<Longrightarrow> safe b c \<Longrightarrow> safe a c"
  by (auto simp: safe_def) (meson order_trans)

lemma sound_safe: "sound tm tm' \<Longrightarrow> safe tm tm'"
  by (auto simp: sound_def safe_def)

lemma safe_refl [simp]: "safe tm tm"
  by (rule sound_safe) simp

text \<open>And they open no server transaction.\<close>

definition server_at :: "'a usipy_sip_tm \<Rightarrow> nat \<Rightarrow> bool" where
  "server_at tm j \<longleftrightarrow> x_active (txn tm j) \<and> x_role (txn tm j) = USIPY_SIP_TM_ROLE_UAS"

definition client :: "'a usipy_sip_tm \<Rightarrow> 'a usipy_sip_tm \<Rightarrow> bool" where
  "client tm tm' \<longleftrightarrow> safe tm tm' \<and>
     (tm_inv tm \<longrightarrow> (\<forall>j<max_transactions tm. server_at tm' j \<longrightarrow> server_at tm j))"

lemma client_trans [trans]: "client a b \<Longrightarrow> client b c \<Longrightarrow> client a c"
  using safe_trans[of a b c] by (auto simp: client_def safe_def)

lemma client_refl [simp]: "client tm tm"
  by (simp add: client_def)

lemma client_safe: "client tm tm' \<Longrightarrow> safe tm tm'"
  by (simp add: client_def)

lemma client_inv: "client tm tm' \<Longrightarrow> tm_inv tm \<Longrightarrow> tm_inv tm' \<and> max_transactions tm' = max_transactions tm"
  by (simp add: client_def safe_def)

lemma client_upd:
  assumes "tm_inv tm \<Longrightarrow> i < max_transactions tm \<Longrightarrow> slot_kept (txn tm i) (f (txn tm i))"
  shows "client tm (upd i f tm)"
proof (cases "i < max_transactions tm")
  case True
  then show ?thesis
    using sound_safe[OF kept_upd[of tm i f]] assms by (auto simp: client_def server_at_def slot_kept_def)
qed (simp add: upd_beyond)

lemma client_step: "(\<And>t. slot_step t (f t)) \<Longrightarrow> client tm (upd i f tm)"
  by (intro client_upd step_kept)

lemma server_same: "txn tm' j = (txn tm j)\<lparr>x_child_index := c\<rparr> \<Longrightarrow> server_at tm' j = server_at tm j"
  by (simp add: server_at_def)

lemma alloc_client:
  assumes "usipy_sip_tm_alloc_slot tm = (f, tm1)"
  shows "client tm tm1"
proof (cases f)
  case None
  then show ?thesis using assms by (cases rule: alloc_slot_spec[of tm]) auto
next
  case (Some i)
  have "server_at tm j" if "tm_inv tm" "j < max_transactions tm" "server_at tm1 j" for j
    using alloc_ok(7)[OF _ assms[unfolded Some] that(2)] that server_same[of tm1 j _ tm]
    by (auto simp: tm_inv_def server_at_def)
  then show ?thesis using sound_safe[OF alloc_sound[OF assms]] by (auto simp: client_def)
qed

lemma open_acts_cases:
  assumes "tm_acts [slot_act i A, count_active, slot_act i B] tm = Some (r, tm')" "i < max_transactions tm"
  obtains (early) t where "r \<noteq> USIPY_SIP_TM_OK" "A tm (txn tm i) = Some (r, t)" "tm' = upd i (\<lambda>_. t) tm"
  | (late) t u where "A tm (txn tm i) = Some (USIPY_SIP_TM_OK, t)"
      "B ((upd i (\<lambda>_. t) tm)\<lparr>tm_nactive := tm_nactive tm + 1\<rparr>) t = Some (r, u)"
      "tm' = (upd i (\<lambda>_. u) tm)\<lparr>tm_nactive := tm_nactive tm + 1\<rparr>"
proof -
  obtain q t where a: "A tm (txn tm i) = Some (q, t)" using assms(1) by (auto simp: slot_act_def run_act_def bind_eq_Some_conv)
  show thesis
  proof (cases "q = USIPY_SIP_TM_OK")
    case True
    let ?tm = "(upd i (\<lambda>_. t) tm)\<lparr>tm_nactive := tm_nactive tm + 1\<rparr>"
    have i: "txn ?tm i = t" "i < max_transactions ?tm" using assms(2) by (simp_all del: upd_nactive) 
    have "slot_act i B ?tm = Some (r, tm')"
      using assms(1) a True by (auto simp: slot_act_def run_act_def count_active_def bind_eq_Some_conv simp del: upd_nactive split: if_splits)
    then obtain u where u: "B ?tm t = Some (r, u)" "tm' = upd i (\<lambda>_. u) ?tm"
      using i by (auto simp: slot_act_def run_act_def simp del: upd_nactive)
    have "tm' = (upd i (\<lambda>_. u) tm)\<lparr>tm_nactive := tm_nactive tm + 1\<rparr>" using u(2) assms(2) by simp
    then show thesis using late a True u(1) by blast
  next
    case False
    then show thesis using assms(1) a by (intro early) (auto simp: slot_act_def run_act_def)
  qed
qed

lemma alloc_blank:
  assumes "tm_inv tm" "usipy_sip_tm_alloc_slot tm = (Some i, tm1)"
  shows "blank (txn tm1 i)" "x_invite (txn tm1 i) = None" "i < max_transactions tm" "max_transactions tm1 = max_transactions tm"
    "tm_inv tm1" "counted c tm \<Longrightarrow> counted c tm1"
    "j < max_transactions tm \<Longrightarrow> x_active (txn tm1 j) \<Longrightarrow> j \<noteq> i \<and> (\<exists>c. txn tm1 j = (txn tm j)\<lparr>x_child_index := c\<rparr>)"
proof -
  have ok: "slots_ok tm" using assms(1) by (simp add: tm_inv_def)
  note A = alloc_ok[OF ok assms(2)]
  obtain t where t: "slot_ok t" "txn tm1 i = usipy_sip_tm_tx_reset t" using A(6) by blast
  show "blank (txn tm1 i)" using reset_ok(1)[OF t(1)] reset_top[OF t(1)] by (simp add: blank_def t(2))
  show "x_invite (txn tm1 i) = None" by (simp add: t(2) usipy_sip_tm_tx_reset_def slot_zero_def Let_def)
  show "tm_inv tm1" using alloc_sound[OF assms(2)] assms(1) by (simp add: sound_def)
qed (use alloc_ok[OF _ assms(2)] assms(1) in \<open>auto simp: tm_inv_def\<close>)

text \<open>
  Opening as all three operations do it: a slot is taken and prepared, the transaction counted, and the
  slot reset when anything fails.
\<close>

lemma open_client:
  assumes inv: "tm_inv tm" and al: "usipy_sip_tm_alloc_slot tm = (Some i, tm1)"
    and o: "or_fini i g (tm_acts [slot_act i A, count_active, slot_act i B] tm1) = Some (r, idx, tm')"
    and early: "\<And>q t. A tm1 (txn tm1 i) = Some (q, t) \<Longrightarrow> q \<noteq> USIPY_SIP_TM_OK \<Longrightarrow> slot_ok t"
    and late: "\<And>q t u tm2. A tm1 (txn tm1 i) = Some (USIPY_SIP_TM_OK, t) \<Longrightarrow> B tm2 t = Some (q, u) \<Longrightarrow>
       q \<noteq> USIPY_SIP_TM_OK \<and> slot_ok u \<or> q = USIPY_SIP_TM_OK \<and> opened_uac i u \<and> Q u"
  shows "client tm tm' \<and> (\<forall>k. idx = Some k \<longrightarrow> r = USIPY_SIP_TM_OK \<and> opened_uac k (txn tm' k) \<and> Q (txn tm' k) \<and> k < max_transactions tm') \<and>
      (idx = None \<longrightarrow> (\<exists>q. q \<noteq> USIPY_SIP_TM_OK \<and> r = g q))"
proof -
  note N = alloc_blank[OF inv al]
  have i: "i < max_transactions tm1" and na: "\<not> x_active (txn tm1 i)" using N(1,3,4) by (simp_all add: blank_def)
  obtain q tm2 where q: "tm_acts [slot_act i A, count_active, slot_act i B] tm1 = Some (q, tm2)"
    using o unfolding or_fini_def by (auto simp only: bind_eq_Some_conv)
  have o2: "(if q \<noteq> USIPY_SIP_TM_OK then Some (g q, None, upd i usipy_sip_tm_tx_fini tm2)
      else Some (USIPY_SIP_TM_OK, Some i, tm2)) = Some (r, idx, tm')"
    using o unfolding or_fini_def q by simp
  have sv: "server_at tm j" if "j < max_transactions tm" "j \<noteq> i" "txn tm' j = txn tm1 j" "server_at tm' j" for j
    using N(7)[of j] that server_same[of tm1 j _ tm] by (auto simp: server_at_def)
  show ?thesis
    using q i
  proof (cases rule: open_acts_cases)
    case (early t)
    note e = early
    have t: "slot_ok t" using assms(4) e(1,2) by blast
    have tm': "idx = None" "r = g q" "tm' = upd i (\<lambda>_. usipy_sip_tm_tx_fini t) tm1"
      using o2 e i by auto
    have "tm_inv tm'" unfolding tm'(3) using fini_ok[OF t] by (intro tm_inv_upd[OF N(5)]) simp_all
    moreover have "counted c tm'" if "counted c tm" for c
      unfolding tm'(3) using N(6)[OF that] i na by (intro counted_same) simp_all
    moreover have "server_at tm j" if "j < max_transactions tm" "server_at tm' j" for j
      using sv[of j] that i N(4) tm'(3) by (cases "j = i") (auto simp: server_at_def)
    ultimately show ?thesis using N(4) tm' e(1) by (auto simp: safe_def client_def)
  next
    case (late t u)
    note l = late
    consider (fail) "q \<noteq> USIPY_SIP_TM_OK" "slot_ok u" | (opened) "q = USIPY_SIP_TM_OK" "opened_uac i u" "Q u"
      using assms(5) l(1,2) by blast
    then show ?thesis
    proof cases
      case fail
      have tm': "idx = None" "r = g q" "tm' = (upd i (\<lambda>_. usipy_sip_tm_tx_fini u) tm1)\<lparr>tm_nactive := tm_nactive tm1 + 1\<rparr>"
        using o2 l(3) fail(1) i by auto
      have "tm_inv tm'" unfolding tm'(3) tm_inv_nactive
        using fini_ok[OF fail(2)] by (intro tm_inv_upd[OF N(5)]) simp_all
      moreover have "counted (Suc c) tm'" if "counted c tm" for c
        using counted_same[OF N(6)[OF that], of i "\<lambda>_. usipy_sip_tm_tx_fini u"] i na tm'(3) by (simp add: counted_def del: upd_nactive)
      moreover have "server_at tm j" if "j < max_transactions tm" "server_at tm' j" for j
        using sv[of j] that i N(4) tm'(3) by (cases "j = i") (auto simp: server_at_def)
      ultimately show ?thesis using N(4) tm' fail(1) by (auto simp: safe_def client_def intro!: exI[of _ "Suc _"])
    next
      case opened
      have tm': "idx = Some i" "r = USIPY_SIP_TM_OK" "tm' = (upd i (\<lambda>_. u) tm1)\<lparr>tm_nactive := tm_nactive tm1 + 1\<rparr>"
        using o2 l(3) opened(1) by auto
      have "tm_inv tm'" unfolding tm'(3) tm_inv_nactive
        using opened(2) by (intro tm_inv_upd[OF N(5)]) (simp_all add: opened_uac_def)
      moreover have "counted c tm'" if "counted c tm" for c
        unfolding tm'(3) using N(6)[OF that] i na opened(2) by (intro counted_on) (simp_all add: opened_uac_def)
      moreover have "txn tm' i = u" "max_transactions tm' = max_transactions tm" using i N(4) by (simp_all add: tm'(3))
      moreover have "server_at tm j" if "j < max_transactions tm" "server_at tm' j" for j
        using sv[of j] that i N(4) tm'(3) opened(2) by (cases "j = i") (auto simp: server_at_def opened_uac_def)
      ultimately show ?thesis using tm' opened(2,3) N(3) by (auto simp: safe_def client_def)
    qed
  qed
qed

lemma lookup_method:
  "usipy_sip_tm_lookup_uac_method m d = Some (Inr k) \<Longrightarrow>
     k = m \<and> m \<noteq> USIPY_SIP_METHOD_generic \<and> m \<le> USIPY_SIP_METHOD_max \<and> (d \<longrightarrow> m \<noteq> USIPY_SIP_METHOD_INVITE)"
  by (cases "m = 0") (auto simp: usipy_sip_tm_lookup_uac_method_def usipy_method_db_def bind_eq_Some_conv split: if_splits)

lemma lookup_error: "usipy_sip_tm_lookup_uac_method m d = Some (Inl e) \<Longrightarrow> e \<noteq> USIPY_SIP_TM_OK"
  by (auto simp: usipy_sip_tm_lookup_uac_method_def bind_eq_Some_conv split: if_splits)

lemma opened_writes: "step_in request_rel a \<Longrightarrow> opened_uac i t \<Longrightarrow> a t = Some (r, u) \<Longrightarrow> slot_ok u \<and> opened_uac i u"
proof -
  assume a: "step_in request_rel a" "opened_uac i t" "a t = Some (r, u)"
  have k: "request_rel t u" by (rule step_inD[OF a(1,3)])
  then have "slot_kept t u" using a(2) by (intro written_kept) (simp_all add: opened_uac_def)
  moreover have "x_active u = x_active t" "x_parent_index u = x_parent_index t" "x_child_index u = x_child_index t"
    using k by (simp_all add: request_rel_def request_frame_def open_frame_def)
  ultimately show "slot_ok u \<and> opened_uac i u" using a(2) by (auto simp: slot_kept_def slot_good_def opened_uac_def)
qed

text \<open>The first part of an opening: the request, what does not touch it, and the activation.\<close>

lemma prepared_opens:
  assumes "blank t" "x_invite t = None"
    and first: "step_in open_rel a" "leaves (ready m) a" "step_in (\<lambda>t t'. x_invite t' = x_invite t) a"
    and rest: "step_in open_rel (acts as)" "step_in (\<lambda>t t'. request_key t' = request_key t) (acts as)"
      "step_in (\<lambda>t t'. x_invite t' = x_invite t) (acts as)"
    and m: "m = rid_method_type rid" "m \<noteq> USIPY_SIP_METHOD_generic" "m \<le> USIPY_SIP_METHOD_max"
    and last: "policy_set timers" "st \<noteq> USIPY_SIP_TM_STATE_TERMINATED"
    and run: "acts ((a # as) @ [usipy_sip_tm_activate_uac_slot tm st rid localp targetp cbs timers]) t = Some (r, t')"
  shows "r \<noteq> USIPY_SIP_TM_OK \<and> slot_ok t' \<or> r = USIPY_SIP_TM_OK \<and> opened_uac i t'"
proof -
  have R: "step_in open_rel (acts (a # as))" by (intro prepare.acts_Cons first rest)
  have I: "step_in (\<lambda>t t'. x_invite t' = x_invite t) (acts (a # as))" by (intro invite.acts_Cons first rest)
  consider (fail) "r \<noteq> USIPY_SIP_TM_OK" "acts (a # as) t = Some (r, t')"
    | (go) u where "acts (a # as) t = Some (USIPY_SIP_TM_OK, u)"
        "usipy_sip_tm_activate_uac_slot tm st rid localp targetp cbs timers u = Some (r, t')"
    using acts_snoc[OF run] by blast
  then show ?thesis
  proof cases
    case fail
    then show ?thesis using blank_step[OF step_inD[OF R] assms(1)] by (simp add: blank_def)
  next
    case go
    have b: "blank u" by (rule blank_step[OF step_inD[OF R go(1)] assms(1)])
    obtain v where v: "a t = Some (USIPY_SIP_TM_OK, v)" "acts as v = Some (USIPY_SIP_TM_OK, u)"
      using go(1) by (cases "a t") (auto split: if_splits)
    have "ready m u" using ready_key[OF step_inD[OF rest(2) v(2)]] leavesD[OF first(2) v(1)] by simp
    moreover have "x_invite u = None" using step_inD[OF I go(1)] assms(2) by simp
    ultimately show ?thesis using m by (intro activate_slot_opens[OF b _ _ _ _ last go(2)]) simp_all
  qed
qed

lemma init_first:
  "step_in open_rel (usipy_sip_tm_init_uac_request rid uri m)"
  "step_in (\<lambda>t t'. x_invite t' = x_invite t) (usipy_sip_tm_init_uac_request rid uri m)"
  by (intro prepare.init_request_in invite.init_request_in; simp add: open_rel_def open_frame_def)+

lemma new_uac_safe:
  assumes inv: "tm_inv tm" and pol: "policy_ok ev"
    and o: "usipy_sip_tm_new_uac_tr ev tm tpp = Some (r, idx, tm')"
  shows "client tm tm'" "idx = Some k \<Longrightarrow> r = USIPY_SIP_TM_OK \<and> opened_uac k (txn tm' k) \<and> k < max_transactions tm'"
    "idx = None \<Longrightarrow> r \<noteq> USIPY_SIP_TM_OK"
proof -
  define rid where "rid = nuc_request_id tpp"
  define localp where "localp = addr_or_empty (nuc_local tpp)"
  obtain m where m: "usipy_sip_tm_lookup_uac_method (rid_method_type rid) False = Some m"
    using o by (auto simp: usipy_sip_tm_new_uac_tr_def Let_def bind_eq_Some_conv rid_def)
  obtain f tm1 where al: "usipy_sip_tm_alloc_slot tm = (f, tm1)" by force
  have "client tm tm' \<and> (\<forall>k. idx = Some k \<longrightarrow> r = USIPY_SIP_TM_OK \<and> opened_uac k (txn tm' k) \<and> k < max_transactions tm') \<and>
    (idx = None \<longrightarrow> r \<noteq> USIPY_SIP_TM_OK)"
  proof (cases "(\<exists>e. m = Inl e) \<or> f = None")
    case True
    then have "idx = None \<and> r \<noteq> USIPY_SIP_TM_OK \<and> (tm' = tm \<or> tm' = tm1)"
      using o m al lookup_error[of "rid_method_type rid" False]
      by (cases m) (auto simp: usipy_sip_tm_new_uac_tr_def Let_def rid_def)
    then show ?thesis using alloc_client[OF al] by auto
  next
    case False
    then obtain mdp i where mi: "m = Inr mdp" "f = Some i" by (cases m) auto
    note M = lookup_method[OF m[unfolded mi]]
    note N = alloc_blank[OF inv al[unfolded mi]]
    let ?first = "act_let (usipy_sip_tm_request_uri_materialize ev (nuc_request_target tpp)) (\<lambda>request_uri.
                      usipy_sip_tm_init_uac_request rid request_uri mdp)"
    let ?as = "[usipy_sip_tm_prepare_initial_call_id ev tm1 i,
                    usipy_sip_tm_init_uac_parties_by_username
                      (if length (ad_host localp) \<noteq> 0 then localp else tm_laddr tm1) (nuc_parties_by_username tpp),
                    act_set (\<lambda>t. t\<lparr>x_uac := (x_uac t)\<lparr>cc_contact_expires := nuc_contact_expires tpp,
                      cc_invite_expires := (if nuc_invite_expires tpp \<noteq> 0 then nuc_invite_expires tpp else 300)\<rparr>\<rparr>)]"
    let ?B = "\<lambda>tm. usipy_sip_tm_build_request ev tm i (nuc_payload tpp) []"
    let ?st = "if rid_method_type rid = USIPY_SIP_METHOD_INVITE then USIPY_SIP_TM_STATE_CALLING else USIPY_SIP_TM_STATE_TRYING"
    define A where "A = (\<lambda>tm. acts
                   [act_let (usipy_sip_tm_request_uri_materialize ev (nuc_request_target tpp)) (\<lambda>request_uri.
                      usipy_sip_tm_init_uac_request rid request_uri mdp),
                    usipy_sip_tm_prepare_initial_call_id ev tm i,
                    usipy_sip_tm_init_uac_parties_by_username
                      (if length (ad_host localp) \<noteq> 0 then localp else tm_laddr (tm :: 'a usipy_sip_tm)) (nuc_parties_by_username tpp),
                    act_set (\<lambda>t. t\<lparr>x_uac := (x_uac t)\<lparr>cc_contact_expires := nuc_contact_expires tpp,
                      cc_invite_expires := (if nuc_invite_expires tpp \<noteq> 0 then nuc_invite_expires tpp else 300)\<rparr>\<rparr>),
                    usipy_sip_tm_activate_uac_slot tm ?st rid localp (rt_target (nuc_request_target tpp))
                      (callbacks_or_empty (nuc_callbacks tpp)) (usipy_sip_tm_timer_policy_resolve (nuc_timers tpp))])"
    have o1: "or_fini i id (tm_acts [slot_act i A, count_active, slot_act i ?B] tm1) = Some (r, idx, tm')"
      using o unfolding usipy_sip_tm_new_uac_tr_def Let_def rid_def[symmetric] localp_def[symmetric]
      by (simp only: m mi al Option.bind.simps option.case sum.case prod.case A_def)
    have A: "q \<noteq> USIPY_SIP_TM_OK \<and> slot_ok t \<or> q = USIPY_SIP_TM_OK \<and> opened_uac i t" if "A tm1 (txn tm1 i) = Some (q, t)" for q t
    proof (rule prepared_opens[OF N(1,2)])
      show "acts ((?first # ?as) @ [usipy_sip_tm_activate_uac_slot tm1 ?st rid localp (rt_target (nuc_request_target tpp))
          (callbacks_or_empty (nuc_callbacks tpp)) (usipy_sip_tm_timer_policy_resolve (nuc_timers tpp))]) (txn tm1 i) = Some (q, t)"
        using that by (simp only: A_def append.simps)
      show "step_in open_rel ?first" "step_in (\<lambda>t t'. x_invite t' = x_invite t) ?first"
        by (intro prepare.let_in prepare.materialize_in invite.let_in invite.materialize_in init_first)+
      show "leaves (ready mdp) ?first" using M by (intro let_leaves materialize_says_why init_request_ready) simp
      show "step_in open_rel (acts ?as)"
        by (intro prepare.acts_Cons prepare.acts_Nil prepare.initial_call_id_in prepare.parties_username_in prepare.set_in pol)
          (simp_all add: put_uri_defs open_rel_def open_frame_def)
      show "step_in (\<lambda>t t'. request_key t' = request_key t) (acts ?as)"
        by (intro key.acts_Cons key.acts_Nil key.initial_call_id_in key.parties_username_in key.set_in pol)
          (simp_all add: put_uri_defs request_key_def)
      show "step_in (\<lambda>t t'. x_invite t' = x_invite t) (acts ?as)"
        by (intro invite.acts_Cons invite.acts_Nil invite.initial_call_id_in invite.parties_username_in invite.set_in pol)
          (simp_all add: put_uri_defs)
    qed (use M in simp_all)
    have B: "q \<noteq> USIPY_SIP_TM_OK \<and> slot_ok u \<or> q = USIPY_SIP_TM_OK \<and> opened_uac i u"
      if "A tm1 (txn tm1 i) = Some (USIPY_SIP_TM_OK, t)" "?B tm2 t = Some (q, u)" for q t u tm2
      using A[OF that(1)] opened_writes[OF build_request_rel[OF pol] _ that(2)] by auto
    have "client tm tm' \<and> (\<forall>k. idx = Some k \<longrightarrow> r = USIPY_SIP_TM_OK \<and> opened_uac k (txn tm' k) \<and> k < max_transactions tm') \<and>
      (idx = None \<longrightarrow> (\<exists>q. q \<noteq> USIPY_SIP_TM_OK \<and> r = id q))"
      using open_client[OF inv al[unfolded mi] o1, where Q = "\<lambda>_. True"] A B by blast
    then show ?thesis by auto
  qed
  then show "client tm tm'" "idx = Some k \<Longrightarrow> r = USIPY_SIP_TM_OK \<and> opened_uac k (txn tm' k) \<and> k < max_transactions tm'"
    "idx = None \<Longrightarrow> r \<noteq> USIPY_SIP_TM_OK" by blast+
qed

lemma new_in_dialog_safe:
  assumes inv: "tm_inv tm" and pol: "policy_ok ev"
    and o: "usipy_sip_tm_new_in_dialog_transaction ev tm tpp = Some (r, idx, tm')"
  shows "client tm tm'" "idx = Some k \<Longrightarrow> r = USIPY_SIP_TM_OK \<and> opened_uac k (txn tm' k) \<and> k < max_transactions tm'"
    "idx = None \<Longrightarrow> r \<noteq> USIPY_SIP_TM_OK"
proof -
  define rid where "rid = nid_request_id tpp"
  define routes where "routes = (case nid_route_set tpp of None \<Rightarrow> [] | Some rs \<Rightarrow> rs)"
  consider (bad) "idx = None" "r \<noteq> USIPY_SIP_TM_OK" "tm' = tm \<or> (\<exists>f. usipy_sip_tm_alloc_slot tm = (f, tm'))"
    | (go) uri mdp i tm1 where "usipy_sip_tm_lookup_uac_method (rid_method_type rid) True = Some (Inr mdp)"
        "usipy_sip_tm_alloc_slot tm = (Some i, tm1)"
        "or_fini i (\<lambda>_. USIPY_SIP_TM_ERR_NOSPC) (tm_acts
                  [slot_act i (\<lambda>tm. acts
                     [usipy_sip_tm_init_uac_request rid uri mdp,
                      usipy_sip_tm_init_uac_parties_by_uri (nid_parties_by_uri tpp) (nid_dialog_tags tpp),
                      act_let (on_scratch (usipy_sip_tm_copy_route_set routes)) (\<lambda>routes.
                        act_set (usipy_sip_tm_set_route_set routes)),
                      usipy_sip_tm_activate_uac_slot tm USIPY_SIP_TM_STATE_TRYING rid
                        (addr_or_empty (nid_local tpp)) (rt_target (nid_request_target tpp))
                        (callbacks_or_empty (nid_callbacks tpp))
                        (usipy_sip_tm_timer_policy_resolve (nid_timers tpp))]),
                   count_active,
                   slot_act i (\<lambda>tm. usipy_sip_tm_prepare_ids ev tm i)] tm1) = Some (r, idx, tm')"
  proof -
    obtain f tm1 where al: "usipy_sip_tm_alloc_slot tm = (f, tm1)" by force
    note D = o[unfolded usipy_sip_tm_new_in_dialog_transaction_def Let_def, folded rid_def, folded routes_def]
    show thesis
    proof (cases "usipy_sip_tm_lookup_uac_method (rid_method_type rid) True")
      case None
      then show thesis using D by (intro bad) (auto simp: bind_eq_Some_conv split: if_split_asm)
    next
      case (Some m)
      show thesis
      proof (cases m)
        case (Inl e)
        then show thesis using D Some lookup_error[of "rid_method_type rid" True e]
          by (intro bad) (auto simp: bind_eq_Some_conv split: if_split_asm)
      next
        case (Inr mdp)
        show thesis
        proof (cases f)
          case None
          then show thesis using D Some Inr al by (intro bad) (auto simp: bind_eq_Some_conv split: if_split_asm)
        next
          case f: (Some i)
          show thesis using D Some Inr al f bad go[of mdp i tm1]
            by (auto simp: bind_eq_Some_conv simp del: tm_acts.simps split: if_split_asm)
        qed
      qed
    qed
  qed
  then have "client tm tm' \<and> (\<forall>k. idx = Some k \<longrightarrow> r = USIPY_SIP_TM_OK \<and> opened_uac k (txn tm' k) \<and> k < max_transactions tm') \<and>
    (idx = None \<longrightarrow> r \<noteq> USIPY_SIP_TM_OK)"
  proof cases
    case bad
    then show ?thesis using alloc_client by auto
  next
    case go
    note M = lookup_method[OF go(1)]
    note N = alloc_blank[OF inv go(2)]
    let ?first = "usipy_sip_tm_init_uac_request rid uri mdp"
    let ?as = "[usipy_sip_tm_init_uac_parties_by_uri (nid_parties_by_uri tpp) (nid_dialog_tags tpp),
                act_let (on_scratch (usipy_sip_tm_copy_route_set routes)) (\<lambda>routes.
                        act_set (usipy_sip_tm_set_route_set routes))]"
    let ?A = "\<lambda>tm. acts (?first # ?as @ [usipy_sip_tm_activate_uac_slot tm USIPY_SIP_TM_STATE_TRYING rid
                        (addr_or_empty (nid_local tpp)) (rt_target (nid_request_target tpp))
                        (callbacks_or_empty (nid_callbacks tpp))
                        (usipy_sip_tm_timer_policy_resolve (nid_timers tpp))])"
    have A: "q \<noteq> USIPY_SIP_TM_OK \<and> slot_ok t \<or> q = USIPY_SIP_TM_OK \<and> opened_uac i t" if "?A tm1 (txn tm1 i) = Some (q, t)" for q t
    proof (rule prepared_opens[OF N(1,2)])
      show "acts ((?first # ?as) @ [usipy_sip_tm_activate_uac_slot tm1 USIPY_SIP_TM_STATE_TRYING rid
                        (addr_or_empty (nid_local tpp)) (rt_target (nid_request_target tpp))
                        (callbacks_or_empty (nid_callbacks tpp))
                        (usipy_sip_tm_timer_policy_resolve (nid_timers tpp))]) (txn tm1 i) = Some (q, t)"
        using that by (simp only: append.simps)
      show "step_in open_rel ?first" "step_in (\<lambda>t t'. x_invite t' = x_invite t) ?first" by (rule init_first)+
      show "leaves (ready mdp) ?first" using M by (intro init_request_ready) simp
      show "step_in open_rel (acts ?as)"
        by (intro prepare.acts_Cons prepare.acts_Nil prepare.parties_uri_in prepare.route_set_in)
          (simp_all add: put_uri_defs open_rel_def open_frame_def)
      show "step_in (\<lambda>t t'. request_key t' = request_key t) (acts ?as)"
        by (intro key.acts_Cons key.acts_Nil key.parties_uri_in key.route_set_in)
          (simp_all add: put_uri_defs request_key_def)
      show "step_in (\<lambda>t t'. x_invite t' = x_invite t) (acts ?as)"
        by (intro invite.acts_Cons invite.acts_Nil invite.parties_uri_in invite.route_set_in)
          (simp_all add: put_uri_defs)
    qed (use M in simp_all)
    let ?B = "\<lambda>tm. usipy_sip_tm_prepare_ids ev tm i"
    have B: "q \<noteq> USIPY_SIP_TM_OK \<and> slot_ok u \<or> q = USIPY_SIP_TM_OK \<and> opened_uac i u"
      if "?A tm1 (txn tm1 i) = Some (USIPY_SIP_TM_OK, t)" "?B tm2 t = Some (q, u)" for q t u tm2
      using A[OF that(1)] opened_writes[OF prepare_ids_rel[OF pol] _ that(2)] by auto
    have "client tm tm' \<and> (\<forall>k. idx = Some k \<longrightarrow> r = USIPY_SIP_TM_OK \<and> opened_uac k (txn tm' k) \<and> k < max_transactions tm') \<and>
      (idx = None \<longrightarrow> (\<exists>q. q \<noteq> USIPY_SIP_TM_OK \<and> r = USIPY_SIP_TM_ERR_NOSPC))"
      using open_client[OF inv go(2) go(3), where Q = "\<lambda>_. True"] A B unfolding append.simps by blast
    then show ?thesis by auto
  qed
  then show "client tm tm'" "idx = Some k \<Longrightarrow> r = USIPY_SIP_TM_OK \<and> opened_uac k (txn tm' k) \<and> k < max_transactions tm'"
    "idx = None \<Longrightarrow> r \<noteq> USIPY_SIP_TM_OK" by blast+
qed

text \<open>An INVITE that is cloned is still there after the slot was taken, or has no request URI any more.\<close>

lemma alloc_keeps_or_resets:
  assumes "tm_inv tm" "usipy_sip_tm_alloc_slot tm = (Some i, tm1)" "j < max_transactions tm"
  shows "cc_request_uri (x_uac (txn tm1 j)) = None \<or> (\<exists>c. txn tm1 j = (txn tm j)\<lparr>x_child_index := c\<rparr>)"
proof -
  have z: "cc_request_uri (x_uac (usipy_sip_tm_tx_reset t)) = None" "cc_request_uri (x_uac (usipy_sip_tm_tx_fini t)) = None" for t
    by (simp_all add: usipy_sip_tm_tx_fini_def usipy_sip_tm_tx_reset_def slot_zero_def Let_def)
  have same: "\<exists>c. txn tm j = (txn tm j)\<lparr>x_child_index := c\<rparr>"
    by (rule exI[of _ "x_child_index (txn tm j)"]) simp
  show ?thesis
  proof (cases rule: alloc_slot_spec[of tm])
    case (free f)
    then have "tm1 = upd i usipy_sip_tm_tx_reset tm" "f = i" using assms(2) by simp_all
    then show ?thesis using free(2) z same by (cases "j = i") simp_all
  next
    case (evicted f u)
    then have e: "f = i" "tm1 = upd i usipy_sip_tm_tx_reset u" using assms(2) by simp_all
    have "x_parent_index (txn tm i) \<noteq> Some i" using assms(1) evicted(2) e(1) by (simp add: tm_inv_good)
    from drop_spec[OF _ _ this] obtain n where "usipy_sip_tm_drop_transaction tm i = (USIPY_SIP_TM_OK,
        with_slots tm n (map (dropped_slot tm i) [0..<max_transactions tm]))"
      using evicted(2,3) e(1) by blast
    then have u: "u = with_slots tm n (map (dropped_slot tm i) [0..<max_transactions tm])" using evicted(6) e(1) by simp
    then have d: "txn u j = dropped_slot tm i j" "max_transactions u = max_transactions tm" using assms(3) by simp_all
    show ?thesis
    proof (cases "j = i")
      case True
      then show ?thesis using e(2) d(2) assms(3) z by simp
    next
      case False
      then have "txn tm1 j = dropped_slot tm i j" using e d evicted(2) by simp
      then show ?thesis using z by (cases rule: dropped_cases[of tm i j]) auto
    qed
  next
    case full
    then show ?thesis using assms(2) by simp
  qed
qed

interpretation has_uri: slot_contract "\<lambda>t t'. (cc_request_uri (x_uac t') = None) = (cc_request_uri (x_uac t) = None)"
  by (rule field_contract) simp

interpretation its_method: slot_contract "\<lambda>t t'. x_method_type t' = x_method_type t"
  by (rule field_contract) simp

lemma clone_steps_uri: "leaves (\<lambda>t. (cc_request_uri (x_uac t) = None) = False) (acts (clone_steps src m))"
  unfolding clone_steps_def
proof (rule leaves_later, rule leaves_here)
  show "leaves (\<lambda>t. (cc_request_uri (x_uac t) = None) = False) (usipy_sip_tm_copy_parsed_uri (cc_request_uri (x_uac src)))"
  proof (cases "cc_request_uri (x_uac src)")
    case (Some u)
    have "leaves (\<lambda>t. (cc_request_uri (x_uac t) = None) = False) (act_let (on_scratch (heap_build_uri u)) (\<lambda>uris.
       act_let (on_scratch (heap_parse_uri uris)) (\<lambda>u.
         act_set (\<lambda>t. t\<lparr>x_uac := (x_uac t)\<lparr>cc_request_uri := Some u\<rparr>\<rparr>))))"
      by (intro let_leaves says_why_steps leaves_set) simp
    then show ?thesis by (simp add: leaves_def usipy_sip_tm_copy_parsed_uri_def Some)
  qed (simp add: leaves_def usipy_sip_tm_copy_parsed_uri_def)
qed (intro has_uri.acts_Cons has_uri.acts_Nil has_uri.copy_uri_in has_uri.set_in has_uri.if_in has_uri.keep_in has_uri.skip_in;
    simp add: put_uri_defs)

lemma clone_steps_method: "leaves (\<lambda>t. x_method_type t = m) (acts (clone_steps src m))"
  unfolding clone_steps_def
  by (rule leaves_later, rule leaves_later, rule leaves_later, rule leaves_later, rule leaves_later, rule leaves_here,
      rule leaves_set, simp, intro its_method.acts_Cons its_method.acts_Nil its_method.if_in its_method.keep_in its_method.skip_in) simp_all

text \<open>Without a request URI there is nothing to clone.\<close>

lemma clone_steps_need_uri:
  assumes "acts (clone_steps src m) t = Some (USIPY_SIP_TM_OK, u)"
  shows "cc_request_uri (x_uac src) \<noteq> None"
proof
  assume n: "cc_request_uri (x_uac src) = None"
  have e: "usipy_sip_tm_copy_parsed_uri (cc_request_uri (x_uac src)) t = None" for t
    by (simp add: usipy_sip_tm_copy_parsed_uri_def n)
  show False
    using assms unfolding clone_steps_def by (auto simp: e bind_eq_Some_conv split: if_split_asm)
qed

text \<open>The clone once it is active, and its last steps.\<close>

definition cloned :: "nat \<Rightarrow> usipy_sip_tm_txi \<Rightarrow> bool" where
  "cloned m t \<longleftrightarrow> x_active t \<and> x_role t = USIPY_SIP_TM_ROLE_UAC \<and> x_method_type t = m \<and> cseq_method (x_cseq t) = m \<and>
     x_invite t = None \<and> cc_request_uri (x_uac t) \<noteq> None \<and> \<not> abandoned t \<and> x_state t \<noteq> USIPY_SIP_TM_STATE_TERMINATED"

lemma flags_kept: "\<not> has_flag (f AND NOT b) b"
  by (simp add: has_flag_def bit_eq_iff bit_simps)

lemma clone_ends:
  assumes t: "slot_ok t" "mh_checkpoint_top (x_scratch t) = 0" "x_parent_index t \<noteq> Some i" "x_child_index t = None" "cloned m t"
    and m: "m = USIPY_SIP_METHOD_ACK \<or> m = USIPY_SIP_METHOD_CANCEL" and pol: "policy_set (x_timers src)"
    and run: "acts [usipy_sip_tm_copy_target_addr (\<lambda>a t. t\<lparr>x_peer := a\<rparr>) (x_peer src), clone_outbound src] t = Some (q, u)"
  shows "q \<noteq> USIPY_SIP_TM_OK \<and> slot_ok u \<or> q = USIPY_SIP_TM_OK \<and> opened_uac i u \<and> x_method_type u = m"
proof -
  let ?a = "usipy_sip_tm_copy_target_addr (\<lambda>a t. t\<lparr>x_peer := a\<rparr>) (x_peer src)"
  have R: "step_in request_rel ?a"
    by (intro writing.target_addr_in) (simp add: request_rel_def request_frame_def open_frame_def)
  obtain p v where v: "?a t = Some (p, v)" "p \<noteq> USIPY_SIP_TM_OK \<and> q = p \<and> u = v \<or> p = USIPY_SIP_TM_OK \<and> clone_outbound src v = Some (q, u)"
    using run by (cases "?a t") (auto simp: clone_outbound_def bind_eq_Some_conv Let_def split: if_split_asm)
  have k: "request_rel t v" by (rule step_inD[OF R v(1)])
  then have f: "keeps (x_scratch t) (x_scratch v)" "x_scratch_buf v = x_scratch_buf t" "x_scratch_capacity v = x_scratch_capacity t"
    by (simp_all add: request_rel_def request_frame_def open_frame_def)
  note ok = keeps_slot[OF f(1) t(1) f(2,3)]
  have vt: "x_parent_index v \<noteq> Some i" "x_child_index v = None" "cloned m v"
    using k t(3-5) by (simp_all add: request_rel_def request_frame_def open_frame_def cloned_def)
  show ?thesis
  proof (cases "p = USIPY_SIP_TM_OK")
    case True
    then have c: "clone_outbound src v = Some (q, u)" using v(2) by simp
    then obtain cp h where cp: "usipy_msg_heap_checkpoint (x_scratch v) = Some (cp, h)"
      by (auto simp: clone_outbound_def bind_eq_Some_conv)
    have "mh_checkpoint_top (x_scratch v) = 0" using ok(2) t(2) by simp
    note F = first_checkpoint[OF ok(1) this cp]
    have "0 < m" "m \<le> USIPY_SIP_METHOD_max" "m \<noteq> USIPY_SIP_METHOD_INVITE" using m by auto
    then show ?thesis
      using c[symmetric] F vt ok(1) pol
      by (simp add: clone_outbound_def cp Let_def opened_uac_def slot_ok_def uac_inv_def cloned_def)
  next
    case False
    then show ?thesis using v(2) ok(1) by simp
  qed
qed

lemma clone_safe:
  assumes inv: "tm_inv tm" and p: "parent < max_transactions tm" "x_active (txn tm parent)" "x_role (txn tm parent) = USIPY_SIP_TM_ROLE_UAC"
    and o: "usipy_sip_tm_clone_uac_invite tm parent m = Some (r, idx, tm')"
  shows "client tm tm'" "idx = Some k \<Longrightarrow> r = USIPY_SIP_TM_OK \<and> opened_uac k (txn tm' k) \<and> x_method_type (txn tm' k) = m \<and> k < max_transactions tm'"
    "idx = None \<Longrightarrow> r \<noteq> USIPY_SIP_TM_OK"
proof -
  have m: "m = USIPY_SIP_METHOD_ACK \<or> m = USIPY_SIP_METHOD_CANCEL"
    using o by (simp add: usipy_sip_tm_clone_uac_invite_def)
  obtain f tm1 where al: "usipy_sip_tm_alloc_slot tm = (f, tm1)" by force
  have "client tm tm' \<and> (\<forall>k. idx = Some k \<longrightarrow> r = USIPY_SIP_TM_OK \<and> opened_uac k (txn tm' k) \<and> x_method_type (txn tm' k) = m \<and> k < max_transactions tm') \<and>
    (idx = None \<longrightarrow> r \<noteq> USIPY_SIP_TM_OK)"
  proof (cases f)
    case None
    then have "idx = None \<and> r \<noteq> USIPY_SIP_TM_OK \<and> tm' = tm1" using o al by (auto simp: usipy_sip_tm_clone_uac_invite_def)
    then show ?thesis using alloc_client[OF al] by auto
  next
    case (Some i)
    note N = alloc_blank[OF inv al[unfolded Some]]
    define src where "src = txn tm1 parent"
    let ?A = "\<lambda>_ :: 'a usipy_sip_tm. acts (clone_steps src m @ [act_set (clone_activate src parent m)])"
    let ?B = "\<lambda>_ :: 'a usipy_sip_tm. acts [usipy_sip_tm_copy_target_addr (\<lambda>a t. t\<lparr>x_peer := a\<rparr>) (x_peer src), clone_outbound src]"
    have o1: "or_fini i (\<lambda>_. USIPY_SIP_TM_ERR_NOSPC) (tm_acts [slot_act i ?A, count_active, slot_act i ?B] tm1) = Some (r, idx, tm')"
      using o m p(1) al Some by (simp add: usipy_sip_tm_clone_uac_invite_def Let_def src_def del: tm_acts.simps)
    have R: "step_in open_rel (acts (clone_steps src m))"
      by (intro prepare.clone_steps_in) (simp_all add: put_uri_defs open_rel_def open_frame_def)
    have I: "step_in (\<lambda>t t'. x_invite t' = x_invite t) (acts (clone_steps src m))"
      by (intro invite.clone_steps_in) (simp_all add: put_uri_defs)
    have A1: "slot_ok t" if "?A tm1 (txn tm1 i) = Some (q, t)" "q \<noteq> USIPY_SIP_TM_OK" for q t
      using acts_snoc[OF that(1)] that(2) blank_step[OF step_inD[OF R] N(1)] by (auto simp: act_set_def blank_def)
    have B: "q \<noteq> USIPY_SIP_TM_OK \<and> slot_ok u \<or> q = USIPY_SIP_TM_OK \<and> opened_uac i u \<and> x_method_type u = m"
      if ab: "?A tm1 (txn tm1 i) = Some (USIPY_SIP_TM_OK, t)" "?B tm2 t = Some (q, u)" for q t u tm2
    proof -
      obtain v where v: "acts (clone_steps src m) (txn tm1 i) = Some (USIPY_SIP_TM_OK, v)" "t = clone_activate src parent m v"
        using acts_snoc[OF ab(1)] by (auto simp: act_set_def)
      have bv: "blank v" by (rule blank_step[OF step_inD[OF R v(1)] N(1)])
      have fv: "x_invite v = None" "cc_request_uri (x_uac v) \<noteq> None" "x_method_type v = m"
        using step_inD[OF I v(1)] N(2) leavesD[OF clone_steps_uri v(1)] leavesD[OF clone_steps_method v(1)] by simp_all
      note need = clone_steps_need_uri[OF v(1)]
      then obtain c where c: "src = (txn tm parent)\<lparr>x_child_index := c\<rparr>"
        using alloc_keeps_or_resets[OF inv al[unfolded Some] p(1)] unfolding src_def by (elim disjE exE) auto
      have pol: "policy_set (x_timers src)"
        using tm_inv_slot[OF inv p(1)] p(2,3) unfolding c by (simp add: uac_inv_def)
      have "parent \<noteq> i"
        using N(1) p(2) arg_cong[OF c, of x_active] unfolding src_def by (auto simp: blank_def)
      then have t: "slot_ok t" "mh_checkpoint_top (x_scratch t) = 0" "x_parent_index t \<noteq> Some i" "x_child_index t = None"
        "cloned m t"
        using bv fv v(2) flags_kept[of "x_flags src" USIPY_SIP_TM_F_ABANDONED]
        by (auto simp: blank_def slot_ok_def clone_activate_def cloned_def)
      show ?thesis using clone_ends[OF t m pol ab(2)] .
    qed
    have "client tm tm' \<and> (\<forall>k. idx = Some k \<longrightarrow> r = USIPY_SIP_TM_OK \<and> opened_uac k (txn tm' k) \<and> x_method_type (txn tm' k) = m \<and> k < max_transactions tm') \<and>
      (idx = None \<longrightarrow> (\<exists>q. q \<noteq> USIPY_SIP_TM_OK \<and> r = USIPY_SIP_TM_ERR_NOSPC))"
      using open_client[OF inv al[unfolded Some] o1, where Q = "\<lambda>t. x_method_type t = m"] A1 B by blast
    then show ?thesis by auto
  qed
  then show "client tm tm'" "idx = Some k \<Longrightarrow> r = USIPY_SIP_TM_OK \<and> opened_uac k (txn tm' k) \<and> x_method_type (txn tm' k) = m \<and> k < max_transactions tm'"
    "idx = None \<Longrightarrow> r \<noteq> USIPY_SIP_TM_OK" by blast+
qed

end
