(* ===== verification/Usipy_Tmpumpfacts.thy ===== *)
theory Usipy_Tmpumpfacts
  imports Usipy_Tmuacfacts
begin

unbundle bit_operations_syntax

text \<open>
  The small changes of a client transaction, abandoning an INVITE, its ACK, and the responses keep the
  invariant of the manager, whatever the callbacks do that keeps it too (locale \<open>client_callbacks\<close>).
\<close>

subsection \<open>Small steps of a slot\<close>

text \<open>What the invariants of the two roles look at, but for the heap and the outbound data.\<close>

definition slot_view where
  "slot_view t = (x_active t, x_role t, x_scratch_buf t, x_scratch_capacity t, x_checkpoint t, x_timers t,
     x_method_type t, id_method_type (x_id t), cseq_method (x_cseq t), x_invite t = None,
     cc_request_uri (x_uac t) = None, x_flags t, x_callbacks t, x_state t, x_timer t, x_last_status_code t)"

lemma view_kept:
  assumes v: "slot_view t' = slot_view t" and h: "keeps (x_scratch t) (x_scratch t')"
    and p: "x_parent_index t' = x_parent_index t \<or> x_parent_index t' = None"
    and ob: "x_pub_outbound t = x_outbound t \<Longrightarrow> x_pub_outbound t' = x_outbound t'"
    and ids: "kept (id_branch (x_id t)) \<Longrightarrow> kept (id_branch (x_id t'))"
      "kept (id_from_tag (x_id t)) \<Longrightarrow> kept (id_from_tag (x_id t'))"
  shows "slot_kept t t'"
proof -
  have f: "x_active t' = x_active t" "x_role t' = x_role t" "x_scratch_buf t' = x_scratch_buf t"
    "x_scratch_capacity t' = x_scratch_capacity t" "x_checkpoint t' = x_checkpoint t" "x_timers t' = x_timers t"
    "x_method_type t' = x_method_type t" "id_method_type (x_id t') = id_method_type (x_id t)"
    "cseq_method (x_cseq t') = cseq_method (x_cseq t)" "(x_invite t' = None) = (x_invite t = None)"
    "(cc_request_uri (x_uac t') = None) = (cc_request_uri (x_uac t) = None)" "x_flags t' = x_flags t"
    "x_callbacks t' = x_callbacks t" "x_state t' = x_state t" "x_timer t' = x_timer t"
    "x_last_status_code t' = x_last_status_code t"
    using v unfolding slot_view_def by simp_all
  have s: "uas_states t' = uas_states t" unfolding uas_states_def f ..
  show ?thesis
    unfolding slot_kept_def slot_good_def
  proof (intro conjI impI)
    assume g: "slot_ok t \<and> (x_active t \<longrightarrow> x_role t = USIPY_SIP_TM_ROLE_UAS \<longrightarrow> uas_inv t) \<and>
      (x_active t \<longrightarrow> x_role t = USIPY_SIP_TM_ROLE_UAC \<longrightarrow> uac_inv t)"
    note k = keeps_slot[OF h _ f(3,4)]
    show "slot_ok t'" using k(1) g by blast
    show "uas_inv t'" if "x_active t'" "x_role t' = USIPY_SIP_TM_ROLE_UAS"
      using g that k(2) ob ids s unfolding uas_inv_def f by auto
    show "uac_inv t'" if "x_active t'" "x_role t' = USIPY_SIP_TM_ROLE_UAC"
      using g that k(2) unfolding uac_inv_def f by auto
  qed (use f p in auto)
qed

lemma release_kept:
  assumes "usipy_sip_tm_release_outbound t = Some t'"
  shows "slot_kept t t'"
proof -
  obtain h where h: "(if x_checkpoint t \<noteq> USIPY_MSG_HEAP_CHECKPOINT_NONE
      then usipy_msg_heap_rollback (x_scratch t) (x_checkpoint t) else Some (x_scratch t)) = Some h"
    "t' = sync_outbound (set_outbound slice_null USIPY_SIP_TM_TIME_NONE (clear_ids (t\<lparr>x_scratch := h\<rparr>)))"
    using assms by (auto simp: usipy_sip_tm_release_outbound_def bind_eq_Some_conv)
  have "keeps (x_scratch t) h" using h(1) rollback_keeps by (auto split: if_splits)
  then show ?thesis
    by (intro view_kept) (simp_all add: h(2) slot_view_def tm_steps set_outbound_def clear_ids_def)
qed

lemma clear_timeout_kept: "slot_kept t (usipy_sip_tm_tx_clear_invite_timeout t)"
  by (rule view_kept) (simp_all add: slot_view_def usipy_sip_tm_tx_clear_invite_timeout_def)

lemma invite_kept: "x_invite t \<noteq> None \<Longrightarrow> slot_kept t (t\<lparr>x_invite := Some iv\<rparr>)"
  by (rule view_kept) (simp_all add: slot_view_def)

lemma final_reported_kept: "slot_kept t (t\<lparr>x_final_reported := b\<rparr>)"
  by (rule view_kept) (simp_all add: slot_view_def)

lemma arm_now_kept: "slot_kept t (usipy_sip_tm_uac_arm_send_now now t)"
  unfolding usipy_sip_tm_uac_arm_send_now_def by (intro step_kept send_at_step)

lemma arm_cleanup_kept:
  assumes "usipy_sip_tm_uac_arm_cleanup now t = Some t'"
  shows "slot_kept t t'"
proof -
  have "t' = t \<or> (x_invite t \<noteq> None \<and> (\<exists>iv. t' = t\<lparr>x_invite := Some iv\<rparr>))"
    using assms unfolding usipy_sip_tm_uac_arm_cleanup_def Let_def
    by (auto simp: bind_eq_Some_conv split: if_split_asm usipy_sip_tm_state.split_asm)
  then show ?thesis using invite_kept by (elim disjE conjE exE) simp_all
qed

text \<open>A transaction that ends: nothing is due any more.\<close>

lemma terminated_kept: "slot_kept t (usipy_sip_tm_tx_clear_timer (usipy_sip_tm_tx_mark_terminated t))"
proof -
  have f: "\<not> has_flag USIPY_SIP_TM_F_TERMINATED USIPY_SIP_TM_F_ABANDONED" "has_flag USIPY_SIP_TM_F_TERMINATED USIPY_SIP_TM_F_TERMINATED"
    by (simp_all add: has_flag_def)
  show ?thesis
    using f
    by (simp add: slot_kept_def slot_good_def usipy_sip_tm_tx_clear_timer_def usipy_sip_tm_tx_mark_terminated_def tm_steps
        slot_ok_def uas_inv_def uac_inv_def uas_states_def flag_raised)
qed

lemma client_terminated_kept:
  assumes "\<not> (x_active t \<and> x_role t = USIPY_SIP_TM_ROLE_UAS)"
  shows "slot_kept t (usipy_sip_tm_tx_mark_terminated t)"
proof -
  have f: "\<not> has_flag USIPY_SIP_TM_F_TERMINATED USIPY_SIP_TM_F_ABANDONED" "has_flag USIPY_SIP_TM_F_TERMINATED USIPY_SIP_TM_F_TERMINATED"
    by (simp_all add: has_flag_def)
  show ?thesis
    using f assms
    by (auto simp add: slot_kept_def slot_good_def usipy_sip_tm_tx_mark_terminated_def tm_steps slot_ok_def uac_inv_def flag_raised)
qed

lemma finish_abandoned_kept:
  assumes "\<not> (x_active t \<and> x_role t = USIPY_SIP_TM_ROLE_UAS)" "usipy_sip_tm_uac_finish_abandoned t = Some t'"
  shows "slot_kept t t'"
proof -
  have "slot_kept t (usipy_sip_tm_tx_clear_invite_timeout (usipy_sip_tm_tx_mark_terminated t))"
    using client_terminated_kept[OF assms(1)] clear_timeout_kept by (rule slot_kept_trans)
  also have "slot_kept \<dots> t'" using assms(2) by (intro release_kept) (simp add: usipy_sip_tm_uac_finish_abandoned_def)
  finally show ?thesis .
qed

subsection \<open>Abandoning an INVITE\<close>

lemma upd_step_client:
  assumes "upd_step i f tm = Some tm'" "\<And>t'. tm_inv tm \<Longrightarrow> i < max_transactions tm \<Longrightarrow> f (txn tm i) = Some t' \<Longrightarrow> slot_kept (txn tm i) t'"
  shows "client tm tm'"
proof -
  obtain t' where t': "f (txn tm i) = Some t'" "tm' = upd i (\<lambda>_. t') tm" using assms(1) by (auto simp: upd_step_def)
  show ?thesis unfolding t'(2) using assms(2) t'(1) by (intro client_upd)
qed

lemma upd_invite_client:
  assumes "upd_invite i f tm = Some tm'"
  shows "client tm tm'"
proof -
  obtain iv where iv: "x_invite (txn tm i) = Some iv" "tm' = upd i (\<lambda>t. t\<lparr>x_invite := Some (f iv)\<rparr>) tm"
    using assms by (auto simp: upd_invite_def bind_eq_Some_conv)
  show ?thesis unfolding iv(2) using iv(1) by (intro client_upd invite_kept) simp
qed

lemma terminate_child_client:
  "usipy_sip_tm_tx_terminate_child fuel p tm = Some tm' \<Longrightarrow> client tm tm'"
proof (induction fuel arbitrary: p tm tm')
  case (Suc fuel)
  show ?case
  proof (cases "x_child_index (txn tm p)")
    case None
    then show ?thesis using Suc.prems by simp
  next
    case (Some c)
    have cl: "client tm1 (upd p (\<lambda>t. t\<lparr>x_child_index := None\<rparr>) tm1)" for tm1 :: "'a usipy_sip_tm"
      by (intro client_step child_step)
    show ?thesis
    proof (cases "x_active (txn tm c)")
      case True
      then obtain tm1 t where t: "usipy_sip_tm_tx_terminate_child fuel c tm = Some tm1"
        "usipy_sip_tm_release_outbound ((usipy_sip_tm_tx_clear_invite_timeout (usipy_sip_tm_tx_clear_timer
                (usipy_sip_tm_tx_mark_terminated (txn tm1 c))))\<lparr>x_parent_index := None, x_child_index := None\<rparr>) = Some t"
        "tm' = upd p (\<lambda>t. t\<lparr>x_child_index := None\<rparr>) (upd c (\<lambda>_. t) tm1)"
        using Suc.prems Some by (auto simp: bind_eq_Some_conv Let_def)
      have l: "slot_kept u (u\<lparr>x_parent_index := None, x_child_index := None\<rparr>)" for u
        by (rule view_kept) (simp_all add: slot_view_def)
      have "slot_kept (txn tm1 c) t"
        by (rule slot_kept_trans[OF slot_kept_trans[OF slot_kept_trans[OF terminated_kept clear_timeout_kept] l] release_kept[OF t(2)]])
      then have "client tm1 (upd c (\<lambda>_. t) tm1)" by (intro client_upd)
      then show ?thesis unfolding t(3) using Suc.IH[OF t(1)] cl client_trans by blast
    next
      case False
      then have "tm' = upd p (\<lambda>t. t\<lparr>x_child_index := None\<rparr>) tm" using Suc.prems Some by simp
      then show ?thesis using cl by simp
    qed
  qed
qed simp

lemma opened_kept: "opened_uac i t \<Longrightarrow> slot_kept t u \<Longrightarrow> x_child_index u = x_child_index t \<Longrightarrow> opened_uac i u"
  by (auto simp: opened_uac_def slot_kept_def slot_good_def)

lemma callbacks_zero_kept: "slot_kept t (t\<lparr>x_callbacks := uac_callbacks_zero\<rparr>)"
  by (auto simp: slot_kept_def slot_good_def slot_ok_def uas_inv_def uas_states_def Let_def uac_inv_def
      split: usipy_sip_tm_state.split_asm usipy_sip_tm_state.split)

text \<open>A request written into a client transaction.\<close>

lemma run_request_client:
  assumes "run_act i a tm = Some (r, tm')" "step_in request_rel a" "\<not> server_at tm i" "x_active (txn tm i)"
  shows "client tm tm'"
proof -
  obtain t' where t': "a (txn tm i) = Some (r, t')" "tm' = upd i (\<lambda>_. t') tm" using assms(1) by (auto simp: run_act_def)
  have "x_role (txn tm i) = USIPY_SIP_TM_ROLE_UAC"
    using assms(3,4) by (cases "x_role (txn tm i)") (simp_all add: server_at_def)
  then show ?thesis
    unfolding t'(2) using step_inD[OF assms(2) t'(1)] by (intro client_upd written_kept)
qed

text \<open>A transaction that is reset and counted off.\<close>

lemma give_back_client:
  assumes "i < max_transactions tm" "x_active (txn tm i)"
  shows "client tm ((upd i usipy_sip_tm_tx_fini tm)\<lparr>tm_nactive := tm_nactive tm - 1\<rparr>)"
proof -
  let ?tm' = "(upd i usipy_sip_tm_tx_fini tm)\<lparr>tm_nactive := tm_nactive tm - 1\<rparr>"
  have "tm_inv ?tm'" if "tm_inv tm"
    unfolding tm_inv_nactive using fini_ok tm_inv_slot[OF that assms(1)] by (intro tm_inv_upd[OF that]) simp_all
  moreover have "counted c ?tm'" if "counted c tm" for c
    using that assms by (intro counted_off) simp_all
  moreover have "server_at tm j" if "server_at ?tm' j" "j < max_transactions tm" for j
    using that assms(1) by (auto simp: server_at_def split: if_splits)
  ultimately show ?thesis by (auto simp: client_def safe_def)
qed

lemma start_cancel_client:
  assumes pol: "policy_ok ev" and p: "x_active (txn tm p)" "x_role (txn tm p) = USIPY_SIP_TM_ROLE_UAC"
    and o: "usipy_sip_tm_uac_start_cancel ev tm p = Some (r, tm')"
  shows "client tm tm'"
proof (cases "tm_inv tm")
  case inv: True
  have lt: "p < max_transactions tm" using o by (simp add: usipy_sip_tm_uac_start_cancel_def)
  obtain iv where iv: "x_invite (txn tm p) = Some iv" using o by (auto simp: usipy_sip_tm_uac_start_cancel_def bind_eq_Some_conv)
  let ?mk = "\<lambda>inv :: usipy_sip_tm_uac_invite. inv\<lparr>inv_cancel_state := USIPY_SIP_TM_INVITE_CANCEL_ONWIRE\<rparr>"
  consider (same) "tm' = tm" | (late) f where "upd_invite p f tm = Some tm'"
    | (clone) q idx tm1 where "usipy_sip_tm_clone_uac_invite tm p USIPY_SIP_METHOD_CANCEL = Some (q, idx, tm1)"
        "(case idx of
         None \<Rightarrow> Some (USIPY_SIP_TM_ERR_NOSPC, tm1)
       | Some ci \<Rightarrow> do {
           let tm = upd ci (\<lambda>t. t\<lparr>x_callbacks := uac_callbacks_zero\<rparr>) tm1;
           (r, tm) \<leftarrow> run_act ci (usipy_sip_tm_build_request ev tm ci None []) tm;
           if r \<noteq> USIPY_SIP_TM_OK
           then Some (USIPY_SIP_TM_ERR_NOSPC,
             (upd ci usipy_sip_tm_tx_fini tm)\<lparr>tm_nactive := tm_nactive tm - 1\<rparr>)
           else do {
             tm \<leftarrow> upd_invite p ?mk tm;
             let tm = upd p usipy_sip_tm_tx_clear_invite_timeout tm;
             Some (USIPY_SIP_TM_OK, upd ci (usipy_sip_tm_uac_arm_send_now 0) tm)
           }
         }) = Some (r, tm')"
    using o lt iv unfolding usipy_sip_tm_uac_start_cancel_def
    by (auto simp: bind_eq_Some_conv split: if_split_asm)
  then show ?thesis
  proof cases
    case late
    then show ?thesis by (rule upd_invite_client)
  next
    case clone
    note C = clone_safe[OF inv lt p clone(1)]
    show ?thesis
    proof (cases idx)
      case None
      then show ?thesis using C(1) clone(2) by simp
    next
      case (Some ci)
      note O = C(2)[OF Some]
      let ?tm2 = "upd ci (\<lambda>t. t\<lparr>x_callbacks := uac_callbacks_zero\<rparr>) tm1"
      have c2: "client tm1 ?tm2" by (intro client_upd callbacks_zero_kept)
      obtain q3 tm3 where r3: "run_act ci (usipy_sip_tm_build_request ev ?tm2 ci None []) ?tm2 = Some (q3, tm3)"
        using clone(2) Some by (auto simp: Let_def bind_eq_Some_conv)
      have ci: "ci < max_transactions tm1" using O by simp
      have act2: "opened_uac ci (txn ?tm2 ci)"
        using O ci by (auto intro: opened_kept[OF _ callbacks_zero_kept])
      have c3: "client ?tm2 tm3"
        using r3 build_request_rel[OF pol] act2
        by (intro run_request_client) (auto simp: server_at_def opened_uac_def)
      have c: "client tm tm3" using C(1) c2 c3 client_trans by blast
      have act3: "x_active (txn tm3 ci)" "ci < max_transactions tm3"
        using r3 step_inD[OF build_request_rel[OF pol]] act2 ci
        by (auto simp: run_act_def opened_uac_def request_rel_def request_frame_def open_frame_def)
      show ?thesis
      proof (cases "q3 = USIPY_SIP_TM_OK")
        case True
        then obtain tm4 where u: "upd_invite p ?mk tm3 = Some tm4"
          "tm' = upd ci (usipy_sip_tm_uac_arm_send_now 0) (upd p usipy_sip_tm_tx_clear_invite_timeout tm4)"
          using clone(2) Some r3 by (auto simp: Let_def bind_eq_Some_conv)
        have "client tm4 (upd p usipy_sip_tm_tx_clear_invite_timeout tm4)" by (intro client_upd clear_timeout_kept)
        moreover have "client (upd p usipy_sip_tm_tx_clear_invite_timeout tm4) tm'"
          unfolding u(2) by (intro client_upd arm_now_kept)
        ultimately show ?thesis using c upd_invite_client[OF u(1)] client_trans by blast
      next
        case False
        then have tm': "tm' = (upd ci usipy_sip_tm_tx_fini tm3)\<lparr>tm_nactive := tm_nactive tm3 - 1\<rparr>"
          using clone(2) Some r3 by (simp add: Let_def)
        have "client tm3 tm'" unfolding tm' using act3 by (intro give_back_client)
        then show ?thesis using c client_trans by blast
      qed
    qed
  qed simp
qed (simp add: client_def safe_def)

text \<open>The INVITE is marked: it calls nobody back any more.\<close>

lemma mark_abandoned_kept:
  assumes "x_invite t \<noteq> None" "x_role t = USIPY_SIP_TM_ROLE_UAC"
  shows "slot_kept t (usipy_sip_tm_tx_clear_invite_timeout
       (raise_flag USIPY_SIP_TM_F_ABANDONED (t\<lparr>x_callbacks := uac_callbacks_zero\<rparr>)))"
proof -
  let ?u = "raise_flag USIPY_SIP_TM_F_ABANDONED (t\<lparr>x_callbacks := uac_callbacks_zero\<rparr>)"
  have "slot_kept t ?u"
    using assms by (intro client_kept) (simp_all add: tm_steps slot_ok_def uac_inv_def flag_raised)
  then show ?thesis using clear_timeout_kept by (rule slot_kept_trans)
qed

lemma abandon_client:
  assumes pol: "policy_ok ev" and p: "x_active (txn tm i)" "x_role (txn tm i) = USIPY_SIP_TM_ROLE_UAC"
    "x_invite (txn tm i) \<noteq> None" "i < max_transactions tm"
    and o: "usipy_sip_tm_uac_abandon ev tm i = Some tm'"
  shows "client tm tm'"
proof -
  let ?tm1 = "upd i (\<lambda>t. usipy_sip_tm_tx_clear_invite_timeout
       (raise_flag USIPY_SIP_TM_F_ABANDONED (t\<lparr>x_callbacks := uac_callbacks_zero\<rparr>))) tm"
  have c1: "client tm ?tm1" using p by (intro client_upd mark_abandoned_kept)
  have p1: "x_active (txn ?tm1 i)" "x_role (txn ?tm1 i) = USIPY_SIP_TM_ROLE_UAC"
    using p by (simp_all add: usipy_sip_tm_tx_clear_invite_timeout_def tm_steps)
  have fin: "client tm2 tm3" if "client ?tm1 tm2" "tm_inv ?tm1" "upd_step i usipy_sip_tm_uac_finish_abandoned tm2 = Some tm3" for tm2 tm3
  proof (rule upd_step_client[OF that(3)])
    have "\<not> server_at tm2 i"
      using that(1,2) p(4) p1 by (auto simp: client_def server_at_def)
    then show "slot_kept (txn tm2 i) t'" if "usipy_sip_tm_uac_finish_abandoned (txn tm2 i) = Some t'" for t'
      using that by (intro finish_abandoned_kept) (simp_all add: server_at_def)
  qed
  have "client ?tm1 tm'"
  proof (cases "tm_inv ?tm1")
    case inv: True
    consider (at_once) "upd_step i usipy_sip_tm_uac_finish_abandoned ?tm1 = Some tm'"
      | (cancel) q tm2 where "usipy_sip_tm_uac_start_cancel ev ?tm1 i = Some (q, tm2)"
          "tm' = tm2 \<or> upd_step i usipy_sip_tm_uac_finish_abandoned tm2 = Some tm'"
      using o unfolding usipy_sip_tm_uac_abandon_def Let_def
      by (auto simp: bind_eq_Some_conv split: if_split_asm)
    then show ?thesis
    proof cases
      case at_once
      then show ?thesis using fin[OF client_refl inv] by blast
    next
      case cancel
      have c: "client ?tm1 tm2" by (rule start_cancel_client[OF pol p1 cancel(1)])
      then show ?thesis using cancel(2) fin[OF c inv] client_trans by blast
    qed
  qed (simp add: client_def safe_def)
  then show ?thesis using c1 client_trans by blast
qed

subsection \<open>The ACK\<close>

lemma dialog_target_in [heap_in_intros]: "heap_in (dialog_target base s ru rs)"
  unfolding dialog_target_def by (intro heap_in_intros)

lemma resolve_target_in: "heap_in (\<lambda>h. usipy_sip_tm_dialog_resolve_target h base rt rs rv)"
  unfolding usipy_sip_tm_dialog_resolve_target_def Let_def by (intro heap_in_intros)

lemma str_dup_in [heap_in_intros]: "heap_in (\<lambda>h. usipy_sip_tm_dialog_heap_str_dup h s)"
  unfolding usipy_sip_tm_dialog_heap_str_dup_def by (intro heap_in_intros)

lemma dialog_copy_addr_in [heap_in_intros]: "heap_in (\<lambda>h. usipy_sip_tm_dialog_copy_addr h a)"
  unfolding usipy_sip_tm_dialog_copy_addr_def by (intro heap_in_intros)

lemma dlg_acts_in: "(\<And>a d. a \<in> set as \<Longrightarrow> heap_in (a d)) \<Longrightarrow> heap_in (dlg_acts as d)"
proof (induction as arbitrary: d)
  case Nil
  have "dlg_acts [] d = (\<lambda>h. Some (Inr d, h))" by (intro ext) simp
  then show ?case by (simp only: heap_in_ret)
next
  case (Cons a as)
  have "dlg_acts (a # as) d = (\<lambda>h. then_do (a d h) (dlg_acts as))" by (intro ext) simp
  moreover have "heap_in \<dots>" using Cons by (intro then_do_in) simp_all
  ultimately show ?case by (simp only:)
qed

lemma dialog_fill_in: "heap_in (dialog_fill anchor contact frm hto lt rt m tgt)"
proof -
  obtain ru nt rs where t: "tgt = (ru, nt, rs)" by (metis prod_cases3)
  have dup: "heap_in (dlg_dup s put d)" "heap_in (dlg_append s put d)" "heap_in (dlg_local a d)" for s put d a
    unfolding dlg_dup_def dlg_append_def dlg_local_def by (intro heap_in_intros)+
  have "heap_in ((case frm of None \<Rightarrow> (\<lambda>_ _. None) | Some u \<Rightarrow> dlg_dup u (\<lambda>s d. d\<lparr>dr_from_uri := s\<rparr>)) d)" for d
    using dup(1) by (cases frm) (simp_all add: heap_in_def)
  then show ?thesis
    unfolding dialog_fill_def t prod.case by (intro dlg_acts_in) (auto intro: dup heap_in_ret)
qed

lemma uac_dialog_keeps:
  assumes "usipy_sip_tm_init_uac_dialog_request_params stk tm i msg m h = Some (r, h', msg')"
  shows "keeps h h'"
proof -
  consider (same) "h' = h" | (go) anchor contact frm hto lt tag rt rs q where
      "then_do (usipy_sip_tm_dialog_resolve_target h (x_peer anchor) rt rs True)
         (dialog_fill anchor contact frm hto lt tag m) = Some (q, h')"
    using assms unfolding usipy_sip_tm_init_uac_dialog_request_params_def Let_def
    by (auto simp: bind_eq_Some_conv split: if_split_asm usipy_sip_msg_kind.split_asm usipy_sip_sline_parsed.split_asm
        option.split_asm prod.split_asm)
  then show ?thesis
  proof cases
    case go
    have "heap_in (\<lambda>h. then_do (usipy_sip_tm_dialog_resolve_target h (x_peer anchor) rt rs True)
        (dialog_fill anchor contact frm hto lt tag m))" for anchor contact frm hto lt tag rt rs
      by (intro then_do_in resolve_target_in dialog_fill_in)
    then show ?thesis using go unfolding heap_in_def by blast
  qed simp
qed

text \<open>What filling in an ACK changes.\<close>

definition ack_frame where
  "ack_frame t = (open_frame t, x_role t, x_state t, x_flags t, x_checkpoint t, x_timers t, x_method_type t,
     x_cseq t, x_invite t, x_callbacks t, x_id t)"

definition ack_rel :: "usipy_sip_tm_txi \<Rightarrow> usipy_sip_tm_txi \<Rightarrow> bool" where
  "ack_rel t t' \<longleftrightarrow> keeps (x_scratch t) (x_scratch t') \<and> ack_frame t' = ack_frame t"

interpretation acking: slot_contract ack_rel
  by unfold_locales (auto simp: ack_rel_def ack_frame_def open_frame_def intro: keeps_trans)

lemma apply_ack_rel:
  assumes "usipy_sip_tm_apply_uac_2xx_ack_dialog stk tm i msg t = Some (r, msg', t')"
  shows "ack_rel t t'"
proof -
  obtain q h msg1 where d: "usipy_sip_tm_init_uac_dialog_request_params stk tm i msg USIPY_SIP_METHOD_ACK (x_scratch t) =
      Some (q, h, msg1)"
    using assms by (auto simp: usipy_sip_tm_apply_uac_2xx_ack_dialog_def bind_eq_Some_conv)
  note k = uac_dialog_keeps[OF d]
  show ?thesis
  proof (cases q)
    case (Inl e)
    then show ?thesis using assms d k
      by (simp add: usipy_sip_tm_apply_uac_2xx_ack_dialog_def ack_rel_def ack_frame_def open_frame_def Let_def) auto
  next
    case (Inr dr)
    then obtain u h2 where u: "parse_uri_at h (dr_request_uri dr) = Some (u, h2)"
      using assms d by (auto simp: usipy_sip_tm_apply_uac_2xx_ack_dialog_def bind_eq_Some_conv)
    then have k2: "keeps (x_scratch t) h2" using k parse_uri_keeps keeps_trans by blast
    then show ?thesis using assms d Inr u
      by (auto simp: usipy_sip_tm_apply_uac_2xx_ack_dialog_def ack_rel_def ack_frame_def open_frame_def Let_def
          sync_outbound_def split: if_split_asm)
  qed
qed

lemma ack_fill_rel:
  assumes "uac_ack_fill ev tm i msg sc t = Some (r, msg', t')"
  shows "ack_rel t t'"
proof (cases "sc = 2")
  case True
  then show ?thesis using assms apply_ack_rel by (simp add: uac_ack_fill_def)
next
  case False
  have a: "step_in ack_rel (acts
              [(if b then act_keep s (\<lambda>s t. t\<lparr>x_branch := Kept s\<rparr>) else act_set id),
               act_keep tag (\<lambda>s t. t\<lparr>x_to_tag := s\<rparr>)])" for b s tag
    by (intro acking.acts_Cons acking.acts_Nil acking.if_in acking.keep_in acking.skip_in)
      (simp_all add: ack_rel_def ack_frame_def open_frame_def)
  obtain tag msg1 where x: "usipy_sip_tm_extract_response_to_tag (ev_stk ev) msg = Some (tag, msg1)"
    using assms False by (auto simp: uac_ack_fill_def bind_eq_Some_conv)
  show ?thesis
  proof (cases tag)
    case None
    then show ?thesis using assms False x acking.same by (simp add: uac_ack_fill_def)
  next
    case (Some s)
    then obtain q where "acts [(if ref_len (x_branch t) = 0 \<and> ref_len (x_branch (txn tm i)) \<noteq> 0
          then act_keep (ref_text (x_scratch (txn tm i)) (x_branch (txn tm i))) (\<lambda>s t. t\<lparr>x_branch := Kept s\<rparr>) else act_set id),
        act_keep s (\<lambda>s t. t\<lparr>x_to_tag := s\<rparr>)] t = Some (q, t')"
      using assms False x by (auto simp: uac_ack_fill_def bind_eq_Some_conv Let_def simp del: acts.simps)
    then show ?thesis by (rule step_inD[OF a])
  qed
qed

lemma ack_kept:
  assumes "ack_rel t t'" "x_role t = USIPY_SIP_TM_ROLE_UAC" "x_method_type t = USIPY_SIP_METHOD_ACK"
  shows "slot_kept t t'"
proof (rule client_kept)
  have f: "x_scratch_buf t' = x_scratch_buf t" "x_scratch_capacity t' = x_scratch_capacity t"
    "keeps (x_scratch t) (x_scratch t')"
    using assms(1) by (simp_all add: ack_rel_def ack_frame_def open_frame_def)
  note k = keeps_slot[OF f(3) _ f(1,2)]
  show "slot_ok t \<Longrightarrow> slot_ok t'" by (rule k(1))
  show "uac_inv t'" if "slot_ok t" "uac_inv t"
    using assms that(2) k(2)[OF that(1)] by (simp add: ack_rel_def ack_frame_def uac_inv_def)
qed (use assms in \<open>simp_all add: ack_rel_def ack_frame_def open_frame_def\<close>)

text \<open>The second mark of an ACK.\<close>

lemma mark_kept:
  assumes "x_role t = USIPY_SIP_TM_ROLE_UAC" "usipy_msg_heap_checkpoint (x_scratch t) = Some (cp, h)"
  shows "slot_kept t (t\<lparr>x_scratch := h, x_checkpoint := cp\<rparr>)"
proof (rule client_kept)
  show "slot_ok (t\<lparr>x_scratch := h, x_checkpoint := cp\<rparr>)" if "slot_ok t"
    using that checkpoint_Some(1)[OF _ assms(2)] assms(2)
    by (auto simp: slot_ok_def usipy_msg_heap_checkpoint_def Let_def)
  show "uac_inv (t\<lparr>x_scratch := h, x_checkpoint := cp\<rparr>)" if "slot_ok t" "uac_inv t"
    using that assms(2) by (auto simp: slot_ok_def uac_inv_def usipy_msg_heap_checkpoint_def Let_def)
qed (use assms(1) in simp_all)

definition ack_at :: "'a usipy_sip_tm \<Rightarrow> nat \<Rightarrow> bool" where
  "ack_at tm i \<longleftrightarrow> x_active (txn tm i) \<and> x_role (txn tm i) = USIPY_SIP_TM_ROLE_UAC \<and>
     x_method_type (txn tm i) = USIPY_SIP_METHOD_ACK"

lemma ack_build_client:
  assumes pol: "policy_ok ev" and a: "ack_at tm ai" "ai < max_transactions tm"
    and o: "uac_ack_build ev tm i ai msg sc = Some (r, msg', tm')"
  shows "client tm tm'"
proof (cases "snd (ob_raw (x_outbound (txn tm ai))) \<noteq> 0")
  case True
  then show ?thesis using o by (simp add: uac_ack_build_def)
next
  case False
  then obtain q msg1 t1 where f: "uac_ack_fill ev tm i msg sc (txn tm ai) = Some (q, msg1, t1)"
    using o by (auto simp: uac_ack_build_def bind_eq_Some_conv)
  let ?tm1 = "upd ai (\<lambda>_. t1) tm"
  note R = ack_fill_rel[OF f]
  have c1: "client tm ?tm1" using a by (intro client_upd ack_kept[OF R]) (simp_all add: ack_at_def)
  have t1: "x_role t1 = USIPY_SIP_TM_ROLE_UAC" "x_active t1" using R a(1) by (simp_all add: ack_rel_def ack_frame_def open_frame_def ack_at_def)
  show ?thesis
  proof (cases "q = USIPY_SIP_TM_OK")
    case True
    then obtain cp h where cp: "usipy_msg_heap_checkpoint (x_scratch t1) = Some (cp, h)"
      using o False f by (auto simp: uac_ack_build_def bind_eq_Some_conv Let_def)
    let ?tm2 = "upd ai (\<lambda>t. t\<lparr>x_scratch := h, x_checkpoint := cp\<rparr>) ?tm1"
    have c2: "client ?tm1 ?tm2" using a(2) cp t1 by (intro client_upd mark_kept) simp_all
    obtain p where "run_act ai (usipy_sip_tm_build_request ev ?tm2 ai None []) ?tm2 = Some (p, tm')"
      using o False f cp True by (auto simp: uac_ack_build_def bind_eq_Some_conv Let_def)
    then have "client ?tm2 tm'"
      using a(2) t1 by (intro run_request_client[OF _ build_request_rel[OF pol]]) (auto simp: server_at_def)
    then show ?thesis using c1 c2 client_trans by blast
  next
    case False2: False
    then show ?thesis using o False f c1 by (simp add: uac_ack_build_def Let_def)
  qed
qed

text \<open>The BYE that waits behind the ACK.\<close>

lemma behind_client:
  assumes "opened_uac bi (txn tm bi)" "bi < max_transactions tm" "bi \<noteq> i"
  shows "client tm (upd bi (\<lambda>t. t\<lparr>x_outbound := ob, x_pub_outbound := ob', x_parent_index := Some i\<rparr>) tm)"
    (is "client tm ?tm'")
proof -
  let ?t = "(txn tm bi)\<lparr>x_outbound := ob, x_pub_outbound := ob', x_parent_index := Some i\<rparr>"
  have "slot_ok ?t" "uac_inv ?t" "x_role ?t = USIPY_SIP_TM_ROLE_UAC" "x_active ?t"
    using assms(1) by (simp_all add: opened_uac_def slot_ok_def uac_inv_def)
  then have "tm_inv ?tm'" if "tm_inv tm" using that assms(3) by (intro tm_inv_upd) simp_all
  moreover have "counted c ?tm'" if "counted c tm" for c using that assms(2) by (intro counted_same) simp_all
  moreover have "server_at tm j" if "server_at ?tm' j" for j
    using that assms(2) by (auto simp: server_at_def split: if_splits)
  ultimately show ?thesis by (auto simp: client_def safe_def)
qed

lemma abandoned_uac_client:
  assumes pol: "policy_ok ev" and o: "usipy_sip_tm_abandoned_uac ev tm i msg sc = Some (r, msg', tm')"
  shows "client tm tm'"
proof (cases "tm_inv tm")
  case inv: True
  show ?thesis
  proof (cases "tm' = tm")
    case changed: False
    then obtain params q bye tm1 where n: "usipy_sip_tm_new_in_dialog_transaction ev tm params = Some (q, bye, tm1)"
      and k: "(case bye of None \<Rightarrow> tm' = tm1 | Some bi \<Rightarrow>
         (let tm2 = upd bi (\<lambda>t. t\<lparr>x_outbound := (x_outbound t)\<lparr>ob_next_send_at_ms := USIPY_SIP_TM_TIME_NONE\<rparr>,
                    x_pub_outbound := (x_pub_outbound t)\<lparr>ob_next_send_at_ms := USIPY_SIP_TM_TIME_NONE\<rparr>,
                    x_parent_index := Some i\<rparr>) tm1 in
          \<exists>ci f. x_child_index (txn tm2 i) = Some ci \<and>
            upd_invite i f (upd ci (\<lambda>t. t\<lparr>x_child_index := Some bi\<rparr>) tm2) = Some tm'))"
    proof -
      have sc: "sc = 2" using o changed by (auto simp: usipy_sip_tm_abandoned_uac_def split: if_split_asm)
      obtain iv where iv: "x_invite (txn tm i) = Some iv" "\<not> inv_bye_started iv"
        using o changed sc by (auto simp: usipy_sip_tm_abandoned_uac_def bind_eq_Some_conv split: if_split_asm)
      obtain dialog h msg1 where d: "usipy_sip_tm_init_uac_dialog_request_params (ev_stk ev) tm i msg
            USIPY_SIP_METHOD_BYE abandoned_heap = Some (dialog, h, msg1)"
        using o sc iv by (auto simp: usipy_sip_tm_abandoned_uac_def bind_eq_Some_conv)
      obtain dr where dr: "dialog = Inr dr" using o changed sc iv d by (cases dialog) (auto simp: usipy_sip_tm_abandoned_uac_def)
      let ?params = "usipy_sip_tm_dialog_request_get_params (dr\<lparr>dr_cseq := dr_cseq dr + 1\<rparr>)"
      obtain q bye tm1 where n: "usipy_sip_tm_new_in_dialog_transaction ev tm ?params = Some (q, bye, tm1)"
        using o sc iv d dr by (auto simp: usipy_sip_tm_abandoned_uac_def bind_eq_Some_conv Let_def)
      show thesis
      proof (cases bye)
        case None
        then show thesis using o sc iv d dr n by (intro that[OF n]) (simp add: usipy_sip_tm_abandoned_uac_def Let_def)
      next
        case (Some bi)
        let ?tm2 = "upd bi (\<lambda>t. t\<lparr>x_outbound := (x_outbound t)\<lparr>ob_next_send_at_ms := USIPY_SIP_TM_TIME_NONE\<rparr>,
                    x_pub_outbound := (x_pub_outbound t)\<lparr>ob_next_send_at_ms := USIPY_SIP_TM_TIME_NONE\<rparr>,
                    x_parent_index := Some i\<rparr>) tm1"
        have e: "Option.bind (x_child_index (txn ?tm2 i)) (\<lambda>ci. Option.bind (dassert (ci < max_transactions ?tm2)) (\<lambda>_.
            Option.bind (upd_invite i (\<lambda>inv. inv\<lparr>inv_bye_started := True\<rparr>)
                (upd ci (\<lambda>t. t\<lparr>x_child_index := Some bi\<rparr>) ?tm2)) (\<lambda>tm. Some (USIPY_SIP_TM_OK, msg1, tm)))) = Some (r, msg', tm')"
          using o sc iv d dr n Some by (simp add: usipy_sip_tm_abandoned_uac_def Let_def)
        then obtain ci where c: "x_child_index (txn ?tm2 i) = Some ci"
            "upd_invite i (\<lambda>inv. inv\<lparr>inv_bye_started := True\<rparr>) (upd ci (\<lambda>t. t\<lparr>x_child_index := Some bi\<rparr>) ?tm2) = Some tm'"
          unfolding bind_eq_Some_conv by blast
        show thesis by (rule that[OF n]) (use c Some in \<open>auto simp: Let_def simp del: txn_upd\<close>)
      qed
    qed
    note N = new_in_dialog_safe[OF inv pol n]
    show ?thesis
    proof (cases bye)
      case None
      then show ?thesis using N(1) k by simp
    next
      case (Some bi)
      note O = N(2)[OF Some]
      let ?f = "\<lambda>t. t\<lparr>x_outbound := (x_outbound t)\<lparr>ob_next_send_at_ms := USIPY_SIP_TM_TIME_NONE\<rparr>,
                    x_pub_outbound := (x_pub_outbound t)\<lparr>ob_next_send_at_ms := USIPY_SIP_TM_TIME_NONE\<rparr>,
                    x_parent_index := Some i\<rparr>"
      let ?tm2 = "upd bi ?f tm1"
      obtain ci g where c: "x_child_index (txn ?tm2 i) = Some ci"
        "upd_invite i g (upd ci (\<lambda>t. t\<lparr>x_child_index := Some bi\<rparr>) ?tm2) = Some tm'"
        using k Some unfolding Let_def by auto
      have "bi \<noteq> i" using c(1) O by (auto simp: opened_uac_def split: if_splits)
      then have c2: "client tm1 ?tm2"
        using behind_client[of bi tm1 i "(x_pub_outbound (txn tm1 bi))\<lparr>ob_next_send_at_ms := USIPY_SIP_TM_TIME_NONE\<rparr>"
          "(x_outbound (txn tm1 bi))\<lparr>ob_next_send_at_ms := USIPY_SIP_TM_TIME_NONE\<rparr>"] O by (simp add: upd_def)
      have c3: "client ?tm2 (upd ci (\<lambda>t. t\<lparr>x_child_index := Some bi\<rparr>) ?tm2)" by (intro client_step child_step)
      show ?thesis using N(1) c2 c3 upd_invite_client[OF c(2)] client_trans by blast
    qed
  qed simp
qed (simp add: client_def safe_def)

subsection \<open>Responses\<close>

text \<open>A change that only a client transaction takes: state, timer, outbound data and status.\<close>

definition run_view where
  "run_view t = (x_active t, x_role t, x_parent_index t, x_scratch t, x_scratch_buf t, x_scratch_capacity t, x_checkpoint t,
     x_timers t, x_method_type t, id_method_type (x_id t), x_cseq t, x_invite t = None, x_uac t, x_flags t, x_callbacks t)"

lemma run_view_kept:
  assumes "run_view t' = run_view t" "x_role t = USIPY_SIP_TM_ROLE_UAC" "x_state t' \<noteq> USIPY_SIP_TM_STATE_TERMINATED \<or> x_state t' = x_state t"
  shows "slot_kept t t'"
proof -
  have f: "x_active t' = x_active t" "x_role t' = x_role t" "x_parent_index t' = x_parent_index t" "x_scratch t' = x_scratch t"
    "x_scratch_buf t' = x_scratch_buf t" "x_scratch_capacity t' = x_scratch_capacity t" "x_checkpoint t' = x_checkpoint t"
    "x_timers t' = x_timers t" "x_method_type t' = x_method_type t" "id_method_type (x_id t') = id_method_type (x_id t)"
    "x_cseq t' = x_cseq t" "(x_invite t' = None) = (x_invite t = None)" "x_uac t' = x_uac t" "x_flags t' = x_flags t"
    "x_callbacks t' = x_callbacks t"
    using assms(1) unfolding run_view_def by simp_all
  show ?thesis
  proof (rule client_kept)
    show "slot_ok t'" if "slot_ok t" using that unfolding slot_ok_def f .
    show "uac_inv t'" if "uac_inv t" using that assms(3) unfolding uac_inv_def f by auto
  qed (use f assms(2) in simp_all)
qed

lemma note_response_kept: "x_role t = USIPY_SIP_TM_ROLE_UAC \<Longrightarrow> slot_kept t (uac_note_response now code sc t)"
  by (rule run_view_kept) (simp_all add: run_view_def uac_note_response_def Let_def)

lemma start_timer_d_view:
  assumes "uac_start_timer_d now sc t = Some t'"
  shows "run_view t' = run_view t" "x_child_index t' = x_child_index t" "x_final_reported t' = x_final_reported t"
proof -
  have "t' = t \<or> (\<exists>v d. t' = set_timer USIPY_SIP_TM_TIMER_D v d t)"
    using assms by (auto simp: uac_start_timer_d_def bind_eq_Some_conv split: if_split_asm)
  then show "run_view t' = run_view t" "x_child_index t' = x_child_index t" "x_final_reported t' = x_final_reported t"
    by (auto simp: run_view_def tm_steps)
qed

lemma answered_kept:
  assumes "uac_start_timer_d now sc (usipy_sip_tm_tx_clear_invite_timeout t) = Some t'" "x_role t = USIPY_SIP_TM_ROLE_UAC"
  shows "slot_kept t (t'\<lparr>x_state := USIPY_SIP_TM_STATE_COMPLETED\<rparr>)" "x_active t' = x_active t" "x_role t' = x_role t"
    "x_child_index t' = x_child_index t" "x_final_reported t' = x_final_reported t"
proof -
  let ?u = "usipy_sip_tm_tx_clear_invite_timeout t"
  have v: "run_view ?u = run_view t" by (simp add: run_view_def usipy_sip_tm_tx_clear_invite_timeout_def)
  then have r: "run_view t' = run_view t" using start_timer_d_view(1)[OF assms(1)] by simp
  then have "run_view (t'\<lparr>x_state := USIPY_SIP_TM_STATE_COMPLETED\<rparr>) = run_view t" by (simp add: run_view_def)
  then show "slot_kept t (t'\<lparr>x_state := USIPY_SIP_TM_STATE_COMPLETED\<rparr>)" using assms(2) by (rule run_view_kept) simp
  show "x_active t' = x_active t" "x_role t' = x_role t" using r by (simp_all add: run_view_def)
  show "x_child_index t' = x_child_index t" "x_final_reported t' = x_final_reported t"
    using start_timer_d_view(2,3)[OF assms(1)] by (simp_all add: usipy_sip_tm_tx_clear_invite_timeout_def)
qed

lemma invite_ack_client:
  assumes inv: "tm_inv tm" and p: "x_active (txn tm i)" "x_role (txn tm i) = USIPY_SIP_TM_ROLE_UAC" "i < max_transactions tm"
    and o: "uac_invite_ack tm i = Some (r, ack, tm')"
  shows "client tm tm'" "ack = Some ai \<Longrightarrow> ack_at tm' ai \<and> ai < max_transactions tm'"
proof -
  have "client tm tm' \<and> (\<forall>ai. ack = Some ai \<longrightarrow> ack_at tm' ai \<and> ai < max_transactions tm')"
  proof (cases "x_child_index (txn tm i)")
    case None
    then obtain tm1 where c: "usipy_sip_tm_clone_uac_invite tm i USIPY_SIP_METHOD_ACK = Some (r, ack, tm1)"
      "tm' = (case ack of None \<Rightarrow> tm1 | Some ai \<Rightarrow> upd i (\<lambda>t. t\<lparr>x_child_index := Some ai\<rparr>) tm1)"
      using o by (auto simp: uac_invite_ack_def bind_eq_Some_conv)
    note C = clone_safe[OF inv p(3,1,2) c(1)]
    show ?thesis
    proof (cases ack)
      case None
      then show ?thesis using C(1) c(2) by simp
    next
      case (Some ai)
      have "client tm1 (upd i (\<lambda>t. t\<lparr>x_child_index := Some ai\<rparr>) tm1)" by (intro client_step child_step)
      moreover have "ack_at (upd i (\<lambda>t. t\<lparr>x_child_index := Some ai\<rparr>) tm1) ai"
        using C(2)[OF Some] client_inv[OF C(1) inv] p(3) by (simp add: ack_at_def opened_uac_def)
      ultimately show ?thesis using C(1) C(2)[OF Some] c(2) Some client_trans by auto
    qed
  next
    case (Some ai)
    then have a: "ai < max_transactions tm" "x_active (txn tm ai)" "id_method_type (x_id (txn tm ai)) = USIPY_SIP_METHOD_ACK"
      "ack = Some ai" "tm' = tm"
      using o by (auto simp: uac_invite_ack_def usipy_sip_tm_tx_is_ack_def)
    note I = tm_inv_slot[OF inv a(1)]
    have "ack_at tm ai"
      using I a(2,3) by (cases "x_role (txn tm ai)") (auto simp: ack_at_def uas_inv_def uac_inv_def)
    then show ?thesis using a by simp
  qed
  then show "client tm tm'" "ack = Some ai \<Longrightarrow> ack_at tm' ai \<and> ai < max_transactions tm'" by blast+
qed

lemma acknowledge_client:
  assumes pol: "policy_ok ev" and a: "ack_at tm ai" "ai < max_transactions tm"
    and o: "uac_acknowledge ev i ai msg sc now tm = Some (r, msg', tm')"
  shows "client tm tm'"
proof -
  obtain q msg1 tm1 where b: "uac_ack_build ev tm i ai msg sc = Some (q, msg1, tm1)"
    using o by (auto simp: uac_acknowledge_def bind_eq_Some_conv)
  note c1 = ack_build_client[OF pol a b]
  show ?thesis
  proof (cases "q = USIPY_SIP_TM_OK")
    case True
    then obtain p msg2 tm2 where n: "(if abandoned (txn tm1 i) then usipy_sip_tm_abandoned_uac ev tm1 i msg1 sc
         else Some (USIPY_SIP_TM_OK, msg1, tm1)) = Some (p, msg2, tm2)"
      "tm' = tm2 \<or> tm' = upd i (\<lambda>t. t\<lparr>x_final_reported := True\<rparr>) (upd ai (usipy_sip_tm_uac_arm_send_now now) tm2)"
      using o b by (auto simp: uac_acknowledge_def bind_eq_Some_conv Let_def split: if_split_asm)
    have "client tm1 tm2" using n(1) abandoned_uac_client[OF pol] by (auto split: if_split_asm)
    moreover have "client tm2 (upd ai (usipy_sip_tm_uac_arm_send_now now) tm2)" by (intro client_upd arm_now_kept)
    moreover have "client tm3 (upd i (\<lambda>t. t\<lparr>x_final_reported := True\<rparr>) tm3)" for tm3 :: "'a usipy_sip_tm"
      by (intro client_upd final_reported_kept)
    ultimately show ?thesis using c1 n(2) client_trans by blast
  next
    case False
    then show ?thesis using o b c1 by (simp add: uac_acknowledge_def)
  qed
qed

lemma invite_final_client:
  assumes pol: "policy_ok ev" and p: "x_active (txn tm i)" "x_role (txn tm i) = USIPY_SIP_TM_ROLE_UAC" "i < max_transactions tm"
    and o: "usipy_sip_tm_uac_handle_invite_final ev tm i msg sc now = Some (r, dl, msg', tm')"
  shows "client tm tm'"
proof (cases "tm_inv tm")
  case inv: True
  obtain tp where tp: "uac_start_timer_d now sc (usipy_sip_tm_tx_clear_invite_timeout (txn tm i)) = Some tp"
    using o by (auto simp: usipy_sip_tm_uac_handle_invite_final_def bind_eq_Some_conv)
  let ?tm1 = "upd i (\<lambda>_. tp\<lparr>x_state := USIPY_SIP_TM_STATE_COMPLETED\<rparr>) tm"
  note A = answered_kept[OF tp p(2)]
  have c1: "client tm ?tm1" using A(1) by (intro client_upd)
  have inv1: "tm_inv ?tm1" using client_inv[OF c1 inv] by simp
  have p1: "x_active (txn ?tm1 i)" "x_role (txn ?tm1 i) = USIPY_SIP_TM_ROLE_UAC" "i < max_transactions ?tm1"
    using p A by simp_all
  obtain q ack tm2 where k: "uac_invite_ack ?tm1 i = Some (q, ack, tm2)"
    using o tp by (auto simp: usipy_sip_tm_uac_handle_invite_final_def Let_def bind_eq_Some_conv)
  note K = invite_ack_client[OF inv1 p1 k]
  have "client tm2 tm'"
  proof (cases ack)
    case None
    then show ?thesis using o tp k by (simp add: usipy_sip_tm_uac_handle_invite_final_def Let_def)
  next
    case (Some ai)
    then obtain q2 msg2 where "uac_acknowledge ev i ai msg sc now tm2 = Some (q2, msg2, tm')"
      using o tp k by (auto simp: usipy_sip_tm_uac_handle_invite_final_def Let_def)
    then show ?thesis using K(2)[OF Some] by (intro acknowledge_client[OF pol]) simp_all
  qed
  then show ?thesis using c1 K(1) client_trans by blast
qed (simp add: client_def safe_def)

lemma note_provisional_kept:
  assumes "uac_note_provisional t = Some t'" "x_role t = USIPY_SIP_TM_ROLE_UAC"
  shows "slot_kept t t'" "x_active t' = x_active t" "x_role t' = x_role t"
proof -
  obtain iv iv' where "x_invite t = Some iv" "t' = t\<lparr>x_state := USIPY_SIP_TM_STATE_PROCEEDING, x_invite := Some iv'\<rparr>"
    using assms(1) by (auto simp: uac_note_provisional_def bind_eq_Some_conv Let_def)
  then show "slot_kept t t'" "x_active t' = x_active t" "x_role t' = x_role t"
    using assms(2) by (auto intro!: run_view_kept simp: run_view_def)
qed

lemma finish_client:
  assumes "upd_step i usipy_sip_tm_uac_finish_abandoned tm = Some tm'" "tm_inv tm \<Longrightarrow> \<not> server_at tm i"
  shows "client tm tm'"
  using assms(1) by (rule upd_step_client) (use assms(2) in \<open>auto simp: server_at_def intro: finish_abandoned_kept\<close>)

lemma arm_cleanup_client: "upd_step i (usipy_sip_tm_uac_arm_cleanup now) tm = Some tm' \<Longrightarrow> client tm tm'"
  by (rule upd_step_client) (auto intro: arm_cleanup_kept)

lemma release_client: "upd_step i usipy_sip_tm_release_outbound tm = Some tm' \<Longrightarrow> client tm tm'"
  by (rule upd_step_client) (auto intro: release_kept)

lemma not_server:
  assumes "client tm tm'" "tm_inv tm" "x_role (txn tm i) = USIPY_SIP_TM_ROLE_UAC" "i < max_transactions tm"
  shows "\<not> server_at tm' i"
  using assms by (auto simp: client_def server_at_def)

lemma provisional_client:
  assumes pol: "policy_ok ev" and p: "x_active (txn tm i)" "x_role (txn tm i) = USIPY_SIP_TM_ROLE_UAC" "i < max_transactions tm"
    and o: "uac_invite_provisional ev tm i now = Some tm'"
  shows "client tm tm'"
proof (cases "tm_inv tm")
  case inv: True
  obtain t where t: "uac_note_provisional (txn tm i) = Some t"
    using o by (auto simp: uac_invite_provisional_def upd_step_def bind_eq_Some_conv)
  let ?tm1 = "upd i (\<lambda>_. t) tm"
  note T = note_provisional_kept[OF t p(2)]
  have c1: "client tm ?tm1" using T(1) by (intro client_upd)
  have p1: "x_active (txn ?tm1 i)" "x_role (txn ?tm1 i) = USIPY_SIP_TM_ROLE_UAC" using p T by simp_all
  consider (no) "tm' = ?tm1" | (cancel) q tm2 tm3 where "usipy_sip_tm_uac_start_cancel ev ?tm1 i = Some (q, tm2)"
      "tm3 = tm2 \<or> upd_step i usipy_sip_tm_uac_finish_abandoned tm2 = Some tm3"
      "upd_step i (usipy_sip_tm_uac_arm_cleanup now) tm3 = Some tm'"
    using o t by (auto simp: uac_invite_provisional_def upd_step_def[of i uac_note_provisional] bind_eq_Some_conv split: if_split_asm)
  then show ?thesis
  proof cases
    case no
    then show ?thesis using c1 by simp
  next
    case cancel
    have c2: "client tm tm2" using c1 start_cancel_client[OF pol p1 cancel(1)] by (rule client_trans)
    have "client tm2 tm3"
      using cancel(2) finish_client[of i tm2 tm3] not_server[OF c2 inv p(2,3)] by auto
    then show ?thesis using c2 arm_cleanup_client[OF cancel(3)] client_trans by blast
  qed
qed (simp add: client_def safe_def)

lemma noninvite_final_kept:
  assumes "uac_noninvite_final now t = Some t'" "x_role t = USIPY_SIP_TM_ROLE_UAC"
  shows "slot_kept t t'"
proof -
  obtain v where "t' = (set_timer USIPY_SIP_TM_TIMER_K v (now + ucast v)
      (usipy_sip_tm_tx_clear_timer (usipy_sip_tm_tx_clear_invite_timeout t)))\<lparr>x_state := USIPY_SIP_TM_STATE_COMPLETED, x_final_reported := True\<rparr>"
    using assms(1) by (auto simp: uac_noninvite_final_def bind_eq_Some_conv Let_def)
  then show ?thesis
    using assms(2)
    by (auto intro!: run_view_kept simp: run_view_def tm_steps usipy_sip_tm_tx_clear_timer_def usipy_sip_tm_tx_clear_invite_timeout_def)
qed

lemma response_step_client:
  assumes pol: "policy_ok ev" and p: "x_active (txn tm i)" "x_role (txn tm i) = USIPY_SIP_TM_ROLE_UAC" "i < max_transactions tm"
    and o: "uac_response_step ev tm i invite msg sc now = Some (r, dl, msg', tm')"
  shows "client tm tm'"
proof -
  consider (prov) "uac_invite_provisional ev tm i now = Some tm'"
    | (final) "usipy_sip_tm_uac_handle_invite_final ev tm i msg sc now = Some (r, dl, msg', tm')"
    | (other) "upd_step i (uac_noninvite_final now) tm = Some tm'"
    | (same) "tm' = tm"
    using o by (auto simp: uac_response_step_def split: if_split_asm)
  then show ?thesis
  proof cases
    case prov
    then show ?thesis by (rule provisional_client[OF pol p])
  next
    case final
    then show ?thesis by (rule invite_final_client[OF pol p])
  next
    case other
    then show ?thesis by (rule upd_step_client) (use p in \<open>auto intro: noninvite_final_kept\<close>)
  qed simp
qed

text \<open>What the client side needs of the callbacks.\<close>

locale client_callbacks =
  fixes ev :: "'a tm_env"
  assumes identity: "policy_ok ev"
    and response: "ev_uac_response ev f c i msg tm = Some tm' \<Longrightarrow> safe tm tm'"
    and timeout: "ev_uac_timeout ev f c i tid tm = Some tm' \<Longrightarrow> safe tm tm'"
begin

lemma response_done_kept:
  assumes "uac_response_done sc i tm = Some (r, out, tm')"
  shows "safe tm tm'"
proof -
  have "tm' = tm \<or> upd_step i usipy_sip_tm_release_outbound tm = Some tm'"
    using assms by (auto simp: uac_response_done_def Let_def bind_eq_Some_conv split: if_split_asm)
  then show ?thesis using client_safe[OF release_client] by auto
qed

lemma response_kept:
  assumes "usipy_sip_tm_handle_incoming_response ev inp msg tid tm = Some (r, out, tm')"
  shows "safe tm tm'"
proof -
  obtain sl where sl: "sln_parsed (m_sline msg) = SL_status sl"
    using assms by (auto simp: usipy_sip_tm_handle_incoming_response_def split: usipy_sip_sline_parsed.split_asm)
  define sc where "sc = (ucast (st_code (sl_status sl) div 100) :: 8 word)"
  let ?P = "\<lambda>tp. \<not> (\<not> x_active tp \<or> x_role tp \<noteq> USIPY_SIP_TM_ROLE_UAC) \<and> usipy_sip_tm_tid_matches_tx tid tp"
  show ?thesis
  proof (cases "find_slot ?P tm")
    case None
    then show ?thesis using assms sl by (simp add: usipy_sip_tm_handle_incoming_response_def)
  next
    case (Some i)
    have p: "i < max_transactions tm" "x_active (txn tm i)" "x_role (txn tm i) = USIPY_SIP_TM_ROLE_UAC"
      using found_slot[OF Some] by simp_all
    let ?tm1 = "upd i (uac_note_response (hin_now_ms inp) (st_code (sl_status sl)) sc) tm"
    have c1: "client tm ?tm1" using p by (intro client_upd note_response_kept)
    have p1: "i < max_transactions ?tm1" "x_active (txn ?tm1 i)" "x_role (txn ?tm1 i) = USIPY_SIP_TM_ROLE_UAC"
      using p by (simp_all add: uac_note_response_def Let_def)
    note D = assms[unfolded usipy_sip_tm_handle_incoming_response_def sl usipy_sip_sline_parsed.case Let_def
        sc_def[symmetric] Some option.case]
    consider (again) "uac_response_done sc i tm = Some (r, out, tm')"
      | (new) q dl msg1 tm2 where
          "uac_response_step ev ?tm1 i (usipy_sip_tm_tx_is_invite (txn tm i)) msg sc (hin_now_ms inp) = Some (q, dl, msg1, tm2)"
          "tm' = tm2 \<or> (\<exists>tm3. (tm3 = tm2 \<or> (\<exists>f c. ev_uac_response ev f c i msg1 tm2 = Some tm3)) \<and>
             uac_response_done sc i tm3 = Some (r, out, tm'))"
    proof (cases "usipy_sip_tm_tx_is_invite (txn tm i) \<and> sc = 1 \<and> x_final_reported (txn tm i)")
      case True
      then show thesis by (intro again) (use D in simp)
    next
      case False
      obtain q dl msg1 tm2 where o: "uac_response_step ev ?tm1 i (usipy_sip_tm_tx_is_invite (txn tm i)) msg sc (hin_now_ms inp)
          = Some (q, dl, msg1, tm2)"
        using D False by (auto simp: bind_eq_Some_conv)
      show thesis
        by (rule new[OF o]) (use D o False in \<open>auto simp: bind_eq_Some_conv split: if_split_asm option.split_asm\<close>)
    qed
    then show ?thesis
    proof cases
      case again
      then show ?thesis by (rule response_done_kept)
    next
      case new
      then show ?thesis using client_safe[OF client_trans[OF c1 response_step_client[OF identity p1(2,3,1) new(1)]]]
          response response_done_kept safe_trans by metis
    qed
  qed
qed

end

end
