(* ===== verification/Usipy_Tmsystem.thy ===== *)
theory Usipy_Tmsystem
  imports Usipy_Tmpumpfacts
begin

unbundle bit_operations_syntax

text \<open>
  The whole manager as a system, with both kinds of transactions: what the application may call, what the
  pump and the network make happen, and that all of it keeps the invariant of the manager.
\<close>

subsection \<open>The pump of client transactions\<close>

lemma note_send_kept: "slot_kept t (usipy_sip_tm_uac_note_send now t)"
  by (rule view_kept) (simp_all add: slot_view_def usipy_sip_tm_uac_note_send_def Let_def)

lemma sync_kept: "slot_kept t (sync_outbound t)"
  by (rule view_kept) (simp_all add: slot_view_def tm_steps)

lemma unlinked_kept: "slot_kept t (t\<lparr>x_parent_index := None\<rparr>)" "slot_kept t (t\<lparr>x_child_index := c\<rparr>)"
  by (rule view_kept; simp add: slot_view_def)+

lemma next_send_kept: "x_role t = USIPY_SIP_TM_ROLE_UAC \<Longrightarrow> slot_kept t (set_next_send at t)"
  by (rule run_view_kept) (simp_all add: run_view_def tm_steps)

lemma post_send_invite_kept:
  assumes "usipy_sip_tm_uac_post_send_invite now t = Some t'" "x_role t = USIPY_SIP_TM_ROLE_UAC"
  shows "slot_kept t t'"
proof -
  obtain at u where "t' = set_next_send at u" "u = t \<or> (\<exists>iv. x_invite t \<noteq> None \<and> u = t\<lparr>x_invite := Some iv\<rparr>)"
    using assms(1) by (auto simp: usipy_sip_tm_uac_post_send_invite_def Let_def bind_eq_Some_conv split: if_split_asm)
  then show ?thesis using assms(2) next_send_kept[of u at] invite_kept slot_kept_trans[of t u] by auto
qed

lemma bind_SomeE: "m \<bind> f = Some y \<Longrightarrow> (\<And>x. m = Some x \<Longrightarrow> f x = Some y \<Longrightarrow> P) \<Longrightarrow> P"
  by (cases m) simp_all

lemma post_send_noninvite_kept:
  assumes "usipy_sip_tm_uac_post_send_noninvite now t = Some t'" "x_role t = USIPY_SIP_TM_ROLE_UAC"
  shows "slot_kept t t'"
proof -
  let ?timed = "(if tmr_type (x_timer t) = USIPY_SIP_TM_TIMER_NONE then do {
         v \<leftarrow> usipy_sip_tm_timer_f_ms (x_timers t);
         Some (set_timer USIPY_SIP_TM_TIMER_F v (now + ucast v) t)
       }
       else Some t)"
  obtain u where u: "?timed = Some u" "(if reliable u then Some (set_next_send USIPY_SIP_TM_TIME_NONE u)
      else do {
        delay \<leftarrow> usipy_sip_tm_uac_next_send_delay_ms u;
        Some (set_next_send (now + ucast delay) u)
      }) = Some t'"
    using assms(1) unfolding usipy_sip_tm_uac_post_send_noninvite_def by (rule bind_SomeE)
  have "u = t \<or> (\<exists>k v d. u = set_timer k v d t)"
    using u(1) by (auto simp: bind_eq_Some_conv split: if_split_asm)
  moreover from u(2) obtain at where "t' = set_next_send at u" by (auto simp: bind_eq_Some_conv split: if_split_asm)
  ultimately have "run_view t' = run_view t" "x_state t' = x_state t" by (auto simp: run_view_def tm_steps)
  then show ?thesis using assms(2) by (intro run_view_kept) simp_all
qed

text \<open>A slot that is, and stays, a client transaction.\<close>

definition client_at :: "'a usipy_sip_tm \<Rightarrow> nat \<Rightarrow> bool" where
  "client_at tm i \<longleftrightarrow> i < max_transactions tm \<and> x_active (txn tm i) \<and> x_role (txn tm i) = USIPY_SIP_TM_ROLE_UAC"

lemma client_at_D: "client_at tm i \<Longrightarrow> x_active (txn tm i)" "client_at tm i \<Longrightarrow> x_role (txn tm i) = USIPY_SIP_TM_ROLE_UAC"
  "client_at tm i \<Longrightarrow> i < max_transactions tm" "client_at tm i \<Longrightarrow> \<not> server_at tm i"
  by (simp_all add: client_at_def server_at_def)

lemma client_at_upd: "client_at tm i \<Longrightarrow> slot_kept (txn tm j) (f (txn tm j)) \<Longrightarrow> client_at (upd j f tm) i"
  by (cases "j < max_transactions tm") (auto simp: client_at_def slot_kept_def upd_beyond)

lemma kept_on_client:
  assumes "client_at tm i" "\<And>t. x_role t = USIPY_SIP_TM_ROLE_UAC \<Longrightarrow> slot_kept t (f t)"
  shows "client tm (upd i f tm)" "client_at (upd i f tm) i"
  using assms by (auto intro!: client_upd client_at_upd simp: client_at_D)

lemma upd_step_on_client:
  assumes "client_at tm i" "upd_step i f tm = Some tm'"
    "\<And>t t'. f t = Some t' \<Longrightarrow> x_role t = USIPY_SIP_TM_ROLE_UAC \<Longrightarrow> slot_kept t t'"
  shows "client tm tm'" "client_at tm' i"
proof -
  obtain t' where t': "f (txn tm i) = Some t'" "tm' = upd i (\<lambda>_. t') tm" using assms(2) by (auto simp: upd_step_def)
  have "slot_kept (txn tm i) t'" using assms(3)[OF t'(1)] assms(1) by (simp add: client_at_D)
  then show "client tm tm'" "client_at tm' i" unfolding t'(2) using assms(1) by (auto intro: client_upd client_at_upd)
qed

lemma after_send_client:
  assumes c: "client_at tm i" and o: "uac_after_send i now outp tm = Some (r, outp', tm')"
  shows "client tm tm'"
proof -
  let ?tm1 = "upd i (usipy_sip_tm_uac_note_send now) tm"
  note K1 = kept_on_client[OF c note_send_kept]
  have synced: "client tm2 (upd i sync_outbound tm2)" for tm2 :: "'a usipy_sip_tm" by (intro client_upd sync_kept)
  consider (ack) "tm' = upd i sync_outbound (upd i usipy_sip_tm_uac_post_send_ack ?tm1)"
    | (bye) bi where "tm' = upd i sync_outbound (upd i (\<lambda>t. t\<lparr>x_child_index := None\<rparr>)
        (upd bi (\<lambda>t. usipy_sip_tm_uac_arm_send_now now (t\<lparr>x_parent_index := None\<rparr>)) (upd i usipy_sip_tm_uac_post_send_ack ?tm1)))"
    | (invite) tm2 where "upd_step i (usipy_sip_tm_uac_post_send_invite now) ?tm1 = Some tm2" "tm' = upd i sync_outbound tm2"
    | (other) tm2 where "upd_step i (usipy_sip_tm_uac_post_send_noninvite now) ?tm1 = Some tm2" "tm' = upd i sync_outbound tm2"
    using o by (auto simp: uac_after_send_def Let_def bind_eq_Some_conv split: if_split_asm option.split_asm)
  then have rest: "client ?tm1 tm'"
  proof cases
    case ack
    have "client ?tm1 (upd i usipy_sip_tm_uac_post_send_ack ?tm1)"
      unfolding usipy_sip_tm_uac_post_send_ack_def by (intro kept_on_client[OF K1(2)] next_send_kept)
    then show ?thesis unfolding ack by (rule client_trans[OF _ synced])
  next
    case (bye bi)
    let ?tm2 = "upd i usipy_sip_tm_uac_post_send_ack ?tm1"
    have "client ?tm1 ?tm2"
      unfolding usipy_sip_tm_uac_post_send_ack_def by (intro kept_on_client[OF K1(2)] next_send_kept)
    also have "client ?tm2 (upd bi (\<lambda>t. usipy_sip_tm_uac_arm_send_now now (t\<lparr>x_parent_index := None\<rparr>)) ?tm2)"
      by (intro client_upd slot_kept_trans[OF unlinked_kept(1) arm_now_kept])
    also have "client \<dots> (upd i (\<lambda>t. t\<lparr>x_child_index := None\<rparr>) \<dots>)" by (intro client_upd unlinked_kept)
    finally show ?thesis unfolding bye by (rule client_trans[OF _ synced])
  next
    case invite
    show ?thesis
      unfolding invite(2) by (rule client_trans[OF upd_step_on_client(1)[OF K1(2) invite(1) post_send_invite_kept] synced])
  next
    case other
    show ?thesis
      unfolding other(2) by (rule client_trans[OF upd_step_on_client(1)[OF K1(2) other(1) post_send_noninvite_kept] synced])
  qed
  show ?thesis by (rule client_trans[OF K1(1) rest])
qed

lemma app_client: "client tm (tm\<lparr>tm_app := a\<rparr>)"
  using sound_safe[OF sound_app[of tm a]] by (simp add: client_def server_at_def)

lemma send_client:
  assumes pol: "policy_ok ev" and c: "client_at tm i" and o: "uac_send ev i now outp tm = Some (r, outp', tm')"
  shows "client tm tm'"
proof -
  obtain q tm1 where b: "(if snd (ob_raw (x_outbound (txn tm i))) = 0
       then run_act i (usipy_sip_tm_build_request ev tm i None []) tm else Some (USIPY_SIP_TM_OK, tm)) = Some (q, tm1)"
    using o by (auto simp: uac_send_def bind_eq_Some_conv)
  have c1: "client tm tm1"
    using b c run_request_client[OF _ build_request_rel[OF pol] client_at_D(4)[OF c] client_at_D(1)[OF c]]
    by (auto split: if_split_asm)
  have "client_at tm1 i" if "q = USIPY_SIP_TM_OK"
  proof (cases "tm1 = tm")
    case False
    then obtain t where "usipy_sip_tm_build_request ev tm i None [] (txn tm i) = Some (q, t)" "tm1 = upd i (\<lambda>_. t) tm"
      using b by (auto simp: run_act_def split: if_split_asm)
    then show ?thesis
      using step_inD[OF build_request_rel[OF pol]] c
      by (auto simp: client_at_def request_rel_def request_frame_def open_frame_def)
  qed (use c in simp)
  moreover have "client_at (tm1\<lparr>tm_app := a\<rparr>) i = client_at tm1 i" for a by (simp add: client_at_def)
  moreover obtain a where "tm' = tm1 \<or> tm' = tm1\<lparr>tm_app := a\<rparr> \<or>
      q = USIPY_SIP_TM_OK \<and> (\<exists>outp1. uac_after_send i now outp1 (tm1\<lparr>tm_app := a\<rparr>) = Some (r, outp', tm'))"
    using o b by (auto simp: uac_send_def bind_eq_Some_conv Let_def split: prod.split_asm if_split_asm)
  ultimately have "client tm1 tm'" using app_client after_send_client client_trans client_refl by metis
  then show ?thesis using c1 client_trans by blast
qed

context client_callbacks
begin

lemma call_timeout_kept: "call_timeout ev cb i tid tm = Some tm' \<Longrightarrow> safe tm tm'"
  using timeout by (auto simp: call_timeout_def split: option.split_asm)

lemma expire_kept:
  assumes c: "client_at tm i" and o: "usipy_sip_tm_uac_expire_invite ev i now outp tm = Some (b, outp', tm')"
  shows "safe tm tm' \<and> (b \<or> client_at tm' i)"
proof (cases "x_invite (txn tm i) = None")
  case False
  then obtain tm1 where a: "upd_step i (usipy_sip_tm_uac_arm_cleanup now) tm = Some tm1"
    using o by (auto simp: usipy_sip_tm_uac_expire_invite_def bind_eq_Some_conv)
  note K = upd_step_on_client[OF c a arm_cleanup_kept]
  have s1: "safe tm tm1" by (rule client_safe[OF K(1)])
  let ?ended = "upd i (\<lambda>t. usipy_sip_tm_tx_clear_invite_timeout (usipy_sip_tm_tx_mark_terminated t)) tm1"
  consider (no) "tm' = tm1" "\<not> b"
    | (first) tm2 tm3 cb tid where "b" "x_invite (txn tm1 i) \<noteq> None" "usipy_sip_tm_uac_abandon ev tm1 i = Some tm2"
        "upd_step i (usipy_sip_tm_uac_arm_cleanup now) tm2 = Some tm3" "call_timeout ev cb i tid tm3 = Some tm'"
    | (again) tm2 cb tid where "b" "call_timeout ev cb i tid ?ended = Some tm2"
        "upd_step i usipy_sip_tm_release_outbound tm2 = Some tm'"
    using o False a by (auto simp: usipy_sip_tm_uac_expire_invite_def bind_eq_Some_conv Let_def split: if_split_asm)
  then show ?thesis
  proof cases
    case no
    then show ?thesis using s1 K(2) by simp
  next
    case first
    have "safe tm1 tm2"
      using first(2,3) client_at_D[OF K(2)] by (intro client_safe[OF abandon_client[OF identity]])
    moreover have "safe tm2 tm3" using arm_cleanup_client[OF first(4)] by (rule client_safe)
    ultimately show ?thesis using first(1) s1 call_timeout_kept[OF first(5)] safe_trans by blast
  next
    case again
    have "safe tm1 ?ended"
      by (rule client_safe, rule kept_on_client(1)[OF K(2)])
        (auto intro: slot_kept_trans[OF client_terminated_kept clear_timeout_kept])
    then show ?thesis using again(1) s1 call_timeout_kept[OF again(2)] client_safe[OF release_client[OF again(3)]] safe_trans by blast
  qed
qed (use o c in \<open>auto simp: usipy_sip_tm_uac_expire_invite_def\<close>)

lemma client_timer_kept:
  assumes o: "uac_timer_due ev i outp tm = Some (r, outp', tm')"
  shows "safe tm tm'"
proof -
  let ?tm1 = "upd i (\<lambda>t. usipy_sip_tm_tx_clear_timer (usipy_sip_tm_tx_mark_terminated t)) tm"
  obtain tm2 tm3 where s: "usipy_sip_tm_tx_terminate_child (max_transactions ?tm1) i ?tm1 = Some tm2"
    "tm3 = tm2 \<or> (\<exists>cb. call_timeout ev cb i USIPY_SIP_TM_TIMEOUT_NONE tm2 = Some tm3)"
    "tm' = tm3 \<or> upd_step i usipy_sip_tm_release_outbound tm3 = Some tm'"
    using o by (auto simp: uac_timer_due_def bind_eq_Some_conv Let_def split: if_split_asm)
  have "client tm ?tm1" by (intro client_upd terminated_kept)
  also have "client ?tm1 tm2" by (rule terminate_child_client[OF s(1)])
  finally have "safe tm tm2" by (rule client_safe)
  moreover have "safe tm2 tm3" using s(2) call_timeout_kept by auto
  moreover have "safe tm3 tm'" using s(3) client_safe[OF release_client] by auto
  ultimately show ?thesis using safe_trans by blast
qed

lemma client_run_kept:
  assumes c: "client_at tm i" and o: "usipy_sip_tm_uac_run ev i now outp tm = Some (r, outp', tm')"
  shows "safe tm tm'"
proof -
  consider (no) "tm' = tm"
    | (run) b outp1 tm1 where "usipy_sip_tm_uac_expire_invite ev i now outp tm = Some (b, outp1, tm1)"
        "tm' = tm1 \<or> uac_timer_due ev i outp1 tm1 = Some (r, outp', tm') \<or> \<not> b \<and> uac_send ev i now outp1 tm1 = Some (r, outp', tm')"
    using o by (auto simp: usipy_sip_tm_uac_run_def bind_eq_Some_conv Let_def split: if_split_asm)
  then show ?thesis
  proof cases
    case run
    note E = expire_kept[OF c run(1)]
    then show ?thesis using run(2) client_timer_kept client_safe[OF send_client[OF identity]] safe_trans by blast
  qed simp
qed

end

subsection \<open>The application's calls on client transactions\<close>

lemma flag_dropped: "has_flag (a AND NOT b) f \<Longrightarrow> has_flag a f"
  by (auto simp: has_flag_def bit_eq_iff bit_simps)

lemmas termination_dropped = flag_dropped[of _ USIPY_SIP_TM_F_TERMINATED, simplified]

lemma transition_kept:
  assumes "usipy_sip_tm_transition USIPY_SIP_TM_STATE_CALLING t = Some (r, t')"
  shows "x_role t = USIPY_SIP_TM_ROLE_UAC" "r \<noteq> USIPY_SIP_TM_OK \<Longrightarrow> t' = t" "slot_kept t t'" "x_role t' = USIPY_SIP_TM_ROLE_UAC"
    "r = USIPY_SIP_TM_OK \<Longrightarrow> x_state t' = USIPY_SIP_TM_STATE_CALLING"
proof -
  show role: "x_role t = USIPY_SIP_TM_ROLE_UAC"
    using assms by (auto simp: usipy_sip_tm_transition_def usipy_sip_tm_transition_allowed_def bind_eq_Some_conv split: if_split_asm)
  have t': "r \<noteq> USIPY_SIP_TM_OK \<and> t' = t \<or> r = USIPY_SIP_TM_OK \<and>
      t' = drop_flag USIPY_SIP_TM_F_TERMINATED (t\<lparr>x_state := USIPY_SIP_TM_STATE_CALLING\<rparr>)"
    using assms by (auto simp: usipy_sip_tm_transition_def bind_eq_Some_conv split: if_split_asm)
  have "slot_kept t (drop_flag USIPY_SIP_TM_F_TERMINATED (t\<lparr>x_state := USIPY_SIP_TM_STATE_CALLING\<rparr>))"
    using role by (intro client_kept) (auto simp: tm_steps slot_ok_def uac_inv_def dest: termination_dropped)
  then show "r \<noteq> USIPY_SIP_TM_OK \<Longrightarrow> t' = t" "slot_kept t t'" "x_role t' = USIPY_SIP_TM_ROLE_UAC"
    "r = USIPY_SIP_TM_OK \<Longrightarrow> x_state t' = USIPY_SIP_TM_STATE_CALLING"
    using t' role by (auto simp: tm_steps)
qed

lemma reset_runtime_kept:
  assumes "x_role t = USIPY_SIP_TM_ROLE_UAC" "x_state t \<noteq> USIPY_SIP_TM_STATE_TERMINATED"
  shows "slot_kept t (usipy_sip_tm_tx_reset_uac_runtime (t\<lparr>x_cseq := (x_cseq t)\<lparr>cseq_val := v\<rparr>\<rparr>))" (is "slot_kept t ?u")
proof -
  have "x_flags ?u = x_flags t AND NOT USIPY_SIP_TM_F_TERMINATED" "x_role ?u = x_role t"
    by (simp_all add: usipy_sip_tm_tx_reset_uac_runtime_def Let_def tm_steps usipy_sip_tm_tx_clear_timer_def clear_ids_def set_outbound_def)
  then show ?thesis
    using assms
    by (intro client_kept)
      (auto simp: usipy_sip_tm_tx_reset_uac_runtime_def Let_def tm_steps usipy_sip_tm_tx_clear_timer_def clear_ids_def
        set_outbound_def slot_ok_def uac_inv_def dest: termination_dropped)
qed

lemma run_actD: "run_act i a tm = Some (r, tm') \<Longrightarrow> \<exists>t'. a (txn tm i) = Some (r, t') \<and> tm' = upd i (\<lambda>_. t') tm"
  by (auto simp: run_act_def)

lemma next_request_kept:
  assumes pol: "policy_ok ev" and o: "acts
      [usipy_sip_tm_transition USIPY_SIP_TM_STATE_CALLING,
       act_set (\<lambda>t. usipy_sip_tm_tx_reset_uac_runtime (t\<lparr>x_cseq := (x_cseq t)\<lparr>cseq_val := cseq_val (x_cseq t) + 1\<rparr>\<rparr>)),
       usipy_sip_tm_prepare_ids ev tm i, usipy_sip_tm_build_request ev tm i payload ehs] t = Some (r, t')"
  shows "slot_kept t t'"
proof -
  obtain q u where q: "usipy_sip_tm_transition USIPY_SIP_TM_STATE_CALLING t = Some (q, u)"
    using o by (auto simp: bind_eq_Some_conv)
  note T = transition_kept[OF q]
  show ?thesis
  proof (cases "q = USIPY_SIP_TM_OK")
    case True
    let ?v = "usipy_sip_tm_tx_reset_uac_runtime (u\<lparr>x_cseq := (x_cseq u)\<lparr>cseq_val := cseq_val (x_cseq u) + 1\<rparr>\<rparr>)"
    have R: "step_in request_rel (acts [usipy_sip_tm_prepare_ids ev tm i, usipy_sip_tm_build_request ev tm i payload ehs])"
      by (intro writing.acts_Cons writing.acts_Nil prepare_ids_rel build_request_rel pol)
    have w: "acts [usipy_sip_tm_prepare_ids ev tm i, usipy_sip_tm_build_request ev tm i payload ehs] ?v = Some (r, t')"
      using o q True by (simp add: act_set_def)
    have k: "slot_kept u ?v" using T(4,5) True by (intro reset_runtime_kept) simp_all
    then have "x_role ?v = USIPY_SIP_TM_ROLE_UAC" using T(4) by (simp add: slot_kept_def)
    then have "slot_kept ?v t'" using step_inD[OF R w] by (intro written_kept)
    then show ?thesis using T(3) k slot_kept_trans by blast
  next
    case False
    then show ?thesis using o q T(3) by simp
  qed
qed

lemma next_transaction_client:
  assumes pol: "policy_ok ev" and o: "usipy_sip_tm_next_transaction ev tm i payload ehs = Some (r, tm')"
  shows "client tm tm'"
proof -
  let ?as = "\<lambda>tm. [usipy_sip_tm_transition USIPY_SIP_TM_STATE_CALLING,
       act_set (\<lambda>t. usipy_sip_tm_tx_reset_uac_runtime (t\<lparr>x_cseq := (x_cseq t)\<lparr>cseq_val := cseq_val (x_cseq t) + 1\<rparr>\<rparr>)),
       usipy_sip_tm_prepare_ids ev tm i, usipy_sip_tm_build_request ev tm i payload ehs]"
  obtain tm1 where tm1: "tm1 = tm \<or> tm1 = upd i (\<lambda>t. t\<lparr>x_child_index := None\<rparr>) tm"
    "tm' = tm1 \<or> run_act i (acts (?as tm1)) tm1 = Some (r, tm')"
    using o by (auto simp: usipy_sip_tm_next_transaction_def bind_eq_Some_conv Let_def simp del: acts.simps
        split: if_split_asm option.split_asm)
  have "client tm tm1" using tm1(1) unlinked_kept(2) by (auto intro: client_upd)
  moreover have "client tm1 tm'" if run: "run_act i (acts (?as tm1)) tm1 = Some (r, tm')"
  proof -
    obtain t' where t': "acts (?as tm1) (txn tm1 i) = Some (r, t')" "tm' = upd i (\<lambda>_. t') tm1"
      using run_actD[OF run] by blast
    show ?thesis unfolding t'(2) using next_request_kept[OF pol t'(1)] by (intro client_upd)
  qed
  ultimately show ?thesis using tm1(2) client_trans by blast
qed

lemma cancel_client:
  assumes pol: "policy_ok ev" and o: "usipy_sip_tm_cancel ev tm i = Some (r, tm')"
  shows "client tm tm'"
proof -
  consider (no) "tm' = tm"
    | (mark) f tm1 where "i < max_transactions tm" "x_active (txn tm i)" "x_role (txn tm i) = USIPY_SIP_TM_ROLE_UAC"
        "upd_invite i f tm = Some tm1" "tm' = tm1 \<or> usipy_sip_tm_uac_abandon ev tm1 i = Some tm'"
    using o by (auto simp: usipy_sip_tm_cancel_def bind_eq_Some_conv Let_def split: if_split_asm)
  then show ?thesis
  proof cases
    case mark
    obtain iv where "tm1 = upd i (\<lambda>t. t\<lparr>x_invite := Some iv\<rparr>) tm"
      using mark(4) by (auto simp: upd_invite_def bind_eq_Some_conv)
    then have "x_active (txn tm1 i)" "x_role (txn tm1 i) = USIPY_SIP_TM_ROLE_UAC" "x_invite (txn tm1 i) \<noteq> None"
      "i < max_transactions tm1" using mark(1-3) by simp_all
    then have "client tm1 tm'" using mark(5) abandon_client[OF pol] by auto
    then show ?thesis using upd_invite_client[OF mark(4)] client_trans by blast
  qed simp
qed

subsection \<open>The manager as a system\<close>

text \<open>What the application may call, the calls on server transactions included.\<close>

inductive tm_call :: "'a tm_env \<Rightarrow> 'a usipy_sip_tm \<Rightarrow> 'a usipy_sip_tm \<Rightarrow> bool" for ev where
  server_call: "uas_call ev tm tm' \<Longrightarrow> tm_call ev tm tm'"
| open_uac_tr: "usipy_sip_tm_new_uac_tr ev tm tpp = Some (r, idx, tm') \<Longrightarrow> tm_call ev tm tm'"
| open_in_dialog: "usipy_sip_tm_new_in_dialog_transaction ev tm ndp = Some (r, idx, tm') \<Longrightarrow> tm_call ev tm tm'"
| send_next: "usipy_sip_tm_next_transaction ev tm i payload ehs = Some (r, tm') \<Longrightarrow> tm_call ev tm tm'"
| cancel_tr: "usipy_sip_tm_cancel ev tm i = Some (r, tm') \<Longrightarrow> tm_call ev tm tm'"

lemma tm_call_safe:
  assumes "policy_ok ev" "tm_call ev tm tm'"
  shows "safe tm tm'"
proof (cases "tm_inv tm")
  case inv: True
  from assms(2) show ?thesis
  proof cases
    case server_call
    then show ?thesis by (rule sound_safe[OF uas_call_sound[OF assms(1)]])
  next
    case open_uac_tr
    then show ?thesis by (rule client_safe[OF new_uac_safe(1)[OF inv assms(1)]])
  next
    case open_in_dialog
    then show ?thesis by (rule client_safe[OF new_in_dialog_safe(1)[OF inv assms(1)]])
  next
    case send_next
    then show ?thesis by (rule client_safe[OF next_transaction_client[OF assms(1)]])
  next
    case cancel_tr
    then show ?thesis by (rule client_safe[OF cancel_client[OF assms(1)]])
  qed
qed (simp add: safe_def)

lemma tm_calls_safe: "(tm_call ev)\<^sup>*\<^sup>* tm tm' \<Longrightarrow> policy_ok ev \<Longrightarrow> safe tm tm'"
  by (induction rule: rtranclp_induct) (auto intro: safe_trans tm_call_safe)

lemma server_calls: "(uas_call ev)\<^sup>*\<^sup>* tm tm' \<Longrightarrow> (tm_call ev)\<^sup>*\<^sup>* tm tm'"
  by (erule rtranclp_mono[THEN predicate2D, rotated]) (auto intro: server_call)

text \<open>The contract of the application: every callback moves the manager by calls only.\<close>

definition callbacks_ok :: "'a tm_env \<Rightarrow> bool" where
  "callbacks_ok ev \<longleftrightarrow> policy_ok ev \<and>
     (\<forall>f a i msg tm tm'. ev_uac_response ev f a i msg tm = Some tm' \<longrightarrow> (tm_call ev)\<^sup>*\<^sup>* tm tm') \<and>
     (\<forall>f a i tid tm tm'. ev_uac_timeout ev f a i tid tm = Some tm' \<longrightarrow> (tm_call ev)\<^sup>*\<^sup>* tm tm') \<and>
     (\<forall>f a i msg tm tm'. ev_uas_cancel ev f a i msg tm = Some tm' \<longrightarrow> (tm_call ev)\<^sup>*\<^sup>* tm tm') \<and>
     (\<forall>f a i tm r tm'. ev_uas_no_ack ev f a i tm = Some (r, tm') \<longrightarrow> (tm_call ev)\<^sup>*\<^sup>* tm tm') \<and>
     (\<forall>f n inp msg tm tm'. ev_incoming_request ev f n inp msg tm = Some tm' \<longrightarrow> (tm_call ev)\<^sup>*\<^sup>* tm tm') \<and>
     (\<forall>n now tm tm'. ev_owner_sent ev n now tm = Some tm' \<longrightarrow> (tm_call ev)\<^sup>*\<^sup>* tm tm') \<and>
     (\<forall>n tm tm'. ev_owner_acked ev n tm = Some tm' \<longrightarrow> (tm_call ev)\<^sup>*\<^sup>* tm tm') \<and>
     (\<forall>n tm r tm'. ev_owner_timeout ev n tm = Some (r, tm') \<longrightarrow> (tm_call ev)\<^sup>*\<^sup>* tm tm')"

locale tm_application =
  fixes ev :: "'a tm_env"
  assumes contract: "callbacks_ok ev"
begin

lemma identities: "policy_ok ev"
  using contract by (simp add: callbacks_ok_def)

lemma calls_safe: "(tm_call ev)\<^sup>*\<^sup>* tm tm' \<Longrightarrow> safe tm tm'"
  using tm_calls_safe identities by blast

end

sublocale tm_application \<subseteq> server_side: tm_callbacks ev safe
proof unfold_locales
  show "sound tm tm' \<Longrightarrow> safe tm tm'" for tm tm' :: "'a usipy_sip_tm" by (rule sound_safe)
  show "safe tm tm1 \<Longrightarrow> safe tm1 tm2 \<Longrightarrow> safe tm tm2" for tm tm1 tm2 :: "'a usipy_sip_tm" by (rule safe_trans)
qed (use contract calls_safe in \<open>simp_all add: callbacks_ok_def\<close>)

sublocale tm_application \<subseteq> client_side: client_callbacks ev
proof unfold_locales
  show "policy_ok ev" by (rule identities)
qed (use contract calls_safe in \<open>simp_all add: callbacks_ok_def\<close>)

text \<open>A step of the system: a call, one pass of the pump, one datagram, or the reaper.\<close>

inductive tm_step :: "'a tm_env \<Rightarrow> 'a usipy_sip_tm \<Rightarrow> 'a usipy_sip_tm \<Rightarrow> bool" for ev where
  call: "tm_call ev tm tm' \<Longrightarrow> tm_step ev tm tm'"
| run_all: "usipy_sip_tm_run ev now with_out tm = Some (r, outp, tm') \<Longrightarrow> tm_step ev tm tm'"
| datagram: "usipy_sip_tm_handle_incoming ev mem inp tm = Some (e, out, tm') \<Longrightarrow> tm_step ev tm tm'"
| reap_all: "tm_step ev tm (usipy_sip_tm_reap_terminated tm)"

context tm_application
begin

lemma run_slots_safe:
  "run_slots ev now is outp tm = Some (r, outp', tm') \<Longrightarrow> \<forall>i\<in>set is. i < max_transactions tm \<Longrightarrow> safe tm tm'"
proof (induction "is" arbitrary: outp tm)
  case (Cons i ks)
  show ?case
  proof (cases "tm_inv tm \<and> x_active (txn tm i)")
    case True
    then obtain q outp1 tm1 where run: "(case x_role (txn tm i) of
            USIPY_SIP_TM_ROLE_UAC \<Rightarrow> usipy_sip_tm_uac_run ev i now outp tm
          | USIPY_SIP_TM_ROLE_UAS \<Rightarrow> usipy_sip_tm_uas_run ev i now outp tm) = Some (q, outp1, tm1)"
      "tm' = tm1 \<or> run_slots ev now ks outp1 tm1 = Some (r, outp', tm')"
      using Cons.prems(1) by (auto simp: bind_eq_Some_conv split: if_split_asm)
    have lt: "i < max_transactions tm" using Cons.prems(2) by simp
    have s: "safe tm tm1"
      using run(1) True lt client_side.client_run_kept[of tm i now outp q outp1 tm1]
        server_side.run_kept[of i now outp tm q outp1 tm1]
      by (cases "x_role (txn tm i)") (simp_all add: client_at_def)
    then have "max_transactions tm1 = max_transactions tm" using True by (simp add: safe_def)
    then have "tm' = tm1 \<or> safe tm1 tm'" using run(2) Cons.IH[of outp1 tm1] Cons.prems(2) by auto
    then show ?thesis using s safe_trans by blast
  next
    case False
    then show ?thesis using Cons by (auto simp: safe_def)
  qed
qed auto

lemma incoming_safe:
  assumes "usipy_sip_tm_handle_incoming ev mem inp tm = Some (e, out, tm')"
  shows "safe tm tm'"
proof -
  consider "tm' = tm" | msg tid q o1 where "(case m_kind msg of
                 USIPY_SIP_MSG_RES \<Rightarrow> usipy_sip_tm_handle_incoming_response ev inp msg tid tm
               | USIPY_SIP_MSG_REQ \<Rightarrow> usipy_sip_tm_handle_incoming_request ev inp msg tid tm
               | _ \<Rightarrow> Some (USIPY_SIP_TM_ERR_UNSUPPORTED, None, tm)) = Some (q, o1, tm')"
    using assms
    by (auto simp: usipy_sip_tm_handle_incoming_def bind_eq_Some_conv split: option.split_asm)
  then show ?thesis
    using client_side.response_kept server_side.request_kept by cases (auto split: usipy_sip_msg_kind.split_asm)
qed

lemma tm_step_safe: "tm_step ev tm tm' \<Longrightarrow> safe tm tm'"
proof (induction rule: tm_step.induct)
  case call
  then show ?case by (rule tm_call_safe[OF identities])
next
  case run_all
  then show ?case by (auto simp: usipy_sip_tm_run_def dest: run_slots_safe)
next
  case datagram
  then show ?case by (rule incoming_safe)
next
  case reap_all
  show ?case by (rule sound_safe[OF reap_sound])
qed

lemma tm_steps_safe: "(tm_step ev)\<^sup>*\<^sup>* tm tm' \<Longrightarrow> safe tm tm'"
  by (induction rule: rtranclp_induct) (auto intro: safe_trans tm_step_safe)

end

subsection \<open>An application for both sides\<close>

text \<open>A transaction is dropped at its first response and when it times out; requests are left to \<open>ev\<close>.\<close>

definition forgetting :: "'a tm_env \<Rightarrow> 'a tm_env" where
  "forgetting ev = ev
     \<lparr>ev_uac_response := (\<lambda>f a i msg tm. Some (snd (usipy_sip_tm_drop_transaction tm i))),
      ev_uac_timeout := (\<lambda>f a i tid tm. Some (snd (usipy_sip_tm_drop_transaction tm i)))\<rparr>"

lemma forgetting_calls: "uas_call (forgetting ev) tm tm' \<longleftrightarrow> uas_call ev tm tm'"
proof -
  have sel: "ev_stk (forgetting ev) = ev_stk ev" "ev_tid0 (forgetting ev) = ev_tid0 ev"
    "ev_server (forgetting ev) = ev_server ev" "ev_id_policy (forgetting ev) = ev_id_policy ev"
    by (simp_all add: forgetting_def)
  have t: "usipy_sip_tm_uas_prepare_local_tag (forgetting ev) = usipy_sip_tm_uas_prepare_local_tag ev"
    by (intro ext) (simp add: usipy_sip_tm_uas_prepare_local_tag_def sel split: option.split)
  have f: "uas_fill (forgetting ev) = uas_fill ev"
    by (intro ext) (unfold uas_fill_def t sel, rule refl)
  have n: "usipy_sip_tm_new_uas_tr (forgetting ev) = usipy_sip_tm_new_uas_tr ev"
    by (intro ext) (unfold usipy_sip_tm_new_uas_tr_def f sel, rule refl)
  have r: "usipy_sip_tm_send_uas_response (forgetting ev) = usipy_sip_tm_send_uas_response ev"
    by (intro ext) (unfold usipy_sip_tm_send_uas_response_def sel, rule refl)
  show ?thesis unfolding uas_call.simps n r ..
qed

lemma forgetting_ok:
  assumes "application_ok ev"
  shows "callbacks_ok (forgetting ev)"
proof -
  have c: "(uas_call (forgetting ev))\<^sup>*\<^sup>* = (uas_call ev)\<^sup>*\<^sup>*"
    by (intro arg_cong[where f = rtranclp] ext) (rule forgetting_calls)
  have s: "(tm_call (forgetting ev))\<^sup>*\<^sup>* tm tm'" if "(uas_call ev)\<^sup>*\<^sup>* tm tm'" for tm tm'
    by (rule server_calls) (use that in \<open>simp add: c\<close>)
  have d: "(tm_call (forgetting ev))\<^sup>*\<^sup>* tm (snd (usipy_sip_tm_drop_transaction tm i))" for tm i
    by (rule s, rule r_into_rtranclp, rule drop_tr[of _ i]) (rule prod.collapse[symmetric])
  have p: "policy_ok (forgetting ev)" using assms by (simp add: application_ok_def policy_ok_def forgetting_def)
  have "ev_uas_cancel (forgetting ev) = ev_uas_cancel ev" "ev_uas_no_ack (forgetting ev) = ev_uas_no_ack ev"
    "ev_incoming_request (forgetting ev) = ev_incoming_request ev" "ev_owner_sent (forgetting ev) = ev_owner_sent ev"
    "ev_owner_acked (forgetting ev) = ev_owner_acked ev" "ev_owner_timeout (forgetting ev) = ev_owner_timeout ev"
    "ev_uac_response (forgetting ev) = (\<lambda>f a i msg tm. Some (snd (usipy_sip_tm_drop_transaction tm i)))"
    "ev_uac_timeout (forgetting ev) = (\<lambda>f a i tid tm. Some (snd (usipy_sip_tm_drop_transaction tm i)))"
    by (simp_all add: forgetting_def)
  note sel = this
  show ?thesis
    using assms d s p by (simp add: callbacks_ok_def application_ok_def sel)
qed

interpretation forgetter: tm_application "forgetting (answering (\<lambda>_. usipy_sip_res_req_term) quiet_env)"
  by unfold_locales (rule forgetting_ok[OF refuser.application])

end
