(* ===== verification/System_Properties.thy ===== *)
theory System_Properties
  imports Usipy_Tmsystem Transaction_Properties
begin

unbundle bit_operations_syntax

text \<open>
  The property of the whole transaction manager, client and server transactions together.
\<close>



end
